(* ===== verification/Prelude.thy ===== *)
theory Prelude
  imports "HOL-Library.Word"
begin

unbundle bit_operations_syntax

text \<open>
  Shared vocabulary of the development: fixed-width integers, the faults a C function can run
  into, the state-passing commands the drivers are written in together with their weakest
  preconditions, and the lemmas on words and lists that the component theories use.
\<close>

section \<open>Integers and faults\<close>

type_synonym u8 = "8 word"
type_synonym u16 = "16 word"
type_synonym u32 = "32 word"
type_synonym u64 = "64 word"

text \<open>
  \<open>Out_Of_Fuel\<close> is a polling loop that did not end within the number of polls the
  environment allows, \<open>Spin\<close> a loop that the source never leaves (\<^verbatim>\<open>while (true);\<close>),
  \<open>Div_By_Zero\<close> and \<open>Out_Of_Bounds\<close> are undefined behaviour of C.
\<close>

datatype fault = Out_Of_Fuel | Spin | Div_By_Zero | Out_Of_Bounds

text \<open>A computation that may fault, without a state.\<close>

definition bindE :: "fault + 'a \<Rightarrow> ('a \<Rightarrow> fault + 'b) \<Rightarrow> fault + 'b" where
  "bindE m f = (case m of Inl e \<Rightarrow> Inl e | Inr x \<Rightarrow> f x)"

lemma bindE_simps [simp]: "bindE (Inl e) f = Inl e" "bindE (Inr x) f = f x"
  by (simp_all add: bindE_def)

lemma bindE_cong [fundef_cong]:
  "m = m' \<Longrightarrow> (\<And>x. m' = Inr x \<Longrightarrow> f x = g x) \<Longrightarrow> bindE m f = bindE m' g"
  by (auto simp: bindE_def split: sum.splits)

lemma bindE_Inr [simp]: "bindE m f = Inr y \<longleftrightarrow> (\<exists>x. m = Inr x \<and> f x = Inr y)"
  by (cases m) auto

lemma bindE_Inl: "bindE m f = Inl e \<longleftrightarrow> m = Inl e \<or> (\<exists>x. m = Inr x \<and> f x = Inl e)"
  by (cases m) auto

text \<open>\<open>okE m P\<close>: the computation does not fault and its result satisfies \<open>P\<close>.\<close>

definition okE :: "fault + 'a \<Rightarrow> ('a \<Rightarrow> bool) \<Rightarrow> bool" where
  "okE m P = (case m of Inl e \<Rightarrow> False | Inr x \<Rightarrow> P x)"

lemma okE_simps [simp]: "okE (Inr x) P = P x" "okE (Inl e) P = False"
  by (simp_all add: okE_def)

lemma okE_bind: "okE (bindE m f) P = okE m (\<lambda>x. okE (f x) P)"
  by (cases m) auto

lemma okE_mono: "okE m P \<Longrightarrow> (\<And>x. m = Inr x \<Longrightarrow> P x \<Longrightarrow> Q x) \<Longrightarrow> okE m Q"
  by (cases m) auto

lemma okED: "okE m P \<Longrightarrow> \<exists>x. m = Inr x \<and> P x"
  by (cases m) auto

section \<open>Memory\<close>

text \<open>
  A C array is a base address and a size in a byte-addressed memory; an access outside it is
  the fault \<open>Out_Of_Bounds\<close>. Two arrays may overlap.
\<close>

type_synonym mem = "u32 \<Rightarrow> u8"

definition ld :: "mem \<Rightarrow> u32 \<Rightarrow> nat \<Rightarrow> nat \<Rightarrow> fault + u8" where
  "ld m base n i = (if i < n then Inr (m (base + of_nat i)) else Inl Out_Of_Bounds)"

definition st :: "mem \<Rightarrow> u32 \<Rightarrow> nat \<Rightarrow> nat \<Rightarrow> u8 \<Rightarrow> fault + mem" where
  "st m base n i v = (if i < n then Inr (m(base + of_nat i := v)) else Inl Out_Of_Bounds)"

definition mem_bytes :: "mem \<Rightarrow> u32 \<Rightarrow> nat \<Rightarrow> u8 list" where
  "mem_bytes m base n = map (\<lambda>i. m (base + of_nat i)) [0..<n]"

definition apart :: "u32 \<Rightarrow> nat \<Rightarrow> u32 \<Rightarrow> nat \<Rightarrow> bool" where
  "apart a n b k \<longleftrightarrow> (\<forall>i<n. \<forall>j<k. a + of_nat i \<noteq> b + of_nat j)"

text \<open>Unsigned 32-bit arithmetic on natural numbers, with the wrap-around written out.\<close>

definition add32 :: "nat \<Rightarrow> nat \<Rightarrow> nat" where
  "add32 a b = (a + b) mod 2 ^ 32"

definition sub32 :: "nat \<Rightarrow> nat \<Rightarrow> nat" where
  "sub32 a b = (a + 2 ^ 32 - b) mod 2 ^ 32"

lemma add32_exact: "a + b < 2 ^ 32 \<Longrightarrow> add32 a b = a + b"
  by (simp add: add32_def)

lemma sub32_exact: "b \<le> a \<Longrightarrow> a < 2 ^ 32 \<Longrightarrow> sub32 a b = a - b"
proof -
  assume "b \<le> a" "a < 2 ^ 32"
  then have "a + 2 ^ 32 - b = (a - b) + 2 ^ 32" "a - b < 2 ^ 32" by auto
  then show "sub32 a b = a - b" by (simp only: sub32_def mod_add_self2 mod_less)
qed

lemma of_nat_u32_inj: "i < 2 ^ 32 \<Longrightarrow> j < 2 ^ 32 \<Longrightarrow> (of_nat i :: u32) = of_nat j \<longleftrightarrow> i = j"
  by (simp add: word_of_nat_eq_iff take_bit_nat_eq_self)

lemma unat_of_nat_u32: "i < 2 ^ 32 \<Longrightarrow> unat (of_nat i :: u32) = i"
  by (simp add: unat_of_nat)

lemma unat_of_nat_u8: "i < 2 ^ 8 \<Longrightarrow> unat (of_nat i :: u8) = i"
  by (simp add: unat_of_nat)

lemma ld_exact [simp]: "i < n \<Longrightarrow> ld m base n i = Inr (m (base + of_nat i))"
  by (simp add: ld_def)

lemma st_exact [simp]: "i < n \<Longrightarrow> st m base n i v = Inr (m(base + of_nat i := v))"
  by (simp add: st_def)

lemma length_mem_bytes [simp]: "length (mem_bytes m base n) = n"
  by (simp add: mem_bytes_def)

lemma mem_bytes_nth [simp]: "i < n \<Longrightarrow> mem_bytes m base n ! i = m (base + of_nat i)"
  by (simp add: mem_bytes_def)

lemma mem_bytes_eqD: "mem_bytes m base n = bs \<Longrightarrow> i < n \<Longrightarrow> m (base + of_nat i) = bs ! i"
  by auto

lemma mem_bytes_Suc_upd:
  "n < 2 ^ 32 \<Longrightarrow> mem_bytes (m(base + of_nat n := v)) base (Suc n) = mem_bytes m base n @ [v]"
  by (auto simp: mem_bytes_def of_nat_u32_inj)

lemma apartD: "apart a n b k \<Longrightarrow> i < n \<Longrightarrow> j < k \<Longrightarrow> a + of_nat i \<noteq> b + of_nat j"
  by (simp add: apart_def)

lemma unat_add_of_nat: "unat a + i < 2 ^ 32 \<Longrightarrow> unat (a + of_nat i :: u32) = unat a + i"
  by (simp add: unat_word_ariths unat_of_nat)

lemma apartI:
  assumes "unat a + n \<le> unat b" and "unat b + k \<le> 2 ^ 32"
  shows "apart a n b k"
  unfolding apart_def
proof (intro allI impI)
  fix i j assume "i < n" "j < k"
  then have "unat (a + of_nat i) < unat (b + of_nat j)"
    using assms by (subst (1 2) unat_add_of_nat) auto
  then show "a + of_nat i \<noteq> b + of_nat j" by auto
qed

section \<open>Commands\<close>

text \<open>
  A C function with effects is a command: it takes the state and either faults or returns its
  value with the new state. \<open>bindM\<close> is \<^verbatim>\<open>x = f(); ...\<close>, \<open>seqM\<close> a block of statements
  that return nothing, \<open>forM\<close> a counted loop and \<open>whileM\<close> a loop whose number of rounds the
  source does not bound; its first argument is the number of rounds the environment allows.
\<close>

type_synonym ('s, 'a) cmd = "'s \<Rightarrow> fault + 'a \<times> 's"

definition retM :: "'a \<Rightarrow> ('s, 'a) cmd" where
  "retM x s = Inr (x, s)"

definition failM :: "fault \<Rightarrow> ('s, 'a) cmd" where
  "failM e s = Inl e"

definition bindM :: "('s, 'a) cmd \<Rightarrow> ('a \<Rightarrow> ('s, 'b) cmd) \<Rightarrow> ('s, 'b) cmd" where
  "bindM m f s = (case m s of Inl e \<Rightarrow> Inl e | Inr (x, t) \<Rightarrow> f x t)"

primrec seqM :: "('s, unit) cmd list \<Rightarrow> ('s, unit) cmd" where
  "seqM [] = retM ()"
| "seqM (c # cs) = bindM c (\<lambda>_. seqM cs)"

definition getM :: "('s \<Rightarrow> 'a) \<Rightarrow> ('s, 'a) cmd" where
  "getM f s = Inr (f s, s)"

definition modM :: "('s \<Rightarrow> 's) \<Rightarrow> ('s, unit) cmd" where
  "modM f s = Inr ((), f s)"

definition mapM :: "('a \<Rightarrow> 'b) \<Rightarrow> ('s, 'a) cmd \<Rightarrow> ('s, 'b) cmd" where
  "mapM f m = bindM m (\<lambda>x. retM (f x))"

definition whenM :: "bool \<Rightarrow> ('s, unit) cmd \<Rightarrow> ('s, unit) cmd" where
  "whenM b c = (if b then c else retM ())"

definition liftE :: "fault + 'a \<Rightarrow> ('s, 'a) cmd" where
  "liftE m s = (case m of Inl e \<Rightarrow> Inl e | Inr x \<Rightarrow> Inr (x, s))"

text \<open>Division, whose divisor zero is a fault.\<close>

definition divE :: "'w::len word \<Rightarrow> 'w word \<Rightarrow> fault + 'w word" where
  "divE a b = (if b = 0 then Inl Div_By_Zero else Inr (a div b))"

primrec forM :: "'i list \<Rightarrow> ('i \<Rightarrow> ('s, unit) cmd) \<Rightarrow> ('s, unit) cmd" where
  "forM [] f = retM ()"
| "forM (i # is) f = bindM (f i) (\<lambda>_. forM is f)"

primrec whileM :: "nat \<Rightarrow> ('s, bool) cmd \<Rightarrow> ('s, unit) cmd \<Rightarrow> ('s, unit) cmd" where
  "whileM 0 cond body = failM Out_Of_Fuel"
| "whileM (Suc n) cond body =
     bindM cond (\<lambda>b. if b then bindM body (\<lambda>_. whileM n cond body) else retM ())"

subsection \<open>Weakest preconditions\<close>

text \<open>
  \<open>wpM c Q s\<close>: started in \<open>s\<close>, the command \<open>c\<close> returns without a fault and its value and
  final state satisfy \<open>Q\<close> (total correctness). \<open>wlpM c Q s\<close>: if it returns, they do.
\<close>

definition wpM :: "('s, 'a) cmd \<Rightarrow> ('a \<Rightarrow> 's \<Rightarrow> bool) \<Rightarrow> 's \<Rightarrow> bool" where
  "wpM c Q s = (case c s of Inl e \<Rightarrow> False | Inr (x, t) \<Rightarrow> Q x t)"

definition wlpM :: "('s, 'a) cmd \<Rightarrow> ('a \<Rightarrow> 's \<Rightarrow> bool) \<Rightarrow> 's \<Rightarrow> bool" where
  "wlpM c Q s = (case c s of Inl e \<Rightarrow> True | Inr (x, t) \<Rightarrow> Q x t)"

named_theorems wp \<open>equations for the weakest preconditions of the commands\<close>

named_theorems cmd_eval \<open>equations that run a command on a concrete state\<close>

lemma wp_ret [wp, simp]: "wpM (retM x) Q = Q x" "wlpM (retM x) Q = Q x"
  by (simp_all add: wpM_def wlpM_def retM_def fun_eq_iff)

lemma wp_fail [wp, simp]: "wpM (failM e) Q = (\<lambda>s. False)" "wlpM (failM e) Q = (\<lambda>s. True)"
  by (simp_all add: wpM_def wlpM_def failM_def fun_eq_iff)

lemma wp_bind [wp]:
  "wpM (bindM c f) Q = wpM c (\<lambda>x. wpM (f x) Q)"
  "wlpM (bindM c f) Q = wlpM c (\<lambda>x. wlpM (f x) Q)"
  by (auto simp: wpM_def wlpM_def bindM_def fun_eq_iff split: sum.splits)

lemma wp_get [wp, simp]: "wpM (getM f) Q = (\<lambda>s. Q (f s) s)" "wlpM (getM f) Q = (\<lambda>s. Q (f s) s)"
  by (simp_all add: wpM_def wlpM_def getM_def fun_eq_iff)

lemma wp_mod [wp, simp]: "wpM (modM f) Q = (\<lambda>s. Q () (f s))" "wlpM (modM f) Q = (\<lambda>s. Q () (f s))"
  by (simp_all add: wpM_def wlpM_def modM_def fun_eq_iff)

lemma wp_liftE [wp]:
  "wpM (liftE m) Q = (\<lambda>s. okE m (\<lambda>x. Q x s))"
  "wlpM (liftE m) Q = (\<lambda>s. case m of Inl e \<Rightarrow> True | Inr x \<Rightarrow> Q x s)"
  by (auto simp: wpM_def wlpM_def liftE_def okE_def fun_eq_iff split: sum.splits)

lemma okE_div [simp]: "okE (divE a b) P \<longleftrightarrow> b \<noteq> 0 \<and> P (a div b)"
  by (simp add: divE_def)

lemma wp_map [wp]:
  "wpM (mapM f c) Q = wpM c (\<lambda>x. Q (f x))"
  "wlpM (mapM f c) Q = wlpM c (\<lambda>x. Q (f x))"
  by (simp_all add: mapM_def wp)

lemma wp_if [wp]:
  "wpM (if b then c else d) Q = (if b then wpM c Q else wpM d Q)"
  "wlpM (if b then c else d) Q = (if b then wlpM c Q else wlpM d Q)"
  by simp_all

lemma if_app [wp]: "(if b then f else g) s = (if b then f s else g s)"
  by simp

lemma wp_when [wp]:
  "wpM (whenM b c) Q = (if b then wpM c Q else Q ())"
  "wlpM (whenM b c) Q = (if b then wlpM c Q else Q ())"
  by (simp_all add: whenM_def)

lemma wp_seq [wp]:
  "wpM (seqM []) Q = Q ()"
  "wpM (seqM (c # cs)) Q = wpM c (\<lambda>_. wpM (seqM cs) Q)"
  "wlpM (seqM []) Q = Q ()"
  "wlpM (seqM (c # cs)) Q = wlpM c (\<lambda>_. wlpM (seqM cs) Q)"
  by (simp_all add: wp)

lemma bindM_assoc: "bindM (bindM c f) g = bindM c (\<lambda>x. bindM (f x) g)"
  by (auto simp: bindM_def fun_eq_iff split: sum.splits)

lemma bindM_ret: "bindM (retM x) f = f x"
  by (simp add: bindM_def retM_def fun_eq_iff)

lemma if_bind: "bindM (if b then c else d) f = (if b then bindM c f else bindM d f)"
  by simp

lemma wp_mono: "wpM c Q s \<Longrightarrow> (\<And>x t. Q x t \<Longrightarrow> R x t) \<Longrightarrow> wpM c R s"
  by (auto simp: wpM_def split: sum.splits)

lemma wlp_mono: "wlpM c Q s \<Longrightarrow> (\<And>x t. Q x t \<Longrightarrow> R x t) \<Longrightarrow> wlpM c R s"
  by (auto simp: wlpM_def split: sum.splits)

lemma wp_conj: "wpM c Q s \<Longrightarrow> wlpM c R s \<Longrightarrow> wpM c (\<lambda>x t. Q x t \<and> R x t) s"
  by (auto simp: wpM_def wlpM_def split: sum.splits)

lemma wp_imp_wlp: "wpM c Q s \<Longrightarrow> wlpM c Q s"
  by (auto simp: wpM_def wlpM_def split: sum.splits)

lemma wlpD: "wlpM c Q s \<Longrightarrow> c s = Inr (x, t) \<Longrightarrow> Q x t"
  by (simp add: wlpM_def)

lemma wpE: "wpM c Q s \<Longrightarrow> (\<And>x t. c s = Inr (x, t) \<Longrightarrow> Q x t \<Longrightarrow> P) \<Longrightarrow> P"
  by (auto simp: wpM_def split: sum.splits)

lemma wpD: "wpM c Q s \<Longrightarrow> \<exists>x t. c s = Inr (x, t) \<and> Q x t"
  by (auto simp: wpM_def split: sum.splits)

text \<open>The rule for a counted loop: an invariant indexed by the iterations already done.\<close>

lemma wp_forM:
  assumes "I [] s"
    and "\<And>done i todo t. xs = done @ i # todo \<Longrightarrow> I done t \<Longrightarrow> wpM (f i) (\<lambda>_. I (done @ [i])) t"
  shows "wpM (forM xs f) (\<lambda>_. I xs) s"
proof -
  have "wpM (forM ys f) (\<lambda>_. I xs) t" if "xs = zs @ ys" "I zs t" for ys zs t
    using that
  proof (induction ys arbitrary: zs t)
    case Nil
    then show ?case by simp
  next
    case (Cons y ys)
    have "wpM (f y) (\<lambda>_. I (zs @ [y])) t"
      using Cons.prems assms(2) by blast
    then show ?case
      using Cons.IH [of "zs @ [y]"] Cons.prems(1) by (auto simp: wp elim: wp_mono)
  qed
  from this [of "[]" xs s] assms(1) show ?thesis by simp
qed

text \<open>An invariant of the body is an invariant of a loop; the loop may run out of fuel.\<close>

lemma wlp_whileM:
  assumes "I s"
    and "\<And>t. I t \<Longrightarrow> wlpM cond (\<lambda>b u. if b then wlpM body (\<lambda>_. I) u else Q () u) t"
  shows "wlpM (whileM n cond body) Q s"
  using assms(1)
proof (induction n arbitrary: s)
  case 0
  then show ?case by simp
next
  case (Suc n)
  from assms(2) [OF Suc.prems]
  have "wlpM cond (\<lambda>b. wlpM (if b then bindM body (\<lambda>_. whileM n cond body) else retM ()) Q) s"
    by (rule wlp_mono) (auto simp: wp split: if_splits intro: wlp_mono Suc.IH)
  then show ?case by (simp add: wp)
qed

text \<open>With a measure that every round decreases, fuel above its value at the start is enough.\<close>

lemma wp_whileM:
  assumes "I s" and "m s < n"
    and "\<And>t. I t \<Longrightarrow> wpM cond (\<lambda>b u. if b then wpM body (\<lambda>_ v. I v \<and> m v < m t) u else Q () u) t"
  shows "wpM (whileM n cond body) Q s"
  using assms(1,2)
proof (induction n arbitrary: s)
  case 0
  then show ?case by simp
next
  case (Suc n)
  from assms(3) [OF Suc.prems(1)]
  have "wpM cond (\<lambda>b. wpM (if b then bindM body (\<lambda>_. whileM n cond body) else retM ()) Q) s"
    using Suc.prems(2)
    by (elim wp_mono) (auto simp: wp split: if_splits elim!: wp_mono intro!: Suc.IH)
  then show ?case by (simp add: wp)
qed

section \<open>Words\<close>

lemma xor_cancel_right: "x XOR z = y XOR z \<longleftrightarrow> x = (y :: 'a :: len word)"
proof
  assume "x XOR z = y XOR z"
  then have "(x XOR z) XOR z = (y XOR z) XOR z" by simp
  then show "x = y" by (simp only: xor.assoc xor_self_eq xor.right_neutral)
qed simp

lemma xor_cancel_left: "z XOR x = z XOR y \<longleftrightarrow> x = (y :: 'a :: len word)"
  by (simp add: xor.commute [of z] xor_cancel_right)

lemma bit_u8_large: "bit (b :: u8) n \<Longrightarrow> n < 8"
  using bit_imp_le_length [of b n] by simp

lemma ucast_u8_u32_inj [simp]: "(ucast (a :: u8) :: u32) = ucast b \<longleftrightarrow> a = b"
proof
  assume eq: "(ucast a :: u32) = ucast b"
  have "bit a n = bit b n" if "n < 8" for n
  proof -
    have "bit (ucast a :: u32) n = bit (ucast b :: u32) n" using eq by simp
    then show ?thesis using that by (simp add: bit_ucast_iff)
  qed
  then show "a = b" by (auto intro: bit_word_eqI)
qed simp

lemma unat_ucast_widen [simp]:
  "unat (ucast (a :: u8) :: u32) = unat a" "unat (ucast (b :: u16) :: u32) = unat b"
  "unat (ucast (a :: u8) :: u16) = unat a" "unat (ucast (c :: u32) :: u64) = unat c"
  by (simp_all add: unsigned_ucast_eq take_bit_word_eq_self unsigned_take_bit_eq [symmetric])

lemma ucast_widen_back [simp]: "ucast (ucast (a :: u8) :: u32) = a"
  by (rule bit_word_eqI) (simp add: bit_ucast_iff)

text \<open>A bit field read out of a register is at most its mask.\<close>

lemma field_le: "unat (drop_bit n (v AND m)) \<le> unat (drop_bit n (m :: u32))"
proof -
  have "v AND m \<le> m" by (rule word_and_le1)
  then have "unat (v AND m) \<le> unat m" by (simp only: word_le_nat_alt)
  then show ?thesis unfolding unat_drop_bit_eq by (simp only: drop_bit_eq_div div_le_mono)
qed

lemma unat_ne_0: "unat (a :: 'a::len word) \<noteq> 0 \<Longrightarrow> a \<noteq> 0"
  by auto

subsection \<open>Little-endian byte order\<close>

primrec le_word :: "u8 list \<Rightarrow> u32" where
  "le_word [] = 0"
| "le_word (b # bs) = ucast b OR push_bit 8 (le_word bs)"

lemma le_word_append: "le_word (xs @ ys) = le_word xs OR push_bit (8 * length xs) (le_word ys)"
  by (induction xs) (simp_all add: push_bit_or push_bit_push_bit or.assoc add.commute)

definition le_bytes :: "nat \<Rightarrow> u32 \<Rightarrow> u8 list" where
  "le_bytes n v = map (\<lambda>i. ucast (drop_bit (8 * i) v)) [0..<n]"

lemma bit_le_word:
  "bit (le_word bs) n \<longleftrightarrow> n < 32 \<and> n div 8 < length bs \<and> bit (bs ! (n div 8)) (n mod 8)"
proof (induction bs arbitrary: n)
  case Nil
  then show ?case by simp
next
  case (Cons b bs)
  show ?case
  proof (cases "n < 8")
    case True
    then show ?thesis by (simp add: bit_or_iff bit_push_bit_iff bit_ucast_iff)
  next
    case False
    then obtain m where n: "n = m + 8" by (metis add.commute le_add_diff_inverse not_less)
    have "\<not> bit b n" using False bit_u8_large by blast
    moreover have "(m + 8) div 8 = Suc (m div 8)" by simp
    ultimately show ?thesis
      by (auto simp: n bit_or_iff bit_push_bit_iff bit_ucast_iff Cons.IH)
  qed
qed

lemma length_le_bytes [simp]: "length (le_bytes n v) = n"
  by (simp add: le_bytes_def)

lemma le_bytes_nth: "i < n \<Longrightarrow> le_bytes n v ! i = ucast (drop_bit (8 * i) v)"
  by (simp add: le_bytes_def)

lemma le_bytes_le_word: "length bs = n \<Longrightarrow> n \<le> 4 \<Longrightarrow> le_bytes n (le_word bs) = bs"
proof (rule nth_equalityI)
  fix i assume n: "length bs = n" "n \<le> 4" and i: "i < length (le_bytes n (le_word bs))"
  show "le_bytes n (le_word bs) ! i = bs ! i"
  proof (rule bit_word_eqI)
    fix k assume k: "k < LENGTH(8)"
    then have "(8 * i + k) div 8 = i" "(8 * i + k) mod 8 = k" by auto
    then show "bit (le_bytes n (le_word bs) ! i) k = bit (bs ! i) k"
      using n i k by (auto simp: le_bytes_nth bit_ucast_iff bit_drop_bit_eq bit_le_word)
  qed
qed simp

lemma le_word_le_bytes: "le_word (le_bytes 4 v) = v"
proof (rule bit_word_eqI)
  fix n assume n: "n < LENGTH(32)"
  then have "n div 8 < 4" "8 * (n div 8) + n mod 8 = n" by auto
  then show "bit (le_word (le_bytes 4 v)) n = bit v n"
    using n by (simp add: bit_le_word le_bytes_nth bit_ucast_iff bit_drop_bit_eq)
qed

lemma le_word_inj: "length xs = length ys \<Longrightarrow> length xs \<le> 4 \<Longrightarrow> le_word xs = le_word ys \<Longrightarrow> xs = ys"
  by (metis le_bytes_le_word)

text \<open>Running commands on concrete states, for the witnesses.\<close>

lemmas cmd_basic [cmd_eval] = retM_def failM_def bindM_def getM_def modM_def mapM_def whenM_def liftE_def divE_def

end
