(* ===== verification/Lz4.thy ===== *)
theory Lz4
  imports Prelude
begin

text \<open>
  The LZ4 block decoder of the preloader (\<^verbatim>\<open>src/preloader/src/lz4.c\<close>). It works on two arrays
  of the same memory, which may overlap; every load and store checks the bounds of its array.
  The offsets stay below the array sizes, which are 32-bit values, so they are natural numbers;
  the lengths are read from the input and their additions wrap.
\<close>

section \<open>The decoder\<close>

function read_length_loop :: "mem \<Rightarrow> u32 \<Rightarrow> nat \<Rightarrow> nat \<Rightarrow> nat \<Rightarrow> fault + bool \<times> nat \<times> nat" where
  "read_length_loop m input input_size input_offset len =
     (if input_offset = input_size then Inr (False, input_offset, len)
      else bindE (ld m input input_size input_offset) (\<lambda>v.
        let input_offset = input_offset + 1; len = add32 len (unat v)
        in if v = 0xFF then read_length_loop m input input_size input_offset len
           else Inr (True, input_offset, len)))"
  by pat_completeness auto
termination
  by (relation "measure (\<lambda>(m, input, input_size, input_offset, len). input_size - input_offset)")
    (auto simp: ld_def split: if_splits)

declare read_length_loop.simps [simp del]

definition read_length :: "mem \<Rightarrow> u32 \<Rightarrow> nat \<Rightarrow> nat \<Rightarrow> nat \<Rightarrow> fault + bool \<times> nat \<times> nat" where
  "read_length m input input_size input_offset len =
     (if len \<noteq> 0x0F then Inr (True, input_offset, len)
      else read_length_loop m input input_size input_offset len)"

lemma read_length_loop_mono:
  "read_length_loop m input input_size i len = Inr (ok, j, r) \<Longrightarrow> i \<le> j"
proof (induction m input input_size i len rule: read_length_loop.induct)
  case (1 m input input_size i len)
  from "1.prems" show ?case
    by (subst (asm) read_length_loop.simps) (auto simp: Let_def split: if_splits dest!: "1.IH")
qed

lemma read_length_mono: "read_length m input input_size i len = Inr (ok, j, r) \<Longrightarrow> i \<le> j"
  by (auto simp: read_length_def dest: read_length_loop_mono split: if_splits)

text \<open>The two copy loops; the match copy may read bytes that it has just written.\<close>

primrec copy_literals :: "nat \<Rightarrow> u32 \<Rightarrow> nat \<Rightarrow> u32 \<Rightarrow> nat \<Rightarrow> nat \<Rightarrow> nat \<Rightarrow> mem \<Rightarrow> fault + mem" where
  "copy_literals 0 input input_size output output_size i k m = Inr m"
| "copy_literals (Suc n) input input_size output output_size i k m =
     bindE (ld m input input_size i) (\<lambda>v.
     bindE (st m output output_size k v) (\<lambda>m.
     copy_literals n input input_size output output_size (i + 1) (k + 1) m))"

primrec copy_match :: "nat \<Rightarrow> u32 \<Rightarrow> nat \<Rightarrow> nat \<Rightarrow> nat \<Rightarrow> mem \<Rightarrow> fault + mem" where
  "copy_match 0 output output_size match_offset k m = Inr m"
| "copy_match (Suc n) output output_size match_offset k m =
     bindE (ld m output output_size (sub32 k match_offset)) (\<lambda>v.
     bindE (st m output output_size k v) (\<lambda>m.
     copy_match n output output_size match_offset (k + 1) m))"

text \<open>One round of the outer loop: it returns from the function or goes on at new offsets.\<close>

datatype lz4_round = Return bool mem | Continue nat nat mem

definition lz4_sequence :: "u32 \<Rightarrow> nat \<Rightarrow> u32 \<Rightarrow> nat \<Rightarrow> nat \<Rightarrow> nat \<Rightarrow> mem \<Rightarrow> fault + lz4_round" where
  "lz4_sequence input input_size output output_size input_offset output_offset m =
     bindE (ld m input input_size input_offset) (\<lambda>token.
     bindE (read_length m input input_size (input_offset + 1) (unat (drop_bit 4 token))) (\<lambda>(ok, i, literal_size).
     if \<not> ok then Inr (Return False m)
     else if literal_size > sub32 input_size i then Inr (Return False m)
     else if literal_size > sub32 output_size output_offset then Inr (Return False m)
     else bindE (copy_literals literal_size input input_size output output_size i output_offset m) (\<lambda>m.
     let i = i + literal_size; k = output_offset + literal_size
     in if i = input_size then Inr (Return (k = output_size) m)
     else if sub32 input_size i < 2 then Inr (Return False m)
     else bindE (ld m input input_size i) (\<lambda>lo.
     bindE (ld m input input_size (i + 1)) (\<lambda>hi.
     let match_offset = unat (ucast lo OR push_bit 8 (ucast hi) :: u32); i = i + 2
     in if match_offset = 0 \<or> match_offset > k then Inr (Return False m)
     else bindE (read_length m input input_size i (unat (token AND 0x0F))) (\<lambda>(ok, i, match_size).
     if \<not> ok then Inr (Return False m)
     else let match_size = add32 match_size 4
     in if match_size > sub32 output_size k then Inr (Return False m)
     else bindE (copy_match match_size output output_size match_offset k m) (\<lambda>m.
     Inr (Continue i (k + match_size) m))))))))"

lemma lz4_sequence_progress:
  "lz4_sequence input input_size output output_size i k m = Inr (Continue i' k' m') \<Longrightarrow> i < i'"
  by (auto simp: lz4_sequence_def Let_def split: if_splits dest!: read_length_mono)

function lz4_loop :: "u32 \<Rightarrow> nat \<Rightarrow> u32 \<Rightarrow> nat \<Rightarrow> nat \<Rightarrow> nat \<Rightarrow> mem \<Rightarrow> fault + bool \<times> mem" where
  "lz4_loop input input_size output output_size input_offset output_offset m =
     (if input_offset < input_size then
        bindE (lz4_sequence input input_size output output_size input_offset output_offset m) (\<lambda>r.
        case r of Return ok m \<Rightarrow> Inr (ok, m)
        | Continue i k m \<Rightarrow> lz4_loop input input_size output output_size i k m)
      else Inr (output_offset = output_size, m))"
  by pat_completeness auto
termination
  by (relation "measure (\<lambda>(input, input_size, output, output_size, i, k, m). input_size - i)")
    (auto dest!: lz4_sequence_progress)

declare lz4_loop.simps [simp del]

definition lz4_decompress :: "u32 \<Rightarrow> u32 \<Rightarrow> u32 \<Rightarrow> u32 \<Rightarrow> mem \<Rightarrow> fault + bool \<times> mem" where
  "lz4_decompress input input_size output output_size m =
     lz4_loop input (unat input_size) output (unat output_size) 0 0 m"


section \<open>Memory safety\<close>

text \<open>\<open>confined out n m m'\<close>: the two memories agree outside the array of \<open>n\<close> bytes at \<open>out\<close>.\<close>

definition confined :: "u32 \<Rightarrow> nat \<Rightarrow> mem \<Rightarrow> mem \<Rightarrow> bool" where
  "confined out n m m' \<longleftrightarrow> (\<forall>a. (\<forall>j<n. a \<noteq> out + of_nat j) \<longrightarrow> m' a = m a)"

lemma confined_refl [simp]: "confined out n m m"
  by (simp add: confined_def)

lemma confined_trans: "confined out n m m' \<Longrightarrow> confined out n m' m'' \<Longrightarrow> confined out n m m''"
  by (simp add: confined_def)

lemma confined_upd: "confined out n (m(out + of_nat k := v)) m' \<Longrightarrow> k < n \<Longrightarrow> confined out n m m'"
  by (auto simp: confined_def)

lemma read_length_loop_ok:
  "i \<le> input_size \<Longrightarrow> okE (read_length_loop m input input_size i len) (\<lambda>(ok, j, r). j \<le> input_size)"
proof (induction m input input_size i len rule: read_length_loop.induct)
  case (1 m input input_size i len)
  then show ?case by (subst read_length_loop.simps) (simp add: okE_bind Let_def)
qed

lemma read_length_ok:
  "i \<le> input_size \<Longrightarrow> okE (read_length m input input_size i len) (\<lambda>(ok, j, r). j \<le> input_size)"
  by (simp add: read_length_def read_length_loop_ok)

lemma copy_literals_ok:
  "i + n \<le> input_size \<Longrightarrow> k + n \<le> output_size \<Longrightarrow>
   okE (copy_literals n input input_size output output_size i k m) (confined output output_size m)"
proof (induction n arbitrary: i k m)
  case 0
  then show ?case by simp
next
  case (Suc n)
  let ?m = "m(output + of_nat k := m (input + of_nat i))"
  have "okE (copy_literals n input input_size output output_size (i + 1) (k + 1) ?m) (confined output output_size ?m)"
    using Suc.prems by (intro Suc.IH) auto
  then show ?case
    using Suc.prems by (auto elim!: okE_mono dest: confined_upd)
qed

lemma copy_match_ok:
  "k + n \<le> output_size \<Longrightarrow> output_size < 2 ^ 32 \<Longrightarrow> d \<le> k \<Longrightarrow>
   okE (copy_match n output output_size d k m) (confined output output_size m)"
proof (induction n arbitrary: k m)
  case 0
  then show ?case by simp
next
  case (Suc n)
  let ?m = "m(output + of_nat k := m (output + of_nat (k - d)))"
  have "okE (copy_match n output output_size d (k + 1) ?m) (confined output output_size ?m)"
    using Suc.prems by (intro Suc.IH) auto
  moreover have "sub32 k d = k - d" using Suc.prems by (intro sub32_exact) auto
  ultimately show ?case
    using Suc.prems by (auto elim!: okE_mono dest: confined_upd)
qed

lemma lz4_sequence_ok:
  assumes "i < isz" and "k \<le> osz" and "isz < 2 ^ 32" and "osz < 2 ^ 32"
  shows "okE (lz4_sequence inp isz out osz i k m) (\<lambda>r. case r of
           Return ok m' \<Rightarrow> confined out osz m m'
         | Continue i' k' m' \<Rightarrow> i' \<le> isz \<and> k' \<le> osz \<and> confined out osz m m')"
proof -
  have mat: "okE (copy_match n out osz d k2 m2) (\<lambda>m3. k2 + n \<le> osz \<and> confined out osz m m3)"
    if "k2 \<le> osz" "\<not> osz - k2 < n" "\<not> k2 < d" "confined out osz m m2" for n d k2 m2
    using that assms by (auto intro!: okE_mono [OF copy_match_ok] intro: confined_trans)
  have lit: "okE (copy_literals n inp isz out osz i1 k m) Q"
    if "i1 + n \<le> isz" "k + n \<le> osz" "\<And>m2. confined out osz m m2 \<Longrightarrow> Q m2" for n i1 Q
    using that by (auto intro: okE_mono [OF copy_literals_ok])
  have len: "okE (read_length m2 inp isz i1 l) Q"
    if "i1 \<le> isz" "\<And>ok j r. j \<le> isz \<Longrightarrow> Q (ok, j, r)" for m2 i1 l Q
    using that by (auto intro!: okE_mono [OF read_length_ok])
  show ?thesis
    unfolding lz4_sequence_def Let_def using assms
    by (auto simp: okE_bind sub32_exact simp del: bindE_Inr intro!: len lit mat) arith+
qed

lemma lz4_loop_ok:
  "i \<le> isz \<Longrightarrow> k \<le> osz \<Longrightarrow> isz < 2 ^ 32 \<Longrightarrow> osz < 2 ^ 32 \<Longrightarrow>
   okE (lz4_loop inp isz out osz i k m) (\<lambda>(ok, m'). confined out osz m m')"
proof (induction inp isz out osz i k m rule: lz4_loop.induct)
  case (1 inp isz out osz i k m)
  show ?case
  proof (cases "i < isz")
    case False
    then show ?thesis by (subst lz4_loop.simps) simp
  next
    case True
    with "1.prems" have "okE (lz4_sequence inp isz out osz i k m) (\<lambda>r. case r of
           Return ok m' \<Rightarrow> confined out osz m m'
         | Continue i' k' m' \<Rightarrow> i' \<le> isz \<and> k' \<le> osz \<and> confined out osz m m')"
      by (intro lz4_sequence_ok)
    then show ?thesis
      using True "1.prems"
      by (subst lz4_loop.simps)
        (auto simp: okE_bind split: lz4_round.splits elim!: okE_mono
          dest!: "1.IH" [OF True] intro: confined_trans)
  qed
qed


end
