(* ===== verification/Lz4_Format.thy ===== *)
theory Lz4_Format
  imports Lz4
begin

text \<open>
  What an LZ4 block means, independently of the decoder: a list of sequences, each some
  literal bytes and a copy of earlier output, and final literals. The decoder of
  \<^verbatim>\<open>src/preloader/src/lz4.c\<close> is shown to be the inverse of the encoding.
\<close>

section \<open>Blocks, their expansion and their encoding\<close>

datatype lz4_seq = Seq "u8 list" nat nat

primrec lz4_copy :: "nat \<Rightarrow> nat \<Rightarrow> u8 list \<Rightarrow> u8 list" where
  "lz4_copy 0 d xs = xs"
| "lz4_copy (Suc n) d xs = lz4_copy n d (xs @ [xs ! (length xs - d)])"

fun lz4_expand :: "u8 list \<Rightarrow> lz4_seq list \<Rightarrow> u8 list" where
  "lz4_expand out [] = out"
| "lz4_expand out (Seq l d n # ss) = lz4_expand (lz4_copy n d (out @ l)) ss"

fun lz4_valid :: "u8 list \<Rightarrow> lz4_seq list \<Rightarrow> bool" where
  "lz4_valid out [] = True"
| "lz4_valid out (Seq l d n # ss) =
     (0 < d \<and> d \<le> length (out @ l) \<and> d < 65536 \<and> 4 \<le> n \<and> lz4_valid (lz4_copy n d (out @ l)) ss)"

definition len_ext :: "nat \<Rightarrow> u8 list" where
  "len_ext n = (if n < 15 then [] else replicate ((n - 15) div 255) 0xFF @ [of_nat ((n - 15) mod 255)])"

definition lz4_token :: "nat \<Rightarrow> nat \<Rightarrow> u8" where
  "lz4_token a b = of_nat (16 * min a 15 + min b 15)"

fun lz4_encode_seq :: "lz4_seq \<Rightarrow> u8 list" where
  "lz4_encode_seq (Seq l d n) =
     lz4_token (length l) (n - 4) # len_ext (length l) @ l @
     of_nat (d mod 256) # of_nat (d div 256) # len_ext (n - 4)"

definition lz4_encode_last :: "u8 list \<Rightarrow> u8 list" where
  "lz4_encode_last l = lz4_token (length l) 0 # len_ext (length l) @ l"

definition lz4_encode :: "lz4_seq list \<Rightarrow> u8 list \<Rightarrow> u8 list" where
  "lz4_encode ss l = concat (map lz4_encode_seq ss) @ lz4_encode_last l"

section \<open>The pieces of the decoder\<close>

lemma length_lz4_copy [simp]: "length (lz4_copy n d xs) = length xs + n"
  by (induction n arbitrary: xs) auto

lemma length_lz4_expand: "length out \<le> length (lz4_expand out ss)"
proof (induction out ss rule: lz4_expand.induct)
  case (2 out l d n ss)
  then show ?case by simp
qed simp

lemma unat_token: "unat (lz4_token a b) = 16 * min a 15 + min b 15"
  unfolding lz4_token_def by (subst unat_of_nat_u8) auto

lemma unat_token_high: "unat (drop_bit 4 (lz4_token a b)) = min a 15"
proof -
  have "unat (drop_bit 4 (lz4_token a b)) = unat (lz4_token a b) div 16"
    by (simp add: drop_bit_eq_div unat_div)
  also have "\<dots> = min a 15" unfolding unat_token by auto
  finally show ?thesis .
qed

lemma unat_token_low: "unat (lz4_token a b AND 0x0F) = min b 15"
proof -
  have "lz4_token a b AND 0x0F = take_bit 4 (lz4_token a b)"
    by (simp add: take_bit_eq_mask mask_eq_exp_minus_1)
  then have "unat (lz4_token a b AND 0x0F) = unat (lz4_token a b) mod 16"
    by (simp add: take_bit_eq_mod unat_mod)
  also have "\<dots> = min b 15" unfolding unat_token by auto
  finally show ?thesis .
qed

lemma match_offset_word:
  assumes "d < 65536"
  shows "unat (ucast (of_nat (d mod 256) :: u8) OR push_bit 8 (ucast (of_nat (d div 256) :: u8)) :: u32) = d"
proof -
  have "d mod 256 = take_bit 8 d" "d div 256 = drop_bit 8 d"
    by (simp_all add: take_bit_eq_mod drop_bit_eq_div)
  then have "(ucast (of_nat (d mod 256) :: u8) OR push_bit 8 (ucast (of_nat (d div 256) :: u8)) :: u32) = of_nat (take_bit 16 d)"
    by (intro bit_word_eqI)
      (auto simp: bit_or_iff bit_push_bit_iff bit_ucast_iff bit_of_nat_iff bit_take_bit_iff bit_drop_bit_eq)
  also have "take_bit 16 d = d" using assms by (simp add: take_bit_nat_eq_self)
  finally show ?thesis using assms by (simp add: unat_of_nat_u32)
qed

text \<open>A list that stands at the start of the rest of the array, read byte by byte.\<close>

lemma mem_bytes_at:
  "mem_bytes m base sz = pre @ xs @ post \<Longrightarrow> i < length xs \<Longrightarrow>
   length pre + i < sz \<and> m (base + of_nat (length pre + i)) = xs ! i"
proof -
  assume eq: "mem_bytes m base sz = pre @ xs @ post" and i: "i < length xs"
  have "length (mem_bytes m base sz) = length pre + length xs + length post" using eq by simp
  then have lt: "length pre + i < sz" using i by simp
  moreover have "mem_bytes m base sz ! (length pre + i) = xs ! i"
    using eq i by (simp add: nth_append)
  ultimately show ?thesis by (simp only: mem_bytes_nth)
qed

lemma mem_bytes_hd:
  "mem_bytes m base sz = pre @ x # post \<Longrightarrow>
   length pre < sz \<and> m (base + of_nat (length pre)) = x"
  using mem_bytes_at [of m base sz pre "[x]" post 0] by simp

lemma mem_bytes_confined:
  assumes "apart inp isz out osz" and "confined out osz m m'"
  shows "mem_bytes m' inp isz = mem_bytes m inp isz"
  using assms by (auto simp: mem_bytes_def confined_def apart_def)

lemma read_length_loop_ext:
  "mem_bytes m inp isz = pre @ replicate c 0xFF @ v # post \<Longrightarrow> v \<noteq> 0xFF \<Longrightarrow>
   len + 255 * c + unat v < 2 ^ 32 \<Longrightarrow>
   read_length_loop m inp isz (length pre) len = Inr (True, length pre + c + 1, len + 255 * c + unat v)"
proof (induction c arbitrary: pre len)
  case 0
  then show ?case
    using mem_bytes_hd [of m inp isz pre v post]
    by (subst read_length_loop.simps) (simp add: Let_def add32_exact)
next
  case (Suc c)
  have eq: "mem_bytes m inp isz = (pre @ [0xFF]) @ replicate c 0xFF @ v # post"
    using Suc.prems(1) by simp
  have "read_length_loop m inp isz (length (pre @ [0xFF])) (len + 255) =
      Inr (True, length (pre @ [0xFF]) + c + 1, len + 255 + 255 * c + unat v)"
    using eq Suc.prems(2,3) by (intro Suc.IH) auto
  then show ?case
    using mem_bytes_hd [of m inp isz pre "0xFF" "replicate c 0xFF @ v # post"] Suc.prems
    by (subst read_length_loop.simps) (simp add: Let_def add32_exact)
qed

lemma read_length_ext:
  assumes "mem_bytes m inp isz = pre @ len_ext n @ post" and "n < 2 ^ 32"
  shows "read_length m inp isz (length pre) (min n 15) = Inr (True, length pre + length (len_ext n), n)"
proof (cases "n < 15")
  case True
  then show ?thesis by (simp add: read_length_def len_ext_def)
next
  case False
  let ?c = "(n - 15) div 255" and ?v = "of_nat ((n - 15) mod 255) :: u8"
  have v: "unat ?v = (n - 15) mod 255" by (subst unat_of_nat_u8) auto
  then have "unat ?v < unat (0xFF :: u8)" by simp
  then have "?v \<noteq> 0xFF" by auto
  moreover have "15 + 255 * ?c + unat ?v = n" using False v by simp
  ultimately show ?thesis
    using assms False read_length_loop_ext [of m inp isz pre ?c ?v post 15]
    by (simp add: read_length_def len_ext_def)
qed

lemma copy_literals_correct:
  assumes "apart inp isz out osz" and "osz < 2 ^ 32"
  shows "mem_bytes m inp isz = pre @ l @ post \<Longrightarrow> k + length l \<le> osz \<Longrightarrow>
    \<exists>m'. copy_literals (length l) inp isz out osz (length pre) k m = Inr m' \<and>
      mem_bytes m' out (k + length l) = mem_bytes m out k @ l \<and> confined out osz m m'"
proof (induction l arbitrary: pre k m)
  case Nil
  then show ?case by simp
next
  case (Cons x l)
  define m1 where "m1 = m(out + of_nat k := x)"
  have fr: "confined out osz m m1" using Cons.prems(2) by (auto simp: confined_def m1_def)
  have hd: "length pre < isz" "m (inp + of_nat (length pre)) = x"
    using mem_bytes_hd [of m inp isz pre x "l @ post"] Cons.prems(1) by auto
  have "mem_bytes m1 inp isz = (pre @ [x]) @ l @ post"
    using mem_bytes_confined [OF assms(1) fr] Cons.prems(1) by simp
  then obtain m' where m': "copy_literals (length l) inp isz out osz (length (pre @ [x])) (k + 1) m1 = Inr m'"
      "mem_bytes m' out (k + 1 + length l) = mem_bytes m1 out (k + 1) @ l" "confined out osz m1 m'"
    using Cons.IH [of m1 "pre @ [x]" "k + 1"] Cons.prems(2) by auto
  have "mem_bytes m1 out (Suc k) = mem_bytes m out k @ [x]"
    using Cons.prems(2) assms(2) unfolding m1_def by (intro mem_bytes_Suc_upd) auto
  then show ?case
    using m' hd fr Cons.prems(2) by (auto simp: m1_def intro: confined_trans)
qed

lemma copy_match_correct:
  assumes "osz < 2 ^ 32" and "0 < d"
  shows "d \<le> k \<Longrightarrow> k + n \<le> osz \<Longrightarrow>
    \<exists>m'. copy_match n out osz d k m = Inr m' \<and>
      mem_bytes m' out (k + n) = lz4_copy n d (mem_bytes m out k) \<and> confined out osz m m'"
proof (induction n arbitrary: k m)
  case 0
  then show ?case by simp
next
  case (Suc n)
  define v where "v = m (out + of_nat (k - d))"
  define m1 where "m1 = m(out + of_nat k := v)"
  have s: "sub32 k d = k - d" using Suc.prems assms by (intro sub32_exact) auto
  have fr: "confined out osz m m1" using Suc.prems(2) by (auto simp: confined_def m1_def)
  obtain m' where m': "copy_match n out osz d (k + 1) m1 = Inr m'"
      "mem_bytes m' out (k + 1 + n) = lz4_copy n d (mem_bytes m1 out (k + 1))" "confined out osz m1 m'"
    using Suc.IH [of "k + 1" m1] Suc.prems by auto
  have "mem_bytes m1 out (Suc k) = mem_bytes m out k @ [v]"
    using Suc.prems(2) assms(1) unfolding m1_def by (intro mem_bytes_Suc_upd) auto
  moreover have "mem_bytes m out k ! (k - d) = v" using Suc.prems(1) assms(2) unfolding v_def by (intro mem_bytes_nth) auto
  ultimately have "mem_bytes m' out (k + Suc n) = lz4_copy (Suc n) d (mem_bytes m out k)"
    using m'(2) by simp
  moreover have "k - d < osz" using Suc.prems by simp
  ultimately show ?case
    using m'(1,3) s fr Suc.prems(2) by (auto simp: m1_def v_def simp del: of_nat_diff intro: confined_trans)
qed

section \<open>Round trip\<close>

lemma lz4_sequence_correct:
  assumes ap: "apart inp isz out osz" and sz: "osz < 2 ^ 32" "isz < 2 ^ 32"
    and inp: "mem_bytes m inp isz = pre @ lz4_encode_seq (Seq l d n) @ post"
    and d: "0 < d" "d \<le> k + length l" "d < 65536" and n: "4 \<le> n" and k: "k + length l + n \<le> osz"
  shows "\<exists>m'. lz4_sequence inp isz out osz (length pre) k m =
      Inr (Continue (length pre + length (lz4_encode_seq (Seq l d n))) (k + length l + n) m') \<and>
      mem_bytes m' out (k + length l + n) = lz4_copy n d (mem_bytes m out k @ l) \<and> confined out osz m m'"
proof -
  define tok el em where "tok = lz4_token (length l) (n - 4)" and "el = len_ext (length l)" and "em = len_ext (n - 4)"
  define lo hi :: u8 where "lo = of_nat (d mod 256)" and "hi = of_nat (d div 256)"
  define i2 i3 where "i2 = length pre + 1 + length el" and "i3 = i2 + length l"
  have inp': "mem_bytes m inp isz = pre @ tok # el @ l @ lo # hi # em @ post"
    using inp by (simp add: tok_def el_def em_def lo_def hi_def)
  have isz: "i3 + 2 + length em \<le> isz"
    using arg_cong [OF inp', of length] by (simp add: i2_def i3_def)
  have tok: "m (inp + of_nat (length pre)) = tok" "length pre < isz"
    using mem_bytes_hd [OF inp'] by auto
  have r1: "read_length m inp isz (length pre + 1) (min (length l) 15) = Inr (True, i2, length l)"
    using read_length_ext [of m inp isz "pre @ [tok]" "length l" "l @ lo # hi # em @ post"] inp' k sz
    by (simp add: el_def i2_def)
  obtain m1 where m1: "copy_literals (length l) inp isz out osz i2 k m = Inr m1"
      "mem_bytes m1 out (k + length l) = mem_bytes m out k @ l" "confined out osz m m1"
    using copy_literals_correct [OF ap sz(1), of m "pre @ tok # el" l "lo # hi # em @ post" k] inp' k
    by (auto simp: i2_def)
  have inp1: "mem_bytes m1 inp isz = (pre @ tok # el @ l) @ [lo, hi] @ em @ post"
    using mem_bytes_confined [OF ap m1(3)] inp' by simp
  have len3: "length (pre @ tok # el @ l) = i3" by (simp add: i2_def i3_def)
  have lohi: "m1 (inp + of_nat i3) = lo" "m1 (inp + of_nat (i3 + 1)) = hi"
    using mem_bytes_at [OF inp1, of 0] mem_bytes_at [OF inp1, of 1] unfolding len3 by auto
  have r2: "read_length m1 inp isz (i3 + 2) (min (n - 4) 15) = Inr (True, i3 + 2 + length em, n - 4)"
    using read_length_ext [of m1 inp isz "pre @ tok # el @ l @ [lo, hi]" "n - 4" post] inp1 k sz
    by (simp add: em_def i2_def i3_def add.assoc)
  obtain m2 where m2: "copy_match n out osz d (k + length l) m1 = Inr m2"
      "mem_bytes m2 out (k + length l + n) = lz4_copy n d (mem_bytes m1 out (k + length l))" "confined out osz m1 m2"
    using copy_match_correct [OF sz(1) d(1), of "k + length l" n out m1] d k by auto
  have off: "unat (ucast lo OR push_bit 8 (ucast hi) :: u32) = d"
    unfolding lo_def hi_def by (rule match_offset_word [OF d(3)])
  have nibbles: "unat (drop_bit 4 tok) = min (length l) 15" "unat (tok AND 0x0F) = min (n - 4) 15"
    unfolding tok_def by (rule unat_token_high, rule unat_token_low)
  have "lz4_sequence inp isz out osz (length pre) k m =
      Inr (Continue (i3 + 2 + length em) (k + length l + n) m2)"
    unfolding lz4_sequence_def
    using tok r1 m1(1) lohi r2 m2(1) d n k sz isz i3_def [symmetric]
    by (simp add: nibbles off sub32_exact add32_exact Let_def del: of_nat_add of_nat_Suc One_nat_def) arith
  moreover have "i3 + 2 + length em = length pre + length (lz4_encode_seq (Seq l d n))"
    by (simp add: i2_def i3_def el_def em_def)
  ultimately show ?thesis using m1 m2 by (auto intro: confined_trans)
qed

lemma lz4_last_correct:
  assumes ap: "apart inp isz out osz" and sz: "osz < 2 ^ 32" "isz < 2 ^ 32"
    and inp: "mem_bytes m inp isz = pre @ lz4_encode_last l" and k: "k + length l = osz"
  shows "\<exists>m'. lz4_loop inp isz out osz (length pre) k m = Inr (True, m') \<and>
      mem_bytes m' out osz = mem_bytes m out k @ l \<and> confined out osz m m'"
proof -
  define tok el where "tok = lz4_token (length l) 0" and "el = len_ext (length l)"
  have inp': "mem_bytes m inp isz = pre @ tok # el @ l"
    using inp by (simp add: tok_def el_def lz4_encode_last_def)
  define i2 where "i2 = length pre + 1 + length el"
  have isz: "i2 + length l = isz" using arg_cong [OF inp', of length] by (simp add: i2_def)
  have tok: "m (inp + of_nat (length pre)) = tok" "length pre < isz"
    using mem_bytes_hd [OF inp'] by auto
  have r1: "read_length m inp isz (length pre + 1) (min (length l) 15) = Inr (True, i2, length l)"
    using read_length_ext [of m inp isz "pre @ [tok]" "length l" l] inp' k sz by (simp add: el_def i2_def)
  obtain m1 where m1: "copy_literals (length l) inp isz out osz i2 k m = Inr m1"
      "mem_bytes m1 out (k + length l) = mem_bytes m out k @ l" "confined out osz m m1"
    using copy_literals_correct [OF ap sz(1), of m "pre @ tok # el" l "[]" k] inp' k by (auto simp: i2_def)
  have nibble: "unat (drop_bit 4 tok) = min (length l) 15" unfolding tok_def by (rule unat_token_high)
  have "lz4_sequence inp isz out osz (length pre) k m = Inr (Return True m1)"
    unfolding lz4_sequence_def using tok r1 m1(1) k sz isz
    by (simp add: nibble sub32_exact Let_def del: of_nat_add One_nat_def) arith
  then have "lz4_loop inp isz out osz (length pre) k m = Inr (True, m1)"
    using tok(2) by (subst lz4_loop.simps) simp
  then show ?thesis using m1 k by auto
qed

lemma lz4_loop_correct:
  assumes ap: "apart inp isz out osz" and sz: "osz < 2 ^ 32" "isz < 2 ^ 32"
  shows "mem_bytes m inp isz = pre @ lz4_encode ss l \<Longrightarrow> lz4_valid (mem_bytes m out k) ss \<Longrightarrow>
    osz = length (lz4_expand (mem_bytes m out k) ss @ l) \<Longrightarrow>
    \<exists>m'. lz4_loop inp isz out osz (length pre) k m = Inr (True, m') \<and>
      mem_bytes m' out osz = lz4_expand (mem_bytes m out k) ss @ l \<and> confined out osz m m'"
proof (induction ss arbitrary: pre k m)
  case Nil
  then show ?case using lz4_last_correct [OF ap sz, of m pre l k] by (simp add: lz4_encode_def)
next
  case (Cons s ss)
  obtain lit d n where s: "s = Seq lit d n" by (cases s)
  define enc where "enc = lz4_encode_seq s"
  define k2 where "k2 = k + length lit + n"
  define xs where "xs = lz4_copy n d (mem_bytes m out k @ lit)"
  have v: "0 < d" "d \<le> k + length lit" "d < 65536" "4 \<le> n" "lz4_valid xs ss"
    using Cons.prems(2) by (simp_all add: s xs_def)
  have osz: "osz = length (lz4_expand xs ss @ l)" using Cons.prems(3) by (simp add: s xs_def)
  have k2: "k2 \<le> osz" using length_lz4_expand [of xs ss] osz by (simp add: xs_def k2_def)
  have inp: "mem_bytes m inp isz = pre @ enc @ lz4_encode ss l"
    using Cons.prems(1) by (simp add: lz4_encode_def enc_def)
  obtain m1 where m1: "lz4_sequence inp isz out osz (length pre) k m = Inr (Continue (length (pre @ enc)) k2 m1)"
      "mem_bytes m1 out k2 = xs" "confined out osz m m1"
    using lz4_sequence_correct [OF ap sz inp [unfolded enc_def s] v(1-4)] k2
    by (auto simp: k2_def xs_def enc_def s)
  have inp1: "mem_bytes m1 inp isz = (pre @ enc) @ lz4_encode ss l"
    using mem_bytes_confined [OF ap m1(3)] inp by simp
  obtain m2 where m2: "lz4_loop inp isz out osz (length (pre @ enc)) k2 m1 = Inr (True, m2)"
      "mem_bytes m2 out osz = lz4_expand xs ss @ l" "confined out osz m1 m2"
    using Cons.IH [OF inp1, of k2] m1(2) v(5) osz by auto
  have "length pre < isz"
    using arg_cong [OF inp, of length] by (simp add: lz4_encode_def lz4_encode_last_def)
  then have "lz4_loop inp isz out osz (length pre) k m = Inr (True, m2)"
    using m1(1) m2(1) by (subst lz4_loop.simps) simp
  then show ?case using m1(3) m2(2,3) by (auto simp: s xs_def intro: confined_trans)
qed

lemma lz4_decodes:
  assumes "mem_bytes m inp (unat inp_size) = lz4_encode ss l" and "lz4_valid [] ss"
    and "unat out_size = length (lz4_expand [] ss @ l)"
    and "apart inp (unat inp_size) out (unat out_size)"
  shows "\<exists>m'. lz4_decompress inp inp_size out out_size m = Inr (True, m') \<and>
     mem_bytes m' out (unat out_size) = lz4_expand [] ss @ l \<and>
     confined out (unat out_size) m m'"
proof -
  have "unat out_size < 2 ^ 32" "unat inp_size < 2 ^ 32"
    using unsigned_less [of inp_size] unsigned_less [of out_size] by simp_all
  from lz4_loop_correct [OF assms(4) this, of m "[]" ss l 0] show ?thesis
    using assms(1-3) by (simp add: lz4_decompress_def mem_bytes_def)
qed

text \<open>
  C30. Round trip: the decoder turns the encoding of a valid block back into the bytes the block
  stands for. When the input array holds the encoding, the announced output size is the size
  of the expansion and the arrays do not overlap, the decoder returns true, the output array
  holds the expansion, and the rest of memory is unchanged.
\<close>

theorem lz4_decompress_encode:
  assumes "mem_bytes m inp (unat inp_size) = lz4_encode ss l" and "lz4_valid [] ss"
    and "unat out_size = length (lz4_expand [] ss @ l)"
    and "apart inp (unat inp_size) out (unat out_size)"
  shows "\<exists>m'. lz4_decompress inp inp_size out out_size m = Inr (True, m') \<and>
     mem_bytes m' out (unat out_size) = lz4_expand [] ss @ l \<and>
     confined out (unat out_size) m m'"
  using assms by (rule lz4_decodes)

text \<open>A block of two literals, a five-byte overlapping copy and one final literal.\<close>

theorem lz4_decompress_encode_witness:
  "lz4_encode [Seq [1, 2] 2 5] [3] = [0x21, 1, 2, 2, 0, 0x10, 3] \<and>
   (let m = (\<lambda>a. if a < 7 then [0x21, 1, 2, 2, 0, 0x10, 3] ! unat a else 0)
    in \<exists>m'. lz4_decompress 0 7 0x100 8 m = Inr (True, m') \<and>
       mem_bytes m' 0x100 8 = [1, 2, 1, 2, 1, 2, 1, 3] \<and> confined 0x100 8 m m')"
proof -
  let ?m = "\<lambda>a :: u32. if a < 7 then [0x21, 1, 2, 2, 0, 0x10, 3] ! unat a else (0 :: u8)"
  have enc: "lz4_encode [Seq [1, 2] 2 5] [3] = [0x21, 1, 2, 2, 0, 0x10, 3]"
    by (simp add: lz4_encode_def lz4_encode_last_def lz4_token_def len_ext_def)
  have m: "mem_bytes ?m 0 (unat (7 :: u32)) = lz4_encode [Seq [1, 2] 2 5] [3]"
    by (simp add: enc mem_bytes_def upt_rec)
  have ex: "lz4_expand [] [Seq [1, 2] 2 5] @ [3] = [1, 2, 1, 2, 1, 2, 1, 3]"
    by (simp add: numeral_eq_Suc)
  have "apart 0 (unat (7 :: u32)) 0x100 (unat (8 :: u32))"
    by (rule apartI) simp_all
  then show ?thesis
    using enc ex lz4_decompress_encode [OF m, where out_size = 8 and out = "0x100"] by simp
qed

end
