(* ===== verification/Regs.thy ===== *)
theory Regs
  imports Prelude
begin

text \<open>
  The registers, fields and field values the drivers use, from the generated headers
  \<^verbatim>\<open>src/lib/gen/pmb8875_regs.h\<close> and \<^verbatim>\<open>pmb8876_regs.h\<close>. As in C they are macros: a register is
  the address its \<^verbatim>\<open>MMIO32\<close> dereferences. The two headers agree on everything but the I2C
  block, whose names carry the version of the block here.
\<close>

section \<open>Clock generation unit\<close>

abbreviation (input) CGU_OSC :: u32 where "CGU_OSC \<equiv> 0xF45000A0"
abbreviation (input) CGU_OSC_PLL_POWER_UP :: u32 where "CGU_OSC_PLL_POWER_UP \<equiv> 0x1"
abbreviation (input) CGU_OSC_PHASE1_POWER_UP :: u32 where "CGU_OSC_PHASE1_POWER_UP \<equiv> 0x2"
abbreviation (input) CGU_OSC_PHASE2_POWER_UP :: u32 where "CGU_OSC_PHASE2_POWER_UP \<equiv> 0x4"
abbreviation (input) CGU_OSC_PHASE3_POWER_UP :: u32 where "CGU_OSC_PHASE3_POWER_UP \<equiv> 0x8"
abbreviation (input) CGU_OSC_PHASE4_POWER_UP :: u32 where "CGU_OSC_PHASE4_POWER_UP \<equiv> 0x10"
abbreviation (input) CGU_OSC_PLL_BYPASS_N :: u32 where "CGU_OSC_PLL_BYPASS_N \<equiv> 0x100"
abbreviation (input) CGU_OSC_PHASE1_BYPASS_N :: u32 where "CGU_OSC_PHASE1_BYPASS_N \<equiv> 0x200"
abbreviation (input) CGU_OSC_PHASE2_BYPASS_N :: u32 where "CGU_OSC_PHASE2_BYPASS_N \<equiv> 0x400"
abbreviation (input) CGU_OSC_PHASE3_BYPASS_N :: u32 where "CGU_OSC_PHASE3_BYPASS_N \<equiv> 0x800"
abbreviation (input) CGU_OSC_PHASE4_BYPASS_N :: u32 where "CGU_OSC_PHASE4_BYPASS_N \<equiv> 0x1000"
abbreviation (input) CGU_OSC_NDIV :: u32 where "CGU_OSC_NDIV \<equiv> 0x3F0000"
abbreviation (input) CGU_OSC_NDIV_SHIFT :: nat where "CGU_OSC_NDIV_SHIFT \<equiv> 16"
abbreviation (input) CGU_OSC_MDIV :: u32 where "CGU_OSC_MDIV \<equiv> 0xF000000"
abbreviation (input) CGU_OSC_MDIV_SHIFT :: nat where "CGU_OSC_MDIV_SHIFT \<equiv> 24"
abbreviation (input) CGU_CON0 :: u32 where "CGU_CON0 \<equiv> 0xF45000A4"
abbreviation (input) CGU_CON0_PHASE1_K2 :: u32 where "CGU_CON0_PHASE1_K2 \<equiv> 0x7"
abbreviation (input) CGU_CON0_PHASE1_K2_SHIFT :: nat where "CGU_CON0_PHASE1_K2_SHIFT \<equiv> 0"
abbreviation (input) CGU_CON0_PHASE1_K1 :: u32 where "CGU_CON0_PHASE1_K1 \<equiv> 0x78"
abbreviation (input) CGU_CON0_PHASE1_K1_SHIFT :: nat where "CGU_CON0_PHASE1_K1_SHIFT \<equiv> 3"
abbreviation (input) CGU_CON0_PHASE2_K2 :: u32 where "CGU_CON0_PHASE2_K2 \<equiv> 0x700"
abbreviation (input) CGU_CON0_PHASE2_K2_SHIFT :: nat where "CGU_CON0_PHASE2_K2_SHIFT \<equiv> 8"
abbreviation (input) CGU_CON0_PHASE2_K1 :: u32 where "CGU_CON0_PHASE2_K1 \<equiv> 0x7800"
abbreviation (input) CGU_CON0_PHASE2_K1_SHIFT :: nat where "CGU_CON0_PHASE2_K1_SHIFT \<equiv> 11"
abbreviation (input) CGU_CON0_PHASE3_K2 :: u32 where "CGU_CON0_PHASE3_K2 \<equiv> 0x70000"
abbreviation (input) CGU_CON0_PHASE3_K2_SHIFT :: nat where "CGU_CON0_PHASE3_K2_SHIFT \<equiv> 16"
abbreviation (input) CGU_CON0_PHASE3_K1 :: u32 where "CGU_CON0_PHASE3_K1 \<equiv> 0x780000"
abbreviation (input) CGU_CON0_PHASE3_K1_SHIFT :: nat where "CGU_CON0_PHASE3_K1_SHIFT \<equiv> 19"
abbreviation (input) CGU_CON0_PHASE4_K2 :: u32 where "CGU_CON0_PHASE4_K2 \<equiv> 0x7000000"
abbreviation (input) CGU_CON0_PHASE4_K2_SHIFT :: nat where "CGU_CON0_PHASE4_K2_SHIFT \<equiv> 24"
abbreviation (input) CGU_CON0_PHASE4_K1 :: u32 where "CGU_CON0_PHASE4_K1 \<equiv> 0x78000000"
abbreviation (input) CGU_CON0_PHASE4_K1_SHIFT :: nat where "CGU_CON0_PHASE4_K1_SHIFT \<equiv> 27"
abbreviation (input) CGU_CON1 :: u32 where "CGU_CON1 \<equiv> 0xF45000A8"
abbreviation (input) CGU_CON1_FPI1_CLKSEL :: u32 where "CGU_CON1_FPI1_CLKSEL \<equiv> 0x3"
abbreviation (input) CGU_CON1_FPI1_CLKSEL_OSC :: u32 where "CGU_CON1_FPI1_CLKSEL_OSC \<equiv> 0x0"
abbreviation (input) CGU_CON1_FPI1_CLKSEL_CLK32K :: u32 where "CGU_CON1_FPI1_CLKSEL_CLK32K \<equiv> 0x1"
abbreviation (input) CGU_CON1_FPI1_CLKSEL_PLL_DIV_2 :: u32 where "CGU_CON1_FPI1_CLKSEL_PLL_DIV_2 \<equiv> 0x2"
abbreviation (input) CGU_CON1_FPI1_CLKDIV :: u32 where "CGU_CON1_FPI1_CLKDIV \<equiv> 0x30"
abbreviation (input) CGU_CON1_FPI1_CLKDIV_SHIFT :: nat where "CGU_CON1_FPI1_CLKDIV_SHIFT \<equiv> 4"
abbreviation (input) CGU_CON1_FSYS_CLKSEL :: u32 where "CGU_CON1_FSYS_CLKSEL \<equiv> 0x30000"
abbreviation (input) CGU_CON1_FSYS_CLKSEL_BYPASS :: u32 where "CGU_CON1_FSYS_CLKSEL_BYPASS \<equiv> 0x0"
abbreviation (input) CGU_CON1_FSYS_CLKSEL_PLL :: u32 where "CGU_CON1_FSYS_CLKSEL_PLL \<equiv> 0x20000"
abbreviation (input) CGU_CON1_AHB_CLKSEL :: u32 where "CGU_CON1_AHB_CLKSEL \<equiv> 0x700000"
abbreviation (input) CGU_CON1_AHB_CLKSEL_BYPASS :: u32 where "CGU_CON1_AHB_CLKSEL_BYPASS \<equiv> 0x0"
abbreviation (input) CGU_CON1_AHB_CLKSEL_PLL :: u32 where "CGU_CON1_AHB_CLKSEL_PLL \<equiv> 0x200000"
abbreviation (input) CGU_CON1_AHB_CLKSEL_PHASE1 :: u32 where "CGU_CON1_AHB_CLKSEL_PHASE1 \<equiv> 0x300000"
abbreviation (input) CGU_CON1_AHB_CLKSEL_PHASE2 :: u32 where "CGU_CON1_AHB_CLKSEL_PHASE2 \<equiv> 0x400000"
abbreviation (input) CGU_CON1_AHB_CLKSEL_PHASE3 :: u32 where "CGU_CON1_AHB_CLKSEL_PHASE3 \<equiv> 0x500000"
abbreviation (input) CGU_CON1_AHB_CLKSEL_PHASE4 :: u32 where "CGU_CON1_AHB_CLKSEL_PHASE4 \<equiv> 0x600000"
abbreviation (input) CGU_CON1_FPI2_OSC_DISABLE :: u32 where "CGU_CON1_FPI2_OSC_DISABLE \<equiv> 0x1000000"
abbreviation (input) CGU_CON1_FPI2_CLKSEL :: u32 where "CGU_CON1_FPI2_CLKSEL \<equiv> 0x2000000"
abbreviation (input) CGU_CON1_FPI2_CLKSEL_PLL :: u32 where "CGU_CON1_FPI2_CLKSEL_PLL \<equiv> 0x2000000"
abbreviation (input) CGU_CON1_FPI2_CLKDIV :: u32 where "CGU_CON1_FPI2_CLKDIV \<equiv> 0x30000000"
abbreviation (input) CGU_CON1_FPI2_CLKDIV_SHIFT :: nat where "CGU_CON1_FPI2_CLKDIV_SHIFT \<equiv> 28"
abbreviation (input) CGU_CON2 :: u32 where "CGU_CON2 \<equiv> 0xF45000AC"
abbreviation (input) CGU_CON2_DSP_CLKSEL :: u32 where "CGU_CON2_DSP_CLKSEL \<equiv> 0x7"
abbreviation (input) CGU_CON2_DSP_CLKSEL_OSC :: u32 where "CGU_CON2_DSP_CLKSEL_OSC \<equiv> 0x0"
abbreviation (input) CGU_CON2_DSP_CLKSEL_PLL :: u32 where "CGU_CON2_DSP_CLKSEL_PLL \<equiv> 0x2"
abbreviation (input) CGU_CON2_DSP_CLKSEL_PHASE1 :: u32 where "CGU_CON2_DSP_CLKSEL_PHASE1 \<equiv> 0x3"
abbreviation (input) CGU_CON2_EBU_CLKSEL :: u32 where "CGU_CON2_EBU_CLKSEL \<equiv> 0x70"
abbreviation (input) CGU_CON2_EBU_CLKSEL_OSC :: u32 where "CGU_CON2_EBU_CLKSEL_OSC \<equiv> 0x0"
abbreviation (input) CGU_CON2_EBU_CLKSEL_PLL :: u32 where "CGU_CON2_EBU_CLKSEL_PLL \<equiv> 0x20"
abbreviation (input) CGU_CON2_EBU_CLKSEL_PHASE1 :: u32 where "CGU_CON2_EBU_CLKSEL_PHASE1 \<equiv> 0x30"
abbreviation (input) CGU_CON2_EBU_CLKSEL_PHASE2 :: u32 where "CGU_CON2_EBU_CLKSEL_PHASE2 \<equiv> 0x40"
abbreviation (input) CGU_CON2_EBU_CLKSEL_PHASE3 :: u32 where "CGU_CON2_EBU_CLKSEL_PHASE3 \<equiv> 0x50"
abbreviation (input) CGU_CON2_EBU_CLKSEL_PHASE4 :: u32 where "CGU_CON2_EBU_CLKSEL_PHASE4 \<equiv> 0x60"
abbreviation (input) CGU_CON2_EBU_CLKSEL_AHB :: u32 where "CGU_CON2_EBU_CLKSEL_AHB \<equiv> 0x70"
abbreviation (input) CGU_CON2_CPU_DIV :: u32 where "CGU_CON2_CPU_DIV \<equiv> 0x300"
abbreviation (input) CGU_CON2_CPU_DIV_SHIFT :: nat where "CGU_CON2_CPU_DIV_SHIFT \<equiv> 8"
abbreviation (input) CGU_CON2_CPU_DIV_EN :: u32 where "CGU_CON2_CPU_DIV_EN \<equiv> 0x1000"
abbreviation (input) CGU_CON2_CLK48M_CLKSEL :: u32 where "CGU_CON2_CLK48M_CLKSEL \<equiv> 0xC000"
abbreviation (input) CGU_CON2_CLK48M_CLKSEL_OSC :: u32 where "CGU_CON2_CLK48M_CLKSEL_OSC \<equiv> 0x0"
abbreviation (input) CGU_CON2_CLK48M_CLKSEL_PHASE4 :: u32 where "CGU_CON2_CLK48M_CLKSEL_PHASE4 \<equiv> 0x8000"
abbreviation (input) CGU_CON2_CLKOUT0_EN :: u32 where "CGU_CON2_CLKOUT0_EN \<equiv> 0x10000"
abbreviation (input) CGU_CON2_CLKOUT0_CLKDIV :: u32 where "CGU_CON2_CLKOUT0_CLKDIV \<equiv> 0x60000"
abbreviation (input) CGU_CON2_CLKOUT0_CLKDIV_SHIFT :: nat where "CGU_CON2_CLKOUT0_CLKDIV_SHIFT \<equiv> 17"
abbreviation (input) CGU_CON2_CLKOUT1_EN :: u32 where "CGU_CON2_CLKOUT1_EN \<equiv> 0x100000"
abbreviation (input) CGU_CON2_CLKOUT1_CLKDIV :: u32 where "CGU_CON2_CLKOUT1_CLKDIV \<equiv> 0x600000"
abbreviation (input) CGU_CON2_CLKOUT1_CLKDIV_SHIFT :: nat where "CGU_CON2_CLKOUT1_CLKDIV_SHIFT \<equiv> 21"
abbreviation (input) CGU_CON2_CLK32K_EN :: u32 where "CGU_CON2_CLK32K_EN \<equiv> 0x1000000"
abbreviation (input) CGU_CON2_MS_CLKSEL :: u32 where "CGU_CON2_MS_CLKSEL \<equiv> 0x30000000"
abbreviation (input) CGU_CON2_MS_CLKSEL_CLK_IN :: u32 where "CGU_CON2_MS_CLKSEL_CLK_IN \<equiv> 0x0"
abbreviation (input) CGU_CON2_MS_CLKSEL_PLL :: u32 where "CGU_CON2_MS_CLKSEL_PLL \<equiv> 0x20000000"
abbreviation (input) CGU_STAT :: u32 where "CGU_STAT \<equiv> 0xF45000B0"
abbreviation (input) CGU_STAT_LOCK :: u32 where "CGU_STAT_LOCK \<equiv> 0x2000"
abbreviation (input) CGU_CON3 :: u32 where "CGU_CON3 \<equiv> 0xF45000B4"
abbreviation (input) CGU_CON3_AHB_PER_CLKSEL :: u32 where "CGU_CON3_AHB_PER_CLKSEL \<equiv> 0x3"
abbreviation (input) CGU_CON3_AHB_PER_CLKSEL_OSC :: u32 where "CGU_CON3_AHB_PER_CLKSEL_OSC \<equiv> 0x0"
abbreviation (input) CGU_CON3_AHB_PER_CLKSEL_CLK32K :: u32 where "CGU_CON3_AHB_PER_CLKSEL_CLK32K \<equiv> 0x1"
abbreviation (input) CGU_CON3_AHB_PER_CLKSEL_PLL_DIV_2 :: u32 where "CGU_CON3_AHB_PER_CLKSEL_PLL_DIV_2 \<equiv> 0x2"
abbreviation (input) CGU_CON3_AHB_PER_CLKDIV :: u32 where "CGU_CON3_AHB_PER_CLKDIV \<equiv> 0x30"
abbreviation (input) CGU_CON3_AHB_PER_CLKDIV_SHIFT :: nat where "CGU_CON3_AHB_PER_CLKDIV_SHIFT \<equiv> 4"
abbreviation (input) CGU_CON3_MMCI_CLKSEL :: u32 where "CGU_CON3_MMCI_CLKSEL \<equiv> 0x300"
abbreviation (input) CGU_CON3_MMCI_CLKSEL_OSC :: u32 where "CGU_CON3_MMCI_CLKSEL_OSC \<equiv> 0x0"
abbreviation (input) CGU_CON3_MMCI_CLKSEL_CLK32K :: u32 where "CGU_CON3_MMCI_CLKSEL_CLK32K \<equiv> 0x100"
abbreviation (input) CGU_CON3_MMCI_CLKSEL_PHASE4 :: u32 where "CGU_CON3_MMCI_CLKSEL_PHASE4 \<equiv> 0x200"
abbreviation (input) CGU_CON3_MMCI_CLKDIV :: u32 where "CGU_CON3_MMCI_CLKDIV \<equiv> 0x3000"
abbreviation (input) CGU_CON3_MMCI_CLKDIV_SHIFT :: nat where "CGU_CON3_MMCI_CLKDIV_SHIFT \<equiv> 12"
abbreviation (input) CGU_CON3_CLKOUT2_EN :: u32 where "CGU_CON3_CLKOUT2_EN \<equiv> 0x10000"
abbreviation (input) CGU_CON3_CLKOUT2_CLKDIV :: u32 where "CGU_CON3_CLKOUT2_CLKDIV \<equiv> 0x300000"
abbreviation (input) CGU_CON3_CLKOUT2_CLKDIV_SHIFT :: nat where "CGU_CON3_CLKOUT2_CLKDIV_SHIFT \<equiv> 20"
abbreviation (input) CGU_CON3_CLK48M_CLKDIV :: u32 where "CGU_CON3_CLK48M_CLKDIV \<equiv> 0x3000000"
abbreviation (input) CGU_CON3_CLK48M_CLKDIV_SHIFT :: nat where "CGU_CON3_CLK48M_CLKDIV_SHIFT \<equiv> 24"
abbreviation (input) CGU_CON3_DMA_CLK_DISABLE :: u32 where "CGU_CON3_DMA_CLK_DISABLE \<equiv> 0x10000000"

section \<open>System control unit\<close>

abbreviation (input) SCU_RST_SR :: u32 where "SCU_RST_SR \<equiv> 0xF4400010"
abbreviation (input) SCU_RST_SR_HDRST :: u32 where "SCU_RST_SR_HDRST \<equiv> 0x10000000"
abbreviation (input) SCU_RST_SR_PWDRST :: u32 where "SCU_RST_SR_PWDRST \<equiv> 0x80000000"
abbreviation (input) SCU_WDTCON0 :: u32 where "SCU_WDTCON0 \<equiv> 0xF4400024"
abbreviation (input) SCU_WDTCON0_ENDINIT :: u32 where "SCU_WDTCON0_ENDINIT \<equiv> 0x1"
abbreviation (input) SCU_WDTCON0_WDTLCK :: u32 where "SCU_WDTCON0_WDTLCK \<equiv> 0x2"
abbreviation (input) SCU_WDTCON0_WDTHPW1 :: u32 where "SCU_WDTCON0_WDTHPW1 \<equiv> 0xF0"
abbreviation (input) SCU_WDTCON0_WDTPW :: u32 where "SCU_WDTCON0_WDTPW \<equiv> 0xFF00"
abbreviation (input) SCU_WDTCON0_WDTREL :: u32 where "SCU_WDTCON0_WDTREL \<equiv> 0xFFFF0000"
abbreviation (input) SCU_WDTCON0_WDTREL_SHIFT :: nat where "SCU_WDTCON0_WDTREL_SHIFT \<equiv> 16"
abbreviation (input) SCU_WDTCON1 :: u32 where "SCU_WDTCON1 \<equiv> 0xF4400028"
abbreviation (input) SCU_WDTCON1_WDTIR :: u32 where "SCU_WDTCON1_WDTIR \<equiv> 0x4"
abbreviation (input) SCU_WDTCON1_WDTDR :: u32 where "SCU_WDTCON1_WDTDR \<equiv> 0x8"
abbreviation (input) SCU_EMU_ID :: u32 where "SCU_EMU_ID \<equiv> 0xF440004C"
abbreviation (input) SCU_EMU_ID_VALUE_QEMU :: u32 where "SCU_EMU_ID_VALUE_QEMU \<equiv> 0x51454D55"
abbreviation (input) SCU_CHIPID :: u32 where "SCU_CHIPID \<equiv> 0xF4400060"
abbreviation (input) SCU_CHIPID_CHREV :: u32 where "SCU_CHIPID_CHREV \<equiv> 0xFF"
abbreviation (input) SCU_CHIPID_CHREV_SHIFT :: nat where "SCU_CHIPID_CHREV_SHIFT \<equiv> 0"
abbreviation (input) SCU_CHIPID_CHIPD :: u32 where "SCU_CHIPID_CHIPD \<equiv> 0xFF00"
abbreviation (input) SCU_CHIPID_CHIPD_SHIFT :: nat where "SCU_CHIPID_CHIPD_SHIFT \<equiv> 8"
abbreviation (input) SCU_RTCIF :: u32 where "SCU_RTCIF \<equiv> 0xF4400064"
abbreviation (input) SCU_ROMAMCR :: u32 where "SCU_ROMAMCR \<equiv> 0xF440007C"
abbreviation (input) SCU_ROMAMCR_MOUNT_BROM :: u32 where "SCU_ROMAMCR_MOUNT_BROM \<equiv> 0x1"
abbreviation (input) SCU_DMARS :: u32 where "SCU_DMARS \<equiv> 0xF4400084"

section \<open>System timer\<close>

abbreviation (input) STM_CLC :: u32 where "STM_CLC \<equiv> 0xF4B00000"
abbreviation (input) STM_CLC_RMC2 :: u32 where "STM_CLC_RMC2 \<equiv> 0xFF0000"
abbreviation (input) STM_CLC_RMC2_SHIFT :: nat where "STM_CLC_RMC2_SHIFT \<equiv> 16"
abbreviation (input) STM_TIM0 :: u32 where "STM_TIM0 \<equiv> 0xF4B00010"
abbreviation (input) STM_TIM6 :: u32 where "STM_TIM6 \<equiv> 0xF4B00028"

section \<open>Common module registers\<close>

abbreviation (input) MOD_CLC_DISR :: u32 where "MOD_CLC_DISR \<equiv> 0x1"
abbreviation (input) MOD_CLC_DISS :: u32 where "MOD_CLC_DISS \<equiv> 0x2"
abbreviation (input) MOD_CLC_RMC :: u32 where "MOD_CLC_RMC \<equiv> 0xFF00"
abbreviation (input) MOD_CLC_RMC_SHIFT :: nat where "MOD_CLC_RMC_SHIFT \<equiv> 8"
abbreviation (input) MOD_ID_REV :: u32 where "MOD_ID_REV \<equiv> 0xFF"

section \<open>GPIO\<close>

abbreviation (input) GPIO_USART0_RXD :: u32 where "GPIO_USART0_RXD \<equiv> 11"
abbreviation (input) GPIO_USART0_TXD :: u32 where "GPIO_USART0_TXD \<equiv> 12"
abbreviation (input) GPIO_USART1_RXD :: u32 where "GPIO_USART1_RXD \<equiv> 16"
abbreviation (input) GPIO_USART1_TXD :: u32 where "GPIO_USART1_TXD \<equiv> 17"
abbreviation (input) GPIO_I2C_SCL :: u32 where "GPIO_I2C_SCL \<equiv> 28"
abbreviation (input) GPIO_I2C_SDA :: u32 where "GPIO_I2C_SDA \<equiv> 29"
abbreviation (input) GPIO_PIN :: "u32 \<Rightarrow> u32" where "GPIO_PIN n \<equiv> 0xF4300020 + n * 0x4"
abbreviation (input) GPIO_IS_NONE :: u32 where "GPIO_IS_NONE \<equiv> 0x0"
abbreviation (input) GPIO_IS_ALT0 :: u32 where "GPIO_IS_ALT0 \<equiv> 0x1"
abbreviation (input) GPIO_OS_NONE :: u32 where "GPIO_OS_NONE \<equiv> 0x0"
abbreviation (input) GPIO_OS_ALT0 :: u32 where "GPIO_OS_ALT0 \<equiv> 0x10"
abbreviation (input) GPIO_PS :: u32 where "GPIO_PS \<equiv> 0x100"
abbreviation (input) GPIO_PS_ALT :: u32 where "GPIO_PS_ALT \<equiv> 0x0"
abbreviation (input) GPIO_PS_MANUAL :: u32 where "GPIO_PS_MANUAL \<equiv> 0x100"
abbreviation (input) GPIO_DATA_LOW :: u32 where "GPIO_DATA_LOW \<equiv> 0x0"
abbreviation (input) GPIO_DATA_HIGH :: u32 where "GPIO_DATA_HIGH \<equiv> 0x200"
abbreviation (input) GPIO_DIR :: u32 where "GPIO_DIR \<equiv> 0x400"
abbreviation (input) GPIO_DIR_IN :: u32 where "GPIO_DIR_IN \<equiv> 0x0"
abbreviation (input) GPIO_DIR_OUT :: u32 where "GPIO_DIR_OUT \<equiv> 0x400"
abbreviation (input) GPIO_PPEN_OPENDRAIN :: u32 where "GPIO_PPEN_OPENDRAIN \<equiv> 0x1000"

section \<open>USART\<close>

abbreviation (input) USART0 :: u32 where "USART0 \<equiv> 0xF1000000"
abbreviation (input) USART1 :: u32 where "USART1 \<equiv> 0xF1800000"
abbreviation (input) USART_CLC :: "u32 \<Rightarrow> u32" where "USART_CLC base \<equiv> base + 0x0"
abbreviation (input) USART_CON :: "u32 \<Rightarrow> u32" where "USART_CON base \<equiv> base + 0x10"
abbreviation (input) USART_CON_M_ASYNC_8BIT :: u32 where "USART_CON_M_ASYNC_8BIT \<equiv> 0x1"
abbreviation (input) USART_CON_STP :: u32 where "USART_CON_STP \<equiv> 0x8"
abbreviation (input) USART_CON_STP_ONE :: u32 where "USART_CON_STP_ONE \<equiv> 0x0"
abbreviation (input) USART_CON_STP_TWO :: u32 where "USART_CON_STP_TWO \<equiv> 0x8"
abbreviation (input) USART_CON_REN :: u32 where "USART_CON_REN \<equiv> 0x10"
abbreviation (input) USART_CON_FDE :: u32 where "USART_CON_FDE \<equiv> 0x800"
abbreviation (input) USART_CON_CON_R :: u32 where "USART_CON_CON_R \<equiv> 0x8000"
abbreviation (input) USART_BG :: "u32 \<Rightarrow> u32" where "USART_BG base \<equiv> base + 0x14"
abbreviation (input) USART_FDV :: "u32 \<Rightarrow> u32" where "USART_FDV base \<equiv> base + 0x18"
abbreviation (input) USART_TXB :: "u32 \<Rightarrow> u32" where "USART_TXB base \<equiv> base + 0x20"
abbreviation (input) USART_RXB :: "u32 \<Rightarrow> u32" where "USART_RXB base \<equiv> base + 0x24"
abbreviation (input) USART_RXFCON :: "u32 \<Rightarrow> u32" where "USART_RXFCON base \<equiv> base + 0x40"
abbreviation (input) USART_RXFCON_RXFEN :: u32 where "USART_RXFCON_RXFEN \<equiv> 0x1"
abbreviation (input) USART_RXFCON_RXFFLU :: u32 where "USART_RXFCON_RXFFLU \<equiv> 0x2"
abbreviation (input) USART_TXFCON :: "u32 \<Rightarrow> u32" where "USART_TXFCON base \<equiv> base + 0x44"
abbreviation (input) USART_TXFCON_TXFEN :: u32 where "USART_TXFCON_TXFEN \<equiv> 0x1"
abbreviation (input) USART_TXFCON_TXFFLU :: u32 where "USART_TXFCON_TXFFLU \<equiv> 0x2"
abbreviation (input) USART_FSTAT :: "u32 \<Rightarrow> u32" where "USART_FSTAT base \<equiv> base + 0x48"
abbreviation (input) USART_FSTAT_RXFFL :: u32 where "USART_FSTAT_RXFFL \<equiv> 0xF"
abbreviation (input) USART_FSTAT_RXFFL_SHIFT :: nat where "USART_FSTAT_RXFFL_SHIFT \<equiv> 0"
abbreviation (input) USART_FSTAT_TXFFL :: u32 where "USART_FSTAT_TXFFL \<equiv> 0xF00"
abbreviation (input) USART_FSTAT_TXFFL_SHIFT :: nat where "USART_FSTAT_TXFFL_SHIFT \<equiv> 8"
abbreviation (input) USART_WHBCON :: "u32 \<Rightarrow> u32" where "USART_WHBCON base \<equiv> base + 0x50"
abbreviation (input) USART_WHBCON_SETREN :: u32 where "USART_WHBCON_SETREN \<equiv> 0x20"
abbreviation (input) USART_RIS :: "u32 \<Rightarrow> u32" where "USART_RIS base \<equiv> base + 0x68"
abbreviation (input) USART_RIS_TX :: u32 where "USART_RIS_TX \<equiv> 0x1"
abbreviation (input) USART_ICR :: "u32 \<Rightarrow> u32" where "USART_ICR base \<equiv> base + 0x70"
abbreviation (input) USART_ICR_TX :: u32 where "USART_ICR_TX \<equiv> 0x1"

section \<open>SIM interface\<close>

abbreviation (input) SIM_CLC :: u32 where "SIM_CLC \<equiv> 0xF1300000"
abbreviation (input) SIM_CON :: u32 where "SIM_CON \<equiv> 0xF1300020"
abbreviation (input) SIM_CON_SIMIOL :: u32 where "SIM_CON_SIMIOL \<equiv> 0x4"
abbreviation (input) SIM_CON_SIMEN :: u32 where "SIM_CON_SIMEN \<equiv> 0x8"
abbreviation (input) SIM_CON_SIMVCC :: u32 where "SIM_CON_SIMVCC \<equiv> 0x10"
abbreviation (input) SIM_CON_SIMRST :: u32 where "SIM_CON_SIMRST \<equiv> 0x20"
abbreviation (input) SIM_CON_ERROFF :: u32 where "SIM_CON_ERROFF \<equiv> 0x40"
abbreviation (input) SIM_CON_SIMON :: u32 where "SIM_CON_SIMON \<equiv> 0x400"
abbreviation (input) SIM_CON_UARTON :: u32 where "SIM_CON_UARTON \<equiv> 0x2000"
abbreviation (input) SIM_BRF :: u32 where "SIM_BRF \<equiv> 0xF1300024"
abbreviation (input) SIM_IRQEN :: u32 where "SIM_IRQEN \<equiv> 0xF130002C"
abbreviation (input) SIM_IRQEN_ENOKINT :: u32 where "SIM_IRQEN_ENOKINT \<equiv> 0x1"
abbreviation (input) SIM_IRQEN_ENPAR :: u32 where "SIM_IRQEN_ENPAR \<equiv> 0x2"
abbreviation (input) SIM_IRQEN_ENOVR :: u32 where "SIM_IRQEN_ENOVR \<equiv> 0x4"
abbreviation (input) SIM_TXB :: u32 where "SIM_TXB \<equiv> 0xF1300050"
abbreviation (input) SIM_RXB :: u32 where "SIM_RXB \<equiv> 0xF1300054"
abbreviation (input) SIM_IMSC :: u32 where "SIM_IMSC \<equiv> 0xF1300070"
abbreviation (input) SIM_IMSC_ERR :: u32 where "SIM_IMSC_ERR \<equiv> 0x1"
abbreviation (input) SIM_IMSC_IN :: u32 where "SIM_IMSC_IN \<equiv> 0x2"
abbreviation (input) SIM_IMSC_OK :: u32 where "SIM_IMSC_OK \<equiv> 0x4"
abbreviation (input) SIM_RIS :: u32 where "SIM_RIS \<equiv> 0xF1300074"
abbreviation (input) SIM_RIS_ERR :: u32 where "SIM_RIS_ERR \<equiv> 0x1"
abbreviation (input) SIM_RIS_OK :: u32 where "SIM_RIS_OK \<equiv> 0x4"
abbreviation (input) SIM_ICR :: u32 where "SIM_ICR \<equiv> 0xF130007C"
abbreviation (input) SIM_ICR_ERR :: u32 where "SIM_ICR_ERR \<equiv> 0x1"
abbreviation (input) SIM_ICR_OK :: u32 where "SIM_ICR_OK \<equiv> 0x4"

section \<open>External bus unit\<close>

abbreviation (input) EBU_SDRMREF :: "u32 \<Rightarrow> u32" where "EBU_SDRMREF n \<equiv> 0xF0000040 + n * 0x8"
abbreviation (input) EBU_SDRMREF_REFRESHC_SHIFT :: nat where "EBU_SDRMREF_REFRESHC_SHIFT \<equiv> 0"
abbreviation (input) EBU_SDRMCON :: "u32 \<Rightarrow> u32" where "EBU_SDRMCON n \<equiv> 0xF0000050 + n * 0x8"
abbreviation (input) EBU_SDRMCON_CRFSH_SHIFT :: nat where "EBU_SDRMCON_CRFSH_SHIFT \<equiv> 4"
abbreviation (input) EBU_SDRMCON_CRP_SHIFT :: nat where "EBU_SDRMCON_CRP_SHIFT \<equiv> 10"
abbreviation (input) EBU_SDRMCON_AWIDTH_SHIFT :: nat where "EBU_SDRMCON_AWIDTH_SHIFT \<equiv> 12"
abbreviation (input) EBU_SDRMCON_CRC_SHIFT :: nat where "EBU_SDRMCON_CRC_SHIFT \<equiv> 16"
abbreviation (input) EBU_SDRMCON_PAGEM_SHIFT :: nat where "EBU_SDRMCON_PAGEM_SHIFT \<equiv> 19"
abbreviation (input) EBU_SDRMCON_BANKM_SHIFT :: nat where "EBU_SDRMCON_BANKM_SHIFT \<equiv> 22"
abbreviation (input) EBU_SDRMOD :: "u32 \<Rightarrow> u32" where "EBU_SDRMOD n \<equiv> 0xF0000060 + n * 0x8"
abbreviation (input) EBU_SDRMOD_BURSTL_SHIFT :: nat where "EBU_SDRMOD_BURSTL_SHIFT \<equiv> 0"
abbreviation (input) EBU_SDRMOD_CASLAT_SHIFT :: nat where "EBU_SDRMOD_CASLAT_SHIFT \<equiv> 4"
abbreviation (input) EBU_ADDRSEL :: "u32 \<Rightarrow> u32" where "EBU_ADDRSEL n \<equiv> 0xF0000080 + n * 0x8"
abbreviation (input) EBU_ADDRSEL_REGENAB :: u32 where "EBU_ADDRSEL_REGENAB \<equiv> 0x1"
abbreviation (input) EBU_ADDRSEL_MASK :: u32 where "EBU_ADDRSEL_MASK \<equiv> 0xF0"
abbreviation (input) EBU_ADDRSEL_MASK_SHIFT :: nat where "EBU_ADDRSEL_MASK_SHIFT \<equiv> 4"
abbreviation (input) EBU_ADDRSEL_BASE :: u32 where "EBU_ADDRSEL_BASE \<equiv> 0xFFFFF000"
abbreviation (input) EBU_BUSCON :: "u32 \<Rightarrow> u32" where "EBU_BUSCON n \<equiv> 0xF00000C0 + n * 0x8"
abbreviation (input) EBU_BUSCON_AALIGN :: u32 where "EBU_BUSCON_AALIGN \<equiv> 0x200"
abbreviation (input) EBU_BUSCON_CTYPE_SHIFT :: nat where "EBU_BUSCON_CTYPE_SHIFT \<equiv> 10"
abbreviation (input) EBU_BUSCON_CMULT_SHIFT :: nat where "EBU_BUSCON_CMULT_SHIFT \<equiv> 13"
abbreviation (input) EBU_BUSCON_DLOAD :: u32 where "EBU_BUSCON_DLOAD \<equiv> 0x20000"
abbreviation (input) EBU_BUSCON_BCGEN_SHIFT :: nat where "EBU_BUSCON_BCGEN_SHIFT \<equiv> 20"
abbreviation (input) EBU_BUSCON_PORTW_SHIFT :: nat where "EBU_BUSCON_PORTW_SHIFT \<equiv> 22"
abbreviation (input) EBU_BUSCON_AGEN :: u32 where "EBU_BUSCON_AGEN \<equiv> 0x70000000"
abbreviation (input) EBU_BUSCON_AGEN_SDRAM_0 :: u32 where "EBU_BUSCON_AGEN_SDRAM_0 \<equiv> 0x30000000"
abbreviation (input) EBU_BUSCON_AGEN_SDRAM_1 :: u32 where "EBU_BUSCON_AGEN_SDRAM_1 \<equiv> 0x40000000"

section \<open>Real-time clock\<close>

abbreviation (input) RTC_CLC :: u32 where "RTC_CLC \<equiv> 0xF4700000"
abbreviation (input) RTC_CTRL :: u32 where "RTC_CTRL \<equiv> 0xF4700010"
abbreviation (input) RTC_CTRL_RTCINT :: u32 where "RTC_CTRL_RTCINT \<equiv> 0x2"
abbreviation (input) RTC_CTRL_CLK32KEN :: u32 where "RTC_CTRL_CLK32KEN \<equiv> 0x4"
abbreviation (input) RTC_CTRL_PU32K :: u32 where "RTC_CTRL_PU32K \<equiv> 0x8"
abbreviation (input) RTC_CTRL_CLK_SEL :: u32 where "RTC_CTRL_CLK_SEL \<equiv> 0x10"
abbreviation (input) RTC_CTRL_CLR_RTCINT :: u32 where "RTC_CTRL_CLR_RTCINT \<equiv> 0x100"
abbreviation (input) RTC_CTRL_CLR_RTCBAD :: u32 where "RTC_CTRL_CLR_RTCBAD \<equiv> 0x400"
abbreviation (input) RTC_CON :: u32 where "RTC_CON \<equiv> 0xF4700014"
abbreviation (input) RTC_CON_RUN :: u32 where "RTC_CON_RUN \<equiv> 0x1"
abbreviation (input) RTC_CON_PRE :: u32 where "RTC_CON_PRE \<equiv> 0x2"
abbreviation (input) RTC_CON_ACCPOS :: u32 where "RTC_CON_ACCPOS \<equiv> 0x8000"
abbreviation (input) RTC_T14 :: u32 where "RTC_T14 \<equiv> 0xF4700018"
abbreviation (input) RTC_T14_REL_SHIFT :: nat where "RTC_T14_REL_SHIFT \<equiv> 0"
abbreviation (input) RTC_T14_CNT_SHIFT :: nat where "RTC_T14_CNT_SHIFT \<equiv> 16"
abbreviation (input) RTC_CNT :: u32 where "RTC_CNT \<equiv> 0xF470001C"
abbreviation (input) RTC_REL :: u32 where "RTC_REL \<equiv> 0xF4700020"
abbreviation (input) RTC_ISNC :: u32 where "RTC_ISNC \<equiv> 0xF4700024"
abbreviation (input) RTC_ISNC_RTC0IE :: u32 where "RTC_ISNC_RTC0IE \<equiv> 0x4"
abbreviation (input) RTC_ISNRC :: u32 where "RTC_ISNRC \<equiv> 0xF4700028"
abbreviation (input) RTC_ISNRC_RTC0 :: u32 where "RTC_ISNRC_RTC0 \<equiv> 0x4"
abbreviation (input) RTC_ALARM :: u32 where "RTC_ALARM \<equiv> 0xF470002C"
abbreviation (input) RTC_SRC :: u32 where "RTC_SRC \<equiv> 0xF47000F0"

section \<open>Interrupt controller\<close>

abbreviation (input) VIC_IRQ_ACK :: u32 where "VIC_IRQ_ACK \<equiv> 0xF2800014"
abbreviation (input) VIC_IRQ_CURRENT :: u32 where "VIC_IRQ_CURRENT \<equiv> 0xF280001C"

section \<open>I2C block of the PMB8875 (I2Cv1)\<close>

abbreviation (input) I2Cv1_CLC :: u32 where "I2Cv1_CLC \<equiv> 0xF4800000"
abbreviation (input) I2Cv1_SYSCON :: u32 where "I2Cv1_SYSCON \<equiv> 0xF4800010"
abbreviation (input) I2Cv1_SYSCON_LRB :: u32 where "I2Cv1_SYSCON_LRB \<equiv> 0x8"
abbreviation (input) I2Cv1_SYSCON_IRQD :: u32 where "I2Cv1_SYSCON_IRQD \<equiv> 0x20"
abbreviation (input) I2Cv1_SYSCON_IRQP :: u32 where "I2Cv1_SYSCON_IRQP \<equiv> 0x40"
abbreviation (input) I2Cv1_SYSCON_IRQE :: u32 where "I2Cv1_SYSCON_IRQE \<equiv> 0x80"
abbreviation (input) I2Cv1_SYSCON_CO :: u32 where "I2Cv1_SYSCON_CO \<equiv> 0x700"
abbreviation (input) I2Cv1_SYSCON_CO_SHIFT :: nat where "I2Cv1_SYSCON_CO_SHIFT \<equiv> 8"
abbreviation (input) I2Cv1_SYSCON_MOD_MASTER :: u32 where "I2Cv1_SYSCON_MOD_MASTER \<equiv> 0x80000"
abbreviation (input) I2Cv1_SYSCON_INT :: u32 where "I2Cv1_SYSCON_INT \<equiv> 0x400000"
abbreviation (input) I2Cv1_SYSCON_CI :: u32 where "I2Cv1_SYSCON_CI \<equiv> 0xC000000"
abbreviation (input) I2Cv1_SYSCON_CI_SHIFT :: nat where "I2Cv1_SYSCON_CI_SHIFT \<equiv> 26"
abbreviation (input) I2Cv1_BUSCON :: u32 where "I2Cv1_BUSCON \<equiv> 0xF4800014"
abbreviation (input) I2Cv1_BUSCON_SDAEN0 :: u32 where "I2Cv1_BUSCON_SDAEN0 \<equiv> 0x1"
abbreviation (input) I2Cv1_BUSCON_SCLEN0 :: u32 where "I2Cv1_BUSCON_SCLEN0 \<equiv> 0x10"
abbreviation (input) I2Cv1_BUSCON_BRP_SHIFT :: nat where "I2Cv1_BUSCON_BRP_SHIFT \<equiv> 8"
abbreviation (input) I2Cv1_BUSCON_PREDIV_8 :: u32 where "I2Cv1_BUSCON_PREDIV_8 \<equiv> 0x20000000"
abbreviation (input) I2Cv1_BUSCON_BRPMOD_MODE1 :: u32 where "I2Cv1_BUSCON_BRPMOD_MODE1 \<equiv> 0x80000000"
abbreviation (input) I2Cv1_RTB :: u32 where "I2Cv1_RTB \<equiv> 0xF4800018"
abbreviation (input) I2Cv1_WHBSYSCON :: u32 where "I2Cv1_WHBSYSCON \<equiv> 0xF4800020"
abbreviation (input) I2Cv1_WHBSYSCON_CLRAL :: u32 where "I2Cv1_WHBSYSCON_CLRAL \<equiv> 0x2"
abbreviation (input) I2Cv1_WHBSYSCON_CLRIRQD :: u32 where "I2Cv1_WHBSYSCON_CLRIRQD \<equiv> 0x20"
abbreviation (input) I2Cv1_WHBSYSCON_CLRIRQP :: u32 where "I2Cv1_WHBSYSCON_CLRIRQP \<equiv> 0x40"
abbreviation (input) I2Cv1_WHBSYSCON_CLRIRQE :: u32 where "I2Cv1_WHBSYSCON_CLRIRQE \<equiv> 0x80"
abbreviation (input) I2Cv1_WHBSYSCON_CLRRSC :: u32 where "I2Cv1_WHBSYSCON_CLRRSC \<equiv> 0x10000"
abbreviation (input) I2Cv1_WHBSYSCON_CLRBUM :: u32 where "I2Cv1_WHBSYSCON_CLRBUM \<equiv> 0x80000"
abbreviation (input) I2Cv1_WHBSYSCON_SETBUM :: u32 where "I2Cv1_WHBSYSCON_SETBUM \<equiv> 0x100000"
abbreviation (input) I2Cv1_WHBSYSCON_CLRACKDIS :: u32 where "I2Cv1_WHBSYSCON_CLRACKDIS \<equiv> 0x200000"
abbreviation (input) I2Cv1_WHBSYSCON_SETACKDIS :: u32 where "I2Cv1_WHBSYSCON_SETACKDIS \<equiv> 0x400000"
abbreviation (input) I2Cv1_WHBSYSCON_CLRTRX :: u32 where "I2Cv1_WHBSYSCON_CLRTRX \<equiv> 0x800000"
abbreviation (input) I2Cv1_WHBSYSCON_CLRSTP :: u32 where "I2Cv1_WHBSYSCON_CLRSTP \<equiv> 0x2000000"
abbreviation (input) I2Cv1_WHBSYSCON_SETSTP :: u32 where "I2Cv1_WHBSYSCON_SETSTP \<equiv> 0x4000000"

section \<open>I2C block of the PMB8876 (I2Cv2)\<close>

abbreviation (input) I2Cv2_CLC :: u32 where "I2Cv2_CLC \<equiv> 0xF7600000"
abbreviation (input) I2Cv2_RUNCTRL :: u32 where "I2Cv2_RUNCTRL \<equiv> 0xF7600010"
abbreviation (input) I2Cv2_RUNCTRL_RUN :: u32 where "I2Cv2_RUNCTRL_RUN \<equiv> 0x1"
abbreviation (input) I2Cv2_ENDDCTRL :: u32 where "I2Cv2_ENDDCTRL \<equiv> 0xF7600014"
abbreviation (input) I2Cv2_ENDDCTRL_SETEND :: u32 where "I2Cv2_ENDDCTRL_SETEND \<equiv> 0x2"
abbreviation (input) I2Cv2_FDIVCFG :: u32 where "I2Cv2_FDIVCFG \<equiv> 0xF7600018"
abbreviation (input) I2Cv2_FDIVCFG_DEC_SHIFT :: nat where "I2Cv2_FDIVCFG_DEC_SHIFT \<equiv> 0"
abbreviation (input) I2Cv2_FDIVCFG_INC_SHIFT :: nat where "I2Cv2_FDIVCFG_INC_SHIFT \<equiv> 16"
abbreviation (input) I2Cv2_ADDRCFG :: u32 where "I2Cv2_ADDRCFG \<equiv> 0xF7600020"
abbreviation (input) I2Cv2_ADDRCFG_MnS :: u32 where "I2Cv2_ADDRCFG_MnS \<equiv> 0x80000"
abbreviation (input) I2Cv2_ADDRCFG_SONA :: u32 where "I2Cv2_ADDRCFG_SONA \<equiv> 0x100000"
abbreviation (input) I2Cv2_ADDRCFG_SOPE :: u32 where "I2Cv2_ADDRCFG_SOPE \<equiv> 0x200000"
abbreviation (input) I2Cv2_BUSSTAT :: u32 where "I2Cv2_BUSSTAT \<equiv> 0xF7600024"
abbreviation (input) I2Cv2_BUSSTAT_BS :: u32 where "I2Cv2_BUSSTAT_BS \<equiv> 0x3"
abbreviation (input) I2Cv2_BUSSTAT_BS_FREE :: u32 where "I2Cv2_BUSSTAT_BS_FREE \<equiv> 0x0"
abbreviation (input) I2Cv2_FIFOCFG :: u32 where "I2Cv2_FIFOCFG \<equiv> 0xF7600028"
abbreviation (input) I2Cv2_FIFOCFG_RXBS_1_WORD :: u32 where "I2Cv2_FIFOCFG_RXBS_1_WORD \<equiv> 0x0"
abbreviation (input) I2Cv2_FIFOCFG_TXBS_1_WORD :: u32 where "I2Cv2_FIFOCFG_TXBS_1_WORD \<equiv> 0x0"
abbreviation (input) I2Cv2_FIFOCFG_RXFA_1 :: u32 where "I2Cv2_FIFOCFG_RXFA_1 \<equiv> 0x0"
abbreviation (input) I2Cv2_FIFOCFG_RXFC :: u32 where "I2Cv2_FIFOCFG_RXFC \<equiv> 0x10000"
abbreviation (input) I2Cv2_FIFOCFG_TXFC :: u32 where "I2Cv2_FIFOCFG_TXFC \<equiv> 0x20000"
abbreviation (input) I2Cv2_MRPSCTRL :: u32 where "I2Cv2_MRPSCTRL \<equiv> 0xF760002C"
abbreviation (input) I2Cv2_RPSSTAT :: u32 where "I2Cv2_RPSSTAT \<equiv> 0xF7600030"
abbreviation (input) I2Cv2_RPSSTAT_RPS :: u32 where "I2Cv2_RPSSTAT_RPS \<equiv> 0x3FFF"
abbreviation (input) I2Cv2_TPSCTRL :: u32 where "I2Cv2_TPSCTRL \<equiv> 0xF7600034"
abbreviation (input) I2Cv2_FFSSTAT :: u32 where "I2Cv2_FFSSTAT \<equiv> 0xF7600038"
abbreviation (input) I2Cv2_FFSSTAT_FFS :: u32 where "I2Cv2_FFSSTAT_FFS \<equiv> 0x3F"
abbreviation (input) I2Cv2_ERRIRQSS :: u32 where "I2Cv2_ERRIRQSS \<equiv> 0xF7600064"
abbreviation (input) I2Cv2_ERRIRQSC :: u32 where "I2Cv2_ERRIRQSC \<equiv> 0xF7600068"
abbreviation (input) I2Cv2_PIRQSS :: u32 where "I2Cv2_PIRQSS \<equiv> 0xF7600074"
abbreviation (input) I2Cv2_PIRQSS_NACK :: u32 where "I2Cv2_PIRQSS_NACK \<equiv> 0x10"
abbreviation (input) I2Cv2_PIRQSS_TX_END :: u32 where "I2Cv2_PIRQSS_TX_END \<equiv> 0x20"
abbreviation (input) I2Cv2_PIRQSS_RX :: u32 where "I2Cv2_PIRQSS_RX \<equiv> 0x40"
abbreviation (input) I2Cv2_PIRQSC :: u32 where "I2Cv2_PIRQSC \<equiv> 0xF7600078"
abbreviation (input) I2Cv2_RIS :: u32 where "I2Cv2_RIS \<equiv> 0xF7600080"
abbreviation (input) I2Cv2_RIS_LSREQ_INT :: u32 where "I2Cv2_RIS_LSREQ_INT \<equiv> 0x1"
abbreviation (input) I2Cv2_RIS_SREQ_INT :: u32 where "I2Cv2_RIS_SREQ_INT \<equiv> 0x2"
abbreviation (input) I2Cv2_RIS_LBREQ_INT :: u32 where "I2Cv2_RIS_LBREQ_INT \<equiv> 0x4"
abbreviation (input) I2Cv2_RIS_BREQ_INT :: u32 where "I2Cv2_RIS_BREQ_INT \<equiv> 0x8"
abbreviation (input) I2Cv2_IMSC :: u32 where "I2Cv2_IMSC \<equiv> 0xF7600084"
abbreviation (input) I2Cv2_ICR :: u32 where "I2Cv2_ICR \<equiv> 0xF760008C"
abbreviation (input) I2Cv2_TXD :: u32 where "I2Cv2_TXD \<equiv> 0xF7608000"
abbreviation (input) I2Cv2_RXD :: u32 where "I2Cv2_RXD \<equiv> 0xF760C000"

end
