(* ===== verification/Bus.thy ===== *)
theory Bus
  imports Regs
begin

text \<open>
  The machine the firmware runs on: the hardware behind the memory bus, which is a parameter,
  the log of the volatile accesses, the processor status register and the RAM. The
  environment record carries the hardware's behaviour and the build configuration
  (\<^verbatim>\<open>src/lib/pmb887x.h\<close>, the board headers).
\<close>

section \<open>The environment\<close>

datatype cpu_model = PMB8875 | PMB8876

datatype pmic_model = PMIC_PMB6812 | PMIC_D1094XX | PMIC_none

datatype width = W8 | W16 | W32

text \<open>
  \<open>dev_read\<close> and \<open>dev_write\<close> are the hardware: a read may change its state (a FIFO pops, a
  timer advances), and \<open>'h\<close> is whatever state it has. \<open>fuel\<close> bounds the rounds of the loops
  that only the hardware can end. The other fields are the preprocessor symbols the sources
  test: the CPU, \<^verbatim>\<open>GPIO_PM_WADOG\<close> (present on boards whose PMIC holds the watchdog) and the PMIC.
\<close>

record 'h env =
  dev_read :: "width \<Rightarrow> u32 \<Rightarrow> 'h \<Rightarrow> u32 \<times> 'h"
  dev_write :: "width \<Rightarrow> u32 \<Rightarrow> u32 \<Rightarrow> 'h \<Rightarrow> 'h"
  fuel :: nat
  cpu :: cpu_model
  pm_wadog :: bool
  pmic :: pmic_model

text \<open>On every board that defines it, the watchdog pin is \<^verbatim>\<open>GPIO_DSPOUT1\<close>.\<close>

abbreviation (input) GPIO_PM_WADOG :: u32 where "GPIO_PM_WADOG \<equiv> 62"
abbreviation (input) CPU_OSC_FREQ :: u32 where "CPU_OSC_FREQ \<equiv> 26000000"
abbreviation (input) CPU_CLK32K_FREQ :: u32 where "CPU_CLK32K_FREQ \<equiv> 32768"

section \<open>The machine and its volatile accesses\<close>

text \<open>
  \<open>Msr v\<close> is a write of the control byte of the status register, \<open>Mrc crn crm op2 v\<close> and
  \<open>Mcr crn crm op2 v\<close> are a read and a write of coprocessor 15 (caches, tightly coupled memory, faults).
\<close>

datatype access = Rd width u32 u32 | Wr width u32 u32 | Msr u32 | Mrc nat nat nat u32 | Mcr nat nat nat u32

record 'h machine =
  hw :: 'h
  trace :: "access list"
  cpsr :: u32
  ram :: "u32 \<Rightarrow> u8"

definition trunc :: "width \<Rightarrow> u32 \<Rightarrow> u32" where
  "trunc w v = (case w of W8 \<Rightarrow> v AND 0xFF | W16 \<Rightarrow> v AND 0xFFFF | W32 \<Rightarrow> v)"

definition mmio_read :: "width \<Rightarrow> 'h env \<Rightarrow> u32 \<Rightarrow> (('h, 'z) machine_scheme, u32) cmd" where
  "mmio_read w E a s =
     (let (v, h) = dev_read E w a (hw s)
      in Inr (trunc w v, s\<lparr>hw := h, trace := trace s @ [Rd w a (trunc w v)]\<rparr>))"

definition mmio_write :: "width \<Rightarrow> 'h env \<Rightarrow> u32 \<Rightarrow> u32 \<Rightarrow> (('h, 'z) machine_scheme, unit) cmd" where
  "mmio_write w E a v s =
     Inr ((), s\<lparr>hw := dev_write E w a (trunc w v) (hw s), trace := trace s @ [Wr w a (trunc w v)]\<rparr>)"

abbreviation rd :: "'h env \<Rightarrow> u32 \<Rightarrow> (('h, 'z) machine_scheme, u32) cmd" where
  "rd \<equiv> mmio_read W32"

abbreviation wr :: "'h env \<Rightarrow> u32 \<Rightarrow> u32 \<Rightarrow> (('h, 'z) machine_scheme, unit) cmd" where
  "wr \<equiv> mmio_write W32"

text \<open>Read-modify-write (\<^verbatim>\<open>REG |= v\<close>, \<^verbatim>\<open>REG &= v\<close>): one volatile read, then one volatile write.\<close>

definition rmw :: "'h env \<Rightarrow> u32 \<Rightarrow> (u32 \<Rightarrow> u32) \<Rightarrow> (('h, 'z) machine_scheme, unit) cmd" where
  "rmw E a f = bindM (rd E a) (\<lambda>v. wr E a (f v))"

text \<open>The system control coprocessor is hardware as well, and a parameter.\<close>

record 'h cp15 =
  cp15_read :: "nat \<Rightarrow> nat \<Rightarrow> nat \<Rightarrow> 'h \<Rightarrow> u32 \<times> 'h"
  cp15_write :: "nat \<Rightarrow> nat \<Rightarrow> nat \<Rightarrow> u32 \<Rightarrow> 'h \<Rightarrow> 'h"

definition mrc :: "'h cp15 \<Rightarrow> nat \<Rightarrow> nat \<Rightarrow> nat \<Rightarrow> (('h, 'z) machine_scheme, u32) cmd" where
  "mrc C crn crm op2 s =
     (let (v, h) = cp15_read C crn crm op2 (hw s) in Inr (v, s\<lparr>hw := h, trace := trace s @ [Mrc crn crm op2 v]\<rparr>))"

definition mcr :: "'h cp15 \<Rightarrow> nat \<Rightarrow> nat \<Rightarrow> nat \<Rightarrow> u32 \<Rightarrow> (('h, 'z) machine_scheme, unit) cmd" where
  "mcr C crn crm op2 v s =
     Inr ((), s\<lparr>hw := cp15_write C crn crm op2 v (hw s), trace := trace s @ [Mcr crn crm op2 v]\<rparr>)"

lemma wp_mrc [wp]:
  "wpM (mrc C crn crm op2) Q = (\<lambda>s. let (v, h) = cp15_read C crn crm op2 (hw s)
     in Q v (s\<lparr>hw := h, trace := trace s @ [Mrc crn crm op2 v]\<rparr>))"
  "wlpM (mrc C crn crm op2) Q = (\<lambda>s. let (v, h) = cp15_read C crn crm op2 (hw s)
     in Q v (s\<lparr>hw := h, trace := trace s @ [Mrc crn crm op2 v]\<rparr>))"
  by (simp_all add: wpM_def wlpM_def mrc_def fun_eq_iff split: prod.splits)

lemma wp_mcr [wp]:
  "wpM (mcr C crn crm op2 v) Q = (\<lambda>s. Q () (s\<lparr>hw := cp15_write C crn crm op2 v (hw s),
     trace := trace s @ [Mcr crn crm op2 v]\<rparr>))"
  "wlpM (mcr C crn crm op2 v) Q = (\<lambda>s. Q () (s\<lparr>hw := cp15_write C crn crm op2 v (hw s),
     trace := trace s @ [Mcr crn crm op2 v]\<rparr>))"
  by (simp_all add: wpM_def wlpM_def mcr_def fun_eq_iff)

lemma trunc_W32 [simp]: "trunc W32 v = v"
  by (simp add: trunc_def)

lemma trunc_trunc [simp]: "trunc w (trunc w v) = trunc w v"
  by (simp add: trunc_def and.assoc split: width.splits)

lemma wp_read [wp]:
  "wpM (mmio_read w E a) Q = (\<lambda>s. let (v, h) = dev_read E w a (hw s)
     in Q (trunc w v) (s\<lparr>hw := h, trace := trace s @ [Rd w a (trunc w v)]\<rparr>))"
  "wlpM (mmio_read w E a) Q = (\<lambda>s. let (v, h) = dev_read E w a (hw s)
     in Q (trunc w v) (s\<lparr>hw := h, trace := trace s @ [Rd w a (trunc w v)]\<rparr>))"
  by (simp_all add: wpM_def wlpM_def mmio_read_def fun_eq_iff split: prod.splits)

lemma wp_write [wp]:
  "wpM (mmio_write w E a v) Q = (\<lambda>s. Q () (s\<lparr>hw := dev_write E w a (trunc w v) (hw s),
     trace := trace s @ [Wr w a (trunc w v)]\<rparr>))"
  "wlpM (mmio_write w E a v) Q = (\<lambda>s. Q () (s\<lparr>hw := dev_write E w a (trunc w v) (hw s),
     trace := trace s @ [Wr w a (trunc w v)]\<rparr>))"
  by (simp_all add: wpM_def wlpM_def mmio_write_def fun_eq_iff)

text \<open>
  For an arbitrary device the value read is arbitrary. These rules forget what the device
  does and keep what every device allows: some value, some new hardware state.
\<close>

lemma wp_readI:
  "(\<And>v h. Q v (s\<lparr>hw := h, trace := trace s @ [Rd w a v]\<rparr>)) \<Longrightarrow> wpM (mmio_read w E a) Q s"
  by (simp add: wp split: prod.splits)

lemma wp_writeI:
  "(\<And>h. Q () (s\<lparr>hw := h, trace := trace s @ [Wr w a (trunc w v)]\<rparr>)) \<Longrightarrow> wpM (mmio_write w E a v) Q s"
  by (simp add: wp)

declare mrc_def [cmd_eval] mcr_def [cmd_eval] mmio_read_def [cmd_eval] mmio_write_def [cmd_eval] rmw_def [cmd_eval]

section \<open>What a trace shows\<close>

text \<open>The values written to a register, and the accesses to a set of registers, in order.\<close>

fun written :: "u32 \<Rightarrow> access list \<Rightarrow> u32 list" where
  "written a [] = []"
| "written a (Wr w b v # xs) = (if b = a then v # written a xs else written a xs)"
| "written a (_ # xs) = written a xs"

fun read_from :: "u32 \<Rightarrow> access list \<Rightarrow> u32 list" where
  "read_from a [] = []"
| "read_from a (Rd w b v # xs) = (if b = a then v # read_from a xs else read_from a xs)"
| "read_from a (_ # xs) = read_from a xs"

lemma written_append [simp]: "written a (xs @ ys) = written a xs @ written a ys"
  by (induction a xs rule: written.induct) auto

lemma read_from_append [simp]: "read_from a (xs @ ys) = read_from a xs @ read_from a ys"
  by (induction a xs rule: read_from.induct) auto

fun writes :: "access list \<Rightarrow> (u32 \<times> u32) list" where
  "writes [] = []"
| "writes (Wr w a v # xs) = (a, v) # writes xs"
| "writes (_ # xs) = writes xs"

lemma writes_append [simp]: "writes (xs @ ys) = writes xs @ writes ys"
  by (induction xs rule: writes.induct) auto

lemma written_writes: "written a xs = map snd (filter (\<lambda>p. fst p = a) (writes xs))"
  by (induction xs rule: writes.induct) auto

section \<open>Commands that change nothing but the hardware\<close>

text \<open>\<open>io_only s t\<close>: apart from the hardware and the log of its accesses the states agree.\<close>

definition io_only :: "('h, 'z) machine_scheme \<Rightarrow> ('h, 'z) machine_scheme \<Rightarrow> bool" where
  "io_only s t \<longleftrightarrow> t = s\<lparr>hw := hw t, trace := trace t\<rparr>"

lemma io_only_refl [simp]: "io_only s s"
  by (simp add: io_only_def)

lemma io_only_trans: "io_only s t \<Longrightarrow> io_only t u \<Longrightarrow> io_only s u"
  unfolding io_only_def by (cases s; cases t; cases u) simp

lemma io_only_upd [simp]:
  "io_only s (t\<lparr>hw := h\<rparr>) = io_only s t" "io_only s (t\<lparr>trace := tr\<rparr>) = io_only s t"
  unfolding io_only_def by (cases s; cases t; simp)+

lemma io_only_ram: "io_only s t \<Longrightarrow> ram t = ram s"
  unfolding io_only_def by (drule arg_cong [of _ _ ram]) simp

lemma io_only_cpsr: "io_only s t \<Longrightarrow> cpsr t = cpsr s"
  unfolding io_only_def by (drule arg_cong [of _ _ cpsr]) simp

section \<open>Commands that only observe\<close>

text \<open>
  \<open>observes s t\<close>: between the two states the hardware was read but never written, and nothing
  else of the machine changed. A \<open>reader\<close> always returns and only observes.
\<close>

definition observes :: "('h, 'z) machine_scheme \<Rightarrow> ('h, 'z) machine_scheme \<Rightarrow> bool" where
  "observes s t \<longleftrightarrow> (\<exists>h tr. t = s\<lparr>hw := h, trace := trace s @ tr\<rparr> \<and> writes tr = [])"

definition reader :: "(('h, 'z) machine_scheme, 'a) cmd \<Rightarrow> bool" where
  "reader c \<longleftrightarrow> (\<forall>s. wpM c (\<lambda>_. observes s) s)"

named_theorems readers \<open>commands that are readers\<close>

lemma observes_refl [simp]: "observes s s"
proof -
  have "s = s\<lparr>hw := hw s, trace := trace s @ []\<rparr>" by simp
  then show ?thesis unfolding observes_def by (metis writes.simps(1))
qed

lemma observes_trans: "observes s t \<Longrightarrow> observes t u \<Longrightarrow> observes s u"
  by (force simp: observes_def)

lemma observes_io_only: "observes s t \<Longrightarrow> io_only s t"
  by (auto simp: observes_def)

lemma reader_ret [readers, simp]: "reader (retM x)"
  by (simp add: reader_def)

lemma reader_read [readers, simp]: "reader (mmio_read w E a)"
  by (fastforce simp: reader_def observes_def wp split: prod.splits)

lemma reader_bind [readers]: "reader c \<Longrightarrow> (\<And>x. reader (f x)) \<Longrightarrow> reader (bindM c f)"
  unfolding reader_def
proof (intro allI)
  fix s assume c: "\<forall>s. wpM c (\<lambda>_. observes s) s" and f: "\<And>x. \<forall>s. wpM (f x) (\<lambda>_. observes s) s"
  have "wpM (f x) (\<lambda>_. observes s) t" if "observes s t" for x t
    using f [of x] that by (blast intro: wp_mono observes_trans)
  with c show "wpM (bindM c f) (\<lambda>_. observes s) s"
    by (auto simp: wp intro: wp_mono)
qed

lemma reader_if [readers]: "(b \<Longrightarrow> reader c) \<Longrightarrow> (\<not> b \<Longrightarrow> reader d) \<Longrightarrow> reader (if b then c else d)"
  by simp

lemma reader_liftE [readers]: "okE m (\<lambda>_. True) \<Longrightarrow> reader (liftE m)"
  by (auto simp: reader_def wp elim!: okE_mono)

lemma reader_map [readers]: "reader c \<Longrightarrow> reader (mapM f c)"
  unfolding mapM_def by (intro readers)

lemma readerD: "reader c \<Longrightarrow> \<exists>x t. c s = Inr (x, t) \<and> observes s t"
  unfolding reader_def by (blast dest: wpD)

section \<open>I/O specifications\<close>

text \<open>
  \<open>logs_in R c P\<close>: whatever the device does, if the command \<open>c\<close> returns \<open>x\<close>, then the state changed
  only as \<open>R\<close> allows, and the accesses \<open>tr\<close> that it made satisfy \<open>P x tr\<close>. The specifications
  compose: the accesses of two commands in a row are those of the first, then those of the second.
\<close>

definition logs_in ::
  "(('h, 'z) machine_scheme \<Rightarrow> ('h, 'z) machine_scheme \<Rightarrow> bool) \<Rightarrow> (('h, 'z) machine_scheme, 'a) cmd \<Rightarrow>
     ('a \<Rightarrow> access list \<Rightarrow> bool) \<Rightarrow> bool" where
  "logs_in R c P \<longleftrightarrow> (\<forall>s. wlpM c (\<lambda>x t. R s t \<and> (\<exists>tr. trace t = trace s @ tr \<and> P x tr)) s)"

abbreviation logs :: "(('h, 'z) machine_scheme, 'a) cmd \<Rightarrow> ('a \<Rightarrow> access list \<Rightarrow> bool) \<Rightarrow> bool" where
  "logs \<equiv> logs_in io_only"

lemma logs_inD: "logs_in R c P \<Longrightarrow> c s = Inr (x, t) \<Longrightarrow> R s t \<and> (\<exists>tr. trace t = trace s @ tr \<and> P x tr)"
  unfolding logs_in_def by (auto dest: wlpD)

lemma logs_in_wlp:
  "logs_in R c P \<Longrightarrow> (\<And>x t tr. R s t \<Longrightarrow> trace t = trace s @ tr \<Longrightarrow> P x tr \<Longrightarrow> Q x t) \<Longrightarrow> wlpM c Q s"
  unfolding logs_in_def by (blast intro: wlp_mono)

lemma logs_in_mono: "logs_in R c P \<Longrightarrow> (\<And>x tr. P x tr \<Longrightarrow> P' x tr) \<Longrightarrow> logs_in R c P'"
  unfolding logs_in_def by (blast intro: wlp_mono)

lemma logs_in_weaken: "logs_in R c P \<Longrightarrow> (\<And>s t. R s t \<Longrightarrow> R' s t) \<Longrightarrow> logs_in R' c P"
  unfolding logs_in_def by (blast intro: wlp_mono)

lemma logs_in_conj:
  assumes "logs_in R c P" "logs_in R c P'"
  shows "logs_in R c (\<lambda>x tr. P x tr \<and> P' x tr)"
  unfolding logs_in_def
proof
  fix s
  show "wlpM c (\<lambda>x t. R s t \<and> (\<exists>tr. trace t = trace s @ tr \<and> P x tr \<and> P' x tr)) s"
  proof (cases "c s")
    case (Inr xt)
    then show ?thesis
      using logs_inD [OF assms(1), of s] logs_inD [OF assms(2), of s] by (cases xt) (fastforce simp: wlpM_def)
  qed (simp add: wlpM_def)
qed

text \<open>
  A frame is a relation that a device access satisfies and that sequential composition keeps.
\<close>

locale frame =
  fixes R :: "('h, 'z) machine_scheme \<Rightarrow> ('h, 'z) machine_scheme \<Rightarrow> bool"
  assumes frame_refl: "R s s"
    and frame_trans: "R s t \<Longrightarrow> R t u \<Longrightarrow> R s u"
    and frame_io: "R s (s\<lparr>hw := h, trace := tr\<rparr>)"
begin

lemma in_ret: "P x [] \<Longrightarrow> logs_in R (retM x) P"
  unfolding logs_in_def wp by (auto simp: frame_refl)

lemma in_fail: "logs_in R (failM e) P"
  by (simp add: logs_in_def)

lemma in_liftE: "(\<And>x. m = Inr x \<Longrightarrow> P x []) \<Longrightarrow> logs_in R (liftE m) P"
  unfolding logs_in_def wp by (auto simp: frame_refl split: sum.splits)

lemma in_get: "(\<And>s. P (f s) []) \<Longrightarrow> logs_in R (getM f) P"
  unfolding logs_in_def wp by (auto simp: frame_refl)

lemma in_read: "(\<And>v. P v [Rd w a v]) \<Longrightarrow> logs_in R (mmio_read w E a) P"
  unfolding logs_in_def by (auto simp: wp frame_io split: prod.splits)

lemma in_write: "P () [Wr w a (trunc w v)] \<Longrightarrow> logs_in R (mmio_write w E a v) P"
  unfolding logs_in_def by (auto simp: wp frame_io)

lemma in_mrc: "(\<And>v. P v [Mrc crn crm op2 v]) \<Longrightarrow> logs_in R (mrc C crn crm op2) P"
  unfolding logs_in_def by (auto simp: wp frame_io split: prod.splits)

lemma in_mcr: "P () [Mcr crn crm op2 v] \<Longrightarrow> logs_in R (mcr C crn crm op2 v) P"
  unfolding logs_in_def by (auto simp: wp frame_io)

lemma in_bind:
  assumes "logs_in R c P" and "\<And>x t1. P x t1 \<Longrightarrow> logs_in R (f x) (\<lambda>y t2. Q y (t1 @ t2))"
  shows "logs_in R (bindM c f) Q"
  unfolding logs_in_def
proof
  fix s
  have "wlpM (f x) (\<lambda>y u. R s u \<and> (\<exists>tr. trace u = trace s @ tr \<and> Q y tr)) t"
    if "R s t" "trace t = trace s @ t1" "P x t1" for x t t1
    by (rule logs_in_wlp [OF assms(2) [OF that(3)]]) (auto simp: that(2) intro: frame_trans [OF that(1)])
  then show "wlpM (bindM c f) (\<lambda>x t. R s t \<and> (\<exists>tr. trace t = trace s @ tr \<and> Q x tr)) s"
    unfolding wp by (rule logs_in_wlp [OF assms(1)])
qed

lemma in_map: "logs_in R c (\<lambda>x. P (f x)) \<Longrightarrow> logs_in R (mapM f c) P"
  unfolding mapM_def by (erule in_bind) (simp add: in_ret)

lemma in_if: "(b \<Longrightarrow> logs_in R c P) \<Longrightarrow> (\<not> b \<Longrightarrow> logs_in R d P) \<Longrightarrow> logs_in R (if b then c else d) P"
  by simp

lemma in_when: "(b \<Longrightarrow> logs_in R c P) \<Longrightarrow> (\<not> b \<Longrightarrow> P () []) \<Longrightarrow> logs_in R (whenM b c) P"
  by (simp add: whenM_def in_ret)

text \<open>The accesses of the rounds of a loop satisfy a property \<open>K\<close> that appending keeps.\<close>

lemma in_while:
  assumes cond: "logs_in R cond (\<lambda>b tr. if b then K tr else X tr)" and body: "logs_in R body (\<lambda>_. K)"
    and K: "K []" "\<And>a b. K a \<Longrightarrow> K b \<Longrightarrow> K (a @ b)"
    and P: "\<And>a b. K a \<Longrightarrow> X b \<Longrightarrow> P () (a @ b)"
  shows "logs_in R (whileM n cond body) P"
proof -
  have "logs_in R (whileM n cond body) (\<lambda>_ tr. P () (pre @ tr))" if "K pre" for pre
    using that
  proof (induction n arbitrary: pre)
    case 0
    then show ?case by (simp add: in_fail)
  next
    case (Suc n)
    have "logs_in R (bindM body (\<lambda>_. whileM n cond body)) (\<lambda>_ t2. P () (pre @ t1 @ t2))" if "K t1" for t1
    proof (rule in_bind [OF body])
      fix t assume "K t"
      then have "K (pre @ t1 @ t)" using Suc.prems \<open>K t1\<close> K(2) by blast
      from Suc.IH [OF this] show "logs_in R (whileM n cond body) (\<lambda>_ t2. P () (pre @ t1 @ t @ t2))" by simp
    qed
    then show ?case
      using Suc.prems P by (auto intro!: in_bind [OF cond] in_ret split: if_splits)
  qed
  from this [OF K(1)] show ?thesis by simp
qed

lemma in_seq_Nil: "P () [] \<Longrightarrow> logs_in R (seqM []) P"
  by (simp add: in_ret)

lemma in_seq_Cons:
  "logs_in R c Q \<Longrightarrow> (\<And>t1. Q () t1 \<Longrightarrow> logs_in R (seqM cs) (\<lambda>y t2. P y (t1 @ t2))) \<Longrightarrow> logs_in R (seqM (c # cs)) P"
  unfolding seqM.simps by (erule in_bind) simp

lemma in_seq_write:
  "logs_in R (seqM cs) (\<lambda>y t2. P y (Wr w a (trunc w v) # t2)) \<Longrightarrow> logs_in R (seqM (mmio_write w E a v # cs)) P"
  by (rule in_seq_Cons [where Q = "\<lambda>_ tr. tr = [Wr w a (trunc w v)]"]) (auto intro: in_write)

lemma in_bind_read:
  "(\<And>v. logs_in R (f v) (\<lambda>y t2. P y (Rd w a v # t2))) \<Longrightarrow> logs_in R (bindM (mmio_read w E a) f) P"
  by (rule in_bind [where P = "\<lambda>v tr. tr = [Rd w a v]"]) (auto intro: in_read)

lemma in_forM_write:
  "P () (map (\<lambda>x. Wr w (a x) (trunc w (f x))) xs) \<Longrightarrow> logs_in R (forM xs (\<lambda>x. mmio_write w E (a x) (f x))) P"
proof (induction xs arbitrary: P)
  case Nil
  then show ?case by (simp add: in_ret)
next
  case (Cons x xs)
  show ?case
    by (simp, rule in_bind [where P = "\<lambda>_ tr. tr = [Wr w (a x) (trunc w (f x))]"])
       (auto intro!: in_write Cons.IH simp: Cons.prems [simplified])
qed

lemma in_logs: "logs_in io_only c P \<Longrightarrow> logs_in R c P"
proof (erule logs_in_weaken)
  fix s t :: "('h, 'z) machine_scheme"
  assume "io_only s t"
  then show "R s t" unfolding io_only_def by (metis frame_io)
qed

lemma in_reader: "reader c \<Longrightarrow> logs_in R c (\<lambda>_ tr. writes tr = [])"
proof (rule in_logs)
  assume r: "reader c"
  show "logs c (\<lambda>_ tr. writes tr = [])"
    unfolding logs_in_def
  proof
    fix s
    from readerD [OF r, of s] show "wlpM c (\<lambda>x t. io_only s t \<and> (\<exists>tr. trace t = trace s @ tr \<and> writes tr = [])) s"
      unfolding wlpM_def observes_def by fastforce
  qed
qed

end

interpretation io: frame io_only
  by unfold_locales (auto intro: io_only_trans)

text \<open>The frame that allows every change of the state: only the accesses matter.\<close>

definition any_change :: "('h, 'z) machine_scheme \<Rightarrow> ('h, 'z) machine_scheme \<Rightarrow> bool" where
  "any_change s t = True"

abbreviation talks :: "(('h, 'z) machine_scheme, 'a) cmd \<Rightarrow> ('a \<Rightarrow> access list \<Rightarrow> bool) \<Rightarrow> bool" where
  "talks \<equiv> logs_in any_change"

interpretation any: frame any_change
  by unfold_locales (simp_all add: any_change_def)

lemma talks_mod: "(\<And>s. trace (f s) = trace s) \<Longrightarrow> P () [] \<Longrightarrow> talks (modM f) P"
  by (simp add: logs_in_def any_change_def wp)

lemma talks_then: "talks c P \<Longrightarrow> (\<And>x. talks (f x) (\<lambda>r _. Q r)) \<Longrightarrow> talks (bindM c f) (\<lambda>r _. Q r)"
  by (rule any.in_bind)

lemma logsD:
  "logs c P \<Longrightarrow> c s = Inr (x, t) \<Longrightarrow> \<exists>h tr. t = s\<lparr>hw := h, trace := trace s @ tr\<rparr> \<and> P x tr"
  by (drule logs_inD, assumption) (metis io_only_def)

lemma logs_wlp: "logs c P \<Longrightarrow> (\<And>x h tr. P x tr \<Longrightarrow> Q x (s\<lparr>hw := h, trace := trace s @ tr\<rparr>)) \<Longrightarrow> wlpM c Q s"
  by (erule logs_in_wlp) (metis io_only_def)

lemmas logs_mono = logs_in_mono
lemmas logs_ret = io.in_ret and logs_fail = io.in_fail and logs_read = io.in_read and logs_write = io.in_write
  and logs_bind = io.in_bind and logs_map = io.in_map and logs_if = io.in_if and logs_while = io.in_while
  and logs_forM_write = io.in_forM_write

section \<open>Devices with stable registers\<close>

text \<open>
  A register is stable in a hardware state when reading it returns a fixed value and leaves
  the hardware as it was: the configuration registers of the clock unit are documented so.
\<close>

definition stable :: "'h env \<Rightarrow> 'h \<Rightarrow> u32 \<Rightarrow> u32 \<Rightarrow> bool" where
  "stable E h a v \<longleftrightarrow> dev_read E W32 a h = (v, h)"

text \<open>
  \<open>yields h c x\<close>: in every machine whose hardware is in state \<open>h\<close>, the command returns \<open>x\<close> and
  leaves the hardware as it was.
\<close>

definition yields :: "'h \<Rightarrow> (('h, 'z) machine_scheme, 'a) cmd \<Rightarrow> 'a \<Rightarrow> bool" where
  "yields h c x \<longleftrightarrow> (\<forall>s. hw s = h \<longrightarrow> (\<exists>t. c s = Inr (x, t) \<and> hw t = h))"

lemma yieldsI: "(\<And>s. hw s = h \<Longrightarrow> wpM c (\<lambda>y t. y = x \<and> hw t = h) s) \<Longrightarrow> yields h c x"
  unfolding yields_def by (blast dest: wpD)

lemma yields_wp: "yields h c x \<Longrightarrow> hw s = h \<Longrightarrow> (\<And>t. hw t = h \<Longrightarrow> Q x t) \<Longrightarrow> wpM c Q s"
  by (fastforce simp: yields_def wpM_def)

text \<open>A stable register as an equation that runs the reads of it.\<close>

lemma stableD: "stable E h a v \<Longrightarrow> dev_read E W32 a h = (v, h)"
  by (simp add: stable_def)

section \<open>Bit fields\<close>

text \<open>\<^verbatim>\<open>GENMASK\<close> of \<^verbatim>\<open>src/lib/bitops.h\<close>, on 32-bit longs.\<close>

definition GENMASK :: "nat \<Rightarrow> nat \<Rightarrow> u32" where
  "GENMASK h l = ((NOT 0 - push_bit l 1) + 1) AND drop_bit (32 - 1 - h) (NOT 0)"

text \<open>Bits \<open>n .. n + w - 1\<close> of a register as a natural number.\<close>

definition bits_at :: "u32 \<Rightarrow> nat \<Rightarrow> nat \<Rightarrow> nat" where
  "bits_at v n w = unat v div 2 ^ n mod 2 ^ w"

lemma unat_field: "drop_bit n m = mask w \<Longrightarrow> unat (drop_bit n (v AND m)) = bits_at v n w"
proof -
  assume "drop_bit n m = mask w"
  then have "drop_bit n (v AND m) = take_bit w (drop_bit n v)" by (simp only: drop_bit_and take_bit_eq_mask)
  moreover have "unat (take_bit w x) = take_bit w (unat x)" for x :: u32
    by (rule unsigned_take_bit_eq)
  ultimately show ?thesis
    by (simp only: unat_drop_bit_eq bits_at_def) (simp only: drop_bit_eq_div take_bit_eq_mod)
qed

lemma flag_set: "v AND push_bit n 1 = 0 \<longleftrightarrow> \<not> bit (v :: u32) n"
  by (simp add: bit_iff_and_push_bit_not_eq_0)

definition BIT :: "nat \<Rightarrow> u32" where
  "BIT n = push_bit n 1"

end
