(* ===== verification/Cpu_Clock.thy ===== *)
theory Cpu_Clock
  imports Bus
begin

text \<open>
  The clock tree as \<^verbatim>\<open>src/lib/cpu.c\<close> computes it from the registers of the clock generation
  unit. Every mention of a register in the source is a volatile read here, in the order of the
  source (operands from left to right).
\<close>

section \<open>Definitions\<close>

definition field :: "'h env \<Rightarrow> u32 \<Rightarrow> u32 \<Rightarrow> nat \<Rightarrow> (('h, 'z) machine_scheme, u32) cmd" where
  "field E reg fmask shift = mapM (\<lambda>v. drop_bit shift (v AND fmask)) (rd E reg)"

definition flag_clear :: "'h env \<Rightarrow> u32 \<Rightarrow> u32 \<Rightarrow> (('h, 'z) machine_scheme, bool) cmd" where
  "flag_clear E reg flag = mapM (\<lambda>v. v AND flag = 0) (rd E reg)"

definition phase_freq :: "u32 \<Rightarrow> u32 \<Rightarrow> u32 \<Rightarrow> fault + u32" where
  "phase_freq pll_freq k1 k2 =
     (if pll_freq = 0 \<or> k1 = 0 \<or> k2 > 5 then Inr 0
      else let divider = k1 * 6 + k2
           in bindE (divE pll_freq divider) (\<lambda>q.
              bindE (divE ((pll_freq mod divider) * 12) divider) (\<lambda>r. Inr (q * 12 + r))))"

definition get_pll_core_freq :: "'h env \<Rightarrow> (('h, 'z) machine_scheme, u32) cmd" where
  "get_pll_core_freq E =
     bindM (flag_clear E CGU_OSC CGU_OSC_PLL_POWER_UP) (\<lambda>off.
     if off then retM 0 else
     bindM (flag_clear E CGU_STAT CGU_STAT_LOCK) (\<lambda>unlocked.
     if unlocked then retM 0 else
     bindM (field E CGU_OSC CGU_OSC_NDIV CGU_OSC_NDIV_SHIFT) (\<lambda>ndiv.
     bindM (field E CGU_OSC CGU_OSC_MDIV CGU_OSC_MDIV_SHIFT) (\<lambda>mdiv.
     liftE (divE (CPU_OSC_FREQ * (ndiv + 1)) (mdiv + 1))))))"

definition cpu_get_pll_freq :: "'h env \<Rightarrow> (('h, 'z) machine_scheme, u32) cmd" where
  "cpu_get_pll_freq E =
     bindM (flag_clear E CGU_OSC CGU_OSC_PLL_BYPASS_N) (\<lambda>bypass.
     if bypass then retM CPU_OSC_FREQ else get_pll_core_freq E)"

text \<open>The part of \<^verbatim>\<open>cpu_get_phase_freq\<close> after its switch.\<close>

definition phase_output :: "'h env \<Rightarrow> u32 \<Rightarrow> u32 \<Rightarrow> u32 \<Rightarrow> u32 \<Rightarrow> (('h, 'z) machine_scheme, u32) cmd" where
  "phase_output E power_up bypass_n k1 k2 =
     bindM (flag_clear E CGU_OSC bypass_n) (\<lambda>bypass.
     if bypass then cpu_get_pll_freq E else
     bindM (flag_clear E CGU_OSC power_up) (\<lambda>off.
     if off then retM 0 else
     bindM (get_pll_core_freq E) (\<lambda>core. liftE (phase_freq core k1 k2))))"

definition cpu_get_phase_freq :: "'h env \<Rightarrow> u32 \<Rightarrow> (('h, 'z) machine_scheme, u32) cmd" where
  "cpu_get_phase_freq E phase =
     (if phase = 1 then
        bindM (field E CGU_CON0 CGU_CON0_PHASE1_K1 CGU_CON0_PHASE1_K1_SHIFT) (\<lambda>k1.
        bindM (field E CGU_CON0 CGU_CON0_PHASE1_K2 CGU_CON0_PHASE1_K2_SHIFT) (\<lambda>k2.
        phase_output E CGU_OSC_PHASE1_POWER_UP CGU_OSC_PHASE1_BYPASS_N k1 k2))
      else if phase = 2 then
        bindM (field E CGU_CON0 CGU_CON0_PHASE2_K1 CGU_CON0_PHASE2_K1_SHIFT) (\<lambda>k1.
        bindM (field E CGU_CON0 CGU_CON0_PHASE2_K2 CGU_CON0_PHASE2_K2_SHIFT) (\<lambda>k2.
        phase_output E CGU_OSC_PHASE2_POWER_UP CGU_OSC_PHASE2_BYPASS_N k1 k2))
      else if phase = 3 then
        bindM (field E CGU_CON0 CGU_CON0_PHASE3_K1 CGU_CON0_PHASE3_K1_SHIFT) (\<lambda>k1.
        bindM (field E CGU_CON0 CGU_CON0_PHASE3_K2 CGU_CON0_PHASE3_K2_SHIFT) (\<lambda>k2.
        phase_output E CGU_OSC_PHASE3_POWER_UP CGU_OSC_PHASE3_BYPASS_N k1 k2))
      else if phase = 4 then
        bindM (field E CGU_CON0 CGU_CON0_PHASE4_K1 CGU_CON0_PHASE4_K1_SHIFT) (\<lambda>k1.
        bindM (field E CGU_CON0 CGU_CON0_PHASE4_K2 CGU_CON0_PHASE4_K2_SHIFT) (\<lambda>k2.
        phase_output E CGU_OSC_PHASE4_POWER_UP CGU_OSC_PHASE4_BYPASS_N k1 k2))
      else retM 0)"

definition cpu_get_sys_freq :: "'h env \<Rightarrow> (('h, 'z) machine_scheme, u32) cmd" where
  "cpu_get_sys_freq E =
     bindM (rd E CGU_CON1) (\<lambda>con1. let sel = con1 AND CGU_CON1_FSYS_CLKSEL in
     if sel = CGU_CON1_FSYS_CLKSEL_BYPASS then retM CPU_OSC_FREQ
     else if sel = CGU_CON1_FSYS_CLKSEL_PLL then mapM (\<lambda>f. f div 2) (cpu_get_pll_freq E)
     else retM 0)"

definition cpu_get_fpi2_freq :: "'h env \<Rightarrow> (('h, 'z) machine_scheme, u32) cmd" where
  "cpu_get_fpi2_freq E =
     bindM (rd E CGU_CON1) (\<lambda>con1.
     if con1 AND CGU_CON1_FPI2_CLKSEL = CGU_CON1_FPI2_CLKSEL_PLL then
       bindM (field E CGU_CON1 CGU_CON1_FPI2_CLKDIV CGU_CON1_FPI2_CLKDIV_SHIFT) (\<lambda>divider.
       mapM (drop_bit (unat (divider + 1))) (cpu_get_pll_freq E))
     else
       bindM (flag_clear E CGU_CON1 CGU_CON1_FPI2_OSC_DISABLE) (\<lambda>on.
       retM (if \<not> on then 0 else CPU_OSC_FREQ)))"

definition cpu_get_stm_freq :: "'h env \<Rightarrow> (('h, 'z) machine_scheme, u32) cmd" where
  "cpu_get_stm_freq E =
     bindM (field E STM_CLC MOD_CLC_RMC MOD_CLC_RMC_SHIFT) (\<lambda>divider.
     if divider = 0 then retM 0 else
     bindM (rd E CGU_CON1) (\<lambda>con1.
     bindM (if con1 AND CGU_CON1_FPI2_CLKSEL = CGU_CON1_FPI2_CLKSEL_PLL
            then mapM (\<lambda>x. divider + x) (field E STM_CLC STM_CLC_RMC2 STM_CLC_RMC2_SHIFT)
            else retM divider) (\<lambda>divider.
     bindM (cpu_get_fpi2_freq E) (\<lambda>f. liftE (divE f divider)))))"

definition cpu_get_ahb_freq :: "'h env \<Rightarrow> (('h, 'z) machine_scheme, u32) cmd" where
  "cpu_get_ahb_freq E =
     bindM (rd E CGU_CON1) (\<lambda>con1. let sel = con1 AND CGU_CON1_AHB_CLKSEL in
     if sel = CGU_CON1_AHB_CLKSEL_BYPASS then retM CPU_OSC_FREQ
     else if sel = CGU_CON1_AHB_CLKSEL_PLL then cpu_get_pll_freq E
     else if sel = CGU_CON1_AHB_CLKSEL_PHASE1 then cpu_get_phase_freq E 1
     else if sel = CGU_CON1_AHB_CLKSEL_PHASE2 then cpu_get_phase_freq E 2
     else if sel = CGU_CON1_AHB_CLKSEL_PHASE3 then cpu_get_phase_freq E 3
     else if sel = CGU_CON1_AHB_CLKSEL_PHASE4 then cpu_get_phase_freq E 4
     else retM 0)"

definition cpu_get_freq :: "'h env \<Rightarrow> (('h, 'z) machine_scheme, u32) cmd" where
  "cpu_get_freq E =
     bindM (cpu_get_ahb_freq E) (\<lambda>ahb_freq.
     bindM (flag_clear E CGU_CON2 CGU_CON2_CPU_DIV_EN) (\<lambda>undivided.
     if undivided then retM ahb_freq else
     bindM (field E CGU_CON2 CGU_CON2_CPU_DIV CGU_CON2_CPU_DIV_SHIFT) (\<lambda>d.
     liftE (divE ahb_freq (d + 1)))))"

definition cpu_get_ebu_freq :: "'h env \<Rightarrow> (('h, 'z) machine_scheme, u32) cmd" where
  "cpu_get_ebu_freq E =
     bindM (rd E CGU_CON2) (\<lambda>con2. let sel = con2 AND CGU_CON2_EBU_CLKSEL in
     if sel = CGU_CON2_EBU_CLKSEL_OSC then retM CPU_OSC_FREQ
     else if sel = CGU_CON2_EBU_CLKSEL_PLL then cpu_get_pll_freq E
     else if sel = CGU_CON2_EBU_CLKSEL_PHASE1 then cpu_get_phase_freq E 1
     else if sel = CGU_CON2_EBU_CLKSEL_PHASE2 then cpu_get_phase_freq E 2
     else if sel = CGU_CON2_EBU_CLKSEL_PHASE3 then cpu_get_phase_freq E 3
     else if sel = CGU_CON2_EBU_CLKSEL_PHASE4 then cpu_get_phase_freq E 4
     else if sel = CGU_CON2_EBU_CLKSEL_AHB then cpu_get_ahb_freq E
     else retM 0)"

definition cpu_get_dsp_freq :: "'h env \<Rightarrow> (('h, 'z) machine_scheme, u32) cmd" where
  "cpu_get_dsp_freq E =
     bindM (rd E CGU_CON2) (\<lambda>con2. let sel = con2 AND CGU_CON2_DSP_CLKSEL in
     if sel = CGU_CON2_DSP_CLKSEL_OSC then retM CPU_OSC_FREQ
     else if sel = CGU_CON2_DSP_CLKSEL_PHASE1 then cpu_get_phase_freq E 1
     else if sel = CGU_CON2_DSP_CLKSEL_PLL then cpu_get_pll_freq E
     else retM 0)"

definition cpu_get_fpi1_freq :: "'h env \<Rightarrow> (('h, 'z) machine_scheme, u32) cmd" where
  "cpu_get_fpi1_freq E =
     bindM (rd E CGU_CON1) (\<lambda>con1. let sel = con1 AND CGU_CON1_FPI1_CLKSEL in
     if sel = CGU_CON1_FPI1_CLKSEL_OSC then retM CPU_OSC_FREQ
     else if sel = CGU_CON1_FPI1_CLKSEL_CLK32K then retM CPU_CLK32K_FREQ
     else if sel = CGU_CON1_FPI1_CLKSEL_PLL_DIV_2 then
       bindM (field E CGU_CON1 CGU_CON1_FPI1_CLKDIV CGU_CON1_FPI1_CLKDIV_SHIFT) (\<lambda>divider.
       mapM (\<lambda>f. drop_bit (unat divider) (f div 2)) (cpu_get_pll_freq E))
     else retM 0)"

text \<open>The getters of clocks that the PMB8875 does not have return zero there.\<close>

definition cpu_get_ahb_per_freq :: "'h env \<Rightarrow> (('h, 'z) machine_scheme, u32) cmd" where
  "cpu_get_ahb_per_freq E =
     (if cpu E = PMB8875 then retM 0 else
     bindM (rd E CGU_CON3) (\<lambda>con3. let sel = con3 AND CGU_CON3_AHB_PER_CLKSEL in
     if sel = CGU_CON3_AHB_PER_CLKSEL_OSC then retM CPU_OSC_FREQ
     else if sel = CGU_CON3_AHB_PER_CLKSEL_CLK32K then retM CPU_CLK32K_FREQ
     else if sel = CGU_CON3_AHB_PER_CLKSEL_PLL_DIV_2 then
       bindM (cpu_get_pll_freq E) (\<lambda>f.
       bindM (field E CGU_CON3 CGU_CON3_AHB_PER_CLKDIV CGU_CON3_AHB_PER_CLKDIV_SHIFT) (\<lambda>divider.
       retM (drop_bit (unat divider) (f div 2))))
     else retM 0))"

definition cpu_get_clk48m_freq :: "'h env \<Rightarrow> (('h, 'z) machine_scheme, u32) cmd" where
  "cpu_get_clk48m_freq E =
     bindM (rd E CGU_CON2) (\<lambda>con2. let sel = con2 AND CGU_CON2_CLK48M_CLKSEL in
     if sel \<noteq> CGU_CON2_CLK48M_CLKSEL_OSC \<and> sel \<noteq> CGU_CON2_CLK48M_CLKSEL_PHASE4 then retM 0 else
     bindM (if sel = CGU_CON2_CLK48M_CLKSEL_OSC then retM CPU_OSC_FREQ else cpu_get_phase_freq E 4) (\<lambda>frequency.
     if cpu E = PMB8875 then retM frequency else
     bindM (field E CGU_CON3 CGU_CON3_CLK48M_CLKDIV CGU_CON3_CLK48M_CLKDIV_SHIFT) (\<lambda>divider.
     retM (drop_bit (unat divider) frequency))))"

definition cpu_get_mmci_freq :: "'h env \<Rightarrow> (('h, 'z) machine_scheme, u32) cmd" where
  "cpu_get_mmci_freq E =
     (if cpu E = PMB8875 then retM 0 else
     bindM (rd E CGU_CON3) (\<lambda>con3. let sel = con3 AND CGU_CON3_MMCI_CLKSEL in
     if sel \<noteq> CGU_CON3_MMCI_CLKSEL_OSC \<and> sel \<noteq> CGU_CON3_MMCI_CLKSEL_CLK32K \<and>
        sel \<noteq> CGU_CON3_MMCI_CLKSEL_PHASE4 then retM 0 else
     bindM (if sel = CGU_CON3_MMCI_CLKSEL_OSC then retM CPU_OSC_FREQ
            else if sel = CGU_CON3_MMCI_CLKSEL_CLK32K then retM CPU_CLK32K_FREQ
            else cpu_get_phase_freq E 4) (\<lambda>frequency.
     bindM (field E CGU_CON3 CGU_CON3_MMCI_CLKDIV CGU_CON3_MMCI_CLKDIV_SHIFT) (\<lambda>divider.
     retM (drop_bit (unat divider) frequency)))))"

definition cpu_get_clkout0_freq :: "'h env \<Rightarrow> (('h, 'z) machine_scheme, u32) cmd" where
  "cpu_get_clkout0_freq E =
     bindM (flag_clear E CGU_CON2 CGU_CON2_CLKOUT0_EN) (\<lambda>off.
     if off then retM 0 else
     bindM (field E CGU_CON2 CGU_CON2_CLKOUT0_CLKDIV CGU_CON2_CLKOUT0_CLKDIV_SHIFT) (\<lambda>divider.
     retM (drop_bit (unat divider) CPU_OSC_FREQ)))"

definition cpu_get_clkout1_freq :: "'h env \<Rightarrow> (('h, 'z) machine_scheme, u32) cmd" where
  "cpu_get_clkout1_freq E =
     bindM (flag_clear E CGU_CON2 CGU_CON2_CLKOUT1_EN) (\<lambda>off.
     if off then retM 0 else
     bindM (field E CGU_CON2 CGU_CON2_CLKOUT1_CLKDIV CGU_CON2_CLKOUT1_CLKDIV_SHIFT) (\<lambda>divider.
     retM (drop_bit (unat divider) CPU_OSC_FREQ)))"

definition cpu_get_clkout2_freq :: "'h env \<Rightarrow> (('h, 'z) machine_scheme, u32) cmd" where
  "cpu_get_clkout2_freq E =
     (if cpu E = PMB8875 then retM 0 else
     bindM (flag_clear E CGU_CON3 CGU_CON3_CLKOUT2_EN) (\<lambda>off.
     if off then retM 0 else
     bindM (field E CGU_CON3 CGU_CON3_CLKOUT2_CLKDIV CGU_CON3_CLKOUT2_CLKDIV_SHIFT) (\<lambda>divider.
     mapM (drop_bit (unat divider)) (cpu_get_phase_freq E 4))))"

definition cpu_get_clk32k_freq :: "'h env \<Rightarrow> (('h, 'z) machine_scheme, u32) cmd" where
  "cpu_get_clk32k_freq E =
     mapM (\<lambda>off. if \<not> off then CPU_CLK32K_FREQ else 0) (flag_clear E CGU_CON2 CGU_CON2_CLK32K_EN)"

definition cpu_get_ms_freq :: "'h env \<Rightarrow> (('h, 'z) machine_scheme, u32) cmd" where
  "cpu_get_ms_freq E =
     bindM (rd E CGU_CON2) (\<lambda>con2. let sel = con2 AND CGU_CON2_MS_CLKSEL in
     if sel = CGU_CON2_MS_CLKSEL_CLK_IN then retM CPU_OSC_FREQ
     else if sel = CGU_CON2_MS_CLKSEL_PLL then cpu_get_pll_freq E
     else retM 0)"

definition cpu_get_dma_freq :: "'h env \<Rightarrow> (('h, 'z) machine_scheme, u32) cmd" where
  "cpu_get_dma_freq E =
     (if cpu E = PMB8875 then cpu_get_pll_freq E else
     bindM (flag_clear E CGU_CON3 CGU_CON3_DMA_CLK_DISABLE) (\<lambda>on.
     if \<not> on then retM 0 else cpu_get_pll_freq E))"

section \<open>Every getter returns and only observes\<close>

text \<open>
  A value out of a field is masked, and the divisors are built from fields: the rule for a
  field read keeps that much of the value.
\<close>

lemma reader_field_bind [readers]:
  "(\<And>v. unat v \<le> unat (drop_bit n m) \<Longrightarrow> reader (f v)) \<Longrightarrow> reader (bindM (field E a m n) f)"
  unfolding field_def mapM_def bindM_assoc bindM_ret
  by (intro reader_bind reader_read) (blast intro: field_le)

lemma reader_flag [readers]: "reader (flag_clear E a m)"
  unfolding flag_clear_def by (intro readers)

lemma phase_divider:
  assumes "k1 \<noteq> 0" "\<not> k2 > 5" "unat k1 \<le> 15"
  shows "unat (k1 * 6 + k2 :: u32) = 6 * unat k1 + unat k2" and "unat k2 \<le> 5" and "k1 * 6 + k2 \<noteq> 0"
proof -
  show k2: "unat k2 \<le> 5" using assms(2) by (simp add: word_less_nat_alt)
  show eq: "unat (k1 * 6 + k2) = 6 * unat k1 + unat k2" using assms(3) k2 by (simp add: unat_word_ariths)
  show "k1 * 6 + k2 \<noteq> 0" using assms(1) by (intro unat_ne_0) (simp add: eq unat_gt_0)
qed

lemma phase_freq_ok: "unat k1 \<le> 15 \<Longrightarrow> okE (phase_freq f k1 k2) (\<lambda>_. True)"
  by (auto simp: phase_freq_def Let_def okE_bind dest: phase_divider(3))

lemma reader_get_pll_core_freq [readers]: "reader (get_pll_core_freq E)"
  unfolding get_pll_core_freq_def
  by (intro readers) (auto intro!: unat_ne_0 simp: unat_word_ariths)

lemma reader_cpu_get_pll_freq [readers]: "reader (cpu_get_pll_freq E)"
  unfolding cpu_get_pll_freq_def by (intro readers)

lemma reader_phase_output: "unat k1 \<le> 15 \<Longrightarrow> reader (phase_output E p b k1 k2)"
  unfolding phase_output_def by (intro readers phase_freq_ok)

lemma reader_cpu_get_phase_freq [readers]: "reader (cpu_get_phase_freq E phase)"
  unfolding cpu_get_phase_freq_def by (intro readers reader_phase_output) simp_all

lemma reader_cpu_get_sys_freq [readers]: "reader (cpu_get_sys_freq E)"
  unfolding cpu_get_sys_freq_def Let_def by (intro readers)

lemma reader_cpu_get_fpi2_freq [readers]: "reader (cpu_get_fpi2_freq E)"
  unfolding cpu_get_fpi2_freq_def by (intro readers)

lemma reader_cpu_get_ahb_freq [readers]: "reader (cpu_get_ahb_freq E)"
  unfolding cpu_get_ahb_freq_def Let_def by (intro readers)

lemma reader_cpu_get_freq [readers]: "reader (cpu_get_freq E)"
  unfolding cpu_get_freq_def
  by (intro readers) (auto intro!: unat_ne_0 simp: unat_word_ariths)

lemma reader_cpu_get_stm_freq [readers]: "reader (cpu_get_stm_freq E)"
proof -
  have pos: "okE (divE f d) (\<lambda>_. True)" if "d \<noteq> 0" for f d :: u32 using that by simp
  have ext: "d + x \<noteq> 0" if "d \<noteq> 0" "unat d \<le> 255" "unat x \<le> 255" for d x :: u32
    using that by (intro unat_ne_0) (simp add: unat_word_ariths unat_gt_0)
  show ?thesis
    unfolding cpu_get_stm_freq_def mapM_def if_bind bindM_assoc bindM_ret
    by (intro readers pos ext) simp_all
qed

lemma reader_cpu_get_ebu_freq [readers]: "reader (cpu_get_ebu_freq E)"
  unfolding cpu_get_ebu_freq_def Let_def by (intro readers)

lemma reader_cpu_get_dsp_freq [readers]: "reader (cpu_get_dsp_freq E)"
  unfolding cpu_get_dsp_freq_def Let_def by (intro readers)

lemma reader_cpu_get_fpi1_freq [readers]: "reader (cpu_get_fpi1_freq E)"
  unfolding cpu_get_fpi1_freq_def Let_def by (intro readers)

lemma reader_cpu_get_ahb_per_freq [readers]: "reader (cpu_get_ahb_per_freq E)"
  unfolding cpu_get_ahb_per_freq_def Let_def by (intro readers)

lemma reader_cpu_get_clk48m_freq [readers]: "reader (cpu_get_clk48m_freq E)"
  unfolding cpu_get_clk48m_freq_def Let_def by (intro readers)

lemma reader_cpu_get_mmci_freq [readers]: "reader (cpu_get_mmci_freq E)"
  unfolding cpu_get_mmci_freq_def Let_def by (intro readers)

lemma reader_cpu_get_clkout0_freq [readers]: "reader (cpu_get_clkout0_freq E)"
  unfolding cpu_get_clkout0_freq_def Let_def by (intro readers)

lemma reader_cpu_get_clkout1_freq [readers]: "reader (cpu_get_clkout1_freq E)"
  unfolding cpu_get_clkout1_freq_def Let_def by (intro readers)

lemma reader_cpu_get_clkout2_freq [readers]: "reader (cpu_get_clkout2_freq E)"
  unfolding cpu_get_clkout2_freq_def Let_def by (intro readers)

lemma reader_cpu_get_clk32k_freq [readers]: "reader (cpu_get_clk32k_freq E)"
  unfolding cpu_get_clk32k_freq_def Let_def by (intro readers)

lemma reader_cpu_get_ms_freq [readers]: "reader (cpu_get_ms_freq E)"
  unfolding cpu_get_ms_freq_def Let_def by (intro readers)

lemma reader_cpu_get_dma_freq [readers]: "reader (cpu_get_dma_freq E)"
  unfolding cpu_get_dma_freq_def Let_def by (intro readers)

text \<open>
  Every clock query of \<^verbatim>\<open>cpu.c\<close> returns for every content of the clock registers, on both
  CPUs: none divides by zero (the divisors are built from masked fields), and none changes the
  machine, since the queries only read registers.
\<close>

theorem clock_queries_only_observe:
  "list_all reader
     [cpu_get_pll_freq E, cpu_get_phase_freq E p, cpu_get_sys_freq E, cpu_get_fpi2_freq E,
      cpu_get_stm_freq E, cpu_get_ahb_freq E, cpu_get_freq E, cpu_get_ebu_freq E,
      cpu_get_dsp_freq E, cpu_get_fpi1_freq E, cpu_get_ahb_per_freq E, cpu_get_clk48m_freq E,
      cpu_get_mmci_freq E, cpu_get_clkout0_freq E, cpu_get_clkout1_freq E, cpu_get_clkout2_freq E,
      cpu_get_clk32k_freq E, cpu_get_ms_freq E, cpu_get_dma_freq E]"
  by (simp add: readers)

section \<open>The frequencies are exact\<close>

text \<open>
  The clock tree in natural numbers, as the data sheet draws it: bits \<open>n .. n + w - 1\<close> of a
  register are \<open>bits_at v n w\<close>. The phase \<open>p\<close> of the PLL has its power-up in bit \<open>p\<close> and its
  (active low) bypass in bit \<open>8 + p\<close> of \<^verbatim>\<open>CGU_OSC\<close>, and its dividers in byte \<open>p - 1\<close> of
  \<^verbatim>\<open>CGU_CON0\<close>.
\<close>

definition core_hz :: "u32 \<Rightarrow> u32 \<Rightarrow> nat" where
  "core_hz osc stat =
     (if bit osc 0 \<and> bit stat 13 then 26000000 * (bits_at osc 16 6 + 1) div (bits_at osc 24 4 + 1) else 0)"

definition pll_hz :: "u32 \<Rightarrow> u32 \<Rightarrow> nat" where
  "pll_hz osc stat = (if bit osc 8 then core_hz osc stat else 26000000)"

definition phase_hz :: "u32 \<Rightarrow> u32 \<Rightarrow> u32 \<Rightarrow> nat \<Rightarrow> nat" where
  "phase_hz osc stat con0 p =
     (let k1 = bits_at con0 (8 * (p - 1) + 3) 4; k2 = bits_at con0 (8 * (p - 1)) 3
      in if \<not> bit osc (8 + p) then pll_hz osc stat
         else if bit osc p \<and> 0 < k1 \<and> k2 \<le> 5 then 12 * core_hz osc stat div (6 * k1 + k2) else 0)"

lemma bits_at_less: "bits_at v n w < 2 ^ w"
  by (simp add: bits_at_def)

lemma core_hz_bound: "core_hz osc stat \<le> 1664000000"
proof -
  have "bits_at osc 16 6 + 1 \<le> 64" using bits_at_less [of osc 16 6] by simp
  then have "26000000 * (bits_at osc 16 6 + 1) \<le> 1664000000" by simp
  then show ?thesis by (auto simp: core_hz_def intro: le_trans [OF div_le_dividend])
qed

lemmas clock_reads = wp field_def flag_clear_def

text \<open>The frequency of the PLL core as the code computes it, in 32-bit arithmetic.\<close>

definition core_word :: "u32 \<Rightarrow> u32 \<Rightarrow> u32" where
  "core_word osc stat =
     (if osc AND CGU_OSC_PLL_POWER_UP = 0 \<or> stat AND CGU_STAT_LOCK = 0 then 0
      else CPU_OSC_FREQ * (drop_bit CGU_OSC_NDIV_SHIFT (osc AND CGU_OSC_NDIV) + 1)
           div (drop_bit CGU_OSC_MDIV_SHIFT (osc AND CGU_OSC_MDIV) + 1))"

lemma mdiv_pos: "drop_bit CGU_OSC_MDIV_SHIFT (v AND CGU_OSC_MDIV) + 1 \<noteq> (0 :: u32)"
  using field_le [of 24 v "CGU_OSC_MDIV"] by (intro unat_ne_0) (simp add: unat_word_ariths)

lemma core_yields:
  assumes osc: "stable E h CGU_OSC osc" and stat: "stable E h CGU_STAT stat"
  shows "yields h (get_pll_core_freq E) (core_word osc stat)"
  using mdiv_pos [of osc]
  by (intro yieldsI) (simp add: clock_reads get_pll_core_freq_def core_word_def stableD [OF osc] stableD [OF stat])

lemma core_exact: "unat (core_word osc stat) = core_hz osc stat"
proof -
  define n where "n = drop_bit CGU_OSC_NDIV_SHIFT (osc AND CGU_OSC_NDIV)"
  define m where "m = drop_bit CGU_OSC_MDIV_SHIFT (osc AND CGU_OSC_MDIV)"
  have n: "unat n = bits_at osc 16 6" unfolding n_def by (rule unat_field) (simp add: mask_eq_decr_exp)
  have m: "unat m = bits_at osc 24 4" unfolding m_def by (rule unat_field) (simp add: mask_eq_decr_exp)
  have b: "bits_at osc 16 6 < 64" "bits_at osc 24 4 < 16" using bits_at_less [of osc 16 6] bits_at_less [of osc 24 4] by auto
  then show ?thesis
    unfolding core_word_def core_hz_def n_def [symmetric] m_def [symmetric]
    using flag_set [of osc 0] flag_set [of stat 13] by (simp add: unat_div unat_word_ariths n m) (simp add: add.commute)
qed

lemma pll_yields:
  assumes osc: "stable E h CGU_OSC osc" and stat: "stable E h CGU_STAT stat"
  shows "yields h (cpu_get_pll_freq E) (if osc AND CGU_OSC_PLL_BYPASS_N = 0 then CPU_OSC_FREQ else core_word osc stat)"
  using core_yields [OF assms]
  by (intro yieldsI) (auto simp: clock_reads cpu_get_pll_freq_def stableD [OF osc] intro!: yields_wp)

lemma phase_freq_exact:
  assumes "unat k1 \<le> 15" and "unat f \<le> 1664000000"
  shows "okE (phase_freq f k1 k2) (\<lambda>r. unat r =
    (if 0 < unat k1 \<and> unat k2 \<le> 5 then 12 * unat f div (6 * unat k1 + unat k2) else 0))"
proof (cases "f = 0 \<or> k1 = 0 \<or> k2 > 5")
  case True
  then show ?thesis by (auto simp: phase_freq_def word_less_nat_alt)
next
  case False
  define d where "d = k1 * 6 + k2"
  have d: "unat d = 6 * unat k1 + unat k2" "unat k2 \<le> 5" "d \<noteq> 0"
    using phase_divider [of k1 k2] False assms(1) by (auto simp: d_def)
  have "0 < unat k1" using False by (simp add: unat_gt_0)
  then have six: "6 \<le> unat d" "unat d \<le> 95" using d assms(1) by auto
  define q r where "q = unat f div unat d" and "r = unat f mod unat d"
  have f: "unat f = q * unat d + r" and r: "r < unat d" using six by (simp_all add: q_def r_def)
  have "12 * unat f div unat d = (12 * r + (12 * q) * unat d) div unat d" by (simp add: f algebra_simps)
  also have "\<dots> = q * 12 + (12 * r) div unat d" using six(1) by (subst div_mult_self1) auto
  finally have split: "12 * unat f div unat d = q * 12 + (12 * r) div unat d" .
  have "12 * unat f div unat d \<le> 12 * unat f div 6" using six(1) by (intro div_le_mono2) auto
  then have fits: "q * 12 + (12 * r) div unat d < 2 ^ 32" using split assms(2) by simp
  have "q * 12 < 2 ^ 32" using fits by linarith
  moreover have "r * 12 < 2 ^ 32" using r six(2) by simp
  ultimately have "unat ((f div d) * 12 + ((f mod d) * 12) div d) = 12 * unat f div unat d"
    unfolding split using fits
    by (simp add: unat_word_ariths unat_div unat_mod mult.commute flip: q_def r_def)
  then show ?thesis
    using False d \<open>0 < unat k1\<close> by (simp add: phase_freq_def Let_def okE_bind flip: d_def)
qed

lemma phase_output_exact:
  fixes E :: "'h env"
  assumes osc: "stable E h CGU_OSC osc" and stat: "stable E h CGU_STAT stat" and k1: "unat k1 \<le> 15"
  shows "\<exists>f. yields h (phase_output E (push_bit p 1) (push_bit b 1) k1 k2 :: (('h, 'z) machine_scheme, u32) cmd) f \<and>
    unat f = (if \<not> bit osc b then pll_hz osc stat
      else if bit osc p \<and> 0 < unat k1 \<and> unat k2 \<le> 5
        then 12 * core_hz osc stat div (6 * unat k1 + unat k2) else 0)"
proof -
  obtain r where r: "phase_freq (core_word osc stat) k1 k2 = Inr r" and
    "unat r = (if 0 < unat k1 \<and> unat k2 \<le> 5 then 12 * core_hz osc stat div (6 * unat k1 + unat k2) else 0)"
    using okED [OF phase_freq_exact [OF k1, of "core_word osc stat" k2]] core_hz_bound [of osc stat]
    unfolding core_exact by blast
  define f where "f = (if \<not> bit osc b then if osc AND CGU_OSC_PLL_BYPASS_N = 0 then CPU_OSC_FREQ else core_word osc stat
    else if bit osc p then r else 0)"
  have "yields h (phase_output E (push_bit p 1) (push_bit b 1) k1 k2 :: (('h, 'z) machine_scheme, u32) cmd) f"
  proof (rule yieldsI)
    fix s :: "('h, 'z) machine_scheme"
    assume s: "hw s = h"
    note run = phase_output_def clock_reads stableD [OF osc] flag_set s
    show "wpM (phase_output E (push_bit p 1) (push_bit b 1) k1 k2) (\<lambda>y t. y = f \<and> hw t = h) s"
    proof (cases "bit osc b")
      case False
      then show ?thesis
        by (simp only: run) (simp add: f_def yields_wp [OF pll_yields [OF osc stat]])
    next
      case True
      then show ?thesis
        by (simp only: run) (simp add: f_def r stableD [OF osc] yields_wp [OF core_yields [OF osc stat]])
    qed
  qed
  moreover have "unat f = (if \<not> bit osc b then pll_hz osc stat
      else if bit osc p \<and> 0 < unat k1 \<and> unat k2 \<le> 5
        then 12 * core_hz osc stat div (6 * unat k1 + unat k2) else 0)"
    using \<open>unat r = _\<close> flag_set [of osc 8] by (auto simp: f_def pll_hz_def core_exact)
  ultimately show ?thesis by blast
qed

text \<open>
  C38. The phase outputs of the PLL: when the clock registers hold \<open>osc\<close>, \<open>stat\<close> and \<open>con0\<close>,
  \<^verbatim>\<open>cpu_get_phase_freq\<close> returns the frequency of the data sheet's clock tree exactly: the
  bypassed PLL output, zero for a phase that is off or whose dividers are invalid, otherwise
  the integer part of twelve times the core frequency over \<open>6 * k1 + k2\<close>. No product wraps in 32 bits.
\<close>

theorem phase_frequency_exact:
  fixes E :: "'h env"
  assumes osc: "stable E h CGU_OSC osc" and stat: "stable E h CGU_STAT stat"
    and con0: "stable E h CGU_CON0 con0" and p: "1 \<le> p" "p \<le> 4"
  shows "\<exists>f. yields h (cpu_get_phase_freq E (of_nat p) :: (('h, 'z) machine_scheme, u32) cmd) f \<and> unat f = phase_hz osc stat con0 p"
proof -
  have k1: "unat (drop_bit n (con0 AND m)) = bits_at con0 n 4" if "drop_bit n m = 15" for n m
    using that by (intro unat_field) (simp add: mask_eq_decr_exp)
  have k2: "unat (drop_bit n (con0 AND m)) = bits_at con0 n 3" if "drop_bit n m = 7" for n m
    using that by (intro unat_field) (simp add: mask_eq_decr_exp)
  have fields: "yields h (cpu_get_phase_freq E (of_nat p) :: (('h, 'z) machine_scheme, u32) cmd) f"
    if "yields h (phase_output E (push_bit p 1) (push_bit (8 + p) 1)
           (drop_bit (8 * (p - 1) + 3) (con0 AND push_bit (8 * (p - 1)) 0x78))
           (drop_bit (8 * (p - 1)) (con0 AND push_bit (8 * (p - 1)) 7))
         :: (('h, 'z) machine_scheme, u32) cmd) f" for f
  proof (rule yieldsI)
    fix s :: "('h, 'z) machine_scheme"
    assume "hw s = h"
    moreover have "p = 1 \<or> p = 2 \<or> p = 3 \<or> p = 4" using p by auto
    ultimately show "wpM (cpu_get_phase_freq E (of_nat p)) (\<lambda>y t. y = f \<and> hw t = h) s"
      using that by (auto simp: cpu_get_phase_freq_def clock_reads stableD [OF con0] intro!: yields_wp [of h])
  qed
  have p': "p = 1 \<or> p = 2 \<or> p = 3 \<or> p = 4" using p by auto
  let ?k1 = "drop_bit (8 * (p - 1) + 3) (con0 AND push_bit (8 * (p - 1)) 0x78)"
  let ?k2 = "drop_bit (8 * (p - 1)) (con0 AND push_bit (8 * (p - 1)) 7)"
  have u: "unat ?k1 = bits_at con0 (8 * (p - 1) + 3) 4" "unat ?k2 = bits_at con0 (8 * (p - 1)) 3"
    using p' by (intro k1 k2; auto)+
  have "unat ?k1 \<le> 15" unfolding u(1) using bits_at_less [of con0 "8 * (p - 1) + 3" 4] by simp
  from phase_output_exact [OF osc stat this, of p "8 + p" ?k2] fields
  show ?thesis unfolding phase_hz_def Let_def u by blast
qed

text \<open>A device with constant registers: PLL at 26 MHz * 24 / 2, phase 1 divided by 6 * 2 + 1.\<close>

definition const_dev :: "(u32 \<Rightarrow> u32) \<Rightarrow> 'h env" where
  "const_dev regs = \<lparr>dev_read = (\<lambda>w a h. (regs a, h)), dev_write = (\<lambda>w a v h. h), fuel = 10,
     cpu = PMB8876, pm_wadog = False, pmic = PMIC_none\<rparr>"

lemma stable_const_dev: "stable (const_dev regs) h a (regs a)"
  by (simp add: stable_def const_dev_def)

definition demo_clock :: "u32 \<Rightarrow> u32" where
  "demo_clock a = (if a = CGU_OSC then 0x01170303 else if a = CGU_STAT then CGU_STAT_LOCK else 0x11)"

lemma demo_phase: "phase_hz (demo_clock CGU_OSC) (demo_clock CGU_STAT) (demo_clock CGU_CON0) 1 = 288000000"
proof -
  have "bit (0x01170303 :: u32) 0" "bit (0x01170303 :: u32) 9" "bit (0x01170303 :: u32) 1" "bit (0x2000 :: u32) 13"
    by simp_all
  moreover have "bits_at 0x01170303 16 6 = 23" "bits_at 0x01170303 24 4 = 1" "bits_at 0x11 3 4 = 2" "bits_at 0x11 0 3 = 1"
    by (simp_all add: bits_at_def)
  ultimately show ?thesis by (simp add: phase_hz_def core_hz_def demo_clock_def Let_def flip: numeral_2_eq_2)
qed

lemma phase_frequency_exact_witness:
  "\<exists>f. yields () (cpu_get_phase_freq (const_dev demo_clock) 1 :: (unit machine, u32) cmd) f \<and> unat f = 288000000"
  using phase_frequency_exact [where p = 1 and h = "()" and E = "const_dev demo_clock",
      OF stable_const_dev stable_const_dev stable_const_dev] demo_phase
  by simp

end
