(* ===== verification/Core_Io.thy ===== *)
theory Core_Io
  imports Bus
begin

text \<open>
  The small inline drivers: pins (\<^verbatim>\<open>src/lib/gpio.h\<close>), the interrupt mask of the processor
  (\<^verbatim>\<open>src/lib/cpu.h\<close>) and the DMA request selector (\<^verbatim>\<open>src/lib/dmac.c\<close>).
\<close>

section \<open>Definitions\<close>

definition gpio_init_input :: "'h env \<Rightarrow> u32 \<Rightarrow> u32 \<Rightarrow> u32 \<Rightarrow> u32 \<Rightarrow> u32 \<Rightarrow> (('h, 'z) machine_scheme, unit) cmd" where
  "gpio_init_input E gpio is ps pdpu enaq =
     wr E (GPIO_PIN gpio) (is OR ps OR GPIO_DIR_IN OR pdpu OR enaq)"

definition gpio_init_output ::
  "'h env \<Rightarrow> u32 \<Rightarrow> u32 \<Rightarrow> u32 \<Rightarrow> bool \<Rightarrow> u32 \<Rightarrow> u32 \<Rightarrow> u32 \<Rightarrow> (('h, 'z) machine_scheme, unit) cmd" where
  "gpio_init_output E gpio os ps data ppen pdpu enaq =
     wr E (GPIO_PIN gpio)
       (os OR (if data then GPIO_DATA_HIGH else GPIO_DATA_LOW) OR ps OR GPIO_DIR_OUT OR ppen OR pdpu OR enaq)"

definition gpio_set :: "'h env \<Rightarrow> u32 \<Rightarrow> bool \<Rightarrow> (('h, 'z) machine_scheme, unit) cmd" where
  "gpio_set E gpio v =
     (if v then rmw E (GPIO_PIN gpio) (\<lambda>x. x OR GPIO_DATA_HIGH)
      else rmw E (GPIO_PIN gpio) (\<lambda>x. x AND NOT GPIO_DATA_HIGH))"

definition gpio_get :: "'h env \<Rightarrow> u32 \<Rightarrow> (('h, 'z) machine_scheme, bool) cmd" where
  "gpio_get E gpio = mapM (\<lambda>x. x AND GPIO_DATA_HIGH \<noteq> 0) (rd E (GPIO_PIN gpio))"

definition gpio_toggle :: "'h env \<Rightarrow> u32 \<Rightarrow> (('h, 'z) machine_scheme, unit) cmd" where
  "gpio_toggle E gpio = bindM (gpio_get E gpio) (\<lambda>v. gpio_set E gpio (\<not> v))"

text \<open>
  \<^verbatim>\<open>MSR CPSR_c\<close> writes the control byte, the low eight bits, of the status register.
\<close>

definition msr_cpsr_c :: "u32 \<Rightarrow> (('h, 'z) machine_scheme, unit) cmd" where
  "msr_cpsr_c v = modM (\<lambda>s. s\<lparr>cpsr := (cpsr s AND NOT 0xFF) OR (v AND 0xFF), trace := trace s @ [Msr v]\<rparr>)"

definition cpu_enable_irq_or_fiq :: "bool \<Rightarrow> u32 \<Rightarrow> (('h, 'z) machine_scheme, bool) cmd" where
  "cpu_enable_irq_or_fiq enable b =
     bindM (getM cpsr) (\<lambda>c.
     bindM (msr_cpsr_c (if enable then c AND NOT b else c OR b)) (\<lambda>_.
     retM (c AND b \<noteq> 0)))"

definition cpu_enable_irq :: "bool \<Rightarrow> (('h, 'z) machine_scheme, bool) cmd" where
  "cpu_enable_irq flag = cpu_enable_irq_or_fiq flag 0x80"

definition cpu_enable_fiq :: "bool \<Rightarrow> (('h, 'z) machine_scheme, bool) cmd" where
  "cpu_enable_fiq flag = cpu_enable_irq_or_fiq flag 0x40"

text \<open>Only the PMB8876 has the request selector.\<close>

definition dmac_request_select :: "'h env \<Rightarrow> u32 \<Rightarrow> u32 \<Rightarrow> (('h, 'z) machine_scheme, unit) cmd" where
  "dmac_request_select E request select =
     (if cpu E = PMB8876
      then rmw E SCU_DMARS (\<lambda>v. (v AND NOT (BIT (unat request))) OR push_bit (unat request) select)
      else retM ())"

section \<open>The interrupt mask\<close>

text \<open>
  A critical section: the mask is set, the body runs with interrupts off, and the mask is put
  back. The status register at the end is the one at the start.
\<close>

lemma bit_0x80: "bit (0x80 :: u32) n \<longleftrightarrow> n = 7"
  using bit_push_bit_iff [of 7 "1 :: u32" n] by (auto simp: bit_1_iff)

lemma bit_0xFF: "bit (0xFF :: u32) n \<longleftrightarrow> n < 8"
  using bit_mask_iff [of 8 n, where 'a = u32] by (auto simp: mask_eq_decr_exp)

lemma cpsr_c_set: "(c AND NOT 0xFF) OR ((c OR 0x80) AND 0xFF) = c OR (0x80 :: u32)"
  by (rule bit_word_eqI) (simp only: bit_0x80 bit_0xFF bit_or_iff bit_and_iff bit_not_iff; force)

lemma cpsr_c_clear: "(c AND NOT 0xFF) OR ((c AND NOT 0x80) AND 0xFF) = c AND NOT (0x80 :: u32)"
  by (rule bit_word_eqI) (simp only: bit_0x80 bit_0xFF bit_or_iff bit_and_iff bit_not_iff; force)

lemma wp_cpu_enable_irq [wp]:
  "wpM (cpu_enable_irq flag) Q = (\<lambda>s. Q (cpsr s AND 0x80 \<noteq> 0)
     (s\<lparr>cpsr := if flag then cpsr s AND NOT 0x80 else cpsr s OR 0x80,
        trace := trace s @ [Msr (if flag then cpsr s AND NOT 0x80 else cpsr s OR 0x80)]\<rparr>))"
  by (simp add: cpu_enable_irq_def cpu_enable_irq_or_fiq_def msr_cpsr_c_def wp fun_eq_iff
      cpsr_c_set [simplified] cpsr_c_clear [simplified])

lemma irq_restore:
  "c AND 0x80 = 0 \<Longrightarrow> (c OR 0x80) AND NOT 0x80 = (c :: u32)"
  "c AND 0x80 \<noteq> 0 \<Longrightarrow> c OR 0x80 = (c :: u32)"
proof -
  have b: "c AND 0x80 = 0 \<longleftrightarrow> \<not> bit c 7" using bit_iff_and_push_bit_not_eq_0 [of c 7] by simp
  show "(c OR 0x80) AND NOT 0x80 = c" if "c AND 0x80 = 0"
    using that unfolding b
    by (intro bit_word_eqI) (simp only: bit_0x80 bit_or_iff bit_and_iff bit_not_iff; force)
  show "c OR 0x80 = c" if "c AND 0x80 \<noteq> 0"
    using that unfolding b by (intro bit_word_eqI) (simp only: bit_0x80 bit_or_iff; force)
qed

section \<open>Pins\<close>

lemma wp_gpio_toggle:
  "wpM (gpio_toggle E g) Q = wpM (rd E (GPIO_PIN g)) (\<lambda>x. wpM (rd E (GPIO_PIN g)) (\<lambda>y.
     wpM (wr E (GPIO_PIN g) (if x AND GPIO_DATA_HIGH \<noteq> 0 then y AND NOT GPIO_DATA_HIGH else y OR GPIO_DATA_HIGH)) Q))"
  by (auto simp: gpio_toggle_def gpio_get_def gpio_set_def rmw_def wp fun_eq_iff split: prod.splits)

end
