(* ===== verification/Usart.thy ===== *)
theory Usart
  imports Cpu_Clock Core_Io
begin

text \<open>
  The serial port (\<^verbatim>\<open>src/lib/usart.c\<close>, \<^verbatim>\<open>src/lib/usart.h\<close>). A buffer that is written out is
  the list of its bytes, and a read returns the bytes that the source stores at
  \<^verbatim>\<open>data[0 .. size - 1]\<close>. Waiting for the FIFO is bounded by the fuel of the environment.
\<close>

section \<open>Definitions\<close>

abbreviation (input) USART_FIFO_SIZE :: nat where "USART_FIFO_SIZE \<equiv> 8"
abbreviation (input) USART_BAUD_DIVIDER_MAX :: u32 where "USART_BAUD_DIVIDER_MAX \<equiv> 8192"
abbreviation (input) USART_FDV_SCALE :: u64 where "USART_FDV_SCALE \<equiv> 512"

definition usart_get_rx_fifo_level :: "'h env \<Rightarrow> u32 \<Rightarrow> (('h, 'z) machine_scheme, u32) cmd" where
  "usart_get_rx_fifo_level E usart = field E (USART_FSTAT usart) USART_FSTAT_RXFFL USART_FSTAT_RXFFL_SHIFT"

definition usart_get_tx_fifo_level :: "'h env \<Rightarrow> u32 \<Rightarrow> (('h, 'z) machine_scheme, u32) cmd" where
  "usart_get_tx_fifo_level E usart = field E (USART_FSTAT usart) USART_FSTAT_TXFFL USART_FSTAT_TXFFL_SHIFT"

definition usart_set_speed :: "'h env \<Rightarrow> u32 \<Rightarrow> u32 \<Rightarrow> (('h, 'z) machine_scheme, unit) cmd" where
  "usart_set_speed E usart baud_rate =
     bindM (cpu_get_fpi1_freq E) (\<lambda>f. let max_baud_rate = drop_bit 4 f in
     bindM (liftE (divE max_baud_rate baud_rate)) (\<lambda>q. let divider = min q USART_BAUD_DIVIDER_MAX;
       scaled_baud_rate = ucast baud_rate * ucast divider * USART_FDV_SCALE :: u64 in
     bindM (liftE (divE (scaled_baud_rate + ucast (max_baud_rate div 2)) (ucast max_baud_rate))) (\<lambda>r.
     let fractional_divider = ucast r :: u32 in
     seqM [wr E (USART_BG usart) (divider - 1),
           wr E (USART_FDV usart) (if fractional_divider = 512 then 0 else fractional_divider)])))"

definition usart_init :: "'h env \<Rightarrow> u32 \<Rightarrow> u32 \<Rightarrow> (('h, 'z) machine_scheme, unit) cmd" where
  "usart_init E usart baud_rate =
     seqM [wr E (USART_CLC usart) (push_bit MOD_CLC_RMC_SHIFT 1),
           usart_set_speed E usart baud_rate,
           wr E (USART_CON usart) (USART_CON_M_ASYNC_8BIT OR USART_CON_STP_ONE OR USART_CON_REN OR
             USART_CON_FDE OR USART_CON_CON_R),
           wr E (USART_WHBCON usart) USART_WHBCON_SETREN,
           wr E (USART_RXFCON usart) (USART_RXFCON_RXFEN OR USART_RXFCON_RXFFLU),
           wr E (USART_TXFCON usart) (USART_TXFCON_TXFEN OR USART_TXFCON_TXFFLU),
           wr E (GPIO_PIN (if usart = USART1 then GPIO_USART1_RXD else GPIO_USART0_RXD))
             (GPIO_IS_ALT0 OR GPIO_OS_NONE OR GPIO_PS_ALT OR GPIO_DIR_IN),
           wr E (GPIO_PIN (if usart = USART1 then GPIO_USART1_TXD else GPIO_USART0_TXD))
             (GPIO_IS_NONE OR GPIO_OS_ALT0 OR GPIO_PS_ALT OR GPIO_DIR_IN)]"

text \<open>\<^verbatim>\<open>while ((fifo_level = usart_get_rx_fifo_level(usart)) == 0);\<close>\<close>

primrec usart_wait_rx :: "nat \<Rightarrow> 'h env \<Rightarrow> u32 \<Rightarrow> (('h, 'z) machine_scheme, u32) cmd" where
  "usart_wait_rx 0 E usart = failM Out_Of_Fuel"
| "usart_wait_rx (Suc n) E usart =
     bindM (usart_get_rx_fifo_level E usart) (\<lambda>fifo_level.
     if fifo_level = 0 then usart_wait_rx n E usart else retM fifo_level)"

primrec usart_read_batch :: "nat \<Rightarrow> 'h env \<Rightarrow> u32 \<Rightarrow> (('h, 'z) machine_scheme, u8 list) cmd" where
  "usart_read_batch 0 E usart = retM []"
| "usart_read_batch (Suc n) E usart =
     bindM (rd E (USART_RXB usart)) (\<lambda>v. mapM ((#) (ucast v)) (usart_read_batch n E usart))"

text \<open>
  The outer loop of \<^verbatim>\<open>usart_read\<close>. Every round stores at least one byte, so that \<open>size\<close> rounds,
  the first argument, are enough.
\<close>

primrec usart_read_loop :: "nat \<Rightarrow> 'h env \<Rightarrow> u32 \<Rightarrow> nat \<Rightarrow> (('h, 'z) machine_scheme, u8 list) cmd" where
  "usart_read_loop 0 E usart left = (if left = 0 then retM [] else failM Out_Of_Fuel)"
| "usart_read_loop (Suc n) E usart left =
     (if left = 0 then retM [] else
      bindM (usart_wait_rx (fuel E) E usart) (\<lambda>fifo_level. let batch_size = min left (unat fifo_level) in
      bindM (usart_read_batch batch_size E usart) (\<lambda>bs.
      mapM ((@) bs) (usart_read_loop n E usart (left - batch_size)))))"

definition usart_read :: "'h env \<Rightarrow> u32 \<Rightarrow> nat \<Rightarrow> (('h, 'z) machine_scheme, u8 list) cmd" where
  "usart_read E usart n = usart_read_loop n E usart n"

text \<open>\<^verbatim>\<open>while (usart_get_tx_fifo_level(usart) != 0) (void) USART_RIS(usart);\<close>\<close>

definition usart_wait_tx :: "'h env \<Rightarrow> u32 \<Rightarrow> (('h, 'z) machine_scheme, unit) cmd" where
  "usart_wait_tx E usart =
     whileM (fuel E) (mapM (\<lambda>level. level \<noteq> 0) (usart_get_tx_fifo_level E usart))
       (mapM (\<lambda>_. ()) (rd E (USART_RIS usart)))"

function usart_write :: "'h env \<Rightarrow> u32 \<Rightarrow> u8 list \<Rightarrow> (('h, 'z) machine_scheme, unit) cmd" where
  "usart_write E usart bytes =
     (if bytes = [] then retM () else
      bindM (usart_wait_tx E usart) (\<lambda>_.
      bindM (forM (take USART_FIFO_SIZE bytes) (\<lambda>b. wr E (USART_TXB usart) (ucast b))) (\<lambda>_.
      usart_write E usart (drop USART_FIFO_SIZE bytes))))"
  by pat_completeness auto
termination
  by (relation "measure (\<lambda>(E, usart, bytes). length bytes)") auto

declare usart_write.simps [simp del]

definition usart_flush :: "'h env \<Rightarrow> u32 \<Rightarrow> (('h, 'z) machine_scheme, unit) cmd" where
  "usart_flush E usart =
     seqM [usart_wait_tx E usart,
           whileM (fuel E) (mapM (\<lambda>v. v AND USART_RIS_TX = 0) (rd E (USART_RIS usart))) (retM ()),
           wr E (USART_ICR usart) USART_ICR_TX]"

definition usart_putc :: "'h env \<Rightarrow> u32 \<Rightarrow> u8 \<Rightarrow> (('h, 'z) machine_scheme, unit) cmd" where
  "usart_putc E usart c = usart_write E usart [c]"

definition usart_getc :: "'h env \<Rightarrow> u32 \<Rightarrow> (('h, 'z) machine_scheme, u8) cmd" where
  "usart_getc E usart = mapM hd (usart_read E usart 1)"

text \<open>A C string is written up to its terminating zero.\<close>

definition usart_print :: "'h env \<Rightarrow> u32 \<Rightarrow> string \<Rightarrow> (('h, 'z) machine_scheme, unit) cmd" where
  "usart_print E usart data = usart_write E usart (map of_char data)"

section \<open>Writing\<close>

lemma logs_field: "(\<And>v. P (drop_bit n (v AND m)) [Rd W32 a v]) \<Longrightarrow> logs (field E a m n) P"
  unfolding field_def by (intro logs_map logs_read)

text \<open>
  \<open>fifo_safe u n tr\<close>: with room for \<open>n\<close> bytes in the transmit FIFO at the start, no byte of the
  accesses \<open>tr\<close> is written to a full FIFO. A status read that shows the FIFO empty makes room for
  all eight.
\<close>

fun fifo_safe :: "u32 \<Rightarrow> nat \<Rightarrow> access list \<Rightarrow> bool" where
  "fifo_safe u n [] = True"
| "fifo_safe u n (Rd w a v # xs) =
     (if a = USART_FSTAT u \<and> v AND USART_FSTAT_TXFFL = 0 then fifo_safe u USART_FIFO_SIZE xs else fifo_safe u n xs)"
| "fifo_safe u n (Wr w a v # xs) =
     (if a = USART_TXB u then 0 < n \<and> fifo_safe u (n - 1) xs else fifo_safe u n xs)"
| "fifo_safe u n (_ # xs) = fifo_safe u n xs"

lemma fifo_safe_mono: "fifo_safe u m xs \<Longrightarrow> m \<le> n \<Longrightarrow> fifo_safe u n xs"
proof (induction u m xs arbitrary: n rule: fifo_safe.induct)
  case (3 u m w a v xs)
  then show ?case by (auto split: if_splits)
qed (auto split: if_splits)

lemma fifo_safe_reads:
  "writes xs = [] \<Longrightarrow> v AND USART_FSTAT_TXFFL = 0 \<Longrightarrow> fifo_safe u USART_FIFO_SIZE ys \<Longrightarrow>
     fifo_safe u n (xs @ Rd W32 (USART_FSTAT u) v # ys)"
  by (induction u n xs rule: fifo_safe.induct) auto

lemma fifo_safe_burst:
  "length bs \<le> n \<Longrightarrow> fifo_safe u 0 ys \<Longrightarrow> fifo_safe u n (map (\<lambda>b. Wr W32 (USART_TXB u) (f b)) bs @ ys)"
  by (induction bs arbitrary: n) (auto intro: fifo_safe_mono)

lemma txffl_zero: "drop_bit USART_FSTAT_TXFFL_SHIFT (v AND USART_FSTAT_TXFFL) = 0 \<longleftrightarrow> (v :: u32) AND USART_FSTAT_TXFFL = 0"
proof -
  have m: "(USART_FSTAT_TXFFL :: u32) = push_bit 8 0xF" by simp
  have "push_bit 8 (drop_bit 8 (v AND USART_FSTAT_TXFFL)) = v AND USART_FSTAT_TXFFL"
    unfolding m by (rule bit_word_eqI) (auto simp only: bit_push_bit_iff bit_drop_bit_eq bit_and_iff o_apply le_add_diff_inverse)
  then show ?thesis by (metis drop_bit_of_0 push_bit_of_0)
qed

lemma logs_wait_tx:
  "logs (usart_wait_tx E u) (\<lambda>_ tr. \<exists>xs v. tr = xs @ [Rd W32 (USART_FSTAT u) v] \<and> writes xs = [] \<and> v AND USART_FSTAT_TXFFL = 0)"
  unfolding usart_wait_tx_def usart_get_tx_fifo_level_def
  by (rule logs_while [where K = "\<lambda>tr. writes tr = []" and
        X = "\<lambda>tr. \<exists>v. tr = [Rd W32 (USART_FSTAT u) v] \<and> v AND USART_FSTAT_TXFFL = 0"])
     (auto intro!: logs_map logs_field logs_read simp: txffl_zero [simplified])

definition tx_spec :: "u32 \<Rightarrow> u8 list \<Rightarrow> access list \<Rightarrow> bool" where
  "tx_spec u bs tr \<longleftrightarrow> writes tr = map (\<lambda>b. (USART_TXB u, ucast b)) bs \<and> fifo_safe u 0 tr"

lemma writes_map_Wr: "writes (map (\<lambda>b. Wr w (a b) (f b)) bs) = map (\<lambda>b. (a b, f b)) bs"
  by (induction bs) auto

lemma logs_usart_write: "logs (usart_write E u bs :: (('h, 'z) machine_scheme, unit) cmd) (\<lambda>_. tx_spec u bs)"
proof (induction E u bs rule: usart_write.induct)
  case (1 E u bs)
  show ?case
  proof (cases "bs = []")
    case True
    then show ?thesis by (subst usart_write.simps) (simp add: logs_ret tx_spec_def)
  next
    case False
    let ?burst = "map (\<lambda>b. Wr W32 (USART_TXB u) (ucast b)) (take 8 bs)"
    have "tx_spec u bs ((xs @ [Rd W32 (USART_FSTAT u) v]) @ ?burst @ ys)"
      if "writes xs = []" "v AND USART_FSTAT_TXFFL = 0" "tx_spec u (drop 8 bs) ys" for xs v ys
      using that by (auto simp: tx_spec_def writes_map_Wr simp flip: map_append intro!: fifo_safe_reads fifo_safe_burst)
    then have rest: "logs (bindM (forM (take 8 bs) (\<lambda>b. wr E (USART_TXB u) (ucast b))) (\<lambda>_. usart_write E u (drop 8 bs))
         :: (('h, 'z) machine_scheme, unit) cmd) (\<lambda>_ t2. tx_spec u bs ((xs @ [Rd W32 (USART_FSTAT u) v]) @ t2))"
      if "writes xs = []" "v AND USART_FSTAT_TXFFL = 0" for xs v
      using that False
      by (intro logs_bind [where P = "\<lambda>_ tr. tr = ?burst"] logs_forM_write) (auto intro: logs_mono [OF 1 [OF False]])
    show ?thesis
      using False rest by (subst usart_write.simps) (auto intro!: logs_bind [OF logs_wait_tx])
  qed
qed

text \<open>
  C36. \<^verbatim>\<open>usart_write\<close> on any device: when it returns, the bytes have been written to the transmit
  register in order, each once, nothing else has been written, the rest of the machine is unchanged,
  and the FIFO was never overrun: at most eight bytes follow a status read that showed it empty.
\<close>

theorem usart_write_bytes_in_order:
  "wlpM (usart_write E u bs) (\<lambda>_ t. \<exists>tr. trace t = trace s @ tr \<and> io_only s t \<and>
     writes tr = map (\<lambda>b. (USART_TXB u, ucast b)) bs \<and> fifo_safe u 0 tr) s"
  by (rule logs_wlp [OF logs_usart_write]) (auto simp: tx_spec_def)

text \<open>
  A device whose FIFO moves: \<open>wait h\<close> bounds the register reads until the polled condition
  \<open>ready\<close> holds of the status register; it never exceeds \<open>n\<close>.
\<close>

definition polls_ready :: "'h env \<Rightarrow> u32 \<Rightarrow> (u32 \<Rightarrow> bool) \<Rightarrow> ('h \<Rightarrow> nat) \<Rightarrow> nat \<Rightarrow> bool" where
  "polls_ready E a ready wait n \<longleftrightarrow>
     (\<forall>h. wait h \<le> n \<and> (wait h = 0 \<longrightarrow> ready (fst (dev_read E W32 a h))) \<and>
          (\<forall>b. wait (snd (dev_read E W32 b h)) \<le> wait h - 1))"

lemma wp_wait_tx:
  assumes "polls_ready E (USART_FSTAT u) (\<lambda>v. v AND USART_FSTAT_TXFFL = 0) wait n" and "n < fuel E"
  shows "wpM (usart_wait_tx E u) (\<lambda>_ _. True) s"
  unfolding usart_wait_tx_def
proof (rule wp_whileM [where I = "\<lambda>_. True" and m = "\<lambda>t. wait (hw t)"])
  show "wait (hw s) < fuel E" using assms by (auto simp: polls_ready_def intro: le_less_trans)
  fix t :: "('a, 'b) machine_scheme"
  obtain v h where r: "dev_read E W32 (USART_FSTAT u) (hw t) = (v, h)" by fastforce
  obtain w k where r2: "dev_read E W32 (USART_RIS u) h = (w, k)" by fastforce
  have "wait (hw t) = 0 \<longrightarrow> v AND USART_FSTAT_TXFFL = 0" "wait h \<le> wait (hw t) - 1" "wait k \<le> wait h - 1"
    using assms(1) r r2 unfolding polls_ready_def by (metis fst_conv snd_conv)+
  then show "wpM (mapM (\<lambda>level. level \<noteq> 0) (usart_get_tx_fifo_level E u))
      (\<lambda>b x. if b then wpM (mapM (\<lambda>_. ()) (rd E (USART_RIS u))) (\<lambda>_ v. True \<and> wait (hw v) < wait (hw t)) x else True) t"
    by (auto simp: usart_get_tx_fifo_level_def field_def wp r r2 txffl_zero [simplified])
qed simp

lemma wp_forM_writes: "wpM (forM xs (\<lambda>x. mmio_write w E (a x) (f x))) (\<lambda>_ _. True) s"
  by (rule wp_forM [where I = "\<lambda>_ _. True"]) (simp_all add: wp)

text \<open>
  C37. On a device whose transmit FIFO empties within \<open>n\<close> register reads, \<^verbatim>\<open>usart_write\<close> returns for
  every buffer when the environment allows more than \<open>n\<close> polls.
\<close>

theorem usart_write_returns:
  fixes s :: "('h, 'z) machine_scheme"
  assumes "polls_ready E (USART_FSTAT u) (\<lambda>v. v AND USART_FSTAT_TXFFL = 0) wait n" and "n < fuel E"
  shows "\<exists>t. usart_write E u bs s = Inr ((), t) \<and> written (USART_TXB u) (drop (length (trace s)) (trace t)) = map ucast bs"
proof -
  have total: "wpM (usart_write E u bs) (\<lambda>_ _. True) s" for s :: "('h, 'z) machine_scheme"
  proof (induction "length bs" arbitrary: bs s rule: less_induct)
    case less
    have next_bytes: "wpM (usart_write E u (drop 8 bs)) (\<lambda>_ _. True) t" if "bs \<noteq> []" for t :: "('h, 'z) machine_scheme"
      using less that by (cases bs) auto
    show ?case
      by (subst usart_write.simps)
         (auto simp: wp_bind intro!: wp_mono [OF wp_wait_tx [OF assms]] wp_mono [OF wp_forM_writes] next_bytes)
  qed
  from wpD [OF total [of s]] obtain t where t: "usart_write E u bs s = Inr ((), t)" by auto
  from logsD [OF logs_usart_write t] show ?thesis
    by (auto simp: t tx_spec_def written_writes comp_def)
qed

section \<open>Reading\<close>

lemma logs_wait_rx: "logs (usart_wait_rx n E u) (\<lambda>v tr. writes tr = [] \<and> read_from (USART_RXB u) tr = [] \<and> v \<noteq> 0)"
proof (induction n)
  case (Suc n)
  show ?case
    unfolding usart_wait_rx.simps usart_get_rx_fifo_level_def
    by (rule logs_bind [where P = "\<lambda>_ tr. \<exists>v. tr = [Rd W32 (USART_FSTAT u) v]"])
       (auto intro!: logs_field logs_ret simp: Suc)
qed (simp add: logs_fail)

lemma logs_read_batch:
  "logs (usart_read_batch n E u) (\<lambda>bs tr. length bs = n \<and> writes tr = [] \<and> bs = map ucast (read_from (USART_RXB u) tr))"
proof (induction n)
  case (Suc n)
  show ?case
    unfolding usart_read_batch.simps
    by (rule logs_bind [where P = "\<lambda>v tr. tr = [Rd W32 (USART_RXB u) v]"])
       (auto intro!: logs_read logs_map logs_mono [OF Suc])
qed (simp add: logs_ret)

lemma logs_read_loop:
  "logs (usart_read_loop n E u k) (\<lambda>bs tr. length bs = k \<and> writes tr = [] \<and> bs = map ucast (read_from (USART_RXB u) tr))"
proof (induction n arbitrary: k)
  case 0
  then show ?case by (simp add: logs_ret logs_fail)
next
  case (Suc n)
  show ?case
    unfolding usart_read_loop.simps Let_def
    by (intro logs_if logs_bind [OF logs_wait_rx] logs_bind [OF logs_read_batch] logs_map logs_ret)
       (auto intro: logs_mono [OF Suc])
qed

text \<open>
  \<^verbatim>\<open>usart_read\<close> on any device: when it returns, it delivers as many bytes as asked for, the low
  bytes of the successive reads of the receive register in order, and it wrote no register.
\<close>

theorem usart_read_bytes_in_order:
  "wlpM (usart_read E u n) (\<lambda>bs t. \<exists>tr. trace t = trace s @ tr \<and> io_only s t \<and> length bs = n \<and>
     writes tr = [] \<and> bs = map ucast (read_from (USART_RXB u) tr)) s"
  unfolding usart_read_def by (rule logs_wlp [OF logs_read_loop]) auto

lemma wp_wait_rx:
  assumes "polls_ready E (USART_FSTAT u) (\<lambda>v. v AND USART_FSTAT_RXFFL \<noteq> 0) wait n" and "wait (hw s) < k"
  shows "wpM (usart_wait_rx k E u) (\<lambda>v _. v \<noteq> 0) s"
  using assms(2)
proof (induction k arbitrary: s)
  case (Suc k)
  obtain v h where r: "dev_read E W32 (USART_FSTAT u) (hw s) = (v, h)" by fastforce
  have "wait (hw s) = 0 \<longrightarrow> v AND USART_FSTAT_RXFFL \<noteq> 0" "wait h \<le> wait (hw s) - 1"
    using assms(1) r unfolding polls_ready_def by (metis fst_conv snd_conv)+
  then show ?case
    using Suc.prems by (auto simp: usart_get_rx_fifo_level_def field_def wp r intro!: Suc.IH)
qed simp

lemma wp_read_batch: "wpM (usart_read_batch n E u) (\<lambda>bs _. length bs = n) s"
  by (induction n arbitrary: s) (auto simp: wp split: prod.splits intro: wp_mono)

text \<open>
  On a device that has a byte within \<open>n\<close> register reads, \<^verbatim>\<open>usart_read\<close> returns for every size:
  every round stores at least one byte, so the outer loop ends.
\<close>

theorem usart_read_returns:
  fixes s :: "('h, 'z) machine_scheme"
  assumes "polls_ready E (USART_FSTAT u) (\<lambda>v. v AND USART_FSTAT_RXFFL \<noteq> 0) wait n" and "n < fuel E"
  shows "\<exists>bs t. usart_read E u k s = Inr (bs, t) \<and> length bs = k"
proof -
  have "wpM (usart_read_loop r E u k) (\<lambda>bs _. length bs = k) x" if "k \<le> r" for r k and x :: "('h, 'z) machine_scheme"
    using that
  proof (induction r arbitrary: k x)
    case (Suc r)
    have wait: "wait (hw x) < fuel E" using assms by (auto simp: polls_ready_def intro: le_less_trans)
    show ?case
    proof (cases "k = 0")
      case False
      have "wpM (usart_read_batch b E u) (\<lambda>bs. wpM (mapM ((@) bs) (usart_read_loop r E u (k - b))) (\<lambda>bs _. length bs = k)) t"
        if "0 < b" "b \<le> k" for b and t :: "('h, 'z) machine_scheme"
      proof -
        have "k - b \<le> r" using that Suc.prems by linarith
        then show ?thesis
          using that(2) by (intro wp_mono [OF wp_read_batch]) (auto simp: wp intro!: wp_mono [OF Suc.IH])
      qed
      then show ?thesis
        using False by (auto simp: wp_bind Let_def unat_gt_0 intro!: wp_mono [OF wp_wait_rx [OF assms(1) wait]])
    qed simp
  qed simp
  from wpD [OF this [OF order_refl]] show ?thesis unfolding usart_read_def by blast
qed

section \<open>The bit rate\<close>

text \<open>The divider and the fractional divider as natural numbers, from the clock \<open>m\<close> and the wanted rate \<open>b\<close>.\<close>

definition baud_divider :: "nat \<Rightarrow> nat \<Rightarrow> nat" where
  "baud_divider m b = min (m div b) 8192"

definition baud_fraction :: "nat \<Rightarrow> nat \<Rightarrow> nat" where
  "baud_fraction m b = (b * baud_divider m b * 512 + m div 2) div m"

lemma nearest: "0 < (m :: nat) \<Longrightarrow> \<bar>int x - int m * int ((x + m div 2) div m)\<bar> * 2 \<le> int m"
proof -
  assume m: "0 < m"
  define q r where "q = (x + m div 2) div m" and "r = (x + m div 2) mod m"
  have "x + m div 2 = m * q + r" "r < m" using m by (simp_all add: q_def r_def)
  moreover have "2 * (m div 2) \<le> m" "m \<le> 2 * (m div 2) + 1" by auto
  ultimately show ?thesis unfolding q_def [symmetric] by (auto simp: abs_le_iff abs_if simp flip: of_nat_mult) 
qed

lemma baud_bounds:
  assumes "0 < b" "b \<le> m"
  shows "1 \<le> baud_divider m b" "b * baud_divider m b \<le> m" "baud_fraction m b \<le> 512"
    "m div b \<le> 8192 \<Longrightarrow> 256 \<le> baud_fraction m b"
proof -
  have m: "0 < m" using assms by simp
  have q: "1 \<le> m div b" using assms by (simp add: div_greater_zero_iff Suc_le_eq)
  then show "1 \<le> baud_divider m b" by (simp add: baud_divider_def)
  have "b * baud_divider m b \<le> b * (m div b)" by (simp add: baud_divider_def)
  also have "\<dots> \<le> m" by simp
  finally show le: "b * baud_divider m b \<le> m" .
  have "b * baud_divider m b * 512 + m div 2 < 513 * m" using le m by linarith
  then have "baud_fraction m b < 513" unfolding baud_fraction_def by (simp add: less_mult_imp_div_less)
  then show "baud_fraction m b \<le> 512" by simp
  assume "m div b \<le> 8192"
  then have "b * baud_divider m b = b * (m div b)" by (simp add: baud_divider_def)
  moreover have "m = b * (m div b) + m mod b" "m mod b < b" "b \<le> b * (m div b)" using assms q by simp_all
  ultimately have "256 * m \<le> b * baud_divider m b * 512 + m div 2" by linarith
  then have "256 * m div m \<le> baud_fraction m b" unfolding baud_fraction_def by (rule div_le_mono)
  then show "256 \<le> baud_fraction m b" using m by simp
qed

text \<open>The accesses of a change of the rate when the clock query yields \<open>f\<close>.\<close>

lemma set_speed_writes:
  fixes s :: "('h, 'z) machine_scheme"
  assumes clk: "yields h (cpu_get_fpi1_freq E :: (('h, 'z) machine_scheme, u32) cmd) f" and s: "hw s = h"
    and m: "m = unat f div 16" "0 < m" and b: "b = unat baud" "0 < b"
  shows "\<exists>t. usart_set_speed E u baud s = Inr ((), t) \<and>
    writes (drop (length (trace s)) (trace t)) =
      [(USART_BG u, of_nat (baud_divider m b) - 1),
       (USART_FDV u, if baud_fraction m b = 512 then 0 else of_nat (baud_fraction m b))]"
proof -
  obtain x t where c: "(cpu_get_fpi1_freq E :: (('h, 'z) machine_scheme, u32) cmd) s = Inr (x, t)" and "observes s t"
    using readerD [OF reader_cpu_get_fpi1_freq] by blast
  moreover have "x = f" using clk s c unfolding yields_def by auto
  ultimately obtain tr k where t: "t = s\<lparr>hw := k, trace := trace s @ tr\<rparr>" and tr: "writes tr = []"
    and c: "(cpu_get_fpi1_freq E :: (('h, 'z) machine_scheme, u32) cmd) s = Inr (f, t)"
    by (auto simp: observes_def)
  have um: "unat (drop_bit 4 f) = m" using m by (simp add: drop_bit_eq_div unat_div)
  then have m0: "drop_bit 4 f \<noteq> 0" "ucast (drop_bit 4 f) \<noteq> (0 :: u64)"
    using m(2) by (metis unat_0 less_irrefl, metis unat_ucast_widen(4) unat_0 less_irrefl)
  have b0: "baud \<noteq> 0" using b by (metis unat_0 less_irrefl)
  define d where "d = min (drop_bit 4 f div baud) 8192"
  have ud: "unat d = baud_divider m b"
    unfolding d_def baud_divider_def using um b by (simp add: min_def word_le_nat_alt unat_div)
  have small: "b < 2 ^ 32" "m < 2 ^ 28" "baud_divider m b \<le> 8192"
    using b m unsigned_less [of baud, where 'a = nat] unsigned_less [of f, where 'a = nat]
    by (auto simp: baud_divider_def less_mult_imp_div_less)
  have "b * baud_divider m b \<le> 2 ^ 32 * 8192" using small by (intro mult_mono) auto
  then have "b * baud_divider m b * 512 + m div 2 < 2 ^ 64" using small(2) by simp
  then have us: "unat (ucast baud * ucast d * 512 + ucast (drop_bit 4 f div 2) :: u64) = b * baud_divider m b * 512 + m div 2"
    using small(2) by (simp add: unat_word_ariths ud unat_div um flip: b(1))
  define r :: u64 where "r = (ucast baud * ucast d * 512 + ucast (drop_bit 4 f div 2)) div ucast (drop_bit 4 f)"
  have r: "unat r = baud_fraction m b" unfolding r_def baud_fraction_def by (simp only: unat_div us unat_ucast_widen um)
  have "m div 2 div m = 0" using m(2) by (intro div_less) simp
  then have "baud_fraction m b \<le> 512"
    using baud_bounds(3) [of b m] b(2) by (cases "b \<le> m") (simp_all add: baud_fraction_def baud_divider_def)
  then have uf: "unat (ucast r :: u32) = baud_fraction m b"
    unfolding r [symmetric] by (simp add: unsigned_ucast_eq take_bit_nat_eq_self)
  then have fr: "ucast r = (of_nat (baud_fraction m b) :: u32)" "ucast r = (512 :: u32) \<longleftrightarrow> baud_fraction m b = 512"
    by (simp_all add: word_unat_eq_iff uf flip: uf)
  have d: "d = of_nat (baud_divider m b)" by (simp flip: ud)
  have "usart_set_speed E u baud s =
      seqM [wr E (USART_BG u) (d - 1), wr E (USART_FDV u) (if (ucast r :: u32) = 512 then 0 else ucast r)] t"
    unfolding d_def r_def usart_set_speed_def Let_def
    by (subst bindM_def) (simp add: c bindM_def [of "liftE _"] liftE_def divE_def m0 b0)
  moreover have "(if (ucast r :: u32) = 512 then 0 else ucast r :: u32) =
      (if baud_fraction m b = 512 then 0 else of_nat (baud_fraction m b))" unfolding fr(2) using fr(1) by simp
  ultimately show ?thesis using tr by (simp add: bindM_def t retM_def mmio_write_def d)
qed

text \<open>
  The bit rate is the nearest the divider allows. For a rate between one and the input clock
  over sixteen, \<^verbatim>\<open>usart_set_speed\<close> programs a divider \<open>d\<close> of 1 to 8192 and a fractional divider \<open>q\<close> of at
  most 512 (written as zero when it is 512, the register's encoding of that value), whose rate
  \<open>m * q / (512 * d)\<close> is off by at most half a step; unless the divider was clipped, \<open>q\<close> keeps at
  least nine significant bits.
\<close>

theorem usart_set_speed_nearest:
  fixes s :: "('h, 'z) machine_scheme"
  assumes "yields (hw s) (cpu_get_fpi1_freq E :: (('h, 'z) machine_scheme, u32) cmd) f"
    and "0 < unat baud" and "unat baud \<le> unat f div 16"
  shows "\<exists>t d q. usart_set_speed E u baud s = Inr ((), t) \<and>
    writes (drop (length (trace s)) (trace t)) = [(USART_BG u, of_nat d - 1), (USART_FDV u, if q = 512 then 0 else of_nat q)] \<and>
    1 \<le> d \<and> d \<le> 8192 \<and> q \<le> 512 \<and> (unat f div 16 div unat baud \<le> 8192 \<longrightarrow> 256 \<le> q) \<and>
    \<bar>int (unat baud * d * 512) - int (unat f div 16) * int q\<bar> * 2 \<le> int (unat f div 16)"
proof -
  let ?m = "unat f div 16" and ?b = "unat baud"
  note bounds = baud_bounds [OF assms(2,3)]
  have m: "0 < ?m" using assms(2,3) by linarith
  obtain t where "usart_set_speed E u baud s = Inr ((), t)" "writes (drop (length (trace s)) (trace t)) =
      [(USART_BG u, of_nat (baud_divider ?m ?b) - 1),
       (USART_FDV u, if baud_fraction ?m ?b = 512 then 0 else of_nat (baud_fraction ?m ?b))]"
    using set_speed_writes [OF assms(1) refl refl m refl assms(2), of u] by blast
  moreover have "\<bar>int (?b * baud_divider ?m ?b * 512) - int ?m * int (baud_fraction ?m ?b)\<bar> * 2 \<le> int ?m"
    unfolding baud_fraction_def by (rule nearest [OF m])
  moreover have "baud_divider ?m ?b \<le> 8192" by (simp add: baud_divider_def)
  ultimately show ?thesis using bounds by blast
qed

lemma fpi1_osc: "stable E h CGU_CON1 0 \<Longrightarrow> yields h (cpu_get_fpi1_freq E) CPU_OSC_FREQ"
  by (rule yieldsI) (simp add: cpu_get_fpi1_freq_def wp stable_def)

abbreviation (input) blank :: "'h \<Rightarrow> 'h machine" where
  "blank h \<equiv> \<lparr>hw = h, trace = [], cpsr = 0, ram = (\<lambda>_. 0)\<rparr>"

theorem usart_set_speed_nearest_witness:
  "\<exists>t d q. usart_set_speed (const_dev (\<lambda>_. 0)) USART0 115200 (blank ()) = Inr ((), t) \<and>
    writes (trace t) = [(USART_BG USART0, of_nat d - 1), (USART_FDV USART0, if q = 512 then 0 else of_nat q)] \<and>
    1 \<le> d \<and> d \<le> 8192 \<and> q \<le> 512 \<and> 256 \<le> q \<and> \<bar>int (115200 * d * 512) - 1625000 * int q\<bar> * 2 \<le> 1625000"
  using usart_set_speed_nearest [of "blank ()" "const_dev (\<lambda>_. 0)" CPU_OSC_FREQ 115200 USART0,
      OF fpi1_osc [OF stable_const_dev]]
  by simp

lemma minus_one: "(- 1 :: u32) = 0xFFFFFFFF"
  by simp

text \<open>
  The rates that \<^verbatim>\<open>usart_set_speed\<close> does not handle: a rate of zero is a division by zero, and so is a
  stopped input clock; for a rate above the input clock over sixteen the divider is zero, and the
  register gets its predecessor, \<open>0xFFFFFFFF\<close>.
\<close>

theorem usart_set_speed_unchecked:
  fixes s :: "('h, 'z) machine_scheme"
  assumes "yields (hw s) (cpu_get_fpi1_freq E :: (('h, 'z) machine_scheme, u32) cmd) f"
  shows "usart_set_speed E u 0 s = Inl Div_By_Zero \<and>
    (0 < unat f div 16 \<and> unat f div 16 < unat baud \<longrightarrow>
      (\<exists>t. usart_set_speed E u baud s = Inr ((), t) \<and>
        writes (drop (length (trace s)) (trace t)) = [(USART_BG u, 0xFFFFFFFF), (USART_FDV u, 0)]))"
proof (intro conjI impI)
  obtain t where "(cpu_get_fpi1_freq E :: (('h, 'z) machine_scheme, u32) cmd) s = Inr (f, t)"
    using assms unfolding yields_def by blast
  then show "usart_set_speed E u 0 s = Inl Div_By_Zero"
    by (simp add: usart_set_speed_def bindM_def Let_def liftE_def divE_def)
next
  assume m: "0 < unat f div 16 \<and> unat f div 16 < unat baud"
  then have z: "baud_divider (unat f div 16) (unat baud) = 0" "unat f div 16 div 2 div (unat f div 16) = 0"
    by (simp_all add: baud_divider_def div_less)
  then have "baud_fraction (unat f div 16) (unat baud) = 0" by (simp add: baud_fraction_def)
  moreover have "0 < unat baud" using m by linarith
  ultimately show "\<exists>t. usart_set_speed E u baud s = Inr ((), t) \<and>
      writes (drop (length (trace s)) (trace t)) = [(USART_BG u, 0xFFFFFFFF), (USART_FDV u, 0)]"
    using set_speed_writes [OF assms refl refl _ refl, of baud u] m z(1) minus_one by simp
qed

theorem usart_set_speed_unchecked_witness:
  "usart_set_speed (const_dev (\<lambda>_. 0)) USART0 0 (blank ()) = Inl Div_By_Zero \<and>
   (\<exists>t. usart_set_speed (const_dev (\<lambda>_. 0)) USART0 2000000 (blank ()) = Inr ((), t) \<and>
      writes (trace t) = [(USART_BG USART0, 0xFFFFFFFF), (USART_FDV USART0, 0)])"
  using usart_set_speed_unchecked [of "blank ()" "const_dev (\<lambda>_. 0)" CPU_OSC_FREQ USART0 2000000,
      OF fpi1_osc [OF stable_const_dev]]
  by simp

theorem usart_write_returns_witness:
  "\<exists>t. usart_write (const_dev (\<lambda>_. 0)) USART0 [1, 2, 3] (blank ()) = Inr ((), t) \<and>
     written (USART_TXB USART0) (trace t) = [1, 2, 3]"
  using usart_write_returns [where E = "const_dev (\<lambda>_. 0)" and wait = "\<lambda>_. 0" and n = 0 and u = USART0
      and bs = "[1, 2, 3]" and s = "blank ()"]
  by (simp add: polls_ready_def const_dev_def)

theorem usart_read_returns_witness:
  "\<exists>bs t. usart_read (const_dev (\<lambda>_. 1)) USART0 5 (blank ()) = Inr (bs, t) \<and> length bs = 5"
  using usart_read_returns [where E = "const_dev (\<lambda>_. 1)" and wait = "\<lambda>_. 0" and n = 0 and u = USART0
      and k = 5 and s = "blank ()"]
  by (simp add: polls_ready_def const_dev_def)

section \<open>The port as an interface\<close>

text \<open>
  What the protocols above the port rely on: a command that sends bytes appends them to what
  has been sent. A message sent piece by piece is then the concatenation of its pieces.
\<close>

locale serial_port =
  fixes send :: "u8 list \<Rightarrow> ('s, unit) cmd" and sent :: "'s \<Rightarrow> u8 list"
  assumes send_appends: "wlpM (send bs) (\<lambda>_ t. sent t = sent s @ bs) s"
begin

lemma send_pieces: "wlpM (forM bss send) (\<lambda>_ t. sent t = sent s @ concat bss) s"
proof (induction bss arbitrary: s)
  case (Cons bs bss)
  have "wlpM (forM bss send) (\<lambda>_ t. sent t = sent s @ bs @ concat bss) u" if "sent u = sent s @ bs" for u
    using Cons [of u] by (rule wlp_mono) (simp add: that)
  then show ?case by (auto simp: wp_bind intro: wlp_mono [OF send_appends])
qed simp

lemma send_seq: "wlpM (seqM (map send bss)) (\<lambda>_ t. sent t = sent s @ concat bss) s"
proof -
  have "seqM (map send bss) = forM bss send" by (induction bss) simp_all
  then show ?thesis using send_pieces by simp
qed

end

definition usart_sent :: "u32 \<Rightarrow> ('h, 'z) machine_scheme \<Rightarrow> u8 list" where
  "usart_sent u s = map ucast (written (USART_TXB u) (trace s))"

interpretation usart_port: serial_port "usart_write E u" "usart_sent u" for E u
proof
  fix bs s
  show "wlpM (usart_write E u bs) (\<lambda>_ t. usart_sent u t = usart_sent u s @ bs) s"
    by (rule logs_wlp [OF logs_usart_write]) (auto simp: usart_sent_def tx_spec_def written_writes comp_def ucast_widen_back)
qed

end
