(* ===== verification/Stopwatch.thy ===== *)
theory Stopwatch
  imports Cpu_Clock
begin

text \<open>
  Time measurement on the free-running system timer (\<^verbatim>\<open>src/lib/stopwatch.c\<close>,
  \<^verbatim>\<open>src/lib/stopwatch.h\<close>). The static variable \<^verbatim>\<open>ticks_per_s\<close> is a field of the state.
\<close>

section \<open>Definitions\<close>

record 'h timed = "'h machine" +
  ticks_per_s :: u32

definition stopwatch_update :: "'h env \<Rightarrow> (('h, 'z) timed_scheme, unit) cmd" where
  "stopwatch_update E = bindM (cpu_get_stm_freq E) (\<lambda>f. modM (\<lambda>s. s\<lparr>ticks_per_s := f\<rparr>))"

definition stopwatch_init :: "'h env \<Rightarrow> (('h, 'z) timed_scheme, unit) cmd" where
  "stopwatch_init E = stopwatch_update E"

text \<open>The two halves of the counter are two reads, the upper one first.\<close>

definition stopwatch_get :: "'h env \<Rightarrow> (('h, 'z) machine_scheme, u64) cmd" where
  "stopwatch_get E =
     bindM (rd E STM_TIM6) (\<lambda>high. bindM (rd E STM_TIM0) (\<lambda>low.
     retM (push_bit 32 (ucast high) OR ucast low)))"

definition stopwatch_deadline :: "'h env \<Rightarrow> u32 \<Rightarrow> (('h, 'z) timed_scheme, u64) cmd" where
  "stopwatch_deadline E us =
     bindM (stopwatch_get E) (\<lambda>now. bindM (getM ticks_per_s) (\<lambda>tps.
     retM (now + ucast us * ucast tps div 1000000)))"

definition stopwatch_usleep :: "'h env \<Rightarrow> u32 \<Rightarrow> (('h, 'z) timed_scheme, unit) cmd" where
  "stopwatch_usleep E us =
     bindM (stopwatch_deadline E us) (\<lambda>deadline.
     whileM (fuel E) (mapM (\<lambda>now. now \<le> deadline) (stopwatch_get E)) (retM ()))"

definition stopwatch_elapsed :: "'h env \<Rightarrow> u64 \<Rightarrow> (('h, 'z) machine_scheme, u64) cmd" where
  "stopwatch_elapsed E start = mapM (\<lambda>now. now - start) (stopwatch_get E)"

definition stopwatch_scaled :: "'h env \<Rightarrow> u64 \<Rightarrow> u64 \<Rightarrow> (('h, 'z) timed_scheme, u32) cmd" where
  "stopwatch_scaled E scale start =
     bindM (stopwatch_elapsed E start) (\<lambda>d. bindM (getM ticks_per_s) (\<lambda>tps.
     mapM ucast (liftE (divE (d * scale) (ucast tps)))))"

definition stopwatch_elapsed_us :: "'h env \<Rightarrow> u64 \<Rightarrow> (('h, 'z) timed_scheme, u32) cmd" where
  "stopwatch_elapsed_us E start = stopwatch_scaled E 1000000 start"

definition stopwatch_elapsed_ms :: "'h env \<Rightarrow> u64 \<Rightarrow> (('h, 'z) timed_scheme, u32) cmd" where
  "stopwatch_elapsed_ms E start = stopwatch_scaled E 1000 start"

definition stopwatch_elapsed_s :: "'h env \<Rightarrow> u64 \<Rightarrow> (('h, 'z) timed_scheme, u32) cmd" where
  "stopwatch_elapsed_s E start = stopwatch_scaled E 1 start"

definition stopwatch_ticks_per_us :: "(('h, 'z) timed_scheme, u32) cmd" where
  "stopwatch_ticks_per_us = getM (\<lambda>s. ticks_per_s s div 1000000)"

definition stopwatch_ticks_per_ms :: "(('h, 'z) timed_scheme, u32) cmd" where
  "stopwatch_ticks_per_ms = getM (\<lambda>s. ticks_per_s s div 1000)"

definition stopwatch_ticks_per_s :: "(('h, 'z) timed_scheme, u32) cmd" where
  "stopwatch_ticks_per_s = getM ticks_per_s"

definition stopwatch_msleep :: "'h env \<Rightarrow> u32 \<Rightarrow> (('h, 'z) timed_scheme, unit) cmd" where
  "stopwatch_msleep E ms = stopwatch_usleep E (ms * 1000)"

definition stopwatch_sleep :: "'h env \<Rightarrow> u32 \<Rightarrow> (('h, 'z) timed_scheme, unit) cmd" where
  "stopwatch_sleep E s = stopwatch_usleep E (s * 1000000)"

section \<open>Reading the counter\<close>

lemma reader_stopwatch_get [readers]: "reader (stopwatch_get E)"
  unfolding stopwatch_get_def by (intro readers)

lemma reader_stopwatch_elapsed [readers]: "reader (stopwatch_elapsed E start)"
  unfolding stopwatch_elapsed_def by (intro readers)

text \<open>
  The system timer: a counter \<open>now\<close> that the low and the high register show parts of, and that
  every bus access advances by at least one and at most \<open>step\<close> ticks.
\<close>

definition stm_timer :: "'h env \<Rightarrow> ('h \<Rightarrow> nat) \<Rightarrow> nat \<Rightarrow> bool" where
  "stm_timer E now step \<longleftrightarrow>
     (\<forall>h. fst (dev_read E W32 STM_TIM0 h) = of_nat (now h) \<and>
          fst (dev_read E W32 STM_TIM6 h) = of_nat (now h div 2 ^ 32)) \<and>
     (\<forall>w a h. now h < now (snd (dev_read E w a h)) \<and> now (snd (dev_read E w a h)) \<le> now h + step)"

lemma join_halves:
  "unat (push_bit 32 (ucast (of_nat (a div 2 ^ 32) :: u32)) OR ucast (of_nat b :: u32) :: u64) =
     (a div 2 ^ 32) mod 2 ^ 32 * 2 ^ 32 + b mod 2 ^ 32"
proof -
  let ?h = "push_bit 32 (ucast (of_nat (a div 2 ^ 32) :: u32)) :: u64" and ?l = "ucast (of_nat b :: u32) :: u64"
  have "\<not> bit ?l n" if "32 \<le> n" for n
    using that bit_imp_le_length [of "of_nat b :: u32" n] by (auto simp: bit_ucast_iff)
  then have "?h AND ?l = 0"
    by (intro bit_word_eqI) (simp add: bit_and_iff bit_push_bit_iff)
  then have "?h OR ?l = ?h + ?l" by (simp add: disjunctive_add_eq_or)
  moreover have "unat ?l = b mod 2 ^ 32" by (simp add: unat_of_nat)
  moreover have "unat ?h = (a div 2 ^ 32) mod 2 ^ 32 * 2 ^ 32"
    by (simp add: unat_of_nat push_bit_eq_mult unat_word_ariths)
  ultimately show ?thesis by (simp add: unat_word_ariths)
qed

lemma wp_stopwatch_get:
  assumes "stm_timer E now step" and "now (hw s) < 2 ^ 64"
    and "\<And>n2 v t. now (hw s) < n2 \<Longrightarrow> n2 \<le> now (hw s) + step \<Longrightarrow> n2 < now (hw t) \<Longrightarrow> now (hw t) \<le> n2 + step \<Longrightarrow>
      unat v = now (hw s) div 2 ^ 32 * 2 ^ 32 + n2 mod 2 ^ 32 \<Longrightarrow>
      io_only s t \<Longrightarrow> Q v t"
  shows "wpM (stopwatch_get E) Q s"
proof -
  obtain h1 where r1: "dev_read E W32 STM_TIM6 (hw s) = (of_nat (now (hw s) div 2 ^ 32), h1)"
    and h1: "now (hw s) < now h1" "now h1 \<le> now (hw s) + step"
    using assms(1) unfolding stm_timer_def by (metis prod.collapse)
  obtain h2 where r2: "dev_read E W32 STM_TIM0 h1 = (of_nat (now h1), h2)"
    and h2: "now h1 < now h2" "now h2 \<le> now h1 + step"
    using assms(1) unfolding stm_timer_def by (metis prod.collapse)
  have "now (hw s) div 2 ^ 32 < 2 ^ 32" using assms(2) by (simp add: less_mult_imp_div_less)
  then have "unat (push_bit 32 (ucast (of_nat (now (hw s) div 2 ^ 32) :: u32)) OR ucast (of_nat (now h1) :: u32) :: u64) =
      now (hw s) div 2 ^ 32 * 2 ^ 32 + now h1 mod 2 ^ 32"
    by (subst join_halves) simp
  with r1 r2 h1 h2 show ?thesis
    unfolding stopwatch_get_def by (simp only: wp) (simp add: assms(3))
qed


text \<open>A timer that counts the bus accesses.\<close>

definition counting_timer :: "nat env" where
  "counting_timer = \<lparr>dev_read = (\<lambda>w a n. (if a = STM_TIM6 then of_nat (n div 2 ^ 32) else of_nat n, Suc n)),
     dev_write = (\<lambda>w a v n. n), fuel = 100, cpu = PMB8876, pm_wadog = False, pmic = PMIC_none\<rparr>"

lemma stm_counting_timer: "stm_timer counting_timer (\<lambda>n. n) 1"
  by (simp add: stm_timer_def counting_timer_def)


section \<open>Sleeping\<close>

lemma unat_ticks: "unat (ucast (us :: u32) * ucast (tps :: u32) div 1000000 :: u64) = unat us * unat tps div 1000000"
proof -
  have "unat us * unat tps \<le> (2 ^ 32 - 1) * (2 ^ 32 - 1)"
    using unsigned_less [of us, where 'a = nat] unsigned_less [of tps, where 'a = nat]
    by (intro mult_le_mono) (simp_all add: less_eq_Suc_le)
  then have "unat us * unat tps < 2 ^ 64" by simp
  then show ?thesis by (simp add: unat_div unat_word_ariths)
qed

lemma same_window:
  fixes a b m :: nat
  assumes "a div 2 ^ 32 = b div 2 ^ 32" "a \<le> m" "m \<le> b"
  shows "m div 2 ^ 32 = a div 2 ^ 32"
  using assms div_le_mono [of a m "2 ^ 32"] div_le_mono [of m b "2 ^ 32"] by simp

lemma io_only_ticks: "io_only s t \<Longrightarrow> ticks_per_s t = ticks_per_s s"
  unfolding io_only_def by (drule arg_cong [of _ _ ticks_per_s]) simp

text \<open>Away from a rollover a reading is the counter at some moment of the call.\<close>

lemma wp_stopwatch_window:
  assumes "stm_timer E now step" and "now (hw s) < 2 ^ 64"
    and "a \<le> now (hw s)" "now (hw s) + step \<le> b" "a div 2 ^ 32 = b div 2 ^ 32"
    and "\<And>v t. now (hw s) < unat v \<Longrightarrow> unat v \<le> now (hw s) + step \<Longrightarrow> unat v < now (hw t) \<Longrightarrow>
      now (hw t) \<le> unat v + step \<Longrightarrow> io_only s t \<Longrightarrow> Q v t"
  shows "wpM (stopwatch_get E) Q s"
proof (rule wp_stopwatch_get [OF assms(1,2)])
  fix n :: nat and v :: u64 and t :: "('a, 'b) machine_scheme"
  assume n: "now (hw s) < n" "n \<le> now (hw s) + step"
    and rest: "n < now (hw t)" "now (hw t) \<le> n + step" "io_only s t"
    and v: "unat v = now (hw s) div 2 ^ 32 * 2 ^ 32 + n mod 2 ^ 32"
  have "now (hw s) div 2 ^ 32 = n div 2 ^ 32"
    using same_window [OF assms(5), of n] same_window [OF assms(5), of "now (hw s)"] n assms(3,4) by simp
  then have "unat v = n" unfolding v by simp
  with n rest assms(6) show "Q v t" by simp
qed



end
