(* ===== verification/Wdt.thy ===== *)
theory Wdt
  imports Stopwatch Core_Io
begin

text \<open>
  The watchdog (\<^verbatim>\<open>src/lib/wdt.c\<close>): the password-protected on-chip watchdog, or, on boards with
  \<^verbatim>\<open>GPIO_PM_WADOG\<close>, a pin of the power-management chip that has to be toggled. The static
  variables are the fields of the state. The record extends the stopwatch's.
\<close>

section \<open>Definitions\<close>

record 'h watched = "'h timed" +
  start_execution :: u64
  wdt_timeout :: u32
  last_wdt_serve :: u64
  wdt_interval :: u32
  wdt_off :: bool

abbreviation (input) WDT_CLOCK_DIVIDER :: u32 where "WDT_CLOCK_DIVIDER \<equiv> 16384"
abbreviation (input) WDT_MAX_TICKS :: u32 where "WDT_MAX_TICKS \<equiv> 0x10000"
abbreviation (input) WDT_MIN_TICKS :: u32 where "WDT_MIN_TICKS \<equiv> 4"
abbreviation (input) WDT_TIMEOUT_FACTOR :: u32 where "WDT_TIMEOUT_FACTOR \<equiv> 4"

definition cpu_wdt_reload_for_ms :: "u32 \<Rightarrow> u32" where
  "cpu_wdt_reload_for_ms ms =
     (let clock = CPU_OSC_FREQ div WDT_CLOCK_DIVIDER;
          ticks = (if ms < 60000 then clock * ms div 1000 else WDT_MAX_TICKS);
          ticks = (if ticks < WDT_MIN_TICKS then WDT_MIN_TICKS else ticks);
          ticks = (if ticks > WDT_MAX_TICKS then WDT_MAX_TICKS else ticks)
      in (WDT_MAX_TICKS - ticks) AND 0xFFFF)"

definition cpu_wdt_get_reload :: "'h env \<Rightarrow> (('h, 'z) machine_scheme, u32) cmd" where
  "cpu_wdt_get_reload E = field E SCU_WDTCON0 SCU_WDTCON0_WDTREL SCU_WDTCON0_WDTREL_SHIFT"

definition wdt_password_word :: "u32 \<Rightarrow> u32 \<Rightarrow> u32" where
  "wdt_password_word con0 con1 =
     (con0 AND (SCU_WDTCON0_WDTREL OR SCU_WDTCON0_WDTPW OR SCU_WDTCON0_ENDINIT)) OR
     SCU_WDTCON0_WDTHPW1 OR (con1 AND (SCU_WDTCON1_WDTIR OR SCU_WDTCON1_WDTDR))"

definition cpu_wdt_password_access :: "'h env \<Rightarrow> (('h, 'z) machine_scheme, unit) cmd" where
  "cpu_wdt_password_access E =
     bindM (rd E SCU_WDTCON0) (\<lambda>con0. bindM (rd E SCU_WDTCON1) (\<lambda>con1.
     wr E SCU_WDTCON0 (wdt_password_word con0 con1)))"

definition wdt_modify_word :: "u32 \<Rightarrow> bool \<Rightarrow> u32 \<Rightarrow> u32" where
  "wdt_modify_word reload endinit con0 =
     push_bit SCU_WDTCON0_WDTREL_SHIFT reload OR (con0 AND SCU_WDTCON0_WDTPW) OR
     SCU_WDTCON0_WDTHPW1 OR SCU_WDTCON0_WDTLCK OR (if endinit then SCU_WDTCON0_ENDINIT else 0)"

definition cpu_wdt_modify_access :: "'h env \<Rightarrow> u32 \<Rightarrow> bool \<Rightarrow> (('h, 'z) machine_scheme, unit) cmd" where
  "cpu_wdt_modify_access E reload endinit = rmw E SCU_WDTCON0 (wdt_modify_word reload endinit)"

definition cpu_wdt_set_mode :: "'h env \<Rightarrow> u32 \<Rightarrow> u32 \<Rightarrow> (('h, 'z) machine_scheme, unit) cmd" where
  "cpu_wdt_set_mode E reload con1 =
     bindM (cpu_enable_irq False) (\<lambda>irq_was_disabled.
     seqM [cpu_wdt_password_access E,
           cpu_wdt_modify_access E reload False,
           wr E SCU_WDTCON1 con1,
           cpu_wdt_password_access E,
           cpu_wdt_modify_access E reload True,
           mapM (\<lambda>_. ()) (cpu_enable_irq (\<not> irq_was_disabled))])"

definition cpu_wdt_reload :: "'h env \<Rightarrow> (('h, 'z) machine_scheme, unit) cmd" where
  "cpu_wdt_reload E =
     bindM (cpu_enable_irq False) (\<lambda>irq_was_disabled.
     bindM (cpu_wdt_get_reload E) (\<lambda>reload.
     seqM [cpu_wdt_password_access E,
           cpu_wdt_modify_access E reload True,
           mapM (\<lambda>_. ()) (cpu_enable_irq (\<not> irq_was_disabled))]))"

definition cpu_wdt_disable :: "'h env \<Rightarrow> (('h, 'z) machine_scheme, unit) cmd" where
  "cpu_wdt_disable E = bindM (cpu_wdt_get_reload E) (\<lambda>reload. cpu_wdt_set_mode E reload SCU_WDTCON1_WDTDR)"

definition wdt_set_interval :: "u32 \<Rightarrow> (('h, 'z) watched_scheme, unit) cmd" where
  "wdt_set_interval interval = modM (\<lambda>s. s\<lparr>wdt_interval := if interval \<noteq> 0 then interval else 1\<rparr>)"

definition mark_served :: "'h env \<Rightarrow> (('h, 'z) watched_scheme, unit) cmd" where
  "mark_served E = bindM (stopwatch_get E) (\<lambda>now. modM (\<lambda>s. s\<lparr>last_wdt_serve := now\<rparr>))"

definition wdt_init_custom :: "'h env \<Rightarrow> u32 \<Rightarrow> (('h, 'z) watched_scheme, unit) cmd" where
  "wdt_init_custom E interval =
     seqM [stopwatch_init E,
           wdt_set_interval interval,
           modM (\<lambda>s. s\<lparr>wdt_off := False\<rparr>),
           if pm_wadog E then
               seqM [cpu_wdt_disable E,
                     bindM (rd E (GPIO_PIN GPIO_PM_WADOG)) (\<lambda>pin.
                     whenM (pin AND (GPIO_PS OR GPIO_DIR) \<noteq> (GPIO_PS_MANUAL OR GPIO_DIR_OUT))
                       (wr E (GPIO_PIN GPIO_PM_WADOG) (GPIO_PS_MANUAL OR GPIO_DIR_OUT OR GPIO_DATA_HIGH))),
                     mark_served E]
           else
               seqM [mark_served E,
                     bindM (getM wdt_interval) (\<lambda>i.
                     cpu_wdt_set_mode E (cpu_wdt_reload_for_ms (i * WDT_TIMEOUT_FACTOR)) 0)]]"

definition wdt_init :: "'h env \<Rightarrow> (('h, 'z) watched_scheme, unit) cmd" where
  "wdt_init E = wdt_init_custom E 550"

definition wdt_disable :: "'h env \<Rightarrow> (('h, 'z) watched_scheme, unit) cmd" where
  "wdt_disable E =
     (if \<not> pm_wadog E then seqM [modM (\<lambda>s. s\<lparr>wdt_off := True\<rparr>), cpu_wdt_disable E] else retM ())"

definition wdt_set_max_execution_time :: "'h env \<Rightarrow> u32 \<Rightarrow> (('h, 'z) watched_scheme, unit) cmd" where
  "wdt_set_max_execution_time E ms =
     seqM [bindM (stopwatch_get E) (\<lambda>now. modM (\<lambda>s. s\<lparr>start_execution := now\<rparr>)),
           modM (\<lambda>s. s\<lparr>wdt_timeout := ms\<rparr>)]"

definition wdt_feed :: "'h env \<Rightarrow> (('h, 'z) watched_scheme, unit) cmd" where
  "wdt_feed E =
     seqM [if pm_wadog E then gpio_toggle E GPIO_PM_WADOG else cpu_wdt_reload E,
           mark_served E]"

definition wdt_serve :: "'h env \<Rightarrow> (('h, 'z) watched_scheme, unit) cmd" where
  "wdt_serve E =
     bindM (getM wdt_off) (\<lambda>off. if off then retM () else
     bindM (getM last_wdt_serve) (\<lambda>last. bindM (stopwatch_elapsed_ms E last) (\<lambda>since.
     bindM (getM wdt_interval) (\<lambda>interval. if since < interval then retM () else
     bindM (getM wdt_timeout) (\<lambda>limit.
     bindM (if limit \<noteq> 0
            then bindM (getM start_execution) (\<lambda>start.
                 mapM (\<lambda>t. t \<ge> limit) (stopwatch_elapsed_ms E start))
            else retM False) (\<lambda>expired.
     if expired then retM () else wdt_feed E))))))"

definition stopwatch_usleep_wd :: "'h env \<Rightarrow> u32 \<Rightarrow> (('h, 'z) watched_scheme, unit) cmd" where
  "stopwatch_usleep_wd E us =
     bindM (stopwatch_deadline E us) (\<lambda>deadline.
     whileM (fuel E) (mapM (\<lambda>now. now \<le> deadline) (stopwatch_get E)) (wdt_serve E))"

definition stopwatch_msleep_wd :: "'h env \<Rightarrow> u32 \<Rightarrow> (('h, 'z) watched_scheme, unit) cmd" where
  "stopwatch_msleep_wd E ms = stopwatch_usleep_wd E (ms * 1000)"

definition stopwatch_sleep_wd :: "'h env \<Rightarrow> u32 \<Rightarrow> (('h, 'z) watched_scheme, unit) cmd" where
  "stopwatch_sleep_wd E s = stopwatch_usleep_wd E (s * 1000000)"

section \<open>The reload value\<close>

text \<open>
  The time-out programmed for \<open>ms\<close> milliseconds: the counter starts at the reload value and
  resets the CPU after \<open>0x10000 - reload\<close> clocks of \<open>26 MHz / 16384\<close>. The reload value fits its 16-bit field,
  the watchdog never bites in fewer than 4 clocks, and up to the longest time the counter can
  hold the number of clocks is exactly \<open>1586 * ms / 1000\<close> rounded down.
\<close>

theorem wdt_reload_exact:
  "unat (cpu_wdt_reload_for_ms ms) < 2 ^ 16 \<and>
   0x10000 - unat (cpu_wdt_reload_for_ms ms) = max 4 (min 0x10000 (1586 * unat ms div 1000))"
proof -
  define ticks where "ticks = (if ms < 60000 then 1586 * ms div 1000 else 0x10000)"
  define clamped where "clamped = (if (if ticks < 4 then 4 else ticks) > 0x10000 then 0x10000 else if ticks < 4 then 4 else ticks)"
  have "unat ticks = (if unat ms < 60000 then 1586 * unat ms div 1000 else 0x10000)"
    by (simp add: ticks_def word_less_nat_alt unat_div unat_word_ariths)
  then have c: "unat clamped = max 4 (min 0x10000 (1586 * unat ms div 1000))"
    by (auto simp: clamped_def word_less_nat_alt)
  have "unat ((0x10000 - clamped) AND 0xFFFF) = (0x10000 - unat clamped) mod 0x10000"
  proof -
    have "(0x10000 - clamped) AND 0xFFFF = take_bit 16 (0x10000 - clamped)" by (simp add: take_bit_eq_mask mask_eq_decr_exp)
    moreover have "clamped \<le> 0x10000" using c by (simp add: word_le_nat_alt)
    ultimately show ?thesis by (simp add: unat_sub take_bit_eq_mod unat_mod)
  qed
  moreover have "cpu_wdt_reload_for_ms ms = (0x10000 - clamped) AND 0xFFFF"
    unfolding cpu_wdt_reload_for_ms_def clamped_def ticks_def Let_def by simp
  ultimately show ?thesis using c by (simp add: max_def min_def)
qed

section \<open>The protected registers\<close>

text \<open>
  What an arbitrary device lets the watchdog routines do: the values read are arbitrary, the
  accesses and their order are fixed.
\<close>

lemma wp_passwordI:
  "(\<And>a b h. Q () (s\<lparr>hw := h, trace := trace s @
      [Rd W32 SCU_WDTCON0 a, Rd W32 SCU_WDTCON1 b, Wr W32 SCU_WDTCON0 (wdt_password_word a b)]\<rparr>)) \<Longrightarrow>
   wpM (cpu_wdt_password_access E) Q s"
  unfolding cpu_wdt_password_access_def wp_bind by (intro wp_readI wp_writeI) simp

lemma wp_modifyI:
  "(\<And>a h. Q () (s\<lparr>hw := h, trace := trace s @
      [Rd W32 SCU_WDTCON0 a, Wr W32 SCU_WDTCON0 (wdt_modify_word reload endinit a)]\<rparr>)) \<Longrightarrow>
   wpM (cpu_wdt_modify_access E reload endinit) Q s"
  unfolding cpu_wdt_modify_access_def rmw_def wp_bind by (intro wp_readI wp_writeI) simp

lemma wdt_words:
  "\<not> bit (wdt_password_word a b) 1"
  "bit (wdt_modify_word reload e c) 1"
  "bit (wdt_modify_word reload e c) 0 \<longleftrightarrow> e"
  by (auto simp: wdt_password_word_def wdt_modify_word_def bit_or_iff bit_and_iff bit_push_bit_iff)

text \<open>The accesses of a change of mode, with the values \<open>a0 .. d\<close> that the device returns.\<close>

definition mode_accesses :: "u32 \<Rightarrow> u32 \<Rightarrow> u32 \<Rightarrow> u32 \<Rightarrow> u32 \<Rightarrow> u32 \<Rightarrow> u32 \<Rightarrow> u32 \<Rightarrow> u32 \<Rightarrow> access list" where
  "mode_accesses c reload con1 a0 a1 b c0 c1 d =
     [Msr (c OR 0x80),
      Rd W32 SCU_WDTCON0 a0, Rd W32 SCU_WDTCON1 a1, Wr W32 SCU_WDTCON0 (wdt_password_word a0 a1),
      Rd W32 SCU_WDTCON0 b, Wr W32 SCU_WDTCON0 (wdt_modify_word reload False b),
      Wr W32 SCU_WDTCON1 con1,
      Rd W32 SCU_WDTCON0 c0, Rd W32 SCU_WDTCON1 c1, Wr W32 SCU_WDTCON0 (wdt_password_word c0 c1),
      Rd W32 SCU_WDTCON0 d, Wr W32 SCU_WDTCON0 (wdt_modify_word reload True d),
      Msr c]"

lemma wp_cpu_wdt_set_modeI:
  assumes "\<And>a0 a1 b c0 c1 d h. Q () (s\<lparr>hw := h, trace := trace s @ mode_accesses (cpsr s) reload con1 a0 a1 b c0 c1 d\<rparr>)"
  shows "wpM (cpu_wdt_set_mode E reload con1) Q s"
  unfolding cpu_wdt_set_mode_def wp_bind wp_seq wp_map wp_cpu_enable_irq
  using assms
  by (cases "cpsr s AND 0x80 = 0"; intro wp_passwordI wp_modifyI wp_writeI;
      simp add: irq_restore [simplified] mode_accesses_def)

lemma wp_cpu_wdt_reloadI:
  assumes "\<And>r a0 a1 d h. Q () (s\<lparr>hw := h, trace := trace s @
    [Msr (cpsr s OR 0x80), Rd W32 SCU_WDTCON0 r,
     Rd W32 SCU_WDTCON0 a0, Rd W32 SCU_WDTCON1 a1, Wr W32 SCU_WDTCON0 (wdt_password_word a0 a1),
     Rd W32 SCU_WDTCON0 d, Wr W32 SCU_WDTCON0 (wdt_modify_word (drop_bit 16 (r AND SCU_WDTCON0_WDTREL)) True d),
     Msr (cpsr s)]\<rparr>)"
  shows "wpM (cpu_wdt_reload E) Q s"
  unfolding cpu_wdt_reload_def cpu_wdt_get_reload_def field_def wp_bind wp_seq wp_map wp_cpu_enable_irq
  using assms
  by (cases "cpsr s AND 0x80 = 0"; intro wp_passwordI wp_modifyI wp_readI; simp add: irq_restore [simplified])

text \<open>
  \<^verbatim>\<open>cpu_wdt_set_mode\<close> performs the unlock sequence of the system control unit and nothing
  else: interrupts are masked before the first access and the status register is as before at
  the end; \<^verbatim>\<open>WDTCON1\<close> is written once, between a modify access that clears \<^verbatim>\<open>ENDINIT\<close> and the
  password access that precedes the modify access that sets it again. Every password access
  leaves the lock bit clear, every modify access sets it.
\<close>

theorem wdt_set_mode_protocol:
  "wpM (cpu_wdt_set_mode E reload con1) (\<lambda>_ t. cpsr t = cpsr s \<and>
     (\<exists>a0 a1 b c0 c1 d. trace t = trace s @
       [Msr (cpsr s OR 0x80),
        Rd W32 SCU_WDTCON0 a0, Rd W32 SCU_WDTCON1 a1, Wr W32 SCU_WDTCON0 (wdt_password_word a0 a1),
        Rd W32 SCU_WDTCON0 b, Wr W32 SCU_WDTCON0 (wdt_modify_word reload False b),
        Wr W32 SCU_WDTCON1 con1,
        Rd W32 SCU_WDTCON0 c0, Rd W32 SCU_WDTCON1 c1, Wr W32 SCU_WDTCON0 (wdt_password_word c0 c1),
        Rd W32 SCU_WDTCON0 d, Wr W32 SCU_WDTCON0 (wdt_modify_word reload True d),
        Msr (cpsr s)])) s \<and>
   (\<forall>a b e. \<not> bit (wdt_password_word a b) 1 \<and> bit (wdt_modify_word reload e a) 1 \<and>
     (bit (wdt_modify_word reload e a) 0 \<longleftrightarrow> e))"
  unfolding mode_accesses_def [symmetric]
  by (rule conjI, rule wp_cpu_wdt_set_modeI) (simp, blast, use wdt_words in blast)

section \<open>Serving\<close>

text \<open>The milliseconds between two readings of the counter, as the stopwatch computes them.\<close>

definition ms_between :: "u64 \<Rightarrow> u64 \<Rightarrow> u32 \<Rightarrow> u32" where
  "ms_between start now tps = ucast ((now - start) * 1000 div ucast tps)"

lemma wp_stopwatch_getI:
  assumes "\<And>now h tr. writes tr = [] \<Longrightarrow> Q now (s\<lparr>hw := h, trace := trace s @ tr\<rparr>)"
  shows "wpM (stopwatch_get E) Q s"
  unfolding stopwatch_get_def wp_bind wp_ret by (intro wp_readI) (simp add: assms)

lemma wp_elapsed_msI:
  assumes "ticks_per_s s \<noteq> 0"
    and "\<And>now h tr. writes tr = [] \<Longrightarrow> Q (ms_between start now (ticks_per_s s)) (s\<lparr>hw := h, trace := trace s @ tr\<rparr>)"
  shows "wpM (stopwatch_elapsed_ms E start) Q s"
proof -
  have "ucast (ticks_per_s s) \<noteq> (0 :: u64)" using assms(1) by (metis unat_eq_0 unat_ucast_widen(4))
  then show ?thesis
    unfolding stopwatch_elapsed_ms_def stopwatch_scaled_def stopwatch_elapsed_def wp_bind wp_map wp_get wp_liftE
    by (intro wp_stopwatch_getI) (use assms(2) in \<open>simp add: ms_between_def\<close>)
qed

text \<open>
  \<open>fed E ws\<close>: the register writes \<open>ws\<close> are one service of the watchdog. On the chip's own watchdog
  that is a password access and a modify access that locks and sets \<^verbatim>\<open>ENDINIT\<close> (which restarts
  the counter); with a watchdog in the power-management chip it is one write that sets the pin.
\<close>

definition fed :: "'h env \<Rightarrow> (u32 \<times> u32) list \<Rightarrow> bool" where
  "fed E ws \<longleftrightarrow> (if \<not> pm_wadog E
     then (\<exists>p m. ws = [(SCU_WDTCON0, p), (SCU_WDTCON0, m)] \<and> \<not> bit p 1 \<and> bit m 1 \<and> bit m 0)
     else (\<exists>v. ws = [(GPIO_PIN GPIO_PM_WADOG, v)]))"

lemma wp_wdt_feedI:
  assumes "\<And>now h tr. fed E (writes tr) \<Longrightarrow> Q () (s\<lparr>hw := h, trace := trace s @ tr, last_wdt_serve := now\<rparr>)"
  shows "wpM (wdt_feed E) Q s"
proof (cases "pm_wadog E")
  case False
  then show ?thesis
    unfolding wdt_feed_def mark_served_def wp_seq wp_bind wp_mod
    by (simp, intro wp_cpu_wdt_reloadI wp_stopwatch_getI) (simp add: assms fed_def wdt_words [simplified])
next
  case True
  then show ?thesis
    unfolding wdt_feed_def mark_served_def wp_seq wp_bind wp_mod
    by (simp add: wp_gpio_toggle, intro wp_readI wp_writeI wp_stopwatch_getI) (simp add: assms fed_def)
qed

text \<open>
  \<open>blocked s n1 n2\<close>: by the counter values \<open>n1\<close> and \<open>n2\<close> it is too early for a service, or the
  execution limit is set and used up.
\<close>

definition blocked :: "('h, 'z) watched_scheme \<Rightarrow> u64 \<Rightarrow> u64 \<Rightarrow> bool" where
  "blocked s n1 n2 \<longleftrightarrow> ms_between (last_wdt_serve s) n1 (ticks_per_s s) < wdt_interval s \<or>
     (wdt_timeout s \<noteq> 0 \<and> ms_between (start_execution s) n2 (ticks_per_s s) \<ge> wdt_timeout s)"

definition served :: "'h env \<Rightarrow> ('h, 'z) watched_scheme \<Rightarrow> ('h, 'z) watched_scheme \<Rightarrow> bool" where
  "served E s t \<longleftrightarrow> (\<exists>n1 n2 tr h now. if blocked s n1 n2
     then t = s\<lparr>hw := h, trace := trace s @ tr\<rparr> \<and> writes tr = []
     else t = s\<lparr>hw := h, trace := trace s @ tr, last_wdt_serve := now\<rparr> \<and> fed E (writes tr))"

lemma served_ticks: "served E s t \<Longrightarrow> ticks_per_s t = ticks_per_s s"
  by (auto simp: served_def split: if_splits)

lemma served_skip: "blocked s n1 n2 \<Longrightarrow> writes tr = [] \<Longrightarrow> served E s (s\<lparr>hw := h, trace := trace s @ tr\<rparr>)"
  unfolding served_def by (rule exI [of _ n1], rule exI [of _ n2]) auto

lemma served_feed:
  assumes "\<not> blocked s n1 n2" "writes tr = []"
  shows "wpM (wdt_feed E) (\<lambda>_. served E s) (s\<lparr>hw := h, trace := trace s @ tr\<rparr>)"
proof (rule wp_wdt_feedI)
  fix now h' tr' assume "fed E (writes tr')"
  then have "fed E (writes (tr @ tr'))" using assms(2) by simp
  with assms(1) have "served E s (s\<lparr>hw := h', trace := trace s @ (tr @ tr'), last_wdt_serve := now\<rparr>)"
    unfolding served_def
    by - (rule exI [of _ n1], rule exI [of _ n2], rule exI [of _ "tr @ tr'"], rule exI [of _ h'],
        rule exI [of _ now], simp)
  then show "served E s (s\<lparr>hw := h, trace := trace s @ tr, hw := h',
      trace := trace (s\<lparr>hw := h, trace := trace s @ tr\<rparr>) @ tr', last_wdt_serve := now\<rparr>)" by simp
qed

lemma wp_wdt_serve_gated:
  fixes s :: "('h, 'z) watched_scheme"
  assumes tps: "ticks_per_s s \<noteq> 0"
  shows "wpM (wdt_serve E) (\<lambda>_ t. if wdt_off s then t = s else served E s t) s"
proof (cases "wdt_off s")
  case True
  then show ?thesis by (simp add: wdt_serve_def wp)
next
  case False
  let ?Q = "\<lambda>(_ :: unit). served E s"
  let ?since = "\<lambda>n. ms_between (last_wdt_serve s) n (ticks_per_s s)"
  let ?run = "\<lambda>n. ms_between (start_execution s) n (ticks_per_s s)"
  have second: "wpM (bindM (if wdt_timeout s \<noteq> 0 then bindM (getM start_execution) (\<lambda>start.
         mapM (\<lambda>t. t \<ge> wdt_timeout s) (stopwatch_elapsed_ms E start)) else retM False)
       (\<lambda>expired. if expired then retM () else wdt_feed E)) ?Q (s\<lparr>hw := h, trace := trace s @ tr\<rparr>)"
    if tr: "writes tr = []" and since: "\<not> ?since n1 < wdt_interval s" for n1 h tr
  proof (cases "wdt_timeout s = 0")
    case True
    then show ?thesis using served_feed [of s n1 _ tr] tr since by (simp add: wp_bind blocked_def)
  next
    case limit: False
    have "wpM (if ?run n2 \<ge> wdt_timeout s then retM () else wdt_feed E) ?Q
        (s\<lparr>hw := h', trace := trace s @ tr @ tr'\<rparr>)" if "writes tr' = []" for n2 h' tr'
      using served_skip [of s n1 n2 "tr @ tr'" E h'] served_feed [of s n1 n2 "tr @ tr'" E h'] tr that since limit
      by (cases "?run n2 \<ge> wdt_timeout s") (simp_all add: blocked_def)
    then show ?thesis
      using limit tps unfolding wp_bind wp_if if_P [OF limit] wp_get wp_map
      by (intro wp_elapsed_msI) simp_all
  qed
  have first: "wpM (if ?since n1 < wdt_interval s then retM () else bindM (getM wdt_timeout) (\<lambda>limit.
       bindM (if limit \<noteq> 0 then bindM (getM start_execution) (\<lambda>start.
         mapM (\<lambda>t. t \<ge> limit) (stopwatch_elapsed_ms E start)) else retM False)
       (\<lambda>expired. if expired then retM () else wdt_feed E))) ?Q (s\<lparr>hw := h, trace := trace s @ tr\<rparr>)"
    if "writes tr = []" for n1 h tr
    using served_skip [of s n1 n1 tr E h] second [OF that, of n1 h] that
    by (cases "?since n1 < wdt_interval s") (auto simp: blocked_def wp_bind [of "getM wdt_timeout"] split: if_splits)
  show ?thesis
    using tps first
    unfolding if_not_P [OF False] wdt_serve_def wp_bind [of "getM wdt_off"] wp_bind [of "getM last_wdt_serve"]
      wp_bind [of "getM wdt_interval"] wp_bind [of "stopwatch_elapsed_ms E _"] wp_get
    by (intro wp_elapsed_msI) simp_all
qed



end
