(* ===== verification/Blocks.thy ===== *)
theory Blocks
  imports Wdt
begin

text \<open>
  Register blocks: the accesses of the watchdog, which every long-running loop serves, are
  separated from those of the block that the loop drives by their addresses.
\<close>

section \<open>Register blocks\<close>

text \<open>The 64 KiB block of registers at \<open>base\<close>, and traces without accesses to it.\<close>

definition in_block :: "u32 \<Rightarrow> u32 \<Rightarrow> bool" where
  "in_block base a \<longleftrightarrow> base AND 0xFFFF0000 = a AND 0xFFFF0000"

fun touches :: "u32 \<Rightarrow> access \<Rightarrow> bool" where
  "touches base (Rd w a v) = in_block base a"
| "touches base (Wr w a v) = in_block base a"
| "touches base _ = False"

definition outside :: "u32 \<Rightarrow> access list \<Rightarrow> bool" where
  "outside base tr \<longleftrightarrow> (\<forall>x \<in> set tr. \<not> touches base x)"

lemma outside_simps [simp]:
  "outside base []" "outside base (x # xs) \<longleftrightarrow> \<not> touches base x \<and> outside base xs"
  "outside base (xs @ ys) \<longleftrightarrow> outside base xs \<and> outside base ys"
  by (auto simp: outside_def)

text \<open>A block that holds none of the registers the watchdog uses.\<close>

definition wdt_outside :: "u32 \<Rightarrow> bool" where
  "wdt_outside base \<longleftrightarrow> \<not> in_block base SCU_WDTCON0 \<and> \<not> in_block base SCU_WDTCON1 \<and>
     \<not> in_block base STM_TIM0 \<and> \<not> in_block base STM_TIM6 \<and>
     \<not> in_block base (GPIO_PIN GPIO_PM_WADOG)"

lemma talks_read_outside: "\<not> in_block base a \<Longrightarrow> talks (mmio_read w E a) (\<lambda>_. outside base)"
  by (rule any.in_read) simp

lemma talks_write_outside: "\<not> in_block base a \<Longrightarrow> talks (mmio_write w E a v) (\<lambda>_. outside base)"
  by (rule any.in_write) simp

lemma talks_bind_outside:
  "talks c (\<lambda>_. outside base) \<Longrightarrow> (\<And>x. talks (f x) (\<lambda>_. outside base)) \<Longrightarrow> talks (bindM c f) (\<lambda>_. outside base)"
  by (erule any.in_bind) (simp add: logs_in_mono)

lemma talks_seq_outside:
  "talks (seqM []) (\<lambda>_. outside base)"
  "talks c (\<lambda>_. outside base) \<Longrightarrow> talks (seqM cs) (\<lambda>_. outside base) \<Longrightarrow> talks (seqM (c # cs)) (\<lambda>_. outside base)"
  by (auto intro: any.in_ret talks_bind_outside)

lemma talks_if_outside:
  "talks c (\<lambda>_. outside base) \<Longrightarrow> talks d (\<lambda>_. outside base) \<Longrightarrow> talks (if b then c else d) (\<lambda>_. outside base)"
  by simp

lemma talks_irq_outside: "talks (cpu_enable_irq b) (\<lambda>_. outside base)"
  by (auto simp: logs_in_def any_change_def cpu_enable_irq_def cpu_enable_irq_or_fiq_def msr_cpsr_c_def wp)

lemma talks_simple_outside:
  "talks (retM x) (\<lambda>_. outside base)" "talks (getM f) (\<lambda>_. outside base)" "talks (liftE m) (\<lambda>_. outside base)"
  by (auto intro: any.in_ret any.in_get any.in_liftE)

lemma talks_map_outside: "talks c (\<lambda>_. outside base) \<Longrightarrow> talks (mapM f c) (\<lambda>_. outside base)"
  by (rule any.in_map)

lemmas talks_outside = talks_bind_outside talks_seq_outside talks_if_outside talks_irq_outside
  talks_simple_outside talks_map_outside talks_read_outside talks_write_outside

lemma talks_wdt_serve:
  assumes "wdt_outside base"
  shows "talks (wdt_serve E) (\<lambda>_. outside base)"
proof -
  have t: "talks (modM (\<lambda>s. s\<lparr>last_wdt_serve := v\<rparr>)) (\<lambda>_. outside base)" for v
    by (rule talks_mod) simp_all
  note out = assms [unfolded wdt_outside_def]
  have "talks (wdt_feed E) (\<lambda>_. outside base)"
    using out
    unfolding wdt_feed_def mark_served_def stopwatch_get_def cpu_wdt_reload_def cpu_wdt_get_reload_def
      cpu_wdt_password_access_def cpu_wdt_modify_access_def field_def gpio_toggle_def gpio_get_def gpio_set_def rmw_def
    by (cases "pm_wadog E") (auto intro!: talks_outside t)
  then show ?thesis
    using out
    unfolding wdt_serve_def stopwatch_elapsed_ms_def stopwatch_scaled_def stopwatch_elapsed_def stopwatch_get_def
    by (intro talks_outside) simp_all
qed

lemma wp_wdt_serve: "ticks_per_s s \<noteq> 0 \<Longrightarrow> wpM (wdt_serve E) (\<lambda>_ t. ticks_per_s t = ticks_per_s s) s"
  by (drule wp_wdt_serve_gated) (auto elim!: wp_mono dest: served_ticks split: if_splits)

section \<open>Commands that always return\<close>

text \<open>\<open>ends c\<close>: on every device, once the frequency of the timer is known, \<open>c\<close> returns.\<close>

definition clock_set :: "('h, 'z) timed_scheme \<Rightarrow> bool" where
  "clock_set s \<longleftrightarrow> ticks_per_s s \<noteq> 0"

definition ends :: "(('h, 'z) watched_scheme, 'a) cmd \<Rightarrow> bool" where
  "ends c \<longleftrightarrow> (\<forall>s. clock_set s \<longrightarrow> wpM c (\<lambda>_. clock_set) s)"

lemma ends_bind: "ends c \<Longrightarrow> (\<And>x. ends (f x)) \<Longrightarrow> ends (bindM c f)"
  unfolding ends_def wp_bind by (blast intro: wp_mono)

lemma ends_simple:
  "ends (retM x)" "ends (mmio_write w E a v)" "ends (mmio_read w E a)"
  by (auto simp: ends_def wp clock_set_def split: prod.splits)

lemma ends_map: "ends c \<Longrightarrow> ends (mapM f c)"
  unfolding mapM_def by (intro ends_bind ends_simple)

lemma ends_if: "ends c \<Longrightarrow> ends d \<Longrightarrow> ends (if b then c else d)"
  by simp

lemma ends_serve: "ends (wdt_serve E)"
  unfolding ends_def clock_set_def by (auto intro: wp_mono [OF wp_wdt_serve])

lemmas ends_intros = ends_bind ends_simple ends_map ends_if ends_serve

text \<open>A machine that has just been started, for the concrete runs below.\<close>

abbreviation (input) idle :: "'h \<Rightarrow> 'h watched" where
  "idle h \<equiv> \<lparr>hw = h, trace = [], cpsr = 0, ram = (\<lambda>_. 0), ticks_per_s = 1000, start_execution = 0, wdt_timeout = 0,
     last_wdt_serve = 0, wdt_interval = 5, wdt_off = False\<rparr>"

end
