(* ===== verification/Crc.thy ===== *)
theory Crc
  imports Prelude
begin

text \<open>
  The two checksums of the sources: the CRC-32 that guards the preloader's uploads
  (\<^verbatim>\<open>src/preloader/src/crc.c\<close>) and the CRC-8 packet error code of SMBus (\<^verbatim>\<open>src/lib/i2c.c\<close>).
  Both feed a message through a register byte by byte; what the callers rely on is stated
  once, in the locale \<open>byte_checksum\<close>, and both are instances of it.
\<close>

section \<open>What a byte-wise checksum promises\<close>

locale byte_checksum =
  fixes upd :: "'c \<Rightarrow> u8 \<Rightarrow> 'c"
  assumes reg_inj: "upd c b = upd d b \<Longrightarrow> c = d"
    and byte_inj: "upd c a = upd c b \<Longrightarrow> a = b"
begin

lemma fold_inj: "foldl upd c xs = foldl upd d xs \<Longrightarrow> c = d"
  by (induction xs arbitrary: c d) (auto dest: reg_inj)

lemma single_byte_error:
  assumes "a \<noteq> b"
  shows "foldl upd c (xs @ a # ys) \<noteq> foldl upd c (xs @ b # ys)"
proof
  assume "foldl upd c (xs @ a # ys) = foldl upd c (xs @ b # ys)"
  then have "upd (foldl upd c xs) a = upd (foldl upd c xs) b"
    by (auto dest: fold_inj)
  then show False using assms by (auto dest: byte_inj)
qed

text \<open>
  Feeding a message in pieces of any sizes is feeding it whole; the callers cut uploads into
  batches of 256 bytes.
\<close>

lemma fold_concat: "foldl upd c (concat xss) = foldl (\<lambda>c xs. foldl upd c xs) c xss"
  by (induction xss arbitrary: c) auto

end

section \<open>CRC-32\<close>

abbreviation (input) CRC32_POLYNOMIAL :: u32 where "CRC32_POLYNOMIAL \<equiv> 0xEDB88320"
abbreviation (input) CRC32_INITIAL_VALUE :: u32 where "CRC32_INITIAL_VALUE \<equiv> 0xFFFFFFFF"

text \<open>One round of the inner loop, the inner loop, and the loop over the data.\<close>

definition crc32_bit :: "u32 \<Rightarrow> u32" where
  "crc32_bit crc =
     (let low_bit = crc AND 1; crc = drop_bit 1 crc
      in if low_bit \<noteq> 0 then crc XOR CRC32_POLYNOMIAL else crc)"

definition crc32_byte :: "u32 \<Rightarrow> u8 \<Rightarrow> u32" where
  "crc32_byte crc b = (crc32_bit ^^ 8) (crc XOR ucast b)"

definition crc32_update :: "u32 \<Rightarrow> u8 list \<Rightarrow> u32" where
  "crc32_update crc bs = foldl crc32_byte crc bs"

lemma crc32_bit_alt: "crc32_bit x = (if bit x 0 then drop_bit 1 x XOR CRC32_POLYNOMIAL else drop_bit 1 x)"
  by (simp add: crc32_bit_def Let_def and_one_eq bit_0 odd_iff_mod_2_eq_one)

lemma bit_crc32_bit:
  "n < 32 \<Longrightarrow> bit (crc32_bit x) n =
     (bit x (Suc n) \<noteq> (bit x 0 \<and> bit CRC32_POLYNOMIAL n))"
  by (simp add: crc32_bit_alt bit_drop_bit_eq bit_xor_iff)

lemma crc32_bit_xor: "crc32_bit (x XOR y) = crc32_bit x XOR crc32_bit y"
  by (rule bit_word_eqI) (auto simp: bit_crc32_bit bit_xor_iff)

lemma crc32_bit_inj: "crc32_bit x = crc32_bit y \<Longrightarrow> x = y"
proof -
  assume eq: "crc32_bit x = crc32_bit y"
  have top: "bit (crc32_bit z) 31 = bit z 0" for z
    using bit_imp_le_length [of z 32] by (auto simp: bit_crc32_bit bit_numeral_rec)
  have low: "bit x 0 = bit y 0" using eq top by metis
  have step: "bit x (Suc n) = bit y (Suc n)" if "n < 32" for n
    using that eq low bit_crc32_bit by (metis (full_types))
  show "x = y"
  proof (rule bit_word_eqI)
    fix n assume "n < LENGTH(32)"
    then show "bit x n = bit y n" using low step by (cases n) auto
  qed
qed

lemma crc32_bits_xor: "(crc32_bit ^^ n) (x XOR y) = (crc32_bit ^^ n) x XOR (crc32_bit ^^ n) y"
  by (induction n) (simp_all add: crc32_bit_xor)

lemma crc32_bits_inj: "(crc32_bit ^^ n) x = (crc32_bit ^^ n) y \<Longrightarrow> x = y"
  by (induction n) (auto dest: crc32_bit_inj)

interpretation crc32: byte_checksum crc32_byte
proof
  fix c d :: u32 and b :: u8
  assume "crc32_byte c b = crc32_byte d b"
  then have "c XOR ucast b = d XOR ucast b"
    unfolding crc32_byte_def by (rule crc32_bits_inj)
  then show "c = d" by (simp add: xor_cancel_right)
next
  fix c :: u32 and a b :: u8
  assume "crc32_byte c a = crc32_byte c b"
  then have "c XOR ucast a = c XOR ucast b"
    unfolding crc32_byte_def by (rule crc32_bits_inj)
  then show "a = b" by (simp add: xor_cancel_left)
qed

text \<open>
  Four bytes at a time: the register after up to four bytes is that many bit rounds applied to
  the register xored with the bytes as one little-endian word.
\<close>

lemma crc32_bits_shift:
  "(\<And>k. k < n \<Longrightarrow> \<not> bit x k) \<Longrightarrow> (crc32_bit ^^ n) x = drop_bit n x"
proof (induction n arbitrary: x)
  case 0
  then show ?case by simp
next
  case (Suc n)
  have f: "crc32_bit x = drop_bit 1 x" using Suc.prems [of 0] by (simp add: crc32_bit_alt)
  have "(crc32_bit ^^ n) (drop_bit 1 x) = drop_bit n (drop_bit 1 x)"
    using Suc.prems by (intro Suc.IH) (simp add: bit_drop_bit_eq)
  then show ?case by (simp add: funpow_swap1 f del: funpow.simps) (simp add: funpow_Suc_right f del: funpow.simps)
qed

lemma crc32_word:
  "length bs \<le> 4 \<Longrightarrow> crc32_update c bs = (crc32_bit ^^ (8 * length bs)) (c XOR le_word bs)"
proof (induction bs arbitrary: c)
  case Nil
  then show ?case by (simp add: crc32_update_def)
next
  case (Cons b bs)
  let ?w = "le_word bs"
  have small: "k < 24" if "bit ?w k" for k
    using that Cons.prems by (simp add: bit_le_word) linarith
  have "(crc32_bit ^^ 8) (push_bit 8 ?w) = drop_bit 8 (push_bit 8 ?w)"
    by (rule crc32_bits_shift) (simp add: bit_push_bit_iff)
  also have "\<dots> = ?w"
    by (rule bit_word_eqI) (auto simp: bit_drop_bit_eq bit_push_bit_iff dest: small)
  finally have w: "(crc32_bit ^^ 8) (push_bit 8 ?w) = ?w" .
  have xor: "ucast b OR push_bit 8 ?w = ucast b XOR push_bit 8 ?w"
    by (rule bit_word_eqI) (auto simp: bit_or_iff bit_xor_iff bit_push_bit_iff bit_ucast_iff dest: bit_u8_large)
  have "crc32_update c (b # bs) = crc32_update (crc32_byte c b) bs"
    by (simp add: crc32_update_def)
  also have "\<dots> = (crc32_bit ^^ (8 * length bs)) ((crc32_bit ^^ 8) (c XOR ucast b) XOR ?w)"
    using Cons by (simp add: crc32_byte_def)
  also have "\<dots> = (crc32_bit ^^ (8 * length bs)) ((crc32_bit ^^ 8) (c XOR (ucast b XOR push_bit 8 ?w)))"
    by (simp only: crc32_bits_xor w xor.assoc)
  also have "\<dots> = (crc32_bit ^^ (8 * length (b # bs))) (c XOR le_word (b # bs))"
    by (simp add: xor add.commute [of 8] funpow_add)
  finally show ?case .
qed

lemma crc32_burst:
  assumes "length xs = length ys" and "length xs \<le> 4" and "xs \<noteq> ys"
  shows "crc32_update crc (pre @ xs @ post) \<noteq> crc32_update crc (pre @ ys @ post)"
proof
  let ?c = "crc32_update crc pre"
  assume "crc32_update crc (pre @ xs @ post) = crc32_update crc (pre @ ys @ post)"
  then have "crc32_update ?c xs = crc32_update ?c ys"
    by (auto simp: crc32_update_def dest: crc32.fold_inj)
  then have "?c XOR le_word xs = ?c XOR le_word ys"
    using assms by (auto simp: crc32_word dest: crc32_bits_inj)
  then show False
    using assms le_word_inj [of xs ys] by (simp add: xor_cancel_left)
qed

text \<open>
  Any corruption confined to four consecutive bytes changes the CRC-32, whatever stands
  before and after it: two uploads of the same length that differ only there never have the
  same checksum.
\<close>

theorem crc32_detects_burst:
  assumes "length xs = length ys" and "length xs \<le> 4" and "xs \<noteq> ys"
  shows "crc32_update crc (pre @ xs @ post) \<noteq> crc32_update crc (pre @ ys @ post)"
  using assms by (rule crc32_burst)

theorem crc32_detects_burst_witness:
  "crc32_update CRC32_INITIAL_VALUE ([1, 2] @ [3, 4, 5, 6] @ [7])
     \<noteq> crc32_update CRC32_INITIAL_VALUE ([1, 2] @ [3, 0, 9, 6] @ [7])"
  using crc32_detects_burst [of "[3, 4, 5, 6]" "[3, 0, 9, 6]" CRC32_INITIAL_VALUE "[1, 2]" "[7]"] by simp

section \<open>The SMBus packet error code\<close>

definition smbus_pec_bit :: "u8 \<Rightarrow> u8" where
  "smbus_pec_bit pec = (if pec AND 0x80 \<noteq> 0 then push_bit 1 pec XOR 0x07 else push_bit 1 pec)"

definition smbus_pec_update :: "u8 \<Rightarrow> u8 \<Rightarrow> u8" where
  "smbus_pec_update pec v = (smbus_pec_bit ^^ 8) (pec XOR v)"

definition i2c_smbus_pec_calculate :: "u8 \<Rightarrow> u8 list \<Rightarrow> u8" where
  "i2c_smbus_pec_calculate address bs = foldl smbus_pec_update (smbus_pec_update 0 (push_bit 1 address)) bs"

lemma pec_top_bit: "(x :: u8) AND 0x80 \<noteq> 0 \<longleftrightarrow> bit x 7"
proof -
  have "x AND 0x80 = push_bit 7 (of_bool (bit x 7))"
    by (rule bit_word_eqI) (auto simp: bit_and_iff bit_push_bit_iff bit_numeral_rec numeral_eq_Suc less_Suc_eq)
  then show ?thesis by simp
qed

lemma bit_smbus_pec_bit:
  "n < 8 \<Longrightarrow> bit (smbus_pec_bit x) n = ((0 < n \<and> bit x (n - 1)) \<noteq> (bit x 7 \<and> bit (0x07 :: u8) n))"
  by (cases n) (auto simp: smbus_pec_bit_def pec_top_bit bit_xor_iff bit_double_iff mult.commute [of x 2])

lemma smbus_pec_bit_inj: "smbus_pec_bit x = smbus_pec_bit y \<Longrightarrow> x = y"
proof -
  assume eq: "smbus_pec_bit x = smbus_pec_bit y"
  have "bit (smbus_pec_bit z) 0 = bit z 7" for z
    by (subst bit_smbus_pec_bit) (simp_all add: bit_0)
  then have top: "bit x 7 = bit y 7" using eq by metis
  have "bit x n = bit y n" if "n < 7" for n
    using that eq top bit_smbus_pec_bit [of "Suc n" x] bit_smbus_pec_bit [of "Suc n" y] by auto
  then have "bit x n = bit y n" if "n < 8" for n
    using top that by (cases "n = 7") auto
  then show "x = y" by (auto intro: bit_word_eqI)
qed

lemma smbus_pec_bits_inj: "(smbus_pec_bit ^^ n) x = (smbus_pec_bit ^^ n) y \<Longrightarrow> x = y"
  by (induction n) (auto dest: smbus_pec_bit_inj)

interpretation pec: byte_checksum smbus_pec_update
  by unfold_locales (auto simp: smbus_pec_update_def xor_cancel_right xor_cancel_left dest: smbus_pec_bits_inj)

lemma smbus_pec_bits_zero [simp]: "(smbus_pec_bit ^^ n) 0 = 0"
  by (induction n) (simp_all add: smbus_pec_bit_def)

lemma pec_residue: "i2c_smbus_pec_calculate address (bs @ [i2c_smbus_pec_calculate address bs]) = 0"
  by (simp add: i2c_smbus_pec_calculate_def) (simp add: smbus_pec_update_def)

text \<open>
  The packet error code detects every corruption of a single byte of an SMBus command,
  and a receiver that checks the command together with its code gets zero.
\<close>

theorem pec_detects_and_verifies:
  "i2c_smbus_pec_calculate address (bs @ [i2c_smbus_pec_calculate address bs]) = 0 \<and>
   (a \<noteq> b \<longrightarrow> i2c_smbus_pec_calculate address (xs @ a # ys)
               \<noteq> i2c_smbus_pec_calculate address (xs @ b # ys))"
proof
  show "i2c_smbus_pec_calculate address (bs @ [i2c_smbus_pec_calculate address bs]) = 0" by (rule pec_residue)
  show "a \<noteq> b \<longrightarrow> i2c_smbus_pec_calculate address (xs @ a # ys)
               \<noteq> i2c_smbus_pec_calculate address (xs @ b # ys)"
    using pec.single_byte_error by (simp add: i2c_smbus_pec_calculate_def)
qed

theorem pec_detects_and_verifies_witness:
  "i2c_smbus_pec_calculate 0x31 [0x12, 0x34] \<noteq> i2c_smbus_pec_calculate 0x31 [0x13, 0x34]"
  using pec_detects_and_verifies 
    [where address = "0x31" and xs = "[]" and a = "0x12" and b = "0x13" and ys = "[0x34]"] by simp

end
