(* ===== verification/I2c_Contract.thy ===== *)
theory I2c_Contract
  imports Blocks Crc
begin

text \<open>
  What the portable I2C layer (\<^verbatim>\<open>src/lib/i2c.c\<close>) relies on in the two hardware drivers
  (\<^verbatim>\<open>src/lib/i2c-internal.h\<close>): the interface as a locale, with the facts about the SMBus
  transactions that follow from it. Buffers are lists of bytes; a read returns the bytes that the
  driver stored.
\<close>

section \<open>The drivers' contract\<close>

text \<open>
  \<open>wire s\<close> is the bytes put on the bus so far. A write that reports success has put the address with the
  write bit, the prefix and the data on the bus, in this order and nothing else; a read never
  returns more bytes than asked for, and exactly as many when it reports success. Sizes are
  below the range of the 32-bit counters.
\<close>

locale i2c_driver =
  fixes hw_write :: "u8 \<Rightarrow> u8 list \<Rightarrow> u8 list \<Rightarrow> ('s, bool) cmd"
    and hw_read :: "u8 \<Rightarrow> nat \<Rightarrow> ('s, bool \<times> u8 list) cmd"
    and wire :: "'s \<Rightarrow> u8 list"
  assumes write_wire: "address < 0x80 \<Longrightarrow> length prefix + length data + 1 < 2 ^ 32 \<Longrightarrow>
      wlpM (hw_write address prefix data) (\<lambda>ok t. ok \<longrightarrow> wire t = wire s @ push_bit 1 address # prefix @ data) s"
    and read_length: "n < 2 ^ 32 \<Longrightarrow> wlpM (hw_read address n) (\<lambda>(ok, bs) t. length bs \<le> n \<and> (ok \<longrightarrow> length bs = n)) s"
begin

text \<open>
  A message with its checksum as the last byte: a receiver that runs the checksum over all that it
  sees on the bus, the address byte included, ends with zero.
\<close>

lemma write_pec_checks:
  assumes "address < 0x80" "length data + 2 < 2 ^ 32"
  shows "wlpM (hw_write address data [i2c_smbus_pec_calculate address data])
    (\<lambda>ok t. ok \<longrightarrow> (\<exists>msg. wire t = wire s @ push_bit 1 address # msg \<and> butlast msg = data \<and>
       i2c_smbus_pec_calculate address msg = 0)) s"
  using write_wire [OF assms(1), of data "[i2c_smbus_pec_calculate address data]" s] assms(2)
  by (auto elim!: wlp_mono intro!: exI [of _ "data @ [i2c_smbus_pec_calculate address data]"] simp: pec_residue)

text \<open>A register read: on success the register number was written and all the bytes were read.\<close>

lemma register_read:
  assumes "address < 0x80" "n < 2 ^ 32"
  shows "wlpM (bindM (hw_write address [reg] []) (\<lambda>ok.
      if \<not> ok then retM (False, []) else hw_read address n))
    (\<lambda>(ok, bs) t. length bs \<le> n \<and> (ok \<longrightarrow> length bs = n)) s"
proof -
  have "wlpM (hw_write address [reg] []) (\<lambda>_ _. True) s" by (auto simp: wlpM_def split: sum.splits)
  then show ?thesis
    unfolding wp_bind by (rule wlp_mono) (auto simp: wp read_length [OF assms(2)])
qed

end

end
