(* ===== verification/I2c_V1.thy ===== *)
theory I2c_V1
  imports I2c_Contract
begin

text \<open>
  The driver of the I2C block of the PMB8875 (\<^verbatim>\<open>src/lib/i2c-v1.c\<close>): a transfer is a record that
  the event loop \<^verbatim>\<open>transfer_wait\<close> updates for at most 100 ms.
\<close>

section \<open>Definitions\<close>

abbreviation (input) I2C_TRANSFER_TIMEOUT_MS :: u32 where "I2C_TRANSFER_TIMEOUT_MS \<equiv> 100"

definition I2C_BUS_CONFIG :: u32 where
  "I2C_BUS_CONFIG = I2Cv1_BUSCON_SDAEN0 OR I2Cv1_BUSCON_SCLEN0 OR push_bit I2Cv1_BUSCON_BRP_SHIFT 0x7E OR
     I2Cv1_BUSCON_PREDIV_8 OR I2Cv1_BUSCON_BRPMOD_MODE1"

definition I2C_CLEAR_STATE :: u32 where
  "I2C_CLEAR_STATE = I2Cv1_WHBSYSCON_CLRAL OR I2Cv1_WHBSYSCON_CLRIRQD OR I2Cv1_WHBSYSCON_CLRIRQP OR
     I2Cv1_WHBSYSCON_CLRIRQE OR I2Cv1_WHBSYSCON_CLRRSC OR I2Cv1_WHBSYSCON_CLRBUM OR
     I2Cv1_WHBSYSCON_CLRACKDIS OR I2Cv1_WHBSYSCON_CLRTRX OR I2Cv1_WHBSYSCON_CLRSTP"

text \<open>
  The pointers \<^verbatim>\<open>prefix\<close> and \<^verbatim>\<open>tx\<close> are the bytes that they still have to deliver, \<^verbatim>\<open>rx\<close> the bytes
  stored so far.
\<close>

record i2c_transfer =
  prefix :: "u8 list"
  tx :: "u8 list"
  rx :: "u8 list"
  prefix_remaining :: nat
  remaining :: nat
  address_sent :: bool
  stop_requested :: bool

definition buffer_size_set :: "'h env \<Rightarrow> u32 \<Rightarrow> (('h, 'z) machine_scheme, unit) cmd" where
  "buffer_size_set E n =
     rmw E I2Cv1_SYSCON (\<lambda>v. (v AND NOT I2Cv1_SYSCON_CI) OR push_bit I2Cv1_SYSCON_CI_SHIFT (n - 1))"

definition transfer_byte_get :: "i2c_transfer \<Rightarrow> u8 \<times> i2c_transfer" where
  "transfer_byte_get t =
     (if prefix_remaining t \<noteq> 0
      then (hd (prefix t), t\<lparr>prefix_remaining := prefix_remaining t - 1, prefix := tl (prefix t)\<rparr>)
      else (hd (tx t), t\<lparr>remaining := remaining t - 1, tx := tl (tx t)\<rparr>))"

function write_fill :: "nat \<Rightarrow> u32 \<Rightarrow> i2c_transfer \<Rightarrow> u32 \<times> nat \<times> i2c_transfer" where
  "write_fill count v t =
     (if count < 4 \<and> (prefix_remaining t \<noteq> 0 \<or> remaining t \<noteq> 0)
      then let (b, t) = transfer_byte_get t in write_fill (count + 1) (v OR push_bit (count * 8) (ucast b)) t
      else (v, count, t))"
  by pat_completeness auto
termination
  by (relation "measure (\<lambda>(count, v, t). 4 - count)") auto

declare write_fill.simps [simp del]

definition write_buffer :: "'h env \<Rightarrow> i2c_transfer \<Rightarrow> u32 \<Rightarrow> nat \<Rightarrow> (('h, 'z) machine_scheme, i2c_transfer) cmd" where
  "write_buffer E t v offset =
     (let (v, count, t) = write_fill offset v t
      in bindM (buffer_size_set E (of_nat count)) (\<lambda>_. bindM (wr E I2Cv1_RTB v) (\<lambda>_. retM t)))"

definition read_buffer :: "'h env \<Rightarrow> i2c_transfer \<Rightarrow> (('h, 'z) machine_scheme, i2c_transfer) cmd" where
  "read_buffer E t =
     bindM (field E I2Cv1_SYSCON I2Cv1_SYSCON_CO I2Cv1_SYSCON_CO_SHIFT) (\<lambda>co.
     bindM (field E I2Cv1_SYSCON I2Cv1_SYSCON_CI I2Cv1_SYSCON_CI_SHIFT) (\<lambda>ci.
     let count = min (min (unat co) (unat (ci + 1))) (remaining t) in
     bindM (rmw E I2Cv1_SYSCON (\<lambda>v. v OR I2Cv1_SYSCON_INT)) (\<lambda>_.
     bindM (rd E I2Cv1_RTB) (\<lambda>v.
     bindM (rmw E I2Cv1_SYSCON (\<lambda>v. v AND NOT I2Cv1_SYSCON_INT)) (\<lambda>_.
     retM (t\<lparr>rx := rx t @ le_bytes count v, remaining := remaining t - count\<rparr>))))))"

definition transfer_stop :: "'h env \<Rightarrow> (('h, 'z) machine_scheme, unit) cmd" where
  "transfer_stop E = wr E I2Cv1_WHBSYSCON I2C_CLEAR_STATE"

text \<open>The body of \<^verbatim>\<open>if ((status & I2C_SYSCON_IRQD) != 0)\<close> after its check for a missing acknowledge.\<close>

definition data_request :: "'h env \<Rightarrow> bool \<Rightarrow> i2c_transfer \<Rightarrow> (('h, 'z) machine_scheme, i2c_transfer) cmd" where
  "data_request E reading t =
     (if \<not> reading then
        if prefix_remaining t \<noteq> 0 \<or> remaining t \<noteq> 0 then write_buffer E t 0 0
        else bindM (wr E I2Cv1_WHBSYSCON I2Cv1_WHBSYSCON_CLRBUM) (\<lambda>_. retM (t\<lparr>stop_requested := True\<rparr>))
      else
        bindM (if address_sent t then read_buffer E t
               else bindM (wr E I2Cv1_WHBSYSCON I2Cv1_WHBSYSCON_CLRTRX) (\<lambda>_. retM (t\<lparr>address_sent := True\<rparr>))) (\<lambda>t.
        bindM (if remaining t \<noteq> 0
               then bindM (buffer_size_set E (of_nat (min (remaining t) 4))) (\<lambda>_.
                    whenM (remaining t \<le> 4) (wr E I2Cv1_WHBSYSCON (I2Cv1_WHBSYSCON_SETACKDIS OR I2Cv1_WHBSYSCON_SETSTP)))
               else retM ()) (\<lambda>_.
        bindM (rd E I2Cv1_RTB) (\<lambda>_. retM t))))"

primrec transfer_wait_loop ::
  "nat \<Rightarrow> 'h env \<Rightarrow> u64 \<Rightarrow> bool \<Rightarrow> i2c_transfer \<Rightarrow> (('h, 'z) watched_scheme, bool \<times> i2c_transfer) cmd" where
  "transfer_wait_loop 0 E start reading t = failM Out_Of_Fuel"
| "transfer_wait_loop (Suc n) E start reading t =
     bindM (stopwatch_elapsed_ms E start) (\<lambda>elapsed.
     if \<not> elapsed < I2C_TRANSFER_TIMEOUT_MS then bindM (transfer_stop E) (\<lambda>_. retM (False, t)) else
     bindM (rd E I2Cv1_SYSCON) (\<lambda>status.
     bindM (whenM (status AND I2Cv1_SYSCON_IRQP \<noteq> 0) (wr E I2Cv1_WHBSYSCON I2Cv1_WHBSYSCON_CLRIRQP)) (\<lambda>_.
     let irqd = status AND I2Cv1_SYSCON_IRQD \<noteq> 0;
         nack = status AND I2Cv1_SYSCON_LRB \<noteq> 0 \<and> \<not> stop_requested t \<and> (\<not> reading \<or> \<not> address_sent t) in
     if irqd \<and> nack then bindM (transfer_stop E) (\<lambda>_. retM (False, t)) else
     bindM (if irqd then data_request E reading t else retM t) (\<lambda>t.
     if status AND I2Cv1_SYSCON_IRQE \<noteq> 0
     then bindM (transfer_stop E) (\<lambda>_. retM (remaining t = 0 \<and> prefix_remaining t = 0, t))
     else bindM (wdt_serve E) (\<lambda>_. transfer_wait_loop n E start reading t)))))"

definition transfer_wait_v1 ::
  "'h env \<Rightarrow> i2c_transfer \<Rightarrow> bool \<Rightarrow> (('h, 'z) watched_scheme, bool \<times> i2c_transfer) cmd" where
  "transfer_wait_v1 E t reading =
     bindM (stopwatch_get E) (\<lambda>start. transfer_wait_loop (fuel E) E start reading t)"

definition i2c_hw_init_v1 :: "'h env \<Rightarrow> (('h, 'z) machine_scheme, unit) cmd" where
  "i2c_hw_init_v1 E =
     seqM [wr E (GPIO_PIN GPIO_I2C_SCL) (GPIO_IS_ALT0 OR GPIO_OS_ALT0 OR GPIO_PPEN_OPENDRAIN OR GPIO_PS_ALT OR GPIO_DIR_IN),
           wr E (GPIO_PIN GPIO_I2C_SDA) (GPIO_IS_ALT0 OR GPIO_OS_ALT0 OR GPIO_PPEN_OPENDRAIN OR GPIO_PS_ALT OR GPIO_DIR_IN),
           wr E I2Cv1_CLC (push_bit MOD_CLC_RMC_SHIFT 16),
           wr E I2Cv1_BUSCON I2C_BUS_CONFIG,
           wr E I2Cv1_SYSCON I2Cv1_SYSCON_MOD_MASTER,
           transfer_stop E]"

definition i2c_hw_write_v1 ::
  "'h env \<Rightarrow> u8 \<Rightarrow> u8 list \<Rightarrow> u8 list \<Rightarrow> (('h, 'z) watched_scheme, bool) cmd" where
  "i2c_hw_write_v1 E address pre data =
     (let t = \<lparr>prefix = pre, tx = data, rx = [], prefix_remaining = length pre, remaining = length data,
               address_sent = True, stop_requested = False\<rparr>
      in bindM (wr E I2Cv1_SYSCON I2Cv1_SYSCON_MOD_MASTER) (\<lambda>_.
         bindM (write_buffer E t (push_bit 1 (ucast address)) 1) (\<lambda>t.
         bindM (wr E I2Cv1_WHBSYSCON I2Cv1_WHBSYSCON_SETBUM) (\<lambda>_.
         mapM fst (transfer_wait_v1 E t False)))))"

definition i2c_hw_read_v1 :: "'h env \<Rightarrow> u8 \<Rightarrow> nat \<Rightarrow> (('h, 'z) watched_scheme, bool \<times> u8 list) cmd" where
  "i2c_hw_read_v1 E address n =
     (if n = 0 then retM (True, []) else
      let t = \<lparr>prefix = [], tx = [], rx = [], prefix_remaining = 0, remaining = n,
               address_sent = False, stop_requested = False\<rparr>
      in bindM (buffer_size_set E 1) (\<lambda>_.
         bindM (wr E I2Cv1_RTB (push_bit 1 (ucast address) OR 1)) (\<lambda>_.
         bindM (wr E I2Cv1_WHBSYSCON I2Cv1_WHBSYSCON_SETBUM) (\<lambda>_.
         mapM (\<lambda>(ok, t). (ok, rx t)) (transfer_wait_v1 E t True)))))"

section \<open>Filling the buffer\<close>

definition counts_ok :: "i2c_transfer \<Rightarrow> bool" where
  "counts_ok t \<longleftrightarrow> prefix_remaining t = length (prefix t) \<and> remaining t = length (tx t)"

definition left :: "i2c_transfer \<Rightarrow> u8 list" where
  "left t = prefix t @ tx t"

lemma transfer_byte_get_left:
  assumes "counts_ok t" "left t \<noteq> []"
  shows "\<exists>t'. transfer_byte_get t = (hd (left t), t') \<and> counts_ok t' \<and> left t' = tl (left t)"
  using assms by (cases "prefix t"; cases "tx t") (auto simp: transfer_byte_get_def counts_ok_def left_def)

lemma write_fill_correct:
  assumes "counts_ok t" "count \<le> 4"
  shows "\<exists>t'. write_fill count v t = (v OR push_bit (8 * count) (le_word (take (4 - count) (left t))),
      count + min (4 - count) (length (left t)), t') \<and> counts_ok t' \<and> left t' = drop (4 - count) (left t)"
  using assms
proof (induction "4 - count" arbitrary: count v t)
  case 0
  then show ?case by (subst write_fill.simps) simp
next
  case (Suc k)
  show ?case
  proof (cases "left t = []")
    case True
    then have "prefix_remaining t = 0" "remaining t = 0" using Suc.prems(1) by (auto simp: counts_ok_def left_def)
    then show ?thesis using True Suc.prems(1) by (subst write_fill.simps) simp
  next
    case False
    then obtain t' where g: "transfer_byte_get t = (hd (left t), t')" "counts_ok t'" "left t' = tl (left t)"
      using transfer_byte_get_left Suc.prems(1) by blast
    have more: "prefix_remaining t \<noteq> 0 \<or> remaining t \<noteq> 0" using False Suc.prems(1) by (auto simp: counts_ok_def left_def)
    have k: "count < 4" "4 - count = Suc (4 - Suc count)" using Suc.hyps(2) by auto
    obtain b bs where lt: "left t = b # bs" using False by (cases "left t") auto
    from Suc.hyps(1) [of "Suc count" t' "v OR push_bit (count * 8) (ucast b)"] Suc.hyps(2) g(2) k
    obtain t'' where "write_fill (Suc count) (v OR push_bit (count * 8) (ucast b)) t' =
        ((v OR push_bit (count * 8) (ucast b)) OR push_bit (8 * Suc count) (le_word (take (4 - Suc count) bs)),
         Suc count + min (4 - Suc count) (length bs), t'')" "counts_ok t''" "left t'' = drop (4 - Suc count) bs"
      using g(3) lt by auto
    then show ?thesis
      using more k(1) g(1) lt unfolding k(2)
      by (subst write_fill.simps) (auto simp: push_bit_or push_bit_push_bit or.assoc algebra_simps)
  qed
qed

section \<open>What goes over the bus\<close>

text \<open>
  The block sends, for every word written to \<^verbatim>\<open>RTB\<close>, as many of its low bytes as the field
  \<^verbatim>\<open>CI\<close> of \<^verbatim>\<open>SYSCON\<close> says; \<open>n\<close> is the number in force at the start.
\<close>

definition ci_count :: "u32 \<Rightarrow> nat" where
  "ci_count v = unat (drop_bit I2Cv1_SYSCON_CI_SHIFT (v AND I2Cv1_SYSCON_CI)) + 1"

fun wire_v1 :: "nat \<Rightarrow> access list \<Rightarrow> u8 list" where
  "wire_v1 n [] = []"
| "wire_v1 n (Wr w a v # xs) =
     (if a = I2Cv1_SYSCON then wire_v1 (ci_count v) xs
      else if a = I2Cv1_RTB then take n (le_bytes 4 v) @ wire_v1 n xs
      else wire_v1 n xs)"
| "wire_v1 n (_ # xs) = wire_v1 n xs"

fun due_v1 :: "nat \<Rightarrow> access list \<Rightarrow> nat" where
  "due_v1 n [] = n"
| "due_v1 n (Wr w a v # xs) = (if a = I2Cv1_SYSCON then due_v1 (ci_count v) xs else due_v1 n xs)"
| "due_v1 n (_ # xs) = due_v1 n xs"

lemma wire_v1_append: "wire_v1 n (xs @ ys) = wire_v1 n xs @ wire_v1 (due_v1 n xs) ys"
  by (induction n xs rule: wire_v1.induct) auto

lemma ci_count_set:
  assumes "1 \<le> k" "k \<le> 4"
  shows "ci_count ((v AND NOT I2Cv1_SYSCON_CI) OR push_bit I2Cv1_SYSCON_CI_SHIFT (of_nat k - 1)) = k"
proof -
  define c :: u32 where "c = of_nat k - 1"
  have k: "k = 1 \<or> k = 2 \<or> k = 3 \<or> k = 4" using assms by auto
  then have c: "c AND 3 = c" "unat c + 1 = k" unfolding c_def by auto
  have ci: "(I2Cv1_SYSCON_CI :: u32) = push_bit 26 3" by simp
  have "drop_bit 26 (((v AND NOT (push_bit 26 3)) OR push_bit 26 c) AND push_bit 26 3) = c AND 3"
  proof (rule bit_word_eqI)
    fix n assume "n < LENGTH(32)"
    have "bit (3 :: u32) n \<Longrightarrow> 26 + n < 32" using bit_mask_iff [of 2 n, where 'a = u32] by (auto simp: mask_eq_decr_exp)
    then show "bit (drop_bit 26 (((v AND NOT (push_bit 26 3)) OR push_bit 26 c) AND push_bit 26 3)) n = bit (c AND 3) n"
      by (simp only: bit_drop_bit_eq bit_and_iff bit_or_iff bit_not_iff bit_push_bit_iff o_apply add_diff_cancel_left' le_add1)
         (auto simp: possible_bit_word)
  qed
  then show ?thesis unfolding ci_count_def ci c_def [symmetric] using c by simp
qed

text \<open>Accesses that put nothing on the bus.\<close>

definition mute :: "access list \<Rightarrow> bool" where
  "mute tr \<longleftrightarrow> written I2Cv1_RTB tr = []"

lemma mute_simps [simp]:
  "mute []" "mute (xs @ ys) \<longleftrightarrow> mute xs \<and> mute ys" "mute (Rd w a v # xs) = mute xs"
  "mute (Wr w a v # xs) \<longleftrightarrow> a \<noteq> I2Cv1_RTB \<and> mute xs"
  by (auto simp: mute_def)

lemma mute_wire: "mute xs \<Longrightarrow> wire_v1 n xs = []"
  by (induction n xs rule: wire_v1.induct) (auto simp: mute_def split: if_splits)

lemma outside_mute: "outside I2Cv1_CLC tr \<Longrightarrow> mute tr"
proof (induction tr)
  case (Cons x xs)
  then show ?case by (cases x) (auto simp: in_block_def mute_def)
qed simp

lemma wdt_outside_v1: "wdt_outside I2Cv1_CLC"
  by (simp add: wdt_outside_def in_block_def)

lemma talks_serve_mute: "talks (wdt_serve E) (\<lambda>_. mute)"
  by (rule logs_in_mono [OF talks_wdt_serve [OF wdt_outside_v1]]) (rule outside_mute)

lemma talks_elapsed_mute: "talks (stopwatch_elapsed_ms E start) (\<lambda>_. mute)"
proof -
  have "talks (stopwatch_elapsed_ms E start) (\<lambda>_. outside I2Cv1_CLC)"
    unfolding stopwatch_elapsed_ms_def stopwatch_scaled_def stopwatch_elapsed_def stopwatch_get_def
    by (intro talks_outside) (simp_all add: in_block_def)
  then show ?thesis by (rule logs_in_mono) (rule outside_mute)
qed

lemma talks_get_mute: "talks (stopwatch_get E) (\<lambda>_. mute)"
  unfolding stopwatch_get_def by (auto intro!: any.in_bind_read any.in_ret)

lemma talks_write_mute: "a \<noteq> I2Cv1_RTB \<Longrightarrow> talks (wr E a v) (\<lambda>_. mute)"
  by (rule any.in_write) simp

lemma talks_stop: "talks (transfer_stop E) (\<lambda>_. mute)"
  unfolding transfer_stop_def by (rule talks_write_mute) simp

lemma talks_size_set:
  "1 \<le> k \<Longrightarrow> k \<le> 4 \<Longrightarrow> talks (buffer_size_set E (of_nat k)) (\<lambda>_ tr. mute tr \<and> (\<forall>n. due_v1 n tr = k))"
  unfolding buffer_size_set_def rmw_def
  by (intro any.in_bind_read any.in_write) (simp add: ci_count_set [simplified])

lemma talks_write_buffer:
  assumes "counts_ok t" "count \<le> 3" "count + length (left t) \<noteq> 0" "v = le_word pre" "length pre = count"
  shows "talks (write_buffer E t v count)
    (\<lambda>t' tr. counts_ok t' \<and> (\<forall>n. wire_v1 n tr @ left t' = pre @ left t))"
proof -
  let ?bs = "take (4 - count) (left t)"
  obtain t' where f: "write_fill count v t = (v OR push_bit (8 * count) (le_word ?bs), count + min (4 - count) (length (left t)), t')"
    and t': "counts_ok t'" "left t' = drop (4 - count) (left t)"
    using write_fill_correct [OF assms(1), of count v] assms(2) by auto
  define k where "k = count + min (4 - count) (length (left t))"
  have "k = min 4 (count + length (left t))" using assms(2) by (auto simp: k_def)
  then have k: "1 \<le> k" "k \<le> 4" "k = length (pre @ ?bs)" using assms(2,3,5) by (linarith, simp, simp)
  have v: "v OR push_bit (8 * count) (le_word ?bs) = le_word (pre @ ?bs)"
    using assms(4,5) by (simp add: le_word_append)
  have "take k (le_bytes 4 (le_word (pre @ ?bs))) = pre @ ?bs"
    using le_bytes_le_word [OF k(3) [symmetric] k(2)] k(2) by (simp add: le_bytes_def take_map min_def split: if_splits)
  then show ?thesis
    unfolding write_buffer_def f v k_def [symmetric] Let_def prod.case
    using t' by (intro any.in_bind [OF talks_size_set [OF k(1,2)]] any.in_bind [OF any.in_write [where P = "\<lambda>_ tr. tr = [Wr W32 I2Cv1_RTB (le_word (pre @ ?bs))]"]] any.in_ret)
       (auto simp: wire_v1_append mute_wire)
qed

text \<open>
  The invariant of a write: what has been put on the bus and what is left are together what there was.
\<close>

definition wrote :: "i2c_transfer \<Rightarrow> i2c_transfer \<Rightarrow> access list \<Rightarrow> bool" where
  "wrote t0 t tr \<longleftrightarrow> counts_ok t \<and> (\<forall>n. wire_v1 n tr @ left t = left t0)"

lemma wrote_mute: "wrote t0 t tr \<Longrightarrow> mute xs \<Longrightarrow> wrote t0 t (xs @ tr)"
  by (auto simp: wrote_def wire_v1_append mute_wire)

lemma wrote_trans: "wrote t0 t1 xs \<Longrightarrow> wrote t1 t2 ys \<Longrightarrow> wrote t0 t2 (xs @ ys)"
  by (auto simp: wrote_def wire_v1_append)

lemma talks_data_request_write:
  assumes "counts_ok t"
  shows "talks (data_request E False t) (wrote t)"
proof -
  have "left t \<noteq> []" if "prefix_remaining t \<noteq> 0 \<or> remaining t \<noteq> 0"
    using that assms by (auto simp: counts_ok_def left_def)
  then have "talks (write_buffer E t 0 0) (\<lambda>t' tr. wrote t t' tr)" if "prefix_remaining t \<noteq> 0 \<or> remaining t \<noteq> 0"
    using talks_write_buffer [OF assms, of 0 0 "[]" E] that by (auto simp: wrote_def elim: logs_in_mono)
  moreover have "wrote t (t\<lparr>stop_requested := True\<rparr>) tr" if "mute tr" for tr
    using that assms by (auto simp: wrote_def counts_ok_def left_def mute_wire)
  ultimately show ?thesis
    unfolding data_request_def
    by (cases "prefix_remaining t \<noteq> 0 \<or> remaining t \<noteq> 0") (simp_all add: any.in_bind [OF talks_write_mute] any.in_ret)
qed

lemma talks_when_mute: "a \<noteq> I2Cv1_RTB \<Longrightarrow> talks (whenM b (wr E a v)) (\<lambda>_. mute)"
  by (auto intro!: any.in_when talks_write_mute)

definition wrote_all :: "i2c_transfer \<Rightarrow> bool \<times> i2c_transfer \<Rightarrow> access list \<Rightarrow> bool" where
  "wrote_all t r tr \<longleftrightarrow> wrote t (snd r) tr \<and> (fst r \<longrightarrow> left (snd r) = [])"

lemma talks_loop_write:
  fixes E :: "'h env"
  assumes "counts_ok t"
  shows "talks (transfer_wait_loop n E start False t :: (('h, 'z) watched_scheme, bool \<times> i2c_transfer) cmd) (wrote_all t)"
  using assms
proof (induction n arbitrary: t)
  case 0
  then show ?case by (simp add: any.in_fail)
next
  case (Suc n)
  have self: "wrote t t tr" if "mute tr" for tr using that Suc.prems by (auto simp: wrote_def mute_wire)
  have stop: "talks (bindM (transfer_stop E) (\<lambda>_. retM (ok, t')) :: (('h, 'z) watched_scheme, bool \<times> i2c_transfer) cmd) (\<lambda>r tr. wrote_all t r (pre @ tr))"
    if "wrote t t' pre" "ok \<longrightarrow> left t' = []" for pre ok t'
    using that by (intro any.in_bind [OF talks_stop] any.in_ret) (auto simp: wrote_all_def wrote_def wire_v1_append mute_wire)
  have empty: "left t' = []" if "wrote t t' tr" "remaining t' = 0 \<and> prefix_remaining t' = 0" for t' tr
    using that by (auto simp: wrote_def counts_ok_def left_def)
  have more: "talks (bindM (wdt_serve E) (\<lambda>_. transfer_wait_loop n E start False t')
      :: (('h, 'z) watched_scheme, bool \<times> i2c_transfer) cmd) (\<lambda>r tr. wrote_all t r (pre @ tr))" if "wrote t t' pre" for pre t'
  proof (rule any.in_bind [OF talks_serve_mute])
    fix x :: unit and t1 assume "mute t1"
    have "counts_ok t'" using that by (simp add: wrote_def)
    from Suc.IH [OF this] show "talks (transfer_wait_loop n E start False t' :: (('h, 'z) watched_scheme, bool \<times> i2c_transfer) cmd)
      (\<lambda>r t2. wrote_all t r (pre @ t1 @ t2))"
      by (rule logs_in_mono) (auto simp: wrote_all_def intro: wrote_trans [OF that] wrote_mute [OF _ \<open>mute t1\<close>])
  qed
  have request: "talks (if b then data_request E False t else retM t :: (('h, 'z) watched_scheme, i2c_transfer) cmd) (\<lambda>t' tr. wrote t t' (pre @ tr))" if "mute pre" for b pre
    using logs_in_mono [OF talks_data_request_write [OF Suc.prems], of "\<lambda>t' tr. wrote t t' (pre @ tr)"] self [OF that] wrote_mute [OF _ that]
    by (auto intro: any.in_ret)
  have finish: "talks (if b then bindM (transfer_stop E) (\<lambda>_. retM (remaining t' = 0 \<and> prefix_remaining t' = 0, t'))
        else bindM (wdt_serve E) (\<lambda>_. transfer_wait_loop n E start False t')
      :: (('h, 'z) watched_scheme, bool \<times> i2c_transfer) cmd) (\<lambda>r tr. wrote_all t r (pre @ tr))"
    if "wrote t t' pre" for b pre t'
    using that empty [OF that] by (intro any.in_if stop more) auto
  have tail: "talks (if b then bindM (transfer_stop E) (\<lambda>_. retM (False, t)) else
        bindM (if c then data_request E False t else retM t) (\<lambda>t'.
        if d then bindM (transfer_stop E) (\<lambda>_. retM (remaining t' = 0 \<and> prefix_remaining t' = 0, t'))
        else bindM (wdt_serve E) (\<lambda>_. transfer_wait_loop n E start False t'))
      :: (('h, 'z) watched_scheme, bool \<times> i2c_transfer) cmd) (\<lambda>r tr. wrote_all t r (pre @ tr))"
    if "mute pre" for b c d pre
  proof (rule any.in_if)
    show "talks (bindM (transfer_stop E) (\<lambda>_. retM (False, t)) :: (('h, 'z) watched_scheme, bool \<times> i2c_transfer) cmd)
        (\<lambda>r tr. wrote_all t r (pre @ tr))"
      by (rule stop [OF self [OF that]]) simp
    show "talks (bindM (if c then data_request E False t else retM t) (\<lambda>t'.
        if d then bindM (transfer_stop E) (\<lambda>_. retM (remaining t' = 0 \<and> prefix_remaining t' = 0, t'))
        else bindM (wdt_serve E) (\<lambda>_. transfer_wait_loop n E start False t'))
      :: (('h, 'z) watched_scheme, bool \<times> i2c_transfer) cmd) (\<lambda>r tr. wrote_all t r (pre @ tr))"
      by (rule any.in_bind [OF request [OF that]], drule finish [of _ _ d]) simp
  qed
  show ?case
    unfolding transfer_wait_loop.simps Let_def
    by (rule any.in_bind [OF talks_elapsed_mute], rule any.in_if, rule stop, simp add: self, simp,
        rule any.in_bind_read, rule any.in_bind [OF talks_when_mute], simp,
        use tail [of "_ @ Rd W32 I2Cv1_SYSCON _ # _"] in simp)
qed

lemma address_byte: "address < 0x80 \<Longrightarrow> push_bit 1 (ucast address) = le_word [push_bit 1 (address :: u8)]"
proof -
  assume "address < 0x80"
  then have "unat address < 128" by (simp add: word_less_nat_alt)
  then show ?thesis by (simp add: word_unat_eq_iff unat_word_ariths)
qed

lemma talks_write_v1:
  fixes E :: "'h env"
  assumes "address < 0x80"
  shows "talks (i2c_hw_write_v1 E address pre data :: (('h, 'z) watched_scheme, bool) cmd)
    (\<lambda>ok tr. ok \<longrightarrow> (\<forall>n. wire_v1 n tr = push_bit 1 address # pre @ data))"
proof -
  define t0 where "t0 = \<lparr>prefix = pre, tx = data, rx = [], prefix_remaining = length pre, remaining = length data,
               address_sent = True, stop_requested = False\<rparr>"
  have t0: "counts_ok t0" "left t0 = pre @ data" by (simp_all add: t0_def counts_ok_def left_def)
  have fill: "talks (write_buffer E t0 (push_bit 1 (ucast address)) 1 :: (('h, 'z) watched_scheme, i2c_transfer) cmd)
      (\<lambda>t' tr. counts_ok t' \<and> (\<forall>n. wire_v1 n tr @ left t' = push_bit 1 address # pre @ data))"
    using talks_write_buffer [OF t0(1), of 1 _ "[push_bit 1 address]" E] address_byte [OF assms] t0(2) by simp
  have wait: "talks (mapM fst (transfer_wait_v1 E t' False) :: (('h, 'z) watched_scheme, bool) cmd)
      (\<lambda>ok tr. ok \<longrightarrow> (\<forall>n. wire_v1 n tr = left t'))" if "counts_ok t'" for t'
    unfolding transfer_wait_v1_def
    by (rule any.in_map, rule any.in_bind [OF talks_get_mute], rule logs_in_mono [OF talks_loop_write [OF that]])
       (auto simp: wrote_all_def wrote_def wire_v1_append mute_wire)
  show ?thesis
    unfolding i2c_hw_write_v1_def t0_def [symmetric] Let_def
    by (rule any.in_bind [OF talks_write_mute], simp, rule any.in_bind [OF fill], rule any.in_bind [OF talks_write_mute], simp,
        rule logs_in_mono [OF wait]) (auto simp: wire_v1_append mute_wire)
qed

text \<open>
  A write of the PMB8875 driver that reports success has put on the bus the address with the write
  bit, the prefix and the data, byte for byte and in this order, across the refills of the
  four-byte buffer and whatever order the interrupt flags come in.
\<close>

theorem i2c_v1_write_wire:
  assumes "address < 0x80"
  shows "wlpM (i2c_hw_write_v1 E address pre data)
    (\<lambda>ok t. ok \<longrightarrow> (\<exists>tr. trace t = trace s @ tr \<and> wire_v1 n tr = push_bit 1 address # pre @ data)) s"
  by (rule logs_in_wlp [OF talks_write_v1 [OF assms]]) auto

text \<open>A block that asks for data and then reports the end of the transfer with every status read.\<close>

definition willing_v1 :: "unit env" where
  "willing_v1 = const_dev (\<lambda>a. if a = I2Cv1_SYSCON then I2Cv1_SYSCON_IRQD OR I2Cv1_SYSCON_IRQE else 0)"

lemma willing_v1_accepts: "\<exists>t. i2c_hw_write_v1 willing_v1 0x31 [0x10] [1, 2, 3, 4] (idle ()) = Inr (True, t)"
proof -
  have fuel: "fuel willing_v1 = Suc 9" by (simp add: willing_v1_def const_dev_def)
  have fill: "write_fill (Suc 0) 0x62 \<lparr>prefix = [0x10], tx = [1, 2, 3, 4], rx = [], prefix_remaining = Suc 0, remaining = Suc (Suc (Suc (Suc 0))),
        address_sent = True, stop_requested = False\<rparr> =
      (0x2011062, 4, \<lparr>prefix = [], tx = [3, 4], rx = [], prefix_remaining = 0, remaining = 2,
        address_sent = True, stop_requested = False\<rparr>)"
    "write_fill 0 0 \<lparr>prefix = [], tx = [3, 4], rx = [], prefix_remaining = 0, remaining = 2,
        address_sent = True, stop_requested = False\<rparr> =
      (0x403, 2, \<lparr>prefix = [], tx = [], rx = [], prefix_remaining = 0, remaining = 0,
        address_sent = True, stop_requested = False\<rparr>)"
    by code_simp+
  show ?thesis
    unfolding i2c_hw_write_v1_def transfer_wait_v1_def fuel transfer_wait_loop.simps(2)
    by (simp add: fill cmd_eval write_buffer_def buffer_size_set_def willing_v1_def const_dev_def stopwatch_get_def
        stopwatch_elapsed_ms_def stopwatch_scaled_def stopwatch_elapsed_def data_request_def transfer_stop_def Let_def)
qed

theorem i2c_v1_write_wire_witness:
  "\<exists>t. i2c_hw_write_v1 willing_v1 0x31 [0x10] [1, 2, 3, 4] (idle ()) = Inr (True, t) \<and>
     wire_v1 0 (trace t) = [0x62, 0x10, 1, 2, 3, 4]"
proof -
  obtain t where t: "i2c_hw_write_v1 willing_v1 0x31 [0x10] [1, 2, 3, 4] (idle ()) = Inr (True, t)"
    using willing_v1_accepts by blast
  then show ?thesis
    using wlpD [OF i2c_v1_write_wire [of "0x31" willing_v1 "[0x10]" "[1, 2, 3, 4]" "idle ()" 0] t] by simp
qed

section \<open>Reading\<close>

definition stored :: "nat \<Rightarrow> i2c_transfer \<Rightarrow> bool" where
  "stored n t \<longleftrightarrow> length (rx t) + remaining t = n"

lemma talks_rmw: "talks (rmw E a f) (\<lambda>_ _. True)"
  unfolding rmw_def by (auto intro: any.in_bind_read any.in_write)

lemma talks_field: "talks (field E a m n) (\<lambda>_ _. True)"
  unfolding field_def by (auto intro: any.in_map any.in_read)

lemma talks_read_buffer: "stored n t \<Longrightarrow> talks (read_buffer E t) (\<lambda>t' _. stored n t')"
  unfolding read_buffer_def Let_def
  by (auto intro!: talks_then [OF talks_field] talks_then [OF talks_rmw] any.in_bind_read any.in_ret simp: stored_def)

lemma talks_data_request_read:
  assumes "stored n t"
  shows "talks (data_request E True t) (\<lambda>t' _. stored n t')"
proof -
  have first: "talks (if address_sent t then read_buffer E t
      else bindM (wr E I2Cv1_WHBSYSCON I2Cv1_WHBSYSCON_CLRTRX) (\<lambda>_. retM (t\<lparr>address_sent := True\<rparr>))) (\<lambda>t' _. stored n t')"
    using assms talks_read_buffer
    by (auto intro!: talks_then [OF any.in_write [where P = "\<lambda>_ _. True"]] any.in_ret simp: stored_def)
  have size: "talks (if b then bindM (buffer_size_set E k) (\<lambda>_. whenM c (wr E a v)) else retM ()) (\<lambda>_ _. True)" for b k c a v
    unfolding buffer_size_set_def
    by (auto intro!: talks_then [OF talks_rmw] any.in_when any.in_write any.in_ret)
  show ?thesis
    unfolding data_request_def
    by (rule any.in_if, simp, rule any.in_bind [OF first], rule talks_then [OF size], rule any.in_bind_read) (simp add: any.in_ret)
qed

lemma talks_loop_read:
  fixes E :: "'h env"
  assumes "stored n t"
  shows "talks (transfer_wait_loop k E start True t :: (('h, 'z) watched_scheme, bool \<times> i2c_transfer) cmd)
    (\<lambda>r _. stored n (snd r) \<and> (fst r \<longrightarrow> remaining (snd r) = 0))"
  using assms
proof (induction k arbitrary: t)
  case (Suc k)
  have request: "talks (if c then data_request E True t else retM t) (\<lambda>t' _. stored n t')" for c
    using talks_data_request_read [OF Suc.prems] Suc.prems by (auto intro: any.in_ret)
  have stop: "talks (bindM (transfer_stop E) (\<lambda>_. retM (ok, t'))) (\<lambda>r _. stored n (snd r) \<and> (fst r \<longrightarrow> remaining (snd r) = 0))"
    if "stored n t'" "ok \<longrightarrow> remaining t' = 0" for ok t'
    using that by (intro talks_then [OF talks_stop] any.in_ret) simp
  show ?case
    unfolding transfer_wait_loop.simps Let_def
    by (rule talks_then [OF talks_elapsed_mute], rule any.in_if, rule stop, rule Suc.prems, simp,
        rule any.in_bind_read, rule talks_then [OF talks_when_mute], simp, rule any.in_if, rule stop, rule Suc.prems, simp,
        rule any.in_bind [OF request], rule any.in_if, rule stop, assumption, simp,
        rule talks_then [OF talks_serve_mute], rule Suc.IH)
qed (simp add: any.in_fail)

lemma read_v1_spec:
  "wlpM (i2c_hw_read_v1 E address n) (\<lambda>r t. length (snd r) \<le> n \<and> (fst r \<longrightarrow> length (snd r) = n)) s"
proof -
  define t0 where "t0 = \<lparr>prefix = [], tx = [], rx = [], prefix_remaining = 0, remaining = n,
               address_sent = False, stop_requested = False\<rparr>"
  have t0: "stored n t0" by (simp add: t0_def stored_def)
  note skip = talks_then [OF any.in_write [where P = "\<lambda>_ _. True"]]
  have size: "talks (buffer_size_set E 1) (\<lambda>_ _. True)" unfolding buffer_size_set_def by (rule talks_rmw)
  have "talks (i2c_hw_read_v1 E address n) (\<lambda>r _. length (snd r) \<le> n \<and> (fst r \<longrightarrow> length (snd r) = n))"
    unfolding i2c_hw_read_v1_def t0_def [symmetric] Let_def transfer_wait_v1_def
    by (rule any.in_if, simp add: any.in_ret, rule talks_then [OF size], rule skip, simp, rule skip, simp, rule any.in_map,
        rule talks_then [OF talks_get_mute], rule logs_in_mono [OF talks_loop_read [OF t0]])
       (auto simp: stored_def)
  then show ?thesis by (rule logs_in_wlp)
qed

definition bus_v1 :: "('h, 'z) machine_scheme \<Rightarrow> u8 list" where
  "bus_v1 s = wire_v1 1 (trace s)"

interpretation v1: i2c_driver "i2c_hw_write_v1 E" "i2c_hw_read_v1 E" bus_v1 for E
proof
  fix address :: u8 and pre data :: "u8 list" and s :: "('a, 'b) watched_scheme"
  assume "address < 0x80"
  from talks_write_v1 [OF this, of E pre data]
  show "wlpM (i2c_hw_write_v1 E address pre data) (\<lambda>ok t. ok \<longrightarrow> bus_v1 t = bus_v1 s @ push_bit 1 address # pre @ data) s"
    by (rule logs_in_wlp) (simp add: bus_v1_def wire_v1_append)
next
  fix n :: nat and address :: u8 and s :: "('a, 'b) watched_scheme"
  show "wlpM (i2c_hw_read_v1 E address n) (\<lambda>(ok, bs) t. length bs \<le> n \<and> (ok \<longrightarrow> length bs = n)) s"
    by (rule wlp_mono [OF read_v1_spec]) auto
qed

end
