(* ===== verification/I2c_V2.thy ===== *)
theory I2c_V2
  imports I2c_Contract
begin

text \<open>
  The driver of the I2C block of the PMB8876 (\<^verbatim>\<open>src/lib/i2c-v2.c\<close>). Its waiting loops are bounded
  by a poll limit, which is a parameter \<open>n\<close> of the loops and \<open>I2C_POLL_LIMIT\<close> in the driver.
\<close>

section \<open>Definitions\<close>

definition I2C_POLL_LIMIT :: nat where "I2C_POLL_LIMIT = 1000000"
abbreviation (input) I2C_STATUS_CLEAR :: u32 where "I2C_STATUS_CLEAR \<equiv> 0x3F"
abbreviation (input) I2C_PROTOCOL_CLEAR :: u32 where "I2C_PROTOCOL_CLEAR \<equiv> 0x7F"
abbreviation (input) I2C_ERROR_CLEAR :: u32 where "I2C_ERROR_CLEAR \<equiv> 0x0F"
definition I2C_REQUESTS :: u32 where
  "I2C_REQUESTS = I2Cv2_RIS_LSREQ_INT OR I2Cv2_RIS_SREQ_INT OR I2Cv2_RIS_LBREQ_INT OR I2Cv2_RIS_BREQ_INT"

definition status_clear :: "'h env \<Rightarrow> (('h, 'z) watched_scheme, unit) cmd" where
  "status_clear E =
     seqM [wr E I2Cv2_ICR I2C_STATUS_CLEAR, wr E I2Cv2_PIRQSC I2C_PROTOCOL_CLEAR, wr E I2Cv2_ERRIRQSC I2C_ERROR_CLEAR]"

primrec abort_wait :: "nat \<Rightarrow> 'h env \<Rightarrow> (('h, 'z) watched_scheme, unit) cmd" where
  "abort_wait 0 E = retM ()"
| "abort_wait (Suc n) E =
     bindM (rd E I2Cv2_BUSSTAT) (\<lambda>v.
     if v AND I2Cv2_BUSSTAT_BS = I2Cv2_BUSSTAT_BS_FREE then retM ()
     else bindM (wdt_serve E) (\<lambda>_. abort_wait n E))"

definition transfer_abort :: "'h env \<Rightarrow> (('h, 'z) watched_scheme, unit) cmd" where
  "transfer_abort E =
     seqM [wr E I2Cv2_ENDDCTRL I2Cv2_ENDDCTRL_SETEND,
           abort_wait I2C_POLL_LIMIT E,
           wr E I2Cv2_RUNCTRL 0,
           wr E I2Cv2_RUNCTRL I2Cv2_RUNCTRL_RUN,
           status_clear E]"

text \<open>\<^verbatim>\<open>(I2C_PIRQSS & I2C_PIRQSS_NACK) != 0 || I2C_ERRIRQSS != 0\<close> for a status \<open>p\<close> that was read.\<close>

definition transfer_failed :: "'h env \<Rightarrow> u32 \<Rightarrow> (('h, 'z) watched_scheme, bool) cmd" where
  "transfer_failed E p =
     (if p AND I2Cv2_PIRQSS_NACK \<noteq> 0 then retM True else mapM (\<lambda>e. e \<noteq> 0) (rd E I2Cv2_ERRIRQSS))"

primrec request_wait :: "nat \<Rightarrow> 'h env \<Rightarrow> (('h, 'z) watched_scheme, u32) cmd" where
  "request_wait 0 E = retM 0"
| "request_wait (Suc n) E =
     bindM (mapM (\<lambda>v. v AND I2C_REQUESTS) (rd E I2Cv2_RIS)) (\<lambda>request.
     if request \<noteq> 0 then retM request else
     bindM (rd E I2Cv2_PIRQSS) (\<lambda>p. bindM (transfer_failed E p) (\<lambda>failed.
     if failed then retM 0 else bindM (wdt_serve E) (\<lambda>_. request_wait n E))))"

primrec transfer_wait_v2 :: "nat \<Rightarrow> 'h env \<Rightarrow> (('h, 'z) watched_scheme, bool) cmd" where
  "transfer_wait_v2 0 E = retM False"
| "transfer_wait_v2 (Suc n) E =
     bindM (rd E I2Cv2_PIRQSS) (\<lambda>status. bindM (transfer_failed E status) (\<lambda>failed.
     if failed then retM False
     else if status AND I2Cv2_PIRQSS_TX_END \<noteq> 0 then retM True
     else bindM (wdt_serve E) (\<lambda>_. transfer_wait_v2 n E)))"

text \<open>The next byte comes out of the prefix as long as it lasts, then out of the data.\<close>

definition byte_get :: "u8 list \<times> u8 list \<Rightarrow> u8 \<times> (u8 list \<times> u8 list)" where
  "byte_get = (\<lambda>(prefix, data). if prefix \<noteq> [] then (hd prefix, (tl prefix, data)) else (hd data, (prefix, tl data)))"

definition i2c_hw_init_v2 :: "'h env \<Rightarrow> (('h, 'z) watched_scheme, unit) cmd" where
  "i2c_hw_init_v2 E =
     seqM [wr E (GPIO_PIN GPIO_I2C_SCL) (GPIO_IS_ALT0 OR GPIO_OS_ALT0 OR GPIO_PPEN_OPENDRAIN OR GPIO_PS_ALT OR GPIO_DIR_IN),
           wr E (GPIO_PIN GPIO_I2C_SDA) (GPIO_IS_ALT0 OR GPIO_OS_ALT0 OR GPIO_PPEN_OPENDRAIN OR GPIO_PS_ALT OR GPIO_DIR_IN),
           wr E I2Cv2_CLC (push_bit MOD_CLC_RMC_SHIFT 10),
           wr E I2Cv2_RUNCTRL 0,
           wr E I2Cv2_ADDRCFG (I2Cv2_ADDRCFG_MnS OR I2Cv2_ADDRCFG_SONA OR I2Cv2_ADDRCFG_SOPE),
           wr E I2Cv2_FIFOCFG (I2Cv2_FIFOCFG_RXBS_1_WORD OR I2Cv2_FIFOCFG_TXBS_1_WORD OR I2Cv2_FIFOCFG_RXFA_1 OR
             I2Cv2_FIFOCFG_RXFC OR I2Cv2_FIFOCFG_TXFC),
           wr E I2Cv2_FDIVCFG (push_bit I2Cv2_FDIVCFG_DEC_SHIFT 0x0A OR push_bit I2Cv2_FDIVCFG_INC_SHIFT 1),
           wr E I2Cv2_RUNCTRL I2Cv2_RUNCTRL_RUN,
           wr E I2Cv2_IMSC 0,
           status_clear E]"

text \<open>
  The word of up to four bytes that the inner loop of \<^verbatim>\<open>i2c_hw_write\<close> assembles, from \<open>count\<close>
  bytes at \<open>offset\<close>; the state is \<^verbatim>\<open>address_pending\<close>, the prefix and the data.
\<close>

primrec tx_word :: "nat \<Rightarrow> nat \<Rightarrow> u8 \<Rightarrow> u32 \<Rightarrow> bool \<times> u8 list \<times> u8 list \<Rightarrow> u32 \<times> (bool \<times> u8 list \<times> u8 list)" where
  "tx_word 0 offset address v tx = (v, tx)"
| "tx_word (Suc count) offset address v tx =
     (let (address_pending, bufs) = tx;
          (byte, tx) = (if address_pending then (push_bit 1 address, (False, bufs))
                        else let (byte, bufs) = byte_get bufs in (byte, (False, bufs)))
      in tx_word count (offset + 1) address (v OR push_bit (offset * 8) (ucast byte)) tx)"

function write_loop ::
  "'h env \<Rightarrow> u8 \<Rightarrow> nat \<Rightarrow> bool \<times> u8 list \<times> u8 list \<Rightarrow> (('h, 'z) watched_scheme, bool) cmd" where
  "write_loop E address remaining tx =
     (if remaining = 0 then
        bindM (transfer_wait_v2 I2C_POLL_LIMIT E) (\<lambda>complete.
        bindM (if complete then status_clear E else transfer_abort E) (\<lambda>_. retM complete))
      else
        bindM (request_wait I2C_POLL_LIMIT E) (\<lambda>request.
        if request = 0 then bindM (transfer_abort E) (\<lambda>_. retM False)
        else
          let count = min remaining 4; (v, tx) = tx_word count 0 address 0 tx
          in bindM (wr E I2Cv2_TXD v) (\<lambda>_. bindM (wr E I2Cv2_ICR request) (\<lambda>_.
             write_loop E address (remaining - count) tx))))"
  by pat_completeness auto
termination
  by (relation "measure (\<lambda>(E, address, remaining, tx). remaining)") auto

declare write_loop.simps [simp del]

definition i2c_hw_write_v2 ::
  "'h env \<Rightarrow> u8 \<Rightarrow> u8 list \<Rightarrow> u8 list \<Rightarrow> (('h, 'z) watched_scheme, bool) cmd" where
  "i2c_hw_write_v2 E address prefix data =
     (let total = add32 (add32 (length prefix) (length data)) 1
      in bindM (status_clear E) (\<lambda>_. bindM (wr E I2Cv2_TPSCTRL (of_nat total)) (\<lambda>_.
         write_loop E address total (True, prefix, data))))"

text \<open>The receive loop; it returns \<^verbatim>\<open>complete\<close> and the bytes stored, \<open>got\<close> those stored so far.\<close>

primrec read_loop ::
  "nat \<Rightarrow> 'h env \<Rightarrow> nat \<Rightarrow> bool \<Rightarrow> nat \<Rightarrow> u8 list \<Rightarrow> (('h, 'z) watched_scheme, bool \<times> u8 list) cmd" where
  "read_loop 0 E n receiving remaining got = retM (False, got)"
| "read_loop (Suc k) E n receiving remaining got =
     bindM (rd E I2Cv2_PIRQSS) (\<lambda>protocol_status. bindM (transfer_failed E protocol_status) (\<lambda>failed.
     if failed then retM (False, got) else
     let receiving = (receiving \<or> protocol_status AND I2Cv2_PIRQSS_RX \<noteq> 0) in
     bindM (mapM (\<lambda>v. v AND I2C_REQUESTS) (rd E I2Cv2_RIS)) (\<lambda>request.
     bindM (if receiving \<and> request \<noteq> 0
            then mapM (\<lambda>v. v AND I2Cv2_FFSSTAT_FFS \<noteq> 0 \<and> remaining \<noteq> 0) (rd E I2Cv2_FFSSTAT)
            else retM False) (\<lambda>available.
     bindM (if available
            then bindM (rd E I2Cv2_RXD) (\<lambda>v. bindM (wr E I2Cv2_ICR request) (\<lambda>_. retM (le_bytes (min remaining 4) v)))
            else retM []) (\<lambda>bs.
     let remaining = remaining - length bs; got = got @ bs in
     if remaining = 0 \<and> protocol_status AND I2Cv2_PIRQSS_TX_END \<noteq> 0
     then mapM (\<lambda>v. (v AND I2Cv2_RPSSTAT_RPS = of_nat n, got)) (rd E I2Cv2_RPSSTAT)
     else bindM (wdt_serve E) (\<lambda>_. read_loop k E n receiving remaining got))))))"

definition i2c_hw_read_v2 :: "'h env \<Rightarrow> u8 \<Rightarrow> nat \<Rightarrow> (('h, 'z) watched_scheme, bool \<times> u8 list) cmd" where
  "i2c_hw_read_v2 E address n =
     (if n = 0 then retM (True, []) else
      bindM (seqM [status_clear E, wr E I2Cv2_MRPSCTRL (of_nat n), wr E I2Cv2_TPSCTRL 1]) (\<lambda>_.
      bindM (request_wait I2C_POLL_LIMIT E) (\<lambda>request.
      if request = 0 then bindM (transfer_abort E) (\<lambda>_. retM (False, []))
      else
        bindM (wr E I2Cv2_TXD (push_bit 1 (ucast address) OR 1)) (\<lambda>_. bindM (wr E I2Cv2_ICR request) (\<lambda>_.
        bindM (read_loop I2C_POLL_LIMIT E n False n []) (\<lambda>(complete, got).
        bindM (if complete then status_clear E else transfer_abort E) (\<lambda>_. retM (complete, got))))))))"

section \<open>What goes over the bus\<close>

text \<open>
  The block sends as many bytes as \<^verbatim>\<open>TPSCTRL\<close> says, out of the words written to \<^verbatim>\<open>TXD\<close>, lowest
  byte first. \<open>wire_v2 n tr\<close> is what it sends during the accesses \<open>tr\<close> when \<open>n\<close> bytes are still due.
\<close>

fun wire_v2 :: "nat \<Rightarrow> access list \<Rightarrow> u8 list" where
  "wire_v2 n [] = []"
| "wire_v2 n (Wr w a v # xs) =
     (if a = I2Cv2_TPSCTRL then wire_v2 (unat v) xs
      else if a = I2Cv2_TXD then take n (le_bytes 4 v) @ wire_v2 (n - 4) xs
      else wire_v2 n xs)"
| "wire_v2 n (_ # xs) = wire_v2 n xs"

fun due_v2 :: "nat \<Rightarrow> access list \<Rightarrow> nat" where
  "due_v2 n [] = n"
| "due_v2 n (Wr w a v # xs) =
     (if a = I2Cv2_TPSCTRL then due_v2 (unat v) xs else if a = I2Cv2_TXD then due_v2 (n - 4) xs else due_v2 n xs)"
| "due_v2 n (_ # xs) = due_v2 n xs"

lemma wire_v2_append: "wire_v2 n (xs @ ys) = wire_v2 n xs @ wire_v2 (due_v2 n xs) ys"
  by (induction n xs rule: wire_v2.induct) auto

definition no_tx :: "access list \<Rightarrow> bool" where
  "no_tx tr \<longleftrightarrow> written I2Cv2_TPSCTRL tr = [] \<and> written I2Cv2_TXD tr = []"

lemma no_tx_simps [simp]:
  "no_tx []" "no_tx (xs @ ys) \<longleftrightarrow> no_tx xs \<and> no_tx ys" "no_tx (Rd w a v # xs) = no_tx xs"
  "no_tx (Wr w a v # xs) \<longleftrightarrow> a \<noteq> I2Cv2_TPSCTRL \<and> a \<noteq> I2Cv2_TXD \<and> no_tx xs"
  by (auto simp: no_tx_def)

lemma no_tx_wire: "no_tx xs \<Longrightarrow> wire_v2 n xs = [] \<and> due_v2 n xs = n"
  by (induction n xs rule: wire_v2.induct) (auto simp: no_tx_def split: if_splits)

lemma outside_no_tx: "outside I2Cv2_CLC tr \<Longrightarrow> no_tx tr"
proof (induction tr)
  case (Cons x xs)
  then show ?case by (cases x) (auto simp: in_block_def no_tx_def)
qed simp

lemma wdt_outside_v2: "wdt_outside I2Cv2_CLC"
  by (simp add: wdt_outside_def in_block_def)

lemma talks_serve_no_tx: "talks (wdt_serve E) (\<lambda>_. no_tx)"
  by (rule logs_in_mono [OF talks_wdt_serve [OF wdt_outside_v2]]) (rule outside_no_tx)

lemma talks_bind_no_tx: "talks c (\<lambda>_. no_tx) \<Longrightarrow> (\<And>x. talks (f x) (\<lambda>_. no_tx)) \<Longrightarrow> talks (bindM c f) (\<lambda>_. no_tx)"
  by (erule any.in_bind) (simp add: logs_in_mono)

lemmas no_tx_intros = talks_bind_no_tx any.in_if any.in_map any.in_read any.in_ret any.in_write

lemma talks_status_clear: "talks (status_clear E) (\<lambda>_. no_tx)"
  unfolding status_clear_def by (intro any.in_seq_write any.in_seq_Nil) simp

lemma talks_transfer_failed: "talks (transfer_failed E p) (\<lambda>_. no_tx)"
  unfolding transfer_failed_def by (intro no_tx_intros) simp_all

lemma talks_waits:
  "talks (abort_wait n E) (\<lambda>_. no_tx)" "talks (request_wait n E) (\<lambda>_. no_tx)"
    "talks (transfer_wait_v2 n E) (\<lambda>_. no_tx)"
  by (induction n; simp; intro no_tx_intros talks_transfer_failed talks_serve_no_tx; simp)+

lemma talks_transfer_abort: "talks (transfer_abort E) (\<lambda>_. no_tx)"
  unfolding transfer_abort_def seqM.simps
  by (intro no_tx_intros talks_waits talks_status_clear) simp_all

subsection \<open>The words of a write\<close>

fun tx_bytes :: "u8 \<Rightarrow> bool \<times> u8 list \<times> u8 list \<Rightarrow> u8 list" where
  "tx_bytes address (pending, prefix, data) = (if pending then [push_bit 1 address] else []) @ prefix @ data"

lemma tx_word_correct:
  assumes "count \<le> length (tx_bytes address tx)"
  shows "\<exists>tx'. tx_word count offset address v tx =
      (v OR push_bit (offset * 8) (le_word (take count (tx_bytes address tx))), tx') \<and>
    tx_bytes address tx' = drop count (tx_bytes address tx)"
  using assms
proof (induction count arbitrary: offset v tx)
  case (Suc count)
  obtain pending prefix data where tx: "tx = (pending, prefix, data)" by (cases tx)
  define b where "b = (if pending then push_bit 1 address else if prefix \<noteq> [] then hd prefix else hd data)"
  define tx1 where "tx1 = (False, if pending then (prefix, data) else if prefix \<noteq> [] then (tl prefix, data) else ([], tl data))"
  have n: "tx_word (Suc count) offset address v tx =
      tx_word count (offset + 1) address (v OR push_bit (offset * 8) (ucast b)) tx1"
    by (simp add: tx byte_get_def b_def tx1_def)
  have bs: "tx_bytes address tx = b # tx_bytes address tx1"
    using Suc.prems by (cases prefix; cases data) (auto simp: tx b_def tx1_def split: if_splits)
  from Suc.IH [of tx1 "offset + 1" "v OR push_bit (offset * 8) (ucast b)"] Suc.prems
  show ?case
    unfolding n bs
    by (auto simp: push_bit_or push_bit_push_bit or.assoc add.commute)
qed simp

lemma talks_write_loop:
  fixes E :: "'h env"
  assumes "length (tx_bytes address tx) = remaining"
  shows "talks (write_loop E address remaining tx :: (('h, 'z) watched_scheme, bool) cmd)
    (\<lambda>ok tr. ok \<longrightarrow> wire_v2 remaining tr = tx_bytes address tx)"
  using assms
proof (induction remaining arbitrary: tx rule: less_induct)
  case (less remaining)
  let ?bs = "tx_bytes address tx"
  define count where "count = min remaining 4"
  obtain tx' where w: "tx_word count 0 address 0 tx = (le_word (take count ?bs), tx')"
    and tx': "tx_bytes address tx' = drop count ?bs"
    using tx_word_correct [of count address tx 0 0] less.prems by (auto simp: count_def)
  have len: "length (take count ?bs) = count" "count \<le> 4" using less.prems by (auto simp: count_def)
  have chunk: "take remaining (le_bytes 4 (le_word (take count ?bs))) = take count ?bs"
    using le_bytes_le_word [OF len(1)] len(2) by (auto simp: le_bytes_def take_map count_def min_def)
  have step: "talks (bindM (wr E I2Cv2_TXD (le_word (take count ?bs))) (\<lambda>_. bindM (wr E I2Cv2_ICR request) (\<lambda>_.
      write_loop E address (remaining - count) tx')) :: (('h, 'z) watched_scheme, bool) cmd)
      (\<lambda>ok tr. ok \<longrightarrow> wire_v2 remaining (pre @ tr) = ?bs)" if "no_tx pre" "remaining \<noteq> 0" for pre request
  proof (rule any.in_bind [OF any.in_write [where P = "\<lambda>_ tr. tr = [Wr W32 I2Cv2_TXD (le_word (take count ?bs))]"]])
    have IH: "talks (write_loop E address (remaining - count) tx' :: (('h, 'z) watched_scheme, bool) cmd)
        (\<lambda>ok tr. ok \<longrightarrow> wire_v2 (remaining - count) tr = drop count ?bs)"
      using less.IH [of "remaining - count" tx'] that(2) less.prems tx' by (simp add: count_def)
    moreover have "remaining - 4 = remaining - count" by (simp add: count_def)
    ultimately show "talks (bindM (wr E I2Cv2_ICR request) (\<lambda>_. write_loop E address (remaining - count) tx')
          :: (('h, 'z) watched_scheme, bool) cmd) (\<lambda>ok t2. ok \<longrightarrow> wire_v2 remaining (pre @ t1 @ t2) = ?bs)"
      if "t1 = [Wr W32 I2Cv2_TXD (le_word (take count ?bs))]" for t1
      using that \<open>no_tx pre\<close> chunk
      by (intro any.in_bind [OF any.in_write [where P = "\<lambda>_ tr. tr = [Wr W32 I2Cv2_ICR request]"]])
         (auto simp: wire_v2_append no_tx_wire elim!: logs_in_mono)
  qed simp
  show ?case
  proof (cases "remaining = 0")
    case True
    then show ?thesis
      using less.prems
      by (subst write_loop.simps)
         (auto intro!: any.in_bind [OF talks_waits(3)] any.in_bind [OF talks_status_clear]
           any.in_bind [OF talks_transfer_abort] any.in_ret simp: no_tx_wire)
  next
    case False
    then show ?thesis
      using step
      by (subst write_loop.simps)
         (auto intro!: any.in_bind [OF talks_waits(2)] any.in_bind [OF talks_transfer_abort] any.in_ret
           simp: Let_def w simp flip: count_def)
  qed
qed

lemma talks_write_v2:
  assumes "length prefix + length data + 1 < 2 ^ 32"
  shows "talks (i2c_hw_write_v2 E address prefix data)
    (\<lambda>ok tr. ok \<longrightarrow> wire_v2 n tr = push_bit 1 address # prefix @ data)"
proof -
  define total where "total = length prefix + length data + 1"
  have "total < 2 ^ 32" using assms by (simp add: total_def)
  then have total: "add32 (add32 (length prefix) (length data)) 1 = total" "unat (of_nat total :: u32) = total"
    by (simp add: total_def add32_exact, rule unat_of_nat_u32)
  have "length (tx_bytes address (True, prefix, data)) = total" by (simp add: total_def)
  from talks_write_loop [OF this] show ?thesis
    unfolding i2c_hw_write_v2_def Let_def total(1)
    by (intro any.in_bind [OF talks_status_clear]
          any.in_bind [OF any.in_write [where P = "\<lambda>_ tr. tr = [Wr W32 I2Cv2_TPSCTRL (of_nat total)]"]])
       (auto simp: wire_v2_append no_tx_wire total(2) elim!: logs_in_mono)
qed

text \<open>
  A write of the PMB8876 driver that reports success has put on the bus the address with the write
  bit, the prefix and the data, byte for byte and in this order: the byte count that it
  programs and the words that it fills, the last one only in part, are exactly these bytes.
\<close>

theorem i2c_v2_write_wire:
  assumes "length prefix + length data + 1 < 2 ^ 32"
  shows "wlpM (i2c_hw_write_v2 E address prefix data)
    (\<lambda>ok t. ok \<longrightarrow> (\<exists>tr. trace t = trace s @ tr \<and> wire_v2 n tr = push_bit 1 address # prefix @ data)) s"
  by (rule logs_in_wlp [OF talks_write_v2 [OF assms]]) auto

text \<open>
  A block that asks for data at once, has the word \<open>v\<close> in its receive FIFO, reports \<open>n\<close> bytes received
  and the end of the transmission.
\<close>

definition willing_v2 :: "u32 \<Rightarrow> u32 \<Rightarrow> unit env" where
  "willing_v2 v n = const_dev (\<lambda>a. if a = I2Cv2_RIS then 1
     else if a = I2Cv2_PIRQSS then I2Cv2_PIRQSS_TX_END OR I2Cv2_PIRQSS_RX
     else if a = I2Cv2_FFSSTAT then 1 else if a = I2Cv2_RXD then v else if a = I2Cv2_RPSSTAT then n else 0)"

lemma I2C_POLL_LIMIT_Suc: "I2C_POLL_LIMIT = Suc 999999"
  by (simp add: I2C_POLL_LIMIT_def)

lemma willing_v2_runs:
  "request_wait I2C_POLL_LIMIT (willing_v2 v n) s = Inr (1, s\<lparr>trace := trace s @ [Rd W32 I2Cv2_RIS 1]\<rparr>)"
  "transfer_wait_v2 I2C_POLL_LIMIT (willing_v2 v n) s =
     Inr (True, s\<lparr>trace := trace s @ [Rd W32 I2Cv2_PIRQSS (I2Cv2_PIRQSS_TX_END OR I2Cv2_PIRQSS_RX), Rd W32 I2Cv2_ERRIRQSS 0]\<rparr>)"
  "status_clear (willing_v2 v n) s = Inr ((), s\<lparr>trace := trace s @
     [Wr W32 I2Cv2_ICR 0x3F, Wr W32 I2Cv2_PIRQSC 0x7F, Wr W32 I2Cv2_ERRIRQSC 0x0F]\<rparr>)"
  "wr (willing_v2 v n) a x s = Inr ((), s\<lparr>trace := trace s @ [Wr W32 a x]\<rparr>)"
  unfolding I2C_POLL_LIMIT_Suc request_wait.simps(2) transfer_wait_v2.simps(2)
  by (simp_all add: cmd_eval transfer_failed_def willing_v2_def const_dev_def I2C_REQUESTS_def status_clear_def)

lemma willing_v2_accepts: "\<exists>t. i2c_hw_write_v2 (willing_v2 v n) address prefix data s = Inr (True, t)"
proof -
  have "\<exists>t. write_loop (willing_v2 v n) address k x r = Inr (True, t)" for k x and r :: "(unit, 'a) watched_scheme"
  proof (induction k arbitrary: x r rule: less_induct)
    case (less k)
    show ?case
      by (subst write_loop.simps) (auto simp: bindM_def willing_v2_runs retM_def Let_def less.IH split: prod.splits)
  qed
  then show ?thesis by (simp add: i2c_hw_write_v2_def Let_def bindM_def willing_v2_runs)
qed

lemma willing_v2_answers:
  assumes "0 < n" and "n \<le> 4"
  shows "\<exists>t. i2c_hw_read_v2 (willing_v2 v (of_nat n)) address n s = Inr ((True, le_bytes n v), t)"
proof -
  from assms have "n = 1 \<or> n = 2 \<or> n = 3 \<or> n = 4" by linarith
  then have loop: "\<exists>t. read_loop I2C_POLL_LIMIT (willing_v2 v (of_nat n)) n False n [] r = Inr ((True, le_bytes n v), t)"
    for r :: "(unit, 'a) watched_scheme"
    unfolding I2C_POLL_LIMIT_Suc read_loop.simps(2)
    by (elim disjE) (simp_all add: cmd_eval transfer_failed_def willing_v2_def const_dev_def I2C_REQUESTS_def Let_def)
  show ?thesis
  proof -
    define r where "r = s\<lparr>trace := trace s @ [Wr W32 I2Cv2_ICR 0x3F, Wr W32 I2Cv2_PIRQSC 0x7F, Wr W32 I2Cv2_ERRIRQSC 0x0F,
        Wr W32 I2Cv2_MRPSCTRL (of_nat n), Wr W32 I2Cv2_TPSCTRL 1, Rd W32 I2Cv2_RIS 1,
        Wr W32 I2Cv2_TXD (push_bit 1 (ucast address) OR 1), Wr W32 I2Cv2_ICR 1]\<rparr>"
    obtain t where "read_loop I2C_POLL_LIMIT (willing_v2 v (of_nat n)) n False n [] r = Inr ((True, le_bytes n v), t)"
      using loop by blast
    then show ?thesis
      using assms by (simp add: i2c_hw_read_v2_def bindM_def willing_v2_runs retM_def r_def)
  qed
qed

theorem i2c_v2_write_wire_witness:
  "\<exists>t. i2c_hw_write_v2 (willing_v2 0 0) 0x31 [0x10] [1, 2, 3, 4] (idle ()) = Inr (True, t) \<and>
     wire_v2 0 (trace t) = [0x62, 0x10, 1, 2, 3, 4]"
proof -
  obtain t where t: "i2c_hw_write_v2 (willing_v2 0 0) 0x31 [0x10] [1, 2, 3, 4] (idle ()) = Inr (True, t)"
    using willing_v2_accepts by blast
  have "\<exists>tr. trace t = trace (idle ()) @ tr \<and> wire_v2 0 tr = push_bit 1 0x31 # [0x10] @ [1, 2, 3, 4]"
    using wlpD [OF i2c_v2_write_wire [of "[0x10]" "[1, 2, 3, 4]" "willing_v2 0 0" "0x31" "idle ()" 0] t] by simp
  then show ?thesis using t by simp
qed

section \<open>Every transfer ends\<close>

text \<open>
  The invariant of the waiting loops: the stopwatch is initialised, which the watchdog needs.
\<close>

lemma ends_status_clear: "ends (status_clear E)"
  unfolding status_clear_def seqM.simps by (intro ends_intros)

lemma ends_failed: "ends (transfer_failed E p)"
  unfolding transfer_failed_def by (intro ends_intros)

lemma ends_waits: "ends (abort_wait n E)" "ends (request_wait n E)" "ends (transfer_wait_v2 n E)"
  by (induction n; simp; intro ends_intros ends_failed; simp)+

lemma ends_abort: "ends (transfer_abort E)"
  unfolding transfer_abort_def seqM.simps by (intro ends_intros ends_waits ends_status_clear)

lemma ends_write_loop:
  fixes E :: "'h env"
  shows "ends (write_loop E address remaining tx :: (('h, 'z) watched_scheme, bool) cmd)"
proof (induction remaining arbitrary: tx rule: less_induct)
  case (less remaining)
  obtain v tx' where w: "tx_word (min remaining 4) 0 address 0 tx = (v, tx')"
    by (cases "tx_word (min remaining 4) 0 address 0 tx")
  have "ends (write_loop E address (remaining - min remaining 4) tx' :: (('h, 'z) watched_scheme, bool) cmd)"
    if "remaining \<noteq> 0"
    using that by (intro less) auto
  then show ?case
    by (subst write_loop.simps)
       (auto intro!: ends_intros ends_waits ends_abort ends_status_clear simp: Let_def w)
qed

lemma ends_read_loop: "ends (read_loop k E n receiving remaining got)"
proof (induction k arbitrary: receiving remaining got)
  case (Suc k)
  then show ?case unfolding read_loop.simps Let_def by (intro ends_intros ends_failed)
qed (simp add: ends_simple)

text \<open>
  C34. Every transfer of the PMB8876 driver ends, whatever the block and the devices on the bus do,
  once the stopwatch is initialised: a stuck bus or a missing device is reported, not waited for.
\<close>

theorem i2c_v2_transfers_end:
  assumes "ticks_per_s s \<noteq> 0"
  shows "\<exists>r t r' t'. i2c_hw_write_v2 E address prefix data s = Inr (r, t) \<and> i2c_hw_read_v2 E address n s = Inr (r', t')"
proof -
  have "ends (i2c_hw_write_v2 E address prefix data)"
    unfolding i2c_hw_write_v2_def Let_def by (intro ends_intros ends_status_clear ends_write_loop)
  moreover have "ends (i2c_hw_read_v2 E address n)"
    unfolding i2c_hw_read_v2_def seqM.simps
    by (auto intro!: ends_intros ends_status_clear ends_waits ends_abort ends_read_loop split: prod.splits)
  ultimately show ?thesis
    using assms unfolding ends_def clock_set_def by (meson wpD)
qed

theorem i2c_v2_transfers_end_witness:
  "\<exists>r t r' t'. i2c_hw_write_v2 (const_dev (\<lambda>_. 0)) 0x31 [1] [2] (idle ()) = Inr (r, t) \<and>
     i2c_hw_read_v2 (const_dev (\<lambda>_. 0)) 0x31 4 (idle ()) = Inr (r', t')"
  using i2c_v2_transfers_end [of "idle ()" "const_dev (\<lambda>_. 0)" "0x31" "[1]" "[2]" 4] by simp

section \<open>Reading\<close>

lemma rps_bound:
  assumes "v AND I2Cv2_RPSSTAT_RPS = (of_nat n :: u32)" "n < 2 ^ 32"
  shows "n < 0x4000"
proof -
  have "unat (v AND I2Cv2_RPSSTAT_RPS) \<le> 0x3FFF" using field_le [of 0 v I2Cv2_RPSSTAT_RPS] by simp
  then show ?thesis using assms by (simp add: unat_of_nat_u32)
qed

definition read_spec :: "nat \<Rightarrow> nat \<Rightarrow> bool \<times> u8 list \<Rightarrow> bool" where
  "read_spec n m r \<longleftrightarrow> length (snd r) \<le> m \<and> (fst r \<longrightarrow> length (snd r) = m \<and> n < 0x4000)"

lemma talks_True: "talks c P \<Longrightarrow> talks c (\<lambda>_ _. True)"
  by (erule logs_in_mono) simp

lemma talks_read_loop:
  fixes E :: "'h env"
  assumes "n < 2 ^ 32"
  shows "talks (read_loop k E n receiving remaining got :: (('h, 'z) watched_scheme, bool \<times> u8 list) cmd)
    (\<lambda>r _. read_spec n (length got + remaining) r)"
proof (induction k arbitrary: receiving remaining got)
  case 0
  then show ?case by (auto intro: any.in_ret simp: read_spec_def)
next
  case (Suc k)
  have next_round: "talks (bindM (wdt_serve E) (\<lambda>_. read_loop k E n rc (remaining - length bs) (got @ bs))
        :: (('h, 'z) watched_scheme, bool \<times> u8 list) cmd) (\<lambda>r _. read_spec n (length got + remaining) r)"
    if "length bs \<le> remaining" for rc bs
    using that Suc [of rc "remaining - length bs" "got @ bs"]
    by (intro talks_then [OF talks_serve_no_tx]) (auto simp: read_spec_def elim: logs_in_mono)
  have finish: "talks (mapM (\<lambda>v. (v AND I2Cv2_RPSSTAT_RPS = of_nat n, got @ bs)) (rd E I2Cv2_RPSSTAT))
      (\<lambda>r _. read_spec n (length got + remaining) r)" if "length bs \<le> remaining" "remaining - length bs = 0" for bs
    using that assms by (intro any.in_map any.in_read) (auto simp: read_spec_def dest: rps_bound)
  have fetch: "talks (if av then bindM (rd E I2Cv2_RXD) (\<lambda>v. bindM (wr E I2Cv2_ICR request) (\<lambda>_. retM (le_bytes (min remaining 4) v)))
      else retM []) (\<lambda>bs _. length bs \<le> remaining)" for av request
    by (auto intro!: any.in_bind_read any.in_bind [OF any.in_write [where P = "\<lambda>_ _. True"]] any.in_ret)
  have avail: "talks (if b then mapM f (rd E a) else retM False) (\<lambda>_ _. True)" for b f a
    by (auto intro: any.in_map any.in_read any.in_ret)
  have read: "talks (rd E a) (\<lambda>_ _. True)" "talks (mapM g (rd E a)) (\<lambda>_ _. True)" for a g
    by (auto intro: any.in_map any.in_read)
  show ?case
    unfolding read_loop.simps Let_def
    by (rule talks_then [OF read(1)], rule talks_then [OF talks_transfer_failed], rule any.in_if,
        simp add: any.in_ret read_spec_def, rule talks_then [OF read(2)], rule talks_then [OF avail],
        rule any.in_bind [OF fetch], rule any.in_if, rule finish, assumption, simp, rule next_round)
qed

lemma read_v2_spec:
  assumes "n < 2 ^ 32"
  shows "wlpM (i2c_hw_read_v2 E address n) (\<lambda>r t. length (snd r) \<le> n \<and> (fst r \<longrightarrow> length (snd r) = n \<and> n < 0x4000)) s"
proof -
  note skip = talks_then [OF any.in_write [where P = "\<lambda>_ _. True"]]
  have clear: "talks (seqM [status_clear E, wr E a v, wr E b w]) (\<lambda>_ _. True)" for a b v w
    unfolding seqM.simps by (rule talks_then [OF talks_status_clear], rule skip, simp, rule skip) (auto intro: any.in_ret)
  have finish: "talks (case r of (complete, got) \<Rightarrow>
      bindM (if complete then status_clear E else transfer_abort E) (\<lambda>_. retM (complete, got))) (\<lambda>r' _. r' = r)" for r
    by (cases r) (auto intro!: any.in_bind [OF talks_status_clear] any.in_bind [OF talks_transfer_abort] any.in_ret)
  have "talks (i2c_hw_read_v2 E address n) (\<lambda>r _. read_spec n n r)"
    unfolding i2c_hw_read_v2_def
    by (rule any.in_if, simp add: any.in_ret read_spec_def, rule talks_then [OF clear], rule talks_then [OF talks_waits(2)], rule any.in_if,
        rule talks_then [OF talks_transfer_abort], simp add: any.in_ret read_spec_def, rule skip, simp, rule skip, simp,
        rule any.in_bind [OF talks_read_loop [OF assms]], rule logs_in_mono [OF finish], simp)
  then show ?thesis by (rule logs_in_wlp) (auto simp: read_spec_def)
qed

text \<open>
  C35. A read of the PMB8876 driver never stores more than the size of the buffer, and stores all of it when it
  reports success. A buffer of 16384 bytes or more is never reported complete, whatever the device
  sends, because the hardware's count of received bytes has 14 bits.
\<close>

theorem i2c_v2_read_bounds:
  assumes "n < 2 ^ 32"
  shows "wlpM (i2c_hw_read_v2 E address n) (\<lambda>(ok, bs) t. length bs \<le> n \<and> (ok \<longrightarrow> length bs = n \<and> n < 0x4000)) s"
  by (rule wlp_mono [OF read_v2_spec [OF assms]]) auto

theorem i2c_v2_read_bounds_witness:
  "wlpM (i2c_hw_read_v2 (const_dev (\<lambda>_. 1)) 0x31 0x8000) (\<lambda>(ok, bs) t. \<not> ok \<and> length bs \<le> 0x8000) (idle ())"
  using i2c_v2_read_bounds [of "0x8000" "const_dev (\<lambda>_. 1)" "0x31" "idle ()"] by (auto elim!: wlp_mono)

definition bus_v2 :: "('h, 'z) machine_scheme \<Rightarrow> u8 list" where
  "bus_v2 s = wire_v2 0 (trace s)"

interpretation v2: i2c_driver "i2c_hw_write_v2 E" "i2c_hw_read_v2 E" bus_v2 for E
proof
  fix address :: u8 and prefix data :: "u8 list" and s :: "('a, 'b) watched_scheme"
  assume "length prefix + length data + 1 < 2 ^ 32"
  from talks_write_v2 [OF this, of E address "due_v2 0 (trace s)"]
  show "wlpM (i2c_hw_write_v2 E address prefix data) (\<lambda>ok t. ok \<longrightarrow> bus_v2 t = bus_v2 s @ push_bit 1 address # prefix @ data) s"
    by (rule logs_in_wlp) (simp add: bus_v2_def wire_v2_append)
next
  fix n :: nat and address :: u8 and s :: "('a, 'b) watched_scheme"
  assume "n < 2 ^ 32"
  then show "wlpM (i2c_hw_read_v2 E address n) (\<lambda>(ok, bs) t. length bs \<le> n \<and> (ok \<longrightarrow> length bs = n)) s"
    by (rule wlp_mono [OF read_v2_spec]) auto
qed

end
