(* ===== verification/Smbus.thy ===== *)
theory Smbus
  imports I2c_V1 I2c_V2
begin

text \<open>
  The portable I2C layer (\<^verbatim>\<open>src/lib/i2c.c\<close>) over the driver of the CPU that is built for, and the
  register access of the power-management chip (\<^verbatim>\<open>src/lib/pmb681x.c\<close>).
\<close>

section \<open>Definitions\<close>

text \<open>The preprocessor selects one of the two drivers.\<close>

definition i2c_hw_init :: "'h env \<Rightarrow> (('h, 'z) watched_scheme, unit) cmd" where
  "i2c_hw_init E = (case cpu E of PMB8875 \<Rightarrow> i2c_hw_init_v1 E | PMB8876 \<Rightarrow> i2c_hw_init_v2 E)"

definition i2c_hw_write :: "'h env \<Rightarrow> u8 \<Rightarrow> u8 list \<Rightarrow> u8 list \<Rightarrow> (('h, 'z) watched_scheme, bool) cmd" where
  "i2c_hw_write E = (case cpu E of PMB8875 \<Rightarrow> i2c_hw_write_v1 E | PMB8876 \<Rightarrow> i2c_hw_write_v2 E)"

definition i2c_hw_read :: "'h env \<Rightarrow> u8 \<Rightarrow> nat \<Rightarrow> (('h, 'z) watched_scheme, bool \<times> u8 list) cmd" where
  "i2c_hw_read E = (case cpu E of PMB8875 \<Rightarrow> i2c_hw_read_v1 E | PMB8876 \<Rightarrow> i2c_hw_read_v2 E)"

definition i2c_init :: "'h env \<Rightarrow> (('h, 'z) watched_scheme, unit) cmd" where
  "i2c_init E = i2c_hw_init E"

definition i2c_write :: "'h env \<Rightarrow> u8 \<Rightarrow> u8 list \<Rightarrow> (('h, 'z) watched_scheme, bool) cmd" where
  "i2c_write E address data = i2c_hw_write E address [] data"

definition i2c_read :: "'h env \<Rightarrow> u8 \<Rightarrow> nat \<Rightarrow> (('h, 'z) watched_scheme, bool \<times> u8 list) cmd" where
  "i2c_read E address n = i2c_hw_read E address n"

definition i2c_smbus_write_pec :: "'h env \<Rightarrow> u8 \<Rightarrow> u8 list \<Rightarrow> (('h, 'z) watched_scheme, bool) cmd" where
  "i2c_smbus_write_pec E address data =
     (let pec = i2c_smbus_pec_calculate address data in i2c_hw_write E address data [pec])"

definition i2c_smbus_write :: "'h env \<Rightarrow> u8 \<Rightarrow> u8 \<Rightarrow> u8 list \<Rightarrow> (('h, 'z) watched_scheme, bool) cmd" where
  "i2c_smbus_write E address reg data = i2c_hw_write E address [reg] data"

definition i2c_smbus_read :: "'h env \<Rightarrow> u8 \<Rightarrow> u8 \<Rightarrow> nat \<Rightarrow> (('h, 'z) watched_scheme, bool \<times> u8 list) cmd" where
  "i2c_smbus_read E address reg n =
     bindM (i2c_hw_write E address [reg] []) (\<lambda>ok.
     if \<not> ok then retM (False, []) else i2c_hw_read E address n)"

definition i2c_smbus_write_byte :: "'h env \<Rightarrow> u8 \<Rightarrow> u8 \<Rightarrow> u8 \<Rightarrow> (('h, 'z) watched_scheme, bool) cmd" where
  "i2c_smbus_write_byte E address reg v = i2c_smbus_write E address reg [v]"

definition i2c_smbus_read_byte :: "'h env \<Rightarrow> u8 \<Rightarrow> u8 \<Rightarrow> (('h, 'z) watched_scheme, bool \<times> u8 list) cmd" where
  "i2c_smbus_read_byte E address reg = i2c_smbus_read E address reg 1"

abbreviation (input) PMB6812_I2C_ADDR :: u8 where "PMB6812_I2C_ADDR \<equiv> 0x08"

text \<open>The confirmation is looked at only when the read succeeded.\<close>

definition pmb681x_reg_write :: "'h env \<Rightarrow> u8 \<Rightarrow> u8 \<Rightarrow> (('h, 'z) watched_scheme, bool) cmd" where
  "pmb681x_reg_write E reg v =
     (let command = [reg, v]; expected = i2c_smbus_pec_calculate PMB6812_I2C_ADDR command in
      bindM (i2c_smbus_write_pec E PMB6812_I2C_ADDR command) (\<lambda>ok.
      if \<not> ok then retM False else
      bindM (i2c_read E PMB6812_I2C_ADDR 1) (\<lambda>(ok, bs). retM (ok \<and> bs = [expected]))))"

section \<open>The selected driver meets the contract\<close>

definition bus_bytes :: "'h env \<Rightarrow> ('h, 'z) machine_scheme \<Rightarrow> u8 list" where
  "bus_bytes E = (case cpu E of PMB8875 \<Rightarrow> bus_v1 | PMB8876 \<Rightarrow> bus_v2)"

interpretation i2c: i2c_driver "i2c_hw_write E" "i2c_hw_read E" "bus_bytes E" for E
proof (cases "cpu E")
  case PMB8875
  then show "i2c_driver (i2c_hw_write E) (i2c_hw_read E) (bus_bytes E)"
    by (simp add: i2c_hw_write_def [abs_def] i2c_hw_read_def [abs_def] bus_bytes_def v1.i2c_driver_axioms)
next
  case PMB8876
  then show "i2c_driver (i2c_hw_write E) (i2c_hw_read E) (bus_bytes E)"
    by (simp add: i2c_hw_write_def [abs_def] i2c_hw_read_def [abs_def] bus_bytes_def v2.i2c_driver_axioms)
qed


lemma cpu_willing_v2 [simp]: "cpu (willing_v2 v n) = PMB8876"
  by (simp add: willing_v2_def const_dev_def)

lemma willing_write: "\<exists>t. i2c_hw_write (willing_v2 v n) address pre data s = Inr (True, t)"
  by (simp add: i2c_hw_write_def willing_v2_accepts)

lemma willing_read:
  "0 < n \<Longrightarrow> n \<le> 4 \<Longrightarrow> \<exists>t. i2c_hw_read (willing_v2 v (of_nat n)) address n s = Inr ((True, le_bytes n v), t)"
  by (simp add: i2c_hw_read_def willing_v2_answers)


text \<open>
  A register read never stores more bytes than asked for; when it reports success the device has
  acknowledged the register number and all the bytes are there.
\<close>

theorem smbus_read_complete:
  assumes "address < 0x80" and "n < 2 ^ 32"
  shows "wlpM (i2c_smbus_read E address reg n) (\<lambda>(ok, bs) t. length bs \<le> n \<and> (ok \<longrightarrow> length bs = n)) s"
  unfolding i2c_smbus_read_def using assms by (rule i2c.register_read)

theorem smbus_read_complete_witness:
  "\<exists>bs t. i2c_smbus_read (willing_v2 0x1234 2) 0x31 0x10 2 (idle ()) = Inr ((True, bs), t) \<and> length bs = 2"
proof -
  obtain u where u: "i2c_hw_write (willing_v2 0x1234 2) 0x31 [0x10] [] (idle ()) = Inr (True, u)"
    using willing_write by blast
  obtain t where "i2c_hw_read (willing_v2 0x1234 2) 0x31 2 u = Inr ((True, le_bytes 2 0x1234), t)"
    using willing_read [of 2 "0x1234" "0x31" u] by auto
  with u have r: "i2c_smbus_read (willing_v2 0x1234 2) 0x31 0x10 2 (idle ()) = Inr ((True, le_bytes 2 0x1234), t)"
    by (simp add: i2c_smbus_read_def bindM_def)
  from wlpD [OF smbus_read_complete [of "0x31" 2 "willing_v2 0x1234 2" "0x10" "idle ()"] r] r show ?thesis by auto
qed

section \<open>The power-management chip\<close>

text \<open>
  C33. \<^verbatim>\<open>pmb681x_reg_write\<close> reports success only when register number, value and the packet error
  code over them were put on the bus and the chip read back that code.
\<close>

theorem pmb681x_reg_write_confirmed:
  "wlpM (pmb681x_reg_write E reg v) (\<lambda>ok t. ok \<longrightarrow>
    (\<exists>pec u. pec = i2c_smbus_pec_calculate PMB6812_I2C_ADDR [reg, v] \<and>
       bus_bytes E u = bus_bytes E s @ [0x10, reg, v, pec] \<and>
       i2c_hw_read E PMB6812_I2C_ADDR 1 u = Inr ((True, [pec]), t))) s"
proof -
  let ?pec = "i2c_smbus_pec_calculate PMB6812_I2C_ADDR [reg, v]"
  have read: "wlpM (bindM (i2c_hw_read E PMB6812_I2C_ADDR 1) (\<lambda>(ok, bs). retM (ok \<and> bs = [?pec])))
      (\<lambda>ok t. ok \<longrightarrow> i2c_hw_read E PMB6812_I2C_ADDR 1 u = Inr ((True, [?pec]), t)) u" for u
    by (auto simp: wlpM_def bindM_def retM_def split: sum.splits prod.splits)
  have "wlpM (i2c_hw_write E PMB6812_I2C_ADDR [reg, v] [?pec])
      (\<lambda>ok t. ok \<longrightarrow> bus_bytes E t = bus_bytes E s @ [0x10, reg, v, ?pec]) s"
    using i2c.write_wire [of PMB6812_I2C_ADDR "[reg, v]" "[?pec]" E s] by simp
  moreover have "wlpM (if \<not> ok then retM False else
        bindM (i2c_hw_read E PMB6812_I2C_ADDR 1) (\<lambda>(ok, bs). retM (ok \<and> bs = [?pec]))) (\<lambda>ok t. ok \<longrightarrow>
      (\<exists>pec u. pec = ?pec \<and> bus_bytes E u = bus_bytes E s @ [0x10, reg, v, pec] \<and>
       i2c_hw_read E PMB6812_I2C_ADDR 1 u = Inr ((True, [pec]), t))) u"
    if "ok \<longrightarrow> bus_bytes E u = bus_bytes E s @ [0x10, reg, v, ?pec]" for ok u
    using that by (auto intro!: wlp_mono [OF read [of u, simplified]])
  ultimately show ?thesis
    unfolding pmb681x_reg_write_def i2c_smbus_write_pec_def i2c_read_def Let_def wp_bind [of "i2c_hw_write _ _ _ _"]
    by (rule wlp_mono)
qed

text \<open>The chip answers with the code of the command \<open>[5, 6]\<close>.\<close>

theorem pmb681x_reg_write_confirmed_witness:
  "\<exists>t (u :: unit watched). pmb681x_reg_write (willing_v2 0xf1 1) 5 6 (idle ()) = Inr (True, t) \<and>
     bus_bytes (willing_v2 0xf1 1) u = bus_bytes (willing_v2 0xf1 1) (idle ()) @ [0x10, 5, 6, 0xf1]"
proof -
  have pec: "i2c_smbus_pec_calculate 0x08 [5, 6] = 0xf1" by code_simp
  obtain u where u: "i2c_hw_write (willing_v2 0xf1 1) 0x08 [5, 6] [0xf1] (idle ()) = Inr (True, u)"
    using willing_write by blast
  obtain t where "i2c_hw_read (willing_v2 0xf1 1) 0x08 1 u = Inr ((True, le_bytes 1 0xf1), t)"
    using willing_read [of 1 "0xf1" "0x08" u] by auto
  moreover have "le_bytes 1 0xf1 = [0xf1]" by code_simp
  ultimately have r: "pmb681x_reg_write (willing_v2 0xf1 1) 5 6 (idle ()) = Inr (True, t)"
    using u by (simp add: pmb681x_reg_write_def i2c_smbus_write_pec_def i2c_read_def Let_def bindM_def retM_def pec)
  from wlpD [OF pmb681x_reg_write_confirmed [of "willing_v2 0xf1 1" 5 6 "idle ()"] r] r show ?thesis by (auto simp: pec)
qed

end
