(* ===== verification/Conversation.thy ===== *)
theory Conversation
  imports Blocks Usart
begin

text \<open>
  Programs that talk to a host over the serial port. What such a program does is stated as a relation
  between the value it returns, the accesses it performs and what an observer sees of the
  state before and after; from the accesses come the bytes received and the bytes sent.
\<close>

section \<open>What a command does\<close>

definition does :: "(('h, 'z) machine_scheme \<Rightarrow> 'o) \<Rightarrow> (('h, 'z) machine_scheme, 'a) cmd \<Rightarrow>
    ('a \<Rightarrow> access list \<Rightarrow> 'o \<Rightarrow> 'o \<Rightarrow> bool) \<Rightarrow> bool" where
  "does obs c P \<longleftrightarrow> (\<forall>s. wlpM c (\<lambda>x t. \<exists>tr. trace t = trace s @ tr \<and> P x tr (obs s) (obs t)) s)"

lemma doesD:
  "does obs c P \<Longrightarrow> c s = Inr (x, t) \<Longrightarrow> \<exists>tr. trace t = trace s @ tr \<and> P x tr (obs s) (obs t)"
  unfolding does_def by (blast dest: wlpD)

lemma does_mono:
  "does obs c P \<Longrightarrow> (\<And>x tr a b. P x tr a b \<Longrightarrow> Q x tr a b) \<Longrightarrow> does obs c Q"
  unfolding does_def by (blast intro: wlp_mono)

lemma does_conj:
  assumes "does obs c P" "does obs c Q"
  shows "does obs c (\<lambda>x tr a b. P x tr a b \<and> Q x tr a b)"
  unfolding does_def
proof
  fix s
  show "wlpM c (\<lambda>x t. \<exists>tr. trace t = trace s @ tr \<and> P x tr (obs s) (obs t) \<and> Q x tr (obs s) (obs t)) s"
    using doesD [OF assms(1), of s] doesD [OF assms(2), of s]
    by (cases "c s") (fastforce simp: wlpM_def split: prod.splits)+
qed

lemma does_ret: "(\<And>a. P x [] a a) \<Longrightarrow> does obs (retM x) P"
  by (simp add: does_def)

lemma does_fail: "does obs (failM e) P"
  by (simp add: does_def)

lemma does_bind:
  assumes "does obs c P"
    and "\<And>x t1 a b. P x t1 a b \<Longrightarrow> does obs (f x) (\<lambda>y t2 b' d. b' = b \<longrightarrow> Q y (t1 @ t2) a d)"
  shows "does obs (bindM c f) Q"
  unfolding does_def
proof
  fix s
  have "wlpM (f x) (\<lambda>y u. \<exists>tr. trace u = trace s @ tr \<and> Q y tr (obs s) (obs u)) t"
    if t: "trace t = trace s @ t1" "P x t1 (obs s) (obs t)" for x t t1
    using assms(2) [OF t(2)] unfolding does_def
    by (auto elim!: allE [of _ t] wlp_mono simp: t(1))
  then show "wlpM (bindM c f) (\<lambda>y u. \<exists>tr. trace u = trace s @ tr \<and> Q y tr (obs s) (obs u)) s"
    using assms(1) unfolding does_def wp by (blast intro: wlp_mono)
qed

lemma does_if:
  "(b \<Longrightarrow> does obs c P) \<Longrightarrow> (\<not> b \<Longrightarrow> does obs d P) \<Longrightarrow> does obs (if b then c else d) P"
  by simp

lemma does_map: "does obs c (\<lambda>x. P (f x)) \<Longrightarrow> does obs (mapM f c) P"
  unfolding mapM_def by (erule does_bind) (simp add: does_ret)

lemma does_get: "(\<And>s. P (f s) [] (obs s) (obs s)) \<Longrightarrow> does obs (getM f) P"
  by (simp add: does_def)

lemma does_mod:
  "(\<And>s. trace (f s) = trace s) \<Longrightarrow> (\<And>s. P () [] (obs s) (obs (f s))) \<Longrightarrow> does obs (modM f) P"
  by (simp add: does_def)

lemma does_liftE: "(\<And>x a. m = Inr x \<Longrightarrow> P x [] a a) \<Longrightarrow> does obs (liftE m) P"
  by (auto simp: does_def wp split: sum.splits)

lemma does_talks: "talks c P \<Longrightarrow> does obs c (\<lambda>x tr a b. P x tr)"
  unfolding logs_in_def does_def by (blast intro: wlp_mono)

section \<open>Observers of the state\<close>

text \<open>
  An observer sees a part of the state that the devices, the log and the status register of
  the processor are not in: the memory, or the program's own variables.
\<close>

locale observer =
  fixes obs :: "('h, 'z) machine_scheme \<Rightarrow> 'o"
  assumes obs_io: "obs (s\<lparr>hw := h, trace := tr\<rparr>) = obs s"
    and obs_cpsr: "obs (s\<lparr>cpsr := c, trace := tr\<rparr>) = obs s"
begin

lemma does_logs: "logs c P \<Longrightarrow> does obs c (\<lambda>x tr a b. P x tr \<and> b = a)"
  unfolding does_def by (auto intro!: logs_wlp simp: obs_io)

text \<open>\<open>same c\<close>: the observer sees no change.\<close>

abbreviation same :: "(('h, 'z) machine_scheme, 'a) cmd \<Rightarrow> bool" where
  "same c \<equiv> does obs c (\<lambda>_ _ a b. b = a)"

lemma same_bind:
  assumes "same c" and "\<And>x. same (f x)"
  shows "same (bindM c f)"
  by (rule does_bind [OF assms(1)], rule does_mono [OF assms(2)]) simp

lemma same_logs: "logs c P \<Longrightarrow> same c"
  by (rule does_mono [OF does_logs]) auto

lemma same_read: "same (mmio_read w E a)" and same_write: "same (mmio_write w E a v)"
  by (rule same_logs [where P = "\<lambda>_ _. True"], simp add: logs_read logs_write)+

lemma same_irq: "same (cpu_enable_irq b)"
  unfolding cpu_enable_irq_def cpu_enable_irq_or_fiq_def msr_cpsr_c_def
  by (auto simp: does_def wp obs_cpsr)

lemma same_simple: "same (retM x)" "same (getM f)" "same (liftE m)" "same (failM e)"
  by (simp_all add: does_ret does_get does_liftE does_fail)

lemma same_seq: "same (seqM [])" "same c \<Longrightarrow> same (seqM cs) \<Longrightarrow> same (seqM (c # cs))"
  by (auto intro: same_bind same_simple)

lemma same_if: "same c \<Longrightarrow> same d \<Longrightarrow> same (if b then c else d)"
  by simp

lemma same_map: "same c \<Longrightarrow> same (mapM f c)"
  by (simp add: does_map)

lemma same_when: "same c \<Longrightarrow> same (whenM b c)"
  by (simp add: whenM_def same_simple)

lemma same_while: "same cond \<Longrightarrow> same body \<Longrightarrow> same (whileM n cond body)"
  by (induction n) (auto intro!: same_bind same_simple)

lemmas same_intros = same_bind same_seq same_if same_map same_when same_while same_read same_write same_irq same_simple

end

text \<open>The observers of the programs that serve the watchdog do not look at its time stamp.\<close>

locale watched_observer = observer obs
  for obs :: "('h, 'z) watched_scheme \<Rightarrow> 'o" +
  assumes obs_serve: "obs (s\<lparr>last_wdt_serve := v\<rparr>) = obs s"
begin

lemma same_mark_served: "same (mark_served E)"
  unfolding mark_served_def stopwatch_get_def by (intro same_intros does_mod) (simp_all add: obs_serve)

lemma same_wdt_serve: "same (wdt_serve E)"
  unfolding wdt_serve_def wdt_feed_def stopwatch_elapsed_ms_def stopwatch_scaled_def stopwatch_elapsed_def stopwatch_get_def
    gpio_toggle_def gpio_get_def gpio_set_def rmw_def cpu_wdt_reload_def cpu_wdt_get_reload_def field_def
    cpu_wdt_password_access_def cpu_wdt_modify_access_def
  by (intro same_intros same_mark_served)

end

section \<open>The serial line\<close>

text \<open>The bytes received from and sent to the host on the first serial port.\<close>

definition rxb :: "access list \<Rightarrow> u8 list" where
  "rxb tr = map ucast (read_from (USART_RXB USART0) tr)"

definition txb :: "access list \<Rightarrow> u8 list" where
  "txb tr = map ucast (written (USART_TXB USART0) tr)"

lemma line_append [simp]: "rxb (xs @ ys) = rxb xs @ rxb ys" "txb (xs @ ys) = txb xs @ txb ys" "rxb [] = []" "txb [] = []"
  by (simp_all add: rxb_def txb_def)

lemma outside_line: "outside USART0 tr \<Longrightarrow> rxb tr = [] \<and> txb tr = []"
proof (induction tr)
  case (Cons x tr)
  then show ?case by (cases x) (auto simp: rxb_def txb_def in_block_def)
qed simp

definition quiet :: "access list \<Rightarrow> bool" where
  "quiet tr \<longleftrightarrow> rxb tr = [] \<and> txb tr = []"

lemma wdt_outside_usart0: "wdt_outside USART0"
  by (simp add: wdt_outside_def in_block_def)

lemma quiet_simps [simp]: "quiet []" "quiet (xs @ ys) \<longleftrightarrow> quiet xs \<and> quiet ys"
  by (auto simp: quiet_def)

lemma quietD: "quiet tr \<Longrightarrow> rxb tr = [] \<and> txb tr = []"
  by (simp add: quiet_def)

text \<open>Sending does not take a byte out of the receive FIFO.\<close>

lemma logs_write_reads: "logs (usart_write E u bs) (\<lambda>_ tr. read_from (USART_RXB u) tr = [])"
proof (induction E u bs rule: usart_write.induct)
  case (1 E u bs)
  have wait: "logs (usart_wait_tx E u) (\<lambda>_ tr. read_from (USART_RXB u) tr = [])"
    unfolding usart_wait_tx_def usart_get_tx_fifo_level_def
    by (rule logs_while [where K = "\<lambda>tr. read_from (USART_RXB u) tr = []" and X = "\<lambda>tr. read_from (USART_RXB u) tr = []"])
       (auto intro!: logs_map logs_field logs_read)
  have burst: "read_from (USART_RXB u) (map (\<lambda>b. Wr W32 (USART_TXB u) (f b)) xs) = []" for f :: "u8 \<Rightarrow> u32" and xs
    by (induction xs) simp_all
  show ?case
  proof (cases "bs = []")
    case True
    then show ?thesis by (subst usart_write.simps) (simp add: logs_ret)
  next
    case False
    then show ?thesis
      by (subst usart_write.simps, simp only: if_False Let_def,
          intro logs_bind [OF wait] logs_bind [where P = "\<lambda>_ tr. read_from (USART_RXB u) tr = []"] logs_forM_write)
         (auto simp: burst intro!: logs_mono [OF 1 [OF False]])
  qed
qed

context observer
begin

lemma does_read:
  "does obs (usart_read E USART0 n) (\<lambda>bs tr a b. rxb tr = bs \<and> txb tr = [] \<and> length bs = n \<and> b = a)"
  unfolding usart_read_def
  by (rule does_mono [OF does_logs [OF logs_read_loop]]) (auto simp: rxb_def txb_def written_writes)

lemma does_getc: "does obs (usart_getc E USART0) (\<lambda>c tr a b. rxb tr = [c] \<and> txb tr = [] \<and> b = a)"
  unfolding usart_getc_def by (rule does_map, rule does_mono [OF does_read]) (auto simp: length_Suc_conv)

lemma does_usart_write: "does obs (usart_write E USART0 bs) (\<lambda>_ tr a b. txb tr = bs \<and> b = a)"
  by (rule does_mono [OF does_logs [OF logs_usart_write]])
     (auto simp: txb_def tx_spec_def written_writes comp_def ucast_widen_back)

lemma does_reply: "does obs (usart_write E USART0 bs) (\<lambda>_ tr a b. rxb tr = [] \<and> txb tr = bs \<and> b = a)"
  by (rule does_mono [OF does_conj [OF does_usart_write does_logs [OF logs_write_reads]]]) (simp add: rxb_def)

text \<open>A command that neither talks to the host nor changes what the observer sees.\<close>

abbreviation silent :: "(('h, 'z) machine_scheme, 'a) cmd \<Rightarrow> bool" where
  "silent c \<equiv> does obs c (\<lambda>_ tr a b. quiet tr \<and> b = a)"

lemma silent_bind:
  assumes "silent c" and "\<And>x. silent (f x)"
  shows "silent (bindM c f)"
  by (rule does_bind [OF assms(1)], rule does_mono [OF assms(2)]) simp

lemma silent_simple: "silent (retM x)" "silent (getM f)" "silent (liftE m)" "silent (failM e)"
  by (simp_all add: does_ret does_get does_liftE does_fail)

lemma silent_seq: "silent (seqM [])" "silent c \<Longrightarrow> silent (seqM cs) \<Longrightarrow> silent (seqM (c # cs))"
  by (auto intro: silent_bind silent_simple)

lemma silent_if: "silent c \<Longrightarrow> silent d \<Longrightarrow> silent (if b then c else d)"
  by simp

lemma silent_map: "silent c \<Longrightarrow> silent (mapM f c)"
  by (simp add: does_map)

lemma silent_while: "silent cond \<Longrightarrow> silent body \<Longrightarrow> silent (whileM n cond body)"
  by (induction n) (auto intro!: silent_bind silent_simple)

lemma silent_read: "a \<noteq> USART_RXB USART0 \<Longrightarrow> silent (mmio_read w E a)"
  by (rule does_mono [OF does_logs [OF logs_read [where P = "\<lambda>v tr. tr = [Rd w a v]"]]]) (auto simp: quiet_def rxb_def txb_def)

lemma silent_write: "a \<noteq> USART_TXB USART0 \<Longrightarrow> silent (mmio_write w E a v)"
  by (rule does_mono [OF does_logs [OF logs_write [where P = "\<lambda>_ tr. tr = [Wr w a (trunc w v)]"]]])
     (auto simp: quiet_def rxb_def txb_def)

lemma silent_mrc: "silent (mrc C crn crm op2)" and silent_mcr: "silent (mcr C crn crm op2 v)"
  by (rule does_mono [OF does_logs [OF io.in_mrc [where P = "\<lambda>v tr. tr = [Mrc crn crm op2 v]"]]],
        auto simp: quiet_def rxb_def txb_def)
     (rule does_mono [OF does_logs [OF io.in_mcr [where P = "\<lambda>_ tr. tr = [Mcr crn crm op2 v]"]]],
        auto simp: quiet_def rxb_def txb_def)

lemmas silent_intros = silent_bind silent_seq silent_if silent_map silent_while silent_read silent_write silent_mrc silent_mcr
  silent_simple

text \<open>Sequencing with a silent command on either side.\<close>

lemma does_after_silent:
  assumes "silent c" and "\<And>x. does obs (f x) (\<lambda>y tr a b. P y (rxb tr) (txb tr) a b)"
  shows "does obs (bindM c f) (\<lambda>y tr a b. P y (rxb tr) (txb tr) a b)"
  by (rule does_bind [OF assms(1)]) (auto simp: quiet_def intro: does_mono [OF assms(2)])

end

context watched_observer
begin

lemma silent_wdt_serve: "silent (wdt_serve E)"
  using does_conj [OF does_talks [OF talks_wdt_serve [OF wdt_outside_usart0]] same_wdt_serve]
  by (rule does_mono) (auto simp: quiet_def dest: outside_line)

end

text \<open>An observer that looks at none of the variables of the stopwatch and the watchdog.\<close>

locale suite_observer = watched_observer obs
  for obs :: "('h, 'z) watched_scheme \<Rightarrow> 'o" +
  assumes obs_ticks: "obs (s\<lparr>ticks_per_s := f\<rparr>) = obs s"
    and obs_start: "obs (s\<lparr>start_execution := v\<rparr>) = obs s"
    and obs_timeout: "obs (s\<lparr>wdt_timeout := f\<rparr>) = obs s"
    and obs_interval: "obs (s\<lparr>wdt_interval := f\<rparr>) = obs s"
    and obs_off: "obs (s\<lparr>wdt_off := b\<rparr>) = obs s"
begin

lemma silent_mod: "(\<And>s. trace (f s) = trace s) \<Longrightarrow> (\<And>s. obs (f s) = obs s) \<Longrightarrow> silent (modM f)"
  by (rule does_mod) simp_all

lemma silent_when: "silent c \<Longrightarrow> silent (whenM b c)"
  by (simp add: whenM_def silent_simple)

lemma silent_irq: "silent (cpu_enable_irq b)"
  unfolding cpu_enable_irq_def cpu_enable_irq_or_fiq_def msr_cpsr_c_def
  by (auto simp: does_def wp obs_cpsr quiet_def rxb_def txb_def)

lemma silent_stm_freq: "silent (cpu_get_stm_freq E)"
  unfolding cpu_get_stm_freq_def cpu_get_fpi2_freq_def cpu_get_sys_freq_def cpu_get_pll_freq_def get_pll_core_freq_def
    field_def flag_clear_def Let_def
  by (intro silent_intros) simp_all

lemma silent_stopwatch_get: "silent (stopwatch_get E)"
  unfolding stopwatch_get_def by (intro silent_intros) simp_all

lemma silent_stopwatch_update: "silent (stopwatch_update E)"
  unfolding stopwatch_update_def by (intro silent_bind silent_stm_freq silent_mod) (simp_all add: obs_ticks)

lemma silent_set_mode: "silent (cpu_wdt_set_mode E reload con1)" and silent_reload: "silent (cpu_wdt_reload E)"
  unfolding cpu_wdt_set_mode_def cpu_wdt_reload_def cpu_wdt_password_access_def cpu_wdt_modify_access_def
    cpu_wdt_get_reload_def field_def rmw_def
  by (intro silent_intros silent_irq; simp)+

lemma silent_wdt_init: "silent (wdt_init E)"
  unfolding wdt_init_def wdt_init_custom_def stopwatch_init_def wdt_set_interval_def cpu_wdt_disable_def cpu_wdt_get_reload_def
    field_def mark_served_def gpio_toggle_def gpio_get_def gpio_set_def rmw_def
  by (intro silent_intros silent_stopwatch_update silent_stopwatch_get silent_set_mode silent_reload silent_when silent_mod)
     (simp_all add: obs_interval obs_off obs_serve)

end

interpretation ram: watched_observer "ram :: ('h, 'z) watched_scheme \<Rightarrow> mem"
  by unfold_locales simp_all

end
