(* ===== verification/Preloader.thy ===== *)
theory Preloader
  imports Conversation Lz4_Format Crc
begin

text \<open>
  The preloader (\<^verbatim>\<open>src/preloader/src/main.c\<close>): the program that the boot ROM loads and that takes
  commands from the host over the serial port. Its memory is the field \<open>ram\<close> of the machine; the
  coprocessor and the payload that \<^verbatim>\<open>CMD_GOTO\<close> jumps to are parameters.
\<close>

section \<open>Definitions\<close>

abbreviation (input) DTCM_ADDRESS :: u32 where "DTCM_ADDRESS \<equiv> 0x01002000"
abbreviation (input) DTCM_REGION_SIZE_8K :: u32 where "DTCM_REGION_SIZE_8K \<equiv> 16"
abbreviation (input) DTCM_REGION_ENABLE :: u32 where "DTCM_REGION_ENABLE \<equiv> 1"
abbreviation (input) LZ4_BLOCK_SIZE :: u32 where "LZ4_BLOCK_SIZE \<equiv> 0x1000"

abbreviation (input) CMD_PING :: u8 where "CMD_PING \<equiv> 0x41"
abbreviation (input) CMD_INIT_EXTRAM :: u8 where "CMD_INIT_EXTRAM \<equiv> 0x45"
abbreviation (input) CMD_GOTO :: u8 where "CMD_GOTO \<equiv> 0x47"
abbreviation (input) CMD_SET_SPEED :: u8 where "CMD_SET_SPEED \<equiv> 0x48"
abbreviation (input) CMD_WRITE_RAM_LZ4 :: u8 where "CMD_WRITE_RAM_LZ4 \<equiv> 0x4C"
abbreviation (input) CMD_RAM_WRITE :: u8 where "CMD_RAM_WRITE \<equiv> 0x57"

abbreviation (input) STATUS_FAILURE :: u8 where "STATUS_FAILURE \<equiv> 0x1C"
abbreviation (input) STATUS_PONG :: u8 where "STATUS_PONG \<equiv> 0x52"
abbreviation (input) STATUS_READY :: u8 where "STATUS_READY \<equiv> 0xA5"
abbreviation (input) STATUS_SUCCESS :: u8 where "STATUS_SUCCESS \<equiv> 0xC1"

definition dtcm_enable :: "'h cp15 \<Rightarrow> (('h, 'z) machine_scheme, unit) cmd" where
  "dtcm_enable C = mcr C 9 1 0 (DTCM_ADDRESS OR DTCM_REGION_SIZE_8K OR DTCM_REGION_ENABLE)"

definition dtcm_disable :: "'h cp15 \<Rightarrow> (('h, 'z) machine_scheme, unit) cmd" where
  "dtcm_disable C = bindM (mrc C 9 1 0) (\<lambda>region. mcr C 9 1 0 (region AND NOT DTCM_REGION_ENABLE))"

text \<open>\<^verbatim>\<open>uint32_t x; usart_read(USART0, &x, sizeof(x));\<close> on the little-endian processor.\<close>

definition usart_read_u32 :: "'h env \<Rightarrow> (('h, 'z) machine_scheme, u32) cmd" where
  "usart_read_u32 E = mapM le_word (usart_read E USART0 4)"

definition cmd_ping :: "'h env \<Rightarrow> (('h, 'z) watched_scheme, unit) cmd" where
  "cmd_ping E = seqM [wdt_serve E, usart_putc E USART0 STATUS_PONG]"

text \<open>\<^verbatim>\<open>__builtin_ctz\<close>, the number of trailing zero bits.\<close>

definition ctz :: "u32 \<Rightarrow> nat" where
  "ctz v = length (takeWhile (\<lambda>i. \<not> bit v i) [0..<32])"

definition cmd_init_extram :: "'h env \<Rightarrow> (('h, 'z) watched_scheme, unit) cmd" where
  "cmd_init_extram E =
     bindM (usart_read_u32 E) (\<lambda>address.
     bindM (usart_read_u32 E) (\<lambda>sz.
     if sz < 0x00001000 then usart_putc E USART0 STATUS_FAILURE
     else if sz > 0x08000000 then usart_putc E USART0 STATUS_FAILURE
     else if sz AND (sz - 1) \<noteq> 0 then usart_putc E USART0 STATUS_FAILURE
     else if address AND (sz - 1) \<noteq> 0 then usart_putc E USART0 STATUS_FAILURE
     else
       let mask = 27 - of_nat (ctz sz) in
       seqM [wr E (EBU_ADDRSEL 1) (address OR push_bit EBU_ADDRSEL_MASK_SHIFT mask OR EBU_ADDRSEL_REGENAB),
             wr E (EBU_BUSCON 1) (EBU_BUSCON_AGEN_SDRAM_0 OR push_bit EBU_BUSCON_PORTW_SHIFT 1 OR
               push_bit EBU_BUSCON_BCGEN_SHIFT 3 OR EBU_BUSCON_DLOAD OR EBU_BUSCON_AALIGN),
             wr E (EBU_SDRMREF 0) (push_bit EBU_SDRMREF_REFRESHC_SHIFT 6),
             wr E (EBU_SDRMCON 0) (push_bit EBU_SDRMCON_BANKM_SHIFT 2 OR push_bit EBU_SDRMCON_PAGEM_SHIFT 1 OR
               push_bit EBU_SDRMCON_CRC_SHIFT 1 OR push_bit EBU_SDRMCON_AWIDTH_SHIFT 1 OR
               push_bit EBU_SDRMCON_CRP_SHIFT 3 OR push_bit EBU_SDRMCON_CRFSH_SHIFT 7),
             wr E (EBU_SDRMOD 0) (push_bit EBU_SDRMOD_CASLAT_SHIFT 2 OR push_bit EBU_SDRMOD_BURSTL_SHIFT 3),
             usart_putc E USART0 STATUS_SUCCESS]))"

definition cmd_set_speed :: "'h env \<Rightarrow> (('h, 'z) watched_scheme, unit) cmd" where
  "cmd_set_speed E =
     bindM (usart_read_u32 E) (\<lambda>baud_rate.
     seqM [usart_set_speed E USART0 baud_rate,
           whileM (fuel E) (mapM (\<lambda>c. c \<noteq> CMD_PING) (usart_getc E USART0)) (retM ()),
           cmd_ping E])"

text \<open>
  The test-and-clean loop ends when the cache is clean: the read of c7, c10, 3 into the program
  counter sets the flags, and bit 30 is the zero flag.
\<close>

definition cache_sync :: "'h env \<Rightarrow> 'h cp15 \<Rightarrow> (('h, 'z) machine_scheme, unit) cmd" where
  "cache_sync E C =
     seqM [whileM (fuel E) (mapM (\<lambda>v. \<not> bit v 30) (mrc C 7 10 3)) (retM ()),
           mcr C 7 10 4 0,
           mcr C 7 5 0 0]"

text \<open>Bytes stored at consecutive addresses.\<close>

primrec store :: "mem \<Rightarrow> u32 \<Rightarrow> u8 list \<Rightarrow> mem" where
  "store m a [] = m"
| "store m a (b # bs) = store (m(a := b)) (a + 1) bs"

definition store_ram :: "u32 \<Rightarrow> u8 list \<Rightarrow> (('h, 'z) machine_scheme, unit) cmd" where
  "store_ram a bs = modM (\<lambda>s. s\<lparr>ram := store (ram s) a bs\<rparr>)"

text \<open>The two loops of \<^verbatim>\<open>cmd_ram_write\<close>, from \<open>offset\<close> on.\<close>

function receive_loop :: "'h env \<Rightarrow> u32 \<Rightarrow> nat \<Rightarrow> nat \<Rightarrow> (('h, 'z) watched_scheme, unit) cmd" where
  "receive_loop E data sz offset =
     (if offset < sz then
        let batch_size = min (sz - offset) 256 in
        bindM (usart_read E USART0 batch_size) (\<lambda>bs.
        bindM (store_ram (data + of_nat offset) bs) (\<lambda>_.
        bindM (wdt_serve E) (\<lambda>_. receive_loop E data sz (offset + batch_size))))
      else retM ())"
  by pat_completeness auto
termination
  by (relation "measure (\<lambda>(E, data, sz, offset). sz - offset)") auto

function crc_loop :: "'h env \<Rightarrow> u32 \<Rightarrow> nat \<Rightarrow> nat \<Rightarrow> u32 \<Rightarrow> (('h, 'z) watched_scheme, u32) cmd" where
  "crc_loop E data sz offset crc =
     (if offset < sz then
        let batch_size = min (sz - offset) 256 in
        bindM (getM (\<lambda>s. crc32_update crc (mem_bytes (ram s) (data + of_nat offset) batch_size))) (\<lambda>crc.
        bindM (wdt_serve E) (\<lambda>_. crc_loop E data sz (offset + batch_size) crc))
      else retM crc)"
  by pat_completeness auto
termination
  by (relation "measure (\<lambda>(E, data, sz, offset, crc). sz - offset)") auto

declare receive_loop.simps [simp del] crc_loop.simps [simp del]

definition cmd_ram_write :: "'h env \<Rightarrow> (('h, 'z) watched_scheme, unit) cmd" where
  "cmd_ram_write E =
     bindM (usart_read_u32 E) (\<lambda>address.
     bindM (usart_read_u32 E) (\<lambda>sz.
     bindM (receive_loop E address (unat sz) 0) (\<lambda>_.
     bindM (usart_read_u32 E) (\<lambda>received_crc.
     bindM (crc_loop E address (unat sz) 0 CRC32_INITIAL_VALUE) (\<lambda>crc.
     if received_crc \<noteq> NOT crc then usart_putc E USART0 STATUS_FAILURE
     else usart_putc E USART0 STATUS_SUCCESS)))))"

function discard_data :: "'h env \<Rightarrow> nat \<Rightarrow> nat \<Rightarrow> (('h, 'z) watched_scheme, unit) cmd" where
  "discard_data E sz offset =
     (if offset < sz then
        let batch_size = min (sz - offset) 256 in
        bindM (usart_read E USART0 batch_size) (\<lambda>_.
        bindM (wdt_serve E) (\<lambda>_. discard_data E sz (offset + batch_size)))
      else retM ())"
  by pat_completeness auto
termination
  by (relation "measure (\<lambda>(E, sz, offset). sz - offset)") auto

declare discard_data.simps [simp del]

text \<open>\<^verbatim>\<open>lz4_decompress\<close> on the memory of the machine.\<close>

definition lz4_decompress_ram :: "u32 \<Rightarrow> u32 \<Rightarrow> u32 \<Rightarrow> u32 \<Rightarrow> (('h, 'z) machine_scheme, bool) cmd" where
  "lz4_decompress_ram inp inp_size out out_size =
     bindM (getM ram) (\<lambda>m.
     bindM (liftE (lz4_decompress inp inp_size out out_size m)) (\<lambda>(ok, m).
     bindM (modM (\<lambda>s. s\<lparr>ram := m\<rparr>)) (\<lambda>_. retM ok)))"

definition cmd_write_ram_lz4 :: "'h env \<Rightarrow> (('h, 'z) watched_scheme, unit) cmd" where
  "cmd_write_ram_lz4 E =
     bindM (usart_read_u32 E) (\<lambda>address.
     bindM (usart_read_u32 E) (\<lambda>compressed_size.
     bindM (usart_read_u32 E) (\<lambda>output_size.
     bindM (if compressed_size > LZ4_BLOCK_SIZE then bindM (discard_data E (unat compressed_size) 0) (\<lambda>_. retM False)
            else if output_size > LZ4_BLOCK_SIZE then bindM (discard_data E (unat compressed_size) 0) (\<lambda>_. retM False)
            else bindM (usart_read E USART0 (unat compressed_size)) (\<lambda>bs.
                 bindM (store_ram DTCM_ADDRESS bs) (\<lambda>_.
                 lz4_decompress_ram DTCM_ADDRESS compressed_size address output_size))) (\<lambda>valid.
     bindM (usart_read_u32 E) (\<lambda>received_crc.
     bindM (if valid
            then getM (\<lambda>s. received_crc = NOT (crc32_update CRC32_INITIAL_VALUE (mem_bytes (ram s) address (unat output_size))))
            else retM False) (\<lambda>valid.
     usart_putc E USART0 (if valid then STATUS_SUCCESS else STATUS_FAILURE)))))))"

definition cmd_goto :: "'h env \<Rightarrow> 'h cp15 \<Rightarrow> (u32 \<Rightarrow> (('h, 'z) watched_scheme, unit) cmd) \<Rightarrow> (('h, 'z) watched_scheme, unit) cmd" where
  "cmd_goto E C payload =
     bindM (usart_read_u32 E) (\<lambda>address.
     seqM [usart_putc E USART0 STATUS_SUCCESS,
           usart_flush E USART0,
           cache_sync E C,
           dtcm_disable C,
           payload address])"

text \<open>One round of the command loop of \<^verbatim>\<open>main\<close>, and \<^verbatim>\<open>main\<close> for a bounded number of rounds.\<close>

definition preloader_round ::
  "'h env \<Rightarrow> 'h cp15 \<Rightarrow> (u32 \<Rightarrow> (('h, 'z) watched_scheme, unit) cmd) \<Rightarrow> (('h, 'z) watched_scheme, unit) cmd" where
  "preloader_round E C payload =
     bindM (usart_getc E USART0) (\<lambda>command.
     bindM (wdt_serve E) (\<lambda>_.
     if command = CMD_PING then cmd_ping E
     else if command = CMD_INIT_EXTRAM then cmd_init_extram E
     else if command = CMD_GOTO then cmd_goto E C payload
     else if command = CMD_SET_SPEED then cmd_set_speed E
     else if command = CMD_WRITE_RAM_LZ4 then cmd_write_ram_lz4 E
     else if command = CMD_RAM_WRITE then cmd_ram_write E
     else retM ()))"

primrec preloader_loop ::
  "nat \<Rightarrow> 'h env \<Rightarrow> 'h cp15 \<Rightarrow> (u32 \<Rightarrow> (('h, 'z) watched_scheme, unit) cmd) \<Rightarrow> (('h, 'z) watched_scheme, unit) cmd" where
  "preloader_loop 0 E C payload = failM Out_Of_Fuel"
| "preloader_loop (Suc n) E C payload = bindM (preloader_round E C payload) (\<lambda>_. preloader_loop n E C payload)"

definition preloader_main ::
  "'h env \<Rightarrow> 'h cp15 \<Rightarrow> (u32 \<Rightarrow> (('h, 'z) watched_scheme, unit) cmd) \<Rightarrow> (('h, 'z) watched_scheme, unit) cmd" where
  "preloader_main E C payload =
     seqM [dtcm_enable C, wdt_init E, usart_putc E USART0 STATUS_READY, preloader_loop (fuel E) E C payload]"

section \<open>Memory\<close>

lemma store_append: "store m a (xs @ ys) = store (store m a xs) (a + of_nat (length xs)) ys"
  by (induction xs arbitrary: m a) (simp_all add: add.assoc)

lemma mem_bytes_append: "mem_bytes m a (n + k) = mem_bytes m a n @ mem_bytes m (a + of_nat n) k"
  by (rule nth_equalityI) (auto simp: nth_append of_nat_diff)

lemma unat_u32_less: "unat (v :: u32) < 2 ^ 32"
  using unsigned_less [of v, where 'a = nat] by simp

lemma mem_bytes_store: "length bs \<le> 2 ^ 32 \<Longrightarrow> mem_bytes (store m a bs) a (length bs) = bs"
proof (induction bs rule: rev_induct)
  case Nil
  then show ?case by (simp add: mem_bytes_def)
next
  case (snoc b bs)
  have "store m a (bs @ [b]) = (store m a bs)(a + of_nat (length bs) := b)" by (simp only: store_append store.simps)
  then show ?case
    using snoc mem_bytes_Suc_upd [of "length bs" "store m a bs" a b] by (simp only: length_append_singleton)
qed

lemma crc32_update_append: "crc32_update c (xs @ ys) = crc32_update (crc32_update c xs) ys"
  by (simp add: crc32_update_def)

section \<open>Powers of two\<close>

lemma nat_pow2: "0 < n \<Longrightarrow> n AND (n - 1) = (0::nat) \<longleftrightarrow> (\<exists>k. n = 2 ^ k)"
proof (induction n rule: less_induct)
  case (less n)
  show ?case
  proof (cases "even n")
    case True
    then obtain m where m: "n = 2 * m" by blast
    with less.prems have "0 < m" by simp
    have "(n - 1) div 2 = m - 1" using m \<open>0 < m\<close> by arith
    then have "n AND (n - 1) = 2 * (m AND (m - 1))"
      using m \<open>0 < m\<close> by (subst and_rec) simp
    moreover have "(\<exists>k. n = 2 ^ k) \<longleftrightarrow> (\<exists>k. m = 2 ^ k)"
    proof
      assume "\<exists>k. n = 2 ^ k"
      then obtain k where "n = 2 ^ k" by blast
      with True have "k \<noteq> 0" by auto
      with \<open>n = 2 ^ k\<close> m show "\<exists>k. m = 2 ^ k" by (cases k) auto
    qed (metis m power_Suc)
    ultimately show ?thesis using less.IH [of m] m \<open>0 < m\<close> by simp
  next
    case False
    then obtain m where m: "n = 2 * m + 1" by (rule oddE)
    then have "n AND (n - 1) = 2 * m" by (subst and_rec) simp
    moreover have "(\<exists>k. n = 2 ^ k) \<longleftrightarrow> m = 0"
    proof
      assume "\<exists>k. n = 2 ^ k"
      then obtain k where "n = 2 ^ k" by blast
      with False show "m = 0" using m by (cases k) auto
    next
      assume "m = 0"
      then have "n = 2 ^ 0" using m by simp
      then show "\<exists>k. n = 2 ^ k" by blast
    qed
    ultimately show ?thesis by simp
  qed
qed

lemma unat_pred: "(v :: u32) \<noteq> 0 \<Longrightarrow> unat (v - 1) = unat v - 1"
  by (simp add: unat_sub_if_size Suc_le_eq unat_gt_0)

lemma word_pow2:
  assumes "(v :: u32) \<noteq> 0"
  shows "v AND (v - 1) = 0 \<longleftrightarrow> (\<exists>k. unat v = 2 ^ k)"
proof -
  have "v AND (v - 1) = 0 \<longleftrightarrow> unat (v AND (v - 1)) = 0" by (simp add: unat_eq_0)
  also have "unat (v AND (v - 1)) = unat v AND (unat v - 1)"
    by (simp only: unsigned_and_eq unat_pred [OF assms])
  finally show ?thesis using nat_pow2 [of "unat v"] assms by (simp add: unat_gt_0)
qed

lemma word_aligned:
  assumes "unat (v :: u32) = 2 ^ k"
  shows "a AND (v - 1) = 0 \<longleftrightarrow> 2 ^ k dvd unat a"
proof -
  have "v \<noteq> 0" using assms by (metis unat_eq_0 power_not_zero zero_neq_numeral)
  have "a AND (v - 1) = 0 \<longleftrightarrow> unat (a AND (v - 1)) = 0" by (simp add: unat_eq_0)
  also have "unat (a AND (v - 1)) = unat a AND mask k"
    by (simp only: unsigned_and_eq unat_pred [OF \<open>v \<noteq> 0\<close>] assms mask_eq_exp_minus_1)
  also have "\<dots> = unat a mod 2 ^ k" by (simp add: take_bit_eq_mask [symmetric] take_bit_eq_mod)
  finally show ?thesis by (simp add: dvd_eq_mod_eq_0)
qed

lemma bit_pow2: "unat (v :: u32) = 2 ^ k \<Longrightarrow> bit v i \<longleftrightarrow> i = k"
  by (metis bit_unsigned_iff bit_exp_iff possible_bit_nat)

lemma takeWhile_upt: "k < n \<Longrightarrow> P k \<Longrightarrow> (\<And>i. i < k \<Longrightarrow> \<not> P i) \<Longrightarrow> takeWhile (\<lambda>i. \<not> P i) [0..<n] = [0..<k]"
proof -
  assume k: "k < n" "P k" "\<And>i. i < k \<Longrightarrow> \<not> P i"
  then have "[0..<n] = [0..<k] @ k # [Suc k..<n]"
    using upt_add_eq_append [of 0 k "n - k"] upt_conv_Cons [of k n] by simp
  then show ?thesis using k by (simp only:) (subst takeWhile_append2, auto)
qed

lemma ctz_pow2:
  assumes "unat v = 2 ^ k"
  shows "ctz v = k"
proof -
  have "k < 32" using bit_pow2 [OF assms, of k] bit_imp_le_length [of v k] by simp
  then have "takeWhile (\<lambda>i. \<not> bit v i) [0..<32] = [0..<k]"
    by (rule takeWhile_upt) (simp_all add: bit_pow2 [OF assms])
  then show ?thesis by (simp only: ctz_def length_upt)
qed

lemma aligned_bits: "2 ^ k dvd unat (a :: u32) \<Longrightarrow> i < k \<Longrightarrow> \<not> bit a i"
proof -
  assume "2 ^ k dvd unat a" "i < k"
  then have "take_bit k (unat a) = 0" by (simp add: take_bit_eq_mod)
  then have "\<not> bit (take_bit k (unat a)) i" by simp
  then show "\<not> bit a i" using \<open>i < k\<close> by (simp add: bit_take_bit_iff bit_unsigned_iff)
qed

lemma window_fields:
  assumes "12 \<le> k" "k \<le> 27" "2 ^ k dvd unat (a :: u32)"
  shows "(a OR push_bit 4 (27 - of_nat k) OR 1) AND 0xFFFFF000 = a"
    and "drop_bit 4 ((a OR push_bit 4 (27 - of_nat k) OR 1) AND 0xF0) = 27 - of_nat k"
    and "(a OR push_bit 4 (27 - of_nat k) OR 1) AND 1 = 1"
proof -
  let ?m = "27 - of_nat k :: u32"
  have m: "unat ?m = 27 - k" using assms by (simp add: unat_sub word_le_nat_alt unat_of_nat)
  have low: "\<not> bit a i" if "i < 12" for i using that assms aligned_bits [OF assms(3), of i] by simp
  have mbit: "i < 4" if "bit ?m i" for i
  proof -
    have "27 - k < 2 ^ 4" using assms by simp
    then have "take_bit 4 (unat ?m) = unat ?m" unfolding m by (simp add: take_bit_nat_eq_self)
    moreover have "bit (unat ?m) i" using that by (simp add: bit_unsigned_iff)
    ultimately show ?thesis by (metis bit_take_bit_iff)
  qed
  have c: "(0xFFFFF000 :: u32) = NOT (mask 12)" "(0xF0 :: u32) = push_bit 4 (mask 4)" by (simp_all add: mask_eq_exp_minus_1)
  show "(a OR push_bit 4 ?m OR 1) AND 0xFFFFF000 = a"
    unfolding c by (rule bit_word_eqI) (use low in \<open>auto simp: bit_simps dest: mbit\<close>)
  show "drop_bit 4 ((a OR push_bit 4 ?m OR 1) AND 0xF0) = ?m"
    unfolding c by (rule bit_word_eqI) (use low in \<open>auto simp: bit_simps dest: mbit\<close>)
  show "(a OR push_bit 4 ?m OR 1) AND 1 = 1"
    by (rule bit_word_eqI) (auto simp: bit_simps)
qed

section \<open>What each command does\<close>

lemma does_read_u32:
  "does ram (usart_read_u32 E :: (('h, 'z) watched_scheme, u32) cmd) (\<lambda>v tr a b. rxb tr = le_bytes 4 v \<and> txb tr = [] \<and> b = a)"
  unfolding usart_read_u32_def
  by (rule does_map, rule does_mono [OF ram.does_read]) (auto simp: le_bytes_le_word)

lemma does_putc: "does ram (usart_putc E USART0 c :: (('h, 'z) watched_scheme, unit) cmd) (\<lambda>_ tr a b. rxb tr = [] \<and> txb tr = [c] \<and> b = a)"
  unfolding usart_putc_def by (rule does_mono [OF ram.does_reply]) auto

lemma does_store: "does ram (store_ram a bs :: (('h, 'z) watched_scheme, unit) cmd) (\<lambda>_ tr m m'. tr = [] \<and> m' = store m a bs)"
  unfolding store_ram_def by (rule does_mod) simp_all

lemma does_receive_loop:
  "offset \<le> sz \<Longrightarrow> does ram (receive_loop E data sz offset :: (('h, 'z) watched_scheme, unit) cmd)
     (\<lambda>_ tr a b. txb tr = [] \<and> length (rxb tr) = sz - offset \<and> b = store a (data + of_nat offset) (rxb tr))"
proof (induction E data sz offset rule: receive_loop.induct)
  case (1 E data sz offset)
  show ?case
  proof (cases "offset < sz")
    case False
    then show ?thesis by (subst receive_loop.simps) (simp add: does_ret)
  next
    case True
    let ?k = "min (sz - offset) 256"
    have IH: "does ram (receive_loop E data sz (offset + ?k) :: (('h, 'z) watched_scheme, unit) cmd)
       (\<lambda>_ tr a b. txb tr = [] \<and> length (rxb tr) = sz - (offset + ?k) \<and>
          b = store a (data + of_nat (offset + ?k)) (rxb tr))"
      using 1 True by simp
    show ?thesis
      using True
      by (subst receive_loop.simps, simp only: if_True Let_def, intro does_bind [OF ram.does_read] does_bind [OF does_store]
          does_bind [OF ram.silent_wdt_serve])
         (auto simp: quiet_def store_append add.assoc intro!: does_mono [OF IH])
  qed
qed

lemma does_crc_loop:
  "offset \<le> sz \<Longrightarrow> does ram (crc_loop E data sz offset crc :: (('h, 'z) watched_scheme, u32) cmd)
     (\<lambda>c tr a b. quiet tr \<and> b = a \<and> c = crc32_update crc (mem_bytes a (data + of_nat offset) (sz - offset)))"
proof (induction E data sz offset crc rule: crc_loop.induct)
  case (1 E data sz offset crc)
  show ?case
  proof (cases "offset < sz")
    case False
    then show ?thesis by (subst crc_loop.simps) (simp add: does_ret mem_bytes_def crc32_update_def)
  next
    case True
    let ?k = "min (sz - offset) 256"
    have split: "sz - offset = ?k + (sz - (offset + ?k))" using True by simp
    have IH: "does ram (crc_loop E data sz (offset + ?k) c :: (('h, 'z) watched_scheme, u32) cmd)
       (\<lambda>c' tr a b. quiet tr \<and> b = a \<and> c' = crc32_update c (mem_bytes a (data + of_nat (offset + ?k)) (sz - (offset + ?k))))" for c
      using 1 True by simp
    have first: "does ram (getM (\<lambda>s. crc32_update crc (mem_bytes (ram s) (data + of_nat offset) ?k)) :: (('h, 'z) watched_scheme, u32) cmd)
       (\<lambda>c tr a b. tr = [] \<and> b = a \<and> c = crc32_update crc (mem_bytes a (data + of_nat offset) ?k))"
      by (rule does_get) simp
    show ?thesis
      using True
      by (subst crc_loop.simps, simp only: if_True Let_def,
          intro does_bind [OF first] does_bind [OF ram.silent_wdt_serve])
         (auto simp: add.assoc crc32_update_append intro!: does_mono [OF IH]
           simp: mem_bytes_append [of _ "data + of_nat offset" ?k "sz - (offset + ?k)", folded split])
  qed
qed

lemma does_discard:
  "offset \<le> sz \<Longrightarrow> does ram (discard_data E sz offset :: (('h, 'z) watched_scheme, unit) cmd)
     (\<lambda>_ tr a b. txb tr = [] \<and> length (rxb tr) = sz - offset \<and> b = a)"
proof (induction E sz offset rule: discard_data.induct)
  case (1 E sz offset)
  show ?case
  proof (cases "offset < sz")
    case False
    then show ?thesis by (subst discard_data.simps) (simp add: does_ret)
  next
    case True
    let ?k = "min (sz - offset) 256"
    have IH: "does ram (discard_data E sz (offset + ?k) :: (('h, 'z) watched_scheme, unit) cmd)
       (\<lambda>_ tr a b. txb tr = [] \<and> length (rxb tr) = sz - (offset + ?k) \<and> b = a)"
      using 1 True by simp
    show ?thesis
      using True
      by (subst discard_data.simps, simp only: if_True Let_def, intro does_bind [OF ram.does_read]
          does_bind [OF ram.silent_wdt_serve])
         (auto simp: quiet_def intro!: does_mono [OF IH])
  qed
qed

text \<open>The requests that \<^verbatim>\<open>cmd_init_extram\<close> accepts: a power of two from 4 KiB to 128 MiB, naturally aligned.\<close>

definition extram_ok :: "u32 \<Rightarrow> u32 \<Rightarrow> bool" where
  "extram_ok address sz \<longleftrightarrow> (\<exists>k. 12 \<le> k \<and> k \<le> 27 \<and> unat sz = 2 ^ k \<and> 2 ^ k dvd unat address)"

text \<open>
  The protocol of the preloader, without devices: \<open>answer m rx tx m'\<close>: in memory \<open>m\<close> the bytes \<open>rx\<close> are one
  complete command, its reply is \<open>tx\<close> and the memory afterwards is \<open>m'\<close>.
\<close>

inductive answer :: "mem \<Rightarrow> u8 list \<Rightarrow> u8 list \<Rightarrow> mem \<Rightarrow> bool" where
  ping: "answer m [CMD_PING] [STATUS_PONG] m"
| extram: "answer m (CMD_INIT_EXTRAM # le_bytes 4 address @ le_bytes 4 sz)
    [if extram_ok address sz then STATUS_SUCCESS else STATUS_FAILURE] m"
| set_speed: "CMD_PING \<notin> set junk \<Longrightarrow>
    answer m (CMD_SET_SPEED # le_bytes 4 baud @ junk @ [CMD_PING]) [STATUS_PONG] m"
| ram_write: "length data = unat sz \<Longrightarrow>
    answer m (CMD_RAM_WRITE # le_bytes 4 address @ le_bytes 4 sz @ data @ le_bytes 4 crc)
      [if crc = NOT (crc32_update CRC32_INITIAL_VALUE data) then STATUS_SUCCESS else STATUS_FAILURE]
      (store m address data)"
| lz4: "length data = unat csz \<Longrightarrow> csz \<le> LZ4_BLOCK_SIZE \<Longrightarrow> osz \<le> LZ4_BLOCK_SIZE \<Longrightarrow>
    lz4_decompress DTCM_ADDRESS csz address osz (store m DTCM_ADDRESS data) = Inr (ok, m') \<Longrightarrow>
    answer m (CMD_WRITE_RAM_LZ4 # le_bytes 4 address @ le_bytes 4 csz @ le_bytes 4 osz @ data @ le_bytes 4 crc)
      [if ok \<and> crc = NOT (crc32_update CRC32_INITIAL_VALUE (mem_bytes m' address (unat osz)))
       then STATUS_SUCCESS else STATUS_FAILURE] m'"
| lz4_refused: "length data = unat csz \<Longrightarrow> LZ4_BLOCK_SIZE < csz \<or> LZ4_BLOCK_SIZE < osz \<Longrightarrow>
    answer m (CMD_WRITE_RAM_LZ4 # le_bytes 4 address @ le_bytes 4 csz @ le_bytes 4 osz @ data @ le_bytes 4 crc)
      [STATUS_FAILURE] m"
| unknown: "c \<notin> {CMD_PING, CMD_INIT_EXTRAM, CMD_GOTO, CMD_SET_SPEED, CMD_WRITE_RAM_LZ4, CMD_RAM_WRITE} \<Longrightarrow> answer m [c] [] m"

lemma does_ping: "does ram (cmd_ping E) (\<lambda>_ tr a b. answer a (CMD_PING # rxb tr) (txb tr) b)"
  unfolding cmd_ping_def seqM.simps
  by (rule does_bind [OF ram.silent_wdt_serve], rule does_bind [OF does_putc], rule does_ret)
     (auto simp: quiet_def intro: answer.ping)

lemma upload_read_back:
  "length data = unat (sz :: u32) \<Longrightarrow> mem_bytes (store m address data) address (unat sz) = data"
  using mem_bytes_store [of data m address] unat_u32_less [of sz] by simp

lemma answer_ram_write:
  "length data = unat sz \<Longrightarrow> crc \<noteq> NOT (crc32_update CRC32_INITIAL_VALUE data) \<Longrightarrow>
    answer m (CMD_RAM_WRITE # le_bytes 4 address @ le_bytes 4 sz @ data @ le_bytes 4 crc) [STATUS_FAILURE] (store m address data)"
  "length data = unat sz \<Longrightarrow>
    answer m (CMD_RAM_WRITE # le_bytes 4 address @ le_bytes 4 sz @ data @ le_bytes 4 (NOT (crc32_update CRC32_INITIAL_VALUE data)))
      [STATUS_SUCCESS] (store m address data)"
  using answer.ram_write [of data sz m address crc]
    answer.ram_write [of data sz m address "NOT (crc32_update CRC32_INITIAL_VALUE data)"] by simp_all

lemma does_ram_write: "does ram (cmd_ram_write E) (\<lambda>_ tr a b. answer a (CMD_RAM_WRITE # rxb tr) (txb tr) b)"
  unfolding cmd_ram_write_def if_distrib [of "usart_putc E USART0", symmetric]
  by (rule does_bind [OF does_read_u32], rule does_bind [OF does_read_u32], rule does_bind [OF does_receive_loop], simp,
      rule does_bind [OF does_read_u32], rule does_bind [OF does_crc_loop], simp, rule does_mono [OF does_putc])
     (auto simp: quiet_def upload_read_back intro!: answer_ram_write)

lemma silent_set_speed: "ram.silent (usart_set_speed E USART0 baud :: (('h, 'z) watched_scheme, unit) cmd)"
  unfolding usart_set_speed_def cpu_get_fpi1_freq_def cpu_get_pll_freq_def get_pll_core_freq_def field_def flag_clear_def Let_def
  by (intro ram.silent_intros) simp_all

lemma does_wait_ping:
  "does ram (whileM n (mapM (\<lambda>c. c \<noteq> CMD_PING) (usart_getc E USART0)) (retM ()) :: (('h, 'z) watched_scheme, unit) cmd)
     (\<lambda>_ tr a b. txb tr = [] \<and> b = a \<and> (\<exists>junk. CMD_PING \<notin> set junk \<and> rxb tr = junk @ [CMD_PING]))"
proof (induction n)
  case 0
  then show ?case by (simp add: does_fail)
next
  case (Suc n)
  have more: "does ram (whileM n (mapM (\<lambda>c. c \<noteq> CMD_PING) (usart_getc E USART0)) (retM ()) :: (('h, 'z) watched_scheme, unit) cmd)
      (\<lambda>_ t2 b' d. b' = a \<longrightarrow> txb t2 = [] \<and> d = a \<and> (\<exists>junk. CMD_PING \<notin> set junk \<and> c # rxb t2 = junk @ [CMD_PING]))"
    if "c \<noteq> CMD_PING" for c a
    by (rule does_mono [OF Suc]) (metis append_Cons set_ConsD that)
  have getc: "does ram (mapM (\<lambda>c. c \<noteq> CMD_PING) (usart_getc E USART0) :: (('h, 'z) watched_scheme, bool) cmd)
      (\<lambda>b tr a a'. \<exists>c. rxb tr = [c] \<and> txb tr = [] \<and> a' = a \<and> b = (c \<noteq> CMD_PING))"
    by (rule does_map, rule does_mono [OF ram.does_getc]) auto
  show ?case
    unfolding whileM.simps
    by (rule does_bind [OF getc]) (auto simp: bindM_ret intro!: does_ret more)
qed

lemma does_set_speed: "does ram (cmd_set_speed E) (\<lambda>_ tr a b. answer a (CMD_SET_SPEED # rxb tr) (txb tr) b)"
  unfolding cmd_set_speed_def seqM.simps cmd_ping_def bindM_assoc bindM_ret
  by (rule does_bind [OF does_read_u32], rule does_bind [OF silent_set_speed], rule does_bind [OF does_wait_ping],
      rule does_bind [OF ram.silent_wdt_serve], rule does_bind [OF does_putc], rule does_ret)
     (auto simp: quiet_def intro!: answer.set_speed)


lemma extram_checks:
  "\<not> sz < 0x1000 \<and> \<not> sz > 0x08000000 \<and> sz AND (sz - 1) = 0 \<and> address AND (sz - 1) = 0 \<longleftrightarrow> extram_ok address sz"
proof
  assume c: "\<not> sz < 0x1000 \<and> \<not> sz > 0x08000000 \<and> sz AND (sz - 1) = 0 \<and> address AND (sz - 1) = 0"
  then have r: "2 ^ 12 \<le> unat sz" "unat sz \<le> 2 ^ 27" by (simp_all add: word_le_nat_alt not_less)
  then have "sz \<noteq> 0" by auto
  then obtain k where k: "unat sz = 2 ^ k" using c word_pow2 by blast
  have "12 \<le> k" "k \<le> 27"
    by (rule power_le_imp_le_exp [of "2 :: nat"], simp, use r in \<open>simp only: k\<close>)+
  with k c word_aligned [OF k, of address] show "extram_ok address sz" by (auto simp: extram_ok_def)
next
  assume "extram_ok address sz"
  then obtain k where k: "12 \<le> k" "k \<le> 27" "unat sz = 2 ^ k" "2 ^ k dvd unat address" by (auto simp: extram_ok_def)
  then have "(2 :: nat) ^ 12 \<le> 2 ^ k" "(2 :: nat) ^ k \<le> 2 ^ 27" by (simp_all only: power_increasing_iff one_less_numeral_iff semiring_norm)
  with k have "\<not> sz < 0x1000" "\<not> sz > 0x08000000" "sz \<noteq> 0"
    by (auto simp: not_less word_le_nat_alt)
  with k word_pow2 [of sz] word_aligned [OF k(3), of address]
  show "\<not> sz < 0x1000 \<and> \<not> sz > 0x08000000 \<and> sz AND (sz - 1) = 0 \<and> address AND (sz - 1) = 0" by blast
qed

text \<open>
  The window that \<^verbatim>\<open>EBU_ADDRSEL(1)\<close> holds the value \<open>w\<close> for: its base, and its size, which is \<open>2 ^ 27\<close> over two
  to the mask field.
\<close>

definition window :: "u32 \<Rightarrow> u32 \<Rightarrow> u32 \<Rightarrow> bool" where
  "window w base sz \<longleftrightarrow> w AND EBU_ADDRSEL_REGENAB \<noteq> 0 \<and> w AND EBU_ADDRSEL_BASE = base \<and>
     unat sz = 2 ^ (27 - unat (drop_bit EBU_ADDRSEL_MASK_SHIFT (w AND EBU_ADDRSEL_MASK)))"

lemma extram_window:
  assumes "extram_ok address sz"
  shows "window (address OR push_bit EBU_ADDRSEL_MASK_SHIFT (27 - of_nat (ctz sz)) OR EBU_ADDRSEL_REGENAB) address sz"
proof -
  obtain k where k: "12 \<le> k" "k \<le> 27" "unat sz = 2 ^ k" "2 ^ k dvd unat address"
    using assms by (auto simp: extram_ok_def)
  have "unat (27 - of_nat k :: u32) = 27 - k" using k by (simp add: unat_sub word_le_nat_alt unat_of_nat)
  then show ?thesis
    using window_fields [OF k(1,2,4)] k by (simp add: window_def ctz_pow2 [OF k(3)])
qed

text \<open>The registers of the memory controller that an accepted request programs, \<open>w\<close> into \<^verbatim>\<open>EBU_ADDRSEL(1)\<close>.\<close>

definition sdram_setup :: "u32 \<Rightarrow> (u32 \<times> u32) list" where
  "sdram_setup w = [(EBU_ADDRSEL 1, w), (EBU_BUSCON 1, 0x30720200), (EBU_SDRMREF 0, 6), (EBU_SDRMCON 0, 0x00891C70),
     (EBU_SDRMOD 0, 0x23)]"

lemma logs_read_u32: "logs (usart_read_u32 E) (\<lambda>v tr. rxb tr = le_bytes 4 v \<and> writes tr = [])"
  unfolding usart_read_u32_def usart_read_def
  by (rule logs_map, rule logs_mono [OF logs_read_loop]) (auto simp: rxb_def le_bytes_le_word)

lemma logs_putc: "logs (usart_putc E USART0 c) (\<lambda>_ tr. rxb tr = [] \<and> writes tr = [(USART_TXB USART0, ucast c)])"
  unfolding usart_putc_def
  by (rule logs_mono [OF logs_in_conj [OF logs_usart_write logs_write_reads]]) (auto simp: tx_spec_def rxb_def)

lemma extram_branches:
  "(if sz < 0x1000 then f else if sz > 0x08000000 then f else if sz AND (sz - 1) \<noteq> 0 then f
    else if address AND (sz - 1) \<noteq> 0 then f else g) = (if extram_ok address sz then g else f)"
  using extram_checks [of sz address] by (cases "extram_ok address sz") auto

lemma logs_wr: "logs (wr E a v) (\<lambda>_ tr. rxb tr = [] \<and> writes tr = [(a, v)])"
  by (rule logs_write) (simp add: rxb_def)

lemma logs_init_extram:
  "logs (cmd_init_extram E) (\<lambda>_ tr. \<exists>address sz. rxb tr = le_bytes 4 address @ le_bytes 4 sz \<and>
     (if extram_ok address sz
      then (\<exists>w. window w address sz \<and> writes tr = sdram_setup w @ [(USART_TXB USART0, ucast STATUS_SUCCESS)])
      else writes tr = [(USART_TXB USART0, ucast STATUS_FAILURE)]))"
  unfolding cmd_init_extram_def extram_branches Let_def seqM.simps
  by (rule logs_bind [OF logs_read_u32], rule logs_bind [OF logs_read_u32], rule logs_if;
      (rule logs_bind [OF logs_wr], rule logs_bind [OF logs_wr], rule logs_bind [OF logs_wr], rule logs_bind [OF logs_wr],
       rule logs_bind [OF logs_wr], rule logs_bind [OF logs_putc], rule logs_ret)?)
     (auto simp: sdram_setup_def intro!: exI extram_window logs_mono [OF logs_putc])

lemma does_init_extram:
  "does ram (cmd_init_extram E :: (('h, 'z) watched_scheme, unit) cmd) (\<lambda>_ tr a b. answer a (CMD_INIT_EXTRAM # rxb tr) (txb tr) b)"
proof (rule does_mono [OF ram.does_logs [OF logs_init_extram]], elim conjE exE)
  fix tr address sz and a b :: mem
  assume rx: "rxb tr = le_bytes 4 address @ le_bytes 4 sz" and same: "b = a"
    and w: "if extram_ok address sz
      then (\<exists>w. window w address sz \<and> writes tr = sdram_setup w @ [(USART_TXB USART0, ucast STATUS_SUCCESS)])
      else writes tr = [(USART_TXB USART0, ucast STATUS_FAILURE)]"
  have "txb tr = [if extram_ok address sz then STATUS_SUCCESS else STATUS_FAILURE]"
    using w by (auto simp: txb_def written_writes sdram_setup_def split: if_splits)
  then show "answer a (CMD_INIT_EXTRAM # rxb tr) (txb tr) b"
    using answer.extram [of a address sz] by (simp add: rx same)
qed

lemma does_lz4_ram:
  "does ram (lz4_decompress_ram inp isz out osz :: (('h, 'z) watched_scheme, bool) cmd)
     (\<lambda>ok tr a b. tr = [] \<and> lz4_decompress inp isz out osz a = Inr (ok, b))"
  by (auto simp: does_def lz4_decompress_ram_def wp split: sum.splits prod.splits)

lemma answer_lz4:
  assumes "length data = unat csz" "csz \<le> LZ4_BLOCK_SIZE" "osz \<le> LZ4_BLOCK_SIZE"
    and "lz4_decompress DTCM_ADDRESS csz address osz (store m DTCM_ADDRESS data) = Inr (ok, m')"
  shows "ok \<Longrightarrow> answer m (CMD_WRITE_RAM_LZ4 # le_bytes 4 address @ le_bytes 4 csz @ le_bytes 4 osz @ data @
        le_bytes 4 (NOT (crc32_update CRC32_INITIAL_VALUE (mem_bytes m' address (unat osz))))) [STATUS_SUCCESS] m'"
    and "\<not> ok \<or> crc \<noteq> NOT (crc32_update CRC32_INITIAL_VALUE (mem_bytes m' address (unat osz))) \<Longrightarrow>
      answer m (CMD_WRITE_RAM_LZ4 # le_bytes 4 address @ le_bytes 4 csz @ le_bytes 4 osz @ data @ le_bytes 4 crc)
        [STATUS_FAILURE] m'"
  using answer.lz4 [OF assms, of crc]
    answer.lz4 [OF assms, of "NOT (crc32_update CRC32_INITIAL_VALUE (mem_bytes m' address (unat osz)))"] by auto

lemma does_write_ram_lz4:
  fixes E :: "'h env"
  shows "does ram (cmd_write_ram_lz4 E) (\<lambda>_ tr a (b :: mem). answer a (CMD_WRITE_RAM_LZ4 # rxb tr) (txb tr) b)"
proof -
  let ?body = "\<lambda>address csz osz.
     if csz > LZ4_BLOCK_SIZE then bindM (discard_data E (unat csz) 0) (\<lambda>_. retM False)
     else if osz > LZ4_BLOCK_SIZE then bindM (discard_data E (unat csz) 0) (\<lambda>_. retM False)
     else bindM (usart_read E USART0 (unat csz)) (\<lambda>bs.
       bindM (store_ram DTCM_ADDRESS bs) (\<lambda>_.
       lz4_decompress_ram DTCM_ADDRESS csz address osz :: (('h, 'z) watched_scheme, bool) cmd))"
  have body: "does ram (?body address csz osz) (\<lambda>valid tr a b. txb tr = [] \<and> length (rxb tr) = unat csz \<and>
      (if LZ4_BLOCK_SIZE < csz \<or> LZ4_BLOCK_SIZE < osz then \<not> valid \<and> b = a
       else lz4_decompress DTCM_ADDRESS csz address osz (store a DTCM_ADDRESS (rxb tr)) = Inr (valid, b)))" for address csz osz
    by (intro does_if does_bind [OF does_discard] does_bind [OF ram.does_read] does_bind [OF does_store] does_ret)
       (auto intro!: does_mono [OF does_lz4_ram])
  have check: "does ram (if valid
       then getM (\<lambda>s. crc = NOT (crc32_update CRC32_INITIAL_VALUE (mem_bytes (ram s) address (unat osz))))
       else retM False :: (('h, 'z) watched_scheme, bool) cmd) (\<lambda>v tr a b. tr = [] \<and> b = a \<and>
       v = (valid \<and> crc = NOT (crc32_update CRC32_INITIAL_VALUE (mem_bytes a address (unat osz)))))" for valid crc address osz
    by (auto intro!: does_get does_ret)
  show ?thesis
    unfolding cmd_write_ram_lz4_def
    by (rule does_bind [OF does_read_u32], rule does_bind [OF does_read_u32], rule does_bind [OF does_read_u32],
        rule does_bind [OF body], rule does_bind [OF does_read_u32], rule does_bind [OF check], rule does_mono [OF does_putc])
       (auto split: if_splits intro: answer.lz4_refused answer_lz4 simp: not_less)
qed

text \<open>The payload is code of its own; all that is used of it is that it does not take accesses out of the log.\<close>

definition logging :: "(u32 \<Rightarrow> (('h, 'z) watched_scheme, unit) cmd) \<Rightarrow> bool" where
  "logging payload \<longleftrightarrow> (\<forall>a. talks (payload a) (\<lambda>_ _. True))"

lemma silent_flush: "ram.silent (usart_flush E USART0 :: (('h, 'z) watched_scheme, unit) cmd)"
  unfolding usart_flush_def usart_wait_tx_def usart_get_tx_fifo_level_def field_def by (intro ram.silent_intros) simp_all

lemma silent_cache_sync: "ram.silent (cache_sync E C :: (('h, 'z) watched_scheme, unit) cmd)"
  unfolding cache_sync_def by (intro ram.silent_intros)

lemma silent_dtcm_disable: "ram.silent (dtcm_disable C :: (('h, 'z) watched_scheme, unit) cmd)"
  unfolding dtcm_disable_def by (intro ram.silent_intros)

lemma does_goto:
  assumes "logging payload"
  shows "does ram (cmd_goto E C payload) (\<lambda>_ _ _ _. True)"
proof -
  have logged: "talks c (\<lambda>_ _. True)" if "does ram c P" for c :: "(('a, 'b) watched_scheme, 'x) cmd" and P
    using that unfolding does_def logs_in_def any_change_def by (blast intro: wlp_mono)
  show ?thesis
    unfolding cmd_goto_def seqM.simps
    by (intro does_talks talks_then [OF logged [OF does_read_u32]] talks_then [OF logged [OF does_putc]]
        talks_then [OF logged [OF silent_flush]] talks_then [OF logged [OF silent_cache_sync]]
        talks_then [OF logged [OF silent_dtcm_disable]] talks_then [OF assms [unfolded logging_def, rule_format]] any.in_ret) simp
qed

lemma does_round:
  "logging payload \<Longrightarrow>
   does ram (preloader_round E C payload) (\<lambda>_ tr a b. hd (rxb tr) \<noteq> CMD_GOTO \<longrightarrow> answer a (rxb tr) (txb tr) b)"
  unfolding preloader_round_def
  by (rule does_bind [OF ram.does_getc], rule does_bind [OF ram.silent_wdt_serve])
     (auto simp: quiet_def intro!: does_ret does_mono [OF does_ping] does_mono [OF does_init_extram] does_mono [OF does_set_speed]
        does_mono [OF does_write_ram_lz4] does_mono [OF does_ram_write] does_mono [OF does_goto] answer.unknown)

section \<open>The preloader implements the protocol\<close>

text \<open>
  C22. The command loop refines the protocol: whatever the serial port and the timer do, a
  round of \<^verbatim>\<open>main\<close> that returns has taken one complete command off the line and sent the reply that
  the protocol relation prescribes for it, and the memory afterwards is the one that the relation
  prescribes. A jump to a payload is left out, since the payload may do anything.
\<close>

theorem preloader_refines_protocol:
  assumes "logging payload"
  shows "wlpM (preloader_round E C payload) (\<lambda>_ t. \<exists>tr. trace t = trace s @ tr \<and>
    (hd (rxb tr) \<noteq> CMD_GOTO \<longrightarrow> answer (ram s) (rxb tr) (txb tr) (ram t))) s"
  using does_round [OF assms, of E C] unfolding does_def by blast

definition null_cp15 :: "unit cp15" where
  "null_cp15 = \<lparr>cp15_read = (\<lambda>_ _ _ h. (0x40000000, h)), cp15_write = (\<lambda>_ _ _ _ h. h)\<rparr>"

text \<open>A port that always has a ping for the preloader and whose transmit FIFO is always empty.\<close>

definition pinging :: "unit env" where
  "pinging = const_dev (\<lambda>a. if a = USART_FSTAT USART0 then 1 else if a = USART_RXB USART0 then 0x41 else 0)"

lemma fuel_const_dev: "fuel (const_dev f) = Suc 9"
  by (simp add: const_dev_def)

lemma pinging_waits:
  "usart_wait_rx (fuel pinging) pinging USART0 s = Inr (1, s\<lparr>trace := trace s @ [Rd W32 (USART_FSTAT USART0) 1]\<rparr>)"
  "usart_wait_tx pinging USART0 s = Inr ((), s\<lparr>trace := trace s @ [Rd W32 (USART_FSTAT USART0) 1]\<rparr>)"
  "rd pinging (USART_RXB USART0) s = Inr (0x41, s\<lparr>trace := trace s @ [Rd W32 (USART_RXB USART0) 0x41]\<rparr>)"
  "wr pinging a v s = Inr ((), s\<lparr>trace := trace s @ [Wr W32 a v]\<rparr>)"
  unfolding usart_wait_tx_def pinging_def fuel_const_dev whileM.simps usart_wait_rx.simps
  by (simp_all add: cmd_eval usart_get_tx_fifo_level_def usart_get_rx_fifo_level_def field_def const_dev_def)

lemma usart_write_Nil: "usart_write E u [] = retM ()"
  by (subst usart_write.simps) simp

lemma pinging_runs:
  "usart_getc pinging USART0 s = Inr (0x41, s\<lparr>trace := trace s @ [Rd W32 (USART_FSTAT USART0) 1, Rd W32 (USART_RXB USART0) 0x41]\<rparr>)"
  "usart_putc pinging USART0 c s = Inr ((), s\<lparr>trace := trace s @ [Rd W32 (USART_FSTAT USART0) 1, Wr W32 (USART_TXB USART0) (ucast c)]\<rparr>)"
  unfolding usart_getc_def usart_putc_def usart_read_def usart_write.simps [of pinging USART0 "[c]"]
  by (simp_all add: usart_write_Nil bindM_def mapM_def retM_def pinging_waits [simplified])

lemma pinging_serve:
  "\<not> wdt_off s \<Longrightarrow> last_wdt_serve s = 0 \<Longrightarrow> wdt_interval s = 5 \<Longrightarrow> ticks_per_s s = 1000 \<Longrightarrow>
     wdt_serve pinging s = Inr ((), s\<lparr>trace := trace s @ [Rd W32 STM_TIM6 0, Rd W32 STM_TIM0 0]\<rparr>)"
  by (simp add: cmd_eval wdt_serve_def stopwatch_elapsed_ms_def stopwatch_scaled_def stopwatch_elapsed_def stopwatch_get_def
      pinging_def const_dev_def)

theorem preloader_refines_protocol_witness:
  "\<exists>t. preloader_round pinging null_cp15 (\<lambda>_. failM Spin) (idle ()) = Inr ((), t) \<and> rxb (trace t) = [CMD_PING] \<and>
     answer (\<lambda>_. 0) [CMD_PING] (txb (trace t)) (ram t)"
proof -
  have t: "\<exists>t. preloader_round pinging null_cp15 (\<lambda>_. failM Spin) (idle ()) = Inr ((), t) \<and> rxb (trace t) = [CMD_PING]"
    by (simp add: preloader_round_def cmd_ping_def bindM_def retM_def pinging_runs pinging_serve rxb_def)
  have "logging (\<lambda>_. failM Spin :: (unit watched, unit) cmd)" by (simp add: logging_def any.in_fail)
  from t wlpD [OF preloader_refines_protocol [OF this, of pinging null_cp15 "idle ()"]] show ?thesis by fastforce
qed

text \<open>
  \<^verbatim>\<open>cmd_init_extram\<close> accepts exactly the powers of two from 4 KiB to 128 MiB at a multiple of the size,
  and then writes the five registers of the memory controller, the first with a value whose
  base and mask fields decode to the requested window; otherwise it writes no register and
  reports failure.
\<close>

theorem init_extram_programs_window:
  "wlpM (cmd_init_extram E) (\<lambda>_ t. \<exists>tr address sz. trace t = trace s @ tr \<and> io_only s t \<and>
     rxb tr = le_bytes 4 address @ le_bytes 4 sz \<and>
     (if extram_ok address sz
      then \<exists>w. window w address sz \<and> writes tr = sdram_setup w @ [(USART_TXB USART0, ucast STATUS_SUCCESS)]
      else writes tr = [(USART_TXB USART0, ucast STATUS_FAILURE)])) s"
  by (rule logs_wlp [OF logs_init_extram]) auto

section \<open>Uploads\<close>

lemma le_bytes_inj: "le_bytes 4 v = le_bytes 4 w \<longleftrightarrow> v = w"
  by (metis le_word_le_bytes)

inductive_cases answer_ram_writeE: "answer m (CMD_RAM_WRITE # rx) tx m'"
inductive_cases answer_lz4E: "answer m (CMD_WRITE_RAM_LZ4 # rx) tx m'"

lemma upload_parse:
  assumes "length data = unat sz" "length data' = unat sz'"
    and "le_bytes 4 a @ le_bytes 4 sz @ data @ le_bytes 4 crc = le_bytes 4 a' @ le_bytes 4 sz' @ data' @ le_bytes 4 crc'"
  shows "a = a' \<and> sz = sz' \<and> data = data' \<and> crc = crc'"
proof -
  from assms(3) have "a = a'" "sz = sz'" and "data @ le_bytes 4 crc = data' @ le_bytes 4 crc'"
    by (auto simp: append_eq_append_conv le_bytes_inj)
  with assms show ?thesis by (auto simp: append_eq_append_conv le_bytes_inj)
qed

lemma answer_upload:
  assumes "answer m (CMD_RAM_WRITE # le_bytes 4 address @ le_bytes 4 sz @ data @ le_bytes 4 crc) tx m'" "length data = unat sz"
  shows "m' = store m address data \<and>
    tx = [if crc = NOT (crc32_update CRC32_INITIAL_VALUE data) then STATUS_SUCCESS else STATUS_FAILURE]"
  using assms by (auto elim!: answer_ram_writeE dest!: upload_parse [rotated 2])

text \<open>
  A corrupted upload is refused: when the line changes up to four consecutive bytes of the data of a
  \<^verbatim>\<open>CMD_RAM_WRITE\<close>, the reply is a failure. An undamaged one is confirmed, and the memory then holds it.
\<close>

theorem upload_integrity:
  assumes "length (pre @ xs @ post) = unat sz" "length ys = length xs" "length xs \<le> 4"
    and "answer m (CMD_RAM_WRITE # le_bytes 4 address @ le_bytes 4 sz @ (pre @ ys @ post) @
      le_bytes 4 (NOT (crc32_update CRC32_INITIAL_VALUE (pre @ xs @ post)))) tx m'"
  shows "tx = [if ys = xs then STATUS_SUCCESS else STATUS_FAILURE] \<and> mem_bytes m' address (unat sz) = pre @ ys @ post"
proof -
  have len: "length (pre @ ys @ post) = unat sz" using assms(1,2) by simp
  have "crc32_update CRC32_INITIAL_VALUE (pre @ ys @ post) = crc32_update CRC32_INITIAL_VALUE (pre @ xs @ post) \<longleftrightarrow> ys = xs"
    using crc32_burst assms(2,3) by metis
  moreover have "mem_bytes (store m address (pre @ ys @ post)) address (unat sz) = pre @ ys @ post"
    by (rule upload_read_back [OF len])
  ultimately show ?thesis using answer_upload [OF assms(4) len] by (auto simp: bit.compl_eq_compl_iff)
qed

theorem upload_integrity_witness:
  "\<exists>tx m'. answer (\<lambda>_. 0) (CMD_RAM_WRITE # le_bytes 4 0x100 @ le_bytes 4 3 @ ([7] @ [1, 3] @ []) @
      le_bytes 4 (NOT (crc32_update CRC32_INITIAL_VALUE ([7] @ [1, 2] @ [])))) tx m' \<and>
     tx = [STATUS_FAILURE] \<and> mem_bytes m' 0x100 3 = [7, 1, 3]"
proof -
  obtain tx m' where "answer (\<lambda>_. 0) (CMD_RAM_WRITE # le_bytes 4 0x100 @ le_bytes 4 3 @ ([7] @ [1, 3] @ []) @
      le_bytes 4 (NOT (crc32_update CRC32_INITIAL_VALUE ([7] @ [1, 2] @ [])))) tx m'"
    using answer.ram_write [of "[7, 1, 3]" 3] by fastforce
  from this upload_integrity [of "[7]" "[1, 2]" "[]" 3 "[1, 3]", OF _ _ _ this] show ?thesis by auto
qed

lemma answer_block:
  assumes "answer m (CMD_WRITE_RAM_LZ4 # le_bytes 4 address @ le_bytes 4 csz @ le_bytes 4 osz @ data @ le_bytes 4 crc) tx m'"
    and len: "length data = unat csz" and fits: "csz \<le> LZ4_BLOCK_SIZE" "osz \<le> LZ4_BLOCK_SIZE"
  obtains ok where "lz4_decompress DTCM_ADDRESS csz address osz (store m DTCM_ADDRESS data) = Inr (ok, m')"
    and "tx = [if ok \<and> crc = NOT (crc32_update CRC32_INITIAL_VALUE (mem_bytes m' address (unat osz)))
      then STATUS_SUCCESS else STATUS_FAILURE]"
  using assms(1) by (rule answer_lz4E) (use fits len in \<open>auto simp: le_bytes_inj append_eq_append_conv intro: that\<close>)



section \<open>Handing over to the payload\<close>

text \<open>What \<^verbatim>\<open>cmd_goto\<close> does before it jumps; the value is the address.\<close>

definition goto_prepare :: "'h env \<Rightarrow> 'h cp15 \<Rightarrow> (('h, 'z) watched_scheme, u32) cmd" where
  "goto_prepare E C = bindM (usart_read_u32 E) (\<lambda>address.
     bindM (seqM [usart_putc E USART0 STATUS_SUCCESS, usart_flush E USART0, cache_sync E C, dtcm_disable C]) (\<lambda>_. retM address))"

lemma cmd_goto_prepare: "cmd_goto E C payload = bindM (goto_prepare E C) payload"
proof -
  have "bindM c retM = c" for c :: "(('a, 'b) watched_scheme, unit) cmd"
    by (auto simp: bindM_def retM_def fun_eq_iff split: sum.splits)
  then have "bindM c (\<lambda>_. retM ()) = c" for c :: "(('a, 'b) watched_scheme, unit) cmd" by (simp add: unit_abs_eta_conv [symmetric])
  then show ?thesis by (simp add: cmd_goto_def goto_prepare_def bindM_assoc bindM_ret)
qed

lemma logs_flush: "logs (usart_flush E u) (\<lambda>_ tr. writes tr = [(USART_ICR u, USART_ICR_TX)] \<and> read_from (USART_RXB u) tr = [])"
proof -
  let ?K = "\<lambda>tr. writes tr = [] \<and> read_from (USART_RXB u) tr = []"
  have wait: "logs (usart_wait_tx E u) (\<lambda>_. ?K)"
    unfolding usart_wait_tx_def usart_get_tx_fifo_level_def
    by (rule logs_while [where K = ?K and X = ?K]) (auto intro!: logs_map logs_field logs_read)
  have sent: "logs (whileM (fuel E) (mapM (\<lambda>v. v AND USART_RIS_TX = 0) (rd E (USART_RIS u))) (retM ())) (\<lambda>_. ?K)"
    by (rule logs_while [where K = ?K and X = ?K]) (auto intro!: logs_map logs_read logs_ret)
  show ?thesis
    unfolding usart_flush_def seqM.simps
    by (rule logs_bind [OF wait], rule logs_bind [OF sent], rule logs_bind [where P = "\<lambda>_ tr. tr = [Wr W32 (USART_ICR u) USART_ICR_TX]"])
       (auto intro!: logs_write logs_ret)
qed

definition cleaning :: "access list \<Rightarrow> bool" where
  "cleaning tr \<longleftrightarrow> (\<exists>xs w. tr = xs @ [Mrc 7 10 3 w] \<and> bit w 30 \<and> (\<forall>x\<in>set xs. \<exists>w. x = Mrc 7 10 3 w \<and> \<not> bit w 30))"

lemma logs_cache_sync: "logs (cache_sync E C) (\<lambda>_ tr. \<exists>clean. cleaning clean \<and> tr = clean @ [Mcr 7 10 4 0, Mcr 7 5 0 0])"
proof -
  have loop: "logs (whileM n (mapM (\<lambda>v. \<not> bit v 30) (mrc C 7 10 3)) (retM ())) (\<lambda>_. cleaning)" for n
    by (rule logs_while [where K = "\<lambda>tr. \<forall>x\<in>set tr. \<exists>w. x = Mrc 7 10 3 w \<and> \<not> bit w 30" and
          X = "\<lambda>tr. \<exists>w. tr = [Mrc 7 10 3 w] \<and> bit w 30"])
       (auto intro!: logs_map io.in_mrc logs_ret simp: cleaning_def)
  show ?thesis
    unfolding cache_sync_def seqM.simps
    by (rule logs_bind [OF loop], rule logs_bind [where P = "\<lambda>_ tr. tr = [Mcr 7 10 4 0]"], rule io.in_mcr, simp,
        rule logs_bind [where P = "\<lambda>_ tr. tr = [Mcr 7 5 0 0]"]) (auto intro!: io.in_mcr logs_ret)
qed

text \<open>
  Before it jumps, \<^verbatim>\<open>cmd_goto\<close> confirms the command and waits for the reply to leave the port, repeats the
  test-and-clean operation until the data cache is clean, drains the write buffer, invalidates the
  instruction cache and only then switches off the memory that held its own data; nothing
  comes between this and the jump to the address the host sent.
\<close>

theorem goto_hands_over:
  "cmd_goto E C payload = bindM (goto_prepare E C) payload \<and>
   wlpM (goto_prepare E C) (\<lambda>address t. \<exists>reply clean v. trace t = trace s @ reply @ clean @
       [Mcr 7 10 4 0, Mcr 7 5 0 0, Mrc 9 1 0 v, Mcr 9 1 0 (v AND NOT DTCM_REGION_ENABLE)] \<and>
     rxb reply = le_bytes 4 address \<and>
     writes reply = [(USART_TXB USART0, ucast STATUS_SUCCESS), (USART_ICR USART0, USART_ICR_TX)] \<and> cleaning clean) s"
proof
  show "cmd_goto E C payload = bindM (goto_prepare E C) payload" by (rule cmd_goto_prepare)
  have dtcm: "logs (dtcm_disable C) (\<lambda>_ tr. \<exists>v. tr = [Mrc 9 1 0 v, Mcr 9 1 0 (v AND NOT DTCM_REGION_ENABLE)])"
    unfolding dtcm_disable_def
    by (rule logs_bind [where P = "\<lambda>v tr. tr = [Mrc 9 1 0 v]"]) (auto intro!: io.in_mrc io.in_mcr)
  have "logs (goto_prepare E C) (\<lambda>address tr. \<exists>reply clean v. tr = reply @ clean @
       [Mcr 7 10 4 0, Mcr 7 5 0 0, Mrc 9 1 0 v, Mcr 9 1 0 (v AND NOT DTCM_REGION_ENABLE)] \<and>
     rxb reply = le_bytes 4 address \<and>
     writes reply = [(USART_TXB USART0, ucast STATUS_SUCCESS), (USART_ICR USART0, USART_ICR_TX)] \<and> cleaning clean)"
    unfolding goto_prepare_def seqM.simps bindM_assoc bindM_ret
  proof (rule logs_bind [OF logs_read_u32], rule logs_bind [OF logs_putc], rule logs_bind [OF logs_flush],
      rule logs_bind [OF logs_cache_sync], rule logs_bind [OF dtcm], rule logs_ret, elim exE conjE)
    fix address t1 t2 t3 t4 t5 clean v
    assume "rxb t1 = le_bytes 4 address" "writes t1 = []" "rxb t2 = []" "writes t2 = [(USART_TXB USART0, ucast STATUS_SUCCESS)]"
      "writes t3 = [(USART_ICR USART0, USART_ICR_TX)]" "read_from (USART_RXB USART0) t3 = []"
      "cleaning clean" "t4 = clean @ [Mcr 7 10 4 0, Mcr 7 5 0 0]"
      "t5 = [Mrc 9 1 0 v, Mcr 9 1 0 (v AND NOT DTCM_REGION_ENABLE)]"
    then show "\<exists>reply clean v. t1 @ t2 @ t3 @ t4 @ t5 @ [] = reply @ clean @
         [Mcr 7 10 4 0, Mcr 7 5 0 0, Mrc 9 1 0 v, Mcr 9 1 0 (v AND NOT DTCM_REGION_ENABLE)] \<and>
       rxb reply = le_bytes 4 address \<and>
       writes reply = [(USART_TXB USART0, ucast STATUS_SUCCESS), (USART_ICR USART0, USART_ICR_TX)] \<and> cleaning clean"
      by (intro exI [of _ "t1 @ t2 @ t3"] exI [of _ clean] exI [of _ v]) (simp add: rxb_def)
  qed
  then show "wlpM (goto_prepare E C) (\<lambda>address t. \<exists>reply clean v. trace t = trace s @ reply @ clean @
       [Mcr 7 10 4 0, Mcr 7 5 0 0, Mrc 9 1 0 v, Mcr 9 1 0 (v AND NOT DTCM_REGION_ENABLE)] \<and>
     rxb reply = le_bytes 4 address \<and>
     writes reply = [(USART_TXB USART0, ucast STATUS_SUCCESS), (USART_ICR USART0, USART_ICR_TX)] \<and> cleaning clean) s"
    by (rule logs_wlp) auto
qed

end
