(* ===== verification/Eeprom.thy ===== *)
theory Eeprom
  imports Conversation
begin

text \<open>
  The reader of the phone's parameter store in flash (\<^verbatim>\<open>src/unit/eeprom.c\<close>): the two layouts of a partition,
  the search for a block and the reconstruction of interleaved data. The flash is a parameter, a
  function from offsets to bytes with a size; a read outside it is the fault \<open>Out_Of_Bounds\<close>.
\<close>

section \<open>Definitions\<close>

abbreviation (input) FLASH_ADDRESS_MIN :: u32 where "FLASH_ADDRESS_MIN \<equiv> 0xA0000000"
abbreviation (input) FLASH_ADDRESS_MAX :: u32 where "FLASH_ADDRESS_MAX \<equiv> 0xB0000000"
abbreviation (input) FLASH_WINDOW_MAX_EXPONENT :: u32 where "FLASH_WINDOW_MAX_EXPONENT \<equiv> 27"
abbreviation (input) EBU_CHIP_SELECT_COUNT :: nat where "EBU_CHIP_SELECT_COUNT \<equiv> 4"
abbreviation (input) EEPROM_PARTITION_BLOCK_SIZE :: u32 where "EEPROM_PARTITION_BLOCK_SIZE \<equiv> 0x10000"
abbreviation (input) EEPROM_SG_PARTITION_SIZE :: u32 where "EEPROM_SG_PARTITION_SIZE \<equiv> 0x20000"
abbreviation (input) EEPROM_NSG_PARTITION_SIZE :: u32 where "EEPROM_NSG_PARTITION_SIZE \<equiv> 0x40000"
abbreviation (input) EEPROM_SG_HEADER_SIZE :: nat where "EEPROM_SG_HEADER_SIZE \<equiv> 16"
abbreviation (input) EEPROM_NSG_HEADER_SIZE :: nat where "EEPROM_NSG_HEADER_SIZE \<equiv> 32"
abbreviation (input) EEPROM_SG_EIT_ENTRY_SIZE :: u32 where "EEPROM_SG_EIT_ENTRY_SIZE \<equiv> 16"
abbreviation (input) EEPROM_NSG_EIT_ENTRY_SIZE :: u32 where "EEPROM_NSG_EIT_ENTRY_SIZE \<equiv> 32"
abbreviation (input) EEPROM_NSG_DATA_CHUNK_SIZE :: u32 where "EEPROM_NSG_DATA_CHUNK_SIZE \<equiv> 0x10"
abbreviation (input) EEPROM_NSG_EELITE_INLINE_MAX :: u32 where "EEPROM_NSG_EELITE_INLINE_MAX \<equiv> 0x10"
abbreviation (input) EEPROM_NSG_EEFULL_INLINE_MAX :: u32 where "EEPROM_NSG_EEFULL_INLINE_MAX \<equiv> 0x200"
abbreviation (input) EEPROM_ENTRY_STATE_MASK :: u32 where "EEPROM_ENTRY_STATE_MASK \<equiv> 0xAAAAAAAA"
abbreviation (input) EEPROM_ENTRY_FREE :: u32 where "EEPROM_ENTRY_FREE \<equiv> 0xAAAAAAAA"
abbreviation (input) EEPROM_ENTRY_WRITING :: u32 where "EEPROM_ENTRY_WRITING \<equiv> 0xAAAAAAA8"
abbreviation (input) EEPROM_ENTRY_VALID :: u32 where "EEPROM_ENTRY_VALID \<equiv> 0xAAAAAA80"
abbreviation (input) EEPROM_ENTRY_OBSOLETE :: u32 where "EEPROM_ENTRY_OBSOLETE \<equiv> 0xAAAAAA00"
abbreviation (input) EEPROM_PARTITION_MARKER :: u32 where "EEPROM_PARTITION_MARKER \<equiv> 0xFFFFFFF0"
abbreviation (input) EEPROM_EEFULL_BLOCK_ID_BASE :: u32 where "EEPROM_EEFULL_BLOCK_ID_BASE \<equiv> 5000"
abbreviation (input) EEPROM_EEFULL_EXTENDED_VERSION_FLAG :: u8 where "EEPROM_EEFULL_EXTENDED_VERSION_FLAG \<equiv> 0x80"
abbreviation (input) EEPROM_EEFULL_METADATA_SIZE :: u32 where "EEPROM_EEFULL_METADATA_SIZE \<equiv> 1"
abbreviation (input) EEPROM_EEFULL_EXTENDED_METADATA_SIZE :: u32 where "EEPROM_EEFULL_EXTENDED_METADATA_SIZE \<equiv> 6"
abbreviation (input) EEPROM_BLOCK_INLINE_CAPACITY :: nat where "EEPROM_BLOCK_INLINE_CAPACITY \<equiv> 0x200"

datatype eeprom_layout = EEPROM_LAYOUT_SG | EEPROM_LAYOUT_NSG

datatype eeprom_partition_type = EEPROM_PARTITION_EELITE | EEPROM_PARTITION_EEFULL | EEPROM_PARTITION_COUNT

datatype eeprom_result =
    EEPROM_RESULT_OK
  | EEPROM_RESULT_FLASH_NOT_MAPPED
  | EEPROM_RESULT_PARTITION_NOT_FOUND
  | EEPROM_RESULT_BLOCK_NOT_FOUND
  | EEPROM_RESULT_INVALID

text \<open>
  Pointers into the flash are offsets from its start, natural numbers; a partition's \<open>base\<close> is
  one. The data of a block lie in the flash or in the block itself.
\<close>

record flash_map =
  flash_byte :: "u32 \<Rightarrow> u8"
  flash_size :: u32

record eeprom_partition =
  base :: nat
  psize :: u32
  layout :: eeprom_layout

datatype block_data = In_Flash nat | In_Line

record eeprom_block =
  bdata :: block_data
  bsize :: u32
  version :: u16
  inline_data :: "u8 list"

definition EEPROM_PARTITION_NAMES :: "eeprom_partition_type \<Rightarrow> u8 list" where
  "EEPROM_PARTITION_NAMES type = (case type of
     EEPROM_PARTITION_EELITE \<Rightarrow> [0x45, 0x45, 0x4C, 0x49, 0x54, 0x45, 0, 0]
   | EEPROM_PARTITION_EEFULL \<Rightarrow> [0x45, 0x45, 0x46, 0x55, 0x4C, 0x4C, 0, 0]
   | EEPROM_PARTITION_COUNT \<Rightarrow> [])"

definition flash_read :: "flash_map \<Rightarrow> nat \<Rightarrow> fault + u8" where
  "flash_read F i = (if i < unat (flash_size F) then Inr (flash_byte F (of_nat i)) else Inl Out_Of_Bounds)"

definition read_u16 :: "flash_map \<Rightarrow> nat \<Rightarrow> fault + u16" where
  "read_u16 F p = bindE (flash_read F p) (\<lambda>b0. bindE (flash_read F (p + 1)) (\<lambda>b1.
     Inr (ucast b0 OR push_bit 8 (ucast b1))))"

definition read_u32 :: "flash_map \<Rightarrow> nat \<Rightarrow> fault + u32" where
  "read_u32 F p = bindE (flash_read F p) (\<lambda>b0. bindE (flash_read F (p + 1)) (\<lambda>b1.
     bindE (flash_read F (p + 2)) (\<lambda>b2. bindE (flash_read F (p + 3)) (\<lambda>b3.
     Inr (ucast b0 OR push_bit 8 (ucast b1) OR push_bit 16 (ucast b2) OR push_bit 24 (ucast b3))))))"

definition is_entry_state_valid :: "u32 \<Rightarrow> bool" where
  "is_entry_state_valid state \<longleftrightarrow>
     state = EEPROM_ENTRY_FREE \<or> state = EEPROM_ENTRY_WRITING \<or> state = EEPROM_ENTRY_VALID \<or> state = EEPROM_ENTRY_OBSOLETE"

definition align_nsg_data_offset :: "u32 \<Rightarrow> u32" where
  "align_nsg_data_offset offset =
     (if offset AND EEPROM_NSG_DATA_CHUNK_SIZE = 0 then offset
      else offset + EEPROM_NSG_DATA_CHUNK_SIZE * 2 - (offset AND (EEPROM_NSG_DATA_CHUNK_SIZE * 2 - 1)))"

definition nsg_data_byte_offset :: "u32 \<Rightarrow> u32 \<Rightarrow> u32" where
  "nsg_data_byte_offset offset index =
     (let chunk_offset = offset AND (EEPROM_NSG_DATA_CHUNK_SIZE - 1)
      in offset + index + ((chunk_offset + index) div EEPROM_NSG_DATA_CHUNK_SIZE) * EEPROM_NSG_DATA_CHUNK_SIZE)"

text \<open>The body of the loop of \<^verbatim>\<open>find_flash_size\<close>; \<^verbatim>\<open>continue\<close> keeps the size found so far.\<close>

definition flash_window_end :: "u32 \<Rightarrow> u32 \<Rightarrow> u32 \<Rightarrow> u32" where
  "flash_window_end address_select buscon found =
     (let address_generation = buscon AND EBU_BUSCON_AGEN;
          is_sdram = address_generation = EBU_BUSCON_AGEN_SDRAM_0 \<or> address_generation = EBU_BUSCON_AGEN_SDRAM_1;
          mask = drop_bit EBU_ADDRSEL_MASK_SHIFT (address_select AND EBU_ADDRSEL_MASK);
          base = address_select AND EBU_ADDRSEL_BASE
      in if address_select AND EBU_ADDRSEL_REGENAB = 0 then found
         else if is_sdram then found
         else if mask > FLASH_WINDOW_MAX_EXPONENT then found
         else if base < FLASH_ADDRESS_MIN \<or> base \<ge> FLASH_ADDRESS_MAX then found
         else
           let size = push_bit (unat (FLASH_WINDOW_MAX_EXPONENT - mask)) 1
           in if size > FLASH_ADDRESS_MAX - base then found
              else
                let window_end = base + size; mapped_size = window_end - FLASH_ADDRESS_MIN
                in if mapped_size > found then mapped_size else found)"

primrec flash_size_loop :: "'h env \<Rightarrow> nat list \<Rightarrow> u32 \<Rightarrow> (('h, 'z) machine_scheme, u32) cmd" where
  "flash_size_loop E [] found = retM found"
| "flash_size_loop E (cs # css) found =
     bindM (rd E (EBU_ADDRSEL (of_nat cs))) (\<lambda>address_select.
     bindM (rd E (EBU_BUSCON (of_nat cs))) (\<lambda>buscon.
     flash_size_loop E css (flash_window_end address_select buscon found)))"

definition find_flash_size :: "'h env \<Rightarrow> (('h, 'z) machine_scheme, u32) cmd" where
  "find_flash_size E = flash_size_loop E [0..<EBU_CHIP_SELECT_COUNT] 0"

text \<open>\<open>bytes_match F p bs\<close>: the loop that compares consecutive bytes and stops at the first difference.\<close>

primrec bytes_match :: "flash_map \<Rightarrow> nat \<Rightarrow> u8 list \<Rightarrow> fault + bool" where
  "bytes_match F p [] = Inr True"
| "bytes_match F p (b # bs) = bindE (flash_read F p) (\<lambda>v. if v \<noteq> b then Inr False else bytes_match F (p + 1) bs)"

definition partition_header_matches :: "flash_map \<Rightarrow> nat \<Rightarrow> nat \<Rightarrow> u8 list \<Rightarrow> fault + bool" where
  "partition_header_matches F header sz name =
     bindE (bytes_match F header name) (\<lambda>ok. if \<not> ok then Inr False else
     bindE (read_u16 F (header + 10)) (\<lambda>v. if v \<noteq> 0 then Inr False else
     bindE (read_u32 F (header + 12)) (\<lambda>v. if v \<noteq> EEPROM_PARTITION_MARKER then Inr False else
     bytes_match F (header + EEPROM_SG_HEADER_SIZE) (replicate (sz - EEPROM_SG_HEADER_SIZE) 0xFF))))"

definition eefull_metadata_size :: "u8 \<Rightarrow> u32" where
  "eefull_metadata_size v =
     (if v AND EEPROM_EEFULL_EXTENDED_VERSION_FLAG \<noteq> 0 \<and> v \<noteq> 0xFF
      then EEPROM_EEFULL_EXTENDED_METADATA_SIZE else EEPROM_EEFULL_METADATA_SIZE)"

definition decode_sg_block ::
  "flash_map \<Rightarrow> eeprom_partition \<Rightarrow> eeprom_partition_type \<Rightarrow> nat \<Rightarrow> eeprom_block \<Rightarrow> fault + eeprom_result \<times> eeprom_block" where
  "decode_sg_block F P type entry block =
     bindE (read_u32 F (entry + 8)) (\<lambda>stored_size.
     bindE (read_u32 F (entry + 12)) (\<lambda>offset.
     if stored_size = 0 then Inr (EEPROM_RESULT_INVALID, block)
     else if offset \<ge> psize P then Inr (EEPROM_RESULT_INVALID, block)
     else if stored_size > psize P - offset then Inr (EEPROM_RESULT_INVALID, block)
     else if type = EEPROM_PARTITION_EEFULL then
       bindE (flash_read F (base P + unat offset)) (\<lambda>v.
       if stored_size < eefull_metadata_size v then Inr (EEPROM_RESULT_INVALID, block)
       else Inr (EEPROM_RESULT_OK, block\<lparr>bdata := In_Flash (base P + unat offset + 1),
              bsize := stored_size - eefull_metadata_size v, version := ucast v\<rparr>))
     else
       let sz = stored_size - 1 in
       bindE (flash_read F (base P + unat (offset + sz))) (\<lambda>v.
       Inr (EEPROM_RESULT_OK, block\<lparr>bdata := In_Flash (base P + unat offset), bsize := sz, version := ucast v\<rparr>))))"

text \<open>The copy loop, from index \<open>i\<close> for \<open>n\<close> more bytes.\<close>

primrec copy_inline_loop ::
  "nat \<Rightarrow> flash_map \<Rightarrow> eeprom_partition \<Rightarrow> u32 \<Rightarrow> u32 \<Rightarrow> nat \<Rightarrow> eeprom_block \<Rightarrow> fault + eeprom_result \<times> eeprom_block" where
  "copy_inline_loop 0 F P stored_offset source_offset i block = Inr (EEPROM_RESULT_OK, block\<lparr>bdata := In_Line\<rparr>)"
| "copy_inline_loop (Suc n) F P stored_offset source_offset i block =
     (let offset = nsg_data_byte_offset stored_offset (source_offset + of_nat i) in
      if offset \<ge> psize P then Inr (EEPROM_RESULT_INVALID, block)
      else bindE (flash_read F (base P + unat offset)) (\<lambda>v.
           if i < length (inline_data block)
           then copy_inline_loop n F P stored_offset source_offset (i + 1) (block\<lparr>inline_data := (inline_data block)[i := v]\<rparr>)
           else Inl Out_Of_Bounds))"

definition copy_nsg_inline_block ::
  "flash_map \<Rightarrow> eeprom_partition \<Rightarrow> u32 \<Rightarrow> u32 \<Rightarrow> u32 \<Rightarrow> eeprom_block \<Rightarrow> fault + eeprom_result \<times> eeprom_block" where
  "copy_nsg_inline_block F P stored_offset source_offset sz block =
     (if unat sz > EEPROM_BLOCK_INLINE_CAPACITY then Inr (EEPROM_RESULT_INVALID, block)
      else copy_inline_loop (unat sz) F P stored_offset source_offset 0 block)"

text \<open>Where the data of an entry are stored: \<open>None\<close> is the early return with an invalid result.\<close>

definition nsg_stored_offset :: "flash_map \<Rightarrow> eeprom_partition \<Rightarrow> u32 \<Rightarrow> nat \<Rightarrow> u32 \<Rightarrow> bool \<Rightarrow> fault + u32 option" where
  "nsg_stored_offset F P entry_offset entry stored_size is_inline =
     (if is_inline then
        let reserved_size = EEPROM_NSG_DATA_CHUNK_SIZE + stored_size + (stored_size AND NOT (EEPROM_NSG_DATA_CHUNK_SIZE - 1))
        in if entry_offset < reserved_size then Inr None
           else Inr (Some (align_nsg_data_offset (entry_offset - reserved_size)))
      else
        bindE (read_u32 F (entry + 12)) (\<lambda>stored_offset.
        if stored_offset \<ge> psize P then Inr None
        else if stored_size > psize P - stored_offset then Inr None
        else Inr (Some stored_offset)))"

text \<open>The two branches on the type of the partition at the end of \<^verbatim>\<open>decode_nsg_block\<close>.\<close>

definition decode_nsg_full ::
  "flash_map \<Rightarrow> eeprom_partition \<Rightarrow> u32 \<Rightarrow> u32 \<Rightarrow> bool \<Rightarrow> eeprom_block \<Rightarrow> fault + eeprom_result \<times> eeprom_block" where
  "decode_nsg_full F P stored_offset stored_size is_inline block =
     (let version_offset = (if is_inline then nsg_data_byte_offset stored_offset 0 else stored_offset) in
      if version_offset \<ge> psize P then Inr (EEPROM_RESULT_INVALID, block)
      else bindE (flash_read F (base P + unat version_offset)) (\<lambda>v.
           if stored_size < eefull_metadata_size v then Inr (EEPROM_RESULT_INVALID, block)
           else
             let sz = stored_size - eefull_metadata_size v; block = block\<lparr>bsize := sz, version := ucast v\<rparr> in
             if is_inline then copy_nsg_inline_block F P stored_offset 1 sz block
             else Inr (EEPROM_RESULT_OK, block\<lparr>bdata := In_Flash (base P + unat stored_offset + 1)\<rparr>)))"

definition decode_nsg_lite ::
  "flash_map \<Rightarrow> eeprom_partition \<Rightarrow> nat \<Rightarrow> u32 \<Rightarrow> u32 \<Rightarrow> bool \<Rightarrow> eeprom_block \<Rightarrow> fault + eeprom_result \<times> eeprom_block" where
  "decode_nsg_lite F P entry stored_offset stored_size is_inline block =
     bindE (flash_read F (entry + 7)) (\<lambda>v.
     let block = block\<lparr>bsize := stored_size, version := ucast v\<rparr> in
     if is_inline then copy_nsg_inline_block F P stored_offset 0 stored_size block
     else Inr (EEPROM_RESULT_OK, block\<lparr>bdata := In_Flash (base P + unat stored_offset)\<rparr>))"

definition decode_nsg_block ::
  "flash_map \<Rightarrow> eeprom_partition \<Rightarrow> eeprom_partition_type \<Rightarrow> u32 \<Rightarrow> nat \<Rightarrow> eeprom_block \<Rightarrow> fault + eeprom_result \<times> eeprom_block" where
  "decode_nsg_block F P type entry_offset entry block =
     bindE (if type = EEPROM_PARTITION_EEFULL then read_u32 F (entry + 8)
            else bindE (read_u16 F (entry + 8)) (\<lambda>v. Inr (ucast v))) (\<lambda>stored_size.
     if stored_size = 0 then Inr (EEPROM_RESULT_INVALID, block)
     else
       let inline_limit = (if type = EEPROM_PARTITION_EEFULL then EEPROM_NSG_EEFULL_INLINE_MAX else EEPROM_NSG_EELITE_INLINE_MAX);
           is_inline = stored_size \<le> inline_limit in
       bindE (nsg_stored_offset F P entry_offset entry stored_size is_inline) (\<lambda>so. case so of
         None \<Rightarrow> Inr (EEPROM_RESULT_INVALID, block)
       | Some stored_offset \<Rightarrow>
           if type = EEPROM_PARTITION_EEFULL then decode_nsg_full F P stored_offset stored_size is_inline block
           else decode_nsg_lite F P entry stored_offset stored_size is_inline block))"

text \<open>The result when the table ends.\<close>

definition table_end :: "bool \<Rightarrow> eeprom_result" where
  "table_end matched = (if matched then EEPROM_RESULT_OK else EEPROM_RESULT_BLOCK_NOT_FOUND)"

definition entry_size :: "eeprom_partition \<Rightarrow> u32" where
  "entry_size P = (if layout P = EEPROM_LAYOUT_NSG then EEPROM_NSG_EIT_ENTRY_SIZE else EEPROM_SG_EIT_ENTRY_SIZE)"

definition entry_offset :: "eeprom_partition \<Rightarrow> nat \<Rightarrow> u32" where
  "entry_offset P number =
     (let offset = psize P - entry_size P * of_nat number
      in if layout P = EEPROM_LAYOUT_NSG then offset - entry_size P else offset)"

text \<open>The loop over the entry numbers; the value is the result, \<^verbatim>\<open>*matched\<close> and the block.\<close>

primrec find_entry_loop ::
  "nat list \<Rightarrow> flash_map \<Rightarrow> eeprom_partition \<Rightarrow> eeprom_partition_type \<Rightarrow> u32 \<Rightarrow> bool \<Rightarrow> eeprom_block \<Rightarrow>
     fault + eeprom_result \<times> bool \<times> eeprom_block" where
  "find_entry_loop [] F P type block_id matched block = Inr (table_end matched, matched, block)"
| "find_entry_loop (number # ns) F P type block_id matched block =
     (let offset = entry_offset P number; entry = base P + unat offset;
          continue = find_entry_loop ns F P type block_id in
      bindE (read_u32 F entry) (\<lambda>w. let state = w AND EEPROM_ENTRY_STATE_MASK in
      if \<not> is_entry_state_valid state then
        (if layout P = EEPROM_LAYOUT_SG then Inr (EEPROM_RESULT_INVALID, matched, block) else continue matched block)
      else if layout P = EEPROM_LAYOUT_SG \<and> state = EEPROM_ENTRY_FREE then Inr (table_end matched, matched, block)
      else if state \<noteq> EEPROM_ENTRY_VALID then continue matched block
      else
        bindE (if layout P = EEPROM_LAYOUT_NSG \<and> type = EEPROM_PARTITION_EELITE
               then bindE (read_u16 F (entry + 4)) (\<lambda>v. Inr (ucast v)) else read_u32 F (entry + 4)) (\<lambda>entry_block_id.
        let maximum_id = (if type = EEPROM_PARTITION_EELITE then EEPROM_EEFULL_BLOCK_ID_BASE - 1
                          else - 1 - EEPROM_EEFULL_BLOCK_ID_BASE) in
        if entry_block_id > maximum_id then
          (if layout P = EEPROM_LAYOUT_SG then Inr (EEPROM_RESULT_INVALID, matched, block) else continue matched block)
        else
          let entry_block_id = (if type = EEPROM_PARTITION_EEFULL then entry_block_id + EEPROM_EEFULL_BLOCK_ID_BASE
                                else entry_block_id) in
          if entry_block_id \<noteq> block_id then continue matched block
          else
            bindE (if layout P = EEPROM_LAYOUT_NSG then decode_nsg_block F P type offset entry block
                   else decode_sg_block F P type entry block) (\<lambda>(result, block).
            if result \<noteq> EEPROM_RESULT_OK then Inr (result, True, block)
            else if layout P = EEPROM_LAYOUT_SG then Inr (EEPROM_RESULT_OK, True, block)
            else continue True block))))"

definition find_partition_block ::
  "flash_map \<Rightarrow> eeprom_partition \<Rightarrow> eeprom_partition_type \<Rightarrow> u32 \<Rightarrow> eeprom_block \<Rightarrow>
     fault + eeprom_result \<times> bool \<times> eeprom_block" where
  "find_partition_block F P type block_id block =
     (let entry_count = psize P div entry_size P - 1
      in find_entry_loop [1..<unat entry_count + 1] F P type block_id False block)"

text \<open>The partition, if any, that the flash block at \<open>offset\<close> belongs to.\<close>

definition locate_partition :: "flash_map \<Rightarrow> u8 list \<Rightarrow> u32 \<Rightarrow> fault + eeprom_partition option" where
  "locate_partition F name offset =
     (let sg_partition_fits = flash_size F \<ge> EEPROM_SG_PARTITION_SIZE \<and> offset \<le> flash_size F - EEPROM_SG_PARTITION_SIZE in
      bindE (if sg_partition_fits then partition_header_matches F (unat offset) EEPROM_SG_HEADER_SIZE name else Inr False) (\<lambda>sg.
      if sg then Inr (Some \<lparr>base = unat offset, psize = EEPROM_SG_PARTITION_SIZE, layout = EEPROM_LAYOUT_SG\<rparr>)
      else
        let header = unat offset + unat EEPROM_PARTITION_BLOCK_SIZE - EEPROM_NSG_HEADER_SIZE;
            can_be_nsg_partition = offset \<ge> EEPROM_PARTITION_BLOCK_SIZE * 3 in
        bindE (if can_be_nsg_partition then partition_header_matches F header EEPROM_NSG_HEADER_SIZE name else Inr False) (\<lambda>nsg.
        Inr (if nsg then Some \<lparr>base = unat offset - unat (EEPROM_PARTITION_BLOCK_SIZE * 3), psize = EEPROM_NSG_PARTITION_SIZE,
                               layout = EEPROM_LAYOUT_NSG\<rparr>
             else None))))"

text \<open>The value is the result, \<^verbatim>\<open>*partition_found\<close>, \<^verbatim>\<open>*matched\<close> and the block.\<close>

primrec find_flash_loop ::
  "nat list \<Rightarrow> flash_map \<Rightarrow> eeprom_partition_type \<Rightarrow> u32 \<Rightarrow> bool \<Rightarrow> bool \<Rightarrow> eeprom_block \<Rightarrow>
     fault + eeprom_result \<times> bool \<times> bool \<times> eeprom_block" where
  "find_flash_loop [] F type block_id partition_found matched block =
     Inr (EEPROM_RESULT_BLOCK_NOT_FOUND, partition_found, matched, block)"
| "find_flash_loop (block_index # is) F type block_id partition_found matched block =
     bindE (locate_partition F (EEPROM_PARTITION_NAMES type) (of_nat block_index * EEPROM_PARTITION_BLOCK_SIZE)) (\<lambda>found.
     case found of
       None \<Rightarrow> find_flash_loop is F type block_id partition_found matched block
     | Some P \<Rightarrow>
         bindE (find_partition_block F P type block_id block) (\<lambda>(result, matched, block).
         if result = EEPROM_RESULT_INVALID then Inr (result, True, matched, block)
         else if matched then Inr (EEPROM_RESULT_OK, True, matched, block)
         else find_flash_loop is F type block_id True matched block))"

definition find_flash_block ::
  "flash_map \<Rightarrow> eeprom_partition_type \<Rightarrow> u32 \<Rightarrow> eeprom_block \<Rightarrow> fault + eeprom_result \<times> bool \<times> bool \<times> eeprom_block" where
  "find_flash_block F type block_id block =
     (let flash_block_count = flash_size F div EEPROM_PARTITION_BLOCK_SIZE
      in find_flash_loop [0..<unat flash_block_count] F type block_id False False block)"

text \<open>The pointers \<^verbatim>\<open>data\<close> and \<^verbatim>\<open>block\<close> are not null: the model's arguments are the objects themselves.\<close>

definition eeprom_find_block_in_memory ::
  "flash_map \<Rightarrow> eeprom_partition_type \<Rightarrow> u32 \<Rightarrow> eeprom_block \<Rightarrow> fault + eeprom_result \<times> eeprom_block" where
  "eeprom_find_block_in_memory F type block_id block =
     (if type = EEPROM_PARTITION_COUNT then Inr (EEPROM_RESULT_INVALID, block)
      else bindE (find_flash_block F type block_id block) (\<lambda>(result, partition_found, matched, block).
           Inr (if result = EEPROM_RESULT_INVALID \<or> matched then result
                else if partition_found then EEPROM_RESULT_BLOCK_NOT_FOUND else EEPROM_RESULT_PARTITION_NOT_FOUND, block)))"

definition eeprom_find_block ::
  "'h env \<Rightarrow> eeprom_partition_type \<Rightarrow> u32 \<Rightarrow> eeprom_block \<Rightarrow> (('h, 'z) machine_scheme, eeprom_result \<times> eeprom_block) cmd" where
  "eeprom_find_block E type block_id block =
     bindM (find_flash_size E) (\<lambda>sz.
     if sz = 0 then retM (EEPROM_RESULT_FLASH_NOT_MAPPED, block)
     else bindM (getM (\<lambda>s. \<lparr>flash_byte = (\<lambda>i. ram s (FLASH_ADDRESS_MIN + i)), flash_size = sz\<rparr>)) (\<lambda>F.
          liftE (eeprom_find_block_in_memory F type block_id block)))"

text \<open>An erased flash of four partition blocks, for the concrete runs.\<close>

definition blank_flash :: flash_map where
  "blank_flash = \<lparr>flash_byte = (\<lambda>_. 0xFF), flash_size = 0x40000\<rparr>"

definition blank_partition :: eeprom_partition where
  "blank_partition = \<lparr>base = 0, psize = 0x40000, layout = EEPROM_LAYOUT_NSG\<rparr>"

definition blank_block :: eeprom_block where
  "blank_block = \<lparr>bdata = In_Line, bsize = 0, version = 0, inline_data = replicate 512 0\<rparr>"

section \<open>No read outside the flash\<close>

lemma bindE_assoc: "bindE (bindE m f) g = bindE m (\<lambda>x. bindE (f x) g)"
  by (cases m) simp_all

lemma okE_bindI: "okE m Q \<Longrightarrow> (\<And>x. Q x \<Longrightarrow> okE (f x) R) \<Longrightarrow> okE (bindE m f) R"
  by (auto simp: okE_bind elim: okE_mono)

lemma okE_flash_read: "i < unat (flash_size F) \<Longrightarrow> (\<And>v. okE (f v) R) \<Longrightarrow> okE (bindE (flash_read F i) f) R"
  by (simp add: flash_read_def)

lemma okE_read_u16: "p + 1 < unat (flash_size F) \<Longrightarrow> (\<And>v. okE (f v) R) \<Longrightarrow> okE (bindE (read_u16 F p) f) R"
  by (simp add: read_u16_def flash_read_def)

lemma okE_read_u32: "p + 3 < unat (flash_size F) \<Longrightarrow> (\<And>v. okE (f v) R) \<Longrightarrow> okE (bindE (read_u32 F p) f) R"
  by (simp add: read_u32_def flash_read_def)

lemma okE_bytes_match: "p + length bs \<le> unat (flash_size F) \<Longrightarrow> okE (bytes_match F p bs) (\<lambda>_. True)"
  by (induction bs arbitrary: p) (simp_all add: okE_bind flash_read_def)

lemma okE_if: "(b \<Longrightarrow> okE m R) \<Longrightarrow> (\<not> b \<Longrightarrow> okE n R) \<Longrightarrow> okE (if b then m else n) R"
  by simp

lemmas okE_reads = okE_flash_read okE_read_u16 okE_read_u32

text \<open>A partition that lies in the flash, and a block that the reader has filled in.\<close>

definition inside :: "flash_map \<Rightarrow> eeprom_partition \<Rightarrow> bool" where
  "inside F P \<longleftrightarrow> base P + unat (psize P) \<le> unat (flash_size F) \<and>
     psize P = (if layout P = EEPROM_LAYOUT_SG then EEPROM_SG_PARTITION_SIZE else EEPROM_NSG_PARTITION_SIZE)"

lemma insideD: "inside F P \<Longrightarrow> base P + unat (psize P) \<le> unat (flash_size F)"
  unfolding inside_def by (elim conjE)

definition block_ok :: "flash_map \<Rightarrow> eeprom_block \<Rightarrow> bool" where
  "block_ok F b \<longleftrightarrow> (case bdata b of
     In_Flash p \<Rightarrow> p + unat (bsize b) \<le> unat (flash_size F)
   | In_Line \<Rightarrow> unat (bsize b) \<le> length (inline_data b))"

text \<open>What decoding gives: the buffer of the block keeps its size, and the data of a valid block are there.\<close>

definition sound :: "flash_map \<Rightarrow> eeprom_result \<Rightarrow> eeprom_block \<Rightarrow> bool" where
  "sound F r b \<longleftrightarrow> length (inline_data b) = EEPROM_BLOCK_INLINE_CAPACITY \<and>
     (r = EEPROM_RESULT_INVALID \<or> r = EEPROM_RESULT_OK \<and> block_ok F b)"

lemma room: "\<not> v > n - k \<Longrightarrow> k < n \<Longrightarrow> unat k + unat v \<le> unat (n :: u32)"
  by (simp add: not_less word_le_nat_alt word_less_nat_alt unat_sub)

lemma unat_last: "k < n \<Longrightarrow> v \<noteq> 0 \<Longrightarrow> \<not> v > n - k \<Longrightarrow> unat (k + (v - 1)) = unat k + unat (v :: u32) - 1"
proof -
  assume a: "k < n" "v \<noteq> 0" "\<not> v > n - k"
  have "0 < unat v" using a(2) by (simp add: unat_gt_0)
  moreover have "unat (v - 1) = unat v - 1" using a(2) by (simp add: unat_sub_if_size Suc_le_eq unat_gt_0)
  moreover have "unat n < 2 ^ 32" using unsigned_less [of n, where 'a = nat] by simp
  ultimately show ?thesis using room [OF a(3,1)] by (subst unat_word_ariths) simp
qed

lemma unat_minus: "\<not> a < b \<Longrightarrow> unat (a - b :: u32) = unat a - unat b"
  by (simp add: not_less unat_sub)

lemma eefull_metadata_pos: "1 \<le> unat (eefull_metadata_size v)"
  by (simp add: eefull_metadata_size_def)

lemma decode_sg_sound:
  assumes "inside F P" "entry + 15 < unat (flash_size F)" "length (inline_data b) = EEPROM_BLOCK_INLINE_CAPACITY"
  shows "okE (decode_sg_block F P type entry b) (\<lambda>(r, b). sound F r b)"
  unfolding decode_sg_block_def Let_def
proof (intro okE_read_u32)
  fix sz off :: u32
  have b: "base P + unat (psize P) \<le> unat (flash_size F)" by (rule insideD [OF assms(1)])
  show "okE (if sz = 0 then Inr (EEPROM_RESULT_INVALID, b)
     else if off \<ge> psize P then Inr (EEPROM_RESULT_INVALID, b)
     else if sz > psize P - off then Inr (EEPROM_RESULT_INVALID, b)
     else if type = EEPROM_PARTITION_EEFULL then
       bindE (flash_read F (base P + unat off)) (\<lambda>v.
       if sz < eefull_metadata_size v then Inr (EEPROM_RESULT_INVALID, b)
       else Inr (EEPROM_RESULT_OK, b\<lparr>bdata := In_Flash (base P + unat off + 1),
              bsize := sz - eefull_metadata_size v, version := ucast v\<rparr>))
     else
       bindE (flash_read F (base P + unat (off + (sz - 1)))) (\<lambda>v.
       Inr (EEPROM_RESULT_OK, b\<lparr>bdata := In_Flash (base P + unat off), bsize := sz - 1, version := ucast v\<rparr>)))
    (\<lambda>(r, b). sound F r b)"
  proof (cases "sz = 0 \<or> off \<ge> psize P \<or> sz > psize P - off")
    case True
    then show ?thesis using assms(3) by (auto simp: sound_def)
  next
    case False
    then have f: "sz \<noteq> 0" "off < psize P" "\<not> sz > psize P - off" by auto
    have r: "unat off + unat sz \<le> unat (psize P)" "0 < unat sz" using room [OF f(3,2)] f(1) by (simp_all add: unat_gt_0)
    have z: "unat (sz - 1) = unat sz - 1" using f(1) by (simp add: unat_sub_if_size Suc_le_eq unat_gt_0)
    show ?thesis
    proof (cases "type = EEPROM_PARTITION_EEFULL")
      case True
      have "okE (if sz < eefull_metadata_size v then Inr (EEPROM_RESULT_INVALID, b)
          else Inr (EEPROM_RESULT_OK, b\<lparr>bdata := In_Flash (base P + unat off + 1),
              bsize := sz - eefull_metadata_size v, version := ucast v\<rparr>)) (\<lambda>(r, b). sound F r b)" for v
        using assms(3) r b eefull_metadata_pos [of v] by (auto simp: sound_def block_ok_def unat_minus)
      then show ?thesis using f True r b by (auto simp: not_le intro!: okE_flash_read)
    next
      case False
      then show ?thesis
        using f r b z assms(3) by (auto simp: not_le sound_def block_ok_def unat_last intro!: okE_flash_read)
    qed
  qed
qed (use assms in auto)

lemma copy_inline_sound:
  assumes "inside F P" "length (inline_data b) = EEPROM_BLOCK_INLINE_CAPACITY" "i + n \<le> EEPROM_BLOCK_INLINE_CAPACITY"
  shows "okE (copy_inline_loop n F P so src i b) (\<lambda>(r, b'). length (inline_data b') = EEPROM_BLOCK_INLINE_CAPACITY \<and>
    (r = EEPROM_RESULT_INVALID \<or> r = EEPROM_RESULT_OK \<and> bdata b' = In_Line \<and> bsize b' = bsize b))"
  using assms(2,3)
proof (induction n arbitrary: i b)
  case (Suc n)
  have "okE (copy_inline_loop n F P so src (Suc i) (b\<lparr>inline_data := (inline_data b)[i := v]\<rparr>))
      (\<lambda>(r, b'). length (inline_data b') = EEPROM_BLOCK_INLINE_CAPACITY \<and>
        (r = EEPROM_RESULT_INVALID \<or> r = EEPROM_RESULT_OK \<and> bdata b' = In_Line \<and> bsize b' = bsize b))" for v
    using Suc.IH [of "b\<lparr>inline_data := (inline_data b)[i := v]\<rparr>" "Suc i"] Suc.prems by simp
  then show ?case
    using Suc.prems insideD [OF assms(1)] by (auto simp: Let_def not_le word_less_nat_alt intro!: okE_flash_read)
qed simp

lemma copy_block_sound:
  assumes "inside F P" "length (inline_data b) = EEPROM_BLOCK_INLINE_CAPACITY" "bsize b = sz"
  shows "okE (copy_nsg_inline_block F P so src sz b) (\<lambda>(r, b). sound F r b)"
  using copy_inline_sound [OF assms(1,2), of 0 "unat sz" so src] assms(2,3)
  by (auto simp: copy_nsg_inline_block_def sound_def block_ok_def elim!: okE_mono)

lemma stored_offset_sound:
  assumes "entry + 15 < unat (flash_size F)"
  shows "okE (nsg_stored_offset F P eo entry sz inl) (\<lambda>so. case so of None \<Rightarrow> True
    | Some off \<Rightarrow> inl \<or> (off < psize P \<and> unat off + unat sz \<le> unat (psize P)))"
  using assms unfolding nsg_stored_offset_def Let_def
  by (auto simp: not_le room intro!: okE_read_u32)

lemma decode_full_sound:
  assumes "inside F P" "length (inline_data b) = EEPROM_BLOCK_INLINE_CAPACITY"
    and "inl \<or> (off < psize P \<and> unat off + unat sz \<le> unat (psize P))"
  shows "okE (decode_nsg_full F P off sz inl b) (\<lambda>(r, b). sound F r b)"
proof -
  note b = insideD [OF assms(1)]
  have "okE (if sz < eefull_metadata_size v then Inr (EEPROM_RESULT_INVALID, b)
      else let n = sz - eefull_metadata_size v; b = b\<lparr>bsize := n, version := ucast v\<rparr> in
        if inl then copy_nsg_inline_block F P off 1 n b
        else Inr (EEPROM_RESULT_OK, b\<lparr>bdata := In_Flash (base P + unat off + 1)\<rparr>)) (\<lambda>(r, b). sound F r b)" for v
  proof (cases "sz < eefull_metadata_size v")
    case False
    then have "unat (eefull_metadata_size v) \<le> unat sz" by (simp add: word_less_nat_alt)
    with False assms b eefull_metadata_pos [of v] show ?thesis
      by (auto simp: Let_def sound_def block_ok_def unat_minus intro!: copy_block_sound [unfolded sound_def block_ok_def])
  qed (use assms(2) in \<open>simp add: sound_def\<close>)
  then show ?thesis
    using b assms(2) unfolding decode_nsg_full_def Let_def
    by (auto simp: sound_def not_le word_less_nat_alt intro!: okE_flash_read)
qed

lemma decode_lite_sound:
  assumes "inside F P" "length (inline_data b) = EEPROM_BLOCK_INLINE_CAPACITY" "entry + 15 < unat (flash_size F)"
    and "inl \<or> (off < psize P \<and> unat off + unat sz \<le> unat (psize P))"
  shows "okE (decode_nsg_lite F P entry off sz inl b) (\<lambda>(r, b). sound F r b)"
  using assms insideD [OF assms(1)] unfolding decode_nsg_lite_def Let_def
  by (auto simp: sound_def block_ok_def intro!: okE_flash_read copy_block_sound [unfolded sound_def block_ok_def])

lemma decode_nsg_sound:
  assumes "inside F P" "entry + 15 < unat (flash_size F)" "length (inline_data b) = EEPROM_BLOCK_INLINE_CAPACITY"
  shows "okE (decode_nsg_block F P type eo entry b) (\<lambda>(r, b). sound F r b)"
proof -
  have inv: "sound F EEPROM_RESULT_INVALID b" using assms(3) by (simp add: sound_def)
  have place: "okE (case so of None \<Rightarrow> Inr (EEPROM_RESULT_INVALID, b)
      | Some off \<Rightarrow> if type = EEPROM_PARTITION_EEFULL then decode_nsg_full F P off sz inl b
          else decode_nsg_lite F P entry off sz inl b) (\<lambda>(r, b). sound F r b)"
    if "case so of None \<Rightarrow> True | Some off \<Rightarrow> inl \<or> (off < psize P \<and> unat off + unat sz \<le> unat (psize P))" for so sz inl
    using that inv assms by (auto intro!: decode_full_sound decode_lite_sound split: option.splits)
  have rest: "okE (bindE (nsg_stored_offset F P eo entry sz inl) (\<lambda>so. case so of None \<Rightarrow> Inr (EEPROM_RESULT_INVALID, b)
      | Some off \<Rightarrow> if type = EEPROM_PARTITION_EEFULL then decode_nsg_full F P off sz inl b
          else decode_nsg_lite F P entry off sz inl b)) (\<lambda>(r, b). sound F r b)" for sz inl
    by (rule okE_bindI [OF stored_offset_sound [OF assms(2)] place])
  show ?thesis
    using inv assms(2) unfolding decode_nsg_block_def Let_def if_distrib [of "\<lambda>m. bindE m _"] bindE_assoc bindE_simps
    by (intro okE_if okE_read_u32 okE_read_u16 rest) simp_all
qed

text \<open>Every entry of the table lies in the partition.\<close>

definition entry_count :: "eeprom_partition \<Rightarrow> nat" where
  "entry_count P = unat (psize P div entry_size P - 1)"

lemma entry_offset_bound:
  assumes "inside F P" "n \<in> set [1..<entry_count P + 1]"
  shows "base P + unat (entry_offset P n) + 15 < unat (flash_size F)"
proof -
  have "unat (entry_offset P n) + 15 < unat (psize P)"
  proof (cases "layout P")
    case EEPROM_LAYOUT_SG
    with assms have n: "1 \<le> n" "n \<le> 8191" "psize P = 0x20000"
      by (auto simp: inside_def entry_count_def entry_size_def)
    have "unat (16 * of_nat n :: u32) = 16 * n" using n by (simp add: unat_word_ariths unat_of_nat)
    then show ?thesis using n EEPROM_LAYOUT_SG
      by (simp add: entry_offset_def entry_size_def unat_sub_if_size)
  next
    case EEPROM_LAYOUT_NSG
    with assms have n: "1 \<le> n" "n \<le> 8191" "psize P = 0x40000"
      by (auto simp: inside_def entry_count_def entry_size_def)
    have "unat (32 * of_nat n :: u32) = 32 * n" using n by (simp add: unat_word_ariths unat_of_nat)
    then show ?thesis using n EEPROM_LAYOUT_NSG
      by (simp add: entry_offset_def entry_size_def unat_sub_if_size)
  qed
  with insideD [OF assms(1)] show ?thesis by simp
qed

text \<open>What the search in one table keeps: a block that has matched is in place.\<close>

definition searched :: "flash_map \<Rightarrow> bool \<Rightarrow> eeprom_block \<Rightarrow> bool" where
  "searched F matched b \<longleftrightarrow> length (inline_data b) = EEPROM_BLOCK_INLINE_CAPACITY \<and> (matched \<longrightarrow> block_ok F b)"

definition outcome :: "flash_map \<Rightarrow> eeprom_result \<Rightarrow> bool \<Rightarrow> eeprom_block \<Rightarrow> bool" where
  "outcome F r matched b \<longleftrightarrow> length (inline_data b) = EEPROM_BLOCK_INLINE_CAPACITY \<and>
     (r = EEPROM_RESULT_INVALID \<or> r = table_end matched \<and> (matched \<longrightarrow> block_ok F b))"

lemma find_entry_sound:
  assumes "inside F P" "set ns \<subseteq> set [1..<entry_count P + 1]" "searched F m b"
  shows "okE (find_entry_loop ns F P type bid m b) (\<lambda>(r, m, b). outcome F r m b)"
  using assms(2,3)
proof (induction ns arbitrary: m b)
  case Nil
  then show ?case by (simp add: outcome_def searched_def)
next
  case (Cons n ns)
  let ?e = "base P + unat (entry_offset P n)"
  have e: "?e + 15 < unat (flash_size F)" using entry_offset_bound [OF assms(1)] Cons.prems(1) by simp
  have len: "length (inline_data b) = EEPROM_BLOCK_INLINE_CAPACITY" using Cons.prems(2) by (simp add: searched_def)
  have stop: "outcome F EEPROM_RESULT_INVALID m b" "outcome F (table_end m) m b"
    using Cons.prems(2) by (simp_all add: outcome_def searched_def)
  have sub: "set ns \<subseteq> set [1..<entry_count P + 1]" using Cons.prems(1) by (rule subset_trans [OF set_subset_Cons])
  have go: "okE (find_entry_loop ns F P type bid m b) (\<lambda>(r, m, b). outcome F r m b)"
    by (rule Cons.IH [OF sub Cons.prems(2)])
  have more: "okE (if r \<noteq> EEPROM_RESULT_OK then Inr (r, True, b')
      else if layout P = EEPROM_LAYOUT_SG then Inr (EEPROM_RESULT_OK, True, b')
      else find_entry_loop ns F P type bid True b') (\<lambda>(r, m, b). outcome F r m b)" if "sound F r b'" for r b'
    using that Cons.IH [OF sub, of True b'] by (auto simp: outcome_def searched_def sound_def table_end_def)
  note sg = okE_bindI [OF decode_sg_sound [OF assms(1) e len], unfolded split_def, OF more [unfolded split_def]]
    and nsg = okE_bindI [OF decode_nsg_sound [OF assms(1) e len], unfolded split_def, OF more [unfolded split_def]]
  show ?case
    unfolding find_entry_loop.simps Let_def if_distrib [of "\<lambda>m. bindE m _"] bindE_assoc bindE_simps split_def
    using e by (intro okE_if okE_read_u32 okE_read_u16 go [unfolded split_def] sg nsg)
      (simp_all add: stop [unfolded split_def])
qed

lemma find_partition_sound:
  assumes "inside F P" "length (inline_data b) = EEPROM_BLOCK_INLINE_CAPACITY"
  shows "okE (find_partition_block F P type bid b) (\<lambda>(r, m, b). outcome F r m b)"
  unfolding find_partition_block_def Let_def entry_count_def [symmetric]
  by (rule find_entry_sound [OF assms(1) subset_refl]) (simp add: searched_def assms(2))

lemma header_sound:
  assumes "h + sz \<le> unat (flash_size F)" "length name = 8" "16 \<le> sz"
  shows "okE (partition_header_matches F h sz name) (\<lambda>_. True)"
  unfolding partition_header_matches_def
  by (rule okE_bindI [OF okE_bytes_match], use assms in simp)
     (intro okE_if okE_read_u16 okE_read_u32 okE_bytes_match, use assms in auto)

lemma locate_sound:
  assumes off: "unat off + 0x10000 \<le> unat (flash_size F)" and "length name = 8"
  shows "okE (locate_partition F name off) (\<lambda>p. \<forall>P. p = Some P \<longrightarrow> inside F P)"
proof -
  have fits: "unat off + 0x20000 \<le> unat (flash_size F)"
    if "EEPROM_SG_PARTITION_SIZE \<le> flash_size F" "off \<le> flash_size F - EEPROM_SG_PARTITION_SIZE"
    using that by (simp add: word_le_nat_alt unat_sub)
  have nsg: "196608 \<le> unat off" if "EEPROM_PARTITION_BLOCK_SIZE * 3 \<le> off"
    using that by (simp add: word_le_nat_alt)
  have sg_ok: "okE (if EEPROM_SG_PARTITION_SIZE \<le> flash_size F \<and> off \<le> flash_size F - EEPROM_SG_PARTITION_SIZE
      then partition_header_matches F (unat off) EEPROM_SG_HEADER_SIZE name else Inr False)
      (\<lambda>b. b \<longrightarrow> unat off + 0x20000 \<le> unat (flash_size F))"
    using fits assms(2) by (auto intro!: okE_mono [OF header_sound])
  have nsg_ok: "okE (if EEPROM_PARTITION_BLOCK_SIZE * 3 \<le> off
      then partition_header_matches F (unat off + unat EEPROM_PARTITION_BLOCK_SIZE - EEPROM_NSG_HEADER_SIZE) EEPROM_NSG_HEADER_SIZE name
      else Inr False) (\<lambda>b. b \<longrightarrow> 196608 \<le> unat off)"
    using nsg off assms(2) by (auto intro!: okE_mono [OF header_sound])
  show ?thesis
    unfolding locate_partition_def Let_def
    by (rule okE_bindI [OF sg_ok], intro okE_if okE_bindI [OF nsg_ok]) (use off in \<open>auto simp: inside_def\<close>)
qed

lemma find_flash_sound:
  assumes "\<forall>i\<in>set is. (i + 1) * 0x10000 \<le> unat (flash_size F)"
    and "length (inline_data b) = EEPROM_BLOCK_INLINE_CAPACITY" "type \<noteq> EEPROM_PARTITION_COUNT" "\<not> m"
  shows "okE (find_flash_loop is F type bid pf m b) (\<lambda>(r, pf, m, b).
    length (inline_data b) = EEPROM_BLOCK_INLINE_CAPACITY \<and> (r = EEPROM_RESULT_INVALID \<or> r = table_end m \<and> (m \<longrightarrow> pf \<and> block_ok F b)))"
  using assms(1,2,4)
proof (induction "is" arbitrary: pf m b)
  case (Cons i "is")
  have u: "unat (of_nat i * EEPROM_PARTITION_BLOCK_SIZE) = i * 0x10000"
  proof -
    have "i * 0x10000 < 2 ^ 32" using Cons.prems(1) unsigned_less [of "flash_size F", where 'a = nat] by auto
    then show ?thesis by (simp add: unat_word_ariths unat_of_nat)
  qed
  have name: "length (EEPROM_PARTITION_NAMES type) = 8"
    using assms(3) by (cases type) (simp_all add: EEPROM_PARTITION_NAMES_def)
  have loc: "okE (locate_partition F (EEPROM_PARTITION_NAMES type) (of_nat i * EEPROM_PARTITION_BLOCK_SIZE))
      (\<lambda>p. \<forall>P. p = Some P \<longrightarrow> inside F P)"
    using Cons.prems(1) by (intro locate_sound name) (simp add: u)
  show ?case
    unfolding find_flash_loop.simps
  proof (rule okE_bindI [OF loc])
    fix p assume p: "\<forall>P. p = Some P \<longrightarrow> inside F P"
    show "okE (case p of None \<Rightarrow> find_flash_loop is F type bid pf m b
       | Some P \<Rightarrow> bindE (find_partition_block F P type bid b) (\<lambda>(result, m, b).
         if result = EEPROM_RESULT_INVALID then Inr (result, True, m, b)
         else if m then Inr (EEPROM_RESULT_OK, True, m, b)
         else find_flash_loop is F type bid True m b)) (\<lambda>(r, pf, m, b).
      length (inline_data b) = EEPROM_BLOCK_INLINE_CAPACITY \<and> (r = EEPROM_RESULT_INVALID \<or> r = table_end m \<and> (m \<longrightarrow> pf \<and> block_ok F b)))"
    proof (cases p)
      case None
      then show ?thesis using Cons.IH [of b m pf] Cons.prems by simp
    next
      case (Some P)
      show ?thesis
        unfolding Some option.case
        by (rule okE_bindI [OF find_partition_sound [OF p [rule_format, OF Some] Cons.prems(2)]])
           (use Cons.IH [where m = False and pf = True] Cons.prems in \<open>auto simp: outcome_def table_end_def\<close>)
    qed
  qed
qed (simp add: table_end_def)

text \<open>
  C23. The search for a block is safe on every flash image, however damaged: with any contents and
  any size of the flash, any partition type and any block number, no byte outside the flash is read
  and no byte outside the 512-byte buffer of the block is written. When the result is
  \<^verbatim>\<open>EEPROM_RESULT_OK\<close> the data that the block names, of the size it names, lie in the flash or in that
  buffer.
\<close>

theorem eeprom_find_block_safe:
  assumes "length (inline_data b) = EEPROM_BLOCK_INLINE_CAPACITY"
  shows "\<exists>r b'. eeprom_find_block_in_memory F type bid b = Inr (r, b') \<and>
    length (inline_data b') = EEPROM_BLOCK_INLINE_CAPACITY \<and> (r = EEPROM_RESULT_OK \<longrightarrow> block_ok F b') \<and>
    r \<noteq> EEPROM_RESULT_FLASH_NOT_MAPPED"
proof (cases "type = EEPROM_PARTITION_COUNT")
  case True
  then show ?thesis using assms by (simp add: eeprom_find_block_in_memory_def)
next
  case False
  have "(i + 1) * 0x10000 \<le> unat (flash_size F)" if "i < unat (flash_size F div EEPROM_PARTITION_BLOCK_SIZE)" for i
    using that by (simp add: unat_div)
  then have "okE (find_flash_block F type bid b) (\<lambda>(r, pf, m, b).
      length (inline_data b) = EEPROM_BLOCK_INLINE_CAPACITY \<and> (r = EEPROM_RESULT_INVALID \<or> r = table_end m \<and> (m \<longrightarrow> pf \<and> block_ok F b)))"
    unfolding find_flash_block_def Let_def using assms False by (intro find_flash_sound) auto
  then obtain r pf m b' where f: "find_flash_block F type bid b = Inr (r, pf, m, b')"
    and o: "length (inline_data b') = EEPROM_BLOCK_INLINE_CAPACITY"
      "r = EEPROM_RESULT_INVALID \<or> r = table_end m \<and> (m \<longrightarrow> pf \<and> block_ok F b')" by (auto dest!: okED)
  show ?thesis
    using False o unfolding eeprom_find_block_in_memory_def f bindE_simps(2) by (auto simp: table_end_def)
qed

theorem eeprom_find_block_safe_witness:
  "\<exists>r b'. eeprom_find_block_in_memory blank_flash EEPROM_PARTITION_EELITE 76 blank_block = Inr (r, b') \<and>
    length (inline_data b') = EEPROM_BLOCK_INLINE_CAPACITY \<and> (r = EEPROM_RESULT_OK \<longrightarrow> block_ok blank_flash b') \<and>
    r \<noteq> EEPROM_RESULT_FLASH_NOT_MAPPED"
  by (rule eeprom_find_block_safe) (simp add: blank_block_def)

section \<open>Which entry is chosen\<close>

text \<open>The fields of an entry as plain functions of the flash.\<close>

definition u16_at :: "flash_map \<Rightarrow> nat \<Rightarrow> u16" where
  "u16_at F p = (let b = (\<lambda>i. flash_byte F (of_nat (p + i))) in ucast (b 0) OR push_bit 8 (ucast (b 1)))"

definition u32_at :: "flash_map \<Rightarrow> nat \<Rightarrow> u32" where
  "u32_at F p = (let b = (\<lambda>i. flash_byte F (of_nat (p + i))) in
     ucast (b 0) OR push_bit 8 (ucast (b 1)) OR push_bit 16 (ucast (b 2)) OR push_bit 24 (ucast (b 3)))"

lemma read_u16_at: "p + 1 < unat (flash_size F) \<Longrightarrow> read_u16 F p = Inr (u16_at F p)"
  by (simp add: read_u16_def flash_read_def u16_at_def Let_def add.commute)

lemma read_u32_at: "p + 3 < unat (flash_size F) \<Longrightarrow> read_u32 F p = Inr (u32_at F p)"
  by (simp add: read_u32_def flash_read_def u32_at_def Let_def add.commute)

lemma if_swap: "(if \<not> c then x else y) = (if c then y else x)"
  by simp

definition entry_at :: "eeprom_partition \<Rightarrow> nat \<Rightarrow> nat" where
  "entry_at P n = base P + unat (entry_offset P n)"

definition entry_state :: "flash_map \<Rightarrow> eeprom_partition \<Rightarrow> nat \<Rightarrow> u32" where
  "entry_state F P n = u32_at F (entry_at P n) AND EEPROM_ENTRY_STATE_MASK"

definition entry_id :: "flash_map \<Rightarrow> eeprom_partition \<Rightarrow> eeprom_partition_type \<Rightarrow> nat \<Rightarrow> u32" where
  "entry_id F P type n = (if layout P = EEPROM_LAYOUT_NSG \<and> type = EEPROM_PARTITION_EELITE
     then ucast (u16_at F (entry_at P n + 4)) else u32_at F (entry_at P n + 4))"

definition id_in_range :: "eeprom_partition_type \<Rightarrow> u32 \<Rightarrow> bool" where
  "id_in_range type i \<longleftrightarrow> (if type = EEPROM_PARTITION_EELITE then i < 5000 else unat i + 5000 < 2 ^ 32)"

text \<open>An entry that carries the block, and one that a partition of the old layout must not have.\<close>

definition carries :: "flash_map \<Rightarrow> eeprom_partition \<Rightarrow> eeprom_partition_type \<Rightarrow> u32 \<Rightarrow> nat \<Rightarrow> bool" where
  "carries F P type block_id n \<longleftrightarrow> entry_state F P n = EEPROM_ENTRY_VALID \<and> id_in_range type (entry_id F P type n) \<and>
     block_id = (if type = EEPROM_PARTITION_EEFULL then entry_id F P type n + 5000 else entry_id F P type n)"

definition malformed :: "flash_map \<Rightarrow> eeprom_partition \<Rightarrow> eeprom_partition_type \<Rightarrow> nat \<Rightarrow> bool" where
  "malformed F P type n \<longleftrightarrow> \<not> is_entry_state_valid (entry_state F P n) \<or>
     entry_state F P n = EEPROM_ENTRY_VALID \<and> \<not> id_in_range type (entry_id F P type n)"

text \<open>Decoding the entries of a list one after the other, each over the result of the last.\<close>

primrec decode_entries ::
  "nat list \<Rightarrow> flash_map \<Rightarrow> eeprom_partition \<Rightarrow> eeprom_partition_type \<Rightarrow> bool \<Rightarrow> eeprom_block \<Rightarrow>
     fault + eeprom_result \<times> bool \<times> eeprom_block" where
  "decode_entries [] F P type matched b = Inr (table_end matched, matched, b)"
| "decode_entries (n # ns) F P type matched b =
     bindE (decode_nsg_block F P type (entry_offset P n) (entry_at P n) b) (\<lambda>(r, b).
     if r = EEPROM_RESULT_OK then decode_entries ns F P type True b else Inr (r, True, b))"

lemma id_in_range:
  "id_in_range type i \<longleftrightarrow>
     \<not> i > (if type = EEPROM_PARTITION_EELITE then EEPROM_EEFULL_BLOCK_ID_BASE - 1 else - 1 - EEPROM_EEFULL_BLOCK_ID_BASE)"
  by (simp add: id_in_range_def not_less word_le_nat_alt word_less_nat_alt) linarith

lemma find_entry_step:
  assumes "inside F P" "n \<in> set [1..<entry_count P + 1]"
  shows "find_entry_loop (n # ns) F P type bid m b =
    (if malformed F P type n then
       (if layout P = EEPROM_LAYOUT_SG then Inr (EEPROM_RESULT_INVALID, m, b) else find_entry_loop ns F P type bid m b)
     else if layout P = EEPROM_LAYOUT_SG \<and> entry_state F P n = EEPROM_ENTRY_FREE then Inr (table_end m, m, b)
     else if \<not> carries F P type bid n then find_entry_loop ns F P type bid m b
     else bindE (if layout P = EEPROM_LAYOUT_NSG then decode_nsg_block F P type (entry_offset P n) (entry_at P n) b
                 else decode_sg_block F P type (entry_at P n) b) (\<lambda>(r, b).
          if r \<noteq> EEPROM_RESULT_OK then Inr (r, True, b)
          else if layout P = EEPROM_LAYOUT_SG then Inr (EEPROM_RESULT_OK, True, b)
          else find_entry_loop ns F P type bid True b))"
proof -
  have e: "entry_at P n + 15 < unat (flash_size F)" using entry_offset_bound [OF assms] by (simp add: entry_at_def)
  have r: "read_u32 F (entry_at P n) = Inr (u32_at F (entry_at P n))"
    "read_u32 F (entry_at P n + 4) = Inr (u32_at F (entry_at P n + 4))"
    "read_u16 F (entry_at P n + 4) = Inr (u16_at F (entry_at P n + 4))"
    using e by (auto intro: read_u32_at read_u16_at)
  have i: "(if layout P = EEPROM_LAYOUT_NSG \<and> type = EEPROM_PARTITION_EELITE
      then Inr (ucast (u16_at F (entry_at P n + 4))) else Inr (u32_at F (entry_at P n + 4))) = Inr (entry_id F P type n)"
    by (simp add: entry_id_def)
  show ?thesis
    unfolding find_entry_loop.simps Let_def entry_at_def [symmetric] r bindE_simps i entry_state_def [symmetric]
    by (auto simp: malformed_def carries_def id_in_range is_entry_state_valid_def)
qed

lemma find_entry_nsg:
  assumes "inside F P" "layout P = EEPROM_LAYOUT_NSG" "set ns \<subseteq> set [1..<entry_count P + 1]"
  shows "find_entry_loop ns F P type bid m b = decode_entries (filter (carries F P type bid) ns) F P type m b"
  using assms(3)
proof (induction ns arbitrary: m b)
  case (Cons n ns)
  have n: "n \<in> set [1..<entry_count P + 1]" by (rule subsetD [OF Cons.prems list.set_intros(1)])
  have sub: "set ns \<subseteq> set [1..<entry_count P + 1]" by (rule subset_trans [OF set_subset_Cons Cons.prems])
  have "malformed F P type n \<Longrightarrow> \<not> carries F P type bid n"
    by (auto simp: malformed_def carries_def is_entry_state_valid_def)
  then show ?case
    unfolding find_entry_step [OF assms(1) n] Cons.IH [OF sub]
    by (cases "malformed F P type n"; cases "carries F P type bid n") (simp_all add: assms(2) split_def if_swap cong: if_cong)
qed simp

lemma find_entry_sg:
  assumes "inside F P" "layout P = EEPROM_LAYOUT_SG" "set ns \<subseteq> set [1..<entry_count P + 1]"
  shows "find_entry_loop ns F P type bid False b =
    (case find (\<lambda>n. malformed F P type n \<or> carries F P type bid n) (takeWhile (\<lambda>n. entry_state F P n \<noteq> EEPROM_ENTRY_FREE) ns) of
       None \<Rightarrow> Inr (EEPROM_RESULT_BLOCK_NOT_FOUND, False, b)
     | Some n \<Rightarrow> if malformed F P type n then Inr (EEPROM_RESULT_INVALID, False, b)
         else bindE (decode_sg_block F P type (entry_at P n) b) (\<lambda>(r, b). Inr (r, True, b)))"
  using assms(3)
proof (induction ns)
  case (Cons n ns)
  have n: "n \<in> set [1..<entry_count P + 1]" by (rule subsetD [OF Cons.prems list.set_intros(1)])
  have sub: "set ns \<subseteq> set [1..<entry_count P + 1]" by (rule subset_trans [OF set_subset_Cons Cons.prems])
  have "malformed F P type n \<Longrightarrow> entry_state F P n \<noteq> EEPROM_ENTRY_FREE"
    by (auto simp: malformed_def is_entry_state_valid_def)
  then show ?case
    unfolding find_entry_step [OF assms(1) n] Cons.IH [OF sub]
    by (cases "malformed F P type n"; cases "entry_state F P n = EEPROM_ENTRY_FREE"; cases "carries F P type bid n")
       (auto simp: assms(2) split_def table_end_def intro!: bindE_cong)
qed (simp add: table_end_def)

text \<open>
  C24. The search in the table of a partition finds what the format means. In the new layout the
  valid entries that carry the block are decoded in order, so that the last one wins, and anything
  else in the table, damaged entries included, is ignored. In the old layout only the entries before
  the first free one count; the first that carries the block is decoded, and a malformed entry in
  front of it makes the partition invalid.
\<close>

theorem find_partition_block_reference:
  assumes "inside F P"
  shows "find_partition_block F P type bid b =
    (case layout P of
       EEPROM_LAYOUT_NSG \<Rightarrow> decode_entries (filter (carries F P type bid) [1..<entry_count P + 1]) F P type False b
     | EEPROM_LAYOUT_SG \<Rightarrow>
         (case find (\<lambda>n. malformed F P type n \<or> carries F P type bid n)
                 (takeWhile (\<lambda>n. entry_state F P n \<noteq> EEPROM_ENTRY_FREE) [1..<entry_count P + 1]) of
            None \<Rightarrow> Inr (EEPROM_RESULT_BLOCK_NOT_FOUND, False, b)
          | Some n \<Rightarrow> if malformed F P type n then Inr (EEPROM_RESULT_INVALID, False, b)
              else bindE (decode_sg_block F P type (entry_at P n) b) (\<lambda>(r, b). Inr (r, True, b))))"
  unfolding find_partition_block_def Let_def entry_count_def [symmetric]
  by (cases "layout P") (simp_all only: eeprom_layout.case find_entry_nsg [OF assms] find_entry_sg [OF assms] subset_refl)

lemma inside_blank: "inside blank_flash blank_partition"
  by (simp add: inside_def blank_flash_def blank_partition_def)

theorem find_partition_block_reference_witness:
  "find_partition_block blank_flash blank_partition EEPROM_PARTITION_EELITE 76 blank_block =
   decode_entries (filter (carries blank_flash blank_partition EEPROM_PARTITION_EELITE 76) [1..<entry_count blank_partition + 1])
     blank_flash blank_partition EEPROM_PARTITION_EELITE False blank_block"
proof -
  have l: "layout blank_partition = EEPROM_LAYOUT_NSG" by (simp add: blank_partition_def)
  show ?thesis
    unfolding find_partition_block_reference [OF inside_blank, of EEPROM_PARTITION_EELITE 76 blank_block] l eeprom_layout.case
    by (rule refl)
qed

end
