(* ===== verification/Eeprom_Writer.thy ===== *)
theory Eeprom_Writer
  imports Eeprom
begin

text \<open>
  The writer of parameter partitions in the parser's own test (\<^verbatim>\<open>src/unit/eeprom/test.c\<close>), and that
  the reader gets back what it wrote.
\<close>

section \<open>Definitions\<close>

abbreviation (input) X65_PARTITION_SIZE :: nat where "X65_PARTITION_SIZE \<equiv> 0x20000"
abbreviation (input) X85_PARTITION_SIZE :: nat where "X85_PARTITION_SIZE \<equiv> 0x40000"
abbreviation (input) X65_ENTRY_SIZE :: u32 where "X65_ENTRY_SIZE \<equiv> 16"
abbreviation (input) X85_ENTRY_SIZE :: u32 where "X85_ENTRY_SIZE \<equiv> 32"
abbreviation (input) X85_HEADER_SIZE :: u32 where "X85_HEADER_SIZE \<equiv> 32"
abbreviation (input) X85_DATA_CHUNK_SIZE :: u32 where "X85_DATA_CHUNK_SIZE \<equiv> 16"
abbreviation (input) ENTRY_FREE :: u32 where "ENTRY_FREE \<equiv> 0xFFFFFFFF"
abbreviation (input) ENTRY_VALID :: u32 where "ENTRY_VALID \<equiv> 0xFFFFFFC0"
abbreviation (input) ENTRY_OBSOLETE :: u32 where "ENTRY_OBSOLETE \<equiv> 0xFFFFFF00"

text \<open>The array \<^verbatim>\<open>flash\<close>: a write at an index outside it is a fault.\<close>

definition put :: "mem \<Rightarrow> nat \<Rightarrow> u8 \<Rightarrow> fault + mem" where
  "put flash i v = st flash 0 X85_PARTITION_SIZE i v"

primrec put_bytes :: "mem \<Rightarrow> nat \<Rightarrow> u8 list \<Rightarrow> fault + mem" where
  "put_bytes flash i [] = Inr flash"
| "put_bytes flash i (v # vs) = bindE (put flash i v) (\<lambda>flash. put_bytes flash (i + 1) vs)"

definition write_u16 :: "mem \<Rightarrow> nat \<Rightarrow> u16 \<Rightarrow> fault + mem" where
  "write_u16 flash p value = put_bytes flash p [ucast value, ucast (drop_bit 8 value)]"

definition write_u32 :: "mem \<Rightarrow> nat \<Rightarrow> u32 \<Rightarrow> fault + mem" where
  "write_u32 flash p value =
     put_bytes flash p [ucast value, ucast (drop_bit 8 value), ucast (drop_bit 16 value), ucast (drop_bit 24 value)]"

definition write_partition_header :: "mem \<Rightarrow> u32 \<Rightarrow> u8 list \<Rightarrow> u32 \<Rightarrow> fault + mem" where
  "write_partition_header flash offset name sz =
     bindE (put_bytes flash (unat offset) (take 6 name)) (\<lambda>flash.
     bindE (put flash (unat (offset + 6)) 0) (\<lambda>flash.
     bindE (put flash (unat (offset + 7)) 0) (\<lambda>flash.
     bindE (put flash (unat (offset + 10)) 0) (\<lambda>flash.
     bindE (put flash (unat (offset + 11)) 0) (\<lambda>flash.
     bindE (put flash (unat (offset + 12)) 0xF0) (\<lambda>flash.
     put_bytes flash (unat offset + 13) (replicate (unat (sz - 13)) 0xFF)))))))"

definition align_x85_data_offset :: "u32 \<Rightarrow> u32" where
  "align_x85_data_offset offset =
     (if offset AND X85_DATA_CHUNK_SIZE = 0 then offset
      else offset + X85_DATA_CHUNK_SIZE * 2 - (offset AND (X85_DATA_CHUNK_SIZE * 2 - 1)))"

definition x85_data_byte_offset :: "u32 \<Rightarrow> u32 \<Rightarrow> u32" where
  "x85_data_byte_offset offset index =
     (let chunk_offset = offset AND (X85_DATA_CHUNK_SIZE - 1)
      in offset + index + ((chunk_offset + index) div X85_DATA_CHUNK_SIZE) * X85_DATA_CHUNK_SIZE)"

text \<open>The loop that spreads the data, from index \<open>i\<close>.\<close>

primrec write_x85_data :: "mem \<Rightarrow> u32 \<Rightarrow> nat \<Rightarrow> u8 list \<Rightarrow> fault + mem" where
  "write_x85_data flash stored_offset i [] = Inr flash"
| "write_x85_data flash stored_offset i (v # vs) =
     bindE (put flash (unat (x85_data_byte_offset stored_offset (of_nat i))) v) (\<lambda>flash.
     write_x85_data flash stored_offset (i + 1) vs)"

definition write_x85_fields :: "mem \<Rightarrow> u32 \<Rightarrow> u32 \<Rightarrow> u32 \<Rightarrow> u8 \<Rightarrow> u32 \<Rightarrow> bool \<Rightarrow> fault + mem" where
  "write_x85_fields flash entry_pos state block_id vers sz full =
     bindE (write_u32 flash (unat entry_pos) state) (\<lambda>flash.
     if full then
       bindE (write_u32 flash (unat entry_pos + 4) (block_id - 5000)) (\<lambda>flash.
       write_u32 flash (unat entry_pos + 8) sz)
     else
       bindE (write_u16 flash (unat entry_pos + 4) (ucast block_id)) (\<lambda>flash.
       bindE (put flash (unat (entry_pos + 7)) vers) (\<lambda>flash.
       write_u16 flash (unat entry_pos + 8) (ucast sz))))"

definition write_x85_inline_entry ::
  "mem \<Rightarrow> u32 \<Rightarrow> u32 \<Rightarrow> u32 \<Rightarrow> u8 \<Rightarrow> u8 list \<Rightarrow> bool \<Rightarrow> fault + u32 \<times> mem" where
  "write_x85_inline_entry flash entry_pos state block_id vers data full =
     (let sz = of_nat (length data) in
      bindE (write_x85_fields flash entry_pos state block_id vers sz full) (\<lambda>flash.
      let reserved_size = X85_DATA_CHUNK_SIZE + sz + (sz AND NOT (X85_DATA_CHUNK_SIZE - 1));
          stored_offset = align_x85_data_offset (entry_pos - reserved_size) in
      bindE (write_x85_data flash stored_offset 0 data) (\<lambda>flash.
      Inr ((stored_offset AND NOT (X85_DATA_CHUNK_SIZE * 2 - 1)) - X85_ENTRY_SIZE, flash))))"

definition reset_flash :: mem where
  "reset_flash = (\<lambda>_. 0xFF)"

definition write_x65_entry :: "mem \<Rightarrow> u32 \<Rightarrow> u32 \<Rightarrow> u32 \<Rightarrow> u32 \<Rightarrow> u8 list \<Rightarrow> fault + mem" where
  "write_x65_entry flash entry_pos state block_id data_offset data =
     bindE (write_u32 flash (unat entry_pos) state) (\<lambda>flash.
     if state = ENTRY_FREE then Inr flash
     else
       bindE (write_u32 flash (unat entry_pos + 4) block_id) (\<lambda>flash.
       bindE (write_u32 flash (unat entry_pos + 8) (of_nat (length data))) (\<lambda>flash.
       bindE (write_u32 flash (unat entry_pos + 12) data_offset) (\<lambda>flash.
       put_bytes flash (unat data_offset) data))))"

section \<open>Where the bytes of a block go\<close>

lemma unat_and_mask: "unat (x AND mask n :: u32) = unat x mod 2 ^ n"
  unfolding take_bit_eq_mask [symmetric] unsigned_take_bit_eq by (rule take_bit_eq_mod)

lemma unat_and_15: "unat (x AND 15 :: u32) = unat x mod 16"
  using unat_and_mask [of x 4] by (simp add: mask_eq_exp_minus_1)

lemma unat_and_31: "unat (x AND 31 :: u32) = unat x mod 32"
  using unat_and_mask [of x 5] by (simp add: mask_eq_exp_minus_1)

lemma and_split: "(x AND NOT m) + (x AND m) = (x :: u32)"
proof -
  have "(x AND NOT m) AND (x AND m) = 0" "(x AND NOT m) OR (x AND m) = x" by (auto simp: bit_eq_iff bit_simps)
  then show ?thesis using word_plus_and_or [of "x AND NOT m" "x AND m"] by simp
qed

lemma unat_and_not: "unat (x AND NOT m :: u32) = unat x - unat (x AND m)"
  using and_split [of x m] word_and_le2 [of x m] by (metis add_diff_cancel_right' unat_sub)

lemma unat_and_not_15: "unat (x AND NOT 15 :: u32) = 16 * (unat x div 16)"
  unfolding unat_and_not unat_and_15 by (rule minus_mod_eq_mult_div)

lemma unat_and_not_31: "unat (x AND NOT 31 :: u32) = 32 * (unat x div 32)"
  unfolding unat_and_not unat_and_31 by (rule minus_mod_eq_mult_div)

lemma and_16: "x AND 16 = (0 :: u32) \<longleftrightarrow> even (unat x div 16)"
proof -
  have "x AND 16 = 0 \<longleftrightarrow> \<not> bit x 4"
    using and_exp_eq_0_iff_not_bit [of x 4] by simp
  also have "\<not> bit x 4 \<longleftrightarrow> even (unat x div 16)"
    using bit_iff_odd [of "unat x" 4] by (simp add: bit_unsigned_iff)
  finally show ?thesis .
qed

text \<open>The data of an entry at \<open>e\<close>, \<open>n\<close> bytes of them, start at \<open>start e n\<close>; byte \<open>i\<close> is at \<open>place s i\<close>.\<close>

definition start :: "nat \<Rightarrow> nat \<Rightarrow> nat" where
  "start e n = (let s = e - (16 + n + 16 * (n div 16)) in if even (s div 16) then s else s + 32 - s mod 32)"

definition place :: "nat \<Rightarrow> nat \<Rightarrow> nat" where
  "place s i = s + i + 16 * ((s mod 16 + i) div 16)"

lemma place_mono: "i < j \<Longrightarrow> place s i < place s j"
  using div_le_mono [of "s mod 16 + i" "s mod 16 + j" 16] by (simp add: place_def)

lemma place_inj: "place s i = place s j \<longleftrightarrow> i = j"
  using place_mono [of i j s] place_mono [of j i s] by (metis linorder_neqE_nat less_irrefl)

lemma odd_chunk: "odd (s div 16) \<Longrightarrow> 16 \<le> s mod 32" for s :: nat
  using mod_mult2_eq [of s 16 2] by (simp add: odd_iff_mod_2_eq_one)

lemma place_below:
  assumes "16 + n + 16 * (n div 16) \<le> e" "i < n"
  shows "place (start e n) i < e"
proof -
  define s where "s = e - (16 + n + 16 * (n div 16))"
  have e: "e = s + 16 + n + 16 * (n div 16)" using assms(1) by (simp add: s_def)
  show ?thesis
  proof (cases "even (s div 16)")
    case True
    have "s mod 16 + i \<le> n + 16" using assms(2) mod_less_divisor [of 16 s] by linarith
    then have "(s mod 16 + i) div 16 \<le> n div 16 + 1" using div_le_mono [of "s mod 16 + i" "n + 16" 16] by simp
    then show ?thesis using True assms(2) unfolding start_def place_def Let_def s_def [symmetric] e by simp
  next
    case False
    define t where "t = s + 32 - s mod 32"
    have "t \<le> s + 16" using odd_chunk [OF False] by (simp add: t_def)
    moreover have "t = 32 * (s div 32 + 1)" 
    proof -
      have "t = 32 + (s - s mod 32)" unfolding t_def by (simp add: mod_less_eq_dividend)
      then show ?thesis by (simp add: minus_mod_eq_mult_div)
    qed
    then have "t mod 16 = 0" by presburger
    moreover have "i div 16 \<le> n div 16" using assms(2) by (intro div_le_mono) simp
    moreover have "start e n = t" using False unfolding start_def Let_def s_def [symmetric] t_def by simp
    ultimately show ?thesis using assms(2) unfolding place_def e by simp
  qed
qed

lemma start_le_place: "start e n \<le> place (start e n) i"
  by (simp add: place_def)

text \<open>The offset arithmetic of the two programs computes these places.\<close>

lemma x85_is_nsg:
  "align_x85_data_offset = align_nsg_data_offset" "x85_data_byte_offset = nsg_data_byte_offset"
  by (simp_all add: fun_eq_iff align_x85_data_offset_def align_nsg_data_offset_def x85_data_byte_offset_def nsg_data_byte_offset_def)

lemma unat_reserved:
  assumes "n \<le> 0x200"
  shows "unat (16 + of_nat n + (of_nat n AND NOT 15) :: u32) = 16 + n + 16 * (n div 16)"
proof -
  have "unat (of_nat n :: u32) = n" using assms by (simp add: unat_of_nat)
  moreover have "16 * (n div 16) \<le> n" by simp
  ultimately show ?thesis
    using assms unat_and_not_15 [of "of_nat n"] by (simp add: unat_word_ariths)
qed

lemma unat_start:
  assumes "n \<le> 0x200" "16 + n + 16 * (n div 16) \<le> unat e" "unat e < 0x40000"
  shows "unat (align_nsg_data_offset (e - (16 + of_nat n + (of_nat n AND NOT 15)))) = start (unat e) n"
proof -
  define s where "s = e - (16 + of_nat n + (of_nat n AND NOT 15))"
  have u: "unat s = unat e - (16 + n + 16 * (n div 16))"
    using assms(2) unat_reserved [OF assms(1)] unfolding s_def by (subst unat_sub) (simp_all add: word_le_nat_alt)
  have "unat (s + 32 - (s AND 31)) = unat s + 32 - unat s mod 32"
  proof -
    have "unat (s + 32) = unat s + 32" using u assms(3) by (simp add: unat_word_ariths)
    moreover have "unat (s AND 31) \<le> unat s + 32" by (simp add: unat_and_31 trans_le_add1)
    ultimately show ?thesis by (subst unat_sub) (simp_all add: word_le_nat_alt unat_and_31)
  qed
  then show ?thesis
    unfolding s_def [symmetric] align_nsg_data_offset_def start_def Let_def u [symmetric] by (simp add: and_16)
qed

lemma unat_place:
  assumes "unat so < 0x40000" "i < 0x1000"
  shows "unat (nsg_data_byte_offset so (of_nat i)) = place (unat so) i"
proof -
  define c where "c = unat so mod 16"
  have "unat so mod 16 < 16" by simp
  then have c: "c < 16" "unat (so AND 15) = c" by (simp_all add: c_def unat_and_15)
  have i: "unat (of_nat i :: u32) = i" using assms(2) by (simp add: unat_of_nat)
  have q: "(c + i) div 16 \<le> c + i" by simp
  have d: "unat ((so AND 15) + of_nat i :: u32) = c + i" using c i assms(2) by (simp add: unat_word_ariths)
  have "unat (((so AND 15) + of_nat i) div 16 * 16 :: u32) = 16 * ((c + i) div 16)"
    using q c assms(2) by (simp add: unat_word_ariths unat_div i)
  then show ?thesis
    using q c(1) i assms unfolding nsg_data_byte_offset_def Let_def place_def c_def [symmetric]
    by (simp add: unat_word_ariths)
qed

section \<open>What the writer leaves in the flash\<close>

lemma put_ok: "i < X85_PARTITION_SIZE \<Longrightarrow> put m i v = Inr (m(of_nat i := v))"
  by (simp add: put_def)

lemma put_bytes_ok:
  assumes "i + length vs \<le> X85_PARTITION_SIZE"
  shows "\<exists>m'. put_bytes m i vs = Inr m' \<and> (\<forall>j<length vs. m' (of_nat (i + j)) = vs ! j) \<and>
    (\<forall>k<2 ^ 32. k < i \<or> i + length vs \<le> k \<longrightarrow> m' (of_nat k) = m (of_nat k))"
  using assms
proof (induction vs arbitrary: m i)
  case (Cons v vs)
  let ?m = "m(of_nat i := v)"
  obtain m' where m': "put_bytes ?m (i + 1) vs = Inr m'" "\<forall>j<length vs. m' (of_nat (i + 1 + j)) = vs ! j"
    "\<forall>k<2 ^ 32. k < i + 1 \<or> i + 1 + length vs \<le> k \<longrightarrow> m' (of_nat k) = ?m (of_nat k)"
  proof -
    have "i + 1 + length vs \<le> X85_PARTITION_SIZE" using Cons.prems by simp
    from Cons.IH [OF this, of ?m] show thesis using that by blast
  qed
  have "m' (of_nat (i + j)) = (v # vs) ! j" if "j < length (v # vs)" for j
    using that m'(2) m'(3) [rule_format, of i] Cons.prems by (cases j) (auto simp: add.commute)
  moreover have "m' (of_nat k) = m (of_nat k)" if "k < 2 ^ 32" "k < i \<or> i + length (v # vs) \<le> k" for k
  proof -
    have "(of_nat k :: u32) \<noteq> of_nat i" using that Cons.prems of_nat_u32_inj [of k i] by auto
    then show ?thesis using m'(3) [rule_format, of k] that by auto
  qed
  ultimately show ?case using m'(1) put_ok [of i m v] Cons.prems by (simp del: of_nat_add)
qed simp

text \<open>Little-endian words in the image.\<close>

lemma u16_of_bytes: "ucast (ucast v :: u8) OR push_bit 8 (ucast (ucast (drop_bit 8 v) :: u8)) = (v :: u16)"
  by (rule bit_word_eqI) (auto simp: bit_simps)

lemma u32_of_bytes:
  "ucast (ucast v :: u8) OR push_bit 8 (ucast (ucast (drop_bit 8 v) :: u8)) OR
   push_bit 16 (ucast (ucast (drop_bit 16 v) :: u8)) OR push_bit 24 (ucast (ucast (drop_bit 24 v) :: u8)) = (v :: u32)"
proof (rule bit_word_eqI)
  fix n assume "n < LENGTH(32)"
  then consider "n < 8" | "8 \<le> n" "n < 16" | "16 \<le> n" "n < 24" | "24 \<le> n" "n < 32" by fastforce
  then show "bit (ucast (ucast v :: u8) OR push_bit 8 (ucast (ucast (drop_bit 8 v) :: u8)) OR
      push_bit 16 (ucast (ucast (drop_bit 16 v) :: u8)) OR push_bit 24 (ucast (ucast (drop_bit 24 v) :: u8)) :: u32) n = bit v n"
    by cases (auto simp: bit_simps)
qed

definition image :: "mem \<Rightarrow> flash_map" where
  "image m = \<lparr>flash_byte = m, flash_size = of_nat X85_PARTITION_SIZE\<rparr>"

text \<open>\<open>changed m m' lo hi\<close>: only the bytes from \<open>lo\<close> up to \<open>hi\<close> may differ.\<close>

definition changed :: "mem \<Rightarrow> mem \<Rightarrow> nat \<Rightarrow> nat \<Rightarrow> bool" where
  "changed m m' lo hi \<longleftrightarrow> (\<forall>k<2 ^ 32. k < lo \<or> hi \<le> k \<longrightarrow> m' (of_nat k) = m (of_nat k))"

lemma changed_trans: "changed m m1 lo hi \<Longrightarrow> changed m1 m2 lo hi \<Longrightarrow> changed m m2 lo hi"
  by (simp add: changed_def)

lemma changed_mono: "changed m m' lo hi \<Longrightarrow> lo' \<le> lo \<Longrightarrow> hi \<le> hi' \<Longrightarrow> changed m m' lo' hi'"
  by (auto simp: changed_def)

lemma u32_at_changed:
  assumes "changed m m' lo hi" "p + 4 \<le> lo \<or> hi \<le> p" "p + 4 \<le> 2 ^ 32"
  shows "u32_at (image m') p = u32_at (image m) p"
proof -
  have "m' (of_nat (p + i)) = m (of_nat (p + i))" if "i < 4" for i
    using assms that unfolding changed_def by (auto simp del: of_nat_add)
  from this [of 0] this [of 1] this [of 2] this [of 3] show ?thesis
    unfolding u32_at_def image_def Let_def by (simp del: of_nat_add)
qed

lemma u16_at_changed:
  assumes "changed m m' lo hi" "p + 2 \<le> lo \<or> hi \<le> p" "p + 2 \<le> 2 ^ 32"
  shows "u16_at (image m') p = u16_at (image m) p"
proof -
  have "m' (of_nat (p + i)) = m (of_nat (p + i))" if "i < 2" for i
    using assms that unfolding changed_def by (auto simp del: of_nat_add)
  from this [of 0] this [of 1] show ?thesis
    unfolding u16_at_def image_def Let_def by (simp del: of_nat_add)
qed

lemma write_u32_ok:
  assumes "p + 4 \<le> X85_PARTITION_SIZE"
  shows "\<exists>m'. write_u32 m p v = Inr m' \<and> u32_at (image m') p = v \<and> changed m m' p (p + 4)"
proof -
  obtain m' where m': "write_u32 m p v = Inr m'"
    "\<forall>j<4. m' (of_nat (p + j)) = [ucast v, ucast (drop_bit 8 v), ucast (drop_bit 16 v), ucast (drop_bit 24 v)] ! j"
    "changed m m' p (p + 4)"
    using put_bytes_ok [of p "[ucast v, ucast (drop_bit 8 v), ucast (drop_bit 16 v), ucast (drop_bit 24 v)]" m] assms
    by (auto simp: write_u32_def changed_def)
  have "u32_at (image m') p = v"
    using m'(2) [rule_format, of 0] m'(2) [rule_format, of 1] m'(2) [rule_format, of 2] m'(2) [rule_format, of 3]
    unfolding u32_at_def image_def Let_def by (simp add: u32_of_bytes del: of_nat_add)
  with m' show ?thesis by blast
qed

lemma write_u16_ok:
  assumes "p + 2 \<le> X85_PARTITION_SIZE"
  shows "\<exists>m'. write_u16 m p v = Inr m' \<and> u16_at (image m') p = v \<and> changed m m' p (p + 2)"
proof -
  obtain m' where m': "write_u16 m p v = Inr m'"
    "\<forall>j<2. m' (of_nat (p + j)) = [ucast v, ucast (drop_bit 8 v)] ! j" "changed m m' p (p + 2)"
    using put_bytes_ok [of p "[ucast v, ucast (drop_bit 8 v)]" m] assms by (auto simp: write_u16_def changed_def)
  have "u16_at (image m') p = v"
    using m'(2) [rule_format, of 0] m'(2) [rule_format, of 1]
    unfolding u16_at_def image_def Let_def by (simp add: u16_of_bytes del: of_nat_add)
  with m' show ?thesis by blast
qed

lemma write_x85_data_ok:
  assumes "unat so < 0x40000" "i + length vs \<le> 0x200" "\<forall>j<length vs. place (unat so) (i + j) < e" "e \<le> X85_PARTITION_SIZE"
  shows "\<exists>m'. write_x85_data m so i vs = Inr m' \<and> (\<forall>j<length vs. m' (of_nat (place (unat so) (i + j))) = vs ! j) \<and>
    changed m m' (place (unat so) i) e \<and> (\<forall>j<i. m' (of_nat (place (unat so) j)) = m (of_nat (place (unat so) j)))"
  using assms(2,3)
proof (induction vs arbitrary: m i)
  case Nil
  then show ?case by (simp add: changed_def)
next
  case (Cons v vs)
  let ?p = "\<lambda>j. place (unat so) j" and ?m = "m(of_nat (place (unat so) i) := v)"
  have len: "i + 1 + length vs \<le> 0x200" using Cons.prems(1) by simp
  have below: "\<forall>j<length vs. ?p (i + 1 + j) < e" using Cons.prems(2) by (auto simp: less_Suc_eq_0_disj)
  obtain m' where m': "write_x85_data ?m so (i + 1) vs = Inr m'" "\<forall>j<length vs. m' (of_nat (?p (i + 1 + j))) = vs ! j"
    "changed ?m m' (?p (i + 1)) e" "\<forall>j<i + 1. m' (of_nat (?p j)) = ?m (of_nat (?p j))"
    using Cons.IH [OF len below, of ?m] by blast
  have pi: "?p i < e" using Cons.prems(2) by auto
  have u: "unat (x85_data_byte_offset so (of_nat i)) = ?p i"
    using unat_place [OF assms(1), of i] Cons.prems(1) by (simp add: x85_is_nsg)
  have apart: "(of_nat (?p j) :: u32) \<noteq> of_nat (?p i)" if "j < i" for j
    using place_mono [OF that, of "unat so"] pi assms(4) of_nat_u32_inj [of "?p j" "?p i"] by auto
  have "write_x85_data m so i (v # vs) = Inr m'"
    using m'(1) put_ok [of "?p i" m v] pi assms(4) by (simp add: u)
  moreover have "m' (of_nat (?p (i + j))) = (v # vs) ! j" if "j < length (v # vs)" for j
    using that m'(2) m'(4) [rule_format, of i] by (cases j) auto
  moreover have "changed m m' (?p i) e"
    unfolding changed_def
  proof (intro allI impI)
    fix k :: nat assume k: "k < 2 ^ 32" "k < ?p i \<or> e \<le> k"
    have "(of_nat k :: u32) \<noteq> of_nat (?p i)" using k pi assms(4) of_nat_u32_inj [of k "?p i"] by auto
    then show "m' (of_nat k) = m (of_nat k)"
      using m'(3) k place_mono [of i "i + 1" "unat so"] unfolding changed_def by auto
  qed
  moreover have "m' (of_nat (?p j)) = m (of_nat (?p j))" if "j < i" for j
    using m'(4) [rule_format, of j] apart [OF that] that by simp
  ultimately show ?case by blast
qed

lemma write_x85_fields_ok:
  assumes "unat e + 16 \<le> X85_PARTITION_SIZE"
  shows "\<exists>m'. write_x85_fields m e state bid vers sz full = Inr m' \<and> changed m m' (unat e) (unat e + 16) \<and>
    u32_at (image m') (unat e) = state \<and>
    (full \<longrightarrow> u32_at (image m') (unat e + 4) = bid - 5000 \<and> u32_at (image m') (unat e + 8) = sz) \<and>
    (\<not> full \<longrightarrow> u16_at (image m') (unat e + 4) = ucast bid \<and> m' (of_nat (unat e + 7)) = vers \<and>
       u16_at (image m') (unat e + 8) = ucast sz)"
proof -
  let ?e = "unat e"
  obtain m1 where m1: "write_u32 m ?e state = Inr m1" "u32_at (image m1) ?e = state" "changed m m1 ?e (?e + 4)"
    using write_u32_ok [of ?e m state] assms by auto
  show ?thesis
  proof (cases full)
    case True
    obtain m2 where m2: "write_u32 m1 (?e + 4) (bid - 5000) = Inr m2" "u32_at (image m2) (?e + 4) = bid - 5000"
      "changed m1 m2 (?e + 4) (?e + 4 + 4)" using write_u32_ok [of "?e + 4" m1] assms by auto
    obtain m3 where m3: "write_u32 m2 (?e + 8) sz = Inr m3" "u32_at (image m3) (?e + 8) = sz"
      "changed m2 m3 (?e + 8) (?e + 8 + 4)" using write_u32_ok [of "?e + 8" m2] assms by auto
    have "changed m m3 ?e (?e + 16)"
      by (rule changed_trans [OF changed_trans [OF changed_mono [OF m1(3)] changed_mono [OF m2(3)]] changed_mono [OF m3(3)]]) auto
    moreover have "u32_at (image m3) ?e = state" "u32_at (image m3) (?e + 4) = bid - 5000"
      using m1(2) m2(2) u32_at_changed [OF m2(3), of ?e] u32_at_changed [OF m3(3), of ?e] u32_at_changed [OF m3(3), of "?e + 4"] assms
      by auto
    ultimately show ?thesis using True m1(1) m2(1) m3(1,2) by (simp add: write_x85_fields_def)
  next
    case False
    obtain m2 where m2: "write_u16 m1 (?e + 4) (ucast bid) = Inr m2" "u16_at (image m2) (?e + 4) = ucast bid"
      "changed m1 m2 (?e + 4) (?e + 4 + 2)" using write_u16_ok [of "?e + 4" m1] assms by auto
    have e7: "unat (e + 7) = ?e + 7" using assms by (simp add: unat_word_ariths)
    let ?m3 = "m2(of_nat (?e + 7) := vers)"
    have m3: "put m2 (?e + 7) vers = Inr ?m3" using put_ok [of "?e + 7"] assms by simp
    have c3: "changed m2 ?m3 (?e + 7) (?e + 8)"
      unfolding changed_def using assms of_nat_u32_inj [of _ "?e + 7"] by (auto simp del: of_nat_add)
    obtain m4 where m4: "write_u16 ?m3 (?e + 8) (ucast sz) = Inr m4" "u16_at (image m4) (?e + 8) = ucast sz"
      "changed ?m3 m4 (?e + 8) (?e + 8 + 2)" using write_u16_ok [of "?e + 8" ?m3] assms by auto
    have "changed m m4 ?e (?e + 16)"
      by (rule changed_trans [OF changed_trans [OF changed_trans [OF changed_mono [OF m1(3)] changed_mono [OF m2(3)]]
            changed_mono [OF c3]] changed_mono [OF m4(3)]]) auto
    moreover have "u32_at (image m4) ?e = state" "u16_at (image m4) (?e + 4) = ucast bid"
      using m1(2) m2(2) u32_at_changed [OF m2(3), of ?e] u32_at_changed [OF c3, of ?e] u32_at_changed [OF m4(3), of ?e]
        u16_at_changed [OF c3, of "?e + 4"] u16_at_changed [OF m4(3), of "?e + 4"] assms by auto
    moreover have "m4 (of_nat (?e + 7)) = vers"
      using m4(3) assms unfolding changed_def by (auto simp del: of_nat_add)
    ultimately show ?thesis using False m1(1) m2(1) m3 m4(1,2) by (simp add: write_x85_fields_def e7)
  qed
qed

section \<open>Reading it back\<close>

lemma copy_inline_value:
  assumes "inside F P" "\<forall>j<n. nsg_data_byte_offset so (src + of_nat (i + j)) < psize P" "i + n \<le> length (inline_data b)"
  shows "copy_inline_loop n F P so src i b = Inr (EEPROM_RESULT_OK, b\<lparr>bdata := In_Line, inline_data :=
    take i (inline_data b) @ map (\<lambda>j. flash_byte F (of_nat (base P + unat (nsg_data_byte_offset so (src + of_nat j))))) [i..<i + n] @
    drop (i + n) (inline_data b)\<rparr>)"
  using assms(2,3)
proof (induction n arbitrary: i b)
  case 0
  then show ?case by simp
next
  case (Suc n)
  let ?q = "nsg_data_byte_offset so (src + of_nat i)"
  let ?v = "flash_byte F (of_nat (base P + unat ?q))" and ?D = "inline_data b"
  have q: "?q < psize P" using Suc.prems(1) [rule_format, of 0] by simp
  have r: "flash_read F (base P + unat ?q) = Inr ?v"
    using q insideD [OF assms(1)] by (simp add: flash_read_def word_less_nat_alt)
  have b: "\<forall>j<n. nsg_data_byte_offset so (src + of_nat (i + 1 + j)) < psize P"
  proof (intro allI impI)
    fix j assume "j < n"
    then show "nsg_data_byte_offset so (src + of_nat (i + 1 + j)) < psize P"
      using Suc.prems(1) [rule_format, of "Suc j"] by simp
  qed
  have l: "take (Suc i) (?D[i := ?v]) = take i ?D @ [?v]" "drop (i + Suc n) (?D[i := ?v]) = drop (i + Suc n) ?D"
    using Suc.prems(2) by (simp_all add: take_Suc_conv_app_nth)
  have up: "[i..<i + Suc n] = i # [i + 1..<i + 1 + n]" using upt_conv_Cons [of i "i + Suc n"] by simp
  show ?case
    using Suc.IH [OF b, of "b\<lparr>inline_data := ?D[i := ?v]\<rparr>"] Suc.prems(2) q r l up by (simp add: Let_def)
qed

definition payload :: "eeprom_block \<Rightarrow> u8 list" where
  "payload b = take (unat (bsize b)) (inline_data b)"

text \<open>The image holds \<open>data\<close> as the entry at \<open>e\<close> keeps them, up to byte \<open>n\<close>.\<close>

definition holds :: "mem \<Rightarrow> u32 \<Rightarrow> u8 list \<Rightarrow> bool" where
  "holds m so data \<longleftrightarrow> (\<forall>i<length data. place (unat so) i < X85_PARTITION_SIZE \<and> m (of_nat (place (unat so) i)) = data ! i)"

lemma copy_block_value:
  assumes "holds m so data" "unat so < 0x40000" "length data \<le> 0x200" "k + n \<le> length data"
    and "length (inline_data b) = EEPROM_BLOCK_INLINE_CAPACITY" "bsize b = of_nat n"
  shows "\<exists>b'. copy_nsg_inline_block (image m) blank_partition so (of_nat k) (of_nat n) b = Inr (EEPROM_RESULT_OK, b') \<and>
    bdata b' = In_Line \<and> version b' = version b \<and> payload b' = take n (drop k data)"
proof -
  have i: "inside (image m) blank_partition" by (simp add: inside_def image_def blank_partition_def)
  have u: "unat (of_nat n :: u32) = n" using assms(3,4) by (simp add: unat_of_nat)
  have o: "unat (nsg_data_byte_offset so (of_nat k + of_nat j)) = place (unat so) (k + j)" if "j < n" for j
    using unat_place [OF assms(2), of "k + j"] that assms(3,4) by simp
  have p: "\<forall>j<n. nsg_data_byte_offset so (of_nat k + of_nat (0 + j)) < psize blank_partition"
    using o assms(1,4) by (auto simp: holds_def blank_partition_def word_less_nat_alt)
  have w: "nsg_data_byte_offset so (of_nat k + of_nat j) = of_nat (place (unat so) (k + j))" if "j < n" for j
    using arg_cong [OF o [OF that], of "of_nat :: nat \<Rightarrow> u32"] by simp
  have v: "map (\<lambda>j. m (nsg_data_byte_offset so (of_nat k + of_nat j))) [0..<n] = take n (drop k data)"
    using assms(1,4) by (intro nth_equalityI) (simp_all add: w holds_def)
  show ?thesis
    unfolding copy_nsg_inline_block_def u
    using assms(3-6) v u copy_inline_value [OF i p, of b] by (simp add: image_def blank_partition_def payload_def)
qed

lemma write_x85_inline_ok:
  assumes "length data \<le> 0x200" "16 + length data + 16 * (length data div 16) \<le> unat e" "unat e + 16 \<le> X85_PARTITION_SIZE"
  defines "so \<equiv> align_nsg_data_offset (e - (16 + of_nat (length data) + (of_nat (length data) AND NOT 15)))"
  shows "\<exists>m1 m'. write_x85_fields m e state bid vers (of_nat (length data)) full = Inr m1 \<and>
    write_x85_inline_entry m e state bid vers data full = Inr ((so AND NOT 31) - 32, m') \<and>
    unat so < 0x40000 \<and> unat so \<le> unat e \<and> holds m' so data \<and> changed m m1 (unat e) (unat e + 16) \<and> changed m1 m' (unat so) (unat e)"
proof -
  obtain m1 where m1: "write_x85_fields m e state bid vers (of_nat (length data)) full = Inr m1" "changed m m1 (unat e) (unat e + 16)"
    using write_x85_fields_ok [OF assms(3), of m state bid vers "of_nat (length data)" full] by blast
  have s: "unat so = start (unat e) (length data)" unfolding so_def using assms(1-3) by (intro unat_start) auto
  have below: "place (unat so) i < unat e" if "i < length data" for i unfolding s by (rule place_below [OF assms(2) that])
  have so: "unat so \<le> unat e"
  proof (cases "data = []")
    case True
    have "unat e - 16 + 32 - (unat e - 16) mod 32 \<le> unat e" if "odd ((unat e - 16) div 16)"
      using odd_chunk [OF that] assms(2) by simp
    then show ?thesis unfolding s start_def Let_def using True by simp
  next
    case False
    then show ?thesis using below [of 0] by (simp add: place_def)
  qed
  obtain m' where m': "write_x85_data m1 so 0 data = Inr m'" "\<forall>j<length data. m' (of_nat (place (unat so) j)) = data ! j"
    "changed m1 m' (place (unat so) 0) (unat e)"
    using write_x85_data_ok [of so 0 data "unat e" m1] so below assms(1,3) by auto
  have "changed m1 m' (unat so) (unat e)" by (rule changed_mono [OF m'(3)]) (simp_all add: place_def)
  moreover have "place (unat so) i < X85_PARTITION_SIZE" if "i < length data" for i using below [OF that] assms(3) by simp
  then have "holds m' so data" using m'(2) by (simp add: holds_def)
  ultimately show ?thesis
    using m1 m'(1) so assms(3) unfolding so_def by (simp add: write_x85_inline_entry_def x85_is_nsg Let_def)
qed

lemma stored_offset_inline:
  assumes "length data \<le> 0x200" "16 + length data + 16 * (length data div 16) \<le> unat e"
  shows "nsg_stored_offset F P e entry (of_nat (length data)) True =
    Inr (Some (align_nsg_data_offset (e - (16 + of_nat (length data) + (of_nat (length data) AND NOT 15)))))"
proof -
  have "\<not> e < 16 + of_nat (length data) + (of_nat (length data) AND NOT 15)"
    using unat_reserved [OF assms(1)] assms(2) by (simp add: word_less_nat_alt)
  then show ?thesis by (simp add: nsg_stored_offset_def Let_def)
qed

lemma read_fields:
  assumes "unat e + 16 \<le> X85_PARTITION_SIZE"
  shows "read_u32 (image m) (unat e + 8) = Inr (u32_at (image m) (unat e + 8))"
    and "read_u16 (image m) (unat e + 8) = Inr (u16_at (image m) (unat e + 8))"
    and "flash_read (image m) (unat e + 7) = Inr (m (of_nat (unat e + 7)))"
  using assms by (auto intro!: read_u32_at read_u16_at simp: image_def flash_read_def simp del: of_nat_add)

text \<open>The part of the stored bytes that the reader hands out, and the version it reports.\<close>

definition stored_payload :: "bool \<Rightarrow> u8 list \<Rightarrow> u8 list" where
  "stored_payload full data =
     (if full then take (length data - unat (eefull_metadata_size (hd data))) (tl data) else data)"

lemma decode_lite_value:
  assumes "holds m so data" "unat so < 0x40000" "0 < length data" "length data \<le> 0x10" "unat e + 16 \<le> X85_PARTITION_SIZE"
    and "length (inline_data b) = EEPROM_BLOCK_INLINE_CAPACITY" "m (of_nat (unat e + 7)) = vers"
  shows "\<exists>b'. decode_nsg_lite (image m) blank_partition (unat e) so (of_nat (length data)) True b = Inr (EEPROM_RESULT_OK, b') \<and>
    bdata b' = In_Line \<and> version b' = ucast vers \<and> payload b' = stored_payload False data"
  using copy_block_value [OF assms(1,2), of 0 "length data" "b\<lparr>bsize := of_nat (length data), version := ucast vers\<rparr>"]
    assms(4,6,7)
  by (auto simp: decode_nsg_lite_def read_fields(3) [OF assms(5)] stored_payload_def Let_def simp del: of_nat_add)

lemma decode_full_value:
  assumes "holds m so data" "unat so < 0x40000" "0 < length data" "length data \<le> 0x200"
    and "length (inline_data b) = EEPROM_BLOCK_INLINE_CAPACITY" "unat (eefull_metadata_size (hd data)) \<le> length data"
  shows "\<exists>b'. decode_nsg_full (image m) blank_partition so (of_nat (length data)) True b = Inr (EEPROM_RESULT_OK, b') \<and>
    bdata b' = In_Line \<and> version b' = ucast (hd data) \<and> payload b' = stored_payload True data"
proof -
  let ?meta = "eefull_metadata_size (hd data)"
  let ?n = "length data - unat ?meta"
  have h: "place (unat so) 0 < X85_PARTITION_SIZE" "m (of_nat (place (unat so) 0)) = hd data"
    using assms(1,3) by (auto simp: holds_def hd_conv_nth)
  have o: "unat (nsg_data_byte_offset so 0) = place (unat so) 0" using unat_place [OF assms(2), of 0] by simp
  have r: "flash_read (image m) (base blank_partition + unat (nsg_data_byte_offset so 0)) = Inr (hd data)"
    using h by (simp add: flash_read_def image_def blank_partition_def o)
  have p: "\<not> nsg_data_byte_offset so 0 \<ge> psize blank_partition"
    using h by (simp add: word_le_nat_alt o blank_partition_def)
  have len: "unat (of_nat (length data) :: u32) = length data" using assms(4) by (simp add: unat_of_nat)
  have s: "\<not> of_nat (length data) < ?meta" using assms(6) by (simp add: word_less_nat_alt len)
  have n: "of_nat (length data) - ?meta = of_nat ?n" using assms(6) by (simp add: of_nat_diff)
  show ?thesis
    using copy_block_value [OF assms(1,2), of 1 ?n "b\<lparr>bsize := of_nat ?n, version := ucast (hd data)\<rparr>"] assms(4-6)
      eefull_metadata_pos [of "hd data"]
    unfolding decode_nsg_full_def Let_def if_True r bindE_simps(2) n using p s
    by (simp add: stored_payload_def drop_Suc)
qed

text \<open>
  C25. What the writer of the new layout stores is what the parser reads: for data of at most 16
  bytes, or 512 in the full partition, and an entry with room below it, the writer stays inside the
  flash, spreads the data over every other 16-byte chunk below the entry, touches nothing outside
  the space between the next entry and the end of this one, and returns the position of that next
  entry; and decoding the entry gives the data back byte for byte, with the version, less the
  metadata of a full block.
\<close>

theorem x85_inline_roundtrip:
  assumes "0 < length data" "length data \<le> (if full then 0x200 else 0x10)"
    and "16 + length data + 16 * (length data div 16) \<le> unat e" "unat e + 16 \<le> X85_PARTITION_SIZE"
    and "length (inline_data b) = EEPROM_BLOCK_INLINE_CAPACITY"
    and "full \<longrightarrow> unat (eefull_metadata_size (hd data)) \<le> length data"
  shows "\<exists>n m' b'. write_x85_inline_entry m e state bid vers data full = Inr (of_nat n - X85_ENTRY_SIZE, m') \<and>
    32 dvd n \<and> n \<le> unat e \<and> changed m m' n (unat e + 16) \<and> u32_at (image m') (unat e) = state \<and>
    decode_nsg_block (image m') blank_partition (if full then EEPROM_PARTITION_EEFULL else EEPROM_PARTITION_EELITE) e (unat e) b =
      Inr (EEPROM_RESULT_OK, b') \<and>
    bdata b' = In_Line \<and> version b' = (if full then ucast (hd data) else ucast vers) \<and> payload b' = stored_payload full data"
proof -
  let ?so = "align_nsg_data_offset (e - (16 + of_nat (length data) + (of_nat (length data) AND NOT 15)))"
  have l: "length data \<le> 0x200" using assms(2) by (auto split: if_splits)
  obtain m1 m' where w: "write_x85_fields m e state bid vers (of_nat (length data)) full = Inr m1"
    "write_x85_inline_entry m e state bid vers data full = Inr ((?so AND NOT 31) - 32, m')" "unat ?so < 0x40000"
    "holds m' ?so data" "unat ?so \<le> unat e" "changed m m1 (unat e) (unat e + 16)" "changed m1 m' (unat ?so) (unat e)"
    using write_x85_inline_ok [OF l assms(3,4)] by blast
  have f: "u32_at (image m1) (unat e) = state" "full \<Longrightarrow> u32_at (image m1) (unat e + 8) = of_nat (length data)"
    "\<not> full \<Longrightarrow> m1 (of_nat (unat e + 7)) = vers" "\<not> full \<Longrightarrow> u16_at (image m1) (unat e + 8) = ucast (of_nat (length data) :: u32)"
    using write_x85_fields_ok [OF assms(4), of m state bid vers "of_nat (length data)" full] w(1) by auto
  have g: "u32_at (image m') p = u32_at (image m1) p" "u16_at (image m') p = u16_at (image m1) p"
    "m' (of_nat p) = m1 (of_nat p)" if "unat e \<le> p" "p < X85_PARTITION_SIZE" for p
    using u32_at_changed [OF w(7), of p] u16_at_changed [OF w(7), of p] w(7) that by (auto simp: changed_def)
  have d: "\<exists>b'. decode_nsg_block (image m') blank_partition (if full then EEPROM_PARTITION_EEFULL else EEPROM_PARTITION_EELITE) e
      (unat e) b = Inr (EEPROM_RESULT_OK, b') \<and>
    bdata b' = In_Line \<and> version b' = (if full then ucast (hd data) else ucast vers) \<and> payload b' = stored_payload full data"
  proof (cases full)
    case True
    have z: "(of_nat (length data) :: u32) \<noteq> 0" "(of_nat (length data) :: u32) \<le> 0x200"
      using assms(1) l by (simp_all add: word_le_nat_alt unat_of_nat word_of_nat_eq_0_iff nat_dvd_not_less)
    have r: "read_u32 (image m') (unat e + 8) = Inr (of_nat (length data))"
      unfolding read_fields(1) [OF assms(4)] using g(1) [of "unat e + 8"] f(2) [OF True] assms(4) by simp
    show ?thesis
      using decode_full_value [OF w(4,3) assms(1) l assms(5)] assms(6) True z r stored_offset_inline [OF l assms(3)]
      by (simp add: decode_nsg_block_def Let_def)
  next
    case False
    have l16: "length data \<le> 16" using assms(2) False by simp
    have z: "(of_nat (length data) :: u32) \<noteq> 0" "(of_nat (length data) :: u32) \<le> 0x10"
      using assms(1) l16 by (simp_all add: word_le_nat_alt unat_of_nat word_of_nat_eq_0_iff nat_dvd_not_less)
    have "ucast (ucast (of_nat (length data) :: u32) :: u16) = (of_nat (length data) :: u32)"
      using l16 by (simp add: unsigned_of_nat take_bit_nat_eq_self)
    then have r: "bindE (read_u16 (image m') (unat e + 8)) (\<lambda>v. Inr (ucast v)) = Inr (of_nat (length data) :: u32)"
      unfolding read_fields(2) [OF assms(4)] using g(2) [of "unat e + 8"] f(4) [OF False] assms(4) by simp
    have v: "m' (of_nat (unat e + 7)) = vers" using g(3) [of "unat e + 7"] f(3) [OF False] assms(4) by (simp del: of_nat_add)
    show ?thesis
      using decode_lite_value [OF w(4,3) assms(1) l16 assms(4,5) v] False z stored_offset_inline [OF l assms(3)]
      unfolding decode_nsg_block_def Let_def if_not_P [OF False] by (simp add: r)
  qed
  let ?n = "unat (?so AND NOT 31)"
  have n: "?n = 32 * (unat ?so div 32)" by (rule unat_and_not_31)
  have "?n \<le> unat ?so" unfolding n by simp
  then have "changed m m' ?n (unat e + 16)"
    using w(5) by (intro changed_trans [OF changed_mono [OF w(6)] changed_mono [OF w(7)]]) simp_all
  moreover have "of_nat ?n = ?so AND NOT 31" by simp
  moreover have "u32_at (image m') (unat e) = state" using g(1) [of "unat e"] f(1) assms(4) by simp
  moreover have "32 dvd ?n" unfolding n by simp
  moreover have "?n \<le> unat e" using \<open>?n \<le> unat ?so\<close> w(5) by (rule order_trans)
  ultimately show ?thesis using d w(2) by metis
qed

theorem x85_inline_roundtrip_witness:
  "\<exists>n m' b'. write_x85_inline_entry reset_flash 0x3FFC0 ENTRY_VALID 76 3 [0x21, 0x22, 0x23, 0x24] False =
      Inr (of_nat n - X85_ENTRY_SIZE, m') \<and>
    32 dvd n \<and> n \<le> unat (0x3FFC0 :: u32) \<and> changed reset_flash m' n (unat (0x3FFC0 :: u32) + 16) \<and>
    u32_at (image m') (unat (0x3FFC0 :: u32)) = ENTRY_VALID \<and>
    decode_nsg_block (image m') blank_partition EEPROM_PARTITION_EELITE 0x3FFC0 (unat (0x3FFC0 :: u32)) blank_block =
      Inr (EEPROM_RESULT_OK, b') \<and>
    bdata b' = In_Line \<and> version b' = ucast (3 :: u8) \<and> payload b' = [0x21, 0x22, 0x23, 0x24]"
  using x85_inline_roundtrip [of "[0x21, 0x22, 0x23, 0x24]" False "0x3FFC0" blank_block reset_flash ENTRY_VALID 76 3]
  by (simp add: blank_block_def stored_payload_def)

end
