(* ===== verification/Printf.thy ===== *)
theory Printf
  imports Conversation
begin

text \<open>
  Formatted output on the first serial port (\<^verbatim>\<open>src/lib/printf.c\<close>). The formatter itself is a library that
  is not part of the sources; it is a parameter, from a format and its arguments to bytes.
\<close>

datatype arg = Str "u8 list" | Num u32

type_synonym formatter = "string \<Rightarrow> arg list \<Rightarrow> u8 list"

definition str :: "string \<Rightarrow> u8 list" where
  "str s = map of_char s"

definition putchar :: "'h env \<Rightarrow> u8 \<Rightarrow> (('h, 'z) machine_scheme, unit) cmd" where
  "putchar E character = usart_putc E USART0 character"

definition printf :: "'h env \<Rightarrow> formatter \<Rightarrow> string \<Rightarrow> arg list \<Rightarrow> (('h, 'z) machine_scheme, unit) cmd" where
  "printf E F f args = forM (F f args) (putchar E)"

text \<open>Printing sends the formatted bytes.\<close>

context observer
begin

lemma does_put_all: "does obs (forM bs (putchar E)) (\<lambda>_ tr a b. rxb tr = [] \<and> txb tr = bs \<and> b = a)"
proof (induction bs)
  case (Cons x xs)
  show ?case
    unfolding forM.simps putchar_def usart_putc_def
    by (rule does_bind [OF does_reply], rule does_mono [OF Cons [unfolded putchar_def usart_putc_def]]) auto
qed (simp add: does_ret)

lemma does_printf: "does obs (printf E F f args) (\<lambda>_ tr a b. rxb tr = [] \<and> txb tr = F f args \<and> b = a)"
  unfolding printf_def by (rule does_put_all)

end

text \<open>What was printed has been sent, by the contract of the serial port.\<close>

lemma forM_singletons: "forM xs (\<lambda>x. f [x]) = forM (map (\<lambda>x. [x]) xs) f"
  by (induction xs) simp_all

lemma wlp_printf: "wlpM (printf E F f args) (\<lambda>_ t. usart_sent USART0 t = usart_sent USART0 s @ F f args) s"
  unfolding printf_def putchar_def usart_putc_def
  by (subst forM_singletons [where f = "usart_write E USART0"])
     (rule wlp_mono [OF usart_port.send_pieces], simp)

end
