(* ===== verification/Sim_Reader.thy ===== *)
theory Sim_Reader
  imports Printf Smbus
begin

text \<open>
  The smart-card reader application (\<^verbatim>\<open>src/apps/sim-reader/main.c\<close>): the framed CCID protocol with the
  host on the serial port, the T=0 exchange with the card in the SIM block and the supply of the card
  over I2C. Arrays that the code fills from their start are the lists of bytes stored so far, with a
  store past their capacity as the fault \<open>Out_Of_Bounds\<close>.
\<close>

section \<open>Definitions\<close>

abbreviation (input) SIM_IRQ_MASK :: u32 where "SIM_IRQ_MASK \<equiv> SIM_IMSC_ERR OR SIM_IMSC_IN OR SIM_IMSC_OK"
abbreviation (input) SIM_DEFAULT_BRF :: u32 where "SIM_DEFAULT_BRF \<equiv> 0x5D"
abbreviation (input) SIM_RMC :: u32 where "SIM_RMC \<equiv> 4"
abbreviation (input) SIM_MAX_ATR_SIZE :: nat where "SIM_MAX_ATR_SIZE \<equiv> 64"
abbreviation (input) SIM_MAX_DATA_SIZE :: nat where "SIM_MAX_DATA_SIZE \<equiv> 256"
abbreviation (input) SIM_STATUS_SIZE :: nat where "SIM_STATUS_SIZE \<equiv> 2"
abbreviation (input) SIM_HEADER_SIZE :: nat where "SIM_HEADER_SIZE \<equiv> 5"
abbreviation (input) SIM_HEADER_INS :: nat where "SIM_HEADER_INS \<equiv> 1"
abbreviation (input) SIM_HEADER_P3 :: nat where "SIM_HEADER_P3 \<equiv> 4"
abbreviation (input) SIM_NULL_BYTE :: u8 where "SIM_NULL_BYTE \<equiv> 0x60"
abbreviation (input) SIM_TX_TIMEOUT_MS :: u32 where "SIM_TX_TIMEOUT_MS \<equiv> 500"
abbreviation (input) SIM_FIRST_ATR_TIMEOUT_MS :: u32 where "SIM_FIRST_ATR_TIMEOUT_MS \<equiv> 1000"
abbreviation (input) SIM_NEXT_ATR_TIMEOUT_MS :: u32 where "SIM_NEXT_ATR_TIMEOUT_MS \<equiv> 100"
abbreviation (input) SIM_RESPONSE_TIMEOUT_MS :: u32 where "SIM_RESPONSE_TIMEOUT_MS \<equiv> 3000"
abbreviation (input) SIM_TURNAROUND_MS :: u32 where "SIM_TURNAROUND_MS \<equiv> 5"
abbreviation (input) SIM_SUPPLY_SETTLE_MS :: u32 where "SIM_SUPPLY_SETTLE_MS \<equiv> 255"
abbreviation (input) SIM_CLOCK_SETTLE_MS :: u32 where "SIM_CLOCK_SETTLE_MS \<equiv> 100"
abbreviation (input) SIM_UART_SETTLE_MS :: u32 where "SIM_UART_SETTLE_MS \<equiv> 5"
abbreviation (input) SIM_PPSS :: u8 where "SIM_PPSS \<equiv> 0xFF"
abbreviation (input) SIM_DEFAULT_FIDI :: u8 where "SIM_DEFAULT_FIDI \<equiv> 0x11"
abbreviation (input) SIM_FIDI_FI_SHIFT :: nat where "SIM_FIDI_FI_SHIFT \<equiv> 4"
abbreviation (input) SIM_FIDI_DI_MASK :: u8 where "SIM_FIDI_DI_MASK \<equiv> 0x0F"
abbreviation (input) SIM_CLOCKS_PER_BRF_ETU :: u32 where "SIM_CLOCKS_PER_BRF_ETU \<equiv> 4"
abbreviation (input) HOST_SPEED :: u32 where "HOST_SPEED \<equiv> 115200"
abbreviation (input) SERIAL_SYNC :: u8 where "SERIAL_SYNC \<equiv> 0x03"
abbreviation (input) SERIAL_ACK :: u8 where "SERIAL_ACK \<equiv> 0x06"
abbreviation (input) SERIAL_NAK :: u8 where "SERIAL_NAK \<equiv> 0x15"
abbreviation (input) CCID_HEADER_SIZE :: nat where "CCID_HEADER_SIZE \<equiv> 10"
abbreviation (input) CCID_MAX_DATA_SIZE :: nat where "CCID_MAX_DATA_SIZE \<equiv> 261"
abbreviation (input) CCID_OFFSET_TYPE :: nat where "CCID_OFFSET_TYPE \<equiv> 0"
abbreviation (input) CCID_OFFSET_LENGTH :: nat where "CCID_OFFSET_LENGTH \<equiv> 1"
abbreviation (input) CCID_OFFSET_SLOT :: nat where "CCID_OFFSET_SLOT \<equiv> 5"
abbreviation (input) CCID_OFFSET_SEQ :: nat where "CCID_OFFSET_SEQ \<equiv> 6"
abbreviation (input) CCID_OFFSET_STATUS :: nat where "CCID_OFFSET_STATUS \<equiv> 7"
abbreviation (input) CCID_OFFSET_ERROR :: nat where "CCID_OFFSET_ERROR \<equiv> 8"
abbreviation (input) CCID_OFFSET_SPECIFIC :: nat where "CCID_OFFSET_SPECIFIC \<equiv> 9"
abbreviation (input) CCID_OFFSET_PROTOCOL :: nat where "CCID_OFFSET_PROTOCOL \<equiv> 7"
abbreviation (input) PC_TO_RDR_SET_PARAMETERS :: u8 where "PC_TO_RDR_SET_PARAMETERS \<equiv> 0x61"
abbreviation (input) PC_TO_RDR_ICC_POWER_ON :: u8 where "PC_TO_RDR_ICC_POWER_ON \<equiv> 0x62"
abbreviation (input) PC_TO_RDR_ICC_POWER_OFF :: u8 where "PC_TO_RDR_ICC_POWER_OFF \<equiv> 0x63"
abbreviation (input) PC_TO_RDR_GET_SLOT_STATUS :: u8 where "PC_TO_RDR_GET_SLOT_STATUS \<equiv> 0x65"
abbreviation (input) PC_TO_RDR_ESCAPE :: u8 where "PC_TO_RDR_ESCAPE \<equiv> 0x6B"
abbreviation (input) PC_TO_RDR_GET_PARAMETERS :: u8 where "PC_TO_RDR_GET_PARAMETERS \<equiv> 0x6C"
abbreviation (input) PC_TO_RDR_RESET_PARAMETERS :: u8 where "PC_TO_RDR_RESET_PARAMETERS \<equiv> 0x6D"
abbreviation (input) PC_TO_RDR_XFR_BLOCK :: u8 where "PC_TO_RDR_XFR_BLOCK \<equiv> 0x6F"
abbreviation (input) RDR_TO_PC_DATA_BLOCK :: u8 where "RDR_TO_PC_DATA_BLOCK \<equiv> 0x80"
abbreviation (input) RDR_TO_PC_SLOT_STATUS :: u8 where "RDR_TO_PC_SLOT_STATUS \<equiv> 0x81"
abbreviation (input) RDR_TO_PC_PARAMETERS :: u8 where "RDR_TO_PC_PARAMETERS \<equiv> 0x82"
abbreviation (input) RDR_TO_PC_ESCAPE :: u8 where "RDR_TO_PC_ESCAPE \<equiv> 0x83"
abbreviation (input) CCID_ICC_ACTIVE :: u8 where "CCID_ICC_ACTIVE \<equiv> 0x00"
abbreviation (input) CCID_ICC_INACTIVE :: u8 where "CCID_ICC_INACTIVE \<equiv> 0x01"
abbreviation (input) CCID_COMMAND_FAILED :: u8 where "CCID_COMMAND_FAILED \<equiv> 0x40"
abbreviation (input) CCID_ERROR_CMD_NOT_SUPPORTED :: u8 where "CCID_ERROR_CMD_NOT_SUPPORTED \<equiv> 0x00"
abbreviation (input) CCID_ERROR_BAD_FIDI :: u8 where "CCID_ERROR_BAD_FIDI \<equiv> 10"
abbreviation (input) CCID_ERROR_HW_ERROR :: u8 where "CCID_ERROR_HW_ERROR \<equiv> 0xFB"
abbreviation (input) CCID_ERROR_ICC_MUTE :: u8 where "CCID_ERROR_ICC_MUTE \<equiv> 0xFE"
abbreviation (input) CCID_T0_PARAMETERS_SIZE :: nat where "CCID_T0_PARAMETERS_SIZE \<equiv> 5"
abbreviation (input) CCID_T0_DEFAULT_WAITING_INTEGER :: u8 where "CCID_T0_DEFAULT_WAITING_INTEGER \<equiv> 0x0A"
abbreviation (input) CCID_T0_FIDI :: nat where "CCID_T0_FIDI \<equiv> 0"
abbreviation (input) ESCAPE_GET_FIRMWARE :: u8 where "ESCAPE_GET_FIRMWARE \<equiv> 0x02"
abbreviation (input) ESCAPE_POWER_OFF :: u8 where "ESCAPE_POWER_OFF \<equiv> 0xF0"

text \<open>Registers of the power-management chips.\<close>

abbreviation (input) PMB6812_PWCTRL5 :: u8 where "PMB6812_PWCTRL5 \<equiv> 0x11"
abbreviation (input) PMB6812_PWCTRL5_LSIMMD :: u8 where "PMB6812_PWCTRL5_LSIMMD \<equiv> 0x3"
abbreviation (input) PMB6812_PWCTRL5_LSIMMD_OFF :: u8 where "PMB6812_PWCTRL5_LSIMMD_OFF \<equiv> 0x0"
abbreviation (input) PMB6812_PWCTRL5_LSIMMD_ON :: u8 where "PMB6812_PWCTRL5_LSIMMD_ON \<equiv> 0x3"
abbreviation (input) PASIC_I2C_ADDR :: u8 where "PASIC_I2C_ADDR \<equiv> 0x31"
abbreviation (input) PASIC_SUPPLY_ENABLE_1 :: u8 where "PASIC_SUPPLY_ENABLE_1 \<equiv> 0x06"
abbreviation (input) PASIC_SUPPLY_ENABLE_1_VAUDREGA_EN :: u8 where "PASIC_SUPPLY_ENABLE_1_VAUDREGA_EN \<equiv> 0x10"
abbreviation (input) PASIC_POWER :: u8 where "PASIC_POWER \<equiv> 0x0E"
abbreviation (input) PASIC_POWER_POWEROFF :: u8 where "PASIC_POWER_POWEROFF \<equiv> 0x4"

text \<open>The field \<^verbatim>\<open>size\<close> of a message is the length of \<open>data\<close>.\<close>

record ccid_message =
  header :: "u8 list"
  data :: "u8 list"

record 'h reader = "'h watched" +
  t0_parameters :: "u8 list"
  icc_active :: bool

definition FI_CLOCKS_PER_ETU :: "u32 list" where
  "FI_CLOCKS_PER_ETU = [372, 372, 558, 744, 1116, 1488, 1860, 0, 0, 512, 768, 1024, 1536, 2048, 0, 0]"

definition DI_DIVISORS :: "u32 list" where
  "DI_DIVISORS = [0, 1, 2, 4, 8, 16, 32, 64, 12, 20, 0, 0, 0, 0, 0, 0]"

definition DEFAULT_T0_PARAMETERS :: "u8 list" where
  "DEFAULT_T0_PARAMETERS = [SIM_DEFAULT_FIDI, 0, 0, CCID_T0_DEFAULT_WAITING_INTEGER, 0]"

definition FIRMWARE :: string where
  "FIRMWARE = ''PMB887X SIM reader''"

definition fetch :: "u8 list \<Rightarrow> nat \<Rightarrow> fault + u8" where
  "fetch xs i = (if i < length xs then Inr (xs ! i) else Inl Out_Of_Bounds)"

subsection \<open>The card\<close>

definition delay_ms :: "'h env \<Rightarrow> u32 \<Rightarrow> (('h, 'z) watched_scheme, unit) cmd" where
  "delay_ms E milliseconds =
     bindM (stopwatch_get E) (\<lambda>start.
     whileM (fuel E) (mapM (\<lambda>t. t < milliseconds) (stopwatch_elapsed_ms E start)) (wdt_serve E))"

primrec sim_wait_loop :: "nat \<Rightarrow> 'h env \<Rightarrow> u64 \<Rightarrow> u32 \<Rightarrow> (('h, 'z) watched_scheme, bool) cmd" where
  "sim_wait_loop 0 E start timeout_ms = failM Out_Of_Fuel"
| "sim_wait_loop (Suc n) E start timeout_ms =
     bindM (stopwatch_elapsed_ms E start) (\<lambda>t.
     if \<not> t < timeout_ms then retM False else
     bindM (rd E SIM_RIS) (\<lambda>ris.
     if ris AND SIM_RIS_ERR \<noteq> 0 then bindM (wr E SIM_ICR SIM_ICR_ERR) (\<lambda>_. retM False) else
     bindM (rd E SIM_RIS) (\<lambda>ris.
     if ris AND SIM_RIS_OK \<noteq> 0 then retM True else
     bindM (wdt_serve E) (\<lambda>_. sim_wait_loop n E start timeout_ms))))"

definition sim_wait_ok :: "'h env \<Rightarrow> u32 \<Rightarrow> (('h, 'z) watched_scheme, bool) cmd" where
  "sim_wait_ok E timeout_ms = bindM (stopwatch_get E) (\<lambda>start. sim_wait_loop (fuel E) E start timeout_ms)"

definition sim_send_byte :: "'h env \<Rightarrow> u8 \<Rightarrow> (('h, 'z) watched_scheme, bool) cmd" where
  "sim_send_byte E value =
     bindM (wr E SIM_ICR SIM_ICR_OK) (\<lambda>_.
     bindM (wr E SIM_TXB (ucast value)) (\<lambda>_.
     bindM (sim_wait_ok E SIM_TX_TIMEOUT_MS) (\<lambda>ok.
     if \<not> ok then retM False else bindM (wr E SIM_ICR SIM_ICR_OK) (\<lambda>_. retM True))))"

text \<open>The byte received; \<open>None\<close> is the result false.\<close>

definition sim_receive_byte :: "'h env \<Rightarrow> u32 \<Rightarrow> (('h, 'z) watched_scheme, u8 option) cmd" where
  "sim_receive_byte E timeout_ms =
     bindM (sim_wait_ok E timeout_ms) (\<lambda>ok.
     if \<not> ok then retM None else
     bindM (rd E SIM_RXB) (\<lambda>v. bindM (wr E SIM_ICR SIM_ICR_OK) (\<lambda>_. retM (Some (ucast v)))))"

definition sim_supply_set :: "'h env \<Rightarrow> bool \<Rightarrow> (('h, 'z) watched_scheme, bool) cmd" where
  "sim_supply_set E enabled = (case pmic E of
     PMIC_PMB6812 \<Rightarrow>
       bindM (i2c_smbus_read_byte E PMB6812_I2C_ADDR PMB6812_PWCTRL5) (\<lambda>(ok, bs).
       if \<not> ok then retM False else
       let control = hd bs AND NOT PMB6812_PWCTRL5_LSIMMD;
           control = control OR (if enabled then PMB6812_PWCTRL5_LSIMMD_ON else PMB6812_PWCTRL5_LSIMMD_OFF)
       in pmb681x_reg_write E PMB6812_PWCTRL5 control)
   | PMIC_D1094XX \<Rightarrow>
       bindM (i2c_smbus_read_byte E PASIC_I2C_ADDR PASIC_SUPPLY_ENABLE_1) (\<lambda>(ok, bs).
       if \<not> ok then retM False else
       let supply_enable = (if enabled then hd bs OR PASIC_SUPPLY_ENABLE_1_VAUDREGA_EN
                            else hd bs AND NOT PASIC_SUPPLY_ENABLE_1_VAUDREGA_EN)
       in i2c_smbus_write_byte E PASIC_I2C_ADDR PASIC_SUPPLY_ENABLE_1 supply_enable)
   | PMIC_none \<Rightarrow> retM True)"

definition sim_power_off :: "'h env \<Rightarrow> (('h, 'z) watched_scheme, unit) cmd" where
  "sim_power_off E =
     seqM [wr E SIM_CON 0,
           wr E SIM_IRQEN 0,
           wr E SIM_ICR SIM_IRQ_MASK,
           i2c_init E,
           mapM (\<lambda>_. ()) (sim_supply_set E False)]"

text \<open>The loop that receives the answer to reset; \<open>got\<close> are the bytes stored, \<open>n\<close> more fit.\<close>

primrec atr_loop :: "nat \<Rightarrow> 'h env \<Rightarrow> u8 list \<Rightarrow> (('h, 'z) watched_scheme, u8 list) cmd" where
  "atr_loop 0 E got = retM got"
| "atr_loop (Suc n) E got =
     (let timeout_ms = (if length got = 0 then SIM_FIRST_ATR_TIMEOUT_MS else SIM_NEXT_ATR_TIMEOUT_MS) in
      bindM (sim_receive_byte E timeout_ms) (\<lambda>b. case b of
        None \<Rightarrow> retM got
      | Some v \<Rightarrow> atr_loop n E (got @ [v])))"

definition sim_power_on :: "'h env \<Rightarrow> (('h, 'z) watched_scheme, u8 list) cmd" where
  "sim_power_on E =
     bindM (seqM [sim_power_off E,
           wr E SIM_BRF SIM_DEFAULT_BRF,
           wr E SIM_IRQEN (SIM_IRQEN_ENOKINT OR SIM_IRQEN_ENPAR OR SIM_IRQEN_ENOVR),
           wr E SIM_IMSC 0,
           wr E SIM_ICR SIM_IRQ_MASK,
           wr E SIM_CON SIM_CON_SIMEN]) (\<lambda>_.
     bindM (sim_supply_set E True) (\<lambda>ok.
     if \<not> ok then retM [] else
     bindM (seqM [delay_ms E SIM_SUPPLY_SETTLE_MS,
           rmw E SIM_CON (\<lambda>v. v OR SIM_CON_SIMVCC),
           rmw E SIM_CON (\<lambda>v. v OR (SIM_CON_SIMIOL OR SIM_CON_ERROFF)),
           rmw E SIM_CON (\<lambda>v. v OR SIM_CON_SIMON),
           delay_ms E SIM_CLOCK_SETTLE_MS,
           rmw E SIM_CON (\<lambda>v. v OR SIM_CON_UARTON),
           delay_ms E SIM_UART_SETTLE_MS,
           rmw E SIM_CON (\<lambda>v. v OR SIM_CON_SIMRST)]) (\<lambda>_.
     atr_loop SIM_MAX_ATR_SIZE E [])))"

primrec procedure_loop :: "nat \<Rightarrow> 'h env \<Rightarrow> (('h, 'z) watched_scheme, u8 option) cmd" where
  "procedure_loop 0 E = failM Out_Of_Fuel"
| "procedure_loop (Suc n) E =
     bindM (sim_receive_byte E SIM_RESPONSE_TIMEOUT_MS) (\<lambda>b. case b of
       None \<Rightarrow> retM None
     | Some v \<Rightarrow> if v = SIM_NULL_BYTE then procedure_loop n E else retM (Some v))"

definition sim_receive_procedure :: "'h env \<Rightarrow> (('h, 'z) watched_scheme, u8 option) cmd" where
  "sim_receive_procedure E = procedure_loop (fuel E) E"

definition sim_header_to_data_size :: "u8 list \<Rightarrow> nat" where
  "sim_header_to_data_size hdr = (if hdr ! SIM_HEADER_P3 \<noteq> 0 then unat (hdr ! SIM_HEADER_P3) else SIM_MAX_DATA_SIZE)"

text \<open>The response buffer of \<^verbatim>\<open>host_handle_xfr_block\<close>.\<close>

definition put_response :: "u8 list \<Rightarrow> u8 \<Rightarrow> fault + u8 list" where
  "put_response response v =
     (if length response < SIM_MAX_DATA_SIZE + SIM_STATUS_SIZE then Inr (response @ [v]) else Inl Out_Of_Bounds)"

definition receive_into :: "'h env \<Rightarrow> u8 list \<Rightarrow> (('h, 'z) watched_scheme, u8 list option) cmd" where
  "receive_into E response =
     bindM (sim_receive_byte E SIM_RESPONSE_TIMEOUT_MS) (\<lambda>b. case b of
       None \<Rightarrow> retM None
     | Some v \<Rightarrow> mapM Some (liftE (put_response response v)))"

primrec send_all :: "'h env \<Rightarrow> u8 list \<Rightarrow> (('h, 'z) watched_scheme, bool) cmd" where
  "send_all E [] = retM True"
| "send_all E (b # bs) = bindM (sim_send_byte E b) (\<lambda>ok. if \<not> ok then retM False else send_all E bs)"

text \<open>
  The inner loop of \<^verbatim>\<open>sim_exchange_tpdu\<close>: \<open>n\<close> more bytes, sent from \<open>tx_data\<close> or received; the value is
  \<open>None\<close> for the result false, otherwise \<^verbatim>\<open>transferred\<close> and the response.
\<close>

primrec chunk_loop ::
  "nat \<Rightarrow> 'h env \<Rightarrow> u8 list option \<Rightarrow> nat \<Rightarrow> u8 list \<Rightarrow> (('h, 'z) watched_scheme, (nat \<times> u8 list) option) cmd" where
  "chunk_loop 0 E tx_data transferred response = retM (Some (transferred, response))"
| "chunk_loop (Suc n) E tx_data transferred response = (case tx_data of
     Some bytes \<Rightarrow>
       bindM (liftE (fetch bytes transferred)) (\<lambda>v.
       bindM (sim_send_byte E v) (\<lambda>ok.
       if \<not> ok then retM None else chunk_loop n E tx_data (transferred + 1) response))
   | None \<Rightarrow>
       bindM (receive_into E response) (\<lambda>r. case r of
         None \<Rightarrow> retM None
       | Some response \<Rightarrow> chunk_loop n E tx_data (transferred + 1) response))"

primrec exchange_loop ::
  "nat \<Rightarrow> 'h env \<Rightarrow> u8 \<Rightarrow> u8 list option \<Rightarrow> nat \<Rightarrow> nat \<Rightarrow> u8 list \<Rightarrow> (('h, 'z) watched_scheme, u8 list option) cmd" where
  "exchange_loop 0 E ins tx_data sz transferred response = failM Out_Of_Fuel"
| "exchange_loop (Suc n) E ins tx_data sz transferred response =
     bindM (sim_receive_procedure E) (\<lambda>p. case p of
       None \<Rightarrow> retM None
     | Some procedure \<Rightarrow>
         if procedure = ins \<or> procedure = NOT ins then
           let chunk = (if procedure = ins then sub32 sz transferred else if transferred < sz then 1 else 0) in
           bindM (chunk_loop chunk E tx_data transferred response) (\<lambda>r. case r of
             None \<Rightarrow> retM None
           | Some (transferred, response) \<Rightarrow> exchange_loop n E ins tx_data sz transferred response)
         else
           bindM (liftE (put_response response procedure)) (\<lambda>response. receive_into E response))"

definition sim_exchange_tpdu :: "'h env \<Rightarrow> u8 list \<Rightarrow> (('h, 'z) watched_scheme, u8 list option) cmd" where
  "sim_exchange_tpdu E tpdu =
     bindM (liftE (fetch tpdu SIM_HEADER_INS)) (\<lambda>ins.
     let tx_data = (if length tpdu > SIM_HEADER_SIZE then Some (drop SIM_HEADER_SIZE tpdu) else None);
         sz = (if tx_data \<noteq> None then length tpdu - SIM_HEADER_SIZE else sim_header_to_data_size tpdu) in
     bindM (delay_ms E SIM_TURNAROUND_MS) (\<lambda>_.
     bindM (send_all E (take SIM_HEADER_SIZE tpdu)) (\<lambda>ok.
     if \<not> ok then retM None else exchange_loop (fuel E) E ins tx_data sz 0 [])))"

primrec receive_all :: "nat \<Rightarrow> 'h env \<Rightarrow> u8 list \<Rightarrow> (('h, 'z) watched_scheme, u8 list option) cmd" where
  "receive_all 0 E response = retM (Some response)"
| "receive_all (Suc n) E response =
     bindM (receive_into E response) (\<lambda>r. case r of None \<Rightarrow> retM None | Some response \<Rightarrow> receive_all n E response)"

definition sim_exchange_pps :: "'h env \<Rightarrow> u8 list \<Rightarrow> (('h, 'z) watched_scheme, u8 list option) cmd" where
  "sim_exchange_pps E request =
     bindM (delay_ms E SIM_TURNAROUND_MS) (\<lambda>_.
     bindM (send_all E request) (\<lambda>ok.
     if \<not> ok then retM None else receive_all (length request) E []))"

definition sim_fidi_to_brf :: "u8 \<Rightarrow> u32" where
  "sim_fidi_to_brf fidi =
     (let divisor = DI_DIVISORS ! unat (fidi AND SIM_FIDI_DI_MASK) in
      if divisor = 0 then 0
      else FI_CLOCKS_PER_ETU ! unat (drop_bit SIM_FIDI_FI_SHIFT fidi) div divisor div SIM_CLOCKS_PER_BRF_ETU)"

subsection \<open>The host\<close>

definition host_read_byte :: "'h env \<Rightarrow> (('h, 'z) watched_scheme, u8) cmd" where
  "host_read_byte E =
     bindM (whileM (fuel E) (mapM (\<lambda>level. level = 0) (usart_get_rx_fifo_level E USART0)) (wdt_serve E)) (\<lambda>_.
     usart_getc E USART0)"

definition lrc_of :: "u8 \<Rightarrow> u8 list \<Rightarrow> u8" where
  "lrc_of lrc bs = fold (\<lambda>b lrc. lrc XOR b) bs lrc"

definition host_write_frame :: "'h env \<Rightarrow> u8 list \<Rightarrow> u8 list \<Rightarrow> (('h, 'z) machine_scheme, unit) cmd" where
  "host_write_frame E hdr bs =
     (let lrc = SERIAL_SYNC XOR SERIAL_ACK; lrc = lrc_of lrc (take CCID_HEADER_SIZE hdr); lrc = lrc_of lrc bs in
      seqM [usart_putc E USART0 SERIAL_SYNC,
            usart_putc E USART0 SERIAL_ACK,
            usart_write E USART0 (take CCID_HEADER_SIZE hdr),
            usart_write E USART0 bs,
            usart_putc E USART0 lrc])"

definition host_write_nak :: "'h env \<Rightarrow> (('h, 'z) machine_scheme, unit) cmd" where
  "host_write_nak E =
     seqM [usart_putc E USART0 SERIAL_SYNC,
           usart_putc E USART0 SERIAL_NAK,
           usart_putc E USART0 (SERIAL_SYNC XOR SERIAL_NAK)]"

primrec read_bytes :: "nat \<Rightarrow> 'h env \<Rightarrow> (('h, 'z) watched_scheme, u8 list) cmd" where
  "read_bytes 0 E = retM []"
| "read_bytes (Suc n) E = bindM (host_read_byte E) (\<lambda>b. bindM (read_bytes n E) (\<lambda>bs. retM (b # bs)))"

text \<open>The message read; \<open>None\<close> is the result false.\<close>

definition host_read_message :: "'h env \<Rightarrow> (('h, 'z) watched_scheme, ccid_message option) cmd" where
  "host_read_message E =
     bindM (whileM (fuel E) (mapM (\<lambda>b. b \<noteq> SERIAL_SYNC) (host_read_byte E)) (retM ())) (\<lambda>_.
     bindM (host_read_byte E) (\<lambda>b.
     if b \<noteq> SERIAL_ACK then retM None else
     bindM (read_bytes CCID_HEADER_SIZE E) (\<lambda>hdr.
     let lrc = lrc_of (SERIAL_SYNC XOR SERIAL_ACK) hdr;
         sz = le_word (take 4 (drop CCID_OFFSET_LENGTH hdr)) in
     if unat sz > CCID_MAX_DATA_SIZE then retM None else
     bindM (read_bytes (unat sz) E) (\<lambda>bs.
     let lrc = lrc_of lrc bs in
     bindM (host_read_byte E) (\<lambda>b.
     retM (if b = lrc then Some \<lparr>header = hdr, data = bs\<rparr> else None))))))"

definition host_echo_message :: "'h env \<Rightarrow> ccid_message \<Rightarrow> (('h, 'z) machine_scheme, unit) cmd" where
  "host_echo_message E m = host_write_frame E (header m) (data m)"

definition host_reply ::
  "'h env \<Rightarrow> ccid_message \<Rightarrow> u8 \<Rightarrow> bool \<Rightarrow> u8 \<Rightarrow> u8 \<Rightarrow> u8 list \<Rightarrow> (('h, 'z) reader_scheme, unit) cmd" where
  "host_reply E request type failed error specific bs =
     bindM (getM icc_active) (\<lambda>active.
     let status = (if active then CCID_ICC_ACTIVE else CCID_ICC_INACTIVE);
         hdr = [type, of_nat (length bs), of_nat (length bs div 256), 0, 0,
                header request ! CCID_OFFSET_SLOT, header request ! CCID_OFFSET_SEQ,
                if failed then status OR CCID_COMMAND_FAILED else status, error, specific]
     in host_write_frame E hdr bs)"

definition host_reply_slot_status :: "'h env \<Rightarrow> ccid_message \<Rightarrow> bool \<Rightarrow> u8 \<Rightarrow> (('h, 'z) reader_scheme, unit) cmd" where
  "host_reply_slot_status E request failed error = host_reply E request RDR_TO_PC_SLOT_STATUS failed error 0 []"

definition host_reply_parameters :: "'h env \<Rightarrow> ccid_message \<Rightarrow> bool \<Rightarrow> u8 \<Rightarrow> (('h, 'z) reader_scheme, unit) cmd" where
  "host_reply_parameters E request failed error =
     bindM (getM t0_parameters) (\<lambda>ps. host_reply E request RDR_TO_PC_PARAMETERS failed error 0 ps)"

definition t0_parameters_reset :: "'h env \<Rightarrow> (('h, 'z) reader_scheme, unit) cmd" where
  "t0_parameters_reset E =
     seqM [modM (\<lambda>s. s\<lparr>t0_parameters := DEFAULT_T0_PARAMETERS\<rparr>), wr E SIM_BRF SIM_DEFAULT_BRF]"

definition host_handle_power_on :: "'h env \<Rightarrow> ccid_message \<Rightarrow> (('h, 'z) reader_scheme, unit) cmd" where
  "host_handle_power_on E request =
     bindM (t0_parameters_reset E) (\<lambda>_.
     bindM (sim_power_on E) (\<lambda>atr.
     bindM (modM (\<lambda>s. s\<lparr>icc_active := length atr \<noteq> 0\<rparr>)) (\<lambda>_.
     bindM (getM icc_active) (\<lambda>active.
     if \<not> active then host_reply E request RDR_TO_PC_DATA_BLOCK True CCID_ERROR_ICC_MUTE 0 []
     else host_reply E request RDR_TO_PC_DATA_BLOCK False 0 0 atr))))"

definition host_handle_power_off :: "'h env \<Rightarrow> ccid_message \<Rightarrow> (('h, 'z) reader_scheme, unit) cmd" where
  "host_handle_power_off E request =
     seqM [sim_power_off E, modM (\<lambda>s. s\<lparr>icc_active := False\<rparr>), host_reply_slot_status E request False 0]"

definition host_handle_xfr_block :: "'h env \<Rightarrow> ccid_message \<Rightarrow> (('h, 'z) reader_scheme, unit) cmd" where
  "host_handle_xfr_block E request =
     (let is_pps = (length (data request) \<noteq> 0 \<and> data request ! 0 = SIM_PPSS) in
      bindM (getM icc_active) (\<lambda>active.
      if \<not> active \<or> \<not> is_pps \<and> length (data request) < SIM_HEADER_SIZE
      then host_reply E request RDR_TO_PC_DATA_BLOCK True CCID_ERROR_HW_ERROR 0 []
      else
        bindM (if is_pps then sim_exchange_pps E (data request) else sim_exchange_tpdu E (data request)) (\<lambda>r. case r of
          None \<Rightarrow> host_reply E request RDR_TO_PC_DATA_BLOCK True CCID_ERROR_ICC_MUTE 0 []
        | Some response \<Rightarrow> host_reply E request RDR_TO_PC_DATA_BLOCK False 0 0 response)))"

definition host_handle_set_parameters :: "'h env \<Rightarrow> ccid_message \<Rightarrow> (('h, 'z) reader_scheme, unit) cmd" where
  "host_handle_set_parameters E request =
     (let is_t0 = (header request ! CCID_OFFSET_PROTOCOL = 0 \<and> length (data request) = CCID_T0_PARAMETERS_SIZE);
          brf = (if is_t0 then sim_fidi_to_brf (data request ! CCID_T0_FIDI) else 0) in
      if brf = 0 then host_reply_parameters E request True CCID_ERROR_BAD_FIDI
      else seqM [modM (\<lambda>s. s\<lparr>t0_parameters := take CCID_T0_PARAMETERS_SIZE (data request)\<rparr>),
                 wr E SIM_BRF brf,
                 host_reply_parameters E request False 0])"

definition phone_power_off :: "'h env \<Rightarrow> (('h, 'z) watched_scheme, unit) cmd" where
  "phone_power_off E =
     seqM [sim_power_off E,
           if pmic E = PMIC_D1094XX then
             bindM (i2c_smbus_read_byte E PASIC_I2C_ADDR PASIC_POWER) (\<lambda>(ok, bs).
             whenM ok (mapM (\<lambda>_. ()) (i2c_smbus_write_byte E PASIC_I2C_ADDR PASIC_POWER (hd bs OR PASIC_POWER_POWEROFF))))
           else retM (),
           failM Spin]"

definition host_handle_escape :: "'h env \<Rightarrow> ccid_message \<Rightarrow> (('h, 'z) reader_scheme, unit) cmd" where
  "host_handle_escape E request =
     (let command = (if length (data request) \<noteq> 0 then data request ! 0 else 0) in
      if command = ESCAPE_GET_FIRMWARE then host_reply E request RDR_TO_PC_ESCAPE False 0 0 (str FIRMWARE)
      else
        bindM (host_reply E request RDR_TO_PC_ESCAPE False 0 0 []) (\<lambda>_.
        whenM (command = ESCAPE_POWER_OFF) (seqM [usart_flush E USART0, phone_power_off E])))"

definition host_handle_message :: "'h env \<Rightarrow> ccid_message \<Rightarrow> (('h, 'z) reader_scheme, unit) cmd" where
  "host_handle_message E request =
     (let type = header request ! CCID_OFFSET_TYPE in
      if type = PC_TO_RDR_ICC_POWER_ON then host_handle_power_on E request
      else if type = PC_TO_RDR_ICC_POWER_OFF then host_handle_power_off E request
      else if type = PC_TO_RDR_GET_SLOT_STATUS then host_reply_slot_status E request False 0
      else if type = PC_TO_RDR_XFR_BLOCK then host_handle_xfr_block E request
      else if type = PC_TO_RDR_GET_PARAMETERS then host_reply_parameters E request False 0
      else if type = PC_TO_RDR_RESET_PARAMETERS then
        seqM [t0_parameters_reset E, host_reply_parameters E request False 0]
      else if type = PC_TO_RDR_SET_PARAMETERS then host_handle_set_parameters E request
      else if type = PC_TO_RDR_ESCAPE then host_handle_escape E request
      else host_reply_slot_status E request True CCID_ERROR_CMD_NOT_SUPPORTED)"

text \<open>One round of the loop of \<^verbatim>\<open>main\<close>, and \<^verbatim>\<open>main\<close> as its initialisation, followed by a bounded number of rounds.\<close>

definition reader_round :: "'h env \<Rightarrow> (('h, 'z) reader_scheme, unit) cmd" where
  "reader_round E =
     bindM (host_read_message E) (\<lambda>r. case r of
       None \<Rightarrow> host_write_nak E
     | Some request \<Rightarrow> seqM [host_echo_message E request, host_handle_message E request])"

primrec reader_loop :: "nat \<Rightarrow> 'h env \<Rightarrow> (('h, 'z) reader_scheme, unit) cmd" where
  "reader_loop 0 E = failM Out_Of_Fuel"
| "reader_loop (Suc n) E = bindM (reader_round E) (\<lambda>_. reader_loop n E)"

definition reader_start :: "'h env \<Rightarrow> formatter \<Rightarrow> (('h, 'z) reader_scheme, unit) cmd" where
  "reader_start E F =
     seqM [wdt_init E,
           wr E SIM_CLC (push_bit MOD_CLC_RMC_SHIFT SIM_RMC),
           t0_parameters_reset E,
           printf E F ''SIM reader ready\<newline>'' [],
           usart_putc E USART0 0,
           usart_flush E USART0,
           usart_set_speed E USART0 HOST_SPEED,
           rmw E (USART_CON USART0) (\<lambda>v. (v AND NOT USART_CON_STP) OR USART_CON_STP_TWO)]"

definition reader_main :: "'h env \<Rightarrow> formatter \<Rightarrow> (('h, 'z) reader_scheme, unit) cmd" where
  "reader_main E F = bindM (reader_start E F) (\<lambda>_. reader_loop (fuel E) E)"

section \<open>Commands that leave the line and the bit rate alone\<close>

text \<open>
  \<open>still tr\<close>: nothing was received from or sent to the host, and the bit rate of the card was not set. The
  drivers below the reader are still.
\<close>

definition still :: "access list \<Rightarrow> bool" where
  "still tr \<longleftrightarrow> quiet tr \<and> written SIM_BRF tr = []"

lemma still_simps [simp]: "still []" "still (xs @ ys) \<longleftrightarrow> still xs \<and> still ys"
  by (auto simp: still_def)

lemma still_outside: "outside USART0 tr \<Longrightarrow> outside SIM_CLC tr \<Longrightarrow> still tr"
proof (induction tr)
  case (Cons x tr)
  then show ?case by (cases x) (auto simp: still_def quiet_def rxb_def txb_def in_block_def)
qed simp

lemma wdt_outside_sim: "wdt_outside SIM_CLC"
  by (simp add: wdt_outside_def in_block_def)

context watched_observer
begin

abbreviation calm :: "(('h, 'z) watched_scheme, 'a) cmd \<Rightarrow> bool" where
  "calm c \<equiv> does obs c (\<lambda>_ tr a b. still tr \<and> b = a)"

lemma calm_bind:
  assumes "calm c" and "\<And>x. calm (f x)"
  shows "calm (bindM c f)"
  by (rule does_bind [OF assms(1)], rule does_mono [OF assms(2)]) simp

lemma calm_simple: "calm (retM x)" "calm (getM f)" "calm (liftE m)" "calm (failM e)"
  by (simp_all add: does_ret does_get does_liftE does_fail)

lemma calm_seq: "calm (seqM [])" "calm c \<Longrightarrow> calm (seqM cs) \<Longrightarrow> calm (seqM (c # cs))"
  by (auto intro: calm_bind calm_simple)

lemma calm_if: "calm c \<Longrightarrow> calm d \<Longrightarrow> calm (if b then c else d)"
  by simp

lemma calm_map: "calm c \<Longrightarrow> calm (mapM f c)"
  by (simp add: does_map)

lemma calm_when: "calm c \<Longrightarrow> calm (whenM b c)"
  by (simp add: whenM_def calm_simple)

lemma calm_while: "calm cond \<Longrightarrow> calm body \<Longrightarrow> calm (whileM n cond body)"
  by (induction n) (auto intro!: calm_bind calm_simple)

lemma calm_prod: "(\<And>x y. calm (f x y)) \<Longrightarrow> calm (case p of (x, y) \<Rightarrow> f x y)"
  by (cases p) simp

lemma calm_option: "calm c \<Longrightarrow> (\<And>x. calm (f x)) \<Longrightarrow> calm (case v of None \<Rightarrow> c | Some x \<Rightarrow> f x)"
  by (cases v) simp_all

lemma calm_read: "a \<noteq> USART_RXB USART0 \<Longrightarrow> calm (mmio_read w E a)"
  by (rule does_mono [OF does_logs [OF logs_read [where P = "\<lambda>v tr. tr = [Rd w a v]"]]])
     (auto simp: still_def quiet_def rxb_def txb_def)

lemma calm_write: "a \<noteq> USART_TXB USART0 \<Longrightarrow> a \<noteq> SIM_BRF \<Longrightarrow> calm (mmio_write w E a v)"
  by (rule does_mono [OF does_logs [OF logs_write [where P = "\<lambda>_ tr. tr = [Wr w a (trunc w v)]"]]])
     (auto simp: still_def quiet_def rxb_def txb_def)

lemma calm_wdt_serve: "calm (wdt_serve E)"
  using does_conj [OF does_conj [OF does_talks [OF talks_wdt_serve [OF wdt_outside_usart0]]
    does_talks [OF talks_wdt_serve [OF wdt_outside_sim]]] same_wdt_serve]
  by (rule does_mono) (auto intro: still_outside)

lemmas calm_intros = calm_bind calm_seq calm_if calm_map calm_when calm_while calm_prod calm_option calm_read calm_write
  calm_simple calm_wdt_serve

lemma calm_elapsed: "calm (stopwatch_elapsed_ms E start)" and calm_now: "calm (stopwatch_get E)"
  unfolding stopwatch_elapsed_ms_def stopwatch_scaled_def stopwatch_elapsed_def stopwatch_get_def
  by (intro calm_intros; simp)+

subsection \<open>The I2C drivers\<close>

lemma calm_v2_status: "calm (status_clear E)"
  unfolding status_clear_def by (intro calm_intros) simp_all

lemma calm_v2_failed: "calm (transfer_failed E p)"
  unfolding transfer_failed_def by (intro calm_intros) simp_all

lemma calm_v2_waits: "calm (abort_wait n E)" "calm (request_wait n E)" "calm (transfer_wait_v2 n E)"
  by (induction n; simp only: abort_wait.simps request_wait.simps transfer_wait_v2.simps;
      intro calm_intros calm_v2_failed; simp)+

lemma calm_v2_abort: "calm (transfer_abort E)"
  unfolding transfer_abort_def by (intro calm_intros calm_v2_waits calm_v2_status) simp_all

lemma calm_v2_write_loop: "calm (write_loop E address n ts)"
proof (induction n arbitrary: ts rule: less_induct)
  case (less n)
  show ?case
  proof (cases "n = 0")
    case True
    then show ?thesis
      by (subst write_loop.simps, simp only: if_True, intro calm_intros calm_v2_waits calm_v2_status calm_v2_abort)
  next
    case False
    then have "n - min n 4 < n" by simp
    then show ?thesis
      using False by (subst write_loop.simps, simp only: if_False Let_def,
        intro calm_intros calm_v2_waits calm_v2_abort less.IH) simp_all
  qed
qed

lemma calm_v2_read_loop: "calm (read_loop k E n r m got)"
  by (induction k arbitrary: r m got; simp only: read_loop.simps Let_def; intro calm_intros calm_v2_failed; simp)

lemma calm_v2: "calm (i2c_hw_write_v2 E address pre bs)" "calm (i2c_hw_read_v2 E address n)" "calm (i2c_hw_init_v2 E)"
  unfolding i2c_hw_write_v2_def i2c_hw_read_v2_def i2c_hw_init_v2_def Let_def
  by (intro calm_intros calm_v2_write_loop calm_v2_read_loop calm_v2_waits calm_v2_status calm_v2_abort; simp)+

lemma calm_v1_buffers: "calm (write_buffer E t v k)" "calm (read_buffer E t)" "calm (buffer_size_set E m)" "calm (transfer_stop E)"
  unfolding write_buffer_def read_buffer_def buffer_size_set_def transfer_stop_def rmw_def field_def Let_def
  by (intro calm_intros; simp)+

lemma calm_v1_request: "calm (data_request E reading t)"
  unfolding data_request_def by (intro calm_intros calm_v1_buffers) simp_all

lemma calm_v1_wait: "calm (transfer_wait_loop n E start reading t)"
  by (induction n arbitrary: t; simp only: transfer_wait_loop.simps Let_def;
      intro calm_intros calm_elapsed calm_v1_buffers calm_v1_request; simp)

lemma calm_v1: "calm (i2c_hw_write_v1 E address pre bs)" "calm (i2c_hw_read_v1 E address n)" "calm (i2c_hw_init_v1 E)"
  unfolding i2c_hw_write_v1_def i2c_hw_read_v1_def i2c_hw_init_v1_def transfer_wait_v1_def Let_def
  by (intro calm_intros calm_v1_buffers calm_v1_wait calm_now; simp)+

lemma calm_i2c: "calm (i2c_hw_write E address pre bs)" "calm (i2c_hw_read E address n)" "calm (i2c_hw_init E)"
  unfolding i2c_hw_write_def i2c_hw_read_def i2c_hw_init_def
  by (cases "cpu E"; simp add: calm_v1 calm_v2)+

lemma calm_smbus:
  "calm (i2c_smbus_read_byte E address reg)" "calm (i2c_smbus_write_byte E address reg v)" "calm (pmb681x_reg_write E reg v)"
  "calm (i2c_init E)"
  unfolding i2c_smbus_read_byte_def i2c_smbus_read_def i2c_smbus_write_byte_def i2c_smbus_write_def pmb681x_reg_write_def
    i2c_smbus_write_pec_def i2c_read_def i2c_init_def Let_def
  by (intro calm_intros calm_i2c; simp)+

end

subsection \<open>The card interface\<close>

context watched_observer
begin

lemma calm_delay: "calm (delay_ms E ms)"
  unfolding delay_ms_def by (intro calm_intros calm_now calm_elapsed)

lemma calm_wait: "calm (sim_wait_loop n E start timeout)"
  by (induction n; simp only: sim_wait_loop.simps; intro calm_intros calm_elapsed; simp)

lemma calm_bytes: "calm (sim_send_byte E v)" "calm (sim_receive_byte E timeout)"
  unfolding sim_send_byte_def sim_receive_byte_def sim_wait_ok_def
  by (intro calm_intros calm_now calm_wait; simp)+

lemma calm_supply: "calm (sim_supply_set E b)"
  unfolding sim_supply_set_def Let_def by (cases "pmic E"; simp only: pmic_model.case; intro calm_intros calm_smbus)

lemma calm_power_off: "calm (sim_power_off E)"
  unfolding sim_power_off_def by (intro calm_intros calm_supply calm_smbus) simp_all

lemma calm_atr: "calm (atr_loop n E got)"
  by (induction n arbitrary: got; simp only: atr_loop.simps Let_def; intro calm_intros calm_bytes)

lemma calm_procedure: "calm (procedure_loop n E)"
  by (induction n; simp only: procedure_loop.simps; intro calm_intros calm_bytes)

lemma calm_into: "calm (receive_into E r)"
  unfolding receive_into_def by (intro calm_intros calm_bytes)

lemma calm_send_all: "calm (send_all E bs)"
  by (induction bs; simp only: send_all.simps; intro calm_intros calm_bytes)

lemma calm_chunk: "calm (chunk_loop n E ts k r)"
  by (induction n arbitrary: k r; cases ts; simp only: chunk_loop.simps option.case; intro calm_intros calm_bytes calm_into)

lemma calm_exchange: "calm (exchange_loop n E ins ts sz k r)"
  by (induction n arbitrary: k r; simp only: exchange_loop.simps Let_def sim_receive_procedure_def;
      intro calm_intros calm_procedure calm_chunk calm_into)

lemma calm_receive_all: "calm (receive_all n E r)"
  by (induction n arbitrary: r; simp only: receive_all.simps; intro calm_intros calm_into)

lemma calm_exchanges: "calm (sim_exchange_tpdu E tpdu)" "calm (sim_exchange_pps E request)"
  unfolding sim_exchange_tpdu_def sim_exchange_pps_def Let_def
  by (intro calm_intros calm_delay calm_send_all calm_exchange calm_receive_all)+

text \<open>Only the start of the card sets the bit rate, to the default.\<close>

lemma does_power_on: "does obs (sim_power_on E) (\<lambda>_ tr a b. quiet tr \<and> written SIM_BRF tr = [SIM_DEFAULT_BRF] \<and> b = a)"
proof -
  have brf: "does obs (wr E SIM_BRF SIM_DEFAULT_BRF) (\<lambda>_ tr a b. quiet tr \<and> written SIM_BRF tr = [SIM_DEFAULT_BRF] \<and> b = a)"
    by (rule does_mono [OF does_logs [OF logs_write [where P = "\<lambda>_ tr. tr = [Wr W32 SIM_BRF SIM_DEFAULT_BRF]"]]])
       (auto simp: quiet_def rxb_def txb_def)
  have rest: "calm (bindM (seqM [wr E SIM_IRQEN (SIM_IRQEN_ENOKINT OR SIM_IRQEN_ENPAR OR SIM_IRQEN_ENOVR),
           wr E SIM_IMSC 0, wr E SIM_ICR SIM_IRQ_MASK, wr E SIM_CON SIM_CON_SIMEN]) (\<lambda>_.
     bindM (sim_supply_set E True) (\<lambda>ok.
     if \<not> ok then retM [] else
     bindM (seqM [delay_ms E SIM_SUPPLY_SETTLE_MS,
           rmw E SIM_CON (\<lambda>v. v OR SIM_CON_SIMVCC),
           rmw E SIM_CON (\<lambda>v. v OR (SIM_CON_SIMIOL OR SIM_CON_ERROFF)),
           rmw E SIM_CON (\<lambda>v. v OR SIM_CON_SIMON),
           delay_ms E SIM_CLOCK_SETTLE_MS,
           rmw E SIM_CON (\<lambda>v. v OR SIM_CON_UARTON),
           delay_ms E SIM_UART_SETTLE_MS,
           rmw E SIM_CON (\<lambda>v. v OR SIM_CON_SIMRST)]) (\<lambda>_.
     atr_loop SIM_MAX_ATR_SIZE E []))))"
    unfolding rmw_def by (intro calm_intros calm_supply calm_delay calm_atr) simp_all
  show ?thesis
    unfolding sim_power_on_def
    by (simp only: seqM.simps bindM_assoc bindM_ret, rule does_bind [OF calm_power_off], rule does_bind [OF brf],
        rule does_mono [OF rest [unfolded seqM.simps bindM_assoc bindM_ret]])
       (auto simp: still_def)
qed

end

section \<open>Lengths\<close>

text \<open>\<open>fits c Q\<close>: the command does not access an array out of its bounds, and its value satisfies \<open>Q\<close>.\<close>

definition fits :: "('s, 'a) cmd \<Rightarrow> ('a \<Rightarrow> bool) \<Rightarrow> bool" where
  "fits c Q \<longleftrightarrow> (\<forall>s. case c s of Inl e \<Rightarrow> e \<noteq> Out_Of_Bounds | Inr (x, t) \<Rightarrow> Q x)"

lemma fits_bind: "fits c P \<Longrightarrow> (\<And>x. P x \<Longrightarrow> fits (f x) Q) \<Longrightarrow> fits (bindM c f) Q"
  unfolding fits_def bindM_def by (fastforce split: sum.splits prod.splits)

lemma fits_mono: "fits c P \<Longrightarrow> (\<And>x. P x \<Longrightarrow> Q x) \<Longrightarrow> fits c Q"
  unfolding fits_def by (fastforce split: sum.splits prod.splits)

lemma fits_pure: "Q x \<Longrightarrow> fits (retM x) Q" "(\<And>s. Q (f s)) \<Longrightarrow> fits (getM f) Q" "e \<noteq> Out_Of_Bounds \<Longrightarrow> fits (failM e) Q"
  by (simp_all add: fits_def retM_def getM_def failM_def)

lemma fits_effect: "Q () \<Longrightarrow> fits (modM g) Q" "Q () \<Longrightarrow> fits (mmio_write w E a v) Q"
  by (simp_all add: fits_def modM_def mmio_write_def)

lemma fits_read: "(\<And>x. Q x) \<Longrightarrow> fits (mmio_read w E a) Q"
  by (simp add: fits_def mmio_read_def split: prod.splits)

lemmas fits_simple = fits_pure fits_effect fits_read

lemma fits_liftE: "okE m Q \<Longrightarrow> fits (liftE m) Q"
  by (cases m) (simp_all add: fits_def liftE_def)

lemma fits_div: "(\<And>x. Q x) \<Longrightarrow> fits (liftE (divE a b)) Q"
  by (simp add: fits_def liftE_def divE_def)

lemma fits_map: "fits c (\<lambda>x. Q (f x)) \<Longrightarrow> fits (mapM f c) Q"
  unfolding mapM_def by (erule fits_bind) (rule fits_simple)

lemma fits_if: "(b \<Longrightarrow> fits c Q) \<Longrightarrow> (\<not> b \<Longrightarrow> fits d Q) \<Longrightarrow> fits (if b then c else d) Q"
  by simp

lemma fits_option: "fits c Q \<Longrightarrow> (\<And>x. fits (f x) Q) \<Longrightarrow> fits (case v of None \<Rightarrow> c | Some x \<Rightarrow> f x) Q"
  by (cases v) simp_all

text \<open>Commands that access no array at all.\<close>

abbreviation plain :: "('s, 'a) cmd \<Rightarrow> bool" where
  "plain c \<equiv> fits c (\<lambda>_. True)"

lemma plain_bind: "plain c \<Longrightarrow> (\<And>x. plain (f x)) \<Longrightarrow> plain (bindM c f)"
  by (rule fits_bind)

lemma plain_seq: "plain (seqM [])" "plain c \<Longrightarrow> plain (seqM cs) \<Longrightarrow> plain (seqM (c # cs))"
  by (auto intro: plain_bind fits_simple)

lemma plain_while: "plain c \<Longrightarrow> plain d \<Longrightarrow> plain (whileM n c d)"
  by (induction n) (auto intro!: plain_bind fits_simple)

lemmas plain_intros = plain_bind plain_seq plain_while fits_map fits_if fits_simple fits_div TrueI

lemma plain_irq: "plain (cpu_enable_irq b)"
  unfolding cpu_enable_irq_def cpu_enable_irq_or_fiq_def msr_cpsr_c_def by (intro plain_intros)

lemma plain_now: "plain (stopwatch_get E)"
  unfolding stopwatch_get_def by (intro plain_intros)

lemma plain_elapsed: "plain (stopwatch_elapsed_ms E start)"
  unfolding stopwatch_elapsed_ms_def stopwatch_scaled_def stopwatch_elapsed_def by (intro plain_intros plain_now)

lemma plain_serve: "plain (wdt_serve E)"
  unfolding wdt_serve_def wdt_feed_def mark_served_def gpio_toggle_def gpio_get_def gpio_set_def rmw_def cpu_wdt_reload_def
    cpu_wdt_get_reload_def field_def cpu_wdt_password_access_def cpu_wdt_modify_access_def
  by (intro plain_intros plain_elapsed plain_now plain_irq)

lemma plain_delay: "plain (delay_ms E ms)"
  unfolding delay_ms_def by (intro plain_intros plain_now plain_elapsed plain_serve)

lemma plain_wait: "plain (sim_wait_loop n E start timeout)"
  by (induction n; simp only: sim_wait_loop.simps; intro plain_intros plain_elapsed plain_serve; simp)

lemma plain_bytes: "plain (sim_send_byte E v)" "plain (sim_receive_byte E timeout)"
  unfolding sim_send_byte_def sim_receive_byte_def sim_wait_ok_def by (intro plain_intros plain_now plain_wait)+

lemma plain_send_all: "plain (send_all E bs)"
  by (induction bs; simp only: send_all.simps; intro plain_intros plain_bytes)

lemma plain_procedure: "plain (sim_receive_procedure E)"
proof -
  have "plain (procedure_loop n E)" for n
  proof (induction n)
    case (Suc n)
    show ?case
      unfolding procedure_loop.simps by (rule plain_bind [OF plain_bytes(2)]) (auto split: option.splits intro!: fits_simple Suc)
  qed (simp add: fits_simple)
  then show ?thesis by (simp add: sim_receive_procedure_def)
qed

text \<open>The response grows by a byte at a time, and fits.\<close>

lemma fits_into: "length r < 258 \<Longrightarrow> fits (receive_into E r) (\<lambda>x. \<forall>bs. x = Some bs \<longrightarrow> length bs = length r + 1)"
  unfolding receive_into_def
  by (rule fits_bind [OF plain_bytes(2)])
     (auto simp: put_response_def split: option.splits intro!: fits_simple fits_map fits_liftE)

text \<open>\<open>paced ts sz k r\<close>: \<open>k\<close> of \<open>sz\<close> bytes have been transferred; received ones are in the response.\<close>

definition paced :: "u8 list option \<Rightarrow> nat \<Rightarrow> nat \<Rightarrow> u8 list \<Rightarrow> bool" where
  "paced ts sz k r \<longleftrightarrow> k \<le> sz \<and> sz \<le> SIM_MAX_DATA_SIZE \<and>
     (case ts of None \<Rightarrow> length r = k | Some bs \<Rightarrow> length bs = sz \<and> r = [])"

lemma fits_chunk:
  "paced ts sz k r \<Longrightarrow> k + n \<le> sz \<Longrightarrow>
   fits (chunk_loop n E ts k r :: (('h, 'z) watched_scheme, _) cmd) (\<lambda>x. \<forall>k' r'. x = Some (k', r') \<longrightarrow> paced ts sz k' r')"
proof (induction n arbitrary: k r)
  case 0
  then show ?case by (simp add: fits_simple)
next
  case (Suc n)
  show ?case
  proof (cases ts)
    case None
    then have l: "length r < 258" using Suc.prems by (simp add: paced_def)
    show ?thesis
      unfolding None chunk_loop.simps option.case
    proof (rule fits_bind [OF fits_into [OF l]])
      fix x :: "u8 list option" assume x: "\<forall>bs. x = Some bs \<longrightarrow> length bs = length r + 1"
      have "paced None sz (k + 1) bs" if "x = Some bs" for bs
        using x that Suc.prems None by (simp add: paced_def)
      then show "fits ((case x of None \<Rightarrow> retM None | Some response \<Rightarrow> chunk_loop n E None (k + 1) response) :: (('h, 'z) watched_scheme, _) cmd)
          (\<lambda>x. \<forall>k' r'. x = Some (k', r') \<longrightarrow> paced None sz k' r')"
        using Suc.IH [of "k + 1"] Suc.prems(2) None by (auto split: option.splits intro: fits_simple)
    qed
  next
    case (Some bs)
    have step: "paced (Some bs) sz (k + 1) r" "k < length bs" using Suc.prems Some by (simp_all add: paced_def)
    have f: "fits (liftE (fetch bs k)) (\<lambda>_. True)" using step(2) by (intro fits_liftE) (simp add: fetch_def)
    show ?thesis
      unfolding Some chunk_loop.simps option.case
      using Suc.IH [of "k + 1" r] Suc.prems(2) step(1) Some
      by (intro fits_bind [OF f] fits_bind [OF plain_bytes(1)] fits_if) (auto intro: fits_simple)
  qed
qed

lemma fits_exchange:
  "paced ts sz k r \<Longrightarrow> fits (exchange_loop n E ins ts sz k r :: (('h, 'z) watched_scheme, _) cmd) (\<lambda>x. \<forall>bs. x = Some bs \<longrightarrow> 2 \<le> length bs \<and> length bs \<le> 258)"
proof (induction n arbitrary: k r)
  case 0
  then show ?case by (simp add: fits_simple)
next
  case (Suc n)
  have l: "length r \<le> 256" "k \<le> sz" "sz < 2 ^ 32" using Suc.prems by (auto simp: paced_def split: option.splits)
  have chunk: "k + (if p = ins then sub32 sz k else if k < sz then 1 else 0) \<le> sz" for p
    using l sub32_exact [of k sz] by simp
  have status: "fits (bindM (liftE (put_response r p)) (receive_into E) :: (('h, 'z) watched_scheme, _) cmd) (\<lambda>x. \<forall>bs. x = Some bs \<longrightarrow> 2 \<le> length bs \<and> length bs \<le> 258)" for p
    using l(1)
    by (intro fits_bind [where P = "\<lambda>r'. length r' = length r + 1"] fits_liftE)
       (auto simp: put_response_def intro!: fits_mono [OF fits_into])
  have more: "fits ((case x of None \<Rightarrow> retM None | Some (k, r) \<Rightarrow> exchange_loop n E ins ts sz k r) :: (('h, 'z) watched_scheme, _) cmd)
      (\<lambda>x. \<forall>bs. x = Some bs \<longrightarrow> 2 \<le> length bs \<and> length bs \<le> 258)"
    if "\<forall>k r. x = Some (k, r) \<longrightarrow> paced ts sz k r" for x
    using that Suc.IH by (auto split: option.splits intro: fits_simple)
  show ?case
    unfolding exchange_loop.simps Let_def
    by (rule fits_bind [OF plain_procedure],
        intro fits_option fits_if status fits_bind [OF fits_chunk [OF Suc.prems chunk] more] fits_pure(1)) simp_all
qed

lemma fits_tpdu:
  assumes "SIM_HEADER_SIZE \<le> length tpdu" "length tpdu \<le> CCID_MAX_DATA_SIZE"
  shows "fits (sim_exchange_tpdu E tpdu) (\<lambda>x. \<forall>bs. x = Some bs \<longrightarrow> 2 \<le> length bs \<and> length bs \<le> 258)"
proof -
  let ?ts = "if length tpdu > SIM_HEADER_SIZE then Some (drop SIM_HEADER_SIZE tpdu) else None"
  let ?sz = "if ?ts \<noteq> None then length tpdu - SIM_HEADER_SIZE else sim_header_to_data_size tpdu"
  have "unat (tpdu ! SIM_HEADER_P3) < 256" using unsigned_less [of "tpdu ! SIM_HEADER_P3", where 'a = nat] by simp
  moreover have "length tpdu - SIM_HEADER_SIZE \<le> SIM_MAX_DATA_SIZE" using assms(2) by linarith
  ultimately have p: "paced ?ts ?sz 0 []" by (simp add: paced_def sim_header_to_data_size_def)
  have f: "fits (liftE (fetch tpdu SIM_HEADER_INS)) (\<lambda>_. True)" using assms by (intro fits_liftE) (simp add: fetch_def)
  show ?thesis
    unfolding sim_exchange_tpdu_def Let_def
    by (rule fits_bind [OF f], rule fits_bind [OF plain_delay], rule fits_bind [OF plain_send_all])
       (intro fits_if fits_pure(1) fits_exchange [OF p], simp)
qed

lemma fits_receive_all:
  "length r + n \<le> 258 \<Longrightarrow> fits (receive_all n E r :: (('h, 'z) watched_scheme, _) cmd) (\<lambda>x. \<forall>bs. x = Some bs \<longrightarrow> length bs = length r + n)"
proof (induction n arbitrary: r)
  case (Suc n)
  then have l: "length r < 258" by simp
  show ?case
    unfolding receive_all.simps
  proof (rule fits_bind [OF fits_into [OF l]])
    fix x :: "u8 list option" assume "\<forall>bs. x = Some bs \<longrightarrow> length bs = length r + 1"
    then show "fits ((case x of None \<Rightarrow> retM None | Some r \<Rightarrow> receive_all n E r) :: (('h, 'z) watched_scheme, _) cmd)
        (\<lambda>x. \<forall>bs. x = Some bs \<longrightarrow> length bs = length r + Suc n)"
      using Suc by (auto split: option.splits intro!: fits_pure(1) fits_mono [OF Suc.IH])
  qed
qed (simp add: fits_pure)

lemma fits_pps: "length request \<le> 258 \<Longrightarrow> fits (sim_exchange_pps E request) (\<lambda>x. \<forall>bs. x = Some bs \<longrightarrow> length bs = length request)"
  unfolding sim_exchange_pps_def
  by (rule fits_bind [OF plain_delay], rule fits_bind [OF plain_send_all])
     (intro fits_if fits_pure(1) fits_mono [OF fits_receive_all], simp_all)

text \<open>A card that acknowledges and answers every byte at once, with a timer that alternates between 0 and 5.\<close>

definition prompt_card :: "bool env" where
  "prompt_card = \<lparr>dev_read = (\<lambda>w a h. if a = STM_TIM0 then (if h then 5 else 0, \<not> h)
       else if a = SIM_RIS then (SIM_RIS_OK, h) else if a = SIM_RXB then (0x90, h) else (0, h)),
     dev_write = (\<lambda>w a v h. h), fuel = 1, cpu = PMB8876, pm_wadog = False, pmic = PMIC_none\<rparr>"

definition inserted :: "bool watched" where
  "inserted = \<lparr>hw = False, trace = [], cpsr = 0, ram = (\<lambda>_. 0), ticks_per_s = 1000, start_execution = 0, wdt_timeout = 0,
     last_wdt_serve = 0, wdt_interval = 5, wdt_off = True\<rparr>"

lemma prompt_run:
  "case sim_exchange_tpdu prompt_card [0xA0, 0xF2, 0, 0, 0x16] inserted of
     Inl e \<Rightarrow> False | Inr (r, t) \<Rightarrow> r = Some [0x90, 0x90]"
  by code_simp

text \<open>
  C12. The exchange of a command with the card stays inside the 258 bytes of its response buffer,
  whatever the card answers: for every command the host can send, of 5 to 261 bytes, no byte outside
  the command is read or outside the buffer written, and a response consists of at least the two
  status bytes and at most 256 data bytes and them.
\<close>

theorem sim_exchange_tpdu_bounds:
  assumes "SIM_HEADER_SIZE \<le> length tpdu" "length tpdu \<le> CCID_MAX_DATA_SIZE"
  shows "case sim_exchange_tpdu E tpdu s of
      Inl e \<Rightarrow> e \<noteq> Out_Of_Bounds
    | Inr (r, t) \<Rightarrow> (case r of None \<Rightarrow> True | Some bs \<Rightarrow> 2 \<le> length bs \<and> length bs \<le> SIM_MAX_DATA_SIZE + SIM_STATUS_SIZE)"
  using fits_tpdu [OF assms, of E] unfolding fits_def
  by (auto elim!: allE [of _ s] split: sum.splits prod.splits option.splits)

theorem sim_exchange_tpdu_bounds_witness:
  "\<exists>r t. sim_exchange_tpdu prompt_card [0xA0, 0xF2, 0, 0, 0x16] inserted = Inr (Some r, t) \<and>
     2 \<le> length r \<and> length r \<le> SIM_MAX_DATA_SIZE + SIM_STATUS_SIZE"
  using sim_exchange_tpdu_bounds [of "[0xA0, 0xF2, 0, 0, 0x16]" prompt_card inserted] prompt_run
  by (auto split: sum.splits prod.splits option.splits)

section \<open>The exchange of protocol parameters\<close>

text \<open>\<open>obliging E I\<close>: in the states of \<open>I\<close> the card takes and answers every byte, and delays end.\<close>

definition obliging :: "'h env \<Rightarrow> (('h, 'z) watched_scheme \<Rightarrow> bool) \<Rightarrow> bool" where
  "obliging E I \<longleftrightarrow> (\<forall>s. I s \<longrightarrow> (\<exists>t. delay_ms E SIM_TURNAROUND_MS s = Inr ((), t) \<and> I t) \<and>
     (\<forall>b. \<exists>t. sim_send_byte E b s = Inr (True, t) \<and> I t) \<and>
     (\<exists>v t. sim_receive_byte E SIM_RESPONSE_TIMEOUT_MS s = Inr (Some v, t) \<and> I t))"

lemma obliging_send_all: "obliging E I \<Longrightarrow> I s \<Longrightarrow> \<exists>t. send_all E bs s = Inr (True, t) \<and> I t"
proof (induction bs arbitrary: s)
  case (Cons b bs)
  from Cons.prems obtain t where "sim_send_byte E b s = Inr (True, t)" "I t" unfolding obliging_def by blast
  with Cons.IH [OF Cons.prems(1)] show ?case by (simp add: bindM_def)
qed (simp add: retM_def)

lemma obliging_receive_all:
  "obliging E I \<Longrightarrow> I s \<Longrightarrow> if length r + n \<le> 258 then \<exists>bs t. receive_all n E r s = Inr (Some bs, t) \<and> length bs = length r + n
     else length r \<le> 258 \<longrightarrow> receive_all n E r s = Inl Out_Of_Bounds"
proof (induction n arbitrary: r s)
  case (Suc n)
  from Suc.prems obtain v t where v: "sim_receive_byte E SIM_RESPONSE_TIMEOUT_MS s = Inr (Some v, t)" "I t"
    unfolding obliging_def by blast
  then have i: "receive_into E r s = (if length r < 258 then Inr (Some (r @ [v]), t) else Inl Out_Of_Bounds)"
    by (simp add: receive_into_def bindM_def mapM_def liftE_def put_response_def retM_def)
  show ?case
    using Suc.IH [OF Suc.prems(1) v(2), of "r @ [v]"] i by (auto simp: bindM_def split: if_splits)
qed (simp add: retM_def)

text \<open>
  C21. The exchange of protocol parameters copies the card's answer, as many bytes as the host
  sent, into the response buffer of 258 bytes without a check, and the host may send 261: with a card that
  answers, a request of up to 258 bytes is answered in full, and a longer one, which is any message of
  259 to 261 bytes that starts with 0xFF, writes past the end of the buffer.
\<close>

theorem sim_exchange_pps_overflow:
  assumes "obliging E I" "I s"
  shows "if length request \<le> SIM_MAX_DATA_SIZE + SIM_STATUS_SIZE
    then \<exists>bs t. sim_exchange_pps E request s = Inr (Some bs, t) \<and> length bs = length request
    else sim_exchange_pps E request s = Inl Out_Of_Bounds"
proof -
  obtain t where t: "delay_ms E SIM_TURNAROUND_MS s = Inr ((), t)" "I t" using assms unfolding obliging_def by blast
  obtain u where u: "send_all E request t = Inr (True, u)" "I u" using obliging_send_all [OF assms(1) t(2)] by blast
  show ?thesis
    using obliging_receive_all [OF assms(1) u(2), of "[]" "length request"] t(1) u(1)
    by (auto simp: sim_exchange_pps_def bindM_def split: if_splits)
qed

definition alert :: "(bool, 'z) watched_scheme \<Rightarrow> bool" where
  "alert s \<longleftrightarrow> \<not> hw s \<and> ticks_per_s s = 1000"

lemma prompt_obliging: "obliging prompt_card alert"
  unfolding obliging_def alert_def prompt_card_def
  by (auto simp: cmd_eval delay_ms_def sim_send_byte_def sim_receive_byte_def sim_wait_ok_def stopwatch_get_def
      stopwatch_elapsed_ms_def stopwatch_scaled_def stopwatch_elapsed_def numeral_1_eq_Suc_0)

theorem sim_exchange_pps_overflow_witness:
  "sim_exchange_pps prompt_card (replicate 259 0xFF) inserted = Inl Out_Of_Bounds"
  using sim_exchange_pps_overflow [OF prompt_obliging, of inserted "replicate 259 0xFF"] by (simp add: alert_def inserted_def)

section \<open>The protocol with the host\<close>

definition frame_bytes :: "ccid_message \<Rightarrow> u8 list" where
  "frame_bytes m = [SERIAL_SYNC, SERIAL_ACK] @ header m @ data m @ [lrc_of (SERIAL_SYNC XOR SERIAL_ACK) (header m @ data m)]"

definition well_formed :: "ccid_message \<Rightarrow> bool" where
  "well_formed m \<longleftrightarrow> length (header m) = CCID_HEADER_SIZE \<and> length (data m) \<le> CCID_MAX_DATA_SIZE \<and>
     length (data m) = unat (le_word (take 4 (drop CCID_OFFSET_LENGTH (header m))))"

lemma lrc_append: "lrc_of (lrc_of l xs) ys = lrc_of l (xs @ ys)"
  by (simp add: lrc_of_def)

context watched_observer
begin

text \<open>What goes over the line, with the bit rate untouched.\<close>

abbreviation chat :: "(('h, 'z) watched_scheme, 'a) cmd \<Rightarrow> ('a \<Rightarrow> u8 list \<Rightarrow> u8 list \<Rightarrow> bool) \<Rightarrow> bool" where
  "chat c P \<equiv> does obs c (\<lambda>x tr a b. P x (rxb tr) (txb tr) \<and> written SIM_BRF tr = [] \<and> b = a)"

lemma chat_bind:
  assumes "chat c P" "\<And>x i ou. P x i ou \<Longrightarrow> chat (f x) (\<lambda>y i' ou'. Q y (i @ i') (ou @ ou'))"
  shows "chat (bindM c f) Q"
  by (rule does_bind [OF assms(1)], elim conjE, drule assms(2), erule does_mono) simp

lemma chat_mono: "chat c P \<Longrightarrow> (\<And>x i ou. P x i ou \<Longrightarrow> Q x i ou) \<Longrightarrow> chat c Q"
  by (erule does_mono) auto

lemma chat_ret: "P x [] [] \<Longrightarrow> chat (retM x) P"
  by (rule does_ret) simp

lemma chat_calm: "calm c \<Longrightarrow> chat c (\<lambda>_ i ou. i = [] \<and> ou = [])"
  by (erule does_mono) (simp add: still_def quiet_def)

lemma chat_write: "chat (usart_write E USART0 bs) (\<lambda>_ i ou. i = [] \<and> ou = bs)"
proof -
  have "written SIM_BRF tr = []" if "tx_spec USART0 bs tr" for tr
    using that by (simp add: tx_spec_def written_writes filter_empty_conv)
  then show ?thesis
    by (intro does_mono [OF does_conj [OF does_reply does_logs [OF logs_usart_write]]]) auto
qed

lemma chat_putc: "chat (usart_putc E USART0 v) (\<lambda>_ i ou. i = [] \<and> ou = [v])"
  unfolding usart_putc_def by (rule chat_write)

lemma chat_getc: "chat (usart_getc E USART0) (\<lambda>v i ou. i = [v] \<and> ou = [])"
  unfolding usart_getc_def usart_read_def
  by (rule does_map, rule does_mono [OF does_logs [OF logs_read_loop]])
     (auto simp: rxb_def txb_def written_writes length_Suc_conv)

lemma chat_read_byte: "chat (host_read_byte E) (\<lambda>v i ou. i = [v] \<and> ou = [])"
proof -
  have w: "calm (whileM n (mapM (\<lambda>level. level = 0) (usart_get_rx_fifo_level E USART0)) (wdt_serve E))" for n
    unfolding usart_get_rx_fifo_level_def field_def by (intro calm_intros) simp
  show ?thesis
    unfolding host_read_byte_def by (rule chat_bind [OF chat_calm [OF w]], rule chat_mono [OF chat_getc]) simp
qed

lemma chat_read_bytes: "chat (read_bytes n E) (\<lambda>bs i ou. i = bs \<and> ou = [] \<and> length bs = n)"
proof (induction n)
  case (Suc n)
  show ?case
    unfolding read_bytes.simps
    by (rule chat_bind [OF chat_read_byte], rule chat_bind [OF Suc], rule chat_ret) auto
qed (simp add: does_ret)

lemma chat_sync:
  "chat (whileM n (mapM (\<lambda>b. b \<noteq> SERIAL_SYNC) (host_read_byte E)) (retM ()))
     (\<lambda>_ i ou. ou = [] \<and> (\<exists>junk. SERIAL_SYNC \<notin> set junk \<and> i = junk @ [SERIAL_SYNC]))"
proof (induction n)
  case (Suc n)
  have c: "chat (mapM (\<lambda>b. b \<noteq> SERIAL_SYNC) (host_read_byte E)) (\<lambda>x i ou. ou = [] \<and> (\<exists>b. i = [b] \<and> x = (b \<noteq> SERIAL_SYNC)))"
    by (rule does_map, rule does_mono [OF chat_read_byte]) auto
  show ?case
    unfolding whileM.simps bindM_ret
  proof (rule chat_bind [OF c], elim conjE exE)
    fix x b and i ou :: "u8 list" assume a: "ou = []" "i = [b]" "x = (b \<noteq> SERIAL_SYNC)"
    show "chat (if x then whileM n (mapM (\<lambda>b. b \<noteq> SERIAL_SYNC) (host_read_byte E)) (retM ()) else retM ())
        (\<lambda>_ i' ou'. ou @ ou' = [] \<and> (\<exists>junk. SERIAL_SYNC \<notin> set junk \<and> i @ i' = junk @ [SERIAL_SYNC]))"
    proof (cases x)
      case True
      have "\<exists>junk. SERIAL_SYNC \<notin> set junk \<and> b # i' = junk @ [SERIAL_SYNC]"
        if "SERIAL_SYNC \<notin> set junk" "i' = junk @ [SERIAL_SYNC]" for i' junk
        using that True a(3) by (intro exI [of _ "b # junk"]) auto
      then show ?thesis using True a by (auto intro!: does_mono [OF Suc])
    next
      case False
      then show ?thesis using a by (auto intro!: does_ret exI [of _ "[]"])
    qed
  qed
qed (simp add: does_fail)

lemma chat_frame:
  assumes "length hdr = CCID_HEADER_SIZE"
  shows "chat (host_write_frame E hdr bs) (\<lambda>_ i ou. i = [] \<and> ou = frame_bytes \<lparr>header = hdr, data = bs\<rparr>)"
  unfolding host_write_frame_def Let_def seqM.simps
  by (rule chat_bind [OF chat_putc], rule chat_bind [OF chat_putc], rule chat_bind [OF chat_write],
      rule chat_bind [OF chat_write], rule chat_bind [OF chat_putc], rule chat_ret)
     (use assms in \<open>auto simp: frame_bytes_def lrc_append\<close>)

lemma chat_nak: "chat (host_write_nak E) (\<lambda>_ i ou. i = [] \<and> ou = [SERIAL_SYNC, SERIAL_NAK, SERIAL_SYNC XOR SERIAL_NAK])"
  unfolding host_write_nak_def seqM.simps
  by (rule chat_bind [OF chat_putc], rule chat_bind [OF chat_putc], rule chat_bind [OF chat_putc], rule chat_ret) auto

end

text \<open>
  What the reader makes of the bytes it has received: a message, or nothing for bytes that are no
  well-formed frame with a correct checksum.
\<close>

definition understood :: "ccid_message option \<Rightarrow> u8 list \<Rightarrow> bool" where
  "understood r i \<longleftrightarrow> (\<exists>junk rest. SERIAL_SYNC \<notin> set junk \<and> i = junk @ SERIAL_SYNC # rest \<and>
     (case r of
        Some m \<Rightarrow> well_formed m \<and> SERIAL_SYNC # rest = frame_bytes m
      | None \<Rightarrow> \<nexists>m. well_formed m \<and> SERIAL_SYNC # rest = frame_bytes m))"

lemma frame_prefix:
  assumes "length hdr = CCID_HEADER_SIZE" "well_formed m" "SERIAL_SYNC # SERIAL_ACK # hdr @ rest = frame_bytes m"
  shows "header m = hdr \<and> rest = data m @ [lrc_of (SERIAL_SYNC XOR SERIAL_ACK) (hdr @ data m)]"
  using assms by (auto simp: frame_bytes_def well_formed_def append_eq_append_conv)

lemma too_long: "length hdr = CCID_HEADER_SIZE \<Longrightarrow> \<not> (well_formed m \<and> SERIAL_SYNC # SERIAL_ACK # hdr = frame_bytes m)"
  using frame_prefix [of hdr m "[]"] by auto

lemma bad_sum:
  assumes "length hdr = CCID_HEADER_SIZE" "length bs = unat (le_word (take 4 (drop CCID_OFFSET_LENGTH hdr)))"
    and "b \<noteq> lrc_of (SERIAL_SYNC XOR SERIAL_ACK) (hdr @ bs)"
  shows "\<not> (well_formed m \<and> SERIAL_SYNC # SERIAL_ACK # hdr @ bs @ [b] = frame_bytes m)"
proof
  assume m: "well_formed m \<and> SERIAL_SYNC # SERIAL_ACK # hdr @ bs @ [b] = frame_bytes m"
  then have "header m = hdr" "bs @ [b] = data m @ [lrc_of (SERIAL_SYNC XOR SERIAL_ACK) (hdr @ data m)]"
    using frame_prefix [OF assms(1), of m "bs @ [b]"] by auto
  then show False using assms(3) by simp
qed

context watched_observer
begin

lemma chat_message: "chat (host_read_message E) (\<lambda>r i ou. ou = [] \<and> understood r i)"
proof -
  have no_ack: "understood None (junk @ SERIAL_SYNC # [b])" if "SERIAL_SYNC \<notin> set junk" "b \<noteq> SERIAL_ACK" for junk b
    using that by (auto simp: understood_def frame_bytes_def)
  have long: "understood None (junk @ SERIAL_SYNC # SERIAL_ACK # hdr)"
    if "SERIAL_SYNC \<notin> set junk" "length hdr = CCID_HEADER_SIZE" for junk hdr
    unfolding understood_def using that too_long [OF that(2)] by auto
  have whole: "understood (if b = lrc_of (lrc_of (SERIAL_SYNC XOR SERIAL_ACK) hdr) bs then Some \<lparr>header = hdr, data = bs\<rparr> else None)
      (junk @ SERIAL_SYNC # SERIAL_ACK # hdr @ bs @ [b])"
    if "SERIAL_SYNC \<notin> set junk" "length hdr = CCID_HEADER_SIZE"
      "\<not> unat (le_word (take 4 (drop CCID_OFFSET_LENGTH hdr))) > CCID_MAX_DATA_SIZE"
      "length bs = unat (le_word (take 4 (drop CCID_OFFSET_LENGTH hdr)))" for junk hdr bs b
  proof (cases "b = lrc_of (SERIAL_SYNC XOR SERIAL_ACK) (hdr @ bs)")
    case True
    then show ?thesis
      unfolding understood_def lrc_append using that
      by (intro exI [of _ junk] exI [of _ "SERIAL_ACK # hdr @ bs @ [b]"]) (simp add: well_formed_def frame_bytes_def)
  next
    case False
    then show ?thesis
      unfolding understood_def lrc_append using that bad_sum [OF that(2,4) False]
      by (intro exI [of _ junk] exI [of _ "SERIAL_ACK # hdr @ bs @ [b]"]) simp
  qed
  show ?thesis
    unfolding host_read_message_def Let_def
    by (rule chat_bind [OF chat_sync], rule chat_bind [OF chat_read_byte], rule does_if, rule chat_ret, force intro: no_ack,
        rule chat_bind [OF chat_read_bytes], rule does_if, rule chat_ret, force intro: long,
        rule chat_bind [OF chat_read_bytes], rule chat_bind [OF chat_read_byte], rule chat_ret)
       (elim conjE exE, simp add: whole [simplified])
qed

end

section \<open>The answers\<close>

text \<open>\<open>gives c Q\<close>: a value that \<open>c\<close> returns satisfies \<open>Q\<close>.\<close>

definition gives :: "('s, 'a) cmd \<Rightarrow> ('a \<Rightarrow> bool) \<Rightarrow> bool" where
  "gives c Q \<longleftrightarrow> (\<forall>s. wlpM c (\<lambda>x _. Q x) s)"

lemma gives_bind: "gives c P \<Longrightarrow> (\<And>x. P x \<Longrightarrow> gives (f x) Q) \<Longrightarrow> gives (bindM c f) Q"
  unfolding gives_def wp by (blast intro: wlp_mono)

lemma gives_any: "(\<And>x. Q x) \<Longrightarrow> gives c Q"
  by (simp add: gives_def wlpM_def split: sum.splits)

lemma gives_ret: "Q x \<Longrightarrow> gives (retM x) Q"
  by (simp add: gives_def)

lemma gives_then: "(\<And>x. gives (f x) Q) \<Longrightarrow> gives (bindM c f) Q"
  by (rule gives_bind [OF gives_any, of "\<lambda>_. True"]) simp_all

lemma gives_if: "gives c Q \<Longrightarrow> gives d Q \<Longrightarrow> gives (if b then c else d) Q"
  by simp

lemma gives_option: "gives c Q \<Longrightarrow> (\<And>x. v = Some x \<Longrightarrow> gives (f x) Q) \<Longrightarrow> gives (case v of None \<Rightarrow> c | Some x \<Rightarrow> f x) Q"
  by (cases v) simp_all

lemma gives_fits: "fits c Q \<Longrightarrow> gives c Q"
  unfolding fits_def gives_def wlpM_def by (auto split: sum.splits)

lemma gives_atr: "length got \<le> k \<Longrightarrow> gives (atr_loop n E got :: (('h, 'z) watched_scheme, _) cmd) (\<lambda>bs. length bs \<le> k + n)"
proof (induction n arbitrary: got k)
  case (Suc n)
  have "gives (atr_loop n E (got @ [v]) :: (('h, 'z) watched_scheme, _) cmd) (\<lambda>bs. length bs \<le> Suc k + n)" for v
    by (rule Suc.IH) (use Suc.prems in simp)
  then show ?case
    unfolding atr_loop.simps Let_def using Suc.prems by (intro gives_then gives_option) (auto intro: gives_ret)
qed (simp add: gives_ret)

lemma gives_power_on: "gives (sim_power_on E) (\<lambda>atr. length atr \<le> SIM_MAX_ATR_SIZE)"
  unfolding sim_power_on_def
  by (intro gives_then gives_if gives_ret gives_atr [where k = 0, simplified]) simp_all

lemma gives_pps: "gives (sim_exchange_pps E request :: (('h, 'z) watched_scheme, _) cmd) (\<lambda>x. \<forall>bs. x = Some bs \<longrightarrow> length bs \<le> 258)"
proof -
  have into: "gives (receive_into E r :: (('h, 'z) watched_scheme, _) cmd) (\<lambda>x. \<forall>bs. x = Some bs \<longrightarrow> length bs \<le> 258)" for r
    unfolding receive_into_def
    by (intro gives_then gives_option gives_ret) (auto simp: gives_def wp put_response_def split: sum.splits)
  have "length r \<le> 258 \<Longrightarrow> gives (receive_all n E r :: (('h, 'z) watched_scheme, _) cmd) (\<lambda>x. \<forall>bs. x = Some bs \<longrightarrow> length bs \<le> 258)" for n r
  proof (induction n arbitrary: r)
    case (Suc n)
    show ?case
      unfolding receive_all.simps by (rule gives_bind [OF into], rule gives_option) (auto intro!: gives_ret Suc.IH)
  qed (simp add: gives_ret)
  then show ?thesis unfolding sim_exchange_pps_def by (intro gives_then gives_if gives_ret) simp_all
qed

lemma gives_tpdu:
  "5 \<le> length tpdu \<Longrightarrow> length tpdu \<le> 261 \<Longrightarrow> gives (sim_exchange_tpdu E tpdu) (\<lambda>x. \<forall>bs. x = Some bs \<longrightarrow> length bs \<le> 258)"
  by (rule gives_fits, rule fits_mono [OF fits_tpdu]) auto

lemma does_gives: "does obs c P \<Longrightarrow> gives c Q \<Longrightarrow> does obs c (\<lambda>x tr a b. P x tr a b \<and> Q x)"
  unfolding does_def gives_def
proof
  fix s
  assume "\<forall>s. wlpM c (\<lambda>x t. \<exists>tr. trace t = trace s @ tr \<and> P x tr (obs s) (obs t)) s" "\<forall>s. wlpM c (\<lambda>x _. Q x) s"
  then have "wlpM c (\<lambda>x t. \<exists>tr. trace t = trace s @ tr \<and> P x tr (obs s) (obs t)) s" "wlpM c (\<lambda>x _. Q x) s" by blast+
  then show "wlpM c (\<lambda>x t. \<exists>tr. trace t = trace s @ tr \<and> P x tr (obs s) (obs t) \<and> Q x) s"
    by (auto simp: wlpM_def split: sum.splits)
qed

text \<open>The two variables of the reader, the bit rate they stand for, and the reply to a message.\<close>

definition slot :: "('h, 'z) reader_scheme \<Rightarrow> u8 list \<times> bool" where
  "slot s = (t0_parameters s, icc_active s)"

interpretation slot: suite_observer "slot :: ('h, 'z) reader_scheme \<Rightarrow> u8 list \<times> bool"
  by unfold_locales (simp_all add: slot_def)

definition reply_message :: "ccid_message \<Rightarrow> u8 \<Rightarrow> bool \<Rightarrow> u8 \<Rightarrow> u8 \<Rightarrow> u8 list \<Rightarrow> bool \<Rightarrow> ccid_message" where
  "reply_message m type failed error specific bs active =
     (let status = (if active then CCID_ICC_ACTIVE else CCID_ICC_INACTIVE)
      in \<lparr>header = [type, of_nat (length bs), of_nat (length bs div 256), 0, 0, header m ! CCID_OFFSET_SLOT, header m ! CCID_OFFSET_SEQ,
             if failed then status OR CCID_COMMAND_FAILED else status, error, specific], data = bs\<rparr>)"

definition reply_type :: "u8 \<Rightarrow> u8" where
  "reply_type t = (if t = PC_TO_RDR_ICC_POWER_ON \<or> t = PC_TO_RDR_XFR_BLOCK then RDR_TO_PC_DATA_BLOCK
     else if t = PC_TO_RDR_GET_PARAMETERS \<or> t = PC_TO_RDR_RESET_PARAMETERS \<or> t = PC_TO_RDR_SET_PARAMETERS then RDR_TO_PC_PARAMETERS
     else if t = PC_TO_RDR_ESCAPE then RDR_TO_PC_ESCAPE else RDR_TO_PC_SLOT_STATUS)"

text \<open>\<open>answers m active r\<close>: \<open>r\<close> is a well-formed reply of the right type to \<open>m\<close> that shows whether the card is active.\<close>

definition answers :: "ccid_message \<Rightarrow> bool \<Rightarrow> ccid_message \<Rightarrow> bool" where
  "answers m active r \<longleftrightarrow> well_formed r \<and> header r ! CCID_OFFSET_TYPE = reply_type (header m ! CCID_OFFSET_TYPE) \<and>
     header r ! CCID_OFFSET_SLOT = header m ! CCID_OFFSET_SLOT \<and> header r ! CCID_OFFSET_SEQ = header m ! CCID_OFFSET_SEQ \<and>
     (bit (header r ! CCID_OFFSET_STATUS) 0 \<longleftrightarrow> \<not> active)"

lemma length_field: "n \<le> 261 \<Longrightarrow> unat (le_word [of_nat n, of_nat (n div 256), 0, 0]) = n"
proof -
  assume n: "n \<le> 261"
  have "le_bytes 4 (of_nat n) = [of_nat n, of_nat (n div 256), 0, 0]"
  proof (rule nth_equalityI)
    fix i assume "i < length (le_bytes 4 (of_nat n :: u32))"
    then have "i = 0 \<or> i = 1 \<or> i = 2 \<or> i = 3" by auto
    moreover have "drop_bit 8 (of_nat n :: u32) = of_nat (n div 256)" "drop_bit 16 (of_nat n :: u32) = 0" "drop_bit 24 (of_nat n :: u32) = 0"
      using n by (simp_all add: drop_bit_eq_div word_unat_eq_iff unat_div unat_of_nat)
    ultimately show "le_bytes 4 (of_nat n) ! i = [of_nat n, of_nat (n div 256), 0, 0] ! i"
      using n by (auto simp: le_bytes_nth unsigned_of_nat take_bit_nat_eq_self)
  qed simp
  then show ?thesis using le_word_le_bytes [of "of_nat n"] n by (simp add: unat_of_nat)
qed

lemma answers_reply:
  assumes "length bs \<le> CCID_MAX_DATA_SIZE" "type = reply_type (header m ! CCID_OFFSET_TYPE)"
  shows "answers m active (reply_message m type failed error specific bs active)"
  using assms length_field [OF assms(1)]
  by (cases active; cases failed) (simp_all add: answers_def reply_message_def well_formed_def Let_def del: le_word.simps)

text \<open>
  The bit rate in force after the accesses \<open>tr\<close>, and the one that the parameters stand for.
  The parameters that the reader reports are always five, and stand for a rate.
\<close>

definition rate :: "u32 \<Rightarrow> access list \<Rightarrow> u32" where
  "rate v tr = last (v # written SIM_BRF tr)"

definition slot_rate :: "u8 list \<times> bool \<Rightarrow> u32" where
  "slot_rate a = sim_fidi_to_brf (fst a ! CCID_T0_FIDI)"

definition valid_slot :: "u8 list \<times> bool \<Rightarrow> bool" where
  "valid_slot a \<longleftrightarrow> length (fst a) = CCID_T0_PARAMETERS_SIZE \<and> slot_rate a \<noteq> 0"

lemma rate_simps: "written SIM_BRF tr = [] \<Longrightarrow> rate v tr = v" "rate v (xs @ ys) = rate (rate v xs) ys"
  by (simp_all add: rate_def last_append)

definition handled :: "ccid_message \<Rightarrow> access list \<Rightarrow> u8 list \<times> bool \<Rightarrow> u8 list \<times> bool \<Rightarrow> bool" where
  "handled m tr a b \<longleftrightarrow> rxb tr = [] \<and> (\<exists>r. answers m (snd b) r \<and> txb tr = frame_bytes r) \<and>
     (valid_slot b \<and> rate (slot_rate a) tr = slot_rate b)"

abbreviation handles :: "(('h, 'z) reader_scheme, unit) cmd \<Rightarrow> ccid_message \<Rightarrow> bool" where
  "handles c m \<equiv> does slot c (\<lambda>_ tr a b. valid_slot a \<longrightarrow> handled m tr a b)"

lemma does_host_reply:
  "does slot (host_reply E m type failed error specific bs) (\<lambda>_ tr a b. rxb tr = [] \<and>
     txb tr = frame_bytes (reply_message m type failed error specific bs (snd a)) \<and> written SIM_BRF tr = [] \<and> b = a)"
proof -
  have g: "does slot (getM icc_active) (\<lambda>x tr a b. x = snd a \<and> tr = [] \<and> b = a)"
    by (rule does_get) (simp add: slot_def)
  show ?thesis
    unfolding host_reply_def Let_def
    by (rule does_bind [OF g], rule does_mono [OF slot.chat_frame]) (auto simp: reply_message_def Let_def)
qed

text \<open>A change of the variables, followed by the reply.\<close>

lemma handles_after:
  assumes "does slot c (\<lambda>x tr a b. rxb tr = [] \<and> txb tr = [] \<and> (valid_slot a \<longrightarrow> valid_slot b \<and> rate (slot_rate a) tr = slot_rate b) \<and> P x)"
    and "\<And>x. P x \<Longrightarrow> handles (f x) m"
  shows "handles (bindM c f) m"
  by (rule does_bind [OF assms(1)], elim conjE, drule assms(2), erule does_mono) (auto simp: handled_def rate_simps(2))

lemma handles_calm:
  assumes "slot.calm c" "gives c P" "\<And>x. P x \<Longrightarrow> handles (f x) m"
  shows "handles (bindM c f) m"
  by (rule handles_after [OF does_mono [OF does_gives [OF assms(1,2)]]]) (auto simp: still_def quiet_def rate_simps assms(3))

lemma handles_reply:
  assumes "length bs \<le> CCID_MAX_DATA_SIZE" "type = reply_type (header m ! CCID_OFFSET_TYPE)"
  shows "handles (host_reply E m type failed error specific bs) m"
  by (rule does_mono [OF does_host_reply]) (auto simp: handled_def rate_simps intro!: answers_reply [OF assms])

lemma bindM_unit: "bindM c (\<lambda>_. retM ()) = c"
  by (auto simp: bindM_def retM_def fun_eq_iff split: sum.splits)

lemma handles_parameters:
  assumes "RDR_TO_PC_PARAMETERS = reply_type (header m ! CCID_OFFSET_TYPE)"
  shows "handles (host_reply_parameters E m failed error) m"
proof -
  have g: "does slot (getM t0_parameters) (\<lambda>x tr a b. x = fst a \<and> tr = [] \<and> b = a)"
    by (rule does_get) (simp add: slot_def)
  show ?thesis
    unfolding host_reply_parameters_def
    by (rule does_bind [OF g], rule does_mono [OF does_host_reply])
       (auto simp: handled_def valid_slot_def rate_simps intro!: exI [where P = "\<lambda>r. answers _ _ r \<and> _ r"] answers_reply [OF _ assms])
qed

lemma handles_status:
  "RDR_TO_PC_SLOT_STATUS = reply_type (header m ! CCID_OFFSET_TYPE) \<Longrightarrow> handles (host_reply_slot_status E m failed error) m"
  unfolding host_reply_slot_status_def by (rule handles_reply) simp_all

lemma default_rate: "sim_fidi_to_brf SIM_DEFAULT_FIDI = SIM_DEFAULT_BRF"
  by (simp add: sim_fidi_to_brf_def DI_DIVISORS_def FI_CLOCKS_PER_ETU_def)

lemma does_set_rate: "does slot (wr E SIM_BRF v) (\<lambda>_ tr a b. rxb tr = [] \<and> txb tr = [] \<and> written SIM_BRF tr = [v] \<and> b = a)"
  by (rule does_mono [OF slot.does_logs [OF logs_write [where P = "\<lambda>_ tr. tr = [Wr W32 SIM_BRF v]"]]])
     (auto simp: rxb_def txb_def)

lemma does_reset:
  "does slot (t0_parameters_reset E) (\<lambda>_ tr a b. rxb tr = [] \<and> txb tr = [] \<and> written SIM_BRF tr = [SIM_DEFAULT_BRF] \<and>
     b = (DEFAULT_T0_PARAMETERS, snd a))"
proof -
  have m: "does slot (modM (\<lambda>s. s\<lparr>t0_parameters := DEFAULT_T0_PARAMETERS\<rparr>)) (\<lambda>_ tr a b. tr = [] \<and> b = (DEFAULT_T0_PARAMETERS, snd a))"
    by (rule does_mod) (simp_all add: slot_def)
  show ?thesis
    unfolding t0_parameters_reset_def seqM.simps
    by (rule does_bind [OF m], rule does_bind [OF does_set_rate], rule does_ret) auto
qed

lemma valid_default: "valid_slot (DEFAULT_T0_PARAMETERS, x)" "slot_rate (DEFAULT_T0_PARAMETERS, x) = SIM_DEFAULT_BRF"
  using default_rate by (simp_all add: valid_slot_def slot_rate_def DEFAULT_T0_PARAMETERS_def)

lemma does_active: "does slot (modM (\<lambda>s. s\<lparr>icc_active := v\<rparr>)) (\<lambda>_ tr a b. tr = [] \<and> b = (fst a, v))"
  by (rule does_mod) (simp_all add: slot_def)

lemma valid_active: "valid_slot (fst a, v) = valid_slot a" "slot_rate (fst a, v) = slot_rate a"
  by (simp_all add: valid_slot_def slot_rate_def)

lemma handles_active: "(\<And>x. handles (f x) m) \<Longrightarrow> handles (bindM (modM (\<lambda>s. s\<lparr>icc_active := v\<rparr>)) f) m"
  by (rule handles_after [OF does_mono [OF does_active], where P = "\<lambda>_. True"]) (auto simp: valid_active rate_simps)

lemma handles_if: "(b \<Longrightarrow> handles c m) \<Longrightarrow> (\<not> b \<Longrightarrow> handles d m) \<Longrightarrow> handles (if b then c else d) m"
  by simp

lemma handles_power_on:
  assumes "header m ! CCID_OFFSET_TYPE = PC_TO_RDR_ICC_POWER_ON"
  shows "handles (host_handle_power_on E m) m"
proof -
  have c: "does slot (bindM (t0_parameters_reset E) (\<lambda>_. sim_power_on E)) (\<lambda>atr tr a b. rxb tr = [] \<and> txb tr = [] \<and>
      (valid_slot a \<longrightarrow> valid_slot b \<and> rate (slot_rate a) tr = slot_rate b) \<and> length atr \<le> SIM_MAX_ATR_SIZE)"
    by (rule does_bind [OF does_reset], rule does_mono [OF does_gives [OF slot.does_power_on gives_power_on]])
       (auto simp: quiet_def rate_def valid_default)
  have g: "slot.calm (getM icc_active)" by (rule slot.calm_simple)
  have r: "RDR_TO_PC_DATA_BLOCK = reply_type (header m ! CCID_OFFSET_TYPE)"
    by (simp add: assms reply_type_def)
  show ?thesis
    unfolding host_handle_power_on_def bindM_assoc [symmetric, of "t0_parameters_reset E" "\<lambda>_. sim_power_on E"]
    by (rule handles_after [OF c], rule handles_active, rule handles_calm [OF g gives_any, of "\<lambda>_. True"], rule TrueI, rule handles_if)
       (rule handles_reply [OF _ r]; simp)+
qed

lemma handles_power_off:
  assumes "header m ! CCID_OFFSET_TYPE = PC_TO_RDR_ICC_POWER_OFF"
  shows "handles (host_handle_power_off E m) m"
  unfolding host_handle_power_off_def seqM.simps bindM_unit
  by (rule handles_calm [OF slot.calm_power_off gives_any, of "\<lambda>_. True"], rule TrueI, rule handles_active, rule handles_status)
     (simp add: assms reply_type_def)

lemma handles_xfr_block:
  assumes "header m ! CCID_OFFSET_TYPE = PC_TO_RDR_XFR_BLOCK" "length (data m) \<le> CCID_MAX_DATA_SIZE"
  shows "handles (host_handle_xfr_block E m) m"
proof -
  have r: "RDR_TO_PC_DATA_BLOCK = reply_type (header m ! CCID_OFFSET_TYPE)"
    by (simp add: assms reply_type_def)
  have g: "slot.calm (getM icc_active)" by (rule slot.calm_simple)
  have reply: "handles (case x of None \<Rightarrow> host_reply E m RDR_TO_PC_DATA_BLOCK True CCID_ERROR_ICC_MUTE 0 []
      | Some response \<Rightarrow> host_reply E m RDR_TO_PC_DATA_BLOCK False 0 0 response) m"
    if "\<forall>bs. x = Some bs \<longrightarrow> length bs \<le> 258" for x
    using that by (cases x) (auto intro: handles_reply [OF _ r])
  show ?thesis
    unfolding host_handle_xfr_block_def Let_def
  proof (rule handles_calm [OF g gives_any, of "\<lambda>_. True"], rule TrueI, rule handles_if)
    fix active
    show "handles (host_reply E m RDR_TO_PC_DATA_BLOCK True CCID_ERROR_HW_ERROR 0 []) m"
      by (rule handles_reply [OF _ r]) simp
    assume "\<not> (\<not> active \<or> \<not> (length (data m) \<noteq> 0 \<and> data m ! 0 = SIM_PPSS) \<and> length (data m) < SIM_HEADER_SIZE)"
    then have "gives (if length (data m) \<noteq> 0 \<and> data m ! 0 = SIM_PPSS then sim_exchange_pps E (data m)
        else sim_exchange_tpdu E (data m)) (\<lambda>x. \<forall>bs. x = Some bs \<longrightarrow> length bs \<le> 258)"
      using assms(2) by (auto intro!: gives_pps gives_tpdu)
    then show "handles (bindM (if length (data m) \<noteq> 0 \<and> data m ! 0 = SIM_PPSS then sim_exchange_pps E (data m)
        else sim_exchange_tpdu E (data m)) (\<lambda>r. case r of None \<Rightarrow> host_reply E m RDR_TO_PC_DATA_BLOCK True CCID_ERROR_ICC_MUTE 0 []
        | Some response \<Rightarrow> host_reply E m RDR_TO_PC_DATA_BLOCK False 0 0 response)) m"
      by (rule handles_calm [OF slot.calm_if [OF slot.calm_exchanges(2,1)]]) (rule reply)
  qed
qed

lemma handles_set_parameters:
  assumes "header m ! CCID_OFFSET_TYPE = PC_TO_RDR_SET_PARAMETERS"
  shows "handles (host_handle_set_parameters E m) m"
proof -
  have r: "RDR_TO_PC_PARAMETERS = reply_type (header m ! CCID_OFFSET_TYPE)"
    by (simp add: assms reply_type_def)
  let ?rate = "sim_fidi_to_brf (data m ! CCID_T0_FIDI)"
  have set: "handles (seqM [modM (\<lambda>s. s\<lparr>t0_parameters := take CCID_T0_PARAMETERS_SIZE (data m)\<rparr>), wr E SIM_BRF ?rate,
      host_reply_parameters E m False 0]) m"
    if "length (data m) = CCID_T0_PARAMETERS_SIZE" "?rate \<noteq> 0"
  proof -
    have m: "does slot (modM (\<lambda>s. s\<lparr>t0_parameters := take CCID_T0_PARAMETERS_SIZE (data m)\<rparr>))
        (\<lambda>_ tr a b. tr = [] \<and> b = (data m, snd a))"
      by (rule does_mod) (simp_all add: slot_def that)
    have c: "does slot (bindM (modM (\<lambda>s. s\<lparr>t0_parameters := take CCID_T0_PARAMETERS_SIZE (data m)\<rparr>)) (\<lambda>_. wr E SIM_BRF ?rate))
        (\<lambda>_ tr a b. rxb tr = [] \<and> txb tr = [] \<and> (valid_slot a \<longrightarrow> valid_slot b \<and> rate (slot_rate a) tr = slot_rate b) \<and> True)"
      by (rule does_bind [OF m], rule does_mono [OF does_set_rate]) (auto simp: valid_slot_def slot_rate_def rate_def that)
    show ?thesis
      unfolding seqM.simps bindM_unit bindM_assoc [symmetric, of "modM _" "\<lambda>_. wr _ _ _"]
      by (rule handles_after [OF c]) (rule handles_parameters [OF r])
  qed
  then show ?thesis
    unfolding host_handle_set_parameters_def Let_def
    by (auto simp: handles_parameters [OF r] simp del: seqM.simps)
qed

lemma wlp_True: "wlpM c (\<lambda>_ _. True) = (\<lambda>_. True)"
  by (simp add: wlpM_def fun_eq_iff split: sum.splits)

lemma handles_escape:
  assumes "header m ! CCID_OFFSET_TYPE = PC_TO_RDR_ESCAPE"
  shows "handles (host_handle_escape E m) m"
proof -
  have r: "RDR_TO_PC_ESCAPE = reply_type (header m ! CCID_OFFSET_TYPE)"
    by (simp add: assms reply_type_def)
  have off: "does slot (whenM b (seqM [usart_flush E USART0, phone_power_off E])) (\<lambda>_ tr a b'. tr = [] \<and> b' = a)" for b
    unfolding phone_power_off_def by (simp add: does_def wp wlp_True)
  show ?thesis
    unfolding host_handle_escape_def Let_def
    by (rule handles_if, rule handles_reply [OF _ r], simp add: FIRMWARE_def str_def,
        rule does_bind [OF handles_reply [OF _ r]], simp, rule does_mono [OF off], simp)
qed

lemma handles_message:
  assumes "well_formed m"
  shows "handles (host_handle_message E m) m"
proof -
  let ?type = "header m ! CCID_OFFSET_TYPE"
  have reset: "handles (seqM [t0_parameters_reset E, host_reply_parameters E m False 0]) m" if "?type = PC_TO_RDR_RESET_PARAMETERS"
    unfolding seqM.simps bindM_unit
    by (rule handles_after [OF does_mono [OF does_reset], where P = "\<lambda>_. True"], simp add: rate_def valid_default,
        rule handles_parameters) (simp add: that reply_type_def)
  show ?thesis
    unfolding host_handle_message_def Let_def
    by (rule handles_if, erule handles_power_on, rule handles_if, erule handles_power_off,
        rule handles_if, rule handles_status, simp add: reply_type_def,
        rule handles_if, erule handles_xfr_block, use assms in \<open>simp add: well_formed_def\<close>,
        rule handles_if, rule handles_parameters, simp add: reply_type_def,
        rule handles_if, erule reset, rule handles_if, erule handles_set_parameters,
        rule handles_if, erule handles_escape, rule handles_status)
       (simp add: reply_type_def)
qed

text \<open>A round: what was received, understood, echoed and answered.\<close>

definition served :: "access list \<Rightarrow> u8 list \<times> bool \<Rightarrow> u8 list \<times> bool \<Rightarrow> bool" where
  "served tr a b \<longleftrightarrow> (\<exists>r. understood r (rxb tr) \<and>
     (case r of
        None \<Rightarrow> txb tr = [SERIAL_SYNC, SERIAL_NAK, SERIAL_SYNC XOR SERIAL_NAK] \<and> b = a
      | Some m \<Rightarrow> \<exists>reply. answers m (snd b) reply \<and> txb tr = frame_bytes m @ frame_bytes reply))"

lemma does_reader_round:
  "does slot (reader_round E) (\<lambda>_ tr a b. valid_slot a \<longrightarrow> served tr a b \<and> valid_slot b \<and> rate (slot_rate a) tr = slot_rate b)"
  unfolding reader_round_def
proof (rule does_bind [OF slot.chat_message], elim conjE)
  fix r and tr :: "access list" and a b :: "u8 list \<times> bool"
  assume got: "understood r (rxb tr)" "txb tr = []" "written SIM_BRF tr = []" "b = a"
  show "does slot (case r of None \<Rightarrow> host_write_nak E | Some request \<Rightarrow> seqM [host_echo_message E request, host_handle_message E request])
     (\<lambda>_ tr' b' c. b' = b \<longrightarrow> valid_slot a \<longrightarrow> served (tr @ tr') a c \<and> valid_slot c \<and> rate (slot_rate a) (tr @ tr') = slot_rate c)"
  proof (cases r)
    case None
    then show ?thesis
      using got by (auto simp: served_def rate_simps intro!: does_mono [OF slot.chat_nak] exI [of _ "None :: ccid_message option"])
  next
    case (Some m)
    then have m: "well_formed m" using got(1) by (auto simp: understood_def)
    have echo: "slot.chat (host_echo_message E m) (\<lambda>_ i ou. i = [] \<and> ou = frame_bytes m)"
      unfolding host_echo_message_def
      by (rule slot.chat_mono [OF slot.chat_frame]) (use m in \<open>simp_all add: well_formed_def frame_bytes_def\<close>)
    show ?thesis
      unfolding Some option.case seqM.simps bindM_unit
      by (rule does_bind [OF echo], rule does_mono [OF handles_message [OF m]])
         (use got Some in \<open>auto simp: served_def handled_def rate_simps intro!: exI [of _ "Some m"]\<close>)
  qed
qed

text \<open>A host that asks for a faster bit rate.\<close>

definition set_parameters_frame :: "u8 list" where
  "set_parameters_frame = [3, 6, 0x61, 5, 0, 0, 0, 0, 7, 0, 0, 0, 0x95, 0, 0, 0xa, 0, 0xf9]"

definition asking_host :: "u8 list env" where
  "asking_host = \<lparr>dev_read = (\<lambda>w a h. if a = USART_RXB USART0 then (ucast (hd h), tl h)
       else if a = USART_FSTAT USART0 then (1, h) else if a = USART_RIS USART0 then (USART_RIS_TX, h) else (0, h)),
     dev_write = (\<lambda>w a v h. h), fuel = 2, cpu = PMB8876, pm_wadog = False, pmic = PMIC_none\<rparr>"

definition connected :: "u8 list reader" where
  "connected = \<lparr>hw = set_parameters_frame, trace = [], cpsr = 0, ram = (\<lambda>_. 0), ticks_per_s = 1000, start_execution = 0, wdt_timeout = 0,
     last_wdt_serve = 0, wdt_interval = 5, wdt_off = True, t0_parameters = DEFAULT_T0_PARAMETERS, icc_active = False\<rparr>"


lemma asking_round:
  "case reader_round asking_host connected of Inl e \<Rightarrow> False
   | Inr (x, t) \<Rightarrow> x = () \<and> t0_parameters t = [0x95, 0, 0, 10, 0] \<and> valid_slot (t0_parameters connected, icc_active connected)"
  by code_simp



section \<open>The bit rate\<close>

text \<open>The states between the rounds of the main loop.\<close>

inductive serving :: "'h env \<Rightarrow> formatter \<Rightarrow> ('h, 'z) reader_scheme \<Rightarrow> ('h, 'z) reader_scheme \<Rightarrow> bool"
  for E :: "'h env" and F :: formatter and s :: "('h, 'z) reader_scheme" where
  start: "reader_start E F s = Inr ((), t) \<Longrightarrow> serving E F s t"
| round: "serving E F s t \<Longrightarrow> reader_round E t = Inr ((), u) \<Longrightarrow> serving E F s u"

lemma chat_printf: "slot.chat (printf E F f args) (\<lambda>_ i ou. True)"
proof -
  have "slot.chat (forM bs (putchar E)) (\<lambda>_ i ou. True)" for bs
  proof (induction bs)
    case (Cons x xs)
    show ?case
      unfolding forM.simps putchar_def
      by (rule slot.chat_bind [OF slot.chat_putc], rule slot.chat_mono [OF Cons [unfolded putchar_def]]) simp
  qed (simp add: does_ret)
  then show ?thesis by (simp add: printf_def)
qed

lemma calm_line: "slot.calm (usart_flush E USART0)" "slot.calm (usart_set_speed E USART0 baud)"
  "slot.calm (rmw E (USART_CON USART0) f)"
  unfolding usart_flush_def usart_wait_tx_def usart_get_tx_fifo_level_def usart_set_speed_def cpu_get_fpi1_freq_def
    cpu_get_sys_freq_def cpu_get_pll_freq_def get_pll_core_freq_def field_def flag_clear_def rmw_def Let_def
  by (intro slot.calm_intros slot.calm_simple; simp)+

lemma does_reader_start: "does slot (reader_start E F) (\<lambda>_ tr a b. written SIM_BRF tr \<noteq> [] \<and> last (written SIM_BRF tr) = slot_rate b \<and> valid_slot b)"
proof -
  have w: "slot.silent (wr E SIM_CLC (push_bit MOD_CLC_RMC_SHIFT SIM_RMC))" by (rule slot.silent_write) simp
  have c: "slot.chat (seqM [printf E F ''SIM reader ready\<newline>'' [], usart_putc E USART0 0, usart_flush E USART0,
      usart_set_speed E USART0 HOST_SPEED, rmw E (USART_CON USART0) (\<lambda>v. (v AND NOT USART_CON_STP) OR USART_CON_STP_TWO)])
      (\<lambda>_ _ _. True)"
    unfolding seqM.simps
    by (rule slot.chat_bind [OF chat_printf], rule slot.chat_bind [OF slot.chat_putc],
        (rule slot.chat_bind [OF slot.chat_calm [OF calm_line(1)]] slot.chat_bind [OF slot.chat_calm [OF calm_line(2)]]
           slot.chat_bind [OF slot.chat_calm [OF calm_line(3)]])+, rule slot.chat_ret) simp
  show ?thesis
    unfolding reader_start_def seqM.simps(2) [of "wdt_init _"] seqM.simps(2) [of "wr _ SIM_CLC _"] seqM.simps(2) [of "t0_parameters_reset _"]
    by (rule does_bind [OF slot.silent_wdt_init], rule does_bind [OF w], rule does_bind [OF does_reset], rule does_mono [OF c])
       (auto simp: valid_default)
qed

text \<open>
  C2. After the initialisation and after any number of rounds, the bit rate register of the card interface
  holds the rate that belongs to the parameters which the reader reports to the host: the last value written to it
  is the divider of the FI and DI values in the first of the five parameter bytes, and it is not 0.
\<close>

theorem reader_bit_rate:
  assumes "serving E F s t"
  shows "\<exists>tr. trace t = trace s @ tr \<and> written SIM_BRF tr \<noteq> [] \<and>
    last (written SIM_BRF tr) = sim_fidi_to_brf (t0_parameters t ! CCID_T0_FIDI) \<and>
    sim_fidi_to_brf (t0_parameters t ! CCID_T0_FIDI) \<noteq> 0 \<and> length (t0_parameters t) = CCID_T0_PARAMETERS_SIZE"
proof -
  have "\<exists>tr. trace t = trace s @ tr \<and> written SIM_BRF tr \<noteq> [] \<and> last (written SIM_BRF tr) = slot_rate (slot t) \<and> valid_slot (slot t)"
    using assms
  proof (induction rule: serving.induct)
    case (start t)
    then show ?case by (rule doesD [OF does_reader_start])
  next
    case (round t u)
    then obtain tr where tr: "trace t = trace s @ tr" "written SIM_BRF tr \<noteq> []" "last (written SIM_BRF tr) = slot_rate (slot t)"
      "valid_slot (slot t)" by blast
    moreover obtain tr' where "trace u = trace t @ tr'" "valid_slot (slot u)" "rate (slot_rate (slot t)) tr' = slot_rate (slot u)"
      using doesD [OF does_reader_round round.hyps(2)] tr(4) by blast
    ultimately show ?case
      by (intro exI [of _ "tr @ tr'"]) (auto simp: rate_def last_append split: if_splits)
  qed
  then show ?thesis by (auto simp: slot_rate_def valid_slot_def slot_def)
qed

lemma asking_start:
  "case bindM (reader_start asking_host (\<lambda>f _. str f)) (\<lambda>_. reader_round asking_host) connected of Inl e \<Rightarrow> False
   | Inr (x, t) \<Rightarrow> x = () \<and> t0_parameters t ! CCID_T0_FIDI = 0x95 \<and> sim_fidi_to_brf 0x95 = 8"
  by code_simp

theorem reader_bit_rate_witness:
  "\<exists>t tr. serving asking_host (\<lambda>f _. str f) connected t \<and> trace t = tr \<and> written SIM_BRF tr \<noteq> [] \<and> last (written SIM_BRF tr) = 8"
proof -
  obtain u t where "reader_start asking_host (\<lambda>f _. str f) connected = Inr ((), u)" "reader_round asking_host u = Inr ((), t)"
    and rate: "t0_parameters t ! CCID_T0_FIDI = 0x95" "sim_fidi_to_brf 0x95 = 8"
    using asking_start by (auto simp: bindM_def split: sum.splits prod.splits)
  then have "serving asking_host (\<lambda>f _. str f) connected t" by (blast intro: serving.intros)
  from reader_bit_rate [OF this] this rate show ?thesis by (auto simp: connected_def)
qed

end
