(* ===== verification/Test_Framework.thy ===== *)
theory Test_Framework
  imports Printf
begin

text \<open>
  The on-target test framework (\<^verbatim>\<open>src/unit/test.c\<close>): the counters and the report lines of the Test
  Anything Protocol, the reporter of processor faults and the helpers the suites call. The
  formatter behind \<^verbatim>\<open>printf\<close> and the build option for colours are a parameter.
\<close>

section \<open>Definitions\<close>

abbreviation (input) PHONE_INFO_STRING_SIZE :: nat where "PHONE_INFO_STRING_SIZE \<equiv> 16"
abbreviation (input) TEST_TIMEOUT_MS :: u32 where "TEST_TIMEOUT_MS \<equiv> 3000"
abbreviation (input) TEST_HEARTBEAT_MS :: u64 where "TEST_HEARTBEAT_MS \<equiv> 100"
abbreviation (input) RTC_T14_RELOAD :: u32 where "RTC_T14_RELOAD \<equiv> 61440"
abbreviation (input) RTC_SECOND_COUNTER :: u32 where "RTC_SECOND_COUNTER \<equiv> 0x3FF"
abbreviation (input) RTC_CLOCK_CONTROL :: u32 where "RTC_CLOCK_CONTROL \<equiv> RTC_CTRL_PU32K OR RTC_CTRL_CLK32KEN"
abbreviation (input) RTC_SYNC_CONTROL :: u32 where "RTC_SYNC_CONTROL \<equiv> RTC_CLOCK_CONTROL OR RTC_CTRL_CLK_SEL"

text \<open>
  The static variables. \<open>longjmp\<close> into the saved context is the outcome \<open>Recovered\<close> of an exception
  handler; the registers it restores are not part of the model.
\<close>

record 'h tested = "'h watched" +
  assertions :: u32
  failures :: u32
  fault_recovery_armed :: bool
  fault_nesting :: u32
  last_heartbeat :: u64

datatype fault_outcome = Recovered

text \<open>\<open>format f args\<close> are the bytes that \<^verbatim>\<open>printf\<close> prints; \<open>test_color\<close> is the build option \<^verbatim>\<open>TEST_COLOR\<close>.\<close>

record printer =
  format :: formatter
  test_color :: bool

definition escape :: "printer \<Rightarrow> string \<Rightarrow> u8 list" where
  "escape T code = (if test_color T then 0x1B # str code else [])"

definition COLOR_RESET :: "printer \<Rightarrow> u8 list" where "COLOR_RESET T = escape T ''[0m''"
definition COLOR_RED :: "printer \<Rightarrow> u8 list" where "COLOR_RED T = escape T ''[31m''"
definition COLOR_GREEN :: "printer \<Rightarrow> u8 list" where "COLOR_GREEN T = escape T ''[32m''"
definition COLOR_YELLOW :: "printer \<Rightarrow> u8 list" where "COLOR_YELLOW T = escape T ''[33m''"
definition COLOR_CYAN :: "printer \<Rightarrow> u8 list" where "COLOR_CYAN T = escape T ''[36m''"

subsection \<open>Faults\<close>

text \<open>The direct return of \<^verbatim>\<open>test_fault_setjmp\<close> is 0.\<close>

definition test_fault_guard :: "(('h, 'z) tested_scheme, u32) cmd" where
  "test_fault_guard =
     bindM (modM (\<lambda>s. s\<lparr>fault_nesting := 0\<rparr>)) (\<lambda>_.
     bindM (modM (\<lambda>s. s\<lparr>fault_recovery_armed := True\<rparr>)) (\<lambda>_. retM 0))"

definition test_fault_guard_end :: "(('h, 'z) tested_scheme, unit) cmd" where
  "test_fault_guard_end = modM (\<lambda>s. s\<lparr>fault_recovery_armed := False\<rparr>)"

definition fault_putc :: "'h env \<Rightarrow> u8 \<Rightarrow> (('h, 'z) machine_scheme, unit) cmd" where
  "fault_putc E c =
     seqM [wr E (USART_TXB USART0) (ucast c),
           whileM (fuel E) (mapM (\<lambda>v. v AND USART_RIS_TX = 0) (rd E (USART_RIS USART0))) (retM ()),
           rmw E (USART_ICR USART0) (\<lambda>v. v OR USART_ICR_TX)]"

definition hex_digit :: "u32 \<Rightarrow> u8" where
  "hex_digit nibble = (if nibble < 10 then of_char (CHR ''0'') + ucast nibble else of_char (CHR ''A'') + ucast nibble - 10)"

definition fault_put_hex :: "'h env \<Rightarrow> u32 \<Rightarrow> (('h, 'z) machine_scheme, unit) cmd" where
  "fault_put_hex E value =
     seqM [fault_putc E (of_char (CHR ''0'')),
           fault_putc E (of_char (CHR ''x'')),
           forM [28, 24, 20, 16, 12, 8, 4, 0] (\<lambda>shift. fault_putc E (hex_digit (drop_bit shift value AND 0xF)))]"

definition fault_field ::
  "'h env \<Rightarrow> u8 \<Rightarrow> u8 \<Rightarrow> u8 \<Rightarrow> u8 \<Rightarrow> u8 \<Rightarrow> u32 \<Rightarrow> (('h, 'z) machine_scheme, unit) cmd" where
  "fault_field E type a b c d value =
     seqM [fault_putc E 0x0A,
           fault_putc E (of_char (CHR ''#'')),
           fault_putc E (of_char (CHR '' '')),
           fault_putc E (of_char (CHR ''E'')),
           fault_putc E (of_char (CHR ''X'')),
           fault_putc E (of_char (CHR ''C'')),
           fault_putc E (of_char (CHR '' '')),
           fault_putc E type,
           fault_putc E (of_char (CHR '' '')),
           fault_putc E a,
           whenM (b \<noteq> 0)
             (seqM [fault_putc E b,
                    whenM (c \<noteq> 0)
                      (seqM [fault_putc E c,
                             whenM (d \<noteq> 0) (fault_putc E d)])]),
           fault_putc E (of_char (CHR ''='')),
           fault_put_hex E value]"

text \<open>
  \<open>decode\<close> is the hook \<^verbatim>\<open>test_fault_decode\<close> that a suite may define; the default does nothing. After it the
  handler spins for ever.
\<close>

definition test_fault_decode :: "u32 \<Rightarrow> u32 \<Rightarrow> (('h, 'z) tested_scheme, unit) cmd" where
  "test_fault_decode pc far = retM ()"

definition exception_report ::
  "'h env \<Rightarrow> (u32 \<Rightarrow> u32 \<Rightarrow> (('h, 'z) tested_scheme, unit) cmd) \<Rightarrow> u8 \<Rightarrow> u32 \<Rightarrow> u32 \<Rightarrow> u32 \<Rightarrow> u32 \<Rightarrow>
     (('h, 'z) tested_scheme, fault_outcome) cmd" where
  "exception_report E decode type lr spsr fsr far =
     bindM (getM fault_nesting) (\<lambda>nesting.
     bindM (modM (\<lambda>s. s\<lparr>fault_nesting := nesting + 1\<rparr>)) (\<lambda>_.
     bindM (whenM (nesting = 0)
       (seqM [fault_field E type (of_char (CHR ''L'')) (of_char (CHR ''R'')) 0 0 lr,
              fault_field E type (of_char (CHR ''S'')) (of_char (CHR ''P'')) (of_char (CHR ''S'')) (of_char (CHR ''R'')) spsr,
              fault_field E type (of_char (CHR ''F'')) (of_char (CHR ''S'')) (of_char (CHR ''R'')) 0 fsr,
              fault_field E type (of_char (CHR ''F'')) (of_char (CHR ''A'')) (of_char (CHR ''R'')) 0 far,
              fault_putc E 0x0A])) (\<lambda>_.
     bindM (getM fault_recovery_armed) (\<lambda>armed.
     if armed then retM Recovered
     else bindM (decode lr far) (\<lambda>_. failM Spin)))))"

text \<open>The link register and the saved status register at the entry of a handler are its arguments.\<close>

definition data_abort_handler ::
  "'h env \<Rightarrow> 'h cp15 \<Rightarrow> (u32 \<Rightarrow> u32 \<Rightarrow> (('h, 'z) tested_scheme, unit) cmd) \<Rightarrow> u32 \<Rightarrow> u32 \<Rightarrow>
     (('h, 'z) tested_scheme, fault_outcome) cmd" where
  "data_abort_handler E C decode link spsr =
     bindM (mrc C 5 0 0) (\<lambda>fault_status. bindM (mrc C 6 0 0) (\<lambda>fault_address.
     exception_report E decode (of_char (CHR ''D'')) (link - 8) spsr fault_status fault_address))"

definition prefetch_abort_handler ::
  "'h env \<Rightarrow> 'h cp15 \<Rightarrow> (u32 \<Rightarrow> u32 \<Rightarrow> (('h, 'z) tested_scheme, unit) cmd) \<Rightarrow> u32 \<Rightarrow> u32 \<Rightarrow>
     (('h, 'z) tested_scheme, fault_outcome) cmd" where
  "prefetch_abort_handler E C decode link spsr =
     bindM (mrc C 5 0 1) (\<lambda>fault_status. bindM (mrc C 6 0 2) (\<lambda>fault_address.
     exception_report E decode (of_char (CHR ''P'')) (link - 4) spsr fault_status fault_address))"

definition undef_handler ::
  "'h env \<Rightarrow> (u32 \<Rightarrow> u32 \<Rightarrow> (('h, 'z) tested_scheme, unit) cmd) \<Rightarrow> u32 \<Rightarrow> u32 \<Rightarrow>
     (('h, 'z) tested_scheme, fault_outcome) cmd" where
  "undef_handler E decode link spsr = exception_report E decode (of_char (CHR ''U'')) (link - 4) spsr 0 0"

subsection \<open>The phone\<close>

text \<open>
  \<open>read_flash_string m n a\<close>: \<open>Some\<close> of the string, without its terminating zero, for the result true;
  the loop runs over the indices that are left, with the characters stored so far.
\<close>

primrec flash_string_loop :: "mem \<Rightarrow> u32 \<Rightarrow> nat \<Rightarrow> u8 list \<Rightarrow> u8 list option" where
  "flash_string_loop m address 0 destination = None"
| "flash_string_loop m address (Suc n) destination =
     (let value = m (address + of_nat (length destination)) in
      if value = 0 then (if destination \<noteq> [] then Some destination else None)
      else if value < 0x20 \<or> value > 0x7E then None
      else flash_string_loop m address n (destination @ [value]))"

definition read_flash_string :: "mem \<Rightarrow> nat \<Rightarrow> u32 \<Rightarrow> u8 list option" where
  "read_flash_string m sz address = flash_string_loop m address sz []"

definition read_phone_info :: "mem \<Rightarrow> u32 \<Rightarrow> u32 \<Rightarrow> (u8 list \<times> u8 list) option" where
  "read_phone_info m model_address vendor_address =
     (case read_flash_string m PHONE_INFO_STRING_SIZE vendor_address of
        None \<Rightarrow> None
      | Some vendor \<Rightarrow>
          (case read_flash_string m PHONE_INFO_STRING_SIZE model_address of
             None \<Rightarrow> None
           | Some model \<Rightarrow> Some (vendor, model)))"

definition print_hardware :: "'h env \<Rightarrow> printer \<Rightarrow> (('h, 'z) machine_scheme, unit) cmd" where
  "print_hardware E T =
     bindM (field E SCU_CHIPID SCU_CHIPID_CHIPD SCU_CHIPID_CHIPD_SHIFT) (\<lambda>chip.
     bindM (field E SCU_CHIPID SCU_CHIPID_CHREV SCU_CHIPID_CHREV_SHIFT) (\<lambda>revision.
     bindM (getM (\<lambda>s. case read_phone_info (ram s) 0xA003E000 0xA003E010 of
              Some vm \<Rightarrow> vm
            | None \<Rightarrow> (case read_phone_info (ram s) 0xA0000210 0xA0000220 of
                Some vm \<Rightarrow> vm
              | None \<Rightarrow> (str ''unknown'', str ''unknown'')))) (\<lambda>(vendor, model).
     printf E (format T) ''# Hardware: vendor=%s, phone=%s, CPU=%s rev=%02X\<newline>''
       [Str vendor, Str model,
        Str (if chip = 0x1A then str ''PMB8875'' else if chip = 0x1B then str ''PMB8876'' else str ''unknown''),
        Num revision])))"

subsection \<open>Time-outs and the real-time clock\<close>

definition reset_timeout :: "'h env \<Rightarrow> (('h, 'z) watched_scheme, unit) cmd" where
  "reset_timeout E = seqM [stopwatch_update E, wdt_set_max_execution_time E TEST_TIMEOUT_MS, wdt_serve E]"

definition test_watchdog_serve :: "'h env \<Rightarrow> (('h, 'z) watched_scheme, unit) cmd" where
  "test_watchdog_serve E = wdt_serve E"

definition test_watchdog_reset :: "'h env \<Rightarrow> (('h, 'z) watched_scheme, unit) cmd" where
  "test_watchdog_reset E = reset_timeout E"

definition test_spin :: "u32 \<Rightarrow> ('s, unit) cmd" where
  "test_spin iterations = retM ()"

definition test_rtc_init :: "'h env \<Rightarrow> (('h, 'z) watched_scheme, unit) cmd" where
  "test_rtc_init E =
     seqM [reset_timeout E,
           wr E SCU_RTCIF 0xAA,
           wr E RTC_CLC (push_bit MOD_CLC_RMC_SHIFT 1),
           wr E RTC_CTRL (RTC_SYNC_CONTROL OR RTC_CTRL_CLR_RTCBAD OR RTC_CTRL_CLR_RTCINT),
           whileM (fuel E) (mapM (\<lambda>v. v AND RTC_CON_ACCPOS = 0) (rd E RTC_CON)) (retM ()),
           wr E RTC_CON RTC_CON_PRE,
           wr E RTC_T14 (push_bit RTC_T14_CNT_SHIFT RTC_T14_RELOAD OR push_bit RTC_T14_REL_SHIFT RTC_T14_RELOAD),
           wr E RTC_CNT RTC_SECOND_COUNTER,
           wr E RTC_REL 0,
           wr E RTC_ALARM 0,
           wr E RTC_SRC 0,
           wr E RTC_ISNC RTC_ISNC_RTC0IE,
           wr E RTC_ISNRC RTC_ISNRC_RTC0,
           rmw E RTC_CON (\<lambda>v. v OR RTC_CON_RUN),
           wr E RTC_CTRL (RTC_CLOCK_CONTROL OR RTC_CTRL_CLR_RTCINT)]"

definition test_rtc_second_elapsed :: "'h env \<Rightarrow> (('h, 'z) machine_scheme, bool) cmd" where
  "test_rtc_second_elapsed E = mapM (\<lambda>v. v AND RTC_CTRL_RTCINT \<noteq> 0) (rd E RTC_CTRL)"

definition test_rtc_wait_second :: "'h env \<Rightarrow> (('h, 'z) watched_scheme, unit) cmd" where
  "test_rtc_wait_second E =
     seqM [whileM (fuel E) (mapM Not (test_rtc_second_elapsed E)) (test_spin 1000),
           test_watchdog_serve E]"

subsection \<open>Reports\<close>

definition report :: "'h env \<Rightarrow> printer \<Rightarrow> string \<Rightarrow> bool \<Rightarrow> (('h, 'z) tested_scheme, bool) cmd" where
  "report E T name passed =
     bindM (modM (\<lambda>s. s\<lparr>assertions := assertions s + 1\<rparr>)) (\<lambda>_.
     bindM (getM assertions) (\<lambda>n.
     bindM (printf E (format T) ''%s %u - %s%s%s\<newline>''
       [Str (if passed then str ''ok'' else str ''not ok''), Num n,
        Str (if passed then COLOR_GREEN T else COLOR_RED T), Str (str name), Str (COLOR_RESET T)]) (\<lambda>_.
     bindM (whenM (\<not> passed) (modM (\<lambda>s. s\<lparr>failures := failures s + 1\<rparr>))) (\<lambda>_.
     retM passed))))"

definition test_start :: "'h env \<Rightarrow> printer \<Rightarrow> string \<Rightarrow> (('h, 'z) tested_scheme, unit) cmd" where
  "test_start E T name =
     seqM [modM (\<lambda>s. s\<lparr>assertions := 0, failures := 0\<rparr>),
           wdt_init E,
           reset_timeout E,
           printf E (format T) ''TAP version 13\<newline>'' [],
           printf E (format T) ''# %s%s%s\<newline>'' [Str (COLOR_CYAN T), Str (str name), Str (COLOR_RESET T)],
           print_hardware E T]"

definition test_category :: "'h env \<Rightarrow> printer \<Rightarrow> string \<Rightarrow> (('h, 'z) tested_scheme, unit) cmd" where
  "test_category E T name =
     seqM [printf E (format T) ''# %s--- %s ---%s\<newline>'' [Str (COLOR_CYAN T), Str (str name), Str (COLOR_RESET T)],
           reset_timeout E]"

definition test_finish :: "'h env \<Rightarrow> printer \<Rightarrow> (('h, 'z) tested_scheme, u32) cmd" where
  "test_finish E T =
     bindM (getM assertions) (\<lambda>n.
     bindM (printf E (format T) ''1..%u\<newline>'' [Num n]) (\<lambda>_.
     bindM (getM failures) (\<lambda>f.
     bindM (printf E (format T) ''# result: %s%s%s (%u failed)\<newline>''
       [Str (if f \<noteq> 0 then COLOR_RED T else COLOR_GREEN T), Str (if f \<noteq> 0 then str ''FAIL'' else str ''PASS''),
        Str (COLOR_RESET T), Num f]) (\<lambda>_.
     bindM (usart_putc E USART0 0) (\<lambda>_.
     retM (if f \<noteq> 0 then 1 else 0))))))"

text \<open>The loop ends with the byte \<^verbatim>\<open>R\<close> of the host.\<close>

definition test_expect_reset :: "'h env \<Rightarrow> printer \<Rightarrow> string \<Rightarrow> (('h, 'z) tested_scheme, unit) cmd" where
  "test_expect_reset E T name =
     bindM (rmw E (USART_RXFCON USART0) (\<lambda>v. v OR USART_RXFCON_RXFFLU)) (\<lambda>_.
     bindM (getM assertions) (\<lambda>n. bindM (getM failures) (\<lambda>f.
     bindM (printf E (format T) ''# HOST-CMD: EXPECT_RESET %u %u %s\<newline>'' [Num (n + 1), Num f, Str (str name)]) (\<lambda>_.
     whileM (fuel E)
       (bindM (whileM (fuel E) (mapM (\<lambda>level. level = 0) (usart_get_rx_fifo_level E USART0)) (test_watchdog_serve E)) (\<lambda>_.
        mapM (\<lambda>v. v \<noteq> of_char (CHR ''R'')) (rd E (USART_RXB USART0))))
       (retM ())))))"

definition test_audio_expect_tone :: "'h env \<Rightarrow> printer \<Rightarrow> u32 \<Rightarrow> u32 \<Rightarrow> u32 \<Rightarrow> (('h, 'z) machine_scheme, unit) cmd" where
  "test_audio_expect_tone E T frequency_hz sample_rate_hz duration_ms =
     printf E (format T) ''# AUDIO-EXPECT: TONE hz=%lu rate=%lu ms=%lu\<newline>'' [Num frequency_hz, Num sample_rate_hz, Num duration_ms]"

definition test_skip :: "'h env \<Rightarrow> printer \<Rightarrow> string \<Rightarrow> string \<Rightarrow> (('h, 'z) tested_scheme, unit) cmd" where
  "test_skip E T name reason =
     bindM (modM (\<lambda>s. s\<lparr>assertions := assertions s + 1\<rparr>)) (\<lambda>_.
     bindM (getM assertions) (\<lambda>n.
     bindM (printf E (format T) ''ok %u - %s%s # SKIP %s%s\<newline>''
       [Num n, Str (COLOR_YELLOW T), Str (str name), Str (str reason), Str (COLOR_RESET T)]) (\<lambda>_.
     reset_timeout E)))"

definition test_check :: "'h env \<Rightarrow> printer \<Rightarrow> string \<Rightarrow> bool \<Rightarrow> (('h, 'z) tested_scheme, bool) cmd" where
  "test_check E T name condition =
     bindM (report E T name condition) (\<lambda>passed. bindM (reset_timeout E) (\<lambda>_. retM passed))"

definition test_eq_u32 :: "'h env \<Rightarrow> printer \<Rightarrow> string \<Rightarrow> u32 \<Rightarrow> u32 \<Rightarrow> (('h, 'z) tested_scheme, bool) cmd" where
  "test_eq_u32 E T name expected actual =
     bindM (report E T name (actual = expected)) (\<lambda>passed.
     bindM (whenM (\<not> passed)
       (seqM [printf E (format T) ''# %sexpected: %08lX%s\<newline>'' [Str (COLOR_YELLOW T), Num expected, Str (COLOR_RESET T)],
              printf E (format T) ''# %sactual:   %08lX%s\<newline>'' [Str (COLOR_RED T), Num actual, Str (COLOR_RESET T)]])) (\<lambda>_.
     bindM (reset_timeout E) (\<lambda>_. retM passed)))"

definition test_id_u32 :: "'h env \<Rightarrow> printer \<Rightarrow> string \<Rightarrow> u32 \<Rightarrow> u32 \<Rightarrow> (('h, 'z) tested_scheme, bool) cmd" where
  "test_id_u32 E T name expected actual =
     bindM (printf E (format T) ''# %s: %08lX\<newline>'' [Str (str name), Num actual]) (\<lambda>_. test_eq_u32 E T name expected actual)"

definition test_module_id :: "'h env \<Rightarrow> printer \<Rightarrow> string \<Rightarrow> u32 \<Rightarrow> u32 \<Rightarrow> (('h, 'z) tested_scheme, bool) cmd" where
  "test_module_id E T name expected actual =
     bindM (printf E (format T) ''# %s: %08lX\<newline>'' [Str (str name), Num actual]) (\<lambda>_.
     test_eq_u32 E T name (expected AND NOT MOD_ID_REV) (actual AND NOT MOD_ID_REV))"

definition test_module_clock :: "'h env \<Rightarrow> printer \<Rightarrow> string \<Rightarrow> u32 \<Rightarrow> (('h, 'z) tested_scheme, bool) cmd" where
  "test_module_clock E T name clc =
     (let enabled = (clc AND (MOD_CLC_DISR OR MOD_CLC_DISS) = 0 \<and> clc AND MOD_CLC_RMC \<noteq> 0) in
      bindM (report E T name enabled) (\<lambda>_.
      bindM (whenM (\<not> enabled) (printf E (format T) ''# %sCLC=%08lX%s\<newline>'' [Str (COLOR_RED T), Num clc, Str (COLOR_RESET T)])) (\<lambda>_.
      bindM (reset_timeout E) (\<lambda>_. retM enabled))))"

definition test_amba_part_id :: "'h env \<Rightarrow> printer \<Rightarrow> string \<Rightarrow> u16 \<Rightarrow> u32 \<Rightarrow> u32 \<Rightarrow> (('h, 'z) tested_scheme, bool) cmd" where
  "test_amba_part_id E T name expected id0 id1 =
     (let actual = ucast ((id0 AND 0xFF) OR push_bit 8 (id1 AND 0x0F)) :: u16
      in test_id_u32 E T name (ucast expected) (ucast actual))"

text \<open>The loop that looks for the first difference, with \<open>n\<close> bytes to go.\<close>

primrec match_loop :: "nat \<Rightarrow> u8 list \<Rightarrow> u8 list \<Rightarrow> nat \<Rightarrow> fault + nat" where
  "match_loop 0 expected actual offset = Inr offset"
| "match_loop (Suc n) expected actual offset =
     (if offset < length expected \<and> offset < length actual
      then if expected ! offset = actual ! offset then match_loop n expected actual (offset + 1) else Inr offset
      else Inl Out_Of_Bounds)"

definition test_eq_memory ::
  "'h env \<Rightarrow> printer \<Rightarrow> string \<Rightarrow> u8 list \<Rightarrow> u8 list \<Rightarrow> nat \<Rightarrow> (('h, 'z) tested_scheme, bool) cmd" where
  "test_eq_memory E T name expected actual sz =
     bindM (liftE (match_loop sz expected actual 0)) (\<lambda>offset.
     bindM (report E T name (offset = sz)) (\<lambda>passed.
     bindM (whenM (\<not> passed)
       (seqM [printf E (format T) ''# %soffset:   %u%s\<newline>'' [Str (COLOR_YELLOW T), Num (of_nat offset), Str (COLOR_RESET T)],
              printf E (format T) ''# %sexpected: %02X%s\<newline>'' [Str (COLOR_YELLOW T), Num (ucast (expected ! offset)), Str (COLOR_RESET T)],
              printf E (format T) ''# %sactual:   %02X%s\<newline>'' [Str (COLOR_RED T), Num (ucast (actual ! offset)), Str (COLOR_RESET T)]])) (\<lambda>_.
     bindM (reset_timeout E) (\<lambda>_. retM passed))))"

subsection \<open>Waiting\<close>

definition test_wait_for_flag :: "'h env \<Rightarrow> u32 \<Rightarrow> u32 \<Rightarrow> u32 \<Rightarrow> (('h, 'z) watched_scheme, bool) cmd" where
  "test_wait_for_flag E reg flag timeout_ms =
     bindM (stopwatch_get E) (\<lambda>start.
     bindM (whileM (fuel E)
       (bindM (rd E reg) (\<lambda>v. if v AND flag = 0 then mapM (\<lambda>t. t < timeout_ms) (stopwatch_elapsed_ms E start) else retM False))
       (test_watchdog_serve E)) (\<lambda>_.
     mapM (\<lambda>v. v AND flag \<noteq> 0) (rd E reg)))"

definition test_u32_in_interval :: "u32 \<Rightarrow> u32 \<Rightarrow> u32 \<Rightarrow> bool" where
  "test_u32_in_interval value lo hi \<longleftrightarrow> value - lo \<le> hi - lo"

definition test_is_qemu :: "'h env \<Rightarrow> (('h, 'z) machine_scheme, bool) cmd" where
  "test_is_qemu E = mapM (\<lambda>v. v = SCU_EMU_ID_VALUE_QEMU) (rd E SCU_EMU_ID)"

definition test_stm_ticks_per_ms :: "'h env \<Rightarrow> (('h, 'z) machine_scheme, u32) cmd" where
  "test_stm_ticks_per_ms E =
     bindM (cpu_get_stm_freq E) (\<lambda>hz. let hz = (if hz = 0 then 26000000 else hz) in retM (hz div 1000))"

definition test_elapsed_bound_ms :: "'h env \<Rightarrow> u64 \<Rightarrow> u32 \<Rightarrow> (('h, 'z) machine_scheme, bool) cmd" where
  "test_elapsed_bound_ms E start ms =
     bindM (test_stm_ticks_per_ms E) (\<lambda>tpm. let ticks = ucast ms * ucast tpm :: u64 in
     mapM (\<lambda>d. d \<ge> (if ticks \<noteq> 0 then ticks else 1)) (stopwatch_elapsed E start))"

definition test_heartbeat :: "'h env \<Rightarrow> (('h, 'z) tested_scheme, unit) cmd" where
  "test_heartbeat E =
     bindM (stopwatch_get E) (\<lambda>now.
     bindM (getM last_heartbeat) (\<lambda>last.
     bindM (test_stm_ticks_per_ms E) (\<lambda>tpm.
     if now - last < TEST_HEARTBEAT_MS * ucast tpm then retM ()
     else seqM [modM (\<lambda>s. s\<lparr>last_heartbeat := now\<rparr>), usart_putc E USART0 (of_char (CHR ''.''))])))"

definition test_heartbeat_end :: "'h env \<Rightarrow> (('h, 'z) machine_scheme, unit) cmd" where
  "test_heartbeat_end E = usart_putc E USART0 0x0A"

section \<open>What an observer of the counters sees\<close>

context suite_observer
begin

lemma silent_reset_timeout: "silent (reset_timeout E)"
  unfolding reset_timeout_def wdt_set_max_execution_time_def
  by (intro silent_intros silent_stopwatch_update silent_stopwatch_get silent_mod silent_wdt_serve)
     (simp_all add: obs_start obs_timeout)

end

definition tally :: "('h, 'z) tested_scheme \<Rightarrow> u32 \<times> u32" where
  "tally s = (assertions s, failures s)"

interpretation tally: suite_observer "tally :: ('h, 'z) tested_scheme \<Rightarrow> u32 \<times> u32"
  by unfold_locales (simp_all add: tally_def)

section \<open>The report as a function of the counters\<close>

text \<open>
  \<open>emits c f\<close>: when \<open>c\<close> returns, it has taken nothing from the host, and its value, the bytes it has sent
  and the new counters are the function \<open>f\<close> of the old counters.
\<close>

definition emits :: "(('h, 'z) tested_scheme, 'a) cmd \<Rightarrow> (u32 \<times> u32 \<Rightarrow> 'a \<times> u8 list \<times> u32 \<times> u32) \<Rightarrow> bool" where
  "emits c f \<longleftrightarrow> does tally c (\<lambda>x tr a b. rxb tr = [] \<and> f a = (x, txb tr, b))"

lemma emits_cong: "emits c f \<Longrightarrow> (\<And>a. f a = g a) \<Longrightarrow> emits c g"
  unfolding emits_def by (erule does_mono) simp

lemma emits_bind:
  assumes "emits c f" "\<And>x. emits (d x) (g x)"
  shows "emits (bindM c d) (\<lambda>a. case f a of (x, o1, b) \<Rightarrow> case g x b of (y, o2, e) \<Rightarrow> (y, o1 @ o2, e))"
  unfolding emits_def
  by (rule does_bind [OF assms(1) [unfolded emits_def]], rule does_mono [OF assms(2) [unfolded emits_def]]) auto

lemma emits_ret: "emits (retM x) (\<lambda>a. (x, [], a))"
  unfolding emits_def by (rule does_ret) simp

lemma emits_assertions: "emits (getM assertions) (\<lambda>a. (fst a, [], a))"
  and emits_failures: "emits (getM failures) (\<lambda>a. (snd a, [], a))"
  unfolding emits_def by (rule does_get, simp add: tally_def)+

lemma emits_count: "emits (modM (\<lambda>s. s\<lparr>assertions := assertions s + 1\<rparr>)) (\<lambda>a. ((), [], (fst a + 1, snd a)))"
  and emits_fail_count: "emits (modM (\<lambda>s. s\<lparr>failures := failures s + 1\<rparr>)) (\<lambda>a. ((), [], (fst a, snd a + 1)))"
  and emits_zero: "emits (modM (\<lambda>s. s\<lparr>assertions := 0, failures := 0\<rparr>)) (\<lambda>a. ((), [], (0, 0)))"
  unfolding emits_def by (rule does_mod, simp_all add: tally_def)+

lemma emits_printf: "emits (printf E (format T) f args) (\<lambda>a. ((), format T f args, a))"
  unfolding emits_def by (rule does_mono [OF tally.does_printf]) simp

lemma emits_putc: "emits (usart_putc E USART0 v) (\<lambda>a. ((), [v], a))"
  unfolding emits_def usart_putc_def by (rule does_mono [OF tally.does_reply]) simp

lemma emits_silent: "tally.silent c \<Longrightarrow> emits c (\<lambda>a. ((), [], a))"
  unfolding emits_def by (erule does_mono) (simp add: quiet_def)

lemma emits_when: "emits c f \<Longrightarrow> emits (whenM b c) (\<lambda>a. if b then f a else ((), [], a))"
  by (simp add: whenM_def emits_ret)

lemma emits_seq:
  "emits (seqM []) (\<lambda>a. ((), [], a))"
  "emits c f \<Longrightarrow> emits (seqM cs) g \<Longrightarrow>
     emits (seqM (c # cs)) (\<lambda>a. case f a of (x, o1, b) \<Rightarrow> case g b of (y, o2, e) \<Rightarrow> (y, o1 @ o2, e))"
  unfolding seqM.simps by (rule emits_ret emits_bind, assumption?)+

lemma emits_liftE: "(\<And>x. m = Inr x \<Longrightarrow> x = v) \<Longrightarrow> emits (liftE m) (\<lambda>a. (v, [], a))"
  unfolding emits_def by (rule does_liftE) auto

lemmas emits_rules = emits_bind emits_ret emits_assertions emits_failures emits_count emits_fail_count emits_zero emits_printf
  emits_putc emits_when emits_seq emits_silent [OF tally.silent_reset_timeout] emits_silent [OF tally.silent_wdt_init]

text \<open>A report line, and the counters after a report.\<close>

definition result_line :: "printer \<Rightarrow> string \<Rightarrow> bool \<Rightarrow> u32 \<Rightarrow> u8 list" where
  "result_line T name passed n = format T ''%s %u - %s%s%s\<newline>''
     [Str (if passed then str ''ok'' else str ''not ok''), Num n,
      Str (if passed then COLOR_GREEN T else COLOR_RED T), Str (str name), Str (COLOR_RESET T)]"

definition counted :: "bool \<Rightarrow> u32 \<times> u32 \<Rightarrow> u32 \<times> u32" where
  "counted passed a = (fst a + 1, if passed then snd a else snd a + 1)"

lemma emits_report: "emits (report E T name p) (\<lambda>a. (p, result_line T name p (fst a + 1), counted p a))"
  unfolding report_def by (rule emits_cong, (rule emits_rules)+) (simp add: result_line_def counted_def)

section \<open>A suite\<close>

text \<open>A suite makes a sequence of these calls between \<^verbatim>\<open>test_start\<close> and \<^verbatim>\<open>test_finish\<close>.\<close>

datatype test_call =
    Category string
  | Check string bool
  | Eq_U32 string u32 u32
  | Id_U32 string u32 u32
  | Module_Id string u32 u32
  | Module_Clock string u32
  | Amba_Part_Id string u16 u32 u32
  | Eq_Memory string "u8 list" "u8 list" nat
  | Skip string string
  | Expect_Tone u32 u32 u32

definition run_call :: "'h env \<Rightarrow> printer \<Rightarrow> test_call \<Rightarrow> (('h, 'z) tested_scheme, unit) cmd" where
  "run_call E T c = (case c of
     Category name \<Rightarrow> test_category E T name
   | Check name b \<Rightarrow> mapM (\<lambda>_. ()) (test_check E T name b)
   | Eq_U32 name e a \<Rightarrow> mapM (\<lambda>_. ()) (test_eq_u32 E T name e a)
   | Id_U32 name e a \<Rightarrow> mapM (\<lambda>_. ()) (test_id_u32 E T name e a)
   | Module_Id name e a \<Rightarrow> mapM (\<lambda>_. ()) (test_module_id E T name e a)
   | Module_Clock name clc \<Rightarrow> mapM (\<lambda>_. ()) (test_module_clock E T name clc)
   | Amba_Part_Id name e i0 i1 \<Rightarrow> mapM (\<lambda>_. ()) (test_amba_part_id E T name e i0 i1)
   | Eq_Memory name e a n \<Rightarrow> mapM (\<lambda>_. ()) (test_eq_memory E T name e a n)
   | Skip name reason \<Rightarrow> test_skip E T name reason
   | Expect_Tone f r d \<Rightarrow> test_audio_expect_tone E T f r d)"

definition run_suite :: "'h env \<Rightarrow> printer \<Rightarrow> string \<Rightarrow> test_call list \<Rightarrow> (('h, 'z) tested_scheme, u32) cmd" where
  "run_suite E T name cs =
     bindM (test_start E T name) (\<lambda>_. bindM (forM cs (run_call E T)) (\<lambda>_. test_finish E T))"

text \<open>What a call decides: \<open>None\<close> for the calls that are not tests.\<close>

definition same_bits :: "u32 \<Rightarrow> u32 \<Rightarrow> u32 \<Rightarrow> bool" where
  "same_bits m x y \<longleftrightarrow> x AND m = y AND m"

definition verdict :: "test_call \<Rightarrow> bool option" where
  "verdict c = (case c of
     Category name \<Rightarrow> None
   | Check name b \<Rightarrow> Some b
   | Eq_U32 name e a \<Rightarrow> Some (a = e)
   | Id_U32 name e a \<Rightarrow> Some (a = e)
   | Module_Id name e a \<Rightarrow> Some (same_bits (NOT MOD_ID_REV) a e)
   | Module_Clock name clc \<Rightarrow> Some (\<not> bit clc 0 \<and> \<not> bit clc 1 \<and> clc AND MOD_CLC_RMC \<noteq> 0)
   | Amba_Part_Id name e i0 i1 \<Rightarrow> Some (e = ucast ((i0 AND 0xFF) OR push_bit 8 (i1 AND 0x0F)))
   | Eq_Memory name e a n \<Rightarrow> Some (take n a = take n e)
   | Skip name reason \<Rightarrow> Some True
   | Expect_Tone f r d \<Rightarrow> None)"

text \<open>The line of the protocol that reports test number \<open>n\<close>.\<close>

definition tap_line :: "printer \<Rightarrow> test_call \<Rightarrow> u32 \<Rightarrow> u8 list" where
  "tap_line T c n = (case c of
     Category name \<Rightarrow> [] | Expect_Tone f r d \<Rightarrow> []
   | Skip name reason \<Rightarrow> format T ''ok %u - %s%s # SKIP %s%s\<newline>''
       [Num n, Str (COLOR_YELLOW T), Str (str name), Str (str reason), Str (COLOR_RESET T)]
   | Check name b \<Rightarrow> result_line T name (the (verdict c)) n
   | Eq_U32 name e a \<Rightarrow> result_line T name (the (verdict c)) n
   | Id_U32 name e a \<Rightarrow> result_line T name (the (verdict c)) n
   | Module_Id name e a \<Rightarrow> result_line T name (the (verdict c)) n
   | Module_Clock name clc \<Rightarrow> result_line T name (the (verdict c)) n
   | Amba_Part_Id name e i0 i1 \<Rightarrow> result_line T name (the (verdict c)) n
   | Eq_Memory name e a k \<Rightarrow> result_line T name (the (verdict c)) n)"

text \<open>
  \<open>comment T s\<close>: what \<open>s\<close> consists of was printed with formats that start a comment. The transcript of a
  suite is, for every call in turn, comments, the numbered line of the call, and comments.
\<close>

inductive comment :: "printer \<Rightarrow> u8 list \<Rightarrow> bool" for T where
  none: "comment T []"
| more: "comment T s \<Longrightarrow> comment T (format T (CHR ''#'' # f) args @ s)"

inductive transcript :: "printer \<Rightarrow> u32 \<Rightarrow> test_call list \<Rightarrow> u8 list \<Rightarrow> bool" for T where
  finished: "transcript T n [] []"
| called: "comment T before \<Longrightarrow> comment T after \<Longrightarrow> m = (if verdict c = None then n else n + 1) \<Longrightarrow>
    transcript T m cs rest \<Longrightarrow> transcript T n (c # cs) (before @ tap_line T c m @ after @ rest)"

definition tally_after :: "test_call \<Rightarrow> u32 \<times> u32 \<Rightarrow> u32 \<times> u32" where
  "tally_after c a = (case verdict c of None \<Rightarrow> a | Some p \<Rightarrow> counted p a)"

text \<open>One call.\<close>

definition says :: "printer \<Rightarrow> test_call \<Rightarrow> (('h, 'z) tested_scheme, 'a) cmd \<Rightarrow> bool" where
  "says T c m \<longleftrightarrow> (\<exists>f before after. emits m f \<and> (\<forall>a. comment T (before a) \<and> comment T (after a) \<and>
     snd (f a) = (before a @ tap_line T c (fst (tally_after c a)) @ after a, tally_after c a)))"

lemma comment_single: "comment T (format T (CHR ''#'' # f) args)"
  using comment.more [OF comment.none] by simp

lemma comment_append: "comment T s \<Longrightarrow> comment T t \<Longrightarrow> comment T (s @ t)"
  by (induction rule: comment.induct) (auto intro: comment.more simp: append_assoc)

lemmas comments = comment_single comment_append comment.none

lemma saysI:
  assumes "emits m f" "\<And>a. snd (f a) = (before a @ tap_line T c (fst (tally_after c a)) @ after a, tally_after c a)"
    and "\<And>a. comment T (before a)" "\<And>a. comment T (after a)"
  shows "says T c m"
  unfolding says_def using assms by (intro exI [of _ f] exI [of _ before] exI [of _ after]) simp

lemma says_map: "says T c m \<Longrightarrow> says T c (mapM g m)"
  unfolding says_def
proof (elim exE conjE)
  fix f before after
  assume f: "emits m f" "\<forall>a. comment T (before a) \<and> comment T (after a) \<and>
     snd (f a) = (before a @ tap_line T c (fst (tally_after c a)) @ after a, tally_after c a)"
  have "emits (mapM g m) (\<lambda>a. (g (fst (f a)), snd (f a)))"
    unfolding mapM_def by (rule emits_cong [OF emits_bind [OF f(1) emits_ret]]) (simp split: prod.splits)
  with f(2) show "\<exists>f before after. emits (mapM g m) f \<and> (\<forall>a. comment T (before a) \<and> comment T (after a) \<and>
     snd (f a) = (before a @ tap_line T c (fst (tally_after c a)) @ after a, tally_after c a))"
    by (intro exI [of _ "\<lambda>a. (g (fst (f a)), snd (f a))"] exI [of _ before] exI [of _ after]) simp
qed

lemmas tap_simps = tap_line_def verdict_def tally_after_def counted_def

lemma says_category: "says T (Category name) (test_category E T name)"
  unfolding test_category_def
  by (rule saysI [where before = "\<lambda>_. format T ''# %s--- %s ---%s\<newline>'' [Str (COLOR_CYAN T), Str (str name), Str (COLOR_RESET T)]"
        and after = "\<lambda>_. []"], (rule emits_rules)+) (simp_all add: tap_simps comments)

lemma says_tone: "says T (Expect_Tone f r d) (test_audio_expect_tone E T f r d)"
  unfolding test_audio_expect_tone_def
  by (rule saysI [where before = "\<lambda>_. format T ''# AUDIO-EXPECT: TONE hz=%lu rate=%lu ms=%lu\<newline>'' [Num f, Num r, Num d]"
        and after = "\<lambda>_. []"], (rule emits_rules)+) (simp_all add: tap_simps comments)

lemma says_skip: "says T (Skip name reason) (test_skip E T name reason)"
  unfolding test_skip_def
  by (rule saysI [where before = "\<lambda>_. []" and after = "\<lambda>_. []"], (rule emits_rules)+) (simp_all add: tap_simps comments)

lemma says_check: "says T (Check name b) (test_check E T name b)"
  unfolding test_check_def
  by (rule saysI [where before = "\<lambda>_. []" and after = "\<lambda>_. []"], (rule emits_report emits_rules)+)
     (simp_all add: tap_simps comments)

text \<open>The diagnostics that follow a failed comparison.\<close>

definition expected_actual :: "printer \<Rightarrow> u32 \<Rightarrow> u32 \<Rightarrow> u8 list" where
  "expected_actual T e v =
     format T ''# %sexpected: %08lX%s\<newline>'' [Str (COLOR_YELLOW T), Num e, Str (COLOR_RESET T)] @
     format T ''# %sactual:   %08lX%s\<newline>'' [Str (COLOR_RED T), Num v, Str (COLOR_RESET T)]"

lemma comment_expected_actual: "comment T (if p then [] else expected_actual T e v)"
  by (simp add: expected_actual_def comments)

lemma emits_eq_u32:
  "emits (test_eq_u32 E T name e v) (\<lambda>a. (v = e, result_line T name (v = e) (fst a + 1) @
     (if v = e then [] else expected_actual T e v), counted (v = e) a))"
  unfolding test_eq_u32_def
  by (rule emits_cong, (rule emits_report emits_rules)+) (simp add: expected_actual_def)

lemma says_eq_u32: "says T (Eq_U32 name e v) (test_eq_u32 E T name e v)"
  by (rule saysI [OF emits_eq_u32, where before = "\<lambda>_. []" and after = "\<lambda>_. if v = e then [] else expected_actual T e v"])
     (simp_all add: tap_simps comments comment_expected_actual)

lemma emits_id_u32:
  "emits (test_id_u32 E T name e v) (\<lambda>a. (v = e, format T ''# %s: %08lX\<newline>'' [Str (str name), Num v] @
     result_line T name (v = e) (fst a + 1) @ (if v = e then [] else expected_actual T e v), counted (v = e) a))"
  unfolding test_id_u32_def by (rule emits_cong, (rule emits_eq_u32 emits_rules)+) simp

lemma says_id_u32: "says T (Id_U32 name e v) (test_id_u32 E T name e v)"
  by (rule saysI [OF emits_id_u32, where before = "\<lambda>_. format T ''# %s: %08lX\<newline>'' [Str (str name), Num v]"
        and after = "\<lambda>_. if v = e then [] else expected_actual T e v"])
     (simp_all add: tap_simps comments comment_expected_actual)

lemma says_amba: "says T (Amba_Part_Id name e i0 i1) (test_amba_part_id E T name e i0 i1)"
proof -
  let ?v = "ucast ((i0 AND 0xFF) OR push_bit 8 (i1 AND 0x0F)) :: u16"
  have "(ucast ?v = (ucast e :: u32)) = (e = ?v)"
    by (metis unat_ucast_widen(2) word_unat_eq_iff)
  then show ?thesis
    unfolding test_amba_part_id_def Let_def
    by (intro saysI [OF emits_id_u32, where before = "\<lambda>_. format T ''# %s: %08lX\<newline>'' [Str (str name), Num (ucast ?v)]"
          and after = "\<lambda>_. if e = ?v then [] else expected_actual T (ucast e) (ucast ?v)"])
       (simp_all add: tap_simps comments comment_expected_actual)
qed

lemma says_module_id: "says T (Module_Id name e v) (test_module_id E T name e v)"
  unfolding test_module_id_def
  by (rule saysI [where before = "\<lambda>_. format T ''# %s: %08lX\<newline>'' [Str (str name), Num v]"
        and after = "\<lambda>_. if same_bits (NOT MOD_ID_REV) v e then []
          else expected_actual T (e AND NOT MOD_ID_REV) (v AND NOT MOD_ID_REV)"], (rule emits_eq_u32 emits_rules)+)
     (simp_all add: tap_simps same_bits_def comments comment_expected_actual)

lemma clc_bits: "clc AND (MOD_CLC_DISR OR MOD_CLC_DISS) = 0 \<longleftrightarrow> \<not> bit clc 0 \<and> \<not> bit clc 1"
proof -
  have "clc AND 3 = 0 \<longleftrightarrow> take_bit 2 clc = 0" by (simp add: take_bit_eq_mask mask_eq_exp_minus_1)
  also have "\<dots> \<longleftrightarrow> \<not> bit clc 0 \<and> \<not> bit clc 1"
  proof
    assume z: "take_bit 2 clc = 0"
    show "\<not> bit clc 0 \<and> \<not> bit clc 1" using bit_take_bit_iff [of 2 clc 0] bit_take_bit_iff [of 2 clc 1] z by simp
  next
    assume a: "\<not> bit clc 0 \<and> \<not> bit clc 1"
    have "bit (take_bit 2 clc) n = bit 0 n" for n using a by (cases "n = 0"; cases "n = 1") (auto simp: bit_take_bit_iff)
    then show "take_bit 2 clc = 0" by (simp add: bit_word_eqI)
  qed
  finally show ?thesis by simp
qed

lemma says_clock: "says T (Module_Clock name clc) (test_module_clock E T name clc)"
  unfolding test_module_clock_def Let_def clc_bits
  by (rule saysI [where before = "\<lambda>_. []"
        and after = "\<lambda>_. if \<not> bit clc 0 \<and> \<not> bit clc 1 \<and> clc AND MOD_CLC_RMC \<noteq> 0 then []
          else format T ''# %sCLC=%08lX%s\<newline>'' [Str (COLOR_RED T), Num clc, Str (COLOR_RESET T)]"],
        (rule emits_report emits_rules)+)
     (auto simp: tap_simps comments)

lemma match_loop_result:
  "match_loop n e a i = Inr j \<Longrightarrow> j \<le> i + n \<and> (j = i + n \<longleftrightarrow> take n (drop i a) = take n (drop i e))"
proof (induction n arbitrary: i)
  case (Suc n)
  then have i: "i < length e" "i < length a" by (auto split: if_splits)
  then have d: "drop i e = e ! i # drop (Suc i) e" "drop i a = a ! i # drop (Suc i) a" by (simp_all add: Cons_nth_drop_Suc)
  show ?case using Suc.prems Suc.IH [of "Suc i"] i by (auto simp: d split: if_splits)
qed simp

lemma says_memory: "says T (Eq_Memory name e v n) (test_eq_memory E T name e v n)"
proof (cases "match_loop n e v 0")
  case (Inl f)
  have "emits (test_eq_memory E T name e v n) (\<lambda>a. (undefined, tap_line T (Eq_Memory name e v n)
      (fst (tally_after (Eq_Memory name e v n) a)), tally_after (Eq_Memory name e v n) a))"
    by (simp add: emits_def does_def wp test_eq_memory_def Inl)
  then show ?thesis by (rule saysI [where before = "\<lambda>_. []" and after = "\<lambda>_. []"]) (simp_all add: comments)
next
  case (Inr j)
  have j: "j = n \<longleftrightarrow> take n v = take n e" using match_loop_result [OF Inr] by simp
  have r: "bindM (liftE (Inr j)) g = g j" for g :: "nat \<Rightarrow> (('a, 'b) tested_scheme, bool) cmd"
    by (simp add: bindM_def liftE_def fun_eq_iff)
  show ?thesis
    unfolding test_eq_memory_def Inr r
    by (rule saysI [where before = "\<lambda>_. []" and after = "\<lambda>_. if j = n then [] else
          format T ''# %soffset:   %u%s\<newline>'' [Str (COLOR_YELLOW T), Num (of_nat j), Str (COLOR_RESET T)] @
          format T ''# %sexpected: %02X%s\<newline>'' [Str (COLOR_YELLOW T), Num (ucast (e ! j)), Str (COLOR_RESET T)] @
          format T ''# %sactual:   %02X%s\<newline>'' [Str (COLOR_RED T), Num (ucast (v ! j)), Str (COLOR_RESET T)]"],
          (rule emits_report emits_rules)+)
       (simp_all add: tap_simps comments j [symmetric])
qed

lemma says_call: "says T c (run_call E T c)"
  unfolding run_call_def
  by (cases c) (simp_all add: says_map says_category says_check says_eq_u32 says_id_u32 says_module_id says_clock says_amba
      says_memory says_skip says_tone)

text \<open>The counters after a sequence of calls, and what they count.\<close>

lemma tally_fold:
  "fold tally_after cs (n, f) =
     (n + of_nat (length (filter (\<lambda>c. verdict c \<noteq> None) cs)), f + of_nat (length (filter (\<lambda>c. verdict c = Some False) cs)))"
  by (induction cs arbitrary: n f) (auto simp: tally_after_def counted_def split: option.splits)

lemma transcript_calls:
  "does tally (forM cs (run_call E T) :: (('h, 'z) tested_scheme, unit) cmd)
     (\<lambda>_ tr a b. rxb tr = [] \<and> transcript T (fst a) cs (txb tr) \<and> b = fold tally_after cs a)"
proof (induction cs)
  case Nil
  then show ?case by (simp add: does_ret transcript.finished)
next
  case (Cons c cs)
  obtain f before after where f: "emits (run_call E T c :: (('h, 'z) tested_scheme, unit) cmd) f"
    "\<And>a. comment T (before a)" "\<And>a. comment T (after a)"
    "\<And>a. snd (f a) = (before a @ tap_line T c (fst (tally_after c a)) @ after a, tally_after c a)"
    using says_call [of T c E] unfolding says_def by blast
  have step: "transcript T (fst a) (c # cs) ((before a @ tap_line T c (fst (tally_after c a)) @ after a) @ rest)"
    if "transcript T (fst (tally_after c a)) cs rest" for a rest
  proof -
    have "fst (tally_after c a) = (if verdict c = None then fst a else fst a + 1)"
      by (auto simp: tally_after_def counted_def split: option.splits)
    from transcript.called [OF f(2,3) this that] show ?thesis by simp
  qed
  have "does tally (run_call E T c :: (('h, 'z) tested_scheme, unit) cmd)
      (\<lambda>_ tr a b. rxb tr = [] \<and> txb tr = before a @ tap_line T c (fst (tally_after c a)) @ after a \<and> b = tally_after c a)"
    using f(1) unfolding emits_def by (rule does_mono) (metis f(4) prod.inject snd_conv)
  then show ?case
    unfolding forM.simps by (rule does_bind) (rule does_mono [OF Cons.IH], auto simp: step [of "(x, y)" for x y, simplified])
qed

lemma does_hardware:
  "does tally (print_hardware E T :: (('h, 'z) tested_scheme, unit) cmd) (\<lambda>_ tr a b. rxb tr = [] \<and> comment T (txb tr) \<and> b = a)"
  unfolding print_hardware_def field_def
  by (rule does_bind [OF tally.silent_map [OF tally.silent_read]], simp,
      rule does_bind [OF tally.silent_map [OF tally.silent_read]], simp,
      rule does_bind [OF tally.silent_simple(2)])
     (auto simp: quiet_def comments split: prod.splits intro!: does_mono [OF tally.does_printf])

definition tap_header :: "printer \<Rightarrow> string \<Rightarrow> u8 list" where
  "tap_header T name = format T ''TAP version 13\<newline>'' [] @
     format T ''# %s%s%s\<newline>'' [Str (COLOR_CYAN T), Str (str name), Str (COLOR_RESET T)]"

definition tap_footer :: "printer \<Rightarrow> u32 \<Rightarrow> u32 \<Rightarrow> u8 list" where
  "tap_footer T n f = format T ''1..%u\<newline>'' [Num n] @
     format T ''# result: %s%s%s (%u failed)\<newline>''
       [Str (if f \<noteq> 0 then COLOR_RED T else COLOR_GREEN T), Str (if f \<noteq> 0 then str ''FAIL'' else str ''PASS''),
        Str (COLOR_RESET T), Num f] @ [0]"

lemma does_start:
  "does tally (test_start E T name :: (('h, 'z) tested_scheme, unit) cmd)
     (\<lambda>_ tr a b. rxb tr = [] \<and> (\<exists>hardware. comment T hardware \<and> txb tr = tap_header T name @ hardware) \<and> b = (0, 0))"
proof -
  have "test_start E T name = bindM (seqM [modM (\<lambda>s. s\<lparr>assertions := 0, failures := 0\<rparr>), wdt_init E, reset_timeout E,
           printf E (format T) ''TAP version 13\<newline>'' [],
           printf E (format T) ''# %s%s%s\<newline>'' [Str (COLOR_CYAN T), Str (str name), Str (COLOR_RESET T)]])
      (\<lambda>_. print_hardware E T :: (('h, 'z) tested_scheme, unit) cmd)"
    unfolding test_start_def seqM.simps bindM_assoc bindM_ret
    by (simp add: bindM_def retM_def fun_eq_iff split: sum.splits)
  moreover have "emits (seqM [modM (\<lambda>s. s\<lparr>assertions := 0, failures := 0\<rparr>), wdt_init E, reset_timeout E,
           printf E (format T) ''TAP version 13\<newline>'' [],
           printf E (format T) ''# %s%s%s\<newline>'' [Str (COLOR_CYAN T), Str (str name), Str (COLOR_RESET T)]]
       :: (('h, 'z) tested_scheme, unit) cmd) (\<lambda>a. ((), tap_header T name, (0, 0)))"
    by (rule emits_cong, (rule emits_rules)+) (simp add: tap_header_def)
  ultimately show ?thesis
    unfolding emits_def by (simp only:) (erule does_bind, rule does_mono [OF does_hardware], auto)
qed

lemma emits_finish:
  "emits (test_finish E T) (\<lambda>a. (if snd a \<noteq> 0 then 1 else 0, tap_footer T (fst a) (snd a), a))"
  unfolding test_finish_def by (rule emits_cong, (rule emits_rules)+) (simp add: tap_footer_def)

text \<open>A concrete run: a transmitter that is always empty and a clock of 26 MHz.\<close>

definition bench :: "unit env" where
  "bench = \<lparr>dev_read = (\<lambda>w a h. (if a = USART_FSTAT USART0 then 0 else 0x100, h)), dev_write = (\<lambda>w a v h. h), fuel = 1,
     cpu = PMB8876, pm_wadog = False, pmic = PMIC_none\<rparr>"

definition mute_printer :: printer where
  "mute_printer = \<lparr>format = (\<lambda>f args. []), test_color = False\<rparr>"

definition bench_state :: "unit tested" where
  "bench_state = \<lparr>hw = (), trace = [], cpsr = 0, ram = (\<lambda>_. 0), ticks_per_s = 0, start_execution = 0, wdt_timeout = 0,
     last_wdt_serve = 0, wdt_interval = 0, wdt_off = True, assertions = 0, failures = 0, fault_recovery_armed = False,
     fault_nesting = 0, last_heartbeat = 0\<rparr>"

lemma bench_run:
  "case run_suite bench mute_printer ''demo'' [Check ''one'' True, Check ''two'' False] bench_state of
     Inl e \<Rightarrow> False | Inr (code, t) \<Rightarrow> code = 1"
  by code_simp

text \<open>
  C4. The report of a suite is a valid document of the Test Anything Protocol that tells the truth.
  Whatever sequence of checks a suite makes and whatever the hardware does, when the suite
  returns it has sent the header, for every check in order its line with the next number and the right
  verdict, surrounded by comments only, then the plan with the number of checks, the summary
  with the number of failed ones, and a zero byte; and the exit code is 1 exactly when a check
  has failed. The counters are 32 bits wide: the exit code is right for fewer than \<open>2 ^ 32\<close> failed checks.
\<close>

theorem test_suite_report:
  fixes E :: "'h env" and s :: "('h, 'z) tested_scheme"
  assumes "length cs < 2 ^ 32"
  shows "wlpM (run_suite E T name cs) (\<lambda>code t. \<exists>tr hardware report.
      trace t = trace s @ tr \<and> rxb tr = [] \<and>
      txb tr = tap_header T name @ hardware @ report @
        tap_footer T (of_nat (length (filter (\<lambda>c. verdict c \<noteq> None) cs))) (of_nat (length (filter (\<lambda>c. verdict c = Some False) cs))) \<and>
      comment T hardware \<and> transcript T 0 cs report \<and>
      code = (if \<exists>c\<in>set cs. verdict c = Some False then 1 else 0)) s"
proof -
  let ?n = "length (filter (\<lambda>c. verdict c \<noteq> None) cs)" and ?f = "length (filter (\<lambda>c. verdict c = Some False) cs)"
  have "?f < 2 ^ 32" using assms length_filter_le [of "\<lambda>c. verdict c = Some False" cs] by (rule le_less_trans [rotated])
  then have z: "(of_nat ?f :: u32) = 0 \<longleftrightarrow> (\<forall>c\<in>set cs. verdict c \<noteq> Some False)"
    using of_nat_u32_inj [of ?f 0] by (auto simp: filter_empty_conv)
  have "does tally (run_suite E T name cs :: (('h, 'z) tested_scheme, u32) cmd) (\<lambda>code tr a b. \<exists>hardware report. rxb tr = [] \<and>
      txb tr = tap_header T name @ hardware @ report @ tap_footer T (of_nat ?n) (of_nat ?f) \<and>
      comment T hardware \<and> transcript T 0 cs report \<and> code = (if (of_nat ?f :: u32) \<noteq> 0 then 1 else 0))"
    unfolding run_suite_def
    by (rule does_bind [OF does_start], rule does_bind [OF transcript_calls], rule does_mono [OF emits_finish [unfolded emits_def]])
       (auto simp: tally_fold, blast)
  then have "wlpM (run_suite E T name cs) (\<lambda>code t. \<exists>tr. trace t = trace s @ tr \<and> (\<exists>hardware report. rxb tr = [] \<and>
      txb tr = tap_header T name @ hardware @ report @ tap_footer T (of_nat ?n) (of_nat ?f) \<and>
      comment T hardware \<and> transcript T 0 cs report \<and> code = (if (of_nat ?f :: u32) \<noteq> 0 then 1 else 0))) s"
    unfolding does_def by blast
  then show ?thesis by (rule wlp_mono) (auto simp: z)
qed

theorem test_suite_report_witness:
  "\<exists>code t tr hardware report.
     run_suite bench mute_printer ''demo'' [Check ''one'' True, Check ''two'' False] bench_state = Inr (code, t) \<and> code = 1 \<and>
     trace t = trace bench_state @ tr \<and> rxb tr = [] \<and>
     txb tr = tap_header mute_printer ''demo'' @ hardware @ report @ tap_footer mute_printer 2 1 \<and>
     comment mute_printer hardware \<and> transcript mute_printer 0 [Check ''one'' True, Check ''two'' False] report"
proof -
  obtain code t where r: "run_suite bench mute_printer ''demo'' [Check ''one'' True, Check ''two'' False] bench_state = Inr (code, t)"
    "code = 1" using bench_run by (auto split: sum.splits)
  have n: "of_nat (length (filter (\<lambda>c. verdict c \<noteq> None) [Check ''one'' True, Check ''two'' False])) = (2 :: u32)"
    and f: "of_nat (length (filter (\<lambda>c. verdict c = Some False) [Check ''one'' True, Check ''two'' False])) = (1 :: u32)"
    by (simp_all add: verdict_def del: not_None_eq)
  have l: "length [Check ''one'' True, Check ''two'' False] < 2 ^ 32" by simp
  show ?thesis
    using wlpD [OF test_suite_report [OF l, of bench mute_printer "''demo''" bench_state, unfolded n f] r(1)] r by blast
qed

section \<open>The fault reporter\<close>

definition hex_text :: "u32 \<Rightarrow> u8 list" where
  "hex_text v = str ''0x'' @ map (\<lambda>shift. hex_digit (drop_bit shift v AND 0xF)) [28, 24, 20, 16, 12, 8, 4, 0]"

definition fault_line :: "u8 \<Rightarrow> string \<Rightarrow> u32 \<Rightarrow> u8 list" where
  "fault_line type label v = str ''\<newline># EXC '' @ [type] @ str '' '' @ str label @ str ''='' @ hex_text v"

definition fault_text :: "u8 \<Rightarrow> u32 \<Rightarrow> u32 \<Rightarrow> u32 \<Rightarrow> u32 \<Rightarrow> u8 list" where
  "fault_text type lr spsr fsr far =
     fault_line type ''LR'' lr @ fault_line type ''SPSR'' spsr @ fault_line type ''FSR'' fsr @ fault_line type ''FAR'' far @ str ''\<newline>''"

text \<open>The letters of a label; a zero ends it.\<close>

definition label_letters :: "u8 \<Rightarrow> u8 \<Rightarrow> u8 \<Rightarrow> u8 list" where
  "label_letters b c d = (if b = 0 then [] else b # (if c = 0 then [] else c # (if d = 0 then [] else [d])))"

context observer
begin

abbreviation sends :: "(('h, 'z) machine_scheme, unit) cmd \<Rightarrow> u8 list \<Rightarrow> bool" where
  "sends c bs \<equiv> does obs c (\<lambda>_ tr a b. rxb tr = [] \<and> txb tr = bs \<and> b = a)"

lemma sends_bind: "sends c bs \<Longrightarrow> sends d ds \<Longrightarrow> sends (bindM c (\<lambda>_. d)) (bs @ ds)"
  by (erule does_bind, erule does_mono) simp

lemma sends_ret: "sends (retM ()) []"
  by (rule does_ret) simp

lemma sends_forM: "(\<And>x. x \<in> set xs \<Longrightarrow> sends (f x) [g x]) \<Longrightarrow> sends (forM xs f) (map g xs)"
proof (induction xs)
  case (Cons x xs)
  have "sends (forM (x # xs) f) ([g x] @ map g xs)"
    unfolding forM.simps by (intro sends_bind Cons) simp_all
  then show ?case by simp
qed (simp add: sends_ret)

lemma sends_fault_putc: "sends (fault_putc E c) [c]"
proof -
  have w: "sends (wr E (USART_TXB USART0) (ucast c)) [c]"
    by (rule does_mono [OF does_logs [OF logs_write [where P = "\<lambda>_ tr. tr = [Wr W32 (USART_TXB USART0) (ucast c)]"]]])
       (auto simp: rxb_def txb_def ucast_widen_back)
  have "silent (whileM n (mapM (\<lambda>v. v AND USART_RIS_TX = 0) (rd E (USART_RIS USART0))) (retM ()))" for n
    by (intro silent_intros) simp
  then have p: "sends (whileM n (mapM (\<lambda>v. v AND USART_RIS_TX = 0) (rd E (USART_RIS USART0))) (retM ())) []" for n
    by (rule does_mono) (simp add: quiet_def)
  have "silent (rmw E (USART_ICR USART0) (\<lambda>v. v OR USART_ICR_TX))"
    unfolding rmw_def by (intro silent_intros) simp_all
  then have q: "sends (rmw E (USART_ICR USART0) (\<lambda>v. v OR USART_ICR_TX)) []"
    by (rule does_mono) (simp add: quiet_def)
  from sends_bind [OF w sends_bind [OF p sends_bind [OF q sends_ret]]] show ?thesis
    by (simp add: fault_putc_def)
qed

lemma sends_put_hex: "sends (fault_put_hex E v) (hex_text v)"
proof -
  have d: "sends (forM [28, 24, 20, 16, 12, 8, 4, 0] (\<lambda>shift. fault_putc E (hex_digit (drop_bit shift v AND 0xF))))
      (map (\<lambda>shift. hex_digit (drop_bit shift v AND 0xF)) [28, 24, 20, 16, 12, 8, 4, 0])"
    by (intro sends_forM sends_fault_putc)
  from sends_bind [OF sends_fault_putc sends_bind [OF sends_fault_putc sends_bind [OF d sends_ret]]] show ?thesis
    unfolding fault_put_hex_def seqM.simps hex_text_def str_def by (simp only: append_Nil2 append.simps list.map)
qed

lemma sends_field:
  "sends (fault_field E type a b c d v)
     (str ''\<newline># EXC '' @ [type] @ str '' '' @ [a] @ label_letters b c d @ str ''='' @ hex_text v)"
proof -
  have l: "sends (whenM (b \<noteq> 0) (seqM [fault_putc E b, whenM (c \<noteq> 0) (seqM [fault_putc E c, whenM (d \<noteq> 0) (fault_putc E d)])]))
      (label_letters b c d)"
    using sends_fault_putc [of E d] sends_ret sends_fault_putc [of E b]
      sends_bind [OF sends_fault_putc [of E c] sends_bind [OF sends_fault_putc [of E d] sends_ret]]
      sends_bind [OF sends_fault_putc [of E c] sends_bind [OF sends_ret sends_ret]]
      sends_bind [OF sends_fault_putc [of E b] sends_bind [OF sends_ret sends_ret]]
      sends_bind [OF sends_fault_putc [of E b] sends_bind [OF
        sends_bind [OF sends_fault_putc [of E c] sends_bind [OF sends_fault_putc [of E d] sends_ret]] sends_ret]]
      sends_bind [OF sends_fault_putc [of E b] sends_bind [OF
        sends_bind [OF sends_fault_putc [of E c] sends_bind [OF sends_ret sends_ret]] sends_ret]]
    by (simp add: whenM_def label_letters_def)
  note p = sends_bind [OF sends_fault_putc]
  from p [OF p [OF p [OF p [OF p [OF p [OF p [OF p [OF p [OF p [OF
    sends_bind [OF l p [OF sends_bind [OF sends_put_hex sends_ret]]]]]]]]]]]]]
  show ?thesis
    unfolding fault_field_def seqM.simps str_def by simp
qed

end

definition recovery :: "('h, 'z) tested_scheme \<Rightarrow> u32 \<times> bool" where
  "recovery s = (fault_nesting s, fault_recovery_armed s)"

interpretation recovery: suite_observer "recovery :: ('h, 'z) tested_scheme \<Rightarrow> u32 \<times> bool"
  by unfold_locales (simp_all add: recovery_def)

text \<open>The number that a text of hexadecimal digits denotes.\<close>

definition digit_value :: "u8 \<Rightarrow> u32" where
  "digit_value c = (if c < of_char (CHR ''A'') then ucast c - of_char (CHR ''0'') else ucast c - of_char (CHR ''A'') + 10)"

definition unhex :: "u8 list \<Rightarrow> u32" where
  "unhex ds = fold (\<lambda>d v. push_bit 4 v OR digit_value d) ds 0"

lemma digit_value_nibble: "n < 16 \<Longrightarrow> digit_value (hex_digit n) = n"
proof -
  assume "n < 16"
  then have k: "unat n \<in> set [0..<16]" by (simp add: word_less_nat_alt)
  have "list_all (\<lambda>k. digit_value (hex_digit (of_nat k)) = of_nat k) [0..<16]" by code_simp
  then show ?thesis using k unfolding list_all_iff by fastforce
qed

lemma nibble_less: "v AND 0xF < (16 :: u32)"
  using word_and_le1 [of v 15] by (simp add: word_le_nat_alt word_less_nat_alt)

lemma nibbles_join:
  "push_bit 4 (push_bit 4 (push_bit 4 (push_bit 4 (push_bit 4 (push_bit 4 (push_bit 4 (push_bit 4 0 OR (drop_bit 28 v AND 15)) OR
     (drop_bit 24 v AND 15)) OR (drop_bit 20 v AND 15)) OR (drop_bit 16 v AND 15)) OR (drop_bit 12 v AND 15)) OR
     (drop_bit 8 v AND 15)) OR (drop_bit 4 v AND 15)) OR (drop_bit 0 v AND 15) = (v :: u32)"
proof (rule bit_word_eqI)
  fix n assume n: "n < LENGTH(32)"
  have m: "x AND 15 = take_bit 4 x" for x :: u32 by (simp add: take_bit_eq_mask mask_eq_exp_minus_1)
  consider "n < 4" | "4 \<le> n" "n < 8" | "8 \<le> n" "n < 12" | "12 \<le> n" "n < 16" | "16 \<le> n" "n < 20" | "20 \<le> n" "n < 24"
    | "24 \<le> n" "n < 28" | "28 \<le> n" "n < 32" using n by fastforce
  then show "bit (push_bit 4 (push_bit 4 (push_bit 4 (push_bit 4 (push_bit 4 (push_bit 4 (push_bit 4 (push_bit 4 0 OR (drop_bit 28 v AND 15)) OR
     (drop_bit 24 v AND 15)) OR (drop_bit 20 v AND 15)) OR (drop_bit 16 v AND 15)) OR (drop_bit 12 v AND 15)) OR
     (drop_bit 8 v AND 15)) OR (drop_bit 4 v AND 15)) OR (drop_bit 0 v AND 15)) n = bit v n"
    unfolding m by cases (auto simp: bit_simps less_diff_conv2)
qed

lemma unhex_hex_text: "unhex (drop 2 (hex_text v)) = v"
  using nibbles_join [of v] by (simp add: unhex_def hex_text_def str_def digit_value_nibble nibble_less)


end
