(* ===== verification/Cfi.thy ===== *)
theory Cfi
  imports Test_Framework
begin

text \<open>
  The driver of the parallel NOR flash (\<^verbatim>\<open>src/unit/cfi-intel/cfi.c\<close>): it finds the chips behind the chip
  selects of the external bus unit, reads their geometry from the CFI query data, and issues the commands of
  the Intel command set. The structure \<^verbatim>\<open>struct flash_device\<close>, which the code passes by pointer, is a
  record that the operations return updated.

  The chip decodes the words written to it. \<open>decode\<close> is that decoding for the commands the code uses,
  and the theorems state what the chip is told to do: each operation of the driver is decoded as the
  operation that its name promises, and the search for a block to write to only reads.
\<close>

section \<open>Definitions\<close>

abbreviation (input) FLASH_WINDOW_BASE :: u32 where "FLASH_WINDOW_BASE \<equiv> 0xA0000000"
abbreviation (input) FLASH_WINDOW_END :: u32 where "FLASH_WINDOW_END \<equiv> 0xA8000000"
abbreviation (input) CFI_MAX_ERASE_REGIONS :: u32 where "CFI_MAX_ERASE_REGIONS \<equiv> 4"
abbreviation (input) MAP_SAMPLE_WORDS :: nat where "MAP_SAMPLE_WORDS \<equiv> 4"
abbreviation (input) FLASH_CHIP_SELECT_COUNT :: nat where "FLASH_CHIP_SELECT_COUNT \<equiv> 3"
abbreviation (input) STATUS_READY :: u16 where "STATUS_READY \<equiv> 0x80"
abbreviation (input) STATUS_ERASE_SUSPEND :: u16 where "STATUS_ERASE_SUSPEND \<equiv> 0x40"
abbreviation (input) STATUS_PROGRAM_SUSPEND :: u16 where "STATUS_PROGRAM_SUSPEND \<equiv> 0x4"
abbreviation (input) STATUS_ERRORS :: u16 where "STATUS_ERRORS \<equiv> 0x33A"
abbreviation (input) CFI_QUERY_ADDRESS :: u32 where "CFI_QUERY_ADDRESS \<equiv> 0x55"
abbreviation (input) EBU_CS_COUNT :: nat where "EBU_CS_COUNT \<equiv> 7"
abbreviation (input) RAM_CS :: nat where "RAM_CS \<equiv> 1"

definition FLASH_BUSCON :: u32 where
  "FLASH_BUSCON = EBU_BUSCON_AALIGN OR push_bit EBU_BUSCON_CTYPE_SHIFT 1 OR push_bit EBU_BUSCON_CMULT_SHIFT 1 OR
     EBU_BUSCON_DLOAD OR push_bit EBU_BUSCON_BCGEN_SHIFT 1 OR push_bit EBU_BUSCON_PORTW_SHIFT 1"

record erase_region =
  blocks :: u32
  block_size :: u32

text \<open>The fields \<^verbatim>\<open>cs\<close>, \<^verbatim>\<open>base\<close>, \<^verbatim>\<open>size\<close> and \<^verbatim>\<open>split\<close> have a prefix.\<close>

record flash_device =
  flash_cs :: u32
  flash_base :: u32
  manufacturer :: u32
  device :: u32
  primary_address :: u32
  size_exponent :: u32
  flash_size :: u32
  regions :: u32
  write_buffer_size :: u32
  features :: u32
  efa_blocks :: u32
  efa_block_size :: u32
  blank_base :: u32
  blank_size :: u32
  test_block :: u32
  test_block_size :: u32
  mapped :: bool
  flash_split :: bool
  high_cs :: u32
  window_size :: u32
  erase :: "erase_region list"
  map_samples :: "u16 list list"

text \<open>\<^verbatim>\<open>struct flash_device flash = {0}\<close>\<close>

definition no_flash :: flash_device where
  "no_flash = \<lparr>flash_cs = 0, flash_base = 0, manufacturer = 0, device = 0, primary_address = 0, size_exponent = 0,
     flash_size = 0, regions = 0, write_buffer_size = 0, features = 0, efa_blocks = 0, efa_block_size = 0,
     blank_base = 0, blank_size = 0, test_block = 0, test_block_size = 0, mapped = False, flash_split = False,
     high_cs = 0, window_size = 0, erase = replicate 4 \<lparr>blocks = 0, block_size = 0\<rparr>,
     map_samples = replicate 3 (replicate 4 0)\<rparr>"

definition cfi_chip_selects :: "u32 list" where
  "cfi_chip_selects = [0, 2, 3]"

text \<open>\<^verbatim>\<open>MMIO16\<close>\<close>

definition rd16 :: "'h env \<Rightarrow> u32 \<Rightarrow> (('h, 'z) machine_scheme, u16) cmd" where
  "rd16 E a = mapM ucast (mmio_read W16 E a)"

definition wr16 :: "'h env \<Rightarrow> u32 \<Rightarrow> u16 \<Rightarrow> (('h, 'z) machine_scheme, unit) cmd" where
  "wr16 E a v = mmio_write W16 E a (ucast v)"

definition cfi_read_word :: "'h env \<Rightarrow> u32 \<Rightarrow> u32 \<Rightarrow> (('h, 'z) machine_scheme, u16) cmd" where
  "cfi_read_word E base offset = rd16 E (base + offset * 2)"

text \<open>
  The words are promoted to 32 bits before they are shifted. C leaves the order of the two reads of an
  expression open; they are taken from left to right.
\<close>

definition cfi_read_u16 :: "'h env \<Rightarrow> u32 \<Rightarrow> u32 \<Rightarrow> (('h, 'z) machine_scheme, u32) cmd" where
  "cfi_read_u16 E base offset =
     bindM (cfi_read_word E base offset) (\<lambda>lo.
     bindM (cfi_read_word E base (offset + 1)) (\<lambda>hi.
     retM (ucast lo OR push_bit 8 (ucast hi))))"

definition cfi_read_u32 :: "'h env \<Rightarrow> u32 \<Rightarrow> u32 \<Rightarrow> (('h, 'z) machine_scheme, u32) cmd" where
  "cfi_read_u32 E base offset =
     bindM (cfi_read_u16 E base offset) (\<lambda>lo.
     bindM (cfi_read_u16 E base (offset + 2)) (\<lambda>hi.
     retM (lo OR push_bit 16 hi)))"

definition cfi_enter_read_array :: "'h env \<Rightarrow> u32 \<Rightarrow> (('h, 'z) machine_scheme, unit) cmd" where
  "cfi_enter_read_array E base = wr16 E base 0xFF"

definition cfi_enter_id :: "'h env \<Rightarrow> u32 \<Rightarrow> (('h, 'z) machine_scheme, unit) cmd" where
  "cfi_enter_id E base = wr16 E base 0x90"

definition cfi_enter_query :: "'h env \<Rightarrow> u32 \<Rightarrow> (('h, 'z) machine_scheme, unit) cmd" where
  "cfi_enter_query E base = wr16 E (base + CFI_QUERY_ADDRESS * 2) 0x98"

definition cfi_enter_status :: "'h env \<Rightarrow> u32 \<Rightarrow> (('h, 'z) machine_scheme, unit) cmd" where
  "cfi_enter_status E base = wr16 E base 0x70"

definition cfi_disable_chip_selects :: "'h env \<Rightarrow> (('h, 'z) machine_scheme, unit) cmd" where
  "cfi_disable_chip_selects E =
     forM [0..<EBU_CS_COUNT] (\<lambda>cs. whenM (cs \<noteq> RAM_CS)
       (seqM [wr E (EBU_ADDRSEL (of_nat cs)) 0, wr E (EBU_BUSCON (of_nat cs)) 0]))"

definition cfi_map :: "'h env \<Rightarrow> u32 \<Rightarrow> u32 \<Rightarrow> u32 \<Rightarrow> (('h, 'z) machine_scheme, unit) cmd" where
  "cfi_map E cs base msk =
     seqM [wr E (EBU_BUSCON cs) FLASH_BUSCON,
           wr E (EBU_ADDRSEL cs) (EBU_ADDRSEL_REGENAB OR push_bit EBU_ADDRSEL_MASK_SHIFT msk OR base)]"

subsection \<open>Geometry\<close>

text \<open>The value of \<^verbatim>\<open>exponent < 32 ? 1u << exponent : 0\<close>.\<close>

definition pow2_or_0 :: "u32 \<Rightarrow> u32" where
  "pow2_or_0 e = (if e < 32 then push_bit (unat e) 1 else 0)"

primrec geometry_loop :: "'h env \<Rightarrow> nat list \<Rightarrow> flash_device \<Rightarrow> (('h, 'z) machine_scheme, flash_device) cmd" where
  "geometry_loop E [] flash = retM flash"
| "geometry_loop E (region # rs) flash =
     (let offset = 0x2D + of_nat region * 4 in
      bindM (cfi_read_u16 E (flash_base flash) offset) (\<lambda>b.
      bindM (cfi_read_u16 E (flash_base flash) (offset + 2)) (\<lambda>z.
      geometry_loop E rs (flash\<lparr>erase := (erase flash)[region := \<lparr>blocks = b + 1, block_size = z * 256\<rparr>]\<rparr>))))"

definition cfi_read_geometry :: "'h env \<Rightarrow> flash_device \<Rightarrow> (('h, 'z) machine_scheme, flash_device) cmd" where
  "cfi_read_geometry E flash =
     (let base = flash_base flash in
      bindM (cfi_read_u16 E base 0x15) (\<lambda>primary.
      bindM (cfi_read_word E base 0x27) (\<lambda>exponent.
      bindM (cfi_read_u16 E base 0x2A) (\<lambda>buffer_exponent.
      bindM (cfi_read_word E base 0x2C) (\<lambda>n.
      geometry_loop E [0..<unat (min (ucast n) CFI_MAX_ERASE_REGIONS)]
        (flash\<lparr>primary_address := primary, size_exponent := ucast exponent, flash_size := pow2_or_0 (ucast exponent),
           write_buffer_size := pow2_or_0 buffer_exponent, regions := ucast n\<rparr>))))))"

primrec skip_regions :: "nat \<Rightarrow> 'h env \<Rightarrow> u32 \<Rightarrow> u32 \<Rightarrow> bool \<Rightarrow> (('h, 'z) machine_scheme, u32) cmd" where
  "skip_regions 0 E base cursor is_st = retM cursor"
| "skip_regions (Suc n) E base cursor is_st =
     (let cursor = cursor + (if is_st then 2 else 0) + 5 in
      bindM (cfi_read_word E base cursor) (\<lambda>erase_regions.
      skip_regions n E base (cursor + 1 + ucast erase_regions * (if is_st then 14 else 8)) is_st))"

definition cfi_skip_pri_regions :: "'h env \<Rightarrow> u32 \<Rightarrow> u32 \<Rightarrow> bool \<Rightarrow> (('h, 'z) machine_scheme, u32) cmd" where
  "cfi_skip_pri_regions E base cursor is_st =
     bindM (cfi_read_word E base cursor) (\<lambda>n. skip_regions (unat n) E base (cursor + 1) is_st)"

definition cfi_read_extended_geometry :: "'h env \<Rightarrow> flash_device \<Rightarrow> (('h, 'z) machine_scheme, flash_device) cmd" where
  "cfi_read_extended_geometry E flash =
     (let base = flash_base flash in
      bindM (cfi_read_u32 E base (primary_address flash + 5)) (\<lambda>fs.
      let flash = flash\<lparr>features := fs\<rparr> in
      if \<not> bit fs 9 \<or> \<not> bit fs 10 then retM flash else
      let cursor = primary_address flash + 0xE in
      bindM (if bit fs 6 then
               bindM (cfi_read_word E base cursor) (\<lambda>fields.
               retM (cursor + 1 + (if fields \<noteq> 0 then 4 + (ucast fields - 1) * 10 else 0)))
             else retM cursor) (\<lambda>cursor.
      let cursor = cursor + 1 in
      bindM (cfi_read_word E base cursor) (\<lambda>synchronous_modes.
      let cursor = cursor + 1 + ucast synchronous_modes in
      bindM (mapM (\<lambda>v. v = 0x0200) (cfi_read_u16 E base 0x13)) (\<lambda>is_st.
      bindM (cfi_skip_pri_regions E base cursor is_st) (\<lambda>cursor.
      bindM (cfi_read_word E base cursor) (\<lambda>n.
      if n = 0 then retM flash else
      let cursor = cursor + 1 + (if is_st then 2 else 0) + 5 in
      bindM (cfi_read_word E base cursor) (\<lambda>erase_regions.
      if erase_regions = 0 then retM flash else
      let cursor = cursor + 1 in
      bindM (cfi_read_u16 E base cursor) (\<lambda>b.
      bindM (cfi_read_u16 E base (cursor + 2)) (\<lambda>z.
      retM (flash\<lparr>efa_blocks := b + 1, efa_block_size := z * 256\<rparr>)))))))))))"

primrec read_words :: "nat \<Rightarrow> 'h env \<Rightarrow> u32 \<Rightarrow> (('h, 'z) machine_scheme, u16 list) cmd" where
  "read_words 0 E a = retM []"
| "read_words (Suc n) E a = bindM (rd16 E a) (\<lambda>v. mapM ((#) v) (read_words n E (a + 2)))"

definition cfi_read_map_sample :: "'h env \<Rightarrow> flash_device \<Rightarrow> nat \<Rightarrow> u32 \<Rightarrow> (('h, 'z) machine_scheme, flash_device) cmd" where
  "cfi_read_map_sample E flash sample offset =
     bindM (read_words MAP_SAMPLE_WORDS E (flash_base flash + offset)) (\<lambda>ws.
     retM (flash\<lparr>map_samples := (map_samples flash)[sample := ws]\<rparr>))"

definition cfi_sample_map :: "'h env \<Rightarrow> flash_device \<Rightarrow> (('h, 'z) machine_scheme, flash_device) cmd" where
  "cfi_sample_map E flash =
     bindM (cfi_read_map_sample E flash 0 0) (\<lambda>flash.
     bindM (cfi_read_map_sample E flash 1 (flash_size flash div 2)) (\<lambda>flash.
     cfi_read_map_sample E flash 2 (flash_size flash - 8)))"

text \<open>The three reads of the signature stop at the first that differs.\<close>

definition cfi_signature :: "'h env \<Rightarrow> (('h, 'z) machine_scheme, bool) cmd" where
  "cfi_signature E =
     bindM (cfi_read_word E FLASH_WINDOW_BASE 0x10) (\<lambda>q. if q \<noteq> 0x51 then retM False else
     bindM (cfi_read_word E FLASH_WINDOW_BASE 0x11) (\<lambda>r. if r \<noteq> 0x52 then retM False else
     mapM (\<lambda>y. y = 0x59) (cfi_read_word E FLASH_WINDOW_BASE 0x12)))"

definition cfi_probe :: "'h env \<Rightarrow> u32 \<Rightarrow> flash_device \<Rightarrow> (('h, 'z) machine_scheme, bool \<times> flash_device) cmd" where
  "cfi_probe E cs flash =
     bindM (seqM [cfi_disable_chip_selects E, cfi_map E cs FLASH_WINDOW_BASE 0,
                  cfi_enter_read_array E FLASH_WINDOW_BASE, cfi_enter_query E FLASH_WINDOW_BASE]) (\<lambda>_.
     bindM (cfi_signature E) (\<lambda>valid_signature.
     if \<not> valid_signature then
       bindM (seqM [cfi_enter_read_array E FLASH_WINDOW_BASE, wr E (EBU_ADDRSEL cs) 0, wr E (EBU_BUSCON cs) 0]) (\<lambda>_.
       retM (False, flash))
     else
       bindM (cfi_read_geometry E (flash\<lparr>flash_cs := cs, flash_base := FLASH_WINDOW_BASE\<rparr>)) (\<lambda>flash.
       bindM (cfi_read_extended_geometry E flash) (\<lambda>flash.
       bindM (cfi_enter_id E (flash_base flash)) (\<lambda>_.
       bindM (cfi_read_word E (flash_base flash) 0) (\<lambda>m.
       bindM (cfi_read_word E (flash_base flash) 1) (\<lambda>d.
       bindM (cfi_enter_read_array E (flash_base flash)) (\<lambda>_.
       let flash = flash\<lparr>manufacturer := ucast m, device := ucast d\<rparr>;
           can_sample_map = (flash_size flash \<ge> 8 \<and> flash_size flash \<le> FLASH_WINDOW_END - FLASH_WINDOW_BASE);
           flash = flash\<lparr>window_size := flash_size flash\<rparr> in
       bindM (if can_sample_map then cfi_sample_map E flash else retM flash) (\<lambda>flash.
       retM (flash_size flash \<le> FLASH_WINDOW_END - FLASH_WINDOW_BASE \<and> regions flash > 0 \<and>
             regions flash \<le> CFI_MAX_ERASE_REGIONS \<and> write_buffer_size flash \<ge> 2 \<and> write_buffer_size flash \<le> 1024,
             flash))))))))))"

subsection \<open>The search for a blank block\<close>

text \<open>
  A loop whose offset advances by 4 up to \<open>size\<close> takes at most \<open>size div 4 + 1\<close> rounds, unless the
  offset wraps around.
\<close>

primrec blank_loop :: "nat \<Rightarrow> 'h env \<Rightarrow> u32 \<Rightarrow> u32 \<Rightarrow> u32 \<Rightarrow> (('h, 'z) watched_scheme, bool) cmd" where
  "blank_loop 0 E address sz offset = failM Out_Of_Fuel"
| "blank_loop (Suc n) E address sz offset =
     (if \<not> offset < sz then retM True else
      bindM (rd E (address + offset)) (\<lambda>v.
      if v \<noteq> 0xFFFFFFFF then retM False else
      bindM (whenM (offset AND 0x3FFF = 0) (test_watchdog_serve E)) (\<lambda>_.
      blank_loop n E address sz (offset + 4))))"

definition cfi_range_is_blank :: "'h env \<Rightarrow> u32 \<Rightarrow> u32 \<Rightarrow> (('h, 'z) watched_scheme, bool) cmd" where
  "cfi_range_is_blank E address sz = blank_loop (unat sz div 4 + 2) E address sz 0"

text \<open>
  The search over the blocks of the regions: the inner loop returns the offset behind the region, or the
  block selected.
\<close>

primrec select_block :: "nat \<Rightarrow> flash_device \<Rightarrow> u32 \<Rightarrow> u32 \<Rightarrow> u32 \<Rightarrow> u32 \<Rightarrow> u32 + flash_device" where
  "select_block 0 flash bs blank_offset alignment offset = Inl offset"
| "select_block (Suc n) flash bs blank_offset alignment offset =
     (let inside_blank_range = (offset \<ge> blank_offset \<and> offset + bs \<le> blank_offset + alignment);
          has_previous_sample = (offset \<ge> 8);
          has_next_sample = (offset + bs + 8 \<le> flash_size flash) in
      if inside_blank_range \<and> has_previous_sample \<and> has_next_sample
      then Inr (flash\<lparr>test_block := flash_base flash + offset, test_block_size := bs\<rparr>)
      else select_block n flash bs blank_offset alignment (offset + bs))"

primrec select_region :: "nat \<Rightarrow> nat \<Rightarrow> flash_device \<Rightarrow> u32 \<Rightarrow> u32 \<Rightarrow> u32 \<Rightarrow> fault + bool \<times> flash_device" where
  "select_region 0 region flash blank_offset alignment offset = Inr (False, flash)"
| "select_region (Suc n) region flash blank_offset alignment offset =
     (if region \<ge> length (erase flash) then Inl Out_Of_Bounds else
      let r = erase flash ! region in
      case select_block (unat (blocks r)) flash (block_size r) blank_offset alignment offset of
        Inr flash' \<Rightarrow> Inr (True, flash')
      | Inl offset' \<Rightarrow> select_region n (region + 1) flash blank_offset alignment offset')"

definition cfi_select_erase_block :: "flash_device \<Rightarrow> u32 \<Rightarrow> u32 \<Rightarrow> fault + bool \<times> flash_device" where
  "cfi_select_erase_block flash blank_offset alignment =
     select_region (unat (regions flash)) 0 flash blank_offset alignment 0"

text \<open>The offset advances by the alignment; the code does not return for an alignment of 0.\<close>

primrec find_blank_loop :: "nat \<Rightarrow> 'h env \<Rightarrow> flash_device \<Rightarrow> u32 \<Rightarrow> u32 \<Rightarrow>
    (('h, 'z) watched_scheme, bool \<times> flash_device) cmd" where
  "find_blank_loop 0 E flash alignment offset = failM Out_Of_Fuel"
| "find_blank_loop (Suc n) E flash alignment offset =
     (if \<not> offset + alignment \<le> flash_size flash then retM (False, flash) else
      bindM (test_watchdog_reset E) (\<lambda>_.
      bindM (cfi_range_is_blank E (flash_base flash + offset) alignment) (\<lambda>blank.
      if \<not> blank then find_blank_loop n E flash alignment (offset + alignment) else
      bindM (liftE (cfi_select_erase_block flash offset alignment)) (\<lambda>(found, flash').
      if found then retM (True, flash') else find_blank_loop n E flash' alignment (offset + alignment)))))"

definition cfi_find_blank_block :: "'h env \<Rightarrow> flash_device \<Rightarrow> u32 \<Rightarrow> (('h, 'z) watched_scheme, bool \<times> flash_device) cmd" where
  "cfi_find_blank_block E flash alignment =
     find_blank_loop (unat (flash_size flash) div unat alignment + 2) E flash alignment 0"

subsection \<open>Commands\<close>

primrec ready_loop :: "nat \<Rightarrow> 'h env \<Rightarrow> u32 \<Rightarrow> u16 \<Rightarrow> (('h, 'z) watched_scheme, u16) cmd" where
  "ready_loop 0 E address status = retM status"
| "ready_loop (Suc n) E address status =
     bindM (rd16 E address) (\<lambda>status.
     if status AND STATUS_READY \<noteq> 0 then retM status else
     bindM (test_watchdog_serve E) (\<lambda>_. ready_loop n E address status))"

definition cfi_wait_ready :: "'h env \<Rightarrow> u32 \<Rightarrow> (('h, 'z) watched_scheme, u16) cmd" where
  "cfi_wait_ready E address = ready_loop 1000000 E address 0"

definition cfi_read_lock_status :: "'h env \<Rightarrow> u32 \<Rightarrow> (('h, 'z) machine_scheme, u16) cmd" where
  "cfi_read_lock_status E address =
     bindM (cfi_enter_id E address) (\<lambda>_.
     bindM (cfi_read_word E address 2) (\<lambda>status.
     bindM (cfi_enter_read_array E address) (\<lambda>_. retM status)))"

definition cfi_clear_status :: "'h env \<Rightarrow> u32 \<Rightarrow> (('h, 'z) machine_scheme, u16) cmd" where
  "cfi_clear_status E address =
     bindM (wr16 E address 0x50) (\<lambda>_.
     bindM (wr16 E address 0x70) (\<lambda>_.
     bindM (rd16 E address) (\<lambda>status.
     bindM (cfi_enter_read_array E address) (\<lambda>_. retM status))))"

text \<open>The end of most operations: wait, go back to reading the array, return the status.\<close>

definition complete :: "'h env \<Rightarrow> u32 \<Rightarrow> (('h, 'z) watched_scheme, u16) cmd" where
  "complete E address =
     bindM (cfi_wait_ready E address) (\<lambda>status.
     bindM (cfi_enter_read_array E address) (\<lambda>_. retM status))"

definition cfi_unlock_block :: "'h env \<Rightarrow> u32 \<Rightarrow> bool \<Rightarrow> (('h, 'z) watched_scheme, u16) cmd" where
  "cfi_unlock_block E address efa =
     bindM (wr16 E address 0x50) (\<lambda>_.
     bindM (wr16 E address (if efa then 0x64 else 0x60)) (\<lambda>_.
     bindM (wr16 E address 0xD0) (\<lambda>_. complete E address)))"

definition cfi_lock_block :: "'h env \<Rightarrow> u32 \<Rightarrow> bool \<Rightarrow> (('h, 'z) watched_scheme, u16) cmd" where
  "cfi_lock_block E address efa =
     bindM (wr16 E address 0x50) (\<lambda>_.
     bindM (wr16 E address (if efa then 0x64 else 0x60)) (\<lambda>_.
     bindM (wr16 E address 0x01) (\<lambda>_. complete E address)))"

definition cfi_lock_down_block :: "'h env \<Rightarrow> u32 \<Rightarrow> bool \<Rightarrow> (('h, 'z) watched_scheme, u16) cmd" where
  "cfi_lock_down_block E address efa =
     bindM (wr16 E address (if efa then 0x64 else 0x60)) (\<lambda>_.
     bindM (wr16 E address 0x2F) (\<lambda>_. complete E address))"

definition cfi_program_word :: "'h env \<Rightarrow> flash_device \<Rightarrow> u32 \<Rightarrow> u16 \<Rightarrow> bool \<Rightarrow> (('h, 'z) watched_scheme, u16) cmd" where
  "cfi_program_word E flash address value efa =
     bindM (wr16 E address 0x50) (\<lambda>_.
     bindM (wr16 E address (if efa then 0x44 else if manufacturer flash = 0x0020 then 0x41 else 0x40)) (\<lambda>_.
     bindM (wr16 E address value) (\<lambda>_. complete E address)))"

text \<open>The word count and the data of a buffer; a word behind the end of the array is a fault.\<close>

primrec write_data :: "nat \<Rightarrow> 'h env \<Rightarrow> u32 \<Rightarrow> u16 list \<Rightarrow> (('h, 'z) machine_scheme, unit) cmd" where
  "write_data 0 E a ws = retM ()"
| "write_data (Suc n) E a ws =
     (case ws of [] \<Rightarrow> failM Out_Of_Bounds
      | w # ws \<Rightarrow> bindM (wr16 E a w) (\<lambda>_. write_data n E (a + 2) ws))"

definition cfi_program_buffer ::
  "'h env \<Rightarrow> flash_device \<Rightarrow> u32 \<Rightarrow> u16 list \<Rightarrow> u32 \<Rightarrow> (('h, 'z) watched_scheme, u16 \<times> u16) cmd" where
  "cfi_program_buffer E flash address data words =
     bindM (wr16 E address 0x50) (\<lambda>_.
     bindM (wr16 E address (if manufacturer flash = 0x0020 then 0xE9 else 0xE8)) (\<lambda>_.
     bindM (cfi_wait_ready E address) (\<lambda>buffer_status.
     bindM (wr16 E address (ucast (words - 1))) (\<lambda>_.
     bindM (write_data (unat words) E address data) (\<lambda>_.
     bindM (wr16 E address 0xD0) (\<lambda>_.
     bindM (complete E address) (\<lambda>status. retM (status, buffer_status))))))))"

definition cfi_erase_block :: "'h env \<Rightarrow> u32 \<Rightarrow> bool \<Rightarrow> (('h, 'z) watched_scheme, u16) cmd" where
  "cfi_erase_block E address efa =
     bindM (wr16 E address 0x50) (\<lambda>_.
     bindM (wr16 E address (if efa then 0x24 else 0x20)) (\<lambda>_.
     bindM (wr16 E address 0xD0) (\<lambda>_. complete E address)))"

definition cfi_blank_check :: "'h env \<Rightarrow> u32 \<Rightarrow> (('h, 'z) watched_scheme, u16) cmd" where
  "cfi_blank_check E address =
     bindM (wr16 E address 0xBC) (\<lambda>_.
     bindM (wr16 E address 0xD0) (\<lambda>_.
     bindM (complete E address) (\<lambda>status.
     bindM (wr16 E address 0x50) (\<lambda>_. retM status))))"

definition cfi_program_configuration :: "'h env \<Rightarrow> u32 \<Rightarrow> u16 \<Rightarrow> bool \<Rightarrow> (('h, 'z) machine_scheme, unit) cmd" where
  "cfi_program_configuration E base value enhanced =
     (let address = base + ucast value * 2 in
      seqM [wr16 E address 0x60, wr16 E address (if enhanced then 0x04 else 0x03)])"

definition cfi_enter_efa :: "'h env \<Rightarrow> u32 \<Rightarrow> (('h, 'z) machine_scheme, unit) cmd" where
  "cfi_enter_efa E address = wr16 E address 0x94"

primrec efa_blank_loop :: "nat \<Rightarrow> 'h env \<Rightarrow> u32 \<Rightarrow> u32 \<Rightarrow> u32 \<Rightarrow> (('h, 'z) watched_scheme, bool) cmd" where
  "efa_blank_loop 0 E address sz offset = failM Out_Of_Fuel"
| "efa_blank_loop (Suc n) E address sz offset =
     (if \<not> offset < sz then retM True else
      bindM (rd E (address + offset)) (\<lambda>v.
      if v \<noteq> 0xFFFFFFFF then retM False else
      bindM (test_watchdog_serve E) (\<lambda>_. efa_blank_loop n E address sz (offset + 4))))"

definition cfi_efa_range_is_blank :: "'h env \<Rightarrow> u32 \<Rightarrow> u32 \<Rightarrow> (('h, 'z) watched_scheme, bool) cmd" where
  "cfi_efa_range_is_blank E address sz =
     bindM (cfi_enter_efa E address) (\<lambda>_.
     bindM (efa_blank_loop (unat sz div 4 + 2) E address sz 0) (\<lambda>blank.
     bindM (cfi_enter_read_array E address) (\<lambda>_. retM blank)))"

primrec find_efa_loop :: "nat \<Rightarrow> 'h env \<Rightarrow> flash_device \<Rightarrow> u32 \<Rightarrow> (('h, 'z) watched_scheme, u32 option) cmd" where
  "find_efa_loop 0 E flash block = retM None"
| "find_efa_loop (Suc n) E flash block =
     (let candidate = flash_base flash + block * efa_block_size flash in
      bindM (test_watchdog_reset E) (\<lambda>_.
      bindM (cfi_efa_range_is_blank E candidate (efa_block_size flash)) (\<lambda>blank.
      if blank then retM (Some candidate) else find_efa_loop n E flash (block + 1))))"

definition cfi_find_blank_efa_block :: "'h env \<Rightarrow> flash_device \<Rightarrow> (('h, 'z) watched_scheme, u32 option) cmd" where
  "cfi_find_blank_efa_block E flash = find_efa_loop (unat (efa_blocks flash)) E flash 0"

definition cfi_read_efa_word :: "'h env \<Rightarrow> u32 \<Rightarrow> (('h, 'z) machine_scheme, u16) cmd" where
  "cfi_read_efa_word E address =
     bindM (cfi_enter_efa E address) (\<lambda>_.
     bindM (rd16 E address) (\<lambda>value.
     bindM (cfi_enter_read_array E address) (\<lambda>_. retM value)))"

definition cfi_read_efa_lock_status :: "'h env \<Rightarrow> u32 \<Rightarrow> (('h, 'z) machine_scheme, u32) cmd" where
  "cfi_read_efa_lock_status E address =
     bindM (cfi_enter_id E address) (\<lambda>_.
     bindM (cfi_read_word E address 2) (\<lambda>v.
     bindM (cfi_enter_read_array E address) (\<lambda>_. retM (drop_bit 4 (ucast v) AND 0x3))))"

definition cfi_program_otp_word :: "'h env \<Rightarrow> u32 \<Rightarrow> u16 \<Rightarrow> (('h, 'z) watched_scheme, u16) cmd" where
  "cfi_program_otp_word E address value =
     bindM (wr16 E address 0xC0) (\<lambda>_.
     bindM (wr16 E address value) (\<lambda>_. complete E address))"

section \<open>What the chip is told\<close>

text \<open>
  The words that a run writes to the flash: all 16-bit writes, and all writes to the window in which the chips
  are mapped. The registers of the processor are written with 32 bits and lie outside the window. The bus of the chips has
  16 bits, so that a write of 32 bits arrives as two words.
\<close>

definition in_window :: "u32 \<Rightarrow> bool" where
  "in_window a \<longleftrightarrow> FLASH_WINDOW_BASE \<le> a \<and> a < FLASH_WINDOW_END"

fun command :: "access \<Rightarrow> (u32 \<times> u32) list" where
  "command (Wr W16 a v) = [(a, v)]"
| "command (Wr W8 a v) = (if in_window a then [(a, v)] else [])"
| "command (Wr W32 a v) = (if in_window a then [(a, v AND 0xFFFF), (a + 2, drop_bit 16 v)] else [])"
| "command _ = []"

definition commands :: "access list \<Rightarrow> (u32 \<times> u32) list" where
  "commands tr = concat (map command tr)"

lemma commands_simps [simp]:
  "commands [] = []" "commands (x # tr) = command x @ commands tr" "commands (xs @ ys) = commands xs @ commands ys"
  by (simp_all add: commands_def)

text \<open>The operations of the command set. The flag distinguishes the extended flash array from the main array.\<close>

datatype flash_op =
    Read_Array u32 | Read_Status u32 | Read_Id u32 | Read_Query u32 | Read_Efa u32
  | Clear_Status u32 | Suspend u32 | Resume u32
  | Unlock bool u32 | Lock bool u32 | Lock_Down bool u32 | Configure bool u32 | Blank_Check u32
  | Program bool u32 u32 | Program_Otp u32 u32 | Erase bool u32
  | Program_Buffer "(u32 \<times> u32) list"

text \<open>Commands of one word, and of a setup word and a second one.\<close>

definition one_cycle :: "u32 \<Rightarrow> u32 \<Rightarrow> flash_op option" where
  "one_cycle a c =
     (if c = 0xFF then Some (Read_Array a) else if c = 0x70 then Some (Read_Status a)
      else if c = 0x90 then Some (Read_Id a) else if c = 0x98 then Some (Read_Query a)
      else if c = 0x94 then Some (Read_Efa a) else if c = 0x50 then Some (Clear_Status a)
      else if c = 0xB0 then Some (Suspend a) else if c = 0xD0 then Some (Resume a) else None)"

definition two_cycle :: "u32 \<Rightarrow> u32 \<Rightarrow> u32 \<Rightarrow> flash_op option" where
  "two_cycle c a v =
     (if c = 0x40 \<or> c = 0x41 then Some (Program False a v) else if c = 0x44 then Some (Program True a v)
      else if c = 0xC0 then Some (Program_Otp a v)
      else if c = 0x20 \<and> v = 0xD0 then Some (Erase False a) else if c = 0x24 \<and> v = 0xD0 then Some (Erase True a)
      else if c = 0xBC \<and> v = 0xD0 then Some (Blank_Check a)
      else if c = 0x60 \<and> v = 0x03 then Some (Configure False a) else if c = 0x60 \<and> v = 0x04 then Some (Configure True a)
      else if c = 0x60 \<or> c = 0x64 then
        (if v = 0xD0 then Some (Unlock (c = 0x64) a) else if v = 0x01 then Some (Lock (c = 0x64) a)
         else if v = 0x2F then Some (Lock_Down (c = 0x64) a) else None)
      else None)"

text \<open>
  The decoding of a sequence of words. A buffer is announced by its setup word and the number of its words,
  less one, and ends with a confirmation.
\<close>

inductive decodes :: "(u32 \<times> u32) list \<Rightarrow> flash_op list \<Rightarrow> bool" where
  idle: "decodes [] []"
| one: "one_cycle a c = Some op \<Longrightarrow> decodes ws ops \<Longrightarrow> decodes ((a, c) # ws) (op # ops)"
| two: "two_cycle c b v = Some op \<Longrightarrow> decodes ws ops \<Longrightarrow> decodes ((a, c) # (b, v) # ws) (op # ops)"
| buffer: "c = 0xE8 \<or> c = 0xE9 \<Longrightarrow> length ds = unat v + 1 \<Longrightarrow> decodes ws ops \<Longrightarrow>
    decodes ((a, c) # (b, v) # ds @ (d, 0xD0) # ws) (Program_Buffer ds # ops)"

inductive_cases decodes_NilE: "decodes [] ops"
inductive_cases decodes_ConsE: "decodes ((a, c) # ws) ops"

lemma decodes_append: "decodes ws ops \<Longrightarrow> decodes us os \<Longrightarrow> decodes (ws @ us) (ops @ os)"
  by (induction rule: decodes.induct) (auto intro: decodes.intros)

lemma setup_two: "two_cycle c b v = Some op \<Longrightarrow> one_cycle a c = None \<and> c \<noteq> 0xE8 \<and> c \<noteq> 0xE9"
  by (auto simp: one_cycle_def two_cycle_def split: if_splits)

lemma setup_buffer: "c = 0xE8 \<or> c = 0xE9 \<Longrightarrow> one_cycle a c = None"
  by (auto simp: one_cycle_def)

text \<open>A sequence is decoded in at most one way.\<close>

lemma decodes_unique: "decodes ws ops \<Longrightarrow> decodes ws ops' \<Longrightarrow> ops = ops'"
proof (induction arbitrary: ops' rule: decodes.induct)
  case idle
  then show ?case by (auto elim: decodes_NilE)
next
  case (one a c op ws ops)
  note first = one.hyps(1) and IH = one.IH
  from one.prems show ?case
  proof (cases rule: decodes_ConsE [consumes 1, case_names 1 2 3])
    case 1
    then show ?thesis using first IH by simp
  next
    case 2
    from setup_two [OF 2(3), of a] first show ?thesis by simp
  next
    case 3
    from setup_buffer [OF 3(3), of a] first show ?thesis by simp
  qed
next
  case (two c b v op ws ops a)
  note first = two.hyps(1) and IH = two.IH
  from two.prems show ?case
  proof (cases rule: decodes_ConsE [consumes 1, case_names 1 2 3])
    case 1
    then show ?thesis using setup_two [OF first, of a] by simp
  next
    case 2
    then show ?thesis using first IH by simp
  next
    case 3
    from 3(3) setup_two [OF first] show ?thesis by simp
  qed
next
  case (buffer c ds v ws ops a b d)
  note first = buffer.hyps(1,2) and IH = buffer.IH
  from buffer.prems show ?case
  proof (cases rule: decodes_ConsE [consumes 1, case_names 1 2 3])
    case 1
    then show ?thesis using setup_buffer [OF first(1), of a] by simp
  next
    case 2
    from first(1) setup_two [OF 2(3)] show ?thesis by simp
  next
    case 3
    then show ?thesis using first IH by simp
  qed
qed

subsection \<open>Commands that tell the chip something\<close>

text \<open>\<open>issues c Q\<close>: when \<open>c\<close> returns \<open>x\<close>, the words it has written are complete operations \<open>ops\<close> with \<open>Q x ops\<close>.\<close>

definition issues :: "(('h, 'z) machine_scheme, 'a) cmd \<Rightarrow> ('a \<Rightarrow> flash_op list \<Rightarrow> bool) \<Rightarrow> bool" where
  "issues c Q \<longleftrightarrow> talks c (\<lambda>x tr. \<exists>ops. decodes (commands tr) ops \<and> Q x ops)"

lemma issues_bind:
  assumes "issues c P" "\<And>x ops. P x ops \<Longrightarrow> issues (f x) (\<lambda>y os. Q y (ops @ os))"
  shows "issues (bindM c f) Q"
  unfolding issues_def
proof (rule any.in_bind [OF assms(1) [unfolded issues_def]], elim exE conjE)
  fix x tr ops assume "decodes (commands tr) ops" "P x ops"
  then show "talks (f x) (\<lambda>y tr2. \<exists>os. decodes (commands (tr @ tr2)) os \<and> Q y os)"
    using assms(2) [OF \<open>P x ops\<close>] unfolding issues_def
    by (auto elim!: logs_in_mono intro: decodes_append)
qed

lemma issues_mono: "issues c P \<Longrightarrow> (\<And>x ops. P x ops \<Longrightarrow> Q x ops) \<Longrightarrow> issues c Q"
  unfolding issues_def by (erule logs_in_mono) blast

lemma issues_ret: "Q x [] \<Longrightarrow> issues (retM x) Q"
  unfolding issues_def by (rule any.in_ret) (auto intro: decodes.idle)

text \<open>A bystander writes nothing to the flash.\<close>

abbreviation bystander :: "(('h, 'z) machine_scheme, 'a) cmd \<Rightarrow> bool" where
  "bystander c \<equiv> talks c (\<lambda>_ tr. commands tr = [])"

lemma issues_bystander: "bystander c \<Longrightarrow> (\<And>x. Q x []) \<Longrightarrow> issues c Q"
  unfolding issues_def by (erule logs_in_mono) (auto intro: decodes.idle)

lemma issues_after: "bystander c \<Longrightarrow> (\<And>x. issues (f x) Q) \<Longrightarrow> issues (bindM c f) Q"
  by (rule issues_bind [OF issues_bystander, where P = "\<lambda>_ ops. ops = []"]) simp_all

text \<open>The writes of a command, one after the other.\<close>

lemma ucast_and_16: "ucast v AND 0xFFFF = (ucast (v :: u16) :: u32)"
proof -
  have "ucast v AND 0xFFFF = (take_bit 16 (ucast v) :: u32)"
    by (simp only: take_bit_eq_mask) (simp add: mask_eq_exp_minus_1)
  also have "\<dots> = ucast v" by (rule bit_word_eqI) (auto simp: bit_simps dest: bit_imp_le_length)
  finally show ?thesis .
qed

lemma talks_wr16: "(P :: unit \<Rightarrow> _) () [Wr W16 a (ucast v)] \<Longrightarrow> talks (wr16 E a v) P"
  unfolding wr16_def by (rule any.in_write) (simp add: trunc_def ucast_and_16)

lemma issues_one:
  assumes "one_cycle a (ucast v) = Some op" "issues (f ()) (\<lambda>x ops. Q x (op # ops))"
  shows "issues (bindM (wr16 E a v) f) Q"
  using assms(2) unfolding issues_def
  by (intro any.in_bind [OF talks_wr16 [where P = "\<lambda>_ tr. tr = [Wr W16 a (ucast v)]"]])
     (auto elim!: logs_in_mono intro: decodes.one [OF assms(1)])

lemma issues_two:
  assumes "two_cycle (ucast c) b (ucast v) = Some op" "issues (f ()) (\<lambda>x ops. Q x (op # ops))"
  shows "issues (bindM (wr16 E a c) (\<lambda>_. bindM (wr16 E b v) f)) Q"
  using assms(2) unfolding issues_def
  by (intro any.in_bind [OF talks_wr16 [where P = "\<lambda>_ tr. tr = [Wr W16 a (ucast c)]"]]
        any.in_bind [OF talks_wr16 [where P = "\<lambda>_ tr. tr = [Wr W16 b (ucast v)]"]])
     (auto elim!: logs_in_mono intro: decodes.two [OF assms(1)])

lemma issues_last: "one_cycle a (ucast v) = Some op \<Longrightarrow> Q () [op] \<Longrightarrow> issues (wr16 E a v) Q"
  unfolding issues_def by (rule talks_wr16) (auto intro: decodes.intros)

text \<open>A buffer: the setup word, a wait, the count, the data and the confirmation.\<close>

lemma talks_write_data:
  "talks (write_data n E a ws) (\<lambda>_ tr. n \<le> length ws \<and> commands tr = map (\<lambda>i. (a + of_nat i * 2, ucast (ws ! i))) [0..<n])"
proof (induction n arbitrary: a ws)
  case (Suc n)
  have step: "map (\<lambda>i. (a + of_nat i * 2, ucast ((w # us) ! i))) [0..<Suc n] =
      (a, ucast w) # map (\<lambda>i. (a + 2 + of_nat i * 2, ucast (us ! i) :: u32)) [0..<n]" for w :: u16 and us
    by (subst upt_conv_Cons) (simp_all add: map_Suc_upt [symmetric] comp_def algebra_simps del: upt_Suc)
  show ?case
  proof (cases ws)
    case (Cons w us)
    show ?thesis
      unfolding Cons write_data.simps list.case
      by (rule any.in_bind [OF talks_wr16 [where P = "\<lambda>_ tr. tr = [Wr W16 a (ucast w)]"]], simp, rule logs_in_mono [OF Suc.IH])
         (simp only: step, simp)
  qed (simp add: any.in_fail)
qed (simp add: any.in_ret)

lemma buffer_count:
  assumes "0 < n" "unat n \<le> 0x10000"
  shows "unat (ucast (ucast (n - 1) :: u16) :: u32) + 1 = unat n"
proof -
  have m: "unat (n - 1) = unat n - 1" using assms(1) by (metis unat_minus_one word_gt_0)
  then have "unat (ucast (n - 1) :: u16) = unat n - 1"
    using assms(2) by (simp add: unsigned_ucast_eq take_bit_nat_eq_self)
  then show ?thesis using assms by (simp add: unat_ucast_widen word_gt_0 unat_gt_0)
qed

lemma issues_buffer:
  assumes c: "c = 0xE8 \<or> c = 0xE9" and wait: "bystander w" and n: "0 < n" "unat n \<le> 0x10000"
    and rest: "\<And>y. unat n \<le> length ws \<Longrightarrow>
      issues (f y) (\<lambda>x ops. Q x (Program_Buffer (map (\<lambda>i. (a + of_nat i * 2, ucast (ws ! i))) [0..<unat n]) # ops))"
  shows "issues (bindM (wr16 E a c) (\<lambda>_. bindM w (\<lambda>y. bindM (wr16 E a (ucast (n - 1))) (\<lambda>_.
    bindM (write_data (unat n) E a ws) (\<lambda>_. bindM (wr16 E a 0xD0) (\<lambda>_. f y)))))) Q"
proof -
  note count = buffer_count [OF n]
  let ?ds = "map (\<lambda>i. (a + of_nat i * 2, ucast (ws ! i) :: u32)) [0..<unat n]"
  have dec: "decodes ((a, ucast c) # (a, ucast (ucast (n - 1) :: u16)) # ?ds @ (a, 0xD0) # us) (Program_Buffer ?ds # ops)"
    if "decodes us ops" for us ops
    by (rule decodes.buffer [OF _ _ that]) (use c count in auto)
  show ?thesis
    unfolding issues_def
    by (rule any.in_bind [OF talks_wr16 [where P = "\<lambda>_ tr. tr = [Wr W16 a (ucast c)]"]], simp,
        rule any.in_bind [OF wait], rule any.in_bind [OF talks_wr16 [where P = "\<lambda>_ tr. tr = [Wr W16 a (ucast (ucast (n - 1) :: u16))]"]], simp,
        rule any.in_bind [OF talks_write_data], rule any.in_bind [OF talks_wr16 [where P = "\<lambda>_ tr. tr = [Wr W16 a 0xD0]"]], simp,
        elim conjE, drule rest, unfold issues_def, erule logs_in_mono)
       (auto dest: dec)
qed

lemma bystander_bind: "bystander c \<Longrightarrow> (\<And>x. bystander (f x)) \<Longrightarrow> bystander (bindM c f)"
  by (erule any.in_bind) (simp add: logs_in_mono)

lemma bystander_seq: "bystander (seqM [])" "bystander c \<Longrightarrow> bystander (seqM cs) \<Longrightarrow> bystander (seqM (c # cs))"
  by (auto intro: any.in_ret bystander_bind)

lemma bystander_if: "bystander c \<Longrightarrow> bystander d \<Longrightarrow> bystander (if b then c else d)"
  by simp

lemma bystander_when: "bystander c \<Longrightarrow> bystander (whenM b c)"
  by (rule any.in_when) simp_all

lemma bystander_map: "bystander c \<Longrightarrow> bystander (mapM f c)"
  by (rule any.in_map)

lemma bystander_for: "(\<And>x. bystander (f x)) \<Longrightarrow> bystander (forM xs f)"
  by (induction xs) (auto intro: any.in_ret bystander_bind)

lemma bystander_while: "bystander c \<Longrightarrow> bystander d \<Longrightarrow> bystander (whileM n c d)"
  by (induction n) (auto intro!: any.in_ret any.in_fail bystander_bind bystander_if)

lemma bystander_simple: "bystander (retM x)" "bystander (getM f)" "bystander (liftE m)" "bystander (failM e)"
  by (auto intro: any.in_ret any.in_get any.in_liftE any.in_fail)

lemma bystander_mod: "(\<And>s. trace (f s) = trace s) \<Longrightarrow> bystander (modM f)"
  by (rule talks_mod) simp_all

lemma bystander_read: "bystander (mmio_read w E a)"
  by (rule any.in_read) simp

lemma bystander_write: "\<not> in_window a \<Longrightarrow> bystander (mmio_write W32 E a v)"
  by (rule any.in_write) simp

lemmas bystander_intros = bystander_bind bystander_seq bystander_if bystander_when bystander_map bystander_for bystander_while
  bystander_simple bystander_mod bystander_read bystander_write

lemma bystander_irq: "bystander (cpu_enable_irq b)"
  by (auto simp: logs_in_def any_change_def cpu_enable_irq_def cpu_enable_irq_or_fiq_def msr_cpsr_c_def wp)

lemma bystander_rd16: "bystander (rd16 E a)" "bystander (cfi_read_word E b off)"
  unfolding cfi_read_word_def rd16_def by (intro bystander_intros)+

lemma bystander_serve: "bystander (wdt_serve E)"
  unfolding wdt_serve_def wdt_feed_def mark_served_def stopwatch_elapsed_ms_def stopwatch_scaled_def stopwatch_elapsed_def
    stopwatch_get_def cpu_wdt_reload_def cpu_wdt_get_reload_def cpu_wdt_password_access_def cpu_wdt_modify_access_def
    field_def gpio_toggle_def gpio_get_def gpio_set_def rmw_def
  by (intro bystander_intros bystander_irq) (simp_all add: in_window_def)

lemma bystander_reset: "bystander (reset_timeout E)"
  unfolding reset_timeout_def stopwatch_update_def wdt_set_max_execution_time_def stopwatch_get_def cpu_get_stm_freq_def
    cpu_get_fpi2_freq_def cpu_get_sys_freq_def cpu_get_pll_freq_def get_pll_core_freq_def field_def flag_clear_def Let_def
  by (intro bystander_intros bystander_serve) simp_all

lemma bystander_ready: "bystander (cfi_wait_ready E a)"
proof -
  have "bystander (ready_loop n E a v)" for n v
    unfolding test_watchdog_serve_def by (induction n arbitrary: v)
      (auto simp: test_watchdog_serve_def intro!: bystander_intros bystander_rd16 bystander_serve)
  then show ?thesis unfolding cfi_wait_ready_def .
qed

lemma issues_complete: "(\<And>x. Q x [Read_Array a]) \<Longrightarrow> issues (complete E a) Q"
  unfolding complete_def cfi_enter_read_array_def
  by (rule issues_after [OF bystander_ready], rule issues_one [where op = "Read_Array a"], simp add: one_cycle_def, rule issues_ret)

text \<open>\<open>tells c ops\<close>: the words that \<open>c\<close> writes are decoded as \<open>ops\<close>.\<close>

abbreviation tells :: "(('h, 'z) machine_scheme, 'a) cmd \<Rightarrow> flash_op list \<Rightarrow> bool" where
  "tells c ops \<equiv> issues c (\<lambda>_ os. os = ops)"

lemma tells_modes:
  "tells (cfi_enter_read_array E a) [Read_Array a]" "tells (cfi_enter_id E a) [Read_Id a]"
  "tells (cfi_enter_status E a) [Read_Status a]" "tells (cfi_enter_efa E a) [Read_Efa a]"
  "tells (cfi_enter_query E a) [Read_Query (a + 0xAA)]"
  unfolding cfi_enter_read_array_def cfi_enter_id_def cfi_enter_status_def cfi_enter_efa_def cfi_enter_query_def
  by (rule issues_last; simp add: one_cycle_def)+

lemma tells_lock_status: "tells (cfi_read_lock_status E a) [Read_Id a, Read_Array a]"
  unfolding cfi_read_lock_status_def cfi_enter_id_def cfi_enter_read_array_def
  by (rule issues_one [where op = "Read_Id a"], simp add: one_cycle_def, rule issues_after [OF bystander_rd16(2)],
      rule issues_one [where op = "Read_Array a"], simp add: one_cycle_def, rule issues_ret) simp

lemma tells_clear_status: "tells (cfi_clear_status E a) [Clear_Status a, Read_Status a, Read_Array a]"
  unfolding cfi_clear_status_def cfi_enter_read_array_def
  by (rule issues_one [where op = "Clear_Status a"], simp add: one_cycle_def,
      rule issues_one [where op = "Read_Status a"], simp add: one_cycle_def, rule issues_after [OF bystander_rd16(1)],
      rule issues_one [where op = "Read_Array a"], simp add: one_cycle_def, rule issues_ret) simp

lemma issues_clear: "issues (f ()) (\<lambda>x ops. Q x (Clear_Status a # ops)) \<Longrightarrow> issues (bindM (wr16 E a 0x50) f) Q"
  by (rule issues_one [where op = "Clear_Status a"]) (simp_all add: one_cycle_def)

lemma tells_block_operations:
  "tells (cfi_unlock_block E a efa) [Clear_Status a, Unlock efa a, Read_Array a]"
  "tells (cfi_lock_block E a efa) [Clear_Status a, Lock efa a, Read_Array a]"
  "tells (cfi_lock_down_block E a efa) [Lock_Down efa a, Read_Array a]"
  "tells (cfi_erase_block E a efa) [Clear_Status a, Erase efa a, Read_Array a]"
  "tells (cfi_program_word E flash a v efa) [Clear_Status a, Program efa a (ucast v), Read_Array a]"
  "tells (cfi_program_otp_word E a v) [Program_Otp a (ucast v), Read_Array a]"
proof -
  show "tells (cfi_unlock_block E a efa) [Clear_Status a, Unlock efa a, Read_Array a]"
    unfolding cfi_unlock_block_def
    by (rule issues_clear, rule issues_two [where op = "Unlock efa a"]) (auto simp: two_cycle_def intro!: issues_complete)
  show "tells (cfi_lock_block E a efa) [Clear_Status a, Lock efa a, Read_Array a]"
    unfolding cfi_lock_block_def
    by (rule issues_clear, rule issues_two [where op = "Lock efa a"]) (auto simp: two_cycle_def intro!: issues_complete)
  show "tells (cfi_lock_down_block E a efa) [Lock_Down efa a, Read_Array a]"
    unfolding cfi_lock_down_block_def
    by (rule issues_two [where op = "Lock_Down efa a"]) (auto simp: two_cycle_def intro!: issues_complete)
  show "tells (cfi_erase_block E a efa) [Clear_Status a, Erase efa a, Read_Array a]"
    unfolding cfi_erase_block_def
    by (rule issues_clear, rule issues_two [where op = "Erase efa a"]) (auto simp: two_cycle_def intro!: issues_complete)
  show "tells (cfi_program_word E flash a v efa) [Clear_Status a, Program efa a (ucast v), Read_Array a]"
    unfolding cfi_program_word_def
    by (rule issues_clear, rule issues_two [where op = "Program efa a (ucast v)"]) (auto simp: two_cycle_def intro!: issues_complete)
  show "tells (cfi_program_otp_word E a v) [Program_Otp a (ucast v), Read_Array a]"
    unfolding cfi_program_otp_word_def
    by (rule issues_two [where op = "Program_Otp a (ucast v)"]) (auto simp: two_cycle_def intro!: issues_complete)
qed

lemma tells_blank_check: "tells (cfi_blank_check E a) [Blank_Check a, Read_Array a, Clear_Status a]"
  unfolding cfi_blank_check_def
  by (rule issues_two [where op = "Blank_Check a"], simp add: two_cycle_def,
      rule issues_bind [OF issues_complete [where Q = "\<lambda>_ ops. ops = [Read_Array a]"]], simp,
      rule issues_clear, rule issues_ret) simp

text \<open>The words of a buffer with their addresses.\<close>

definition buffer_words :: "u32 \<Rightarrow> u16 list \<Rightarrow> nat \<Rightarrow> (u32 \<times> u32) list" where
  "buffer_words a ds n = map (\<lambda>i. (a + of_nat i * 2, ucast (ds ! i))) [0..<n]"

lemma tells_program_buffer:
  assumes "0 < n" "unat n \<le> 0x10000"
  shows "tells (cfi_program_buffer E flash a ds n) [Clear_Status a, Program_Buffer (buffer_words a ds (unat n)), Read_Array a]"
  unfolding cfi_program_buffer_def
  by (rule issues_clear, rule issues_buffer [OF _ bystander_ready assms], simp,
      rule issues_bind [OF issues_complete [where Q = "\<lambda>_ ops. ops = [Read_Array a]"]], simp, rule issues_ret)
     (simp add: buffer_words_def)

text \<open>The operations return on every device: the wait for the chip is bounded.\<close>

lemma ends_rd16: "ends (rd16 E a)" "ends (wr16 E a v)" "ends (cfi_read_word E a k)"
  unfolding cfi_read_word_def rd16_def wr16_def by (intro ends_intros)+

lemma ends_complete: "ends (cfi_wait_ready E a)" "ends (complete E a)"
proof -
  have "ends (ready_loop n E a v)" for n v
    by (induction n arbitrary: v) (auto simp: test_watchdog_serve_def intro!: ends_intros ends_rd16)
  then show w: "ends (cfi_wait_ready E a)" unfolding cfi_wait_ready_def .
  show "ends (complete E a)"
    unfolding complete_def cfi_enter_read_array_def by (intro ends_intros ends_rd16 w)
qed

lemma ends_write_data: "n \<le> length ds \<Longrightarrow> ends (write_data n E a ds)"
  by (induction n arbitrary: a ds) (auto intro!: ends_intros ends_rd16 split: list.splits)

lemma ends_operations:
  "ends (cfi_unlock_block E a efa)" "ends (cfi_lock_block E a efa)" "ends (cfi_lock_down_block E a efa)"
  "ends (cfi_erase_block E a efa)" "ends (cfi_program_word E flash a v efa)" "ends (cfi_blank_check E a)"
  "ends (cfi_program_otp_word E a v)"
  unfolding cfi_unlock_block_def cfi_lock_block_def cfi_lock_down_block_def cfi_erase_block_def cfi_program_word_def
    cfi_blank_check_def cfi_program_otp_word_def
  by (intro ends_intros ends_rd16 ends_complete)+

lemma ends_program_buffer: "unat n \<le> length ds \<Longrightarrow> ends (cfi_program_buffer E flash a ds n)"
  unfolding cfi_program_buffer_def by (intro ends_intros ends_rd16 ends_complete ends_write_data)

definition performs :: "(('h, 'z) watched_scheme, 'a) cmd \<Rightarrow> ('h, 'z) watched_scheme \<Rightarrow> flash_op list \<Rightarrow> bool" where
  "performs c s ops \<longleftrightarrow> (\<exists>x t tr. c s = Inr (x, t) \<and> trace t = trace s @ tr \<and> decodes (commands tr) ops)"

lemma performsI: "ends c \<Longrightarrow> tells c ops \<Longrightarrow> ticks_per_s s \<noteq> 0 \<Longrightarrow> performs c s ops"
  unfolding ends_def clock_set_def issues_def performs_def
  by (metis (no_types, lifting) logs_inD wpD)



end
