(* ===== verification/Cfi_Search.thy ===== *)
theory Cfi_Search
  imports Cfi
begin

text \<open>
  The search of the flash driver for a block that the tests may write to: it writes nothing, and the block it
  selects is an erase block of the chip of which every word was read as blank.
\<close>

section \<open>The search only reads, and finds a blank block\<close>

text \<open>The words of the range at \<open>a\<close> that lie below \<open>sz\<close> bytes were read as all ones.\<close>

definition read_blank :: "access list \<Rightarrow> u32 \<Rightarrow> nat \<Rightarrow> bool" where
  "read_blank tr a sz \<longleftrightarrow> (\<forall>k. 4 * k < sz \<longrightarrow> Rd W32 (a + of_nat (4 * k)) 0xFFFFFFFF \<in> set tr)"

lemma talks_blank_loop:
  fixes E :: "'h env"
  assumes "unat sz \<le> 2 ^ 32 - 4" "4 * j < unat sz + 4"
  shows "talks (blank_loop n E a sz (of_nat (4 * j)) :: (('h, 'z) watched_scheme, bool) cmd) (\<lambda>r tr. commands tr = [] \<and>
    (r \<longrightarrow> (\<forall>k\<ge>j. 4 * k < unat sz \<longrightarrow> Rd W32 (a + of_nat (4 * k)) 0xFFFFFFFF \<in> set tr)))"
  using assms(2)
proof (induction n arbitrary: j)
  case (Suc n)
  have j: "unat (of_nat (4 * j) :: u32) = 4 * j"
    using Suc.prems assms(1) by (simp add: unat_of_nat del: of_nat_mult)
  show ?case
  proof (cases "4 * j < unat sz")
    case True
    then have lt: "of_nat (4 * j) < sz" by (simp only: word_less_nat_alt j)
    have next_word: "of_nat (4 * j) + 4 = (of_nat (4 * (j + 1)) :: u32)" by simp
    have IH: "talks (blank_loop n E a sz (of_nat (4 * (j + 1))) :: (('h, 'z) watched_scheme, bool) cmd) (\<lambda>r tr. commands tr = [] \<and>
        (r \<longrightarrow> (\<forall>k\<ge>j + 1. 4 * k < unat sz \<longrightarrow> Rd W32 (a + of_nat (4 * k)) 0xFFFFFFFF \<in> set tr)))"
      using True by (intro Suc.IH) simp
    have serve: "bystander (whenM (of_nat (4 * j) AND 0x3FFF = (0 :: u32)) (test_watchdog_serve E) :: (('h, 'z) watched_scheme, unit) cmd)"
      unfolding test_watchdog_serve_def by (intro bystander_intros bystander_serve)
    show ?thesis
      unfolding blank_loop.simps next_word
      by (simp only: lt not_True_eq_False if_False, rule any.in_bind_read, rule any.in_if, rule any.in_ret, simp,
          rule any.in_bind [OF serve], rule logs_in_mono [OF IH])
         (auto simp del: of_nat_mult of_nat_add simp: Suc_le_eq nat_less_le)
  next
    case False
    then have "\<not> of_nat (4 * j) < sz" by (simp only: word_less_nat_alt j) simp
    then show ?thesis using False by (auto intro!: any.in_ret)
  qed
qed (simp add: any.in_fail)

lemma talks_range_is_blank:
  assumes "unat sz \<le> 2 ^ 32 - 4"
  shows "talks (cfi_range_is_blank E a sz) (\<lambda>r tr. commands tr = [] \<and> (r \<longrightarrow> read_blank tr a (unat sz)))"
  unfolding cfi_range_is_blank_def
  by (rule logs_in_mono [OF talks_blank_loop [OF assms, of 0, simplified]]) (simp add: read_blank_def)

text \<open>The erase blocks of a chip by offset and size, and a geometry that fits the size of the chip.\<close>

definition region_bytes :: "erase_region \<Rightarrow> nat" where
  "region_bytes r = unat (blocks r) * unat (block_size r)"

definition region_start :: "flash_device \<Rightarrow> nat \<Rightarrow> nat" where
  "region_start flash k = sum_list (map region_bytes (take k (erase flash)))"

definition block_at :: "flash_device \<Rightarrow> nat \<Rightarrow> nat \<Rightarrow> bool" where
  "block_at flash off sz \<longleftrightarrow> (\<exists>k < unat (regions flash). \<exists>b < unat (blocks (erase flash ! k)).
     off = region_start flash k + b * sz \<and> sz = unat (block_size (erase flash ! k)))"

definition tiled :: "flash_device \<Rightarrow> bool" where
  "tiled flash \<longleftrightarrow> unat (regions flash) \<le> length (erase flash) \<and> (\<forall>r \<in> set (erase flash). 256 dvd unat (block_size r)) \<and>
     region_start flash (unat (regions flash)) \<le> unat (flash_size flash) \<and> unat (flash_size flash) \<le> 2 ^ 27"

lemma region_start_Suc: "k < length (erase flash) \<Longrightarrow> region_start flash (Suc k) = region_start flash k + region_bytes (erase flash ! k)"
  by (simp add: region_start_def take_Suc_conv_app_nth)

lemma region_start_mono: "j \<le> k \<Longrightarrow> region_start flash j \<le> region_start flash k"
proof -
  assume "j \<le> k"
  then have "take k (erase flash) = take j (erase flash) @ take (k - j) (drop j (erase flash))"
    by (metis le_add_diff_inverse take_add)
  then show ?thesis by (simp add: region_start_def)
qed

lemma dvd_sum_list_map: "\<forall>x \<in> set xs. d dvd f x \<Longrightarrow> (d :: nat) dvd sum_list (map f xs)"
  by (induction xs) simp_all

lemma region_start_dvd: "\<forall>r \<in> set (erase flash). 256 dvd unat (block_size r) \<Longrightarrow> 256 dvd region_start flash k"
proof -
  assume all: "\<forall>r \<in> set (erase flash). 256 dvd unat (block_size r)"
  then have "\<forall>r \<in> set (take k (erase flash)). 256 dvd region_bytes r"
    by (auto simp: region_bytes_def dest: in_set_takeD)
  then show ?thesis unfolding region_start_def by (rule dvd_sum_list_map)
qed

text \<open>A block of the chip inside a range, with room for a sample on both sides.\<close>

definition fits_range :: "flash_device \<Rightarrow> nat \<Rightarrow> nat \<Rightarrow> nat \<Rightarrow> nat \<Rightarrow> bool" where
  "fits_range flash lo len off sz \<longleftrightarrow> lo \<le> off \<and> off + sz \<le> lo + len \<and> 8 \<le> off \<and> off + sz + 8 \<le> unat (flash_size flash)"

definition selected :: "flash_device \<Rightarrow> u32 \<Rightarrow> u32 \<Rightarrow> flash_device" where
  "selected flash off bs = flash\<lparr>test_block := flash_base flash + off, test_block_size := bs\<rparr>"

lemma unat_sum: "unat a + unat b < 2 ^ 32 \<Longrightarrow> unat (a + b :: u32) = unat a + unat b"
  by (simp add: unat_word_ariths)

lemma select_block_sound:
  assumes "unat (flash_size flash) \<le> 2 ^ 27" "unat off + n * unat bs \<le> unat (flash_size flash)"
    and "unat lo + unat len \<le> unat (flash_size flash)"
  shows "case select_block n flash bs lo len off of
      Inl off' \<Rightarrow> unat off' = unat off + n * unat bs
    | Inr flash' \<Rightarrow> \<exists>b off'. b < n \<and> unat off' = unat off + b * unat bs \<and> flash' = selected flash off' bs \<and>
        fits_range flash (unat lo) (unat len) (unat off') (unat bs)"
  using assms(2)
proof (induction n arbitrary: off)
  case (Suc n)
  have end_off: "unat (off + bs) = unat off + unat bs" using Suc.prems assms(1) by (intro unat_sum) simp
  have end_sample: "unat (off + bs + 8) = unat off + unat bs + 8"
    using Suc.prems assms(1) unat_sum [of "off + bs" 8] end_off by simp
  have end_range: "unat (lo + len) = unat lo + unat len" using assms(1,3) by (intro unat_sum) simp
  let ?take = "lo \<le> off \<and> off + bs \<le> lo + len \<and> 8 \<le> off \<and> off + bs + 8 \<le> flash_size flash"
  have fit: "?take \<longleftrightarrow> fits_range flash (unat lo) (unat len) (unat off) (unat bs)"
    unfolding fits_range_def word_le_nat_alt end_off end_sample end_range by simp
  show ?case
  proof (cases ?take)
    case True
    then show ?thesis unfolding select_block.simps Let_def using fit
      by (auto simp: selected_def intro!: exI [of _ "0 :: nat"] exI [of _ off])
  next
    case False
    have IH: "case select_block n flash bs lo len (off + bs) of
        Inl off' \<Rightarrow> unat off' = unat (off + bs) + n * unat bs
      | Inr flash' \<Rightarrow> \<exists>b off'. b < n \<and> unat off' = unat (off + bs) + b * unat bs \<and> flash' = selected flash off' bs \<and>
          fits_range flash (unat lo) (unat len) (unat off') (unat bs)"
      using Suc.prems end_off by (intro Suc.IH) simp
    have step: "select_block (Suc n) flash bs lo len off = select_block n flash bs lo len (off + bs)"
      using False by (auto simp: Let_def)
    show ?thesis
    proof (cases "select_block n flash bs lo len (off + bs)")
      case (Inl off')
      then show ?thesis using IH unfolding step by (simp add: end_off)
    next
      case (Inr flash')
      then obtain b off' where b: "b < n" "unat off' = unat (off + bs) + b * unat bs" "flash' = selected flash off' bs"
        "fits_range flash (unat lo) (unat len) (unat off') (unat bs)" using IH by auto
      then show ?thesis unfolding step Inr sum.case by (intro exI [of _ "Suc b"] exI [of _ off']) (simp add: end_off)
    qed
  qed
qed simp

lemma select_region_sound:
  assumes "tiled flash" "unat lo + unat len \<le> unat (flash_size flash)"
    and "k + n = unat (regions flash)" "unat off = region_start flash k"
  shows "case select_region n k flash lo len off of
      Inl e \<Rightarrow> False
    | Inr (found, flash') \<Rightarrow> if found then \<exists>off' bs. block_at flash (unat off') (unat bs) \<and> flash' = selected flash off' bs \<and>
          fits_range flash (unat lo) (unat len) (unat off') (unat bs)
        else flash' = flash"
  using assms(3,4)
proof (induction n arbitrary: k off)
  case (Suc n)
  note geometry = assms(1) [unfolded tiled_def]
  have k: "k < length (erase flash)" "k < unat (regions flash)" using Suc.prems(1) geometry by auto
  let ?r = "erase flash ! k"
  have room: "unat off + unat (blocks ?r) * unat (block_size ?r) \<le> unat (flash_size flash)"
    using region_start_Suc [OF k(1)] region_start_mono [of "Suc k" "unat (regions flash)" flash] Suc.prems geometry
    by (simp add: region_bytes_def)
  have size: "unat (flash_size flash) \<le> 2 ^ 27" using geometry by blast
  show ?case
  proof (cases "select_block (unat (blocks ?r)) flash (block_size ?r) lo len off")
    case (Inl off')
    then have "unat off' = region_start flash (k + 1)"
      using select_block_sound [OF size room assms(2)] region_start_Suc [OF k(1)] Suc.prems(2) by (simp add: region_bytes_def)
    then show ?thesis using Suc.IH [of "k + 1" off'] Suc.prems(1) k(1) Inl by (simp add: Let_def)
  next
    case (Inr flash')
    then obtain b off' where b: "b < unat (blocks ?r)" "unat off' = unat off + b * unat (block_size ?r)"
      "flash' = selected flash off' (block_size ?r)" "fits_range flash (unat lo) (unat len) (unat off') (unat (block_size ?r))"
      using select_block_sound [OF size room assms(2)] by auto
    then have "block_at flash (unat off') (unat (block_size ?r))"
      unfolding block_at_def using k(2) Suc.prems(2) by auto
    then show ?thesis using b(3,4) k(1) Inr by (auto simp: Let_def)
  qed
qed simp

lemma select_erase_block_sound:
  assumes "tiled flash" "unat lo + unat len \<le> unat (flash_size flash)"
  shows "case cfi_select_erase_block flash lo len of
      Inl e \<Rightarrow> False
    | Inr (found, flash') \<Rightarrow> if found then \<exists>off' bs. block_at flash (unat off') (unat bs) \<and> flash' = selected flash off' bs \<and>
          fits_range flash (unat lo) (unat len) (unat off') (unat bs)
        else flash' = flash"
  unfolding cfi_select_erase_block_def
  by (rule select_region_sound [OF assms]) (simp_all add: region_start_def)

lemma read_blank_part:
  assumes "read_blank tr (a + lo) (unat len)" "unat lo \<le> unat off" "unat off + sz \<le> unat lo + unat len" "4 dvd unat lo" "4 dvd unat off"
  shows "read_blank tr (a + off) sz"
  unfolding read_blank_def
proof (intro allI impI)
  fix k assume k: "4 * k < sz"
  obtain m where m: "unat off = unat lo + 4 * m"
    using assms(2,4,5) by (metis dvd_diff_nat dvd_def le_add_diff_inverse)
  have "of_nat (unat off) = (of_nat (unat lo) + of_nat (4 * m) :: u32)" unfolding m by (rule of_nat_add)
  then have off: "off = lo + of_nat (4 * m)" by (simp del: of_nat_mult)
  have "Rd W32 (a + lo + of_nat (4 * (m + k))) 0xFFFFFFFF \<in> set tr"
    using assms(1) [unfolded read_blank_def, rule_format, of "m + k"] assms(3) k m by (simp del: of_nat_mult)
  then show "Rd W32 (a + off + of_nat (4 * k)) 0xFFFFFFFF \<in> set tr"
    by (simp add: off algebra_simps)
qed

lemma read_blank_mono: "read_blank tr a sz \<Longrightarrow> read_blank (us @ tr @ vs) a sz"
  by (auto simp: read_blank_def)

lemma block_at_dvd:
  assumes "tiled flash" "block_at flash off sz"
  shows "256 dvd off \<and> 256 dvd sz"
proof -
  note geometry = assms(1) [unfolded tiled_def]
  obtain k b where k: "k < unat (regions flash)" "off = region_start flash k + b * sz" "sz = unat (block_size (erase flash ! k))"
    using assms(2) unfolding block_at_def by auto
  then have "256 dvd sz" using geometry by simp
  then show ?thesis using k(2) region_start_dvd [of flash k] geometry by simp
qed

text \<open>What the search promises about the block it has found, from the accesses \<open>tr\<close> it has made.\<close>

definition blank_block_found :: "flash_device \<Rightarrow> flash_device \<Rightarrow> access list \<Rightarrow> bool" where
  "blank_block_found flash flash' tr \<longleftrightarrow> (\<exists>off bs. flash' = selected flash off bs \<and> block_at flash (unat off) (unat bs) \<and>
     8 \<le> unat off \<and> unat off + unat bs + 8 \<le> unat (flash_size flash) \<and> read_blank tr (flash_base flash + off) (unat bs))"

lemma blank_block_found_mono: "blank_block_found flash flash' tr \<Longrightarrow> blank_block_found flash flash' (us @ tr)"
  unfolding blank_block_found_def using read_blank_mono [where vs = "[]", simplified] by blast

lemma bindM_liftE_Inr: "bindM (liftE (Inr x)) f = f x"
  by (simp add: bindM_def liftE_def fun_eq_iff)

lemma talks_find_blank_loop:
  fixes E :: "'h env"
  assumes "tiled flash" "4 dvd unat len"
    and "unat off \<le> unat (flash_size flash)" "off = 0 \<or> unat len \<le> unat (flash_size flash)" "4 dvd unat off"
  shows "talks (find_blank_loop n E flash len off :: (('h, 'z) watched_scheme, bool \<times> flash_device) cmd)
    (\<lambda>(found, flash') tr. commands tr = [] \<and> (if found then blank_block_found flash flash' tr else flash' = flash))"
  using assms(3-5)
proof (induction n arbitrary: off)
  case (Suc n)
  have size: "unat (flash_size flash) \<le> 2 ^ 27" using assms(1) by (simp add: tiled_def)
  let ?P = "\<lambda>(found, flash') tr. commands tr = [] \<and> (if found then blank_block_found flash flash' tr else flash' = flash)"
  show ?case
  proof (cases "off + len \<le> flash_size flash")
    case True
    have sum: "unat (off + len) = unat off + unat len"
      using Suc.prems(1,2) size by (cases "off = 0") (auto intro: unat_sum)
    then have range: "unat off + unat len \<le> unat (flash_size flash)" using True by (simp add: word_le_nat_alt)
    have IH: "talks (find_blank_loop n E flash len (off + len) :: (('h, 'z) watched_scheme, bool \<times> flash_device) cmd) ?P"
      using range sum Suc.prems(3) assms(2) by (intro Suc.IH) simp_all
    have reset: "bystander (test_watchdog_reset E :: (('h, 'z) watched_scheme, unit) cmd)"
      unfolding test_watchdog_reset_def by (rule bystander_reset)
    have blank: "talks (cfi_range_is_blank E (flash_base flash + off) len :: (('h, 'z) watched_scheme, bool) cmd)
        (\<lambda>r tr. commands tr = [] \<and> (r \<longrightarrow> read_blank tr (flash_base flash + off) (unat len)))"
      using range size by (intro talks_range_is_blank) simp
    have later: "?P x (t1 @ t2)" if "commands t1 = []" "?P x t2" for x t1 t2
      using that by (cases x) (auto intro: blank_block_found_mono)
    obtain found flash' where sel: "cfi_select_erase_block flash off len = Inr (found, flash')"
      and ok: "if found then \<exists>off' bs. block_at flash (unat off') (unat bs) \<and> flash' = selected flash off' bs \<and>
          fits_range flash (unat off) (unat len) (unat off') (unat bs) else flash' = flash"
      using select_erase_block_sound [OF assms(1) range] by (auto split: sum.splits prod.splits)
    have hit: "blank_block_found flash flash' tr" if r: "found" "read_blank tr (flash_base flash + off) (unat len)" for tr
    proof -
      obtain off' bs where b: "block_at flash (unat off') (unat bs)" "flash' = selected flash off' bs"
        "fits_range flash (unat off) (unat len) (unat off') (unat bs)" using ok r(1) by auto
      have "4 dvd unat off'" using block_at_dvd [OF assms(1) b(1)] dvd_trans [of 4 "256 :: nat"] by simp
      then have "read_blank tr (flash_base flash + off') (unat bs)"
        using b(3) Suc.prems(3) by (intro read_blank_part [OF r(2)]) (simp_all add: fits_range_def)
      then show ?thesis using b by (auto simp: blank_block_found_def fits_range_def)
    qed
    have final: "talks (if \<not> b then find_blank_loop n E flash len (off + len) else
        bindM (liftE (cfi_select_erase_block flash off len)) (\<lambda>(found, flash'). if found then retM (True, flash')
          else find_blank_loop n E flash' len (off + len)) :: (('h, 'z) watched_scheme, bool \<times> flash_device) cmd)
        (\<lambda>x tr. ?P x (t1 @ tr))"
      if t1: "commands t1 = []" "b \<longrightarrow> read_blank t1 (flash_base flash + off) (unat len)" for b t1
    proof (cases "b \<and> found")
      case True
      then have "?P (True, flash') (t1 @ [])" using t1 hit by simp
      then show ?thesis using True sel by (simp add: bindM_liftE_Inr any.in_ret)
    next
      case False
      then have "(if \<not> b then find_blank_loop n E flash len (off + len) else
        bindM (liftE (cfi_select_erase_block flash off len)) (\<lambda>(found, flash'). if found then retM (True, flash')
          else find_blank_loop n E flash' len (off + len))) =
        (find_blank_loop n E flash len (off + len) :: (('h, 'z) watched_scheme, bool \<times> flash_device) cmd)"
        using sel ok by (simp add: bindM_liftE_Inr)
      then show ?thesis using logs_in_mono [OF IH later [OF t1(1)]] by simp
    qed
    show ?thesis
      unfolding find_blank_loop.simps
      by (simp only: True not_True_eq_False if_False, rule any.in_bind [OF reset], rule any.in_bind [OF blank], unfold append_assoc [symmetric],
          rule final) (auto intro: read_blank_mono [where vs = "[]", simplified])
  next
    case False
    then show ?thesis by (simp add: any.in_ret)
  qed
qed (simp add: any.in_fail)

text \<open>
  C17. The search for a blank block, on a chip whose erase regions fit its size: it writes nothing to the flash,
  so that no data can be lost by it, whatever the chip contains; and when it reports success, the selected block is an erase
  block of the chip, with at least eight bytes before it and behind it, and every word of it was read as blank during
  this search. Nothing else of the description of the chip changes.
\<close>

theorem cfi_find_blank_block_safe:
  assumes "tiled flash" "4 dvd unat alignment" "cfi_find_blank_block E flash alignment s = Inr ((found, flash'), t)"
  shows "\<exists>tr. trace t = trace s @ tr \<and> commands tr = [] \<and>
    (if found then \<exists>off bs. flash' = flash\<lparr>test_block := flash_base flash + off, test_block_size := bs\<rparr> \<and>
        block_at flash (unat off) (unat bs) \<and> 8 \<le> unat off \<and> unat off + unat bs + 8 \<le> unat (flash_size flash) \<and>
        (\<forall>k. 4 * k < unat bs \<longrightarrow> Rd W32 (flash_base flash + off + of_nat (4 * k)) 0xFFFFFFFF \<in> set tr)
     else flash' = flash)"
proof -
  have "talks (cfi_find_blank_block E flash alignment) (\<lambda>(found, flash') tr. commands tr = [] \<and>
      (if found then blank_block_found flash flash' tr else flash' = flash))"
    unfolding cfi_find_blank_block_def by (rule talks_find_blank_loop [OF assms(1,2)]) simp_all
  from logs_inD [OF this assms(3)] show ?thesis
    by (auto simp: blank_block_found_def selected_def read_blank_def split: if_splits)
qed

definition blank_chip :: "unit env" where
  "blank_chip = \<lparr>dev_read = (\<lambda>w a h. (if in_window a then 0xFFFFFFFF else 0, h)), dev_write = (\<lambda>w a v h. h), fuel = 1,
     cpu = PMB8876, pm_wadog = False, pmic = PMIC_none\<rparr>"

definition small_flash :: flash_device where
  "small_flash = no_flash\<lparr>flash_base := FLASH_WINDOW_BASE, flash_size := 1024, regions := 1, erase := [\<lparr>blocks = 4, block_size = 256\<rparr>]\<rparr>"

lemma blank_chip_search:
  "case cfi_find_blank_block blank_chip small_flash 256 ((idle ())\<lparr>wdt_off := True\<rparr>) of
     Inl e \<Rightarrow> False | Inr ((found, flash), t) \<Rightarrow> found \<and> test_block flash = 0xA0000100"
  by code_simp

lemma small_flash_tiled: "tiled small_flash"
  by (simp add: tiled_def small_flash_def region_start_def region_bytes_def)

theorem cfi_find_blank_block_safe_witness:
  "\<exists>flash' t. cfi_find_blank_block blank_chip small_flash 256 ((idle ())\<lparr>wdt_off := True\<rparr>) = Inr ((True, flash'), t) \<and>
     commands (trace t) = [] \<and> (\<exists>off. test_block flash' = FLASH_WINDOW_BASE + off \<and> block_at small_flash (unat off) (unat (test_block_size flash')))"
proof -
  obtain flash' t where run: "cfi_find_blank_block blank_chip small_flash 256 ((idle ())\<lparr>wdt_off := True\<rparr>) = Inr ((True, flash'), t)"
    using blank_chip_search by (auto split: sum.splits prod.splits)
  have base: "flash_base small_flash = FLASH_WINDOW_BASE" by (simp add: small_flash_def)
  obtain off bs where found: "commands (trace t) = []" "block_at small_flash (unat off) (unat bs)"
    "flash' = small_flash\<lparr>test_block := FLASH_WINDOW_BASE + off, test_block_size := bs\<rparr>"
    using cfi_find_blank_block_safe [OF small_flash_tiled _ run] unfolding base by auto
  then have "test_block flash' = FLASH_WINDOW_BASE + off" "test_block_size flash' = bs" by simp_all
  with run found(1,2) show ?thesis by blast
qed

end
