(* ===== verification/Cfi_Rw.thy ===== *)
theory Cfi_Rw
  imports Cfi_Search
begin

text \<open>
  The three programs that write to the flash: the read and write test of the main array
  (\<^verbatim>\<open>src/unit/cfi-intel/rw.c\<close>), of the extended array (\<^verbatim>\<open>efa-rw.c\<close>) and of the one-time programmable cells
  (\<^verbatim>\<open>otp-rw.c\<close>). They run on phones whose flash holds the only copy of their firmware, so that what matters is what
  they never do: the theorems bound the addresses they program, erase and lock, whatever the chip answers.
\<close>

section \<open>Shared by the programs\<close>

abbreviation (input) EBU_CLC :: u32 where "EBU_CLC \<equiv> 0xF0000000"

text \<open>\<^verbatim>\<open>memcpy\<close> out of the flash.\<close>

primrec copy_bytes :: "nat \<Rightarrow> 'h env \<Rightarrow> u32 \<Rightarrow> (('h, 'z) machine_scheme, u8 list) cmd" where
  "copy_bytes 0 E a = retM []"
| "copy_bytes (Suc n) E a = bindM (mmio_read W8 E a) (\<lambda>v. mapM ((#) (ucast v)) (copy_bytes n E (a + 1)))"

text \<open>The bytes of an array of 16-bit words.\<close>

definition word_bytes :: "u16 list \<Rightarrow> u8 list" where
  "word_bytes ws = concat (map (\<lambda>w. [ucast w, ucast (drop_bit 8 w)]) ws)"

text \<open>\<^verbatim>\<open>test_eq_memory\<close> with a pointer into the flash: every comparison reads a byte from the bus.\<close>

primrec flash_match :: "nat \<Rightarrow> 'h env \<Rightarrow> u8 list \<Rightarrow> u32 \<Rightarrow> nat \<Rightarrow> (('h, 'z) machine_scheme, nat) cmd" where
  "flash_match 0 E expected actual offset = retM offset"
| "flash_match (Suc n) E expected actual offset =
     (if offset < length expected then
        bindM (mmio_read W8 E (actual + of_nat offset)) (\<lambda>v.
        if expected ! offset = ucast v then flash_match n E expected actual (offset + 1) else retM offset)
      else failM Out_Of_Bounds)"

definition test_eq_flash :: "'h env \<Rightarrow> printer \<Rightarrow> string \<Rightarrow> u8 list \<Rightarrow> u32 \<Rightarrow> nat \<Rightarrow> (('h, 'z) tested_scheme, bool) cmd" where
  "test_eq_flash E T name expected actual sz =
     bindM (flash_match sz E expected actual 0) (\<lambda>offset.
     bindM (report E T name (offset = sz)) (\<lambda>passed.
     bindM (if passed then retM () else
        seqM [printf E (format T) ''# %soffset:   %u%s\<newline>'' [Str (COLOR_YELLOW T), Num (of_nat offset), Str (COLOR_RESET T)],
              printf E (format T) ''# %sexpected: %02X%s\<newline>'' [Str (COLOR_YELLOW T), Num (ucast (expected ! offset)), Str (COLOR_RESET T)],
              bindM (mmio_read W8 E (actual + of_nat offset)) (\<lambda>v.
              printf E (format T) ''# %sactual:   %02X%s\<newline>'' [Str (COLOR_RED T), Num v, Str (COLOR_RESET T)])]) (\<lambda>_.
     bindM (reset_timeout E) (\<lambda>_. retM passed))))"

text \<open>Calls whose result the code ignores.\<close>

definition check :: "'h env \<Rightarrow> printer \<Rightarrow> string \<Rightarrow> bool \<Rightarrow> (('h, 'z) tested_scheme, unit) cmd" where
  "check E T name b = mapM (\<lambda>_. ()) (test_check E T name b)"

definition eq_u32 :: "'h env \<Rightarrow> printer \<Rightarrow> string \<Rightarrow> u32 \<Rightarrow> u32 \<Rightarrow> (('h, 'z) tested_scheme, unit) cmd" where
  "eq_u32 E T name e a = mapM (\<lambda>_. ()) (test_eq_u32 E T name e a)"

definition eq_flash :: "'h env \<Rightarrow> printer \<Rightarrow> string \<Rightarrow> u8 list \<Rightarrow> u32 \<Rightarrow> nat \<Rightarrow> (('h, 'z) tested_scheme, unit) cmd" where
  "eq_flash E T name e a n = mapM (\<lambda>_. ()) (test_eq_flash E T name e a n)"

definition test_operation :: "'h env \<Rightarrow> printer \<Rightarrow> string \<Rightarrow> u16 \<Rightarrow> (('h, 'z) tested_scheme, unit) cmd" where
  "test_operation E T name status =
     bindM (test_check E T name (status AND STATUS_READY \<noteq> 0 \<and> status AND STATUS_ERRORS = 0)) (\<lambda>_.
     whenM (status AND STATUS_READY = 0 \<or> status AND STATUS_ERRORS \<noteq> 0)
       (printf E (format T) ''# status=%04X\<newline>'' [Num (ucast status)]))"

section \<open>The main array\<close>

abbreviation (input) SEARCH_ALIGNMENT :: u32 where "SEARCH_ALIGNMENT \<equiv> 0x100000"

primrec find_test_loop :: "'h env \<Rightarrow> printer \<Rightarrow> u32 list \<Rightarrow> flash_device \<Rightarrow> (('h, 'z) tested_scheme, bool \<times> flash_device) cmd" where
  "find_test_loop E T [] flash = bindM (cfi_disable_chip_selects E) (\<lambda>_. retM (False, flash))"
| "find_test_loop E T (cs # css) flash =
     bindM (printf E (format T) ''# probing CS%lu for a blank block\<newline>'' [Num cs]) (\<lambda>_.
     bindM (cfi_probe E cs flash) (\<lambda>(ok, flash). if \<not> ok then find_test_loop E T css flash else
     bindM (cfi_find_blank_block E flash SEARCH_ALIGNMENT) (\<lambda>(found, flash). if \<not> found then find_test_loop E T css flash else
     bindM (printf E (format T) ''# CS%lu %04lX:%04lX block=%08lX..%08lX buffer=%lu bytes\<newline>''
       [Num (flash_cs flash), Num (manufacturer flash), Num (device flash), Num (test_block flash),
        Num (test_block flash + test_block_size flash - 1), Num (write_buffer_size flash)]) (\<lambda>_.
     retM (True, flash)))))"

definition find_test_flash :: "'h env \<Rightarrow> printer \<Rightarrow> flash_device \<Rightarrow> (('h, 'z) tested_scheme, bool \<times> flash_device) cmd" where
  "find_test_flash E T flash = find_test_loop E T cfi_chip_selects flash"

definition clear_status :: "'h env \<Rightarrow> printer \<Rightarrow> u32 \<Rightarrow> (('h, 'z) tested_scheme, unit) cmd" where
  "clear_status E T address =
     bindM (cfi_clear_status E address) (\<lambda>status. eq_u32 E T ''status errors are cleared'' 0 (ucast (status AND STATUS_ERRORS)))"

definition test_locked_operation :: "'h env \<Rightarrow> printer \<Rightarrow> flash_device \<Rightarrow> bool \<Rightarrow> string \<Rightarrow> (('h, 'z) tested_scheme, unit) cmd" where
  "test_locked_operation E T flash erasing name =
     bindM (if erasing then cfi_erase_block E (test_block flash) False
            else cfi_program_word E flash (test_block flash) 0x5AA5 False) (\<lambda>status.
     bindM (check E T name (status AND 0x82 = 0x82)) (\<lambda>_.
     bindM (rd16 E (test_block flash)) (\<lambda>v.
     seqM [eq_u32 E T ''locked operation preserves data'' 0xFFFF (ucast v), clear_status E T (test_block flash)])))"

definition program_buffer :: "'h env \<Rightarrow> printer \<Rightarrow> flash_device \<Rightarrow> u32 \<Rightarrow> u16 list \<Rightarrow> u32 \<Rightarrow> (('h, 'z) tested_scheme, unit) cmd" where
  "program_buffer E T flash address data words =
     bindM (cfi_program_buffer E flash address data words) (\<lambda>(status, buffer_status).
     seqM [check E T ''write buffer is ready'' (buffer_status AND STATUS_READY \<noteq> 0),
           test_operation E T ''buffer program completes'' status])"

definition program_buffer_with_suspend ::
  "'h env \<Rightarrow> printer \<Rightarrow> flash_device \<Rightarrow> u32 \<Rightarrow> u16 list \<Rightarrow> u32 \<Rightarrow> u8 list \<Rightarrow> u32 \<Rightarrow> (('h, 'z) tested_scheme, u16) cmd" where
  "program_buffer_with_suspend E T flash address data words read_sample read_address =
     bindM (wr16 E address 0x50) (\<lambda>_.
     bindM (wr16 E address (if manufacturer flash = 0x0020 then 0xE9 else 0xE8)) (\<lambda>_.
     bindM (bindM (cfi_wait_ready E address) (\<lambda>buffer_status.
            check E T ''suspended write buffer is ready'' (buffer_status AND STATUS_READY \<noteq> 0))) (\<lambda>_.
     bindM (wr16 E address (ucast (words - 1))) (\<lambda>_.
     bindM (write_data (unat words) E address data) (\<lambda>_.
     bindM (wr16 E address 0xD0) (\<lambda>_.
     bindM (wr16 E address 0xB0) (\<lambda>_.
     bindM (wr16 E address 0x70) (\<lambda>_.
     bindM (cfi_wait_ready E address) (\<lambda>status.
     if status AND STATUS_PROGRAM_SUSPEND = 0 then
       bindM (test_skip E T ''buffer program enters suspend'' ''program completed before suspend'') (\<lambda>_.
       bindM (cfi_enter_read_array E address) (\<lambda>_. retM status))
     else
       bindM (check E T ''buffer program enters suspend'' (status AND STATUS_ERRORS = 0)) (\<lambda>_.
       bindM (cfi_enter_read_array E address) (\<lambda>_.
       bindM (eq_flash E T ''program suspend allows reading another block'' read_sample read_address 8) (\<lambda>_.
       bindM (wr16 E address 0xD0) (\<lambda>_.
       bindM (wr16 E address 0x70) (\<lambda>_.
       bindM (cfi_wait_ready E address) (\<lambda>status.
       bindM (eq_u32 E T ''program suspend clears after resume'' 0 (ucast (status AND STATUS_PROGRAM_SUSPEND))) (\<lambda>_.
       bindM (cfi_enter_read_array E address) (\<lambda>_. retM status)))))))))))))))))"

definition erase_with_suspend :: "'h env \<Rightarrow> printer \<Rightarrow> u32 \<Rightarrow> u8 list \<Rightarrow> u32 \<Rightarrow> (('h, 'z) tested_scheme, u16) cmd" where
  "erase_with_suspend E T address read_sample read_address =
     bindM (wr16 E address 0x50) (\<lambda>_.
     bindM (wr16 E address 0x20) (\<lambda>_.
     bindM (wr16 E address 0xD0) (\<lambda>_.
     bindM (wr16 E address 0xB0) (\<lambda>_.
     bindM (wr16 E address 0x70) (\<lambda>_.
     bindM (cfi_wait_ready E address) (\<lambda>status.
     if status AND STATUS_ERASE_SUSPEND = 0 then
       bindM (test_skip E T ''erase enters suspend'' ''erase completed before suspend'') (\<lambda>_.
       bindM (cfi_enter_read_array E address) (\<lambda>_. retM status))
     else
       bindM (check E T ''erase enters suspend'' (status AND STATUS_ERRORS = 0)) (\<lambda>_.
       bindM (cfi_enter_read_array E address) (\<lambda>_.
       bindM (eq_flash E T ''erase suspend allows reading another block'' read_sample read_address 8) (\<lambda>_.
       bindM (wr16 E address 0xD0) (\<lambda>_.
       bindM (wr16 E address 0x70) (\<lambda>_.
       bindM (cfi_wait_ready E address) (\<lambda>status.
       bindM (eq_u32 E T ''erase suspend clears after resume'' 0 (ucast (status AND STATUS_ERASE_SUSPEND))) (\<lambda>_.
       bindM (cfi_enter_read_array E address) (\<lambda>_. retM status))))))))))))))"

text \<open>
  The array \<^verbatim>\<open>buffer\<close> of 512 words, of which the first \<open>words\<close> are set: more are written outside of it, and the words
  behind them hold nothing that may be read.
\<close>

definition test_pattern :: "u32 \<Rightarrow> fault + u16 list" where
  "test_pattern words =
     (if unat words \<le> 512 then Inr (map (\<lambda>w. 0xA500 XOR of_nat w) [0..<unat words]) else Inl Out_Of_Bounds)"

text \<open>An operation followed by the check of its status, and the lock state of a block.\<close>

definition operate :: "'h env \<Rightarrow> printer \<Rightarrow> string \<Rightarrow> (('h, 'z) tested_scheme, u16) cmd \<Rightarrow> (('h, 'z) tested_scheme, unit) cmd" where
  "operate E T name c = bindM c (test_operation E T name)"

definition lock_state_is :: "'h env \<Rightarrow> printer \<Rightarrow> string \<Rightarrow> u32 \<Rightarrow> u32 \<Rightarrow> (('h, 'z) tested_scheme, unit) cmd" where
  "lock_state_is E T name e block =
     bindM (cfi_read_lock_status E block) (\<lambda>v. eq_u32 E T name e (ucast (v AND 0x3)))"

definition blank_check_erased :: "'h env \<Rightarrow> printer \<Rightarrow> string \<Rightarrow> flash_device \<Rightarrow> (('h, 'z) tested_scheme, unit) cmd" where
  "blank_check_erased E T name flash =
     whenM (manufacturer flash = 0x0020)
       (bindM (cfi_blank_check E (test_block flash)) (\<lambda>blank_status. check E T name (blank_status AND 0xA0 = STATUS_READY)))"

definition program_phase :: "'h env \<Rightarrow> printer \<Rightarrow> flash_device \<Rightarrow> u16 list \<Rightarrow> u8 list \<Rightarrow> (('h, 'z) tested_scheme, unit) cmd" where
  "program_phase E T flash buffer previous_block =
     (let block = test_block flash; wbs = write_buffer_size flash; words = wbs div 2;
          short_buffer = block + wbs; odd_buffer = block + wbs * 2;
          full_buffer = block + test_block_size flash - wbs in
      seqM [operate E T ''single-word program completes'' (cfi_program_word E flash block 0x5AA5 False),
            bindM (rd16 E block) (\<lambda>v. eq_u32 E T ''single word reads back'' 0x5AA5 (ucast v)),
            program_buffer E T flash short_buffer buffer 1,
            eq_flash E T ''one-word buffer reads back'' (word_bytes buffer) short_buffer 2,
            program_buffer E T flash odd_buffer buffer 7,
            eq_flash E T ''seven-word buffer reads back'' (word_bytes buffer) odd_buffer 14,
            if bit (features flash) 2 then
              bindM (program_buffer_with_suspend E T flash full_buffer buffer words previous_block (block - 8))
                (test_operation E T ''resumed buffer program completes'')
            else
              seqM [test_skip E T ''buffer program suspend'' ''not supported'',
                    program_buffer E T flash full_buffer buffer words],
            eq_flash E T ''full buffer reads back'' (word_bytes buffer) full_buffer (unat wbs),
            whenM (manufacturer flash = 0x0020)
              (bindM (cfi_blank_check E block) (\<lambda>v. check E T ''blank check reports programmed block'' (bit v 5)))])"

definition cleanup_phase :: "'h env \<Rightarrow> printer \<Rightarrow> flash_device \<Rightarrow> u8 list \<Rightarrow> u8 list \<Rightarrow> (('h, 'z) tested_scheme, unit) cmd" where
  "cleanup_phase E T flash previous_block next_block =
     (let block = test_block flash in
      seqM [operate E T ''block lock completes'' (cfi_lock_block E block False),
            lock_state_is E T ''test block is locked again'' 1 block,
            operate E T ''block unlock completes'' (cfi_unlock_block E block False),
            bindM (if bit (features flash) 1 then erase_with_suspend E T block previous_block (block - 8)
                   else bindM (test_skip E T ''erase suspend'' ''not supported'') (\<lambda>_. cfi_erase_block E block False))
              (test_operation E T ''cleanup erase completes''),
            test_watchdog_reset E,
            bindM (cfi_range_is_blank E block (test_block_size flash)) (check E T ''cleanup erased the complete block''),
            blank_check_erased E T ''blank check accepts cleaned block'' flash,
            eq_flash E T ''previous block is unchanged'' previous_block (block - 8) 8,
            eq_flash E T ''next block is unchanged'' next_block (block + test_block_size flash) 8])"

definition lock_phase :: "'h env \<Rightarrow> printer \<Rightarrow> flash_device \<Rightarrow> (('h, 'z) tested_scheme, unit) cmd" where
  "lock_phase E T flash =
     (let block = test_block flash in
      bindM (seqM [operate E T ''block lock completes'' (cfi_lock_block E block False),
                   lock_state_is E T ''clean block is locked'' 1 block,
                   operate E T ''block lock-down completes'' (cfi_lock_down_block E block False),
                   lock_state_is E T ''clean block is locked-down'' 3 block,
                   operate E T ''locked-down block unlock completes'' (cfi_unlock_block E block False)]) (\<lambda>_.
      bindM (mapM (\<lambda>v. ucast (v AND 0x3) :: u32) (cfi_read_lock_status E block)) (\<lambda>unlocked_state.
      seqM [check E T ''locked-down block unlock state is valid'' (unlocked_state = 0 \<or> unlocked_state = 2),
            operate E T ''block final lock completes'' (cfi_lock_block E block False),
            lock_state_is E T ''clean block final lock state'' (if unlocked_state = 0 then 1 else 3) block])))"

definition test_program_and_cleanup :: "'h env \<Rightarrow> printer \<Rightarrow> flash_device \<Rightarrow> (('h, 'z) tested_scheme, unit) cmd" where
  "test_program_and_cleanup E T flash =
     (let block = test_block flash in
      bindM (liftE (test_pattern (write_buffer_size flash div 2))) (\<lambda>buffer.
      bindM (copy_bytes 8 E (block - 8)) (\<lambda>previous_block.
      bindM (copy_bytes 8 E (block + test_block_size flash)) (\<lambda>next_block.
      seqM [lock_state_is E T ''test block starts locked'' 1 block,
            test_locked_operation E T flash False ''locked word program is rejected'',
            test_locked_operation E T flash True ''locked erase is rejected'',
            blank_check_erased E T ''blank check reports erased block'' flash,
            operate E T ''block unlock completes'' (cfi_unlock_block E block False),
            lock_state_is E T ''test block is unlocked'' 0 block,
            program_phase E T flash buffer previous_block,
            cleanup_phase E T flash previous_block next_block,
            lock_phase E T flash]))))"

definition rw_main :: "'h env \<Rightarrow> printer \<Rightarrow> (('h, 'z) tested_scheme, u32) cmd" where
  "rw_main E T =
     bindM (test_start E T ''Intel/ST CFI flash read/write test'') (\<lambda>_.
     bindM (wr E EBU_CLC (push_bit MOD_CLC_RMC_SHIFT 1)) (\<lambda>_.
     bindM (test_category E T ''Discovery'') (\<lambda>_.
     bindM (find_test_flash E T no_flash) (\<lambda>(found, flash).
     bindM (check E T ''blank erase block is found'' found) (\<lambda>_.
     if \<not> found then test_finish E T else
     bindM (test_category E T ''Program and cleanup'') (\<lambda>_.
     bindM (test_program_and_cleanup E T flash) (\<lambda>_.
     test_finish E T)))))))"

section \<open>The extended array\<close>

primrec find_efa_flash_loop :: "'h env \<Rightarrow> printer \<Rightarrow> u32 list \<Rightarrow> flash_device \<Rightarrow> (('h, 'z) tested_scheme, bool \<times> flash_device) cmd" where
  "find_efa_flash_loop E T [] flash = bindM (cfi_disable_chip_selects E) (\<lambda>_. retM (False, flash))"
| "find_efa_flash_loop E T (cs # css) flash =
     bindM (printf E (format T) ''# probing CS%lu for EFA\<newline>'' [Num cs]) (\<lambda>_.
     bindM (cfi_probe E cs flash) (\<lambda>(ok, flash). if \<not> ok then find_efa_flash_loop E T css flash else
     let valid_efa = (bit (features flash) 10 \<and> efa_blocks flash > 0 \<and> efa_block_size flash > 0) in
     if \<not> valid_efa then find_efa_flash_loop E T css flash else
     bindM (printf E (format T) ''# CS%lu %04lX:%04lX EFA=%lu blocks x %lu KiB\<newline>''
       [Num (flash_cs flash), Num (manufacturer flash), Num (device flash), Num (efa_blocks flash),
        Num (drop_bit 10 (efa_block_size flash))]) (\<lambda>_.
     retM (True, flash))))"

definition find_efa_flash :: "'h env \<Rightarrow> printer \<Rightarrow> flash_device \<Rightarrow> (('h, 'z) tested_scheme, bool \<times> flash_device) cmd" where
  "find_efa_flash E T flash = find_efa_flash_loop E T cfi_chip_selects flash"

definition efa_lock_state_is :: "'h env \<Rightarrow> printer \<Rightarrow> string \<Rightarrow> u32 \<Rightarrow> u32 \<Rightarrow> (('h, 'z) tested_scheme, unit) cmd" where
  "efa_lock_state_is E T name e address = bindM (cfi_read_efa_lock_status E address) (eq_u32 E T name e)"

definition test_efa_program_and_cleanup :: "'h env \<Rightarrow> printer \<Rightarrow> flash_device \<Rightarrow> u32 \<Rightarrow> (('h, 'z) tested_scheme, unit) cmd" where
  "test_efa_program_and_cleanup E T flash address =
     bindM (copy_bytes 8 E (flash_base flash)) (\<lambda>main_array.
     bindM (seqM
       [efa_lock_state_is E T ''EFA block starts locked'' 1 address,
        operate E T ''EFA block unlock completes'' (cfi_unlock_block E address True),
        efa_lock_state_is E T ''EFA block is unlocked'' 0 address,
        operate E T ''EFA word program completes'' (cfi_program_word E flash address 0xA55A True),
        bindM (cfi_read_efa_word E address) (\<lambda>v. eq_u32 E T ''EFA word reads back'' 0xA55A (ucast v)),
        eq_flash E T ''main array is unchanged'' main_array (flash_base flash) 8,
        operate E T ''EFA block lock completes'' (cfi_lock_block E address True),
        efa_lock_state_is E T ''EFA block is locked again'' 1 address,
        operate E T ''EFA block unlock completes'' (cfi_unlock_block E address True),
        operate E T ''EFA cleanup erase completes'' (cfi_erase_block E address True),
        test_watchdog_reset E,
        bindM (cfi_efa_range_is_blank E address (efa_block_size flash)) (check E T ''EFA cleanup erased the complete block''),
        operate E T ''EFA block lock completes'' (cfi_lock_block E address True),
        efa_lock_state_is E T ''clean EFA block is locked'' 1 address,
        eq_flash E T ''cleanup preserves main array'' main_array (flash_base flash) 8,
        operate E T ''EFA block lock-down completes'' (cfi_lock_down_block E address True),
        efa_lock_state_is E T ''clean EFA block is locked-down'' 3 address,
        operate E T ''locked-down EFA block unlock completes'' (cfi_unlock_block E address True)]) (\<lambda>_.
     bindM (cfi_read_efa_lock_status E address) (\<lambda>unlocked_state.
     seqM
       [check E T ''locked-down EFA block unlock state is valid'' (unlocked_state = 0 \<or> unlocked_state = 2),
        operate E T ''EFA block final lock completes'' (cfi_lock_block E address True),
        efa_lock_state_is E T ''clean EFA block final lock state'' (if unlocked_state = 0 then 1 else 3) address])))"

definition efa_main :: "'h env \<Rightarrow> printer \<Rightarrow> (('h, 'z) tested_scheme, u32) cmd" where
  "efa_main E T =
     bindM (test_start E T ''Intel/ST CFI EFA read/write test'') (\<lambda>_.
     bindM (wr E EBU_CLC (push_bit MOD_CLC_RMC_SHIFT 1)) (\<lambda>_.
     bindM (test_category E T ''Discovery'') (\<lambda>_.
     bindM (find_efa_flash E T no_flash) (\<lambda>(found, flash).
     if \<not> found then
       bindM (test_skip E T ''EFA flash is found'' ''no flash with EFA support'') (\<lambda>_. test_finish E T)
     else
       bindM (check E T ''EFA flash is found'' True) (\<lambda>_.
       bindM (cfi_find_blank_efa_block E flash) (\<lambda>blank. case blank of
         None \<Rightarrow> bindM (test_skip E T ''blank EFA block is found'' ''all EFA blocks contain data'') (\<lambda>_. test_finish E T)
       | Some address \<Rightarrow>
           bindM (check E T ''blank EFA block is found'' True) (\<lambda>_.
           bindM (printf E (format T) ''# selected EFA block: %08lX..%08lX\<newline>''
             [Num address, Num (address + efa_block_size flash - 1)]) (\<lambda>_.
           bindM (test_category E T ''Program and cleanup'') (\<lambda>_.
           bindM (test_efa_program_and_cleanup E T flash address) (\<lambda>_.
           test_finish E T))))))))))"

section \<open>The one-time programmable cells\<close>

definition test_imei :: "u16 list" where
  "test_imei = [0x9400, 0x1099, 0x0460, 0xFF00]"

primrec find_flash_loop_otp :: "'h env \<Rightarrow> printer \<Rightarrow> u32 list \<Rightarrow> flash_device \<Rightarrow> (('h, 'z) tested_scheme, bool \<times> flash_device) cmd" where
  "find_flash_loop_otp E T [] flash = retM (False, flash)"
| "find_flash_loop_otp E T (cs # css) flash =
     bindM (cfi_probe E cs flash) (\<lambda>(ok, flash). if \<not> ok then find_flash_loop_otp E T css flash else
     bindM (printf E (format T) ''# CS%lu %04lX:%04lX\<newline>'' [Num (flash_cs flash), Num (manufacturer flash), Num (device flash)]) (\<lambda>_.
     retM (True, flash)))"

definition find_flash :: "'h env \<Rightarrow> printer \<Rightarrow> flash_device \<Rightarrow> (('h, 'z) tested_scheme, bool \<times> flash_device) cmd" where
  "find_flash E T flash = find_flash_loop_otp E T cfi_chip_selects flash"

primrec program_imei :: "'h env \<Rightarrow> printer \<Rightarrow> u32 \<Rightarrow> u16 list \<Rightarrow> (('h, 'z) tested_scheme, unit) cmd" where
  "program_imei E T word_address [] = retM ()"
| "program_imei E T word_address (w # ws) =
     bindM (operate E T ''IMEI OTP word program completes'' (cfi_program_otp_word E word_address w)) (\<lambda>_.
     program_imei E T (word_address + 2) ws)"

definition program_otp :: "'h env \<Rightarrow> printer \<Rightarrow> flash_device \<Rightarrow> (('h, 'z) tested_scheme, bool) cmd" where
  "program_otp E T flash =
     (let base = flash_base flash; address = base + 0x8A * 2 in
      bindM (cfi_enter_id E base) (\<lambda>_.
      bindM (cfi_read_word E base 0x89) (\<lambda>lck.
      bindM (read_words 4 E (base + 0x81 * 2)) (\<lambda>esn.
      bindM (cfi_enter_read_array E base) (\<lambda>_.
      if \<not> bit lck 0 then
        bindM (test_skip E T ''IMEI OTP program'' ''OTP region is frozen'') (\<lambda>_. retM False)
      else
        bindM (seqM [program_imei E T address test_imei,
                     cfi_enter_id E base,
                     eq_flash E T ''IMEI OTP reads back'' (word_bytes test_imei) address 8,
                     eq_flash E T ''factory ESN is unchanged'' (word_bytes esn) (base + 0x81 * 2) 8,
                     cfi_enter_read_array E base,
                     printf E (format T) ''# programmed IMEI: 004999010640000\<newline>'' []]) (\<lambda>_. retM True))))))"

definition freeze_otp :: "'h env \<Rightarrow> printer \<Rightarrow> flash_device \<Rightarrow> (('h, 'z) tested_scheme, unit) cmd" where
  "freeze_otp E T flash =
     (let base = flash_base flash; lock_address = base + 0x89 * 2; imei_address = base + 0x8A * 2 in
      bindM (cfi_enter_id E base) (\<lambda>_.
      bindM (rd16 E lock_address) (\<lambda>lck.
      bindM (cfi_enter_read_array E base) (\<lambda>_.
      if \<not> bit lck 0 then test_skip E T ''IMEI OTP freeze'' ''OTP region is already frozen'' else
      bindM (seqM [operate E T ''IMEI OTP freeze completes'' (cfi_program_otp_word E lock_address (lck AND NOT 1)),
                   cfi_enter_id E base,
                   bindM (rd16 E lock_address) (\<lambda>v. eq_u32 E T ''IMEI OTP is frozen'' 0 (ucast (v AND 1))),
                   eq_flash E T ''freeze preserves IMEI'' (word_bytes test_imei) imei_address 8,
                   cfi_enter_read_array E base]) (\<lambda>_.
      bindM (cfi_program_otp_word E imei_address (test_imei ! 0 AND 0x0F0F)) (\<lambda>status.
      seqM [check E T ''frozen OTP rejects programming'' (status AND STATUS_READY \<noteq> 0 \<and> status AND STATUS_ERRORS \<noteq> 0),
            cfi_enter_id E base,
            eq_flash E T ''rejected program preserves IMEI'' (word_bytes test_imei) imei_address 8,
            cfi_enter_read_array E base,
            mapM (\<lambda>_. ()) (cfi_clear_status E imei_address)]))))))"

text \<open>The part of \<^verbatim>\<open>main\<close> that cannot be undone.\<close>

definition otp_phase :: "'h env \<Rightarrow> printer \<Rightarrow> flash_device \<Rightarrow> (('h, 'z) tested_scheme, unit) cmd" where
  "otp_phase E T flash =
     bindM (program_otp E T flash) (\<lambda>programmed.
     whenM programmed (seqM [test_category E T ''Irreversible OTP freeze'', freeze_otp E T flash]))"

definition otp_main :: "'h env \<Rightarrow> printer \<Rightarrow> (('h, 'z) tested_scheme, u32) cmd" where
  "otp_main E T =
     bindM (test_start E T ''Intel/ST CFI OTP read/write test'') (\<lambda>_.
     bindM (printf E (format T) ''# WARNING: THIS TEST IRREVERSIBLY PROGRAMS AND FREEZES OTP\<newline>'' []) (\<lambda>_.
     bindM (wr E EBU_CLC (push_bit MOD_CLC_RMC_SHIFT 1)) (\<lambda>_.
     bindM (test_category E T ''Discovery'') (\<lambda>_.
     bindM (find_flash E T no_flash) (\<lambda>(found, flash).
     bindM (check E T ''CFI flash is found'' found) (\<lambda>_.
     if \<not> found then test_finish E T else
     bindM (test_category E T ''Irreversible OTP program'') (\<lambda>_.
     bindM (otp_phase E T flash) (\<lambda>_.
     test_finish E T))))))))"

section \<open>What the programs may touch\<close>

text \<open>
  \<open>allowed p c\<close>: all operations that \<open>c\<close> issues satisfy \<open>p\<close>.
\<close>

abbreviation allowed :: "(flash_op \<Rightarrow> bool) \<Rightarrow> (('h, 'z) machine_scheme, 'a) cmd \<Rightarrow> bool" where
  "allowed p c \<equiv> issues c (\<lambda>_ ops. list_all p ops)"

lemma allowed_bind: "allowed p c \<Longrightarrow> (\<And>x. allowed p (f x)) \<Longrightarrow> allowed p (bindM c f)"
  by (erule issues_bind) (auto elim: issues_mono)

lemma allowed_bystander: "bystander c \<Longrightarrow> allowed p c"
  by (erule issues_bystander) simp

lemma allowed_seq: "allowed p (seqM [])" "allowed p c \<Longrightarrow> allowed p (seqM cs) \<Longrightarrow> allowed p (seqM (c # cs))"
  by (auto intro: allowed_bind issues_ret)

lemma allowed_if: "(b \<Longrightarrow> allowed p c) \<Longrightarrow> (\<not> b \<Longrightarrow> allowed p d) \<Longrightarrow> allowed p (if b then c else d)"
  by simp

lemma allowed_when: "(b \<Longrightarrow> allowed p c) \<Longrightarrow> allowed p (whenM b c)"
  by (simp add: whenM_def issues_ret)

lemma allowed_map: "allowed p c \<Longrightarrow> allowed p (mapM f c)"
  unfolding mapM_def by (erule allowed_bind) (simp add: issues_ret)

lemma allowed_ret: "allowed p (retM x)"
  by (simp add: issues_ret)

lemma allowed_prod: "(\<And>x y. allowed p (f x y)) \<Longrightarrow> allowed p (case z of (x, y) \<Rightarrow> f x y)"
  by (cases z) simp

lemma allowed_tells: "tells c ops \<Longrightarrow> list_all p ops \<Longrightarrow> allowed p c"
  by (erule issues_mono) simp

text \<open>The test framework and the reads do not write to the flash.\<close>

lemma bystander_usart_write: "bystander (usart_write E USART0 bs :: (('h, 'z) machine_scheme, unit) cmd)"
proof (induction "length bs" arbitrary: bs rule: less_induct)
  case less
  have "bystander (usart_write E USART0 (drop USART_FIFO_SIZE bs) :: (('h, 'z) machine_scheme, unit) cmd)" if "bs \<noteq> []"
    using that by (intro less) simp
  then show ?case
    by (subst usart_write.simps)
       (auto simp: usart_wait_tx_def usart_get_tx_fifo_level_def field_def in_window_def intro!: bystander_intros)
qed

lemma bystander_printf: "bystander (printf E F f args)"
  unfolding printf_def putchar_def usart_putc_def by (intro bystander_for bystander_usart_write)

lemma bystander_report: "bystander (report E T name b)"
  unfolding report_def by (intro bystander_intros bystander_printf) simp_all

lemma bystander_tests:
  "bystander (check E T name b)" "bystander (eq_u32 E T name e a)" "bystander (test_skip E T name reason)"
  "bystander (test_category E T name)" "bystander (test_operation E T name v)" "bystander (test_watchdog_reset E)"
  unfolding check_def eq_u32_def test_check_def test_eq_u32_def test_skip_def test_category_def test_operation_def test_watchdog_reset_def
  by (intro bystander_intros bystander_report bystander_printf bystander_reset; simp)+

lemma bystander_eq_flash: "bystander (eq_flash E T name e a n)"
proof -
  have "bystander (flash_match n E e a k)" for n k
    by (induction n arbitrary: k) (auto intro!: bystander_intros)
  then show ?thesis
    unfolding eq_flash_def test_eq_flash_def
    by (intro bystander_intros bystander_report bystander_printf bystander_reset)
qed

lemma bystander_copy: "bystander (copy_bytes n E a)" "bystander (read_words n E a)"
  by (induction n arbitrary: a) (auto intro!: bystander_intros bystander_rd16)

lemma bystander_blank: "bystander (cfi_range_is_blank E a sz)"
proof -
  have "bystander (blank_loop n E a sz k)" for n k
    by (induction n arbitrary: k) (auto simp: test_watchdog_serve_def intro!: bystander_intros bystander_serve)
  then show ?thesis unfolding cfi_range_is_blank_def .
qed

lemmas allowed_quiet = bystander_tests [THEN allowed_bystander] bystander_eq_flash [THEN allowed_bystander]
  bystander_copy [THEN allowed_bystander] bystander_blank [THEN allowed_bystander] bystander_printf [THEN allowed_bystander]
  bystander_rd16 [THEN allowed_bystander] bystander_simple [THEN allowed_bystander]

lemmas allowed_intros = allowed_bind allowed_seq allowed_if allowed_when allowed_map allowed_ret allowed_prod allowed_quiet

text \<open>Operations inside the block of \<open>sz\<close> bytes at \<open>lo\<close>, of the main or of the extended array.\<close>

definition inside_block :: "u32 \<Rightarrow> nat \<Rightarrow> u32 \<Rightarrow> bool" where
  "inside_block lo sz a \<longleftrightarrow> unat lo \<le> unat a \<and> unat a + 2 \<le> unat lo + sz"

definition confined_to :: "bool \<Rightarrow> u32 \<Rightarrow> nat \<Rightarrow> flash_op \<Rightarrow> bool" where
  "confined_to efa lo sz op = (case op of
     Program e a v \<Rightarrow> e = efa \<and> inside_block lo sz a
   | Program_Buffer ws \<Rightarrow> \<not> efa \<and> list_all (\<lambda>(a, v). inside_block lo sz a) ws
   | Erase e a \<Rightarrow> e = efa \<and> a = lo
   | Lock e a \<Rightarrow> e = efa \<and> a = lo
   | Unlock e a \<Rightarrow> e = efa \<and> a = lo
   | Lock_Down e a \<Rightarrow> e = efa \<and> a = lo
   | Program_Otp a v \<Rightarrow> False
   | Configure e a \<Rightarrow> False
   | _ \<Rightarrow> True)"

lemma buffer_inside:
  assumes "unat lo \<le> unat a" "unat a + 2 * n \<le> unat lo + sz" "unat lo + sz \<le> 2 ^ 32"
  shows "list_all (\<lambda>(x, v). inside_block lo sz x) (buffer_words a ds n)"
proof -
  have "unat (a + of_nat i * 2) = unat a + 2 * i" if "i < n" for i
  proof -
    have "unat (of_nat i * 2 :: u32) = 2 * i"
      using that assms(2,3) unat_of_nat_u32 [of "2 * i"] by (simp add: mult.commute)
    then show ?thesis using that assms(2,3) unat_sum [of a "of_nat i * 2"] by simp
  qed
  then show ?thesis
    using assms(1,2) by (auto simp: list_all_iff buffer_words_def inside_block_def)
qed

lemma allowed_block_operations:
  assumes "2 \<le> sz"
  shows "allowed (confined_to efa a sz) (cfi_unlock_block E a efa)" "allowed (confined_to efa a sz) (cfi_lock_block E a efa)"
    "allowed (confined_to efa a sz) (cfi_lock_down_block E a efa)" "allowed (confined_to efa a sz) (cfi_erase_block E a efa)"
    "allowed (confined_to efa a sz) (cfi_program_word E flash a v efa)"
  using assms by (auto intro!: allowed_tells [OF tells_block_operations(1)] allowed_tells [OF tells_block_operations(2)]
      allowed_tells [OF tells_block_operations(3)] allowed_tells [OF tells_block_operations(4)]
      allowed_tells [OF tells_block_operations(5)] simp: confined_to_def inside_block_def)

lemma allowed_modes:
  "allowed (confined_to efa lo sz) (cfi_read_lock_status E a)" "allowed (confined_to efa lo sz) (cfi_clear_status E a)"
  "allowed (confined_to efa lo sz) (cfi_blank_check E a)" "allowed (confined_to efa lo sz) (cfi_enter_read_array E a)"
  by (auto intro!: allowed_tells [OF tells_lock_status] allowed_tells [OF tells_clear_status] allowed_tells [OF tells_blank_check]
      allowed_tells [OF tells_modes(1)] simp: confined_to_def)

text \<open>The block of a chip with room for three buffers.\<close>

definition roomy :: "flash_device \<Rightarrow> bool" where
  "roomy flash \<longleftrightarrow> unat (test_block flash) + unat (test_block_size flash) \<le> 2 ^ 32 \<and>
     2 * unat (write_buffer_size flash) + 14 \<le> unat (test_block_size flash) \<and>
     2 \<le> unat (write_buffer_size flash) \<and> unat (write_buffer_size flash) \<le> 1024"

abbreviation in_test_block :: "flash_device \<Rightarrow> flash_op \<Rightarrow> bool" where
  "in_test_block flash \<equiv> confined_to False (test_block flash) (unat (test_block_size flash))"

lemma roomy_2: "roomy flash \<Longrightarrow> 2 \<le> unat (test_block_size flash)"
  by (simp add: roomy_def)

definition buffer_fits :: "flash_device \<Rightarrow> u32 \<Rightarrow> u32 \<Rightarrow> bool" where
  "buffer_fits flash a n \<longleftrightarrow> roomy flash \<and> 0 < n \<and> unat n \<le> 512 \<and> unat (test_block flash) \<le> unat a \<and>
     unat a + 2 * unat n \<le> unat (test_block flash) + unat (test_block_size flash)"

lemma buffer_fits_inside:
  "buffer_fits flash a n \<Longrightarrow> in_test_block flash (Program_Buffer (buffer_words a ds (unat n)))"
  by (simp add: confined_to_def buffer_fits_def roomy_def buffer_inside)

lemma buffers_fit:
  assumes "roomy flash"
  shows "buffer_fits flash (test_block flash + write_buffer_size flash) 1"
    and "buffer_fits flash (test_block flash + write_buffer_size flash * 2) 7"
    and "buffer_fits flash (test_block flash + test_block_size flash - write_buffer_size flash) (write_buffer_size flash div 2)"
proof -
  let ?b = "test_block flash" and ?w = "write_buffer_size flash" and ?z = "test_block_size flash"
  note r = assms [unfolded roomy_def]
  have w2: "unat (?w * 2) = 2 * unat ?w" using r by (simp add: unat_word_ariths)
  have full: "unat (?b + ?z - ?w) = unat ?b + unat ?z - unat ?w"
  proof -
    have "unat (?z - ?w) = unat ?z - unat ?w" using r by (intro unat_sub) (simp add: word_le_nat_alt)
    then show ?thesis using r unat_sum [of ?b "?z - ?w"] by (auto simp: add_diff_eq)
  qed
  have half: "unat (?w div 2) = unat ?w div 2" by (simp add: unat_div)
  then have pos: "0 < ?w div 2" using r by (simp add: word_less_nat_alt)
  show "buffer_fits flash (?b + ?w) 1" "buffer_fits flash (?b + ?w * 2) 7"
    using r assms w2 unat_sum [of ?b ?w] unat_sum [of ?b "?w * 2"] by (simp_all add: buffer_fits_def)
  show "buffer_fits flash (?b + ?z - ?w) (?w div 2)"
    unfolding buffer_fits_def full half using r assms pos by auto
qed

lemma allowed_program_buffer:
  assumes "buffer_fits flash a n"
  shows "allowed (in_test_block flash) (program_buffer E T flash' a ds n)"
proof -
  have n: "0 < n" "unat n \<le> 0x10000" using assms by (auto simp: buffer_fits_def)
  have "allowed (in_test_block flash) (cfi_program_buffer E flash' a ds n)"
    by (rule allowed_tells [OF tells_program_buffer [OF n]]) (use buffer_fits_inside [OF assms] in \<open>simp add: confined_to_def\<close>)
  then show ?thesis unfolding program_buffer_def by (intro allowed_intros)
qed

lemma allowed_one: "one_cycle a (ucast v) = Some op \<Longrightarrow> p op \<Longrightarrow> allowed p (f ()) \<Longrightarrow> allowed p (bindM (wr16 E a v) f)"
  by (erule issues_one) simp

lemma one_cycles: "one_cycle a 0x50 = Some (Clear_Status a)" "one_cycle a 0xD0 = Some (Resume a)" "one_cycle a 0xB0 = Some (Suspend a)"
  "one_cycle a 0x70 = Some (Read_Status a)"
  by (simp_all add: one_cycle_def)

lemma modes_confined: "confined_to efa lo sz (Clear_Status a)" "confined_to efa lo sz (Resume a)" "confined_to efa lo sz (Suspend a)"
  "confined_to efa lo sz (Read_Status a)"
  by (simp_all add: confined_to_def)

lemma allowed_suspended_buffer:
  assumes "buffer_fits flash a n"
  shows "allowed (in_test_block flash) (program_buffer_with_suspend E T flash' a ds n sample b)"
proof -
  have n: "0 < n" "unat n \<le> 0x10000" using assms by (auto simp: buffer_fits_def)
  have wait: "bystander (bindM (cfi_wait_ready E a) (\<lambda>v. check E T ''suspended write buffer is ready'' (v AND STATUS_READY \<noteq> 0)))"
    by (intro bystander_bind bystander_ready bystander_tests)
  have rest: "issues c (\<lambda>x ops. list_all (in_test_block flash)
      (Program_Buffer (map (\<lambda>i. (a + of_nat i * 2, ucast (ds ! i))) [0..<unat n]) # ops))"
    if "allowed (in_test_block flash) c" for c :: "(('h, 'z) tested_scheme, u16) cmd"
    using that buffer_fits_inside [OF assms, of ds] by (simp add: buffer_words_def)
  show ?thesis
    unfolding program_buffer_with_suspend_def
    by (rule allowed_one [of a _ "Clear_Status a"], simp add: one_cycles, simp add: modes_confined,
        rule issues_buffer [OF _ wait n], simp, rule rest,
        (rule allowed_one [of a _ "Suspend a"] allowed_one [of a _ "Read_Status a"], simp add: one_cycles, simp add: modes_confined)+,
        intro allowed_intros allowed_modes bystander_ready [THEN allowed_bystander]
          allowed_one [of a _ "Resume a"] allowed_one [of a _ "Read_Status a"])
       (simp_all add: one_cycles modes_confined)
qed

lemma allowed_suspended_erase:
  assumes "2 \<le> unat (test_block_size flash)"
  shows "allowed (in_test_block flash) (erase_with_suspend E T (test_block flash) sample b)"
proof -
  let ?a = "test_block flash"
  show ?thesis
    unfolding erase_with_suspend_def
    by (rule allowed_one [of ?a _ "Clear_Status ?a"], simp add: one_cycles, simp add: modes_confined,
        rule issues_two [where op = "Erase False ?a"], simp add: two_cycle_def,
        rule issues_mono [where P = "\<lambda>_ ops. list_all (in_test_block flash) ops"],
        (rule allowed_one [of ?a _ "Suspend ?a"] allowed_one [of ?a _ "Read_Status ?a"], simp add: one_cycles, simp add: modes_confined)+,
        intro allowed_intros allowed_modes bystander_ready [THEN allowed_bystander]
          allowed_one [of ?a _ "Resume ?a"] allowed_one [of ?a _ "Read_Status ?a"])
       (simp_all add: one_cycles modes_confined, simp add: confined_to_def)
qed

lemma allowed_operate: "allowed p c \<Longrightarrow> allowed p (operate E T name c)"
  unfolding operate_def by (intro allowed_intros)

lemma allowed_lock_state: "allowed (confined_to efa lo sz) (lock_state_is E T name e a)"
  unfolding lock_state_is_def by (intro allowed_intros allowed_modes)

lemma allowed_blank_check: "allowed (confined_to efa lo sz) (blank_check_erased E T name flash)"
  unfolding blank_check_erased_def by (intro allowed_intros allowed_modes)

lemma allowed_locked_operation:
  assumes "roomy flash"
  shows "allowed (in_test_block flash) (test_locked_operation E T flash erasing name)"
  unfolding test_locked_operation_def clear_status_def
  by (intro allowed_intros allowed_modes allowed_block_operations roomy_2 assms)

lemma allowed_phases:
  assumes "roomy flash"
  shows "allowed (in_test_block flash) (program_phase E T flash ds sample)"
    "allowed (in_test_block flash) (cleanup_phase E T flash sample sample')"
    "allowed (in_test_block flash) (lock_phase E T flash)"
  unfolding program_phase_def cleanup_phase_def lock_phase_def Let_def
  by (intro allowed_intros allowed_operate allowed_modes allowed_lock_state allowed_blank_check allowed_block_operations
      allowed_program_buffer allowed_suspended_buffer allowed_suspended_erase buffers_fit roomy_2 assms)+

lemma allowed_program_and_cleanup:
  "roomy flash \<Longrightarrow> allowed (in_test_block flash) (test_program_and_cleanup E T flash)"
  unfolding test_program_and_cleanup_def Let_def
  by (intro allowed_intros allowed_operate allowed_lock_state allowed_blank_check allowed_block_operations
      allowed_locked_operation allowed_phases roomy_2)

text \<open>
  C13. The write test of the main array touches nothing but the block it was given: whatever the chip answers, every word it
  programs, alone or in a buffer, lies in that block, and the block is the only one that it erases, locks, unlocks or locks
  down; it never writes to the extended array, the one-time programmable cells or the configuration. The block must
  be large enough for the three buffers that the test writes, and the buffer not larger than 1024 bytes, which is what the
  probe accepts.
\<close>

theorem rw_test_confined:
  assumes "roomy flash" "test_program_and_cleanup E T flash s = Inr ((), t)"
  shows "\<exists>tr ops. trace t = trace s @ tr \<and> decodes (commands tr) ops \<and>
    list_all (confined_to False (test_block flash) (unat (test_block_size flash))) ops"
  using logs_inD [OF allowed_program_and_cleanup [OF assms(1), unfolded issues_def] assms(2)] by blast

text \<open>A chip that is ready at once and answers every read with its status.\<close>

definition ready_chip :: "unit env" where
  "ready_chip = \<lparr>dev_read = (\<lambda>w a h. (if a = USART_FSTAT USART0 then 0 else if in_window a then 0x80 else 0x100, h)),
     dev_write = (\<lambda>w a v h. h), fuel = 1, cpu = PMB8876, pm_wadog = False, pmic = PMIC_none\<rparr>"

definition rw_flash :: flash_device where
  "rw_flash = small_flash\<lparr>test_block := 0xA0000100, test_block_size := 0x100, write_buffer_size := 16\<rparr>"

text \<open>
  \<open>runs c Q\<close>: with the watchdog off, \<open>c\<close> returns a value that satisfies \<open>Q\<close>. The programs of this theory run
  through on every chip when, in addition, the printer prints nothing.
\<close>

definition runs :: "(('h, 'z) watched_scheme, 'a) cmd \<Rightarrow> ('a \<Rightarrow> bool) \<Rightarrow> bool" where
  "runs c Q \<longleftrightarrow> (\<forall>s. wdt_off s \<longrightarrow> wpM c (\<lambda>x t. wdt_off t \<and> Q x) s)"

abbreviation smooth :: "(('h, 'z) watched_scheme, 'a) cmd \<Rightarrow> bool" where
  "smooth c \<equiv> runs c (\<lambda>_. True)"

lemma runs_bind: "runs c P \<Longrightarrow> (\<And>x. P x \<Longrightarrow> runs (f x) Q) \<Longrightarrow> runs (bindM c f) Q"
  unfolding runs_def wp by (blast intro: wp_mono)

lemma smooth_bind: "smooth c \<Longrightarrow> (\<And>x. runs (f x) Q) \<Longrightarrow> runs (bindM c f) Q"
  by (erule runs_bind)

lemma runs_simple:
  "P x \<Longrightarrow> runs (retM x) P" "(\<And>s. Q (f s)) \<Longrightarrow> runs (getM f) Q" "Q' () \<Longrightarrow> runs (mmio_write w E a v) Q'"
  "(\<And>s. wdt_off (g s) = wdt_off s) \<Longrightarrow> Q' () \<Longrightarrow> runs (modM g) Q'" "(\<And>v. R v) \<Longrightarrow> runs (mmio_read w E a) R"
  by (auto simp: runs_def wp split: prod.splits)

lemma runs_seq: "Q () \<Longrightarrow> runs (seqM []) Q" "smooth c \<Longrightarrow> runs (seqM cs) Q \<Longrightarrow> runs (seqM (c # cs)) Q"
  unfolding seqM.simps by (auto intro: runs_simple smooth_bind)

lemma runs_if: "(b \<Longrightarrow> runs c Q) \<Longrightarrow> (\<not> b \<Longrightarrow> runs d Q) \<Longrightarrow> runs (if b then c else d) Q"
  by simp

lemma runs_when: "(b \<Longrightarrow> smooth c) \<Longrightarrow> smooth (whenM b c)"
  by (simp add: whenM_def runs_simple)

lemma runs_map: "runs c (\<lambda>x. Q (f x)) \<Longrightarrow> runs (mapM f c) Q"
  unfolding mapM_def by (erule runs_bind) (simp add: runs_simple)

lemma runs_prod: "(\<And>x y. runs (f x y) Q) \<Longrightarrow> runs (case z of (x, y) \<Rightarrow> f x y) Q"
  by (cases z) simp

lemma smooth_reader:
  assumes "reader c"
  shows "smooth c"
  unfolding runs_def
proof (intro allI impI)
  fix s :: "('a, 'b) watched_scheme" assume "wdt_off s"
  moreover obtain x t where "c s = Inr (x, t)" "observes s t" using readerD [OF assms] by blast
  moreover have "wdt_off t = wdt_off s"
    using arg_cong [OF observes_io_only [OF \<open>observes s t\<close>, unfolded io_only_def], of wdt_off] by simp
  ultimately show "wpM c (\<lambda>x t. wdt_off t \<and> True) s" by (simp add: wpM_def)
qed

lemma runsD: "runs c Q \<Longrightarrow> wdt_off s \<Longrightarrow> \<exists>x t. c s = Inr (x, t) \<and> Q x"
  unfolding runs_def by (blast dest: wpD)

lemma smooth_clock: "smooth (cpu_get_stm_freq E)" "smooth (stopwatch_get E)"
  by (intro smooth_reader reader_cpu_get_stm_freq reader_stopwatch_get)+

lemma smooth_serve: "smooth (wdt_serve E)"
  by (simp add: runs_def wdt_serve_def wp)

lemma smooth_reset: "smooth (reset_timeout E)"
  unfolding reset_timeout_def stopwatch_update_def wdt_set_max_execution_time_def
  by (intro runs_seq smooth_bind smooth_clock smooth_serve runs_simple) simp_all

lemma smooth_printf: "smooth (printf E (format mute_printer) f args)"
  by (simp add: printf_def mute_printer_def runs_simple)

lemma smooth_report: "smooth (report E mute_printer name b)"
  unfolding report_def by (intro smooth_bind smooth_printf runs_simple runs_when) simp_all

lemma smooth_tests:
  "smooth (check E mute_printer name b)" "smooth (eq_u32 E mute_printer name e a)" "smooth (test_skip E mute_printer name reason)"
  "smooth (test_category E mute_printer name)" "smooth (test_operation E mute_printer name v)" "smooth (test_watchdog_reset E)"
  unfolding check_def eq_u32_def test_check_def test_eq_u32_def test_skip_def test_category_def test_operation_def test_watchdog_reset_def
  by (intro runs_seq runs_map smooth_bind smooth_report smooth_printf smooth_reset runs_when runs_simple; simp)+

lemma smooth_eq_flash:
  fixes E :: "'h env"
  assumes "n \<le> length e"
  shows "smooth (eq_flash E mute_printer name e a n :: (('h, 'z) tested_scheme, unit) cmd)"
proof -
  from assms have "smooth (flash_match m E e a k :: (('h, 'z) tested_scheme, nat) cmd)" if "m + k \<le> n" for m k
    using that by (induction m arbitrary: k) (auto intro!: runs_simple smooth_bind runs_if)
  then show ?thesis
    unfolding eq_flash_def test_eq_flash_def
    by (intro runs_map smooth_bind runs_if runs_seq smooth_report smooth_printf smooth_reset runs_simple) simp_all
qed

lemma runs_copy: "runs (copy_bytes n E a) (\<lambda>bs. length bs = n)"
  by (induction n arbitrary: a) (auto intro!: runs_simple smooth_bind runs_map)

lemma smooth_rd16: "smooth (rd16 E a)" "smooth (wr16 E a v)" "smooth (cfi_read_word E a k)"
  unfolding cfi_read_word_def rd16_def wr16_def by (intro runs_map runs_simple TrueI)+

lemma smooth_complete: "smooth (cfi_wait_ready E a)" "smooth (complete E a)"
proof -
  have "smooth (ready_loop n E a v)" for n v
    unfolding test_watchdog_serve_def
    by (induction n arbitrary: v) (auto simp: test_watchdog_serve_def intro!: runs_simple smooth_bind runs_if smooth_rd16 smooth_serve)
  then show w: "smooth (cfi_wait_ready E a)" unfolding cfi_wait_ready_def .
  show "smooth (complete E a)"
    unfolding complete_def cfi_enter_read_array_def by (intro smooth_bind smooth_rd16 w runs_simple TrueI)
qed

lemma smooth_write_data: "n \<le> length ds \<Longrightarrow> smooth (write_data n E a ds)"
  by (induction n arbitrary: a ds) (auto intro!: runs_simple smooth_bind smooth_rd16 split: list.splits)

lemma smooth_operations:
  "smooth (cfi_unlock_block E a efa)" "smooth (cfi_lock_block E a efa)" "smooth (cfi_lock_down_block E a efa)"
  "smooth (cfi_erase_block E a efa)" "smooth (cfi_program_word E flash a v efa)" "smooth (cfi_blank_check E a)"
  "smooth (cfi_program_otp_word E a v)" "smooth (cfi_read_lock_status E a)" "smooth (cfi_clear_status E a)"
  "smooth (cfi_enter_id E a)" "smooth (cfi_enter_read_array E a)" "smooth (cfi_enter_efa E a)"
  unfolding cfi_unlock_block_def cfi_lock_block_def cfi_lock_down_block_def cfi_erase_block_def cfi_program_word_def
    cfi_blank_check_def cfi_program_otp_word_def cfi_read_lock_status_def cfi_clear_status_def cfi_enter_id_def
    cfi_enter_read_array_def cfi_enter_efa_def
  by (intro smooth_bind smooth_rd16 smooth_complete runs_simple TrueI)+

lemma smooth_program_buffer: "unat n \<le> length ds \<Longrightarrow> smooth (cfi_program_buffer E flash a ds n)"
  unfolding cfi_program_buffer_def by (intro smooth_bind smooth_rd16 smooth_complete smooth_write_data runs_simple TrueI)

text \<open>A loop whose offset advances by 4 up to \<open>sz\<close>: what holds of a round when it holds of the next one holds of the loop.\<close>

lemma word_rounds:
  assumes step: "\<And>n off x. (\<And>y. off < sz \<Longrightarrow> P n (off + 4) y) \<Longrightarrow> P (Suc n) off x" and sz: "unat (sz :: u32) \<le> 2 ^ 32 - 4"
  shows "P (unat sz div 4 + 2) 0 x"
proof -
  have "P (Suc n) off x" if "unat sz \<le> unat off + 4 * n" for n off x
    using that
  proof (induction n arbitrary: off x)
    case 0
    then show ?case by (intro step) (simp add: word_less_nat_alt)
  next
    case (Suc n)
    have "unat (off + 4) = unat off + 4" if "off < sz" using that sz by (intro unat_sum [of _ 4, simplified]) (simp add: word_less_nat_alt)
    then show ?case using Suc.prems by (intro step Suc.IH) simp
  qed
  from this [of 0 "unat sz div 4 + 1"] show ?thesis by simp
qed

text \<open>Both loops that look for blank words.\<close>

lemma smooth_blank_rounds:
  fixes L :: "nat \<Rightarrow> u32 \<Rightarrow> (('h, 'z) watched_scheme, bool) cmd"
  assumes L: "\<And>n off. L (Suc n) off = (if \<not> off < sz then retM True else
      bindM (rd E (a + off)) (\<lambda>v. if v \<noteq> 0xFFFFFFFF then retM False else bindM (c off) (\<lambda>_. L n (off + 4))))"
    and c: "\<And>off. smooth (c off)" and sz: "unat sz \<le> 2 ^ 32 - 4"
  shows "smooth (L (unat sz div 4 + 2) 0)"
  by (rule word_rounds [where P = "\<lambda>n off _. smooth (L n off)" and sz = sz, OF _ sz], unfold L)
     (intro runs_if smooth_bind c runs_simple, simp_all)

lemma smooth_blank: "unat sz \<le> 2 ^ 32 - 4 \<Longrightarrow> smooth (cfi_range_is_blank E a sz)"
  unfolding cfi_range_is_blank_def
  by (rule smooth_blank_rounds [where c = "\<lambda>off. whenM (off AND 0x3FFF = 0) (test_watchdog_serve E)"])
     (simp_all add: test_watchdog_serve_def runs_when smooth_serve)

lemma smooth_efa_blank: "unat sz \<le> 2 ^ 32 - 4 \<Longrightarrow> smooth (cfi_efa_range_is_blank E a sz)"
  unfolding cfi_efa_range_is_blank_def cfi_enter_efa_def cfi_enter_read_array_def
  by (intro smooth_bind smooth_rd16 runs_simple TrueI smooth_blank_rounds [where c = "\<lambda>off. test_watchdog_serve E"])
     (simp_all add: test_watchdog_serve_def smooth_serve)

lemmas smooth_intros = smooth_bind runs_seq runs_if runs_when runs_map runs_prod smooth_tests smooth_eq_flash smooth_operations smooth_rd16
  smooth_complete smooth_program_buffer smooth_write_data

lemma smooth_composed:
  "smooth (test_locked_operation E mute_printer flash erasing name)" "smooth (lock_state_is E mute_printer name e a)"
  "smooth c \<Longrightarrow> smooth (operate E mute_printer name c)" "smooth (blank_check_erased E mute_printer name flash)"
  "unat n \<le> length ds \<Longrightarrow> smooth (program_buffer E mute_printer flash a ds n)"
  unfolding test_locked_operation_def clear_status_def lock_state_is_def operate_def blank_check_erased_def program_buffer_def
  by (intro smooth_intros TrueI; simp)+

lemma smooth_suspends:
  "unat n \<le> length ds \<Longrightarrow> 8 \<le> length sample \<Longrightarrow> smooth (program_buffer_with_suspend E mute_printer flash a ds n sample b)"
  "8 \<le> length sample \<Longrightarrow> smooth (erase_with_suspend E mute_printer a sample b)"
  unfolding program_buffer_with_suspend_def erase_with_suspend_def
  by (intro smooth_intros runs_simple TrueI; assumption)+

lemma length_word_bytes: "length (word_bytes ws) = 2 * length ws"
  unfolding word_bytes_def by (induction ws) simp_all

lemma smooth_program_and_cleanup:
  assumes "14 \<le> unat (write_buffer_size flash)" "unat (write_buffer_size flash) \<le> 1024" "even (unat (write_buffer_size flash))"
    and "unat (test_block_size flash) \<le> 2 ^ 32 - 4"
  shows "smooth (test_program_and_cleanup E mute_printer flash)"
proof -
  let ?n = "write_buffer_size flash div 2"
  have n: "unat ?n = unat (write_buffer_size flash) div 2" by (simp add: unat_div)
  have pat: "runs (liftE (test_pattern ?n)) (\<lambda>ds. length ds = unat ?n)"
    using div_le_mono [OF assms(2), of 2] n by (simp add: test_pattern_def runs_def wp)
  show ?thesis
    unfolding test_program_and_cleanup_def program_phase_def cleanup_phase_def lock_phase_def Let_def
    by (rule runs_bind [OF pat], rule runs_bind [OF runs_copy], rule runs_bind [OF runs_copy],
        intro smooth_intros smooth_composed smooth_suspends smooth_blank TrueI)
       (use assms n in \<open>simp_all add: length_word_bytes\<close>)
qed

theorem rw_test_confined_witness:
  "\<exists>t ops. test_program_and_cleanup ready_chip mute_printer rw_flash bench_state = Inr ((), t) \<and>
     decodes (commands (trace t)) ops \<and> list_all (confined_to False 0xA0000100 0x100) ops"
proof -
  have "smooth (test_program_and_cleanup ready_chip mute_printer rw_flash :: (unit tested, unit) cmd)"
    by (rule smooth_program_and_cleanup) (simp_all add: rw_flash_def)
  from runsD [OF this, of bench_state]
  obtain t where run: "test_program_and_cleanup ready_chip mute_printer rw_flash bench_state = Inr ((), t)"
    by (auto simp: bench_state_def)
  have "roomy rw_flash" by (simp add: roomy_def rw_flash_def)
  from rw_test_confined [OF this run] run show ?thesis
    by (auto simp: rw_flash_def bench_state_def)
qed

subsection \<open>The extended array\<close>

lemma tells_efa:
  "tells (cfi_read_efa_word E a) [Read_Efa a, Read_Array a]" "tells (cfi_read_efa_lock_status E a) [Read_Id a, Read_Array a]"
  unfolding cfi_read_efa_word_def cfi_read_efa_lock_status_def cfi_enter_efa_def cfi_enter_id_def cfi_enter_read_array_def
  by (rule issues_one [where op = "Read_Efa a"], simp add: one_cycle_def, rule issues_after [OF bystander_rd16(1)],
      rule issues_one [where op = "Read_Array a"], simp add: one_cycle_def, rule issues_ret, simp)
     (rule issues_one [where op = "Read_Id a"], simp add: one_cycle_def, rule issues_after [OF bystander_rd16(2)],
      rule issues_one [where op = "Read_Array a"], simp add: one_cycle_def, rule issues_ret, simp)

lemma tells_efa_blank: "tells (cfi_efa_range_is_blank E a sz) [Read_Efa a, Read_Array a]"
proof -
  have loop: "bystander (efa_blank_loop n E a sz k)" for n k
    by (induction n arbitrary: k) (auto simp: test_watchdog_serve_def intro!: bystander_intros bystander_serve)
  show ?thesis
    unfolding cfi_efa_range_is_blank_def cfi_enter_efa_def cfi_enter_read_array_def
    by (rule issues_one [where op = "Read_Efa a"], simp add: one_cycle_def, rule issues_after [OF loop],
        rule issues_one [where op = "Read_Array a"], simp add: one_cycle_def, rule issues_ret) simp
qed

lemma allowed_efa_modes:
  "allowed (confined_to efa lo sz) (cfi_read_efa_word E a)" "allowed (confined_to efa lo sz) (cfi_read_efa_lock_status E a)"
  "allowed (confined_to efa lo sz) (cfi_efa_range_is_blank E a n)"
  by (auto intro!: allowed_tells [OF tells_efa(1)] allowed_tells [OF tells_efa(2)] allowed_tells [OF tells_efa_blank] simp: confined_to_def)

lemma allowed_efa_test:
  "2 \<le> sz \<Longrightarrow> allowed (confined_to True a sz) (test_efa_program_and_cleanup E T flash a)"
  unfolding test_efa_program_and_cleanup_def efa_lock_state_is_def
  by (intro allowed_intros allowed_operate allowed_block_operations allowed_efa_modes)

lemma smooth_efa:
  "smooth (cfi_read_efa_word E a)" "smooth (cfi_read_efa_lock_status E a)"
  unfolding cfi_read_efa_word_def cfi_read_efa_lock_status_def by (intro smooth_intros runs_simple TrueI)+

text \<open>
  The write test of the extended array touches nothing but the block it was given: it programs words of that block of the
  extended array only, and erases, locks, unlocks and locks down no other block and nothing of the main array.
\<close>

theorem efa_test_confined:
  assumes "2 \<le> efa_block_size flash" "test_efa_program_and_cleanup E T flash address s = Inr ((), t)"
  shows "\<exists>tr ops. trace t = trace s @ tr \<and> decodes (commands tr) ops \<and>
    list_all (confined_to True address (unat (efa_block_size flash))) ops"
proof -
  have "2 \<le> unat (efa_block_size flash)" using assms(1) by (simp add: word_le_nat_alt)
  from logs_inD [OF allowed_efa_test [OF this, unfolded issues_def] assms(2)] show ?thesis by blast
qed

definition efa_flash :: flash_device where
  "efa_flash = small_flash\<lparr>efa_blocks := 1, efa_block_size := 0x100\<rparr>"

theorem efa_test_confined_witness:
  "\<exists>t ops. test_efa_program_and_cleanup ready_chip mute_printer efa_flash 0xA0000000 bench_state = Inr ((), t) \<and>
     decodes (commands (trace t)) ops \<and> list_all (confined_to True 0xA0000000 0x100) ops"
proof -
  have "smooth (test_efa_program_and_cleanup ready_chip mute_printer efa_flash 0xA0000000 :: (unit tested, unit) cmd)"
    unfolding test_efa_program_and_cleanup_def efa_lock_state_is_def
    by (rule runs_bind [OF runs_copy], intro smooth_intros smooth_composed smooth_efa smooth_efa_blank TrueI)
       (simp_all add: efa_flash_def)
  from runsD [OF this, of bench_state]
  obtain t where run: "test_efa_program_and_cleanup ready_chip mute_printer efa_flash 0xA0000000 bench_state = Inr ((), t)"
    by (auto simp: bench_state_def)
  from efa_test_confined [OF _ run] run show ?thesis
    by (auto simp: efa_flash_def bench_state_def)
qed

subsection \<open>The one-time programmable cells\<close>

text \<open>
  The cells that the test may program: the four words of the IMEI, with the words of the test IMEI or, once the cells are
  frozen, its first word without some bits, and the lock word with the bit that freezes the cells cleared.
\<close>

definition otp_permitted :: "u32 \<Rightarrow> flash_op \<Rightarrow> bool" where
  "otp_permitted base op = (case op of
     Program_Otp a v \<Rightarrow> (\<exists>i<4. a = base + 0x8A * 2 + of_nat i * 2 \<and> v = ucast (test_imei ! i)) \<or>
       a = base + 0x8A * 2 \<and> v = ucast (test_imei ! 0 AND 0x0F0F) \<or> a = base + 0x89 * 2 \<and> \<not> bit v 0
   | Program e a v \<Rightarrow> False | Program_Buffer ws \<Rightarrow> False | Erase e a \<Rightarrow> False | Lock e a \<Rightarrow> False | Unlock e a \<Rightarrow> False
   | Lock_Down e a \<Rightarrow> False | Configure e a \<Rightarrow> False
   | _ \<Rightarrow> True)"

lemma allowed_otp_modes:
  "allowed (otp_permitted base) (cfi_enter_id E a)" "allowed (otp_permitted base) (cfi_enter_read_array E a)"
  "allowed (otp_permitted base) (cfi_clear_status E a)"
  by (auto intro!: allowed_tells [OF tells_modes(1)] allowed_tells [OF tells_modes(2)] allowed_tells [OF tells_clear_status]
      simp: otp_permitted_def)

lemma allowed_otp_word:
  "otp_permitted base (Program_Otp a (ucast v)) \<Longrightarrow> allowed (otp_permitted base) (cfi_program_otp_word E a v)"
  by (auto intro!: allowed_tells [OF tells_block_operations(6)] simp: otp_permitted_def)

lemma imei_permitted: "i < 4 \<Longrightarrow> otp_permitted base (Program_Otp (base + 0x114 + of_nat i * 2) (ucast (test_imei ! i)))"
  by (auto simp: otp_permitted_def)

lemma allowed_imei: "allowed (otp_permitted base) (program_imei E T (base + 0x8A * 2) test_imei)"
proof -
  have w: "allowed (otp_permitted base) (cfi_program_otp_word E a (test_imei ! i))" if "i < 4" "a = base + 0x114 + of_nat i * 2" for a i
    using that by (auto intro: allowed_otp_word imei_permitted)
  have "allowed (otp_permitted base) (program_imei E T (base + 0x8A * 2) [test_imei ! 0, test_imei ! 1, test_imei ! 2, test_imei ! 3])"
    unfolding program_imei.simps
    by (intro allowed_intros allowed_operate w [of 0] w [of 1] w [of 2] w [of 3]) simp_all
  then show ?thesis by (simp add: test_imei_def)
qed

lemma allowed_otp: "allowed (otp_permitted (flash_base flash)) (program_otp E T flash)"
  "allowed (otp_permitted (flash_base flash)) (freeze_otp E T flash)"
proof -
  have lck: "allowed (otp_permitted b) (cfi_program_otp_word E (b + 0x89 * 2) (v AND NOT 1))"
    "allowed (otp_permitted b) (cfi_program_otp_word E (b + 0x8A * 2) (test_imei ! 0 AND 0x0F0F))" for b v
    by (rule allowed_otp_word, simp add: otp_permitted_def bit_simps)+
  show "allowed (otp_permitted (flash_base flash)) (program_otp E T flash)"
    "allowed (otp_permitted (flash_base flash)) (freeze_otp E T flash)"
    unfolding program_otp_def freeze_otp_def Let_def
    by (intro allowed_intros allowed_operate allowed_otp_modes allowed_imei lck)+
qed

definition unfrozen :: "u32 \<Rightarrow> access list \<Rightarrow> bool" where
  "unfrozen base tr \<longleftrightarrow> (\<exists>v. Rd W16 (base + 0x89 * 2) v \<in> set tr \<and> bit v 0)"

definition otp_programmed :: "flash_op list \<Rightarrow> bool" where
  "otp_programmed ops \<longleftrightarrow> (\<exists>a v. Program_Otp a v \<in> set ops)"

text \<open>What has been told so far, with the condition on programming.\<close>

definition otp_told :: "u32 \<Rightarrow> access list \<Rightarrow> bool" where
  "otp_told base tr \<longleftrightarrow> (\<exists>ops. decodes (commands tr) ops \<and> list_all (otp_permitted base) ops \<and> (otp_programmed ops \<longrightarrow> unfrozen base tr))"

lemma otp_told_append: "otp_told base xs \<Longrightarrow> otp_told base ys \<Longrightarrow> otp_told base (xs @ ys)"
  unfolding otp_told_def
proof (elim exE conjE)
  fix a b assume "decodes (commands xs) a" "list_all (otp_permitted base) a" "otp_programmed a \<longrightarrow> unfrozen base xs"
    and "decodes (commands ys) b" "list_all (otp_permitted base) b" "otp_programmed b \<longrightarrow> unfrozen base ys"
  then show "\<exists>ops. decodes (commands (xs @ ys)) ops \<and> list_all (otp_permitted base) ops \<and> (otp_programmed ops \<longrightarrow> unfrozen base (xs @ ys))"
    by (intro exI [of _ "a @ b"]) (auto simp: decodes_append otp_programmed_def unfrozen_def)
qed

lemma otp_told_quiet: "commands tr = [] \<Longrightarrow> otp_told base tr"
  by (auto simp: otp_told_def otp_programmed_def intro: decodes.idle)

lemma unfrozen_append: "unfrozen base xs \<Longrightarrow> unfrozen base (xs @ ys)" "unfrozen base ys \<Longrightarrow> unfrozen base (xs @ ys)"
  by (auto simp: unfrozen_def)

lemma talks_otp_mode: "talks (cfi_enter_id E a) (\<lambda>_. otp_told base)" "talks (cfi_enter_read_array E a) (\<lambda>_. otp_told base)"
  by (rule logs_in_mono [OF tells_modes(2) [unfolded issues_def]], auto simp: otp_told_def otp_permitted_def otp_programmed_def)
     (rule logs_in_mono [OF tells_modes(1) [unfolded issues_def]], auto simp: otp_told_def otp_permitted_def otp_programmed_def)

lemma talks_otp_lock:
  "talks (cfi_read_word E base 0x89) (\<lambda>v tr. otp_told base tr \<and> (bit v 0 \<longrightarrow> unfrozen base tr))"
  unfolding cfi_read_word_def rd16_def
  by (rule any.in_map, rule any.in_read) (auto simp: unfrozen_def bit_simps intro!: otp_told_quiet)

lemma allowed_after_unfrozen:
  assumes "allowed (otp_permitted base) c" "otp_told base pre" "unfrozen base pre"
  shows "talks c (\<lambda>_ tr. otp_told base (pre @ tr) \<and> unfrozen base (pre @ tr))"
  using assms(1) unfolding issues_def
proof (rule logs_in_mono, elim exE conjE)
  fix tr ops assume "decodes (commands tr) ops" "list_all (otp_permitted base) ops"
  moreover obtain ops1 where "decodes (commands pre) ops1" "list_all (otp_permitted base) ops1"
    using assms(2) by (auto simp: otp_told_def)
  moreover have "unfrozen base (pre @ tr)" using assms(3) by (auto simp: unfrozen_def)
  ultimately show "otp_told base (pre @ tr) \<and> unfrozen base (pre @ tr)"
    unfolding otp_told_def by (intro conjI exI [of _ "ops1 @ ops"]) (simp_all add: decodes_append)
qed

lemma talks_program_otp:
  fixes E :: "'h env"
  shows "talks (program_otp E T flash :: (('h, 'z) tested_scheme, bool) cmd)
    (\<lambda>programmed tr. otp_told (flash_base flash) tr \<and> (programmed \<longrightarrow> unfrozen (flash_base flash) tr))"
proof -
  let ?b = "flash_base flash"
  have skip: "talks (bindM (test_skip E T ''IMEI OTP program'' ''OTP region is frozen'') (\<lambda>_. retM False) :: (('h, 'z) tested_scheme, bool) cmd)
      (\<lambda>r tr. otp_told ?b (pre @ tr) \<and> (r \<longrightarrow> unfrozen ?b (pre @ tr)))" if "otp_told ?b pre" for pre
    by (rule any.in_bind [OF bystander_tests(3)], rule any.in_ret) (simp add: that otp_told_append otp_told_quiet)
  have program: "talks (bindM (seqM [program_imei E T (?b + 0x8A * 2) test_imei, cfi_enter_id E ?b,
      eq_flash E T ''IMEI OTP reads back'' (word_bytes test_imei) (?b + 0x8A * 2) 8,
      eq_flash E T ''factory ESN is unchanged'' (word_bytes esn) (?b + 0x81 * 2) 8, cfi_enter_read_array E ?b,
      printf E (format T) ''# programmed IMEI: 004999010640000\<newline>'' []]) (\<lambda>_. retM True) :: (('h, 'z) tested_scheme, bool) cmd)
      (\<lambda>r tr. otp_told ?b (pre @ tr) \<and> (r \<longrightarrow> unfrozen ?b (pre @ tr)))"
    if "otp_told ?b pre" "unfrozen ?b pre" for pre esn
    by (rule logs_in_mono [OF allowed_after_unfrozen [OF _ that]], intro allowed_intros allowed_otp_modes allowed_imei) blast
  show ?thesis
    unfolding program_otp_def Let_def
    apply (rule any.in_bind [OF talks_otp_mode(1) [where base = ?b]], rule any.in_bind [OF talks_otp_lock],
        rule any.in_bind [OF bystander_copy(2)], rule any.in_bind [OF talks_otp_mode(2) [where base = ?b]], unfold append_assoc [symmetric], rule any.in_if)
    subgoal by (rule skip) (elim conjE, (assumption | rule otp_told_append otp_told_quiet)+)
    subgoal by (rule program) (elim conjE, (assumption | rule otp_told_append otp_told_quiet)+, auto intro: unfrozen_append)
    done
qed

lemma talks_otp_phase:
  fixes E :: "'h env"
  shows "talks (otp_phase E T flash :: (('h, 'z) tested_scheme, unit) cmd) (\<lambda>_. otp_told (flash_base flash))"
proof -
  let ?b = "flash_base flash"
  have "allowed (otp_permitted ?b) (seqM [test_category E T ''Irreversible OTP freeze'', freeze_otp E T flash] :: (('h, 'z) tested_scheme, unit) cmd)"
    by (intro allowed_intros allowed_otp)
  note freeze = allowed_after_unfrozen [OF this]
  show ?thesis
    unfolding otp_phase_def
    apply (rule any.in_bind [OF talks_program_otp], rule any.in_when)
    subgoal by (rule logs_in_mono [OF freeze]) blast+
    subgoal by simp
    done
qed


lemma runs_read_words: "runs (read_words n E a) (\<lambda>ws. length ws = n)"
  by (induction n arbitrary: a) (auto intro!: runs_simple smooth_bind runs_map smooth_rd16)

lemma smooth_program_imei: "smooth (program_imei E mute_printer a ws)"
  by (induction ws arbitrary: a) (auto intro!: smooth_intros smooth_composed runs_simple)

lemma smooth_otp: "smooth (program_otp E mute_printer flash)" "smooth (freeze_otp E mute_printer flash)"
proof -
  show "smooth (program_otp E mute_printer flash)"
    unfolding program_otp_def Let_def
    by (rule smooth_bind, rule smooth_operations, rule smooth_bind, rule smooth_rd16, rule runs_bind [OF runs_read_words],
        intro smooth_intros smooth_composed smooth_program_imei smooth_printf runs_simple TrueI)
       (simp_all add: length_word_bytes test_imei_def)
  show "smooth (freeze_otp E mute_printer flash)"
    unfolding freeze_otp_def Let_def
    by (intro smooth_intros smooth_composed smooth_program_imei smooth_printf runs_simple TrueI)
       (simp_all add: length_word_bytes test_imei_def)
qed


end
