(* ===== verification/Cfi_Abort.thy ===== *)
theory Cfi_Abort
  imports Cfi_Rw Crc
begin

text \<open>
  The test of an aborted buffer program (\<^verbatim>\<open>src/unit/cfi-intel/buffer-abort.c\<close>). It fills the write buffer of the
  chip and, instead of confirming it, writes outside of the block, which the chip answers by dropping the buffer. Shown are
  that the test never programs a word and erases nothing but a block it has read as blank, whatever the chip answers, that its
  table-driven CRC is the CRC of the preloader, and that it finds the erase block of an address.
\<close>

section \<open>State and data\<close>

abbreviation (input) TRACE_ABORT_X32_WRITES :: u32 where "TRACE_ABORT_X32_WRITES \<equiv> 112"
abbreviation (input) OPERATION_TIMEOUT_MS :: u32 where "OPERATION_TIMEOUT_MS \<equiv> 30000"
abbreviation (input) STATUS_ABORT_ERRORS :: u16 where "STATUS_ABORT_ERRORS \<equiv> 0xB0"
abbreviation (input) STATUS_LOW_ERRORS :: u16 where "STATUS_LOW_ERRORS \<equiv> 0x3A"

record flash_block_t =
  blk_base :: u32
  blk_size :: u32

text \<open>The static table of the CRC, an array with an element for every byte, and the flag that it is filled.\<close>

record 'h crc_tested = "'h tested" +
  crc32_table :: "u8 \<Rightarrow> u32"
  crc32_table_ready :: bool

section \<open>Operations\<close>

definition skip_destructive_test :: "'h env \<Rightarrow> printer \<Rightarrow> string \<Rightarrow> (('h, 'z) tested_scheme, u32) cmd" where
  "skip_destructive_test E T reason =
     bindM (test_skip E T ''CFI buffered program abort'' reason) (\<lambda>_. test_finish E T)"

definition print_status :: "'h env \<Rightarrow> printer \<Rightarrow> string \<Rightarrow> u16 \<Rightarrow> (('h, 'z) tested_scheme, unit) cmd" where
  "print_status E T name status =
     (let raw = ucast status :: u8 in
      printf E (format T) ''# %s: raw=%02X SR7..SR0=%u%u%u%u%u%u%u%u\<newline>''
        (Str (str name) # Num (ucast raw) # map (\<lambda>i. Num (ucast (drop_bit i raw AND 1))) [7, 6, 5, 4, 3, 2, 1, 0]))"

subsection \<open>Checksum of a block\<close>

definition crc32_table_bit :: "u32 \<Rightarrow> u32" where
  "crc32_table_bit v = drop_bit 1 v XOR (0xEDB88320 AND (0 - (v AND 1)))"

definition crc32_table_fill :: "(u8 \<Rightarrow> u32) \<Rightarrow> u8 \<Rightarrow> u32" where
  "crc32_table_fill table = foldl (\<lambda>t index. t(of_nat index := (crc32_table_bit ^^ 8) (of_nat index))) table [0..<256]"

primrec crc32_word_loop :: "nat \<Rightarrow> (u8 \<Rightarrow> u32) \<Rightarrow> u32 \<Rightarrow> u32 \<Rightarrow> u32" where
  "crc32_word_loop 0 table crc v = crc"
| "crc32_word_loop (Suc n) table crc v =
     crc32_word_loop n table (table (ucast ((crc XOR v) AND 0xFF)) XOR drop_bit 8 crc) (drop_bit 8 v)"

primrec crc32_block_loop :: "nat \<Rightarrow> 'h env \<Rightarrow> u32 \<Rightarrow> u32 \<Rightarrow> u32 \<Rightarrow> u32 \<Rightarrow> (('h, 'z) crc_tested_scheme, u32) cmd" where
  "crc32_block_loop 0 E address sz offset crc = failM Out_Of_Fuel"
| "crc32_block_loop (Suc n) E address sz offset crc =
     (if \<not> offset < sz then retM crc else
      bindM (rd E (address + offset)) (\<lambda>v.
      bindM (getM crc32_table) (\<lambda>table.
      bindM (whenM (offset AND 0xFF = 0) (test_watchdog_serve E)) (\<lambda>_.
      crc32_block_loop n E address sz (offset + 4) (crc32_word_loop 4 table crc v)))))"

definition crc32_block :: "'h env \<Rightarrow> u32 \<Rightarrow> u32 \<Rightarrow> (('h, 'z) crc_tested_scheme, u32) cmd" where
  "crc32_block E address sz =
     bindM (getM crc32_table_ready) (\<lambda>ready.
     bindM (whenM (\<not> ready) (modM (\<lambda>s. s\<lparr>crc32_table := crc32_table_fill (crc32_table s), crc32_table_ready := True\<rparr>))) (\<lambda>_.
     bindM (wdt_set_max_execution_time E OPERATION_TIMEOUT_MS) (\<lambda>_.
     bindM (crc32_block_loop (unat sz div 4 + 2) E address sz 0 0xFFFFFFFF) (\<lambda>crc.
     bindM (test_watchdog_reset E) (\<lambda>_. retM (NOT crc))))))"

primrec range_blank_loop :: "nat \<Rightarrow> 'h env \<Rightarrow> u32 \<Rightarrow> u32 \<Rightarrow> u32 \<Rightarrow> (('h, 'z) watched_scheme, bool) cmd" where
  "range_blank_loop 0 E address sz offset = failM Out_Of_Fuel"
| "range_blank_loop (Suc n) E address sz offset =
     (if \<not> offset < sz then bindM (test_watchdog_reset E) (\<lambda>_. retM True) else
      bindM (rd E (address + offset)) (\<lambda>v.
      if v \<noteq> 0xFFFFFFFF then bindM (test_watchdog_reset E) (\<lambda>_. retM False) else
      bindM (test_watchdog_serve E) (\<lambda>_. range_blank_loop n E address sz (offset + 4))))"

definition range_is_blank :: "'h env \<Rightarrow> u32 \<Rightarrow> u32 \<Rightarrow> (('h, 'z) watched_scheme, bool) cmd" where
  "range_is_blank E address sz =
     bindM (wdt_set_max_execution_time E 0) (\<lambda>_. range_blank_loop (unat sz div 4 + 2) E address sz 0)"

subsection \<open>Blocks\<close>

text \<open>The erase block of an address, \<^const>\<open>None\<close> when the code returns false.\<close>

primrec find_block_loop :: "nat \<Rightarrow> nat \<Rightarrow> flash_device \<Rightarrow> u32 \<Rightarrow> u32 \<Rightarrow> fault + flash_block_t option" where
  "find_block_loop 0 region flash address region_base = Inr None"
| "find_block_loop (Suc n) region flash address region_base =
     (if region \<ge> length (erase flash) then Inl Out_Of_Bounds else
      let bs = block_size (erase flash ! region); region_size = blocks (erase flash ! region) * bs in
      if bs = 0 \<or> region_size div bs \<noteq> blocks (erase flash ! region) then Inr None else
      if address - flash_base flash < region_base - flash_base flash + region_size
      then Inr (Some \<lparr>blk_base = region_base + (address - region_base) div bs * bs, blk_size = bs\<rparr>)
      else find_block_loop n (region + 1) flash address (region_base + region_size))"

definition find_block :: "flash_device \<Rightarrow> u32 \<Rightarrow> fault + flash_block_t option" where
  "find_block flash address =
     (if address < flash_base flash \<or> address - flash_base flash \<ge> flash_size flash then Inr None
      else find_block_loop (unat (regions flash)) 0 flash address (flash_base flash))"

definition select_setup_offset :: "flash_device \<Rightarrow> flash_block_t \<Rightarrow> u32" where
  "select_setup_offset flash block = (blk_size block div 2) AND NOT (write_buffer_size flash - 1)"

text \<open>
  The neighbor, when the block is usable. In the other cases the code may have set \<^verbatim>\<open>*neighbor\<close> too, but it does not use it
  before it is set again.
\<close>

definition block_is_usable :: "'h env \<Rightarrow> flash_device \<Rightarrow> flash_block_t \<Rightarrow> (('h, 'z) watched_scheme, flash_block_t option) cmd" where
  "block_is_usable E flash block =
     (if blk_size block < write_buffer_size flash \<or> blk_size block AND (blk_size block - 1) \<noteq> 0 then retM None else
      let setup_offset = select_setup_offset flash block in
      if setup_offset + write_buffer_size flash > blk_size block then retM None else
      let setup_address = blk_base block + setup_offset in
      if setup_address AND (write_buffer_size flash - 1) \<noteq> 0 then retM None else
      let abort_address = setup_address XOR blk_size block in
      bindM (liftE (find_block flash abort_address)) (\<lambda>found. case found of None \<Rightarrow> retM None | Some neighbor \<Rightarrow>
      if blk_base neighbor = blk_base block \<or> blk_size neighbor \<noteq> blk_size block \<or> abort_address - blk_base neighbor \<noteq> setup_offset
      then retM None else
      bindM (cfi_read_lock_status E (blk_base block)) (\<lambda>lck.
      if bit lck 1 then retM None else
      bindM (cfi_enter_read_array E (blk_base block)) (\<lambda>_.
      bindM (cfi_range_is_blank E (blk_base block) (blk_size block)) (\<lambda>blank.
      retM (if blank then Some neighbor else None))))))"

text \<open>The loops over the blocks of a region, over the regions of a chip and over the chips.\<close>

primrec scan_blocks :: "nat \<Rightarrow> 'h env \<Rightarrow> flash_device \<Rightarrow> u32 \<Rightarrow> u32 \<Rightarrow>
    (('h, 'z) watched_scheme, u32 + flash_block_t \<times> flash_block_t) cmd" where
  "scan_blocks 0 E candidate bs address = retM (Inl address)"
| "scan_blocks (Suc n) E candidate bs address =
     (let current = \<lparr>blk_base = address, blk_size = bs\<rparr> in
      bindM (test_watchdog_reset E) (\<lambda>_.
      bindM (block_is_usable E candidate current) (\<lambda>usable. case usable of
        Some neighbor \<Rightarrow> retM (Inr (current, neighbor))
      | None \<Rightarrow> bindM (test_watchdog_serve E) (\<lambda>_. scan_blocks n E candidate bs (address + bs)))))"

primrec scan_regions :: "nat \<Rightarrow> nat \<Rightarrow> 'h env \<Rightarrow> flash_device \<Rightarrow> u32 \<Rightarrow>
    (('h, 'z) watched_scheme, (flash_block_t \<times> flash_block_t) option) cmd" where
  "scan_regions 0 region E candidate address = retM None"
| "scan_regions (Suc n) region E candidate address =
     (if region \<ge> length (erase candidate) then failM Out_Of_Bounds else
      let r = erase candidate ! region in
      bindM (scan_blocks (unat (blocks r)) E candidate (block_size r) address) (\<lambda>res. case res of
        Inr found \<Rightarrow> retM (Some found)
      | Inl address' \<Rightarrow> scan_regions n (region + 1) E candidate address'))"

primrec scan_chips :: "'h env \<Rightarrow> printer \<Rightarrow> u32 list \<Rightarrow>
    (('h, 'z) tested_scheme, (flash_device \<times> flash_block_t \<times> flash_block_t) option) cmd" where
  "scan_chips E T [] = retM None"
| "scan_chips E T (cs # css) =
     bindM (cfi_probe E cs no_flash) (\<lambda>(ok, candidate).
     if \<not> ok then scan_chips E T css else
     if size_exponent candidate < 20 \<or> size_exponent candidate > 27 \<or> write_buffer_size candidate < 8 \<or>
        write_buffer_size candidate AND (write_buffer_size candidate - 1) \<noteq> 0 then scan_chips E T css else
     bindM (cfi_map E (flash_cs candidate) (flash_base candidate) (27 - size_exponent candidate)) (\<lambda>_.
     bindM (printf E (format T) ''# probing CS%u vendor/device=%04X:%04X buffer=%u bytes\<newline>''
       [Num (flash_cs candidate), Num (manufacturer candidate), Num (device candidate), Num (write_buffer_size candidate)]) (\<lambda>_.
     bindM (scan_regions (unat (regions candidate)) 0 E candidate (flash_base candidate)) (\<lambda>res. case res of
       Some (block, neighbor) \<Rightarrow> retM (Some (candidate, block, neighbor))
     | None \<Rightarrow> scan_chips E T css))))"

definition find_blank_test_block ::
    "'h env \<Rightarrow> printer \<Rightarrow> (('h, 'z) tested_scheme, (flash_device \<times> flash_block_t \<times> flash_block_t) option) cmd" where
  "find_blank_test_block E T = scan_chips E T cfi_chip_selects"

subsection \<open>Programming and cleaning up\<close>

definition program_value :: "u32 \<Rightarrow> u32" where
  "program_value index = 0x13570000 + index"

definition buffered_program_command :: "'h env \<Rightarrow> flash_device \<Rightarrow> (('h, 'z) machine_scheme, u16 option) cmd" where
  "buffered_program_command E flash =
     bindM (cfi_enter_query E (flash_base flash)) (\<lambda>_.
     bindM (mapM ucast (cfi_read_u16 E (flash_base flash) 0x13)) (\<lambda>primary_command_set.
     bindM (cfi_enter_read_array E (flash_base flash)) (\<lambda>_.
     retM (if primary_command_set = (0x0001 :: u16) then Some 0xE8 else if primary_command_set = 0x0200 then Some 0xE9 else None))))"

definition block_erase_max_ms :: "'h env \<Rightarrow> flash_device \<Rightarrow> (('h, 'z) machine_scheme, u32) cmd" where
  "block_erase_max_ms E flash =
     bindM (cfi_enter_query E (flash_base flash)) (\<lambda>_.
     bindM (mapM ucast (cfi_read_word E (flash_base flash) 0x21)) (\<lambda>typical_exponent.
     bindM (mapM ucast (cfi_read_word E (flash_base flash) 0x25)) (\<lambda>maximum_exponent.
     bindM (cfi_enter_read_array E (flash_base flash)) (\<lambda>_.
     let total_exponent = typical_exponent + maximum_exponent :: u32 in
     retM (if typical_exponent \<noteq> 0 \<and> total_exponent < 15 then push_bit (unat total_exponent) 1 else OPERATION_TIMEOUT_MS)))))"

definition emergency_cleanup :: "'h env \<Rightarrow> printer \<Rightarrow> flash_device \<Rightarrow> flash_block_t \<Rightarrow> (('h, 'z) tested_scheme, bool) cmd" where
  "emergency_cleanup E T flash block =
     bindM (block_erase_max_ms E flash) (\<lambda>cfi_max_ms.
     let delay_ms = (if cfi_max_ms \<le> (OPERATION_TIMEOUT_MS - 1000) div 4 then cfi_max_ms * 4 + 1000 else OPERATION_TIMEOUT_MS) in
     bindM (printf E (format T) ''# emergency cleanup delay: %u ms (CFI max %u ms)\<newline>'' [Num delay_ms, Num cfi_max_ms]) (\<lambda>_.
     bindM (wdt_set_max_execution_time E OPERATION_TIMEOUT_MS) (\<lambda>_.
     bindM (wr16 E (blk_base block) 0x50) (\<lambda>_.
     bindM (wr16 E (blk_base block) 0x20) (\<lambda>_.
     bindM (wr16 E (blk_base block) 0xD0) (\<lambda>_.
     bindM (stopwatch_get E) (\<lambda>started.
     bindM (whileM (fuel E) (mapM (\<lambda>ms. ms < delay_ms) (stopwatch_elapsed_ms E started)) (test_watchdog_serve E)) (\<lambda>_.
     bindM (wr16 E (blk_base block) 0x70) (\<lambda>_.
     bindM (rd16 E (blk_base block)) (\<lambda>status.
     bindM (whenM (status AND STATUS_READY \<noteq> 0) (cfi_enter_read_array E (blk_base block))) (\<lambda>_.
     bindM (test_watchdog_reset E) (\<lambda>_.
     bindM (print_status E T ''emergency cleanup status'' status) (\<lambda>_.
     if status AND (STATUS_READY OR STATUS_LOW_ERRORS) \<noteq> STATUS_READY then retM False else
     range_is_blank E (blk_base block) (blk_size block))))))))))))))"

section \<open>The abort\<close>

text \<open>The status of an operation that completed without errors.\<close>

definition clean :: "u16 \<Rightarrow> bool" where
  "clean status \<longleftrightarrow> status AND (STATUS_READY OR STATUS_LOW_ERRORS) = STATUS_READY"

text \<open>The words of the buffer, two at a time, and the write outside of the block that aborts the program.\<close>

definition fill_and_abort :: "'h env \<Rightarrow> flash_device \<Rightarrow> u32 \<Rightarrow> u32 \<Rightarrow> u32 \<Rightarrow> (('h, 'z) machine_scheme, unit) cmd" where
  "fill_and_abort E flash abort_writes setup_address abort_address =
     bindM (wr16 E setup_address (ucast (write_buffer_size flash div 2 - 1))) (\<lambda>_.
     bindM (forM [0..<unat abort_writes] (\<lambda>index. wr E (setup_address + of_nat index * 4) (program_value (of_nat index)))) (\<lambda>_.
     wr16 E abort_address 0xFFFF))"

definition test_abort_trace ::
    "'h env \<Rightarrow> printer \<Rightarrow> flash_device \<Rightarrow> u16 \<Rightarrow> u32 \<Rightarrow> u32 \<Rightarrow> flash_block_t \<Rightarrow> (('h, 'z) tested_scheme, unit) cmd" where
  "test_abort_trace E T flash program_command abort_writes setup_address block =
     (let abort_address = setup_address XOR blk_size block in
      bindM (seqM [wr16 E setup_address 0x50, wr16 E setup_address 0xFF, wr16 E setup_address program_command]) (\<lambda>_.
      bindM (cfi_wait_ready E setup_address) (\<lambda>status_before_abort.
      bindM (print_status E T ''status before abort'' status_before_abort) (\<lambda>_.
      bindM (check E T ''abort trace accepts the buffer setup command'' (clean status_before_abort)) (\<lambda>_.
      if \<not> clean status_before_abort then seqM [wr16 E setup_address 0x50, wr16 E setup_address 0xFF] else
      bindM (fill_and_abort E flash abort_writes setup_address abort_address) (\<lambda>_.
      bindM (rd16 E setup_address) (\<lambda>status_after_abort.
      bindM (wr16 E setup_address 0x50) (\<lambda>_.
      bindM (rd16 E setup_address) (\<lambda>status_after_clear.
      bindM (seqM [wr16 E setup_address 0x50, wr16 E setup_address 0x70, wr16 E setup_address 0xFF]) (\<lambda>_.
      bindM (rd E setup_address) (\<lambda>array_after_ff.
      bindM (wr16 E setup_address 0x70) (\<lambda>_.
      bindM (rd16 E setup_address) (\<lambda>status_after_ff.
      bindM (seqM [wr16 E setup_address 0x70, wr16 E setup_address 0xFF,
          print_status E T ''status immediately after abort'' status_after_abort,
          print_status E T ''status after 50'' status_after_clear,
          print_status E T ''status after FF then 70'' status_after_ff,
          check E T ''out-of-block write reports SR7, SR5 and SR4'' (status_after_abort AND STATUS_ABORT_ERRORS = STATUS_ABORT_ERRORS),
          eq_u32 E T ''50 clears buffered-program error bits'' 0 (ucast (status_after_clear AND STATUS_LOW_ERRORS)),
          eq_u32 E T ''FF returns the device to read-array mode'' 0xFFFFFFFF array_after_ff,
          check E T ''status is clean after FF and 70'' (clean status_after_ff),
          wr16 E setup_address program_command]) (\<lambda>_.
      bindM (cfi_wait_ready E setup_address) (\<lambda>retry_status.
      bindM (print_status E T ''retry buffered-program setup'' retry_status) (\<lambda>_.
      bindM (check E T ''flash accepts a buffered-program command after abort recovery'' (clean retry_status)) (\<lambda>_.
      bindM (whenM (clean retry_status)
        (bindM (fill_and_abort E flash abort_writes setup_address abort_address) (\<lambda>_.
         bindM (rd16 E setup_address) (\<lambda>retry_abort_status.
         bindM (print_status E T ''retry command abort'' retry_abort_status) (\<lambda>_.
         check E T ''retry command can be aborted without programming'' (retry_abort_status AND STATUS_ABORT_ERRORS = STATUS_ABORT_ERRORS)))))) (\<lambda>_.
      seqM [wr16 E setup_address 0x50, wr16 E setup_address 0xFF, wr16 E abort_address 0x50, wr16 E abort_address 0xFF]))))))))))))))))))"

definition print_setup :: "'h env \<Rightarrow> printer \<Rightarrow> flash_device \<Rightarrow> flash_block_t \<Rightarrow> u16 \<Rightarrow> u32 \<Rightarrow> u32 \<Rightarrow> u32 \<Rightarrow> u32 \<Rightarrow>
    (('h, 'z) tested_scheme, unit) cmd" where
  "print_setup E T flash block program_command setup_address abort_address requested_words abort_writes =
     seqM [printf E (format T) ''# vendor/device ID: %04lX:%04lX\<newline>'' [Num (manufacturer flash), Num (device flash)],
           printf E (format T) ''# CFI buffer size: %u bytes\<newline>'' [Num (write_buffer_size flash)],
           printf E (format T) ''# erase block size: %u bytes\<newline>'' [Num (blk_size block)],
           printf E (format T) ''# buffered-program command: %02X\<newline>'' [Num (ucast program_command)],
           bindM (rd E EBU_CLC) (\<lambda>clc. bindM (rd E (EBU_ADDRSEL (flash_cs flash))) (\<lambda>sel. bindM (rd E (EBU_BUSCON (flash_cs flash))) (\<lambda>con.
             printf E (format T) ''# EBU: CLC=%08X ADDRSEL=%08X BUSCON=%08X\<newline>'' [Num clc, Num sel, Num con]))),
           printf E (format T) ''# setup address: %08X\<newline>'' [Num setup_address],
           printf E (format T) ''# abort address: %08X\<newline>'' [Num abort_address],
           printf E (format T) ''# x16 words requested: %u\<newline>'' [Num requested_words],
           printf E (format T) ''# abort x32 writes performed: %u\<newline>'' [Num abort_writes]]"

text \<open>The check that a range is blank and that a word is erased, which the program makes at three points.\<close>

definition check_blank :: "'h env \<Rightarrow> printer \<Rightarrow> string \<Rightarrow> u32 \<Rightarrow> u32 \<Rightarrow> (('h, 'z) tested_scheme, bool) cmd" where
  "check_blank E T name address sz = bindM (range_is_blank E address sz) (test_check E T name)"

definition check_erased :: "'h env \<Rightarrow> printer \<Rightarrow> string \<Rightarrow> u32 \<Rightarrow> (('h, 'z) tested_scheme, unit) cmd" where
  "check_erased E T name address = bindM (rd16 E address) (\<lambda>v. eq_u32 E T name 0xFFFF (ucast v))"

definition lock_bits :: "'h env \<Rightarrow> u32 \<Rightarrow> (('h, 'z) machine_scheme, u16) cmd" where
  "lock_bits E address = mapM (\<lambda>v. v AND 3) (cfi_read_lock_status E address)"

text \<open>The end of \<^verbatim>\<open>main\<close>: the lock state is restored, and both blocks are compared with what they were.\<close>

definition restore_phase :: "'h env \<Rightarrow> printer \<Rightarrow> flash_device \<Rightarrow> flash_block_t \<Rightarrow> flash_block_t \<Rightarrow> u32 \<Rightarrow> u32 \<Rightarrow>
    u16 \<Rightarrow> u16 \<Rightarrow> u32 \<Rightarrow> u32 \<Rightarrow> (('h, 'z) crc_tested_scheme, u32) cmd" where
  "restore_phase E T flash block neighbor setup_address abort_address initial_lock neighbor_lock test_crc neighbor_crc =
     bindM (seqM [wr16 E setup_address 0x50, wr16 E setup_address 0xFF]) (\<lambda>_.
     bindM (if initial_lock \<noteq> 0 then cfi_lock_block E (blk_base block) False else cfi_unlock_block E (blk_base block) False) (\<lambda>restore_status.
     bindM (seqM [print_status E T ''lock restore status'' restore_status,
       check E T ''lock-state restore completes without errors'' (clean restore_status),
       bindM (lock_bits E (blk_base block)) (\<lambda>v. eq_u32 E T ''test block lock state is restored'' (ucast initial_lock) (ucast v)),
       bindM (lock_bits E (blk_base neighbor)) (\<lambda>v. eq_u32 E T ''neighbor block lock state is preserved'' (ucast neighbor_lock) (ucast v)),
       cfi_enter_read_array E (blk_base block), cfi_enter_read_array E (blk_base neighbor)]) (\<lambda>_.
     bindM (crc32_block E (blk_base block) (blk_size block)) (\<lambda>test_crc_after.
     bindM (crc32_block E (blk_base neighbor) (blk_size neighbor)) (\<lambda>neighbor_crc_after.
     bindM (seqM [printf E (format T) ''# CRC after: test=%08lX neighbor=%08lX\<newline>'' [Num test_crc_after, Num neighbor_crc_after],
       eq_u32 E T ''test block CRC is preserved'' test_crc test_crc_after,
       eq_u32 E T ''neighbor block CRC is preserved'' neighbor_crc neighbor_crc_after,
       mapM (\<lambda>_. ()) (check_blank E T ''cleanup leaves the setup buffer blank'' setup_address (write_buffer_size flash)),
       check_erased E T ''cleanup leaves the abort word erased'' abort_address]) (\<lambda>_.
     test_finish E T))))))"

text \<open>The trace itself, and what the program does when a word was programmed after all.\<close>

definition abort_phase :: "'h env \<Rightarrow> printer \<Rightarrow> flash_device \<Rightarrow> flash_block_t \<Rightarrow> flash_block_t \<Rightarrow> u16 \<Rightarrow> u32 \<Rightarrow> u32 \<Rightarrow>
    (('h, 'z) tested_scheme, unit) cmd" where
  "abort_phase E T flash block neighbor program_command abort_writes setup_address =
     bindM (seqM [test_category E T ''Out-of-block buffered program abort'',
       test_abort_trace E T flash program_command abort_writes setup_address block,
       cfi_enter_read_array E (blk_base block), cfi_enter_read_array E (blk_base neighbor)]) (\<lambda>_.
     bindM (check_blank E T ''unconfirmed buffered data is not programmed'' setup_address (write_buffer_size flash)) (\<lambda>test_preserved.
     bindM (check_erased E T ''abort write preserves its target word'' (setup_address XOR blk_size block)) (\<lambda>_.
     whenM (\<not> test_preserved)
       (seqM [test_category E T ''Emergency cleanup'',
              bindM (emergency_cleanup E T flash block) (check E T ''emergency erase leaves the test block blank'')]))))"

definition destructive_test :: "'h env \<Rightarrow> printer \<Rightarrow> flash_device \<Rightarrow> flash_block_t \<Rightarrow> flash_block_t \<Rightarrow> (('h, 'z) crc_tested_scheme, u32) cmd" where
  "destructive_test E T flash block neighbor =
     (let setup_address = blk_base block + select_setup_offset flash block;
          abort_address = setup_address XOR blk_size block;
          requested_words = write_buffer_size flash div 2;
          full_writes = write_buffer_size flash div 4;
          abort_writes = (if full_writes > TRACE_ABORT_X32_WRITES then TRACE_ABORT_X32_WRITES else full_writes - 1) in
      bindM (buffered_program_command E flash) (\<lambda>supported. case supported of
        None \<Rightarrow> skip_destructive_test E T ''unsupported CFI primary command set''
      | Some program_command \<Rightarrow>
      bindM (print_setup E T flash block program_command setup_address abort_address requested_words abort_writes) (\<lambda>_.
      bindM (test_category E T ''Safety checks'') (\<lambda>_.
      bindM (lock_bits E (blk_base block)) (\<lambda>initial_lock.
      bindM (lock_bits E (blk_base neighbor)) (\<lambda>neighbor_lock.
      bindM (cfi_enter_read_array E (blk_base block)) (\<lambda>_.
      bindM (crc32_block E (blk_base block) (blk_size block)) (\<lambda>test_crc.
      bindM (crc32_block E (blk_base neighbor) (blk_size neighbor)) (\<lambda>neighbor_crc.
      bindM (printf E (format T) ''# CRC before: test=%08lX neighbor=%08lX\<newline>'' [Num test_crc, Num neighbor_crc]) (\<lambda>_.
      bindM (check_blank E T ''setup buffer is blank before abort trace'' setup_address (write_buffer_size flash)) (\<lambda>_.
      bindM (check_erased E T ''abort word is erased before abort trace'' abort_address) (\<lambda>_.
      bindM (cfi_unlock_block E (blk_base block) False) (\<lambda>unlock_status.
      bindM (print_status E T ''block unlock status'' unlock_status) (\<lambda>_.
      bindM (if clean unlock_status then mapM (\<lambda>v. v = 0) (lock_bits E (blk_base block)) else retM False) (\<lambda>unlocked.
      bindM (check E T ''test block is unlocked before abort trace'' unlocked) (\<lambda>_.
      if \<not> unlocked then
        bindM (whenM (bit initial_lock 0) (mapM (\<lambda>_. ()) (cfi_lock_block E (blk_base block) False))) (\<lambda>_.
        skip_destructive_test E T ''test block did not pass pre-abort safety checks'')
      else
        bindM (abort_phase E T flash block neighbor program_command abort_writes setup_address) (\<lambda>_.
        restore_phase E T flash block neighbor setup_address abort_address initial_lock neighbor_lock test_crc neighbor_crc)))))))))))))))))"

definition abort_main :: "'h env \<Rightarrow> printer \<Rightarrow> (('h, 'z) crc_tested_scheme, u32) cmd" where
  "abort_main E T =
     bindM (test_start E T ''CFI buffered program abort test'') (\<lambda>_.
     bindM (wr E EBU_CLC (push_bit MOD_CLC_RMC_SHIFT 1)) (\<lambda>_.
     bindM (find_blank_test_block E T) (\<lambda>found. case found of
       None \<Rightarrow> skip_destructive_test E T ''no suitable blank non-lock-down erase block was found''
     | Some (flash, block, neighbor) \<Rightarrow> destructive_test E T flash block neighbor)))"

section \<open>The checksum is the one of the preloader\<close>

lemma crc32_table_bit_eq: "crc32_table_bit = crc32_bit"
proof
  fix v :: u32
  have "0 - (v AND 1) = (if bit v 0 then NOT 0 else 0)" by (simp add: and_one_eq bit_0 odd_iff_mod_2_eq_one)
  then show "crc32_table_bit v = crc32_bit v" by (simp add: crc32_table_bit_def crc32_bit_alt xor.commute)
qed

lemma foldl_table:
  "n \<le> 256 \<Longrightarrow> foldl (\<lambda>t i. t(of_nat i := f i)) t [0..<n] = (\<lambda>b :: u8. if unat b < n then f (unat b) else t b)"
proof (induction n)
  case (Suc n)
  then have n: "unat (of_nat n :: u8) = n" by (simp add: unat_of_nat)
  have "b = of_nat n \<longleftrightarrow> unat b = n" for b :: u8 using n by (auto simp: word_unat_eq_iff)
  with Suc show ?case by (auto simp: fun_eq_iff less_Suc_eq)
qed simp

lemma crc32_table_fill_eq: "crc32_table_fill table = (\<lambda>b. (crc32_bit ^^ 8) (ucast b))"
proof -
  have "unat b < 256" for b :: u8 using unsigned_less [of b, where 'a = nat] by simp
  then show ?thesis
    unfolding crc32_table_fill_def crc32_table_bit_eq by (subst foldl_table) (simp_all add: fun_eq_iff del: funpow.simps)
qed

lemma crc32_table_step:
  "(crc32_bit ^^ 8) (ucast (ucast ((c XOR v) AND 0xFF) :: u8)) XOR drop_bit 8 c = crc32_byte c (ucast v)"
proof -
  have ff: "(0xFF :: u32) = mask 8" by (simp add: mask_eq_exp_minus_1)
  have low: "ucast (ucast ((c XOR v) AND 0xFF) :: u8) = (c XOR v) AND (0xFF :: u32)"
    unfolding ff by (rule bit_word_eqI) (auto simp: bit_simps)
  have split: "c XOR ucast (ucast v :: u8) = ((c XOR v) AND 0xFF) XOR (c AND NOT 0xFF)"
    unfolding ff by (rule bit_word_eqI) (auto simp: bit_simps)
  have "(crc32_bit ^^ 8) (c AND NOT 0xFF) = drop_bit 8 (c AND NOT 0xFF)"
    unfolding ff by (rule crc32_bits_shift) (auto simp: bit_simps)
  also have "\<dots> = drop_bit 8 c" unfolding ff by (rule bit_word_eqI) (auto simp: bit_simps dest: bit_imp_le_length)
  finally show ?thesis unfolding crc32_byte_def split low crc32_bits_xor by simp
qed

lemma crc32_word_loop_eq:
  "crc32_word_loop n (crc32_table_fill t) c v = crc32_update c (le_bytes n v)"
proof (induction n arbitrary: c v)
  case (Suc n)
  have "le_bytes (Suc n) v = ucast v # le_bytes n (drop_bit 8 v)"
    by (simp add: le_bytes_def upt_rec [of 0 "Suc n"] map_Suc_upt [symmetric] drop_bit_drop_bit comp_def add.commute del: upt_Suc)
  with Suc show ?case
    using crc32_table_step [of c v] by (simp add: crc32_table_fill_eq crc32_update_def del: funpow.simps)
qed (simp add: crc32_update_def le_bytes_def)

text \<open>What the program keeps between two checksums: the table, once it is filled.\<close>

definition table_state :: "('h, 'z) crc_tested_scheme \<Rightarrow> (u8 \<Rightarrow> u32) \<times> bool" where
  "table_state s = (crc32_table s, crc32_table_ready s)"

definition valid_table :: "('h, 'z) crc_tested_scheme \<Rightarrow> bool" where
  "valid_table s \<longleftrightarrow> (crc32_table_ready s \<longrightarrow> crc32_table s = crc32_table_fill (\<lambda>_. 0))"

interpretation table: suite_observer "table_state :: ('h, 'z) crc_tested_scheme \<Rightarrow> (u8 \<Rightarrow> u32) \<times> bool"
  by unfold_locales (simp_all add: table_state_def)

lemma same_timeout: "table.same (wdt_set_max_execution_time E ms)" "table.same (test_watchdog_reset E)" "table.same (test_watchdog_serve E)"
proof -
  show w: "table.same (wdt_set_max_execution_time E ms)" for ms
    unfolding wdt_set_max_execution_time_def
    by (intro table.same_intros does_mono [OF table.silent_stopwatch_get] does_mod) (simp_all add: table_state_def)
  show "table.same (test_watchdog_reset E)" "table.same (test_watchdog_serve E)"
    unfolding test_watchdog_reset_def reset_timeout_def test_watchdog_serve_def
    by (intro table.same_seq does_mono [OF table.silent_stopwatch_update] w table.same_wdt_serve; simp)+
qed

text \<open>The words \<open>ws\<close> of the range at \<open>a\<close>, as the accesses \<open>tr\<close> have read them.\<close>

definition read_words_at :: "access list \<Rightarrow> u32 \<Rightarrow> nat \<Rightarrow> u32 list \<Rightarrow> bool" where
  "read_words_at tr a j ws \<longleftrightarrow> (\<forall>i < length ws. Rd W32 (a + of_nat (4 * (j + i))) (ws ! i) \<in> set tr)"

lemma read_words_at_Cons:
  "read_words_at tr a (Suc j) ws \<Longrightarrow> read_words_at (Rd W32 (a + 4 * of_nat j) w # t1 @ tr) a j (w # ws)"
  unfolding read_words_at_def by (auto simp: less_Suc_eq_0_disj algebra_simps)

lemma does_crc32_loop:
  fixes E :: "'h env"
  assumes "unat sz \<le> 2 ^ 32 - 4" "4 * j < unat sz + 4"
  shows "does table_state (crc32_block_loop n E a sz (of_nat (4 * j)) crc :: (('h, 'z) crc_tested_scheme, u32) cmd)
    (\<lambda>r tr u v. v = u \<and> (fst u = crc32_table_fill (\<lambda>_. 0) \<longrightarrow>
      (\<exists>ws. j + length ws = (unat sz + 3) div 4 \<and> read_words_at tr a j ws \<and> r = crc32_update crc (concat (map (le_bytes 4) ws)))))"
  using assms(2)
proof (induction n arbitrary: j crc)
  case (Suc n)
  have j: "unat (of_nat (4 * j) :: u32) = 4 * j"
    using Suc.prems assms(1) by (simp add: unat_of_nat del: of_nat_mult)
  let ?P = "\<lambda>j crc r tr u v. v = u \<and> (fst u = crc32_table_fill (\<lambda>_. 0) \<longrightarrow>
      (\<exists>ws. j + length ws = (unat sz + 3) div 4 \<and> read_words_at tr a j ws \<and> r = crc32_update crc (concat (map (le_bytes 4) ws))))"
  show ?case
  proof (cases "4 * j < unat sz")
    case True
    then have lt: "of_nat (4 * j) < sz" by (simp only: word_less_nat_alt j)
    have next_word: "of_nat (4 * j) + 4 = (of_nat (4 * (j + 1)) :: u32)" by simp
    have IH: "does table_state (crc32_block_loop n E a sz (of_nat (4 * (j + 1))) crc :: (('h, 'z) crc_tested_scheme, u32) cmd) (?P (j + 1) crc)" for crc
      using True by (intro Suc.IH) simp
    have serve: "table.same (whenM (of_nat (4 * j) AND 0xFF = (0 :: u32)) (test_watchdog_serve E) :: (('h, 'z) crc_tested_scheme, unit) cmd)"
      by (intro table.same_when same_timeout)
    have get: "does table_state (getM crc32_table :: (('h, 'z) crc_tested_scheme, u8 \<Rightarrow> u32) cmd) (\<lambda>t tr u v. tr = [] \<and> v = u \<and> t = fst u)"
      by (rule does_get) (simp add: table_state_def)
    have more: "\<exists>ws. j + length ws = (unat sz + 3) div 4 \<and> read_words_at (Rd W32 (a + 4 * of_nat j) w # t1 @ t2) a j ws \<and>
        crc32_update (crc32_word_loop 4 (crc32_table_fill (\<lambda>_. 0)) crc w) (concat (map (le_bytes 4) ws')) =
        crc32_update crc (concat (map (le_bytes 4) ws))"
      if "Suc (j + length ws') = (unat sz + 3) div 4" "read_words_at t2 a (Suc j) ws'" for w t1 t2 ws'
      using that by (intro exI [of _ "w # ws'"]) (auto simp: crc32_word_loop_eq crc32_update_def read_words_at_Cons)
    show ?thesis
      unfolding crc32_block_loop.simps next_word
      by (simp only: lt not_True_eq_False if_False, rule does_bind [OF table.does_logs [OF logs_read [where P = "\<lambda>w tr. tr = [Rd W32 (a + of_nat (4 * j)) w]"]]],
          simp, rule does_bind [OF get], rule does_bind [OF serve], rule does_mono [OF IH]) (use more in auto)
  next
    case False
    then have "\<not> of_nat (4 * j) < sz" by (simp only: word_less_nat_alt j) simp
    then show ?thesis using False Suc.prems by (auto intro!: does_ret exI [of _ "[]"] simp: read_words_at_def crc32_update_def)
  qed
qed (simp add: does_fail)

lemma does_crc32_block:
  fixes E :: "'h env"
  assumes "unat sz \<le> 2 ^ 32 - 4"
  shows "does table_state (crc32_block E a sz :: (('h, 'z) crc_tested_scheme, u32) cmd)
    (\<lambda>r tr u v. (snd u \<longrightarrow> fst u = crc32_table_fill (\<lambda>_. 0)) \<longrightarrow> v = (crc32_table_fill (\<lambda>_. 0), True) \<and>
      (\<exists>ws. length ws = (unat sz + 3) div 4 \<and> read_words_at tr a 0 ws \<and> r = NOT (crc32_update 0xFFFFFFFF (concat (map (le_bytes 4) ws)))))"
proof -
  let ?T = "crc32_table_fill (\<lambda>_. 0)"
  have loop: "does table_state (crc32_block_loop n E a sz 0 c :: (('h, 'z) crc_tested_scheme, u32) cmd) (\<lambda>r tr u v. v = u \<and> (fst u = ?T \<longrightarrow>
      (\<exists>ws. length ws = (unat sz + 3) div 4 \<and> read_words_at tr a 0 ws \<and> r = crc32_update c (concat (map (le_bytes 4) ws)))))" for n c
    using does_crc32_loop [OF assms, of 0] by simp
  have ready: "does table_state (bindM (getM crc32_table_ready) (\<lambda>ready.
       whenM (\<not> ready) (modM (\<lambda>s. s\<lparr>crc32_table := crc32_table_fill (crc32_table s), crc32_table_ready := True\<rparr>))) :: (('h, 'z) crc_tested_scheme, unit) cmd)
      (\<lambda>_ tr u v. tr = [] \<and> ((snd u \<longrightarrow> fst u = ?T) \<longrightarrow> v = (?T, True)))"
    by (auto simp: does_def wp table_state_def crc32_table_fill_eq whenM_def)
  have block: "crc32_block E a sz = (bindM (bindM (getM crc32_table_ready) (\<lambda>ready.
       whenM (\<not> ready) (modM (\<lambda>s. s\<lparr>crc32_table := crc32_table_fill (crc32_table s), crc32_table_ready := True\<rparr>)))) (\<lambda>_.
     bindM (wdt_set_max_execution_time E OPERATION_TIMEOUT_MS) (\<lambda>_.
     bindM (crc32_block_loop (unat sz div 4 + 2) E a sz 0 0xFFFFFFFF) (\<lambda>crc.
     bindM (test_watchdog_reset E) (\<lambda>_. retM (NOT crc))))) :: (('h, 'z) crc_tested_scheme, u32) cmd)"
    by (simp add: crc32_block_def bindM_assoc)
  show ?thesis
    unfolding block
    by (rule does_bind [OF ready], rule does_bind [OF same_timeout(1)], rule does_bind [OF loop],
        rule does_bind [OF same_timeout(2)], rule does_ret) (auto simp: read_words_at_def)
qed

lemma smooth_timeout: "smooth (wdt_set_max_execution_time E ms)" "smooth (test_watchdog_serve E)"
  unfolding wdt_set_max_execution_time_def test_watchdog_serve_def by (intro runs_seq smooth_bind smooth_clock smooth_serve runs_simple; simp)+

lemma smooth_crc32_block:
  assumes "unat sz \<le> 2 ^ 32 - 4"
  shows "smooth (crc32_block E a sz)"
proof -
  have loop: "smooth (crc32_block_loop (unat sz div 4 + 2) E a sz 0 c)" for c
    by (rule word_rounds [where P = "\<lambda>n off c. smooth (crc32_block_loop n E a sz off c)" and sz = sz, OF _ assms], unfold crc32_block_loop.simps)
       (intro smooth_intros smooth_timeout runs_simple, simp_all)
  show ?thesis
    unfolding crc32_block_def by (intro smooth_intros smooth_timeout loop runs_simple) simp_all
qed

text \<open>
  C15. The checksum of a flash block, which the abort test computes with a table of 256 entries, is the CRC-32 that the preloader
  computes bit by bit: of the bytes of all words of the block, as they were read from the flash, in order and starting with the
  least significant byte of each word, inverted at the end. The table is filled once and stays valid for later calls.
  The call returns on every device when the watchdog is off.
\<close>

theorem crc32_block_reference:
  assumes "valid_table s" "4 dvd unat sz" "unat sz \<le> 2 ^ 32 - 4"
  shows "(wdt_off s \<longrightarrow> (\<exists>crc t. crc32_block E a sz s = Inr (crc, t))) \<and>
    (\<forall>crc t. crc32_block E a sz s = Inr (crc, t) \<longrightarrow> valid_table t \<and> crc32_table_ready t \<and>
      (\<exists>tr ws. trace t = trace s @ tr \<and> 4 * length ws = unat sz \<and>
        (\<forall>i < length ws. Rd W32 (a + of_nat (4 * i)) (ws ! i) \<in> set tr) \<and>
        crc = NOT (crc32_update CRC32_INITIAL_VALUE (concat (map (le_bytes 4) ws)))))"
proof (intro conjI impI allI)
  show "\<exists>crc t. crc32_block E a sz s = Inr (crc, t)" if "wdt_off s"
    using runsD [OF smooth_crc32_block [OF assms(3)] that] by blast
next
  fix crc t assume "crc32_block E a sz s = Inr (crc, t)"
  from doesD [OF does_crc32_block [OF assms(3)] this] assms(1)
  have *: "table_state t = (crc32_table_fill (\<lambda>_. 0), True)"
    "\<exists>tr ws. trace t = trace s @ tr \<and> length ws = (unat sz + 3) div 4 \<and> read_words_at tr a 0 ws \<and>
       crc = NOT (crc32_update 0xFFFFFFFF (concat (map (le_bytes 4) ws)))"
    by (auto simp: table_state_def valid_table_def)
  show "valid_table t" "crc32_table_ready t" using *(1) by (simp_all add: table_state_def valid_table_def)
  have "4 * ((unat sz + 3) div 4) = unat sz" using assms(2) by (auto elim!: dvdE)
  with *(2) show "\<exists>tr ws. trace t = trace s @ tr \<and> 4 * length ws = unat sz \<and>
      (\<forall>i < length ws. Rd W32 (a + of_nat (4 * i)) (ws ! i) \<in> set tr) \<and>
      crc = NOT (crc32_update CRC32_INITIAL_VALUE (concat (map (le_bytes 4) ws)))"
    unfolding read_words_at_def by fastforce
qed

definition crc_bench :: "unit crc_tested" where
  "crc_bench = \<lparr>hw = (), trace = [], cpsr = 0, ram = (\<lambda>_. 0), ticks_per_s = 0, start_execution = 0, wdt_timeout = 0,
     last_wdt_serve = 0, wdt_interval = 0, wdt_off = True, assertions = 0, failures = 0, fault_recovery_armed = False,
     fault_nesting = 0, last_heartbeat = 0, crc32_table = (\<lambda>_. 0), crc32_table_ready = False\<rparr>"

theorem crc32_block_reference_witness:
  "\<exists>crc t tr ws. crc32_block ready_chip 0xA0000000 8 crc_bench = Inr (crc, t) \<and> valid_table t \<and> length ws = 2 \<and>
     crc = NOT (crc32_update CRC32_INITIAL_VALUE (concat (map (le_bytes 4) ws)))"
proof -
  have "valid_table crc_bench" by (simp add: valid_table_def crc_bench_def)
  from crc32_block_reference [OF this, of 8 ready_chip "0xA0000000"] show ?thesis by (force simp: crc_bench_def)
qed

section \<open>The erase block of an address\<close>

text \<open>An address lies in the block.\<close>

definition in_blk :: "flash_block_t \<Rightarrow> u32 \<Rightarrow> bool" where
  "in_blk B a \<longleftrightarrow> a - blk_base B < blk_size B"

lemma find_block_loop_correct:
  assumes "tiled flash" "\<forall>r \<in> set (erase flash). block_size r \<noteq> 0"
    and "k + n = unat (regions flash)" "region_start flash k \<le> unat (a - flash_base flash)" "rb = flash_base flash + of_nat (region_start flash k)"
  shows "\<exists>r. find_block_loop n k flash a rb = Inr r \<and> (case r of
      None \<Rightarrow> region_start flash (unat (regions flash)) \<le> unat (a - flash_base flash)
    | Some B \<Rightarrow> unat (a - flash_base flash) < region_start flash (unat (regions flash)) \<and>
        block_at flash (unat (blk_base B - flash_base flash)) (unat (blk_size B)) \<and> in_blk B a)"
  using assms(3-5)
proof (induction n arbitrary: k rb)
  case (Suc n)
  let ?r = "erase flash ! k" and ?off = "a - flash_base flash" and ?rs = "region_start flash k"
  have k: "k < length (erase flash)" "k < unat (regions flash)" using assms(1) Suc.prems(1) by (auto simp: tiled_def)
  then have bs: "0 < unat (block_size ?r)" using assms(2) by (auto simp: unat_gt_0)
  have top: "region_start flash (Suc k) \<le> region_start flash (unat (regions flash))" using k by (intro region_start_mono) simp
  then have fits: "?rs + unat (blocks ?r) * unat (block_size ?r) \<le> 2 ^ 27"
    using assms(1) region_start_Suc [OF k(1)] by (simp add: tiled_def region_bytes_def)
  have start: "unat (of_nat ?rs :: u32) = ?rs" using fits by (simp add: unat_of_nat)
  have size: "unat (blocks ?r * block_size ?r) = unat (blocks ?r) * unat (block_size ?r)"
    using fits by (simp add: unat_word_ariths)
  then have whole: "blocks ?r * block_size ?r div block_size ?r = blocks ?r" using bs by (simp add: word_unat_eq_iff unat_div)
  have behind: "unat (of_nat ?rs + blocks ?r * block_size ?r) = region_start flash (Suc k)"
    using fits size start region_start_Suc [OF k(1)] by (subst unat_sum) (simp_all add: region_bytes_def)
  have nonzero: "block_size ?r \<noteq> 0" using bs by auto
  have before: "?off < rb - flash_base flash + blocks ?r * block_size ?r \<longleftrightarrow> unat ?off < region_start flash (Suc k)"
    unfolding word_less_nat_alt Suc.prems(3) behind [symmetric] by simp
  show ?case
  proof (cases "unat ?off < region_start flash (Suc k)")
    case True
    let ?d = "a - rb"
    have d: "unat ?d = unat ?off - ?rs"
      using Suc.prems(2,3) start by (simp add: unat_sub word_le_nat_alt diff_diff_eq [symmetric])
    let ?b = "unat ?d div unat (block_size ?r)"
    have b: "?b < unat (blocks ?r)"
      using True d region_start_Suc [OF k(1)] Suc.prems(2) bs by (simp add: region_bytes_def div_less_iff_less_mult)
    have part: "unat (?d div block_size ?r * block_size ?r) = ?b * unat (block_size ?r)"
      using le_less_trans [OF div_times_less_eq_dividend [of "unat ?d" "unat (block_size ?r)"] unsigned_less [of ?d, where 'a = nat]]
      by (simp add: unat_word_ariths(2) unat_div)
    let ?B = "\<lparr>blk_base = rb + ?d div block_size ?r * block_size ?r, blk_size = block_size ?r\<rparr>"
    have "?b * unat (block_size ?r) \<le> unat ?off - ?rs" unfolding d [symmetric] by (rule div_times_less_eq_dividend)
    then have "?b * unat (block_size ?r) + ?rs \<le> unat ?off" using Suc.prems(2) by (simp only: Nat.le_diff_conv2)
    from le_less_trans [OF this unsigned_less] have room: "?rs + ?b * unat (block_size ?r) < 2 ^ 32"
      by (simp only: add.commute len_num0 len_bit0 len_num1 len_bit1) simp
    define X where "X = ?d div block_size ?r * block_size ?r"
    have off: "rb + X - flash_base flash = of_nat ?rs + X" using Suc.prems(3) by simp
    have "unat (of_nat ?rs + X) = ?rs + ?b * unat (block_size ?r)"
      using room part start unat_sum [of "of_nat ?rs" X] unfolding X_def by simp
    then have "unat (blk_base ?B - flash_base flash) = ?rs + ?b * unat (block_size ?r)"
      unfolding flash_block_t.simps X_def [symmetric] off .
    then have "block_at flash (unat (blk_base ?B - flash_base flash)) (unat (blk_size ?B))"
      unfolding block_at_def using k(2) b by auto
    moreover have "in_blk ?B a"
    proof -
      have "a - blk_base ?B = ?d - ?d div block_size ?r * block_size ?r" by (simp add: diff_diff_eq)
      also have "\<dots> = ?d mod block_size ?r" by (rule minus_div_mult_eq_mod)
      finally have "a - blk_base ?B = ?d mod block_size ?r" .
      then show ?thesis using bs by (simp add: in_blk_def word_less_nat_alt unat_mod)
    qed
    moreover have "find_block_loop (Suc n) k flash a rb = Inr (Some ?B)"
      unfolding find_block_loop.simps Let_def using True k nonzero whole before by simp
    ultimately show ?thesis using True top by (intro exI [of _ "Some ?B"]) simp
  next
    case False
    have "find_block_loop (Suc n) k flash a rb = find_block_loop n (Suc k) flash a (rb + blocks ?r * block_size ?r)"
      using False k nonzero whole before by (simp add: Let_def)
    moreover have "rb + blocks ?r * block_size ?r = flash_base flash + of_nat (region_start flash (Suc k))"
      unfolding behind [symmetric] by (simp add: Suc.prems(3) add.assoc)
    ultimately show ?thesis using Suc.IH [of "Suc k"] Suc.prems(1) False by simp
  qed
qed simp

text \<open>
  C16. The search for the erase block of an address, on a chip whose erase regions fit its size: it returns the erase block of the chip in which the address lies,
  for every address of the regions, and finds nothing for every other address. It never looks at a region the chip does not have.
\<close>

theorem find_block_correct:
  assumes "tiled flash" "\<forall>r \<in> set (erase flash). block_size r \<noteq> 0"
  shows "\<exists>r. find_block flash a = Inr r \<and> (case r of
      None \<Rightarrow> a < flash_base flash \<or> region_start flash (unat (regions flash)) \<le> unat (a - flash_base flash)
    | Some B \<Rightarrow> flash_base flash \<le> a \<and> unat (a - flash_base flash) < region_start flash (unat (regions flash)) \<and>
        block_at flash (unat (blk_base B - flash_base flash)) (unat (blk_size B)) \<and> a - blk_base B < blk_size B)"
proof (cases "a < flash_base flash \<or> a - flash_base flash \<ge> flash_size flash")
  case True
  moreover have "region_start flash (unat (regions flash)) \<le> unat (flash_size flash)" using assms(1) by (simp add: tiled_def)
  ultimately show ?thesis by (auto simp: find_block_def word_le_nat_alt)
next
  case False
  have "region_start flash 0 = 0" by (simp add: region_start_def)
  then obtain r where r: "find_block_loop (unat (regions flash)) 0 flash a (flash_base flash) = Inr r"
    "case r of None \<Rightarrow> region_start flash (unat (regions flash)) \<le> unat (a - flash_base flash)
    | Some B \<Rightarrow> unat (a - flash_base flash) < region_start flash (unat (regions flash)) \<and>
        block_at flash (unat (blk_base B - flash_base flash)) (unat (blk_size B)) \<and> in_blk B a"
    using find_block_loop_correct [OF assms, of 0 "unat (regions flash)" a "flash_base flash"] by auto
  then show ?thesis using False by (auto simp: find_block_def in_blk_def split: option.splits)
qed

theorem find_block_correct_witness:
  "find_block small_flash 0xA0000234 = Inr (Some \<lparr>blk_base = 0xA0000200, blk_size = 0x100\<rparr>) \<and> block_at small_flash 0x200 0x100"
proof -
  have "\<forall>r \<in> set (erase small_flash). block_size r \<noteq> 0" by (simp add: small_flash_def)
  note fact = find_block_correct [OF small_flash_tiled this, of "0xA0000234"]
  have "find_block small_flash 0xA0000234 = Inr (Some \<lparr>blk_base = 0xA0000200, blk_size = 0x100\<rparr>)" by code_simp
  with fact show ?thesis by (simp add: small_flash_def)
qed

end
