(* ===== verification/Cfi_Abort_Safe.thy ===== *)
theory Cfi_Abort_Safe
  imports Cfi_Abort
begin

text \<open>
  Why the abort test is safe to run: whatever the chip answers, no word is ever programmed, and only the block that was read as blank
  is unlocked, locked or, in an emergency, erased.
\<close>

section \<open>The chip and its write buffer\<close>

text \<open>
  The chip between two words: ready for a command, after the first word of a two-word command, after the setup word of a buffer, or
  filling the buffer, with the number of words still to come. A buffer program is dropped when a word leaves the erase block in which the program was
  set up, and when the word behind the buffer is not the confirmation. The block of interest is a parameter, and
  an address is distinguished only by whether it lies in that block.
\<close>

datatype chip = Ready | Setup u32 | Setup_Buffer u32 | Filling u32 nat "(u32 \<times> u32) list"

fun chip_step :: "flash_block_t \<Rightarrow> chip \<Rightarrow> u32 \<times> u32 \<Rightarrow> chip \<times> flash_op list" where
  "chip_step B Ready (a, c) =
     (if c = 0xE8 \<or> c = 0xE9 then (Setup_Buffer a, [])
      else case one_cycle a c of Some op \<Rightarrow> (Ready, [op]) | None \<Rightarrow> (Setup c, []))"
| "chip_step B (Setup c) (a, v) = (Ready, case two_cycle c a v of Some op \<Rightarrow> [op] | None \<Rightarrow> [])"
| "chip_step B (Setup_Buffer b) (a, v) = (if in_blk B a = in_blk B b then Filling b (unat v + 1) [] else Ready, [])"
| "chip_step B (Filling b 0 ds) (a, v) = (Ready, if in_blk B a = in_blk B b \<and> v = 0xD0 then [Program_Buffer ds] else [])"
| "chip_step B (Filling b (Suc n) ds) (a, v) = (if in_blk B a = in_blk B b then Filling b n (ds @ [(a, v)]) else Ready, [])"

primrec chip_run :: "flash_block_t \<Rightarrow> chip \<Rightarrow> (u32 \<times> u32) list \<Rightarrow> chip \<times> flash_op list" where
  "chip_run B c [] = (c, [])"
| "chip_run B c (w # ws) = (let (c', ops) = chip_step B c w; (c'', ops') = chip_run B c' ws in (c'', ops @ ops'))"

lemma chip_run_append:
  "chip_run B c (xs @ ys) = (let (c', ops) = chip_run B c xs; (c'', ops') = chip_run B c' ys in (c'', ops @ ops'))"
  by (induction xs arbitrary: c) (simp_all add: Let_def split: prod.splits)

text \<open>Without a buffer, the chip understands what \<^const>\<open>decodes\<close> says.\<close>

definition no_buffer :: "flash_op \<Rightarrow> bool" where
  "no_buffer op = (case op of Program_Buffer ws \<Rightarrow> False | _ \<Rightarrow> True)"

lemma decodes_chip: "decodes ws ops \<Longrightarrow> list_all no_buffer ops \<Longrightarrow> chip_run B Ready ws = (Ready, ops)"
proof (induction rule: decodes.induct)
  case (one a c op ws ops)
  then show ?case using setup_buffer [of c a] by auto
next
  case (two c b v op ws ops a)
  then show ?case using setup_two [OF two.hyps(1), of a] by simp
next
  case (buffer c ds v ws ops a b d)
  then show ?case by (simp add: no_buffer_def)
qed simp

section \<open>Where the test writes\<close>

lemma power_of_two_word:
  assumes "x AND (x - 1) = (0 :: u32)" "x \<noteq> 0"
  obtains n where "n < 32" "x = 2 ^ n"
proof -
  have "1 \<le> unat x" using assms(2) by (simp add: unat_gt_0 Suc_le_eq)
  then obtain n where n: "2 ^ n \<le> unat x" "unat x < 2 ^ (n + 1)" using ex_power_ivl1 [of 2 "unat x"] by auto
  have n32: "n < 32"
  proof (rule ccontr)
    assume "\<not> n < 32"
    then have "(2 :: nat) ^ 32 \<le> 2 ^ n" by (intro power_increasing) simp_all
    then show False using n(1) unsigned_less [of x, where 'a = nat] by simp
  qed
  have b: "bit y n" if "2 ^ n \<le> unat y" "unat y < 2 ^ (n + 1)" for y :: u32
  proof -
    have "unat y div 2 ^ n = 1" using that by (intro div_nat_eqI) (simp_all add: mult.commute)
    then have "bit (unat y) n" by (simp add: bit_iff_odd)
    then show ?thesis by (simp add: bit_unsigned_iff)
  qed
  have "unat x = 2 ^ n"
  proof (rule ccontr)
    assume "unat x \<noteq> 2 ^ n"
    then have "2 ^ n \<le> unat (x - 1)" "unat (x - 1) < 2 ^ (n + 1)" using n assms(2) by (simp_all add: unat_minus_one)
    then have "bit (x AND (x - 1)) n" using b n by (simp add: bit_and_iff)
    then show False using assms(1) by simp
  qed
  moreover have "unat (2 ^ n :: u32) = 2 ^ n"
    using unat_of_nat [where 'a = 32, of "2 ^ n"] n32 power_strict_increasing [of n 32 "2 :: nat"] by simp
  ultimately have "x = 2 ^ n" by (simp add: word_unat_eq_iff)
  then show ?thesis using that n32 by blast
qed

lemma xor_power_of_two: "x XOR 2 ^ n = (if bit x n then x - 2 ^ n else x + (2 ^ n :: u32))"
  using flip_bit_eq_xor [of n x] flip_bit_eq_if [of n x] set_bit_eq [of n x] unset_bit_eq [of n x]
  by (cases "bit x n") (simp_all add: push_bit_eq_mult)

text \<open>What the code has checked of a block and its neighbor before it writes.\<close>

definition placed :: "flash_device \<Rightarrow> flash_block_t \<Rightarrow> flash_block_t \<Rightarrow> bool" where
  "placed flash B N \<longleftrightarrow> 8 \<le> write_buffer_size flash \<and> write_buffer_size flash \<le> 1024 \<and> write_buffer_size flash \<le> blk_size B \<and>
     blk_size B AND (blk_size B - 1) = 0 \<and> select_setup_offset flash B + write_buffer_size flash \<le> blk_size B \<and>
     (blk_base B + select_setup_offset flash B XOR blk_size B) - blk_base N = select_setup_offset flash B"

abbreviation setup_of :: "flash_device \<Rightarrow> flash_block_t \<Rightarrow> u32" where
  "setup_of flash B \<equiv> blk_base B + select_setup_offset flash B"

lemma setup_offset_room:
  assumes "placed flash B N"
  shows "unat (select_setup_offset flash B) + unat (write_buffer_size flash) \<le> unat (blk_size B)"
proof -
  have "select_setup_offset flash B \<le> blk_size B div 2" by (simp add: select_setup_offset_def word_and_le2)
  then have "unat (select_setup_offset flash B) \<le> unat (blk_size B) div 2" by (simp add: word_le_nat_alt unat_div)
  moreover have "unat (write_buffer_size flash) \<le> 1024" using assms by (simp add: placed_def word_le_nat_alt)
  ultimately have "unat (select_setup_offset flash B + write_buffer_size flash) = unat (select_setup_offset flash B) + unat (write_buffer_size flash)"
    using unsigned_less [of "blk_size B", where 'a = nat] by (intro unat_sum) simp
  then show ?thesis using assms by (simp add: placed_def word_le_nat_alt)
qed

lemma placed_inside:
  assumes "placed flash B N" "unat off < unat (write_buffer_size flash)"
  shows "in_blk B (setup_of flash B + off)"
proof -
  have "unat (select_setup_offset flash B + off) = unat (select_setup_offset flash B) + unat off"
    using setup_offset_room [OF assms(1)] assms(2) unsigned_less [of "blk_size B", where 'a = nat] by (intro unat_sum) simp
  then show ?thesis using setup_offset_room [OF assms(1)] assms(2) by (simp add: in_blk_def word_less_nat_alt algebra_simps)
qed

lemma placed_outside:
  assumes "placed flash B N"
  shows "\<not> in_blk B (setup_of flash B XOR blk_size B)" "\<not> in_blk B (blk_base N)" "in_blk B (blk_base B)" "in_blk B (setup_of flash B)"
proof -
  have wb: "8 \<le> unat (write_buffer_size flash)" using assms by (simp add: placed_def word_le_nat_alt)
  have "blk_size B \<noteq> 0" using setup_offset_room [OF assms] wb by auto
  then obtain n where n: "n < 32" "blk_size B = 2 ^ n"
    using power_of_two_word assms unfolding placed_def by metis
  let ?o = "select_setup_offset flash B"
  have sz: "unat (2 ^ n :: u32) = 2 ^ n"
    using unat_of_nat [where 'a = 32, of "2 ^ n"] n(1) power_strict_increasing [of n 32 "2 :: nat"] by simp
  have lim: "2 * 2 ^ n \<le> (2 :: nat) ^ 32" using n(1) power_increasing [of "Suc n" 32 "2 :: nat"] by simp
  have o: "unat ?o < 2 ^ n" using setup_offset_room [OF assms] wb unfolding n(2) sz by linarith
  have far: "\<not> x + 2 ^ n < 2 ^ n \<and> \<not> x - 2 ^ n < 2 ^ n" if x: "unat x < 2 ^ n" for x :: u32
  proof -
    have "unat (x + 2 ^ n) = unat x + 2 ^ n" using x lim by (subst unat_sum) (simp_all add: sz)
    moreover have "unat (x - 2 ^ n) = 2 ^ 32 - 2 ^ n + unat x"
      using x lim by (simp add: unat_sub_if_size sz word_size)
    ultimately show ?thesis using lim by (simp add: word_less_nat_alt sz)
  qed
  show "in_blk B (blk_base B)" "in_blk B (setup_of flash B)"
    using o n by (simp_all add: in_blk_def word_less_nat_alt sz)
  show "\<not> in_blk B (setup_of flash B XOR blk_size B)"
    using far [OF o] unfolding in_blk_def n(2) xor_power_of_two by (simp add: algebra_simps)
  have "blk_base N = (setup_of flash B XOR blk_size B) - ?o" using assms by (simp add: placed_def algebra_simps)
  then have "blk_base N - blk_base B = 0 + 2 ^ n \<or> blk_base N - blk_base B = 0 - 2 ^ n"
    unfolding n(2) xor_power_of_two by (cases "bit (setup_of flash B) n") (simp_all add: algebra_simps)
  then show "\<not> in_blk B (blk_base N)"
    using far [of 0] unfolding in_blk_def n(2) by fastforce
qed

section \<open>What a command makes of the chip\<close>

text \<open>
  \<open>moves B p q c Q\<close>: from the state \<open>q\<close>, the words that \<open>c\<close> writes take the chip to a state with \<open>Q\<close>, and all
  operations it has executed on the way satisfy \<open>p\<close>.
\<close>

definition moves :: "flash_block_t \<Rightarrow> (flash_op \<Rightarrow> bool) \<Rightarrow> chip \<Rightarrow> (('h, 'z) machine_scheme, 'a) cmd \<Rightarrow> (chip \<Rightarrow> bool) \<Rightarrow> bool" where
  "moves B p q c Q \<longleftrightarrow> talks c (\<lambda>_ tr. \<exists>q' ops. chip_run B q (commands tr) = (q', ops) \<and> list_all p ops \<and> Q q')"

lemma moves_bind:
  assumes "moves B p q c P" "\<And>x q'. P q' \<Longrightarrow> moves B p q' (f x) Q"
  shows "moves B p q (bindM c f) Q"
  unfolding moves_def
proof (rule any.in_bind [OF assms(1) [unfolded moves_def]], elim exE conjE)
  fix x t1 q' ops assume first: "chip_run B q (commands t1) = (q', ops)" "list_all p ops" "P q'"
  show "talks (f x) (\<lambda>_ t2. \<exists>q'' ops'. chip_run B q (commands (t1 @ t2)) = (q'', ops') \<and> list_all p ops' \<and> Q q'')"
    by (rule logs_in_mono [OF assms(2) [OF first(3), unfolded moves_def]]) (use first(1,2) in \<open>auto simp: chip_run_append\<close>)
qed

lemma moves_bystander: "bystander c \<Longrightarrow> Q q \<Longrightarrow> moves B p q c Q"
  unfolding moves_def by (erule logs_in_mono) simp

lemma moves_after: "bystander c \<Longrightarrow> (\<And>x. moves B p q (f x) Q) \<Longrightarrow> moves B p q (bindM c f) Q"
  by (rule moves_bind [where P = "\<lambda>q'. q' = q", OF moves_bystander]) simp_all

lemma moves_allowed:
  assumes "allowed p c" "\<And>op. p op \<Longrightarrow> no_buffer op" "Q Ready"
  shows "moves B p Ready c Q"
  unfolding moves_def
proof (rule logs_in_mono [OF assms(1) [unfolded issues_def]], elim exE conjE)
  fix tr ops assume "decodes (commands tr) ops" "list_all p ops"
  moreover have "list_all no_buffer ops" using \<open>list_all p ops\<close> assms(2) by (auto simp: list_all_iff)
  ultimately show "\<exists>q' ops. chip_run B Ready (commands tr) = (q', ops) \<and> list_all p ops \<and> Q q'"
    using decodes_chip assms(3) by blast
qed

lemma moves_wr16:
  "chip_step B q (a, ucast v) = (q', ops) \<Longrightarrow> list_all p ops \<Longrightarrow> Q q' \<Longrightarrow> moves B p q (wr16 E a v) Q"
  unfolding moves_def by (rule talks_wr16) simp

lemma moves_mono: "moves B p q c P \<Longrightarrow> (\<And>q. P q \<Longrightarrow> Q q) \<Longrightarrow> moves B p q c Q"
  unfolding moves_def by (erule logs_in_mono) blast

lemma moves_seq: "Q q \<Longrightarrow> moves B p q (seqM []) Q"
  "moves B p q c P \<Longrightarrow> (\<And>q'. P q' \<Longrightarrow> moves B p q' (seqM cs) Q) \<Longrightarrow> moves B p q (seqM (c # cs)) Q"
  unfolding seqM.simps by (auto intro: moves_bind moves_bystander [OF bystander_simple(1)])

lemma moves_map: "moves B p q c Q \<Longrightarrow> moves B p q (mapM f c) Q"
  unfolding moves_def by (rule any.in_map)

subsection \<open>Filling the buffer without confirming it\<close>

text \<open>Two words at a time, up to the number announced.\<close>

lemma moves_fill:
  fixes E :: "'h env"
  assumes "in_blk B s" "\<And>i. i \<in> set xs \<Longrightarrow> in_blk B (a i) \<and> in_blk B (a i + 2)" "2 * length xs \<le> n"
  shows "moves B p (Filling s n ds) (forM xs (\<lambda>i. wr E (a i) (v i)) :: (('h, 'z) machine_scheme, unit) cmd) (\<lambda>q. \<exists>m ds. q = Filling s m ds)"
  using assms(2,3)
proof (induction xs arbitrary: n ds)
  case (Cons x xs)
  then obtain k where n: "n = Suc (Suc k)" "2 * length xs \<le> k" by (cases n; cases "n - 1") auto
  have IH: "moves B p (Filling s m ds') (forM xs (\<lambda>i. wr E (a i) (v i)) :: (('h, 'z) machine_scheme, unit) cmd) (\<lambda>q. \<exists>m ds. q = Filling s m ds)"
    if "k \<le> m" for m ds'
    using that Cons.prems n(2) by (intro Cons.IH) auto
  have first: "moves B p (Filling s n ds) (wr E (a x) (v x) :: (('h, 'z) machine_scheme, unit) cmd) (\<lambda>q. \<exists>m ds. q = Filling s m ds \<and> k \<le> m)"
    unfolding moves_def by (rule any.in_write) (use Cons.prems assms(1) n in \<open>auto simp: trunc_def\<close>)
  show ?case
    unfolding forM.simps by (rule moves_bind [OF first]) (use IH in blast)
qed (simp add: moves_bystander bystander_simple)

lemma moves_word:
  "in_blk B s \<Longrightarrow> in_blk B a \<Longrightarrow> moves B p (Filling s (Suc n) ds) (wr16 E a v) (\<lambda>q. q = Filling s n (ds @ [(a, ucast v)]))"
  "in_blk B s \<Longrightarrow> \<not> in_blk B a \<Longrightarrow> moves B p (Filling s n ds) (wr16 E a v) (\<lambda>q. q = Ready)"
  by (rule moves_wr16 [where ops = "[]"], simp_all) (cases n; rule moves_wr16 [where ops = "[]"], simp_all)

lemma moves_fill_and_abort:
  fixes E :: "'h env"
  assumes "placed flash B N" "2 * unat aw \<le> unat (write_buffer_size flash) div 2"
  shows "moves B p (Setup_Buffer (setup_of flash B)) (fill_and_abort E flash aw (setup_of flash B) (setup_of flash B XOR blk_size B)) (\<lambda>q. q = Ready)"
proof -
  let ?s = "setup_of flash B" and ?n = "write_buffer_size flash div 2"
  note out = placed_outside [OF assms(1)]
  have w: "8 \<le> unat (write_buffer_size flash)" "unat (write_buffer_size flash) \<le> 1024" using assms(1) by (simp_all add: placed_def word_le_nat_alt)
  have n: "0 < ?n" "unat ?n \<le> 0x10000" using w by (simp_all add: word_less_nat_alt unat_div)
  have count: "moves B p (Setup_Buffer ?s) (wr16 E ?s (ucast (?n - 1))) (\<lambda>q. q = Filling ?s (unat ?n) [])"
    by (rule moves_wr16 [where ops = "[]"]) (use buffer_count [OF n] in simp_all)
  have "in_blk B (?s + of_nat i * 4)" "in_blk B (?s + of_nat i * 4 + 2)" if "i < unat aw" for i
  proof -
    have i: "4 * i + 2 < unat (write_buffer_size flash)" using that assms(2) by linarith
    have "unat (of_nat i * 4 :: u32) = 4 * i" "unat (of_nat i * 4 + 2 :: u32) = 4 * i + 2"
      using i w(2) by (simp_all add: unat_word_ariths unat_of_nat)
    then show "in_blk B (?s + of_nat i * 4)" "in_blk B (?s + of_nat i * 4 + 2)"
      using placed_inside [OF assms(1), of "of_nat i * 4"] placed_inside [OF assms(1), of "of_nat i * 4 + 2"] i by (simp_all add: add.assoc)
  qed
  then have fill: "moves B p (Filling ?s (unat ?n) []) (forM [0..<unat aw] (\<lambda>i. wr E (?s + of_nat i * 4) (program_value (of_nat i)))) (\<lambda>q. \<exists>m ds. q = Filling ?s m ds)"
    using out(4) assms(2) by (intro moves_fill) (auto simp: unat_div)
  show ?thesis
    unfolding fill_and_abort_def
    by (rule moves_bind [OF count], hypsubst, rule moves_bind [OF fill]) (use moves_word(2) [OF out(4,1)] in blast)
qed

section \<open>The parts of the program\<close>

subsection \<open>What writes nothing\<close>

lemma bystander_timeout: "bystander (wdt_set_max_execution_time E ms)" "bystander (test_watchdog_serve E)" "bystander (stopwatch_elapsed_ms E v)"
  "bystander (stopwatch_get E)"
  unfolding wdt_set_max_execution_time_def stopwatch_get_def test_watchdog_serve_def stopwatch_elapsed_ms_def stopwatch_scaled_def
    stopwatch_elapsed_def
  by (intro bystander_intros bystander_serve; simp)+

lemma bystander_check: "bystander (test_check E T name b)"
  unfolding test_check_def by (intro bystander_intros bystander_report bystander_reset)

lemma bystander_range: "bystander (range_is_blank E a sz)"
proof -
  have "bystander (range_blank_loop n E a sz off)" for n off
    by (induction n arbitrary: off) (auto intro!: bystander_intros bystander_timeout bystander_tests)
  then show ?thesis unfolding range_is_blank_def by (intro bystander_bind bystander_timeout)
qed

lemma bystander_crc: "bystander (crc32_block E a sz)"
proof -
  have loop: "bystander (crc32_block_loop n E a sz off c)" for n off c
    by (induction n arbitrary: off c) (auto intro!: bystander_intros bystander_timeout)
  show ?thesis unfolding crc32_block_def by (intro bystander_intros bystander_timeout bystander_tests loop) simp_all
qed

lemma bystander_finish: "bystander (test_finish E T)" "bystander (skip_destructive_test E T reason)"
proof -
  show f: "bystander (test_finish E T)"
    unfolding test_finish_def usart_putc_def by (intro bystander_intros bystander_printf bystander_usart_write)
  show "bystander (skip_destructive_test E T reason)"
    unfolding skip_destructive_test_def by (intro bystander_bind bystander_tests f)
qed

lemma bystander_prints:
  "bystander (print_status E T name v)" "bystander (check_blank E T name a sz)" "bystander (check_erased E T name a)"
  "bystander (print_setup E T flash B w x y z u)"
  unfolding print_status_def check_blank_def check_erased_def print_setup_def Let_def
  by (intro bystander_intros bystander_printf bystander_range bystander_check bystander_rd16 bystander_tests)+

lemmas bystanders = bystander_rd16 bystander_read bystander_ready bystander_tests bystander_check bystander_range bystander_crc
  bystander_finish bystander_prints bystander_printf bystander_timeout

subsection \<open>The trace\<close>

text \<open>Operations that change nothing in the flash, and operations that change nothing but the lock of a block or erase it.\<close>

definition harmless :: "flash_op \<Rightarrow> bool" where
  "harmless op = (case op of Read_Array a \<Rightarrow> True | Read_Status a \<Rightarrow> True | Read_Id a \<Rightarrow> True | Read_Query a \<Rightarrow> True
     | Read_Efa a \<Rightarrow> True | Clear_Status a \<Rightarrow> True | _ \<Rightarrow> False)"

definition spares :: "flash_block_t \<Rightarrow> flash_op \<Rightarrow> bool" where
  "spares B op \<longleftrightarrow> harmless op \<or> op \<in> {Unlock False (blk_base B), Lock False (blk_base B), Erase False (blk_base B)}"

lemma moves_one: "one_cycle a (ucast v) = Some op \<Longrightarrow> harmless op \<Longrightarrow> moves B (spares B) Ready (wr16 E a v) (\<lambda>q. q = Ready)"
  using setup_buffer [of "ucast v" a] by (intro moves_wr16 [where ops = "[op]"]) (auto simp: spares_def)

lemma moves_modes:
  "moves B (spares B) Ready (wr16 E a 0x50) (\<lambda>q. q = Ready)" "moves B (spares B) Ready (wr16 E a 0xFF) (\<lambda>q. q = Ready)"
  "moves B (spares B) Ready (wr16 E a 0x70) (\<lambda>q. q = Ready)"
  by (rule moves_one [of _ _ "Clear_Status a"], simp_all add: one_cycle_def harmless_def)
     (rule moves_one [of _ _ "Read_Array a"], simp_all add: one_cycle_def harmless_def,
      rule moves_one [of _ _ "Read_Status a"], simp_all add: one_cycle_def harmless_def)

lemma moves_if: "(b \<Longrightarrow> moves B p q c Q) \<Longrightarrow> (\<not> b \<Longrightarrow> moves B p q d Q) \<Longrightarrow> moves B p q (if b then c else d) Q"
  by simp

lemma moves_when: "(b \<Longrightarrow> moves B p q c Q) \<Longrightarrow> (\<not> b \<Longrightarrow> Q q) \<Longrightarrow> moves B p q (whenM b c) Q"
  by (simp add: whenM_def moves_bystander bystander_simple)

text \<open>A step with a known next state.\<close>

lemma moves_then:
  "moves B p q c (\<lambda>q'. q' = r) \<Longrightarrow> (\<And>x. moves B p r (f x) Q) \<Longrightarrow> moves B p q (bindM c f) Q"
  by (erule moves_bind) simp

lemma moves_then_seq:
  "moves B p q c (\<lambda>q'. q' = r) \<Longrightarrow> moves B p r (seqM cs) Q \<Longrightarrow> moves B p q (seqM (c # cs)) Q"
  by (erule moves_seq) simp

lemma moves_quiet_seq: "bystander c \<Longrightarrow> moves B p q (seqM cs) Q \<Longrightarrow> moves B p q (seqM (c # cs)) Q"
  by (rule moves_then_seq [OF moves_bystander]) simp_all

lemma moves_trace:
  fixes E :: "'h env"
  assumes "placed flash B N" "2 * unat aw \<le> unat (write_buffer_size flash) div 2" "c = 0xE8 \<or> c = 0xE9"
  shows "moves B (spares B) Ready (test_abort_trace E T flash c aw (setup_of flash B) B :: (('h, 'z) tested_scheme, unit) cmd)
    (\<lambda>q. q = Ready \<or> (\<exists>n ds. q = Filling (setup_of flash B) (Suc n) ds))"
proof -
  let ?s = "setup_of flash B" and ?ab = "setup_of flash B XOR blk_size B"
  note out = placed_outside [OF assms(1)]
  have begun: "moves B (spares B) Ready (wr16 E ?s c) (\<lambda>q. q = Setup_Buffer ?s)"
    by (rule moves_wr16 [where ops = "[]"]) (use assms(3) in auto)
  have refused: "moves B (spares B) (Setup_Buffer ?s) (wr16 E ?s 0x50) (\<lambda>q. q = Filling ?s (Suc (Suc 79)) [])"
    by (rule moves_wr16 [where ops = "[]"]) (use out in simp_all)
  note fill = moves_fill_and_abort [OF assms(1,2)]
  have recover: "moves B (spares B) q (seqM [wr16 E ?s 0x50, wr16 E ?s 0xFF, wr16 E ?ab 0x50, wr16 E ?ab 0xFF] :: (('h, 'z) tested_scheme, unit) cmd)
      (\<lambda>q. q = Ready \<or> (\<exists>n ds. q = Filling ?s (Suc n) ds))" if "q = Ready \<or> q = Setup_Buffer ?s" for q
    using that
  proof
    assume "q = Ready"
    then show ?thesis by (simp only:) ((rule moves_then_seq, rule moves_modes)+, rule moves_seq(1), simp)
  next
    assume "q = Setup_Buffer ?s"
    then show ?thesis
      by (simp only:) (rule moves_then_seq [OF refused], rule moves_then_seq [OF moves_word(1) [OF out(4,4)]],
          rule moves_then_seq [OF moves_word(2) [OF out(4,1)]], rule moves_then_seq [OF moves_modes(2)], rule moves_seq(1), simp)
  qed
  have again: "moves B (spares B) (Setup_Buffer ?s) (whenM b (bindM (fill_and_abort E flash aw ?s ?ab) (\<lambda>_. bindM (rd16 E ?s) (\<lambda>v.
      bindM (print_status E T name v) (\<lambda>_. check E T name' (f v))))) :: (('h, 'z) tested_scheme, unit) cmd) (\<lambda>q. q = Ready \<or> q = Setup_Buffer ?s)"
    for b name name' f
    by (rule moves_when, rule moves_then [OF fill], (rule moves_after, rule bystanders)+, rule moves_bystander, rule bystanders) simp_all
  show ?thesis
    unfolding test_abort_trace_def Let_def
    apply (rule moves_then, (rule moves_then_seq, rule moves_modes)+, rule moves_then_seq, rule begun, rule moves_seq, rule refl)
    apply ((rule moves_after, rule bystanders)+, rule moves_if)
    subgoal by (rule moves_then_seq [OF refused], rule moves_then_seq [OF moves_word(1) [OF out(4,4)]], rule moves_seq(1)) simp
    apply (rule moves_then [OF fill], rule moves_after, rule bystanders, rule moves_then, rule moves_modes, rule moves_after, rule bystanders)
    apply (rule moves_then, (rule moves_then_seq, rule moves_modes)+, rule moves_seq, rule refl)
    apply (rule moves_after, rule bystanders, rule moves_then, rule moves_modes, rule moves_after, rule bystanders)
    apply (rule moves_then, (rule moves_then_seq, rule moves_modes)+, (rule moves_quiet_seq, rule bystanders)+,
        rule moves_then_seq, rule begun, rule moves_seq, rule refl)
    apply ((rule moves_after, rule bystanders)+, rule moves_bind [OF again])
    by (rule recover)
qed

subsection \<open>The phases of the test\<close>

lemma spares_no_buffer: "spares B op \<Longrightarrow> no_buffer op"
  by (auto simp: spares_def harmless_def no_buffer_def split: flash_op.splits)

lemma moves_tells: "tells c ops \<Longrightarrow> list_all (spares B) ops \<Longrightarrow> moves B (spares B) Ready c (\<lambda>q. q = Ready)"
  by (rule moves_allowed [OF allowed_tells]) (auto dest: spares_no_buffer)

lemma moves_operations:
  "moves B (spares B) Ready (cfi_unlock_block E (blk_base B) False) (\<lambda>q. q = Ready)"
  "moves B (spares B) Ready (cfi_lock_block E (blk_base B) False) (\<lambda>q. q = Ready)"
  "moves B (spares B) Ready (lock_bits E a) (\<lambda>q. q = Ready)"
  "moves B (spares B) Ready (cfi_enter_read_array E a) (\<lambda>q. q = Ready)"
  "moves B (spares B) Ready (cfi_enter_query E a) (\<lambda>q. q = Ready)"
  unfolding lock_bits_def
  by (rule moves_tells [OF tells_block_operations(1)], simp add: spares_def harmless_def)
     (rule moves_tells [OF tells_block_operations(2)], simp add: spares_def harmless_def,
      rule moves_map, rule moves_tells [OF tells_lock_status], simp add: spares_def harmless_def,
      rule moves_tells [OF tells_modes(1)], simp add: spares_def harmless_def,
      rule moves_tells [OF tells_modes(5)], simp add: spares_def harmless_def)

lemma moves_queries:
  "moves B (spares B) Ready (buffered_program_command E flash) (\<lambda>q. q = Ready)"
  "moves B (spares B) Ready (block_erase_max_ms E flash) (\<lambda>q. q = Ready)"
  unfolding buffered_program_command_def block_erase_max_ms_def cfi_read_u16_def Let_def
  by (rule moves_then, rule moves_operations, (rule moves_after, intro bystander_intros bystander_rd16)+,
      rule moves_then, rule moves_operations, rule moves_bystander, intro bystander_intros, rule refl)+

lemma moves_emergency: "moves B (spares B) Ready (emergency_cleanup E T flash B) (\<lambda>q. q = Ready)"
proof -
  have erase: "moves B (spares B) Ready (wr16 E (blk_base B) 0x20) (\<lambda>q. q = Setup 0x20)"
    "moves B (spares B) (Setup 0x20) (wr16 E (blk_base B) 0xD0) (\<lambda>q. q = Ready)"
    by (rule moves_wr16 [where ops = "[]"], simp_all add: one_cycle_def)
       (rule moves_wr16 [where ops = "[Erase False (blk_base B)]"], simp_all add: two_cycle_def spares_def)
  have wait: "bystander (whileM n (mapM f (stopwatch_elapsed_ms E v)) (test_watchdog_serve E))" for n f v
    by (intro bystander_intros bystander_timeout)
  have array: "moves B (spares B) Ready (whenM b (cfi_enter_read_array E (blk_base B))) (\<lambda>q. q = Ready)" for b
    by (rule moves_when, rule moves_operations) simp
  show ?thesis
    unfolding emergency_cleanup_def Let_def
    by (rule moves_then, rule moves_queries, (rule moves_after, rule bystanders)+, rule moves_then, rule moves_modes,
        rule moves_then, rule erase, rule moves_then, rule erase, rule moves_after, rule bystanders, rule moves_after, rule wait,
        rule moves_then, rule moves_modes, rule moves_after, rule bystanders, rule moves_then, rule array,
        (rule moves_after, rule bystanders)+, rule moves_bystander, intro bystander_if bystander_simple bystander_range) simp
qed

lemma moves_abort_phase:
  fixes E :: "'h env"
  assumes "placed flash B N" "2 * unat aw \<le> unat (write_buffer_size flash) div 2" "c = 0xE8 \<or> c = 0xE9"
  shows "moves B (spares B) Ready (abort_phase E T flash B N c aw (setup_of flash B) :: (('h, 'z) tested_scheme, unit) cmd) (\<lambda>q. q = Ready)"
proof -
  note out = placed_outside [OF assms(1)]
  have "moves B (spares B) q (seqM [cfi_enter_read_array E (blk_base B), cfi_enter_read_array E (blk_base N)] :: (('h, 'z) tested_scheme, unit) cmd)
      (\<lambda>q. q = Ready)" if "q = Ready \<or> (\<exists>n ds. q = Filling (setup_of flash B) (Suc n) ds)" for q
    using that
  proof (elim disjE exE)
    assume "q = Ready"
    then show ?thesis by (simp only:) ((rule moves_then_seq, rule moves_operations)+, rule moves_seq(1), rule refl)
  next
    fix n ds assume "q = Filling (setup_of flash B) (Suc n) ds"
    then show ?thesis
      unfolding cfi_enter_read_array_def
      by (simp only:) (rule moves_then_seq [OF moves_word(1) [OF out(4,3)]], rule moves_then_seq [OF moves_word(2) [OF out(4,2)]], rule moves_seq(1), rule refl)
  qed
  note arrays = this
  show ?thesis
    unfolding abort_phase_def
    by (rule moves_then, rule moves_quiet_seq, rule bystanders, rule moves_seq(2) [OF moves_trace [OF assms]], rule arrays, assumption,
        (rule moves_after, rule bystanders)+, rule moves_when, rule moves_quiet_seq, rule bystanders, rule moves_then_seq,
        rule moves_then, rule moves_emergency, rule moves_bystander, rule bystanders, rule refl, rule moves_seq(1)) simp_all
qed

lemma moves_restore:
  fixes E :: "'h env"
  shows "moves B (spares B) Ready (restore_phase E T flash B N s ab il nl tc nc :: (('h, 'z) crc_tested_scheme, u32) cmd) (\<lambda>q. q = Ready)"
proof -
  have lck: "moves B (spares B) Ready (bindM (lock_bits E a) (\<lambda>v. eq_u32 E T name e (ucast v)) :: (('h, 'z) crc_tested_scheme, unit) cmd) (\<lambda>q. q = Ready)" for a name e
    by (rule moves_then, rule moves_operations, rule moves_bystander, rule bystanders, rule refl)
  show ?thesis
    unfolding restore_phase_def
    by (rule moves_then, (rule moves_then_seq, rule moves_modes)+, rule moves_seq(1), rule refl, rule moves_then, rule moves_if,
        rule moves_operations, rule moves_operations, rule moves_then, (rule moves_quiet_seq, rule bystanders)+, (rule moves_then_seq, rule lck)+,
        (rule moves_then_seq, rule moves_operations)+, rule moves_seq(1), rule refl, (rule moves_after, rule bystanders)+, rule moves_after,
        intro bystander_seq bystander_map bystanders, rule moves_bystander, rule bystanders, rule refl)
qed

lemma moves_bind_value:
  assumes "moves B p q c P" "talks c (\<lambda>x _. R x)" "\<And>x q'. R x \<Longrightarrow> P q' \<Longrightarrow> moves B p q' (f x) Q"
  shows "moves B p q (bindM c f) Q"
proof -
  have "talks c (\<lambda>x tr. R x \<and> (\<exists>q' ops. chip_run B q (commands tr) = (q', ops) \<and> list_all p ops \<and> P q'))"
    using logs_in_conj [OF assms(2) assms(1) [unfolded moves_def]] by (rule logs_in_mono) blast
  then show ?thesis
    unfolding moves_def
  proof (rule any.in_bind, elim exE conjE)
    fix x t1 q' ops assume first: "R x" "chip_run B q (commands t1) = (q', ops)" "list_all p ops" "P q'"
    show "talks (f x) (\<lambda>_ t2. \<exists>q'' ops'. chip_run B q (commands (t1 @ t2)) = (q'', ops') \<and> list_all p ops' \<and> Q q'')"
      by (rule logs_in_mono [OF assms(3) [OF first(1,4), unfolded moves_def]]) (use first in \<open>auto simp: chip_run_append\<close>)
  qed
qed

lemma program_command_value:
  "talks (buffered_program_command E flash) (\<lambda>r _. case r of None \<Rightarrow> True | Some c \<Rightarrow> c = 0xE8 \<or> c = 0xE9)"
proof -
  have rd: "bystander (mapM f (cfi_read_u16 E a k))" for f :: "u32 \<Rightarrow> u16" and a k
    unfolding cfi_read_u16_def by (intro bystander_intros bystander_rd16)
  show ?thesis
    unfolding buffered_program_command_def
    by (rule any.in_bind [OF tells_modes(5) [unfolded issues_def]], rule any.in_bind [OF rd],
        rule any.in_bind [OF tells_modes(1) [unfolded issues_def]], rule any.in_ret) simp
qed

lemma moves_destructive_test:
  fixes E :: "'h env"
  assumes "placed flash B N"
  shows "moves B (spares B) Ready (destructive_test E T flash B N :: (('h, 'z) crc_tested_scheme, u32) cmd) (\<lambda>q. q = Ready)"
proof -
  let ?aw = "if write_buffer_size flash div 4 > 112 then 112 else write_buffer_size flash div 4 - 1"
  have w: "8 \<le> unat (write_buffer_size flash)" using assms by (simp add: placed_def word_le_nat_alt)
  then have "write_buffer_size flash div 4 \<noteq> 0" by (simp add: word_unat_eq_iff unat_div)
  then have "unat (write_buffer_size flash div 4 - 1) \<le> unat (write_buffer_size flash) div 4"
    by (simp add: unat_minus_one unat_div)
  then have "unat ?aw \<le> unat (write_buffer_size flash) div 4"
    by (auto simp: word_less_nat_alt unat_div)
  then have aw: "2 * unat ?aw \<le> unat (write_buffer_size flash) div 2" by linarith
  have unlocked: "moves B (spares B) Ready (if b then mapM f (lock_bits E a) else retM x :: (('h, 'z) crc_tested_scheme, bool) cmd) (\<lambda>q. q = Ready)" for b f a x
    by (rule moves_if, rule moves_map, rule moves_operations, rule moves_bystander) (simp_all add: bystander_simple)
  have relock: "moves B (spares B) Ready (whenM b (mapM f (cfi_lock_block E (blk_base B) False)) :: (('h, 'z) crc_tested_scheme, unit) cmd) (\<lambda>q. q = Ready)" for b f
    by (rule moves_when, rule moves_map, rule moves_operations) simp
  have body: "moves B (spares B) Ready ((case supported of None \<Rightarrow> skip_destructive_test E T name | Some c \<Rightarrow> g c) :: (('h, 'z) crc_tested_scheme, u32) cmd) (\<lambda>q. q = Ready)"
    if "case supported of None \<Rightarrow> True | Some c \<Rightarrow> c = 0xE8 \<or> c = 0xE9" "\<And>c. c = 0xE8 \<or> c = 0xE9 \<Longrightarrow> moves B (spares B) Ready (g c) (\<lambda>q. q = Ready)"
    for supported g name
    using that by (cases supported) (auto intro: moves_bystander bystander_finish)
  show ?thesis
    unfolding destructive_test_def Let_def
    by (rule moves_bind_value [OF moves_queries(1) program_command_value], hypsubst, rule body, assumption, (rule moves_after, rule bystanders)+,
        (rule moves_then, rule moves_operations)+, (rule moves_after, rule bystanders)+, rule moves_then, rule moves_operations,
        rule moves_after, rule bystanders, rule moves_then, rule unlocked, rule moves_after, rule bystanders, rule moves_if,
        rule moves_then, rule relock, rule moves_bystander, rule bystanders, rule refl, rule moves_then, rule moves_abort_phase [OF assms aw],
        assumption, rule moves_restore)
qed

section \<open>The search for the block\<close>

text \<open>
  \<open>looks c Q\<close>: the words that \<open>c\<close> writes are operations that change nothing in the flash, and \<open>Q\<close> holds of the
  value it returns and the accesses it has made.
\<close>

definition looks :: "(('h, 'z) machine_scheme, 'a) cmd \<Rightarrow> ('a \<Rightarrow> access list \<Rightarrow> bool) \<Rightarrow> bool" where
  "looks c Q \<longleftrightarrow> talks c (\<lambda>x tr. (\<exists>ops. decodes (commands tr) ops \<and> list_all harmless ops) \<and> Q x tr)"

lemma looks_bind:
  assumes "looks c P" "\<And>x t1. P x t1 \<Longrightarrow> looks (f x) (\<lambda>y t2. Q y (t1 @ t2))"
  shows "looks (bindM c f) Q"
  unfolding looks_def
proof (rule any.in_bind [OF assms(1) [unfolded looks_def]], elim exE conjE)
  fix x t1 ops assume first: "decodes (commands t1) ops" "list_all harmless ops" "P x t1"
  show "talks (f x) (\<lambda>y t2. (\<exists>ops. decodes (commands (t1 @ t2)) ops \<and> list_all harmless ops) \<and> Q y (t1 @ t2))"
  proof (rule logs_in_mono [OF assms(2) [OF first(3), unfolded looks_def]], elim exE conjE)
    fix y t2 ops' assume "decodes (commands t2) ops'" "list_all harmless ops'" "Q y (t1 @ t2)"
    then show "(\<exists>ops. decodes (commands (t1 @ t2)) ops \<and> list_all harmless ops) \<and> Q y (t1 @ t2)"
      using first by (intro conjI exI [of _ "ops @ ops'"]) (auto intro: decodes_append)
  qed
qed

lemma looks_allowed: "allowed harmless c \<Longrightarrow> looks c (\<lambda>_ _. True)"
  unfolding looks_def issues_def by (erule logs_in_mono) simp

lemma looks_conj: "allowed harmless c \<Longrightarrow> talks c Q \<Longrightarrow> looks c Q"
  unfolding looks_def issues_def by (drule logs_in_conj, assumption, erule logs_in_mono) simp

lemma looks_ret: "Q x [] \<Longrightarrow> looks (retM x) Q"
  unfolding looks_def by (rule any.in_ret) (auto intro: decodes.idle)

lemma looks_if: "(b \<Longrightarrow> looks c Q) \<Longrightarrow> (\<not> b \<Longrightarrow> looks d Q) \<Longrightarrow> looks (if b then c else d) Q"
  by simp

lemma looks_mono: "looks c P \<Longrightarrow> (\<And>x tr. P x tr \<Longrightarrow> Q x tr) \<Longrightarrow> looks c Q"
  unfolding looks_def by (erule logs_in_mono) blast

lemma looks_fail: "looks (failM e) Q"
  unfolding looks_def by (rule any.in_fail)

lemma looks_liftE: "(\<And>x. m = Inr x \<Longrightarrow> Q x []) \<Longrightarrow> looks (liftE m) Q"
  unfolding looks_def by (rule any.in_liftE) (auto intro: decodes.idle)

text \<open>The description of a chip is read without telling the chip anything, and keeps its chip select.\<close>

abbreviation reads_chip :: "u32 \<Rightarrow> (('h, 'z) machine_scheme, flash_device) cmd \<Rightarrow> bool" where
  "reads_chip cs c \<equiv> talks c (\<lambda>flash tr. commands tr = [] \<and> flash_cs flash = cs)"

lemma reads_after: "bystander c \<Longrightarrow> (\<And>x. reads_chip cs (f x)) \<Longrightarrow> reads_chip cs (bindM c f)"
  by (erule any.in_bind) (auto elim: logs_in_mono)

lemma reads_bind: "reads_chip cs c \<Longrightarrow> (\<And>flash. flash_cs flash = cs \<Longrightarrow> reads_chip cs (f flash)) \<Longrightarrow> reads_chip cs (bindM c f)"
  by (erule any.in_bind) (auto elim: logs_in_mono)

lemma reads_ret: "flash_cs flash = cs \<Longrightarrow> reads_chip cs (retM flash)"
  by (rule any.in_ret) simp

lemma reads_if: "reads_chip cs c \<Longrightarrow> reads_chip cs d \<Longrightarrow> reads_chip cs (if b then c else d)"
  by simp

lemma bystander_read_u: "bystander (cfi_read_u16 E a k)" "bystander (cfi_read_u32 E a k)" "bystander (cfi_skip_pri_regions E a k b)"
  "bystander (cfi_signature E)"
proof -
  show u16: "bystander (cfi_read_u16 E a k)" for a k
    unfolding cfi_read_u16_def by (intro bystander_intros bystander_rd16)
  then show "bystander (cfi_read_u32 E a k)"
    unfolding cfi_read_u32_def by (intro bystander_intros)
  have "bystander (skip_regions n E a k b)" for n k
    by (induction n arbitrary: k) (auto simp: Let_def intro!: bystander_intros bystander_rd16)
  then show "bystander (cfi_skip_pri_regions E a k b)"
    unfolding cfi_skip_pri_regions_def by (intro bystander_intros bystander_rd16)
  show "bystander (cfi_signature E)"
    unfolding cfi_signature_def by (intro bystander_intros bystander_rd16)
qed

lemma reads_geometry:
  assumes "flash_cs flash = cs"
  shows "reads_chip cs (cfi_read_geometry E flash)" "reads_chip cs (cfi_read_extended_geometry E flash)" "reads_chip cs (cfi_sample_map E flash)"
proof -
  have loop: "reads_chip cs (geometry_loop E rs flash)" if "flash_cs flash = cs" for rs flash
    using that by (induction rs arbitrary: flash) (auto simp: Let_def intro!: reads_ret reads_after bystander_read_u)
  show "reads_chip cs (cfi_read_geometry E flash)"
    using assms unfolding cfi_read_geometry_def Let_def by (intro reads_after bystander_read_u bystander_rd16 loop) simp
  show "reads_chip cs (cfi_read_extended_geometry E flash)"
    using assms unfolding cfi_read_extended_geometry_def Let_def
    by (intro reads_after reads_if reads_ret bystander_intros bystander_read_u bystander_rd16) simp_all
  have sample: "reads_chip cs (cfi_read_map_sample E flash k offs)" if "flash_cs flash = cs" for flash k offs
    using that unfolding cfi_read_map_sample_def by (intro reads_after bystander_copy reads_ret) simp
  show "reads_chip cs (cfi_sample_map E flash)"
    using assms unfolding cfi_sample_map_def by (intro reads_bind sample) simp_all
qed

lemma bystander_map_chip:
  "cs < 7 \<Longrightarrow> bystander (cfi_map E cs a msk)" "bystander (cfi_disable_chip_selects E)"
  "cs < 7 \<Longrightarrow> bystander (seqM [wr E (EBU_ADDRSEL cs) 0, wr E (EBU_BUSCON cs) 0])"
proof -
  have regs: "\<not> in_window (EBU_ADDRSEL cs)" "\<not> in_window (EBU_BUSCON cs)" if "cs < 7" for cs
  proof -
    have "unat cs < 7" using that by (simp add: word_less_nat_alt)
    then have "unat (EBU_ADDRSEL cs) = 0xF0000080 + unat cs * 8" "unat (EBU_BUSCON cs) = 0xF00000C0 + unat cs * 8"
      by (simp_all add: unat_word_ariths)
    then show "\<not> in_window (EBU_ADDRSEL cs)" "\<not> in_window (EBU_BUSCON cs)" by (simp_all add: in_window_def word_less_nat_alt)
  qed
  show "cs < 7 \<Longrightarrow> bystander (cfi_map E cs a msk)" "cs < 7 \<Longrightarrow> bystander (seqM [wr E (EBU_ADDRSEL cs) 0, wr E (EBU_BUSCON cs) 0])"
    unfolding cfi_map_def by (intro bystander_intros regs; assumption)+
  have nums: "[0..<7] = [0, 1, 2, 3, 4, 5, 6 :: nat]" by (simp add: upt_rec)
  show "bystander (cfi_disable_chip_selects E)"
    unfolding cfi_disable_chip_selects_def nums forM.simps by (intro bystander_intros regs) simp_all
qed

lemma looks_after: "bystander c \<Longrightarrow> (\<And>x t1. looks (f x) (\<lambda>y t2. Q y (t1 @ t2))) \<Longrightarrow> looks (bindM c f) Q"
  by (rule looks_bind [OF looks_allowed [OF allowed_bystander]])

lemma allowed_harmless_modes:
  "allowed harmless (cfi_enter_read_array E a)" "allowed harmless (cfi_enter_id E a)" "allowed harmless (cfi_enter_query E a)"
  "allowed harmless (cfi_read_lock_status E a)"
  by (auto intro!: allowed_tells [OF tells_modes(1)] allowed_tells [OF tells_modes(2)] allowed_tells [OF tells_modes(5)]
      allowed_tells [OF tells_lock_status] simp: harmless_def)

lemma looks_probe:
  assumes "cs < 7"
  shows "looks (cfi_probe E cs flash) (\<lambda>(ok, flash') tr. ok \<longrightarrow> flash_cs flash' = cs \<and> write_buffer_size flash' \<le> 1024)"
proof -
  have geo: "looks c (\<lambda>flash tr. flash_cs flash = cs)" if "reads_chip cs c" for c
    using that unfolding looks_def by (rule logs_in_mono) (auto intro: decodes.idle)
  note modes = looks_allowed [OF allowed_harmless_modes(1)] looks_allowed [OF allowed_harmless_modes(2)] looks_allowed [OF allowed_harmless_modes(3)]
  have a: "allowed harmless (seqM [cfi_disable_chip_selects E, cfi_map E cs FLASH_WINDOW_BASE 0,
      cfi_enter_read_array E FLASH_WINDOW_BASE, cfi_enter_query E FLASH_WINDOW_BASE])"
    by (intro allowed_seq allowed_harmless_modes allowed_bystander [OF bystander_map_chip(1) [OF assms]] allowed_bystander [OF bystander_map_chip(2)])
  have b: "allowed harmless (seqM [cfi_enter_read_array E FLASH_WINDOW_BASE, wr E (EBU_ADDRSEL cs) 0, wr E (EBU_BUSCON cs) 0])"
    by (rule allowed_seq(2), rule allowed_harmless_modes, rule allowed_bystander [OF bystander_map_chip(3) [OF assms]])
  show ?thesis
    unfolding cfi_probe_def Let_def
    apply (rule looks_bind [OF looks_allowed [OF a]], rule looks_after, rule bystander_read_u, rule looks_if)
    subgoal by (rule looks_bind [OF looks_allowed [OF b]], rule looks_ret) simp
    apply (rule looks_bind [OF geo [OF reads_geometry(1)]], simp, rule looks_bind [OF geo [OF reads_geometry(2)]], assumption,
        rule looks_bind, rule modes, rule looks_after, rule bystander_rd16, rule looks_after, rule bystander_rd16, rule looks_bind, rule modes)
    by (rule looks_bind, rule geo, rule reads_if, rule reads_geometry, simp, rule reads_ret, simp, rule looks_ret) simp
qed

text \<open>What the search has established of the block it returns.\<close>

definition found_blank :: "flash_device \<Rightarrow> flash_block_t \<Rightarrow> flash_block_t \<Rightarrow> access list \<Rightarrow> bool" where
  "found_blank flash B N tr \<longleftrightarrow> placed flash B N \<and> read_blank tr (blk_base B) (unat (blk_size B))"

lemma found_blank_mono: "found_blank flash B N t2 \<Longrightarrow> found_blank flash B N (t1 @ t2)"
  unfolding found_blank_def using read_blank_mono [where vs = "[]"] by simp

lemma power_of_two_bound:
  assumes "x AND (x - 1) = (0 :: u32)"
  shows "unat x \<le> 2 ^ 32 - 4"
proof (cases "x = 0")
  case False
  then obtain n where n: "n < 32" "x = 2 ^ n" using power_of_two_word assms by metis
  have "unat x = 2 ^ n"
    using unat_of_nat [where 'a = 32, of "2 ^ n"] n power_strict_increasing [of n 32 "2 :: nat"] by simp
  moreover have "(2 :: nat) ^ n \<le> 2 ^ 31" using n(1) by (intro power_increasing) simp_all
  ultimately show ?thesis by simp
qed simp

lemma looks_usable:
  fixes E :: "'h env"
  assumes "8 \<le> write_buffer_size flash" "write_buffer_size flash \<le> 1024"
  shows "looks (block_is_usable E flash B :: (('h, 'z) watched_scheme, flash_block_t option) cmd) (\<lambda>r tr. \<forall>N. r = Some N \<longrightarrow> found_blank flash B N tr)"
proof -
  let ?P = "\<lambda>r tr. \<forall>N. r = Some N \<longrightarrow> found_blank flash B N tr"
  have none: "looks (retM None :: (('h, 'z) watched_scheme, flash_block_t option) cmd) (\<lambda>y t. ?P y (t1 @ t))" for t1
    by (rule looks_ret) simp
  have blank: "looks (cfi_range_is_blank E (blk_base B) (blk_size B) :: (('h, 'z) watched_scheme, bool) cmd)
      (\<lambda>r tr. r \<longrightarrow> read_blank tr (blk_base B) (unat (blk_size B)))" if "blk_size B AND (blk_size B - 1) = 0"
    by (rule looks_conj, rule allowed_quiet, rule logs_in_mono [OF talks_range_is_blank [OF power_of_two_bound [OF that]]]) simp
  note modes = looks_allowed [OF allowed_harmless_modes(1)] looks_allowed [OF allowed_harmless_modes(4)]
  have last: "looks (bindM (cfi_read_lock_status E (blk_base B)) (\<lambda>lck. if bit lck 1 then retM None else
      bindM (cfi_enter_read_array E (blk_base B)) (\<lambda>_. bindM (cfi_range_is_blank E (blk_base B) (blk_size B)) (\<lambda>blank.
      retM (if blank then Some N else None)))) :: (('h, 'z) watched_scheme, flash_block_t option) cmd) (\<lambda>y t. ?P y (t1 @ t))"
    if "placed flash B N" for N t1
    apply (rule looks_bind [OF modes(2)], rule looks_if, rule looks_ret, simp, rule looks_bind [OF modes(1)], rule looks_bind [OF blank])
    subgoal using that by (simp add: placed_def)
    subgoal by (rule looks_ret) (use that in \<open>auto simp: found_blank_def intro: read_blank_mono [where vs = "[]", simplified]\<close>)
    done
  have found: "looks (case found of None \<Rightarrow> retM None | Some N \<Rightarrow> if c N then retM None else g N) ?P"
    if "\<And>N. \<not> c N \<Longrightarrow> looks (g N :: (('h, 'z) watched_scheme, flash_block_t option) cmd) ?P" for found c g
    using that none [of "[]"] by (cases found) simp_all
  show ?thesis
    unfolding block_is_usable_def Let_def
    apply (rule looks_if, rule none [of "[]", simplified], rule looks_if, rule none [of "[]", simplified], rule looks_if, rule none [of "[]", simplified])
    apply (rule looks_bind [where P = "\<lambda>_ tr. tr = []"], rule looks_liftE, rule refl, hypsubst, unfold append.simps, rule found)
    by (rule last [of _ "[]", unfolded append.simps]) (use assms in \<open>auto simp: placed_def not_less\<close>)
qed

text \<open>The loops keep what one block has established.\<close>

lemma looks_scan_blocks:
  fixes E :: "'h env"
  assumes "8 \<le> write_buffer_size flash" "write_buffer_size flash \<le> 1024"
  shows "looks (scan_blocks n E flash bs a :: (('h, 'z) watched_scheme, u32 + flash_block_t \<times> flash_block_t) cmd)
    (\<lambda>r tr. \<forall>B N. r = Inr (B, N) \<longrightarrow> found_blank flash B N tr)"
proof (induction n arbitrary: a)
  case (Suc n)
  show ?case
    unfolding scan_blocks.simps Let_def
    apply (rule looks_after, rule bystanders, rule looks_bind [OF looks_usable [OF assms]])
    subgoal for x t1 usable t2
      by (cases usable)
         (auto intro!: looks_ret looks_after [OF bystander_timeout(2)] looks_mono [OF Suc.IH] intro: found_blank_mono simp: append_assoc [symmetric] simp del: append_assoc)
    done
qed (simp add: looks_ret)

lemma looks_scan_regions:
  fixes E :: "'h env"
  assumes "8 \<le> write_buffer_size flash" "write_buffer_size flash \<le> 1024"
  shows "looks (scan_regions n k E flash a :: (('h, 'z) watched_scheme, (flash_block_t \<times> flash_block_t) option) cmd)
    (\<lambda>r tr. \<forall>B N. r = Some (B, N) \<longrightarrow> found_blank flash B N tr)"
proof (induction n arbitrary: k a)
  case (Suc n)
  show ?case
    unfolding scan_regions.simps Let_def
    apply (rule looks_if, rule looks_fail, rule looks_bind [OF looks_scan_blocks [OF assms]])
    subgoal for res t1 by (cases res) (auto intro!: looks_ret looks_mono [OF Suc.IH] intro: found_blank_mono)
    done
qed (simp add: looks_ret)

lemma looks_scan_chips:
  fixes E :: "'h env"
  assumes "\<forall>cs \<in> set css. cs < 7"
  shows "looks (scan_chips E T css :: (('h, 'z) tested_scheme, (flash_device \<times> flash_block_t \<times> flash_block_t) option) cmd)
    (\<lambda>r tr. \<forall>flash B N. r = Some (flash, B, N) \<longrightarrow> found_blank flash B N tr)"
  using assms
proof (induction css)
  case (Cons cs css)
  let ?P = "\<lambda>r tr. \<forall>flash B N. r = Some (flash, B, N) \<longrightarrow> found_blank flash B N tr"
  have IH: "looks (scan_chips E T css :: (('h, 'z) tested_scheme, (flash_device \<times> flash_block_t \<times> flash_block_t) option) cmd) (\<lambda>y t2. ?P y (t1 @ t2))" for t1
  proof -
    have base: "looks (scan_chips E T css :: (('h, 'z) tested_scheme, (flash_device \<times> flash_block_t \<times> flash_block_t) option) cmd) ?P"
      using Cons by simp
    show ?thesis by (rule looks_mono [OF base]) (auto intro: found_blank_mono)
  qed
  have cs: "cs < 7" using Cons.prems by simp
  have found: "looks ((case res of None \<Rightarrow> scan_chips E T css | Some (block, neighbor) \<Rightarrow> retM (Some (candidate, block, neighbor)))
      :: (('h, 'z) tested_scheme, (flash_device \<times> flash_block_t \<times> flash_block_t) option) cmd) (\<lambda>y t. ?P y (t1 @ t2 @ t3 @ t4 @ t))"
    if ok: "\<forall>B N. res = Some (B, N) \<longrightarrow> found_blank candidate B N t4" for res candidate t1 t2 t3 t4
  proof (cases res)
    case None
    then show ?thesis using IH [of "t1 @ t2 @ t3 @ t4"] by simp
  next
    case (Some r)
    then show ?thesis using ok by (cases r) (auto intro!: looks_ret found_blank_mono [of _ _ _ t4 "t1 @ t2 @ t3", simplified])
  qed
  show ?case
    unfolding scan_chips.simps
    apply (rule looks_bind [OF looks_probe [OF cs]])
    subgoal for probed t1
      apply (cases probed, simp only: prod.case)
      apply (rule looks_if, rule IH, rule looks_if, rule IH, rule looks_after, rule bystander_map_chip, simp add: cs,
          rule looks_after, rule bystanders, rule looks_bind [OF looks_scan_regions])
      subgoal by (simp add: not_less)
      subgoal by simp
      subgoal by (rule found)
      done
    done
qed (simp add: looks_ret)

section \<open>The whole program\<close>

lemma bystander_start: "bystander (test_start E T name)"
proof -
  have freq: "bystander (cpu_get_stm_freq E)"
    unfolding cpu_get_stm_freq_def cpu_get_fpi2_freq_def cpu_get_sys_freq_def cpu_get_pll_freq_def get_pll_core_freq_def
      field_def flag_clear_def Let_def
    by (intro bystander_intros)
  have wdt: "bystander (wdt_init E)"
    unfolding wdt_init_def wdt_init_custom_def stopwatch_init_def stopwatch_update_def wdt_set_interval_def cpu_wdt_disable_def
      cpu_wdt_get_reload_def cpu_wdt_set_mode_def cpu_wdt_reload_def cpu_wdt_password_access_def cpu_wdt_modify_access_def
      field_def mark_served_def stopwatch_get_def gpio_toggle_def gpio_get_def gpio_set_def rmw_def
    by (intro bystander_intros bystander_irq freq) (simp_all add: in_window_def)
  have prod: "bystander (case z of (x, y) \<Rightarrow> f x y)" if "\<And>x y. bystander (f x y)" for z f using that by (cases z) simp
  show ?thesis
    unfolding test_start_def print_hardware_def field_def by (intro bystander_intros bystander_reset bystander_printf wdt prod) simp_all
qed

text \<open>The accesses of a run of the program: those of the search, and those of the test.\<close>

definition spared :: "flash_block_t \<Rightarrow> access list \<Rightarrow> access list \<Rightarrow> bool" where
  "spared B tr1 tr2 \<longleftrightarrow> (\<exists>ops1 ops2. chip_run B Ready (commands tr1) = (Ready, ops1) \<and> list_all harmless ops1 \<and>
     chip_run B Ready (commands tr2) = (Ready, ops2) \<and> (list_all harmless ops2 \<or>
       list_all (spares B) ops2 \<and> read_blank tr1 (blk_base B) (unat (blk_size B))))"

lemma harmless_chip: "decodes (commands tr) ops \<Longrightarrow> list_all harmless ops \<Longrightarrow> chip_run B Ready (commands tr) = (Ready, ops)"
  by (erule decodes_chip) (auto simp: list_all_iff spares_def intro: spares_no_buffer)

lemma talks_abort_main:
  fixes E :: "'h env"
  shows "talks (abort_main E T :: (('h, 'z) crc_tested_scheme, u32) cmd) (\<lambda>_ tr. \<exists>tr1 tr2 B. tr = tr1 @ tr2 \<and> spared B tr1 tr2)"
proof -
  let ?search = "bindM (test_start E T ''CFI buffered program abort test'') (\<lambda>_.
     bindM (wr E EBU_CLC (push_bit MOD_CLC_RMC_SHIFT 1)) (\<lambda>_. find_blank_test_block E T))
     :: (('h, 'z) crc_tested_scheme, (flash_device \<times> flash_block_t \<times> flash_block_t) option) cmd"
  have ebu: "bystander (wr E EBU_CLC v)" for v by (rule bystander_write) (simp add: in_window_def)
  have chips: "\<forall>cs \<in> set cfi_chip_selects. cs < 7" by (simp add: cfi_chip_selects_def)
  have search: "looks ?search (\<lambda>r tr. \<forall>flash B N. r = Some (flash, B, N) \<longrightarrow> found_blank flash B N tr)"
    unfolding find_blank_test_block_def
    by (rule looks_after, rule bystander_start, rule looks_after, rule ebu, rule looks_mono [OF looks_scan_chips [OF chips]])
       (auto intro!: found_blank_mono)
  have rest: "talks ((case r of None \<Rightarrow> skip_destructive_test E T name | Some (flash, block, neighbor) \<Rightarrow> destructive_test E T flash block neighbor)
      :: (('h, 'z) crc_tested_scheme, u32) cmd) (\<lambda>_ tr2. \<exists>tr1' tr2' B. tr1 @ tr2 = tr1' @ tr2' \<and> spared B tr1' tr2')"
    if ops: "decodes (commands tr1) ops" "list_all harmless ops" and found: "\<forall>flash B N. r = Some (flash, B, N) \<longrightarrow> found_blank flash B N tr1"
    for r tr1 ops name
  proof (cases r)
    case None
    have "spared \<lparr>blk_base = 0, blk_size = 0\<rparr> tr1 tr" if "commands tr = []" for tr
      using harmless_chip [OF ops] that by (auto simp: spared_def ops)
    then show ?thesis using None by (auto intro!: logs_in_mono [OF bystander_finish(2)])
  next
    case (Some x)
    obtain flash B N where x: "x = (flash, B, N)" by (cases x)
    then have "placed flash B N" "read_blank tr1 (blk_base B) (unat (blk_size B))" using found Some by (auto simp: found_blank_def)
    note run = moves_destructive_test [OF this(1), unfolded moves_def]
    have "spared B tr1 tr" if "chip_run B Ready (commands tr) = (Ready, ops2)" "list_all (spares B) ops2" for tr ops2
      using harmless_chip [OF ops] that ops \<open>read_blank tr1 _ _\<close> by (auto simp: spared_def)
    then have "\<exists>tr1' tr2' B. tr1 @ tr = tr1' @ tr2' \<and> spared B tr1' tr2'"
      if "chip_run B Ready (commands tr) = (Ready, ops2)" "list_all (spares B) ops2" for tr ops2 using that by blast
    then show ?thesis using Some x by (auto intro!: logs_in_mono [OF run])
  qed
  have main: "abort_main E T = (bindM ?search (\<lambda>found. case found of
       None \<Rightarrow> skip_destructive_test E T ''no suitable blank non-lock-down erase block was found''
     | Some (flash, block, neighbor) \<Rightarrow> destructive_test E T flash block neighbor))"
    by (simp add: abort_main_def bindM_assoc)
  show ?thesis
    unfolding main by (rule any.in_bind [OF search [unfolded looks_def]]) (elim conjE exE, rule rest)
qed

text \<open>
  C14. The test of an aborted buffer program, whatever the chip answers at any point: it never programs a word of the flash. What it writes before it has
  selected a block are commands that change nothing. From then on the chip executes nothing but such commands, and commands that unlock, lock or erase one erase block, and
  every word of that block had been read as blank before. In particular no buffer that the test has set up is ever
  confirmed: also when the chip takes the recovery commands for the words of a buffer, a write outside of the block drops it.
  The chip is ready for a command at the end.
\<close>

theorem abort_test_never_programs:
  assumes "abort_main E T s = Inr (code, t)"
  shows "\<exists>tr1 tr2 B ops1 ops2. trace t = trace s @ tr1 @ tr2 \<and>
    chip_run B Ready (commands tr1) = (Ready, ops1) \<and> list_all harmless ops1 \<and>
    chip_run B Ready (commands tr2) = (Ready, ops2) \<and>
    (\<forall>op \<in> set ops2. harmless op \<or>
       op \<in> {Unlock False (blk_base B), Lock False (blk_base B), Erase False (blk_base B)} \<and>
       (\<forall>k. 4 * k < unat (blk_size B) \<longrightarrow> Rd W32 (blk_base B + of_nat (4 * k)) 0xFFFFFFFF \<in> set tr1))"
proof -
  obtain tr1 tr2 B where run: "trace t = trace s @ tr1 @ tr2" "spared B tr1 tr2"
    using logs_inD [OF talks_abort_main assms] by auto
  from run(2) obtain ops1 ops2 where ops: "chip_run B Ready (commands tr1) = (Ready, ops1)" "list_all harmless ops1"
    "chip_run B Ready (commands tr2) = (Ready, ops2)"
    "list_all harmless ops2 \<or> list_all (spares B) ops2 \<and> read_blank tr1 (blk_base B) (unat (blk_size B))"
    unfolding spared_def by blast
  from ops(4) have "\<forall>op \<in> set ops2. harmless op \<or>
       op \<in> {Unlock False (blk_base B), Lock False (blk_base B), Erase False (blk_base B)} \<and>
       (\<forall>k. 4 * k < unat (blk_size B) \<longrightarrow> Rd W32 (blk_base B + of_nat (4 * k)) 0xFFFFFFFF \<in> set tr1)"
    unfolding read_blank_def by (auto simp: list_all_iff spares_def)
  with run(1) ops(1-3) show ?thesis by blast
qed

lemma silent_bus_run:
  "case abort_main ready_chip mute_printer crc_bench of Inl e \<Rightarrow> False | Inr (code, t) \<Rightarrow> code = 0"
  by code_simp

theorem abort_test_never_programs_witness:
  "\<exists>code t tr1 tr2 ops2. abort_main ready_chip mute_printer crc_bench = Inr (code, t) \<and> trace t = tr1 @ tr2 \<and>
     (\<exists>B. chip_run B Ready (commands tr2) = (Ready, ops2))"
proof -
  obtain code t where run: "abort_main ready_chip mute_printer crc_bench = Inr (code, t)"
    using silent_bus_run by (auto split: sum.splits prod.splits)
  have "trace crc_bench = []" by (simp add: crc_bench_def)
  with abort_test_never_programs [OF run] run show ?thesis by auto
qed

end
