(* ===== verification/Io_Bridge.thy ===== *)
theory Io_Bridge
  imports Smbus Conversation
begin

text \<open>
  The register bridge (\<^verbatim>\<open>src/io_bridge/main.c\<close>): a program on the phone that reads and writes the registers of the processor for an
  emulator on the host, and hands the interrupts of the processor to it. Shown are the protocol of a request, on every branch, and that an
  interrupt is not left before the host has acknowledged it.

  The main program and the handlers of the exceptions are separate operations. An exception masks interrupts, so that an interrupt arrives
  between two rounds of the main loop; where it does is a parameter.
\<close>

section \<open>State and operations\<close>

text \<open>The two volatile variables: the interrupt being served, and the counter \<^verbatim>\<open>i\<close>.\<close>

record 'h bridged = "'h watched" +
  current_irq :: u32
  frame_count :: u32

abbreviation (input) DIF_TB :: u32 where "DIF_TB \<equiv> 0xF1B00020"

text \<open>The code never leaves the loop: it runs until the environment stops it.\<close>

definition onerr :: "'h env \<Rightarrow> u8 \<Rightarrow> (('h, 'z) machine_scheme, unit) cmd" where
  "onerr E c = whileM (fuel E) (retM True) (usart_putc E USART0 c)"

text \<open>
  A word from the host, most significant byte first. C leaves the order of the four calls in the expression open; they are taken from
  left to right.
\<close>

definition getw :: "'h env \<Rightarrow> (('h, 'z) machine_scheme, u32) cmd" where
  "getw E =
     bindM (usart_getc E USART0) (\<lambda>a. bindM (usart_getc E USART0) (\<lambda>b.
     bindM (usart_getc E USART0) (\<lambda>c. bindM (usart_getc E USART0) (\<lambda>d.
     retM (push_bit 24 (ucast a) OR push_bit 16 (ucast b) OR push_bit 8 (ucast c) OR ucast d)))))"

text \<open>The end of a reply: a mark, followed by the interrupt when one is being served.\<close>

definition put_mark :: "'h env \<Rightarrow> bool \<Rightarrow> u8 \<Rightarrow> u8 \<Rightarrow> (('h, 'z) bridged_scheme, unit) cmd" where
  "put_mark E irq busy free =
     (if irq then bindM (usart_putc E USART0 busy) (\<lambda>_. bindM (getM current_irq) (\<lambda>n. usart_putc E USART0 (ucast n)))
      else usart_putc E USART0 free)"

definition read_register :: "'h env \<Rightarrow> u8 \<Rightarrow> u32 \<Rightarrow> (('h, 'z) bridged_scheme, u32) cmd" where
  "read_register E c addr =
     (let skip = (addr = 0xFFFFFFFF) in
      bindM (if addr = VIC_IRQ_CURRENT then getM current_irq
             else if \<not> skip then
               if c = of_char (CHR ''R'') then mmio_read W32 E addr
               else if c = of_char (CHR ''r'') then mmio_read W16 E addr
               else if c = of_char (CHR ''I'') then
                 bindM (mmio_read W16 E addr) (\<lambda>h. bindM (mmio_read W8 E addr) (\<lambda>l. retM (push_bit 8 h OR l)))
               else mmio_read W8 E addr
             else retM 0) (\<lambda>v.
      retM (if addr = CGU_STAT then 0x2000 else v)))"

text \<open>The values that the bridge replaces before it writes them, on either processor.\<close>

definition replace_value :: "'h env \<Rightarrow> u32 \<Rightarrow> u32 \<Rightarrow> (('h, 'z) bridged_scheme, u32) cmd" where
  "replace_value E addr v = (case cpu E of
     PMB8876 \<Rightarrow> retM (if addr = I2Cv2_CLC then push_bit MOD_CLC_RMC_SHIFT 0xFF else v)
   | PMB8875 \<Rightarrow>
       let v = (if addr = I2Cv1_CLC \<and> v AND MOD_CLC_RMC \<noteq> 0 then v AND NOT MOD_CLC_RMC OR push_bit MOD_CLC_RMC_SHIFT 8 else v) in
       if addr = DIF_TB \<and> v = 0x1FF0 then
         bindM (getM frame_count) (\<lambda>i.
         bindM (modM (\<lambda>s. s\<lparr>frame_count := i + 1\<rparr>)) (\<lambda>_.
         retM (if i mod 2 \<noteq> 0 then 0x1FF0 else 0x1000)))
       else retM v)"

definition write_register :: "'h env \<Rightarrow> u8 \<Rightarrow> u32 \<Rightarrow> u32 \<Rightarrow> (('h, 'z) machine_scheme, unit) cmd" where
  "write_register E c addr v =
     (if addr = 0xFFFFFFFF then retM ()
      else if c = of_char (CHR ''W'') then mmio_write W32 E addr v
      else if c = of_char (CHR ''w'') then mmio_write W16 E addr (v AND 0xFFFF)
      else if c = of_char (CHR ''O'') then
        bindM (mmio_write W8 E addr (v AND 0xFF)) (\<lambda>_. mmio_write W16 E addr (drop_bit 8 v AND 0xFFFF))
      else mmio_write W8 E addr (v AND 0xFF))"

abbreviation read_commands :: "u8 list" where "read_commands \<equiv> map of_char ''RrIi''"
abbreviation write_commands :: "u8 list" where "write_commands \<equiv> map of_char ''WwOo''"

definition handle_read :: "'h env \<Rightarrow> bool \<Rightarrow> u8 \<Rightarrow> (('h, 'z) bridged_scheme, u32) cmd" where
  "handle_read E irq c =
     bindM (getw E) (\<lambda>addr.
     bindM (wdt_serve E) (\<lambda>_.
     bindM (read_register E c addr) (\<lambda>v.
     bindM (seqM [usart_putc E USART0 (ucast (v AND 0xFF)), usart_putc E USART0 (ucast (drop_bit 8 v AND 0xFF)),
                  usart_putc E USART0 (ucast (drop_bit 16 v AND 0xFF)), usart_putc E USART0 (ucast (drop_bit 24 v AND 0xFF))]) (\<lambda>_.
     bindM (put_mark E irq (of_char (CHR ''!'')) (of_char (CHR '';''))) (\<lambda>_.
     bindM (wdt_serve E) (\<lambda>_. retM 1))))))"

definition handle_write :: "'h env \<Rightarrow> bool \<Rightarrow> u8 \<Rightarrow> (('h, 'z) bridged_scheme, u32) cmd" where
  "handle_write E irq c =
     bindM (getw E) (\<lambda>addr.
     bindM (getw E) (\<lambda>v.
     bindM (wdt_serve E) (\<lambda>_.
     bindM (replace_value E addr v) (\<lambda>v.
     bindM (write_register E c addr v) (\<lambda>_.
     bindM (whenM (irq \<and> addr = VIC_IRQ_ACK) (modM (\<lambda>s. s\<lparr>current_irq := 0\<rparr>))) (\<lambda>_.
     bindM (put_mark E irq (of_char (CHR ''!'')) (of_char (CHR '';''))) (\<lambda>_.
     bindM (wdt_serve E) (\<lambda>_.
     bindM (getM current_irq) (\<lambda>n. retM (if irq \<and> n = 0 then 2 else 1))))))))))"

definition command_handler :: "'h env \<Rightarrow> bool \<Rightarrow> (('h, 'z) bridged_scheme, u32) cmd" where
  "command_handler E irq =
     bindM (usart_get_rx_fifo_level E USART0) (\<lambda>n.
     if n = 0 then retM 0 else
     bindM (usart_getc E USART0) (\<lambda>c.
     if c = of_char (CHR ''.'') then
       bindM (wdt_serve E) (\<lambda>_. bindM (put_mark E irq (of_char (CHR '','')) (of_char (CHR ''.''))) (\<lambda>_. retM 1))
     else if c \<in> set read_commands then handle_read E irq c
     else if c \<in> set write_commands then handle_write E irq c
     else bindM (onerr E 0xE6) (\<lambda>_. retM 0)))"

text \<open>The handlers of the exceptions.\<close>

definition bridge_data_abort :: "'h env \<Rightarrow> (('h, 'z) machine_scheme, unit) cmd" where "bridge_data_abort E = onerr E 0xE1"
definition bridge_undef :: "'h env \<Rightarrow> (('h, 'z) machine_scheme, unit) cmd" where "bridge_undef E = onerr E 0xE2"
definition bridge_prefetch_abort :: "'h env \<Rightarrow> (('h, 'z) machine_scheme, unit) cmd" where "bridge_prefetch_abort E = onerr E 0xE3"
definition bridge_fiq :: "'h env \<Rightarrow> (('h, 'z) machine_scheme, unit) cmd" where "bridge_fiq E = onerr E 0xE4"
definition bridge_reserved :: "'h env \<Rightarrow> (('h, 'z) machine_scheme, unit) cmd" where "bridge_reserved E = onerr E 0xE5"

definition swi_handler :: "'h env \<Rightarrow> (('h, 'z) bridged_scheme, unit) cmd" where
  "swi_handler E = mapM (\<lambda>_. ()) (command_handler E False)"

definition irq_handler :: "'h env \<Rightarrow> (('h, 'z) bridged_scheme, unit) cmd" where
  "irq_handler E =
     bindM (rd E VIC_IRQ_CURRENT) (\<lambda>n.
     bindM (modM (\<lambda>s. s\<lparr>current_irq := n\<rparr>)) (\<lambda>_.
     whileM (fuel E) (mapM (\<lambda>r. r \<noteq> 2) (command_handler E True)) (retM ())))"

text \<open>The main loop; the list says before which rounds an interrupt arrives, and ends when the environment stops the program.\<close>

primrec bridge_loop :: "'h env \<Rightarrow> bool list \<Rightarrow> (('h, 'z) bridged_scheme, unit) cmd" where
  "bridge_loop E [] = failM Out_Of_Fuel"
| "bridge_loop E (irq # irqs) =
     bindM (whenM irq (irq_handler E)) (\<lambda>_.
     bindM (usart_get_rx_fifo_level E USART0) (\<lambda>n.
     bindM (whenM (n \<noteq> 0) (swi_handler E)) (\<lambda>_.
     bridge_loop E irqs)))"

definition bridge_main :: "'h env \<Rightarrow> bool list \<Rightarrow> (('h, 'z) bridged_scheme, unit) cmd" where
  "bridge_main E irqs =
     (let pin = GPIO_IS_ALT0 OR GPIO_OS_ALT0 OR GPIO_PPEN_OPENDRAIN OR GPIO_PS_ALT OR GPIO_DIR_IN in
      seqM [wdt_init E, i2c_init E,
            wr E (GPIO_PIN GPIO_I2C_SCL) pin, wr E (GPIO_PIN GPIO_I2C_SDA) pin,
            usart_set_speed E USART0 1600000,
            whileM (fuel E) (mapM (\<lambda>c. c \<noteq> of_char (CHR ''O'')) (usart_getc E USART0)) (retM ()),
            whileM (fuel E) (mapM (\<lambda>c. c \<noteq> of_char (CHR ''K'')) (usart_getc E USART0)) (retM ()),
            usart_putc E USART0 (of_char (CHR ''.'')),
            mapM (\<lambda>_. ()) (cpu_enable_irq True), mapM (\<lambda>_. ()) (cpu_enable_fiq True),
            bridge_loop E irqs])"

section \<open>The protocol\<close>

text \<open>The requests of the host and their bytes on the line.\<close>

datatype request = Ping | Peek u8 u32 | Poke u8 u32 u32

definition be_bytes :: "u32 \<Rightarrow> u8 list" where
  "be_bytes v = [ucast (drop_bit 24 v), ucast (drop_bit 16 v), ucast (drop_bit 8 v), ucast v]"

fun request_bytes :: "request \<Rightarrow> u8 list" where
  "request_bytes Ping = [of_char (CHR ''.'')]"
| "request_bytes (Peek c addr) = c # be_bytes addr"
| "request_bytes (Poke c addr v) = c # be_bytes addr @ be_bytes v"

text \<open>The mark at the end of a reply, and the accesses to the register that a request asks for.\<close>

definition mark :: "bool \<Rightarrow> u32 \<Rightarrow> u8 \<Rightarrow> u8 \<Rightarrow> u8 list" where
  "mark irq n busy free = (if irq then [busy, ucast n] else [free])"

definition peeked :: "u32 \<Rightarrow> u8 \<Rightarrow> u32 \<Rightarrow> u32 \<Rightarrow> access list \<Rightarrow> bool" where
  "peeked n c addr v accs \<longleftrightarrow>
     (if addr = VIC_IRQ_CURRENT then v = n \<and> accs = []
      else if addr = 0xFFFFFFFF then v = 0 \<and> accs = []
      else if c = of_char (CHR ''R'') then accs = [Rd W32 addr v]
      else if c = of_char (CHR ''r'') then accs = [Rd W16 addr v]
      else if c = of_char (CHR ''I'') then (\<exists>h l. v = push_bit 8 h OR l \<and> accs = [Rd W16 addr h, Rd W8 addr l])
      else accs = [Rd W8 addr v])"

definition poked :: "u8 \<Rightarrow> u32 \<Rightarrow> u32 \<Rightarrow> access list" where
  "poked c addr v =
     (if addr = 0xFFFFFFFF then []
      else if c = of_char (CHR ''W'') then [Wr W32 addr v]
      else if c = of_char (CHR ''w'') then [Wr W16 addr (v AND 0xFFFF)]
      else if c = of_char (CHR ''O'') then [Wr W8 addr (v AND 0xFF), Wr W16 addr (drop_bit 8 v AND 0xFFFF)]
      else [Wr W8 addr (v AND 0xFF)])"

text \<open>The value written instead of \<open>v\<close>, and the frame counter afterwards.\<close>

definition replaced :: "cpu_model \<Rightarrow> u32 \<Rightarrow> u32 \<Rightarrow> u32 \<Rightarrow> u32 \<times> u32" where
  "replaced m addr v i =
     (if m = PMB8876 \<and> addr = I2Cv2_CLC then (0xFF00, i)
      else if m = PMB8875 \<and> addr = I2Cv1_CLC \<and> v AND MOD_CLC_RMC \<noteq> 0 then (v AND NOT MOD_CLC_RMC OR 0x800, i)
      else if m = PMB8875 \<and> addr = DIF_TB \<and> v = 0x1FF0 then (if i mod 2 \<noteq> 0 then 0x1FF0 else 0x1000, i + 1)
      else (v, i))"

text \<open>What a request does: the accesses, the reply, the result of the handler, and the interrupt and the frame counter before and after.\<close>

fun performed :: "cpu_model \<Rightarrow> bool \<Rightarrow> request \<Rightarrow> u32 \<times> u32 \<Rightarrow> access list \<Rightarrow> u8 list \<Rightarrow> u32 \<Rightarrow> u32 \<times> u32 \<Rightarrow> bool" where
  "performed m irq Ping (n, i) accs reply r q \<longleftrightarrow>
     accs = [] \<and> reply = mark irq n (of_char (CHR '','')) (of_char (CHR ''.'')) \<and> r = 1 \<and> q = (n, i)"
| "performed m irq (Peek c addr) (n, i) accs reply r q \<longleftrightarrow>
     c \<in> set read_commands \<and> (\<exists>v. peeked n c addr v accs \<and>
       reply = le_bytes 4 (if addr = CGU_STAT then 0x2000 else v) @ mark irq n (of_char (CHR ''!'')) (of_char (CHR '';''))) \<and> r = 1 \<and> q = (n, i)"
| "performed m irq (Poke c addr v) (n, i) accs reply r q \<longleftrightarrow>
     c \<in> set write_commands \<and> (let (v', i') = replaced m addr v i; n' = (if irq \<and> addr = VIC_IRQ_ACK then 0 else n) in
       accs = poked c addr v' \<and> reply = mark irq n' (of_char (CHR ''!'')) (of_char (CHR '';'')) \<and>
       r = (if irq \<and> n' = 0 then 2 else 1) \<and> q = (n', i'))"

text \<open>What an observer of the bridge sees.\<close>

definition bridge_state :: "('h, 'z) bridged_scheme \<Rightarrow> u32 \<times> u32" where
  "bridge_state s = (current_irq s, frame_count s)"

interpretation bridge: suite_observer "bridge_state :: ('h, 'z) bridged_scheme \<Rightarrow> u32 \<times> u32"
  by unfold_locales (simp_all add: bridge_state_def)

lemma be_bytes_word:
  "be_bytes (push_bit 24 (ucast a) OR push_bit 16 (ucast b) OR push_bit 8 (ucast c) OR ucast d) = [a, b, c, d]"
proof -
  have high: "\<not> bit (x :: u8) (8 + n)" "\<not> bit x (16 + n)" "\<not> bit x (24 + n)" for x n
    by (auto dest: bit_imp_le_length)
  show ?thesis unfolding be_bytes_def by (auto intro!: bit_word_eqI simp: bit_simps high)
qed

lemma does_getw: "does bridge_state (getw E) (\<lambda>w tr a b. rxb tr = be_bytes w \<and> txb tr = [] \<and> b = a)"
  unfolding getw_def
  by (rule does_bind [OF bridge.does_getc], rule does_bind [OF bridge.does_getc], rule does_bind [OF bridge.does_getc],
      rule does_bind [OF bridge.does_getc], rule does_ret) (auto simp: be_bytes_word)

lemma does_put_byte: "does bridge_state (usart_putc E USART0 c) (\<lambda>_ tr a b. rxb tr = [] \<and> txb tr = [c] \<and> b = a)"
  unfolding usart_putc_def by (rule bridge.does_reply)

lemma does_mark: "does bridge_state (put_mark E irq busy free) (\<lambda>_ tr a b. rxb tr = [] \<and> txb tr = mark irq (fst a) busy free \<and> b = a)"
proof -
  have get: "does bridge_state (getM current_irq) (\<lambda>n tr a b. tr = [] \<and> n = fst a \<and> b = a)"
    by (rule does_get) (simp add: bridge_state_def)
  show ?thesis
    unfolding put_mark_def
    by (rule does_if, rule does_bind [OF does_put_byte], rule does_bind [OF get], rule does_mono [OF does_put_byte])
       (auto simp: mark_def intro: does_mono [OF does_put_byte])
qed

lemma does_serve: "does bridge_state (wdt_serve E) (\<lambda>_ tr a b. rxb tr = [] \<and> txb tr = [] \<and> b = a)"
  by (rule does_mono [OF bridge.silent_wdt_serve]) (auto simp: quiet_def)

lemma does_access:
  "does bridge_state (mmio_read w E a) (\<lambda>v tr x y. tr = [Rd w a v] \<and> y = x)"
  "does bridge_state (mmio_write w E a v) (\<lambda>_ tr x y. tr = [Wr w a (trunc w v)] \<and> y = x)"
  by (rule does_mono [OF bridge.does_logs [OF logs_read [where P = "\<lambda>v tr. tr = [Rd w a v]"]]], simp_all)
     (rule does_mono [OF bridge.does_logs [OF logs_write [where P = "\<lambda>_ tr. tr = [Wr w a (trunc w v)]"]]], simp_all)

lemma does_read_register:
  "does bridge_state (read_register E c addr) (\<lambda>w tr a b. \<exists>v. peeked (fst a) c addr v tr \<and> w = (if addr = CGU_STAT then 0x2000 else v) \<and> b = a)"
proof -
  have get: "does bridge_state (getM current_irq) (\<lambda>n tr a b. tr = [] \<and> n = fst a \<and> b = a)"
    by (rule does_get) (simp add: bridge_state_def)
  have three: "does bridge_state (bindM (mmio_read W16 E addr) (\<lambda>h. bindM (mmio_read W8 E addr) (\<lambda>l. retM (push_bit 8 h OR l))))
      (\<lambda>v tr a b. (\<exists>h l. v = push_bit 8 h OR l \<and> tr = [Rd W16 addr h, Rd W8 addr l]) \<and> b = a)"
    by (rule does_bind [OF does_access(1)], rule does_bind [OF does_access(1)], rule does_ret) auto
  have raw: "does bridge_state (if addr = VIC_IRQ_CURRENT then getM current_irq
             else if \<not> addr = 0xFFFFFFFF then
               if c = of_char (CHR ''R'') then mmio_read W32 E addr
               else if c = of_char (CHR ''r'') then mmio_read W16 E addr
               else if c = of_char (CHR ''I'') then
                 bindM (mmio_read W16 E addr) (\<lambda>h. bindM (mmio_read W8 E addr) (\<lambda>l. retM (push_bit 8 h OR l)))
               else mmio_read W8 E addr
             else retM 0) (\<lambda>v tr a b. peeked (fst a) c addr v tr \<and> b = a)"
    by (intro does_if does_mono [OF get] does_mono [OF does_access(1)] does_mono [OF three] does_ret) (auto simp: peeked_def)
  show ?thesis
    unfolding read_register_def Let_def by (rule does_bind [OF raw], rule does_ret) auto
qed

lemma does_replace_value:
  "does bridge_state (replace_value E addr v) (\<lambda>w tr a b. tr = [] \<and> w = fst (replaced (cpu E) addr v (snd a)) \<and>
    b = (fst a, snd (replaced (cpu E) addr v (snd a))))"
  unfolding replace_value_def
  by (cases "cpu E") (auto simp: does_def wp bridge_state_def replaced_def Let_def push_bit_eq_mult)

lemma does_write_register:
  "does bridge_state (write_register E c addr v) (\<lambda>_ tr a b. tr = poked c addr v \<and> b = a)"
proof -
  have three: "does bridge_state (bindM (mmio_write W8 E addr (v AND 0xFF)) (\<lambda>_. mmio_write W16 E addr (drop_bit 8 v AND 0xFFFF)))
      (\<lambda>_ tr a b. tr = [Wr W8 addr (v AND 0xFF), Wr W16 addr (drop_bit 8 v AND 0xFFFF)] \<and> b = a)"
    by (rule does_bind [OF does_access(2)], rule does_mono [OF does_access(2)]) (auto simp: trunc_def and.assoc)
  show ?thesis
    unfolding write_register_def
    by (intro does_if does_mono [OF does_access(2)] does_mono [OF three] does_ret) (auto simp: poked_def trunc_def and.assoc)
qed

text \<open>A request is received, performed and answered, in this order.\<close>

definition exchanged :: "cpu_model \<Rightarrow> bool \<Rightarrow> u8 list \<Rightarrow> request \<Rightarrow> u32 \<Rightarrow> access list \<Rightarrow> u32 \<times> u32 \<Rightarrow> u32 \<times> u32 \<Rightarrow> bool" where
  "exchanged m irq received req r tr a d \<longleftrightarrow> (\<exists>before accs after. tr = before @ accs @ after \<and>
     rxb before = received \<and> txb before = [] \<and> rxb after = [] \<and> performed m irq req a accs (txb after) r d)"

lemma does_put_word:
  "does bridge_state (seqM [usart_putc E USART0 (ucast (v AND 0xFF)), usart_putc E USART0 (ucast (drop_bit 8 v AND 0xFF)),
      usart_putc E USART0 (ucast (drop_bit 16 v AND 0xFF)), usart_putc E USART0 (ucast (drop_bit 24 v AND 0xFF))])
    (\<lambda>_ tr a b. rxb tr = [] \<and> txb tr = le_bytes 4 v \<and> b = a)"
proof -
  have low: "ucast (w AND 0xFF) = (ucast w :: u8)" for w :: u32
  proof -
    have ff: "(0xFF :: u32) = mask 8" by (simp add: mask_eq_exp_minus_1)
    show ?thesis unfolding ff by (auto intro!: bit_word_eqI simp: bit_simps)
  qed
  have bytes: "le_bytes 4 v = [ucast v, ucast (drop_bit 8 v), ucast (drop_bit 16 v), ucast (drop_bit 24 v)]"
    by (simp add: le_bytes_def upt_rec numeral_eq_Suc)
  show ?thesis
    unfolding low bytes seqM.simps
    by (rule does_bind [OF does_put_byte], rule does_bind [OF does_put_byte], rule does_bind [OF does_put_byte], rule does_bind [OF does_put_byte], rule does_ret) auto
qed

lemma does_handle_read:
  assumes "c \<in> set read_commands"
  shows "does bridge_state (handle_read E irq c) (\<lambda>r tr a d. \<exists>addr. exchanged (cpu E) irq (be_bytes addr) (Peek c addr) r tr a d)"
proof -
  have reply: "does bridge_state (bindM (seqM [usart_putc E USART0 (ucast (v AND 0xFF)), usart_putc E USART0 (ucast (drop_bit 8 v AND 0xFF)),
                  usart_putc E USART0 (ucast (drop_bit 16 v AND 0xFF)), usart_putc E USART0 (ucast (drop_bit 24 v AND 0xFF))]) (\<lambda>_.
     bindM (put_mark E irq (of_char (CHR ''!'')) (of_char (CHR '';''))) (\<lambda>_. bindM (wdt_serve E) (\<lambda>_. retM 1))))
     (\<lambda>r tr a b. rxb tr = [] \<and> txb tr = le_bytes 4 v @ mark irq (fst a) (of_char (CHR ''!'')) (of_char (CHR '';'')) \<and> r = 1 \<and> b = a)" for v
    by (rule does_bind [OF does_put_word], rule does_bind [OF does_mark], rule does_bind [OF does_serve], rule does_ret) auto
  have whole: "\<exists>addr. exchanged (cpu E) irq (be_bytes addr) (Peek c addr) r (t1 @ t2 @ t3 @ t4) a a"
    if "rxb t1 = be_bytes addr" "txb t1 = []" "rxb t2 = []" "txb t2 = []" "peeked (fst a) c addr v t3" "rxb t4 = []"
      "txb t4 = le_bytes 4 (if addr = CGU_STAT then 0x2000 else v) @ mark irq (fst a) (of_char (CHR ''!'')) (of_char (CHR '';''))" "r = 1"
    for addr v r t1 t2 t3 t4 a
    using that assms unfolding exchanged_def
    by (intro exI [of _ addr] exI [of _ "t1 @ t2"] exI [of _ t3] exI [of _ t4]) (cases a, auto)
  show ?thesis
    unfolding handle_read_def
    by (rule does_bind [OF does_getw], rule does_bind [OF does_serve], rule does_bind [OF does_read_register], rule does_mono [OF reply])
       (auto intro!: whole)
qed

lemma does_handle_write:
  assumes "c \<in> set write_commands"
  shows "does bridge_state (handle_write E irq c) (\<lambda>r tr a d. \<exists>addr v. exchanged (cpu E) irq (be_bytes addr @ be_bytes v) (Poke c addr v) r tr a d)"
proof -
  have ack: "does bridge_state (whenM b (modM (\<lambda>s. s\<lparr>current_irq := 0\<rparr>))) (\<lambda>_ tr a d. tr = [] \<and> d = (if b then 0 else fst a, snd a))" for b
    by (auto simp: does_def wp whenM_def bridge_state_def)
  have get: "does bridge_state (getM current_irq) (\<lambda>n tr a b. tr = [] \<and> n = fst a \<and> b = a)"
    by (rule does_get) (simp add: bridge_state_def)
  have reply: "does bridge_state (bindM (whenM b (modM (\<lambda>s. s\<lparr>current_irq := 0\<rparr>))) (\<lambda>_.
     bindM (put_mark E irq (of_char (CHR ''!'')) (of_char (CHR '';''))) (\<lambda>_. bindM (wdt_serve E) (\<lambda>_.
     bindM (getM current_irq) (\<lambda>n. retM (if irq \<and> n = 0 then 2 else 1 :: u32))))))
     (\<lambda>r tr a d. rxb tr = [] \<and> txb tr = mark irq (fst d) (of_char (CHR ''!'')) (of_char (CHR '';'')) \<and>
       r = (if irq \<and> fst d = 0 then 2 else 1) \<and> d = (if b then 0 else fst a, snd a))" for b
    by (rule does_bind [OF ack], rule does_bind [OF does_mark], rule does_bind [OF does_serve], rule does_bind [OF get], rule does_ret) auto
  have whole: "\<exists>addr v. exchanged (cpu E) irq (be_bytes addr @ be_bytes v) (Poke c addr v) r (t1 @ t2 @ t3 @ t4 @ t5) a d"
    if "rxb t1 = be_bytes addr" "txb t1 = []" "rxb t2 = be_bytes v" "txb t2 = []" "rxb t3 = []" "txb t3 = []"
      "t4 = poked c addr (fst (replaced (cpu E) addr v (snd a)))" "rxb t5 = []"
      "d = (if irq \<and> addr = VIC_IRQ_ACK then 0 else fst a, snd (replaced (cpu E) addr v (snd a)))"
      "txb t5 = mark irq (fst d) (of_char (CHR ''!'')) (of_char (CHR '';''))" "r = (if irq \<and> fst d = 0 then 2 else 1)"
    for addr v r t1 t2 t3 t4 t5 a d
    using that assms unfolding exchanged_def
    by (intro exI [of _ addr] exI [of _ v] exI [of _ "t1 @ t2 @ t3"] exI [of _ t4] exI [of _ t5]) (cases a, simp add: Let_def case_prod_beta)
  show ?thesis
    unfolding handle_write_def
    apply (rule does_bind [OF does_getw], rule does_bind [OF does_getw], rule does_bind [OF does_serve], rule does_bind [OF does_replace_value],
        rule does_bind [OF does_write_register], rule does_mono [OF reply])
    apply (intro impI, elim conjE, hypsubst, unfold append_Nil, rule whole)
    by (assumption | rule refl | simp)+
qed

lemma does_onerr: "does bridge_state (bindM (onerr E c) f) P"
proof -
  have "does bridge_state (whileM n (retM True) (usart_putc E USART0 c)) (\<lambda>_ _ _ _. False)" for n
  proof (induction n)
    case (Suc n)
    show ?case by (simp only: whileM.simps bindM_ret if_True, rule does_bind [OF does_put_byte], rule does_mono [OF Suc]) simp
  qed (simp add: does_fail)
  from does_bind [OF this] show ?thesis unfolding onerr_def by simp
qed

lemma does_command_handler:
  "does bridge_state (command_handler E irq) (\<lambda>r tr a d. r = 0 \<and> rxb tr = [] \<and> txb tr = [] \<and> d = a \<or>
     (\<exists>req. exchanged (cpu E) irq (request_bytes req) req r tr a d))"
proof -
  let ?P = "\<lambda>r tr a d. r = 0 \<and> rxb tr = [] \<and> txb tr = [] \<and> d = a \<or> (\<exists>req. exchanged (cpu E) irq (request_bytes req) req r tr a d)"
  have level: "does bridge_state (usart_get_rx_fifo_level E USART0) (\<lambda>_ tr a b. rxb tr = [] \<and> txb tr = [] \<and> b = a)"
    unfolding usart_get_rx_fifo_level_def field_def
    by (rule does_map, rule does_mono [OF bridge.silent_read]) (auto simp: quiet_def)
  have more: "\<exists>req. exchanged (cpu E) irq (request_bytes req) req r (t1 @ t2 @ t3) a d"
    if rest: "exchanged (cpu E) irq received req r t3 a d" and bytes: "request_bytes req = c # received"
      and first: "rxb t1 = [] \<and> txb t1 = [] \<and> b = a" "rxb t2 = [c] \<and> txb t2 = [] \<and> b2 = a2" for received req r t1 t2 t3 a d c b a2 b2
  proof -
    obtain before accs after where "t3 = before @ accs @ after" "rxb before = received" "txb before = []" "rxb after = []"
      "performed (cpu E) irq req a accs (txb after) r d" using rest unfolding exchanged_def by blast
    then have "exchanged (cpu E) irq (request_bytes req) req r (t1 @ t2 @ t3) a d"
      using first bytes unfolding exchanged_def by (intro exI [of _ "t1 @ t2 @ before"] exI [of _ accs] exI [of _ after]) simp
    then show ?thesis by blast
  qed
  have pinged: "exchanged (cpu E) irq [] Ping 1 (t1 @ t2) a a"
    if "rxb t1 = []" "txb t1 = []" "rxb t2 = []" "txb t2 = mark irq (fst a) (of_char (CHR '','')) (of_char (CHR ''.''))" for t1 t2 a
    using that unfolding exchanged_def by (intro exI [of _ t1] exI [of _ "[]"] exI [of _ t2]) (cases a, simp)
  have ping: "does bridge_state (bindM (wdt_serve E) (\<lambda>_. bindM (put_mark E irq (of_char (CHR '','')) (of_char (CHR ''.''))) (\<lambda>_. retM 1)))
      (\<lambda>r tr a d. exchanged (cpu E) irq [] Ping r tr a d)"
    by (rule does_bind [OF does_serve], rule does_bind [OF does_mark], rule does_ret)
       (auto intro: pinged)
  show ?thesis
    unfolding command_handler_def
    apply (rule does_bind [OF level], rule does_if, rule does_ret, simp, rule does_bind [OF bridge.does_getc], rule does_if)
    subgoal for x t1 a b c t2 a' b'
      by (rule does_mono [OF ping], intro impI disjI2, rule more) (auto split: if_splits)
    apply (rule does_if)
    subgoal for x t1 a b c t2 a' b'
      by (rule does_mono [OF does_handle_read], assumption, intro impI disjI2, elim exE, rule more) auto
    apply (rule does_if)
    subgoal for x t1 a b c t2 a' b'
      by (rule does_mono [OF does_handle_write], assumption, intro impI disjI2, elim exE, rule more) auto
    by (rule does_onerr)
qed


text \<open>A host that sends the bytes of the device state, and an interrupt controller that reports interrupt 5.\<close>

definition sending_host :: "u8 list env" where
  "sending_host = \<lparr>dev_read = (\<lambda>w a h. if a = USART_FSTAT USART0 then (if h = [] then 0 else push_bit USART_FSTAT_RXFFL_SHIFT 1, h)
      else if a = USART_RXB USART0 then (case h of [] \<Rightarrow> (0, []) | b # bs \<Rightarrow> (ucast b, bs))
      else if a = VIC_IRQ_CURRENT then (5, h) else (0x12345678, h)),
     dev_write = (\<lambda>w a v h. h), fuel = 3, cpu = PMB8876, pm_wadog = False, pmic = PMIC_none\<rparr>"

definition bridge_bench :: "u8 list \<Rightarrow> u8 list bridged" where
  "bridge_bench bs = \<lparr>hw = bs, trace = [], cpsr = 0, ram = (\<lambda>_. 0), ticks_per_s = 1000, start_execution = 0, wdt_timeout = 0,
     last_wdt_serve = 0, wdt_interval = 0, wdt_off = True, current_irq = 0, frame_count = 0\<rparr>"

lemma peek_run:
  "case command_handler sending_host False (bridge_bench (request_bytes (Peek (of_char (CHR ''r'')) 0xF4500000))) of
     Inl e \<Rightarrow> False | Inr (r, t) \<Rightarrow> r = 1 \<and> txb (trace t) = [0x78, 0x56, 0, 0, of_char (CHR '';'')]"
  by code_simp


section \<open>Interrupts\<close>

definition acknowledged :: "access list \<Rightarrow> bool" where
  "acknowledged tr \<longleftrightarrow> (\<exists>w v. Wr w VIC_IRQ_ACK v \<in> set tr)"

lemma acknowledged_append [simp]: "acknowledged (xs @ ys) \<longleftrightarrow> acknowledged xs \<or> acknowledged ys"
  by (auto simp: acknowledged_def)

lemma performed_ack:
  "performed m irq req a accs reply r d \<Longrightarrow> (r = 2 \<longrightarrow> fst d = 0) \<and> (fst a \<noteq> 0 \<longrightarrow> fst d = 0 \<longrightarrow> acknowledged accs)"
  by (cases req; cases a) (auto simp: acknowledged_def poked_def split: prod.splits if_splits)

lemma does_wait_ack:
  "does bridge_state (whileM n (mapM (\<lambda>r. r \<noteq> 2) (command_handler E True)) (retM ()))
     (\<lambda>_ tr a d. fst d = 0 \<and> (fst a \<noteq> 0 \<longrightarrow> acknowledged tr))"
proof (induction n)
  case (Suc n)
  have once: "does bridge_state (mapM (\<lambda>r. r \<noteq> 2) (command_handler E True))
      (\<lambda>b tr a d. (\<not> b \<longrightarrow> fst d = 0) \<and> (fst a \<noteq> 0 \<longrightarrow> fst d = 0 \<longrightarrow> acknowledged tr))"
    by (rule does_map, rule does_mono [OF does_command_handler])
       (auto simp: exchanged_def dest!: performed_ack)
  show ?case
    unfolding whileM.simps
    by (rule does_bind [OF once], rule does_if, simp only: bindM_ret, rule does_mono [OF Suc])
       (auto intro!: does_ret)
qed (simp add: does_fail)


lemma ack_run:
  "case irq_handler sending_host (bridge_bench (request_bytes Ping @ request_bytes (Poke (of_char (CHR ''W'')) VIC_IRQ_ACK 0))) of
     Inl e \<Rightarrow> False | Inr (u, t) \<Rightarrow> txb (trace t) = [of_char (CHR '',''), 5, of_char (CHR ''!''), 0]"
  by code_simp


end
