(* ===== verification/Lcd_Regs.thy ===== *)
theory Lcd_Regs
  imports Regs
begin

text \<open>
  The registers, fields and field values that the display drivers use, from the generated headers
  \<^verbatim>\<open>src/lib/gen/pmb8876_regs.h\<close> and \<^verbatim>\<open>src/lib/gen/peripheral/lcd\<close>. As in C they are macros.
\<close>

section \<open>Pins and the display interface (DIF) of the PMB8876\<close>

abbreviation (input) GPIO_DIF_D2 :: u32 where "GPIO_DIF_D2 \<equiv> 23"
abbreviation (input) GPIO_DIF_D0 :: u32 where "GPIO_DIF_D0 \<equiv> 24"
abbreviation (input) GPIO_DIF_CD :: u32 where "GPIO_DIF_CD \<equiv> 25"
abbreviation (input) GPIO_DIF_CS1 :: u32 where "GPIO_DIF_CS1 \<equiv> 26"
abbreviation (input) GPIO_DIF_RESET1 :: u32 where "GPIO_DIF_RESET1 \<equiv> 27"
abbreviation (input) GPIO_DIF_D1 :: u32 where "GPIO_DIF_D1 \<equiv> 30"
abbreviation (input) GPIO_DIF_D3 :: u32 where "GPIO_DIF_D3 \<equiv> 91"
abbreviation (input) GPIO_DIF_D4 :: u32 where "GPIO_DIF_D4 \<equiv> 92"
abbreviation (input) GPIO_DIF_D5 :: u32 where "GPIO_DIF_D5 \<equiv> 93"
abbreviation (input) GPIO_DIF_D6 :: u32 where "GPIO_DIF_D6 \<equiv> 94"
abbreviation (input) GPIO_DIF_D7 :: u32 where "GPIO_DIF_D7 \<equiv> 95"
abbreviation (input) GPIO_DIF_WR :: u32 where "GPIO_DIF_WR \<equiv> 97"
abbreviation (input) GPIO_DIF_RD :: u32 where "GPIO_DIF_RD \<equiv> 98"
abbreviation (input) GPIO_DIF_VD :: u32 where "GPIO_DIF_VD \<equiv> 100"
abbreviation (input) GPIO_CLC :: u32 where "GPIO_CLC \<equiv> 0xF4300000"
abbreviation (input) GPIO_PPEN_PUSHPULL :: u32 where "GPIO_PPEN_PUSHPULL \<equiv> 0x0"
abbreviation (input) GPIO_PDPU_NONE :: u32 where "GPIO_PDPU_NONE \<equiv> 0x0"
abbreviation (input) GPIO_PDPU_PULLDOWN :: u32 where "GPIO_PDPU_PULLDOWN \<equiv> 0x4000"
abbreviation (input) GPIO_ENAQ_OFF :: u32 where "GPIO_ENAQ_OFF \<equiv> 0x0"
abbreviation (input) DIF_RUNCTRL :: u32 where "DIF_RUNCTRL \<equiv> 0xF7100010"
abbreviation (input) DIF_RUNCTRL_RUN :: u32 where "DIF_RUNCTRL_RUN \<equiv> 0x1"
abbreviation (input) DIF_CON :: u32 where "DIF_CON \<equiv> 0xF7100020"
abbreviation (input) DIF_PERREG :: u32 where "DIF_PERREG \<equiv> 0xF7100024"
abbreviation (input) DIF_PERREG_DIFPERMODE_PARALLEL :: u32 where "DIF_PERREG_DIFPERMODE_PARALLEL \<equiv> 0x1"
abbreviation (input) DIF_CSREG :: u32 where "DIF_CSREG \<equiv> 0xF7100028"
abbreviation (input) DIF_CSREG_CD :: u32 where "DIF_CSREG_CD \<equiv> 0x1"
abbreviation (input) DIF_CSREG_CS1 :: u32 where "DIF_CSREG_CS1 \<equiv> 0x2"
abbreviation (input) DIF_CSREG_BSCONF_1x8BIT :: u32 where "DIF_CSREG_BSCONF_1x8BIT \<equiv> 0x10"
abbreviation (input) DIF_LCDTIM1 :: u32 where "DIF_LCDTIM1 \<equiv> 0xF710002C"
abbreviation (input) DIF_LCDTIM2 :: u32 where "DIF_LCDTIM2 \<equiv> 0xF7100030"
abbreviation (input) DIF_STARTLCDRD :: u32 where "DIF_STARTLCDRD \<equiv> 0xF7100034"
abbreviation (input) DIF_STARTLCDRD_STARTREAD :: u32 where "DIF_STARTLCDRD_STARTREAD \<equiv> 0x1"
abbreviation (input) DIF_STARTLCDRD_READBYTES_SHIFT :: nat where "DIF_STARTLCDRD_READBYTES_SHIFT \<equiv> 1"
abbreviation (input) DIF_STAT :: u32 where "DIF_STAT \<equiv> 0xF7100038"
abbreviation (input) DIF_STAT_BSY :: u32 where "DIF_STAT_BSY \<equiv> 0x1"
abbreviation (input) DIF_RXFIFO_CFG :: u32 where "DIF_RXFIFO_CFG \<equiv> 0xF7100090"
abbreviation (input) DIF_RXFIFO_CFG_RXBS_4_WORD :: u32 where "DIF_RXFIFO_CFG_RXBS_4_WORD \<equiv> 0x2"
abbreviation (input) DIF_RXFIFO_CFG_RXFA_4 :: u32 where "DIF_RXFIFO_CFG_RXFA_4 \<equiv> 0x200"
abbreviation (input) DIF_RXFIFO_CFG_RXFC :: u32 where "DIF_RXFIFO_CFG_RXFC \<equiv> 0x10000"
abbreviation (input) DIF_RXFFS_STAT :: u32 where "DIF_RXFFS_STAT \<equiv> 0xF710009C"
abbreviation (input) DIF_TXFIFO_CFG :: u32 where "DIF_TXFIFO_CFG \<equiv> 0xF71000A0"
abbreviation (input) DIF_TXFIFO_CFG_TXBS_8_WORD :: u32 where "DIF_TXFIFO_CFG_TXBS_8_WORD \<equiv> 0x3"
abbreviation (input) DIF_TXFIFO_CFG_TXFA_4 :: u32 where "DIF_TXFIFO_CFG_TXFA_4 \<equiv> 0x200"
abbreviation (input) DIF_TXFIFO_CFG_TXFC :: u32 where "DIF_TXFIFO_CFG_TXFC \<equiv> 0x10000"
abbreviation (input) DIF_TXD :: u32 where "DIF_TXD \<equiv> 0xF7108000"
abbreviation (input) DIF_RXD :: u32 where "DIF_RXD \<equiv> 0xF710C000"

section \<open>ILI9320 and R61505U\<close>

abbreviation (input) ILI9320_OSCILLATION :: u8 where "ILI9320_OSCILLATION \<equiv> 0x0"
abbreviation (input) ILI9320_OSCILLATION_OSC :: u16 where "ILI9320_OSCILLATION_OSC \<equiv> 0x1"
abbreviation (input) ILI9320_DRIVER_OUTPUT_CONTROL :: u8 where "ILI9320_DRIVER_OUTPUT_CONTROL \<equiv> 0x1"
abbreviation (input) ILI9320_LCD_DRIVING_CONTROL :: u8 where "ILI9320_LCD_DRIVING_CONTROL \<equiv> 0x2"
abbreviation (input) ILI9320_ENTRY_MODE :: u8 where "ILI9320_ENTRY_MODE \<equiv> 0x3"
abbreviation (input) ILI9320_ENTRY_MODE_AM :: u16 where "ILI9320_ENTRY_MODE_AM \<equiv> 0x8"
abbreviation (input) ILI9320_ENTRY_MODE_ID_SHIFT :: nat where "ILI9320_ENTRY_MODE_ID_SHIFT \<equiv> 4"
abbreviation (input) ILI9320_ENTRY_MODE_BGR :: u16 where "ILI9320_ENTRY_MODE_BGR \<equiv> 0x1000"
abbreviation (input) ILI9320_ENTRY_MODE_DFM :: u16 where "ILI9320_ENTRY_MODE_DFM \<equiv> 0x4000"
abbreviation (input) ILI9320_ENTRY_MODE_TRI :: u16 where "ILI9320_ENTRY_MODE_TRI \<equiv> 0x8000"
abbreviation (input) ILI9320_RESIZE_CONTROL :: u8 where "ILI9320_RESIZE_CONTROL \<equiv> 0x4"
abbreviation (input) ILI9320_DISPLAY_CONTROL_1 :: u8 where "ILI9320_DISPLAY_CONTROL_1 \<equiv> 0x7"
abbreviation (input) ILI9320_DISPLAY_CONTROL_2 :: u8 where "ILI9320_DISPLAY_CONTROL_2 \<equiv> 0x8"
abbreviation (input) ILI9320_DISPLAY_CONTROL_3 :: u8 where "ILI9320_DISPLAY_CONTROL_3 \<equiv> 0x9"
abbreviation (input) ILI9320_DISPLAY_CONTROL_4 :: u8 where "ILI9320_DISPLAY_CONTROL_4 \<equiv> 0xA"
abbreviation (input) ILI9320_FRAME_MARKER :: u8 where "ILI9320_FRAME_MARKER \<equiv> 0xD"
abbreviation (input) ILI9320_POWER_CONTROL_1 :: u8 where "ILI9320_POWER_CONTROL_1 \<equiv> 0x10"
abbreviation (input) ILI9320_POWER_CONTROL_2 :: u8 where "ILI9320_POWER_CONTROL_2 \<equiv> 0x11"
abbreviation (input) ILI9320_POWER_CONTROL_3 :: u8 where "ILI9320_POWER_CONTROL_3 \<equiv> 0x12"
abbreviation (input) ILI9320_POWER_CONTROL_4 :: u8 where "ILI9320_POWER_CONTROL_4 \<equiv> 0x13"
abbreviation (input) ILI9320_GRAM_X :: u8 where "ILI9320_GRAM_X \<equiv> 0x20"
abbreviation (input) ILI9320_GRAM_Y :: u8 where "ILI9320_GRAM_Y \<equiv> 0x21"
abbreviation (input) ILI9320_GRAM_DATA :: u8 where "ILI9320_GRAM_DATA \<equiv> 0x22"
abbreviation (input) ILI9320_POWER_CONTROL_7 :: u8 where "ILI9320_POWER_CONTROL_7 \<equiv> 0x29"
abbreviation (input) ILI9320_GAMMA_30 :: u8 where "ILI9320_GAMMA_30 \<equiv> 0x30"
abbreviation (input) ILI9320_GAMMA_31 :: u8 where "ILI9320_GAMMA_31 \<equiv> 0x31"
abbreviation (input) ILI9320_GAMMA_32 :: u8 where "ILI9320_GAMMA_32 \<equiv> 0x32"
abbreviation (input) ILI9320_GAMMA_35 :: u8 where "ILI9320_GAMMA_35 \<equiv> 0x35"
abbreviation (input) ILI9320_GAMMA_36 :: u8 where "ILI9320_GAMMA_36 \<equiv> 0x36"
abbreviation (input) ILI9320_GAMMA_37 :: u8 where "ILI9320_GAMMA_37 \<equiv> 0x37"
abbreviation (input) ILI9320_GAMMA_38 :: u8 where "ILI9320_GAMMA_38 \<equiv> 0x38"
abbreviation (input) ILI9320_GAMMA_39 :: u8 where "ILI9320_GAMMA_39 \<equiv> 0x39"
abbreviation (input) ILI9320_GAMMA_3C :: u8 where "ILI9320_GAMMA_3C \<equiv> 0x3C"
abbreviation (input) ILI9320_GAMMA_3D :: u8 where "ILI9320_GAMMA_3D \<equiv> 0x3D"
abbreviation (input) ILI9320_WINDOW_X_START :: u8 where "ILI9320_WINDOW_X_START \<equiv> 0x50"
abbreviation (input) ILI9320_WINDOW_X_END :: u8 where "ILI9320_WINDOW_X_END \<equiv> 0x51"
abbreviation (input) ILI9320_WINDOW_Y_START :: u8 where "ILI9320_WINDOW_Y_START \<equiv> 0x52"
abbreviation (input) ILI9320_WINDOW_Y_END :: u8 where "ILI9320_WINDOW_Y_END \<equiv> 0x53"
abbreviation (input) ILI9320_GATE_SCAN :: u8 where "ILI9320_GATE_SCAN \<equiv> 0x60"
abbreviation (input) ILI9320_BASE_IMAGE :: u8 where "ILI9320_BASE_IMAGE \<equiv> 0x61"
abbreviation (input) ILI9320_PANEL_INTERFACE_1 :: u8 where "ILI9320_PANEL_INTERFACE_1 \<equiv> 0x90"
abbreviation (input) ILI9320_PANEL_INTERFACE_2 :: u8 where "ILI9320_PANEL_INTERFACE_2 \<equiv> 0x92"
abbreviation (input) ILI9320_PANEL_INTERFACE_3 :: u8 where "ILI9320_PANEL_INTERFACE_3 \<equiv> 0x93"
abbreviation (input) R61505U_DISPLAY_CONTROL_1 :: u8 where "R61505U_DISPLAY_CONTROL_1 \<equiv> 0x7"
abbreviation (input) R61505U_DISPLAY_CONTROL_1_VON :: u16 where "R61505U_DISPLAY_CONTROL_1_VON \<equiv> 0x40"
abbreviation (input) R61505U_POWER_CONTROL_3 :: u8 where "R61505U_POWER_CONTROL_3 \<equiv> 0x12"
abbreviation (input) R61505U_POWER_CONTROL_3_PSON :: u16 where "R61505U_POWER_CONTROL_3_PSON \<equiv> 0x20"
abbreviation (input) R61505U_POWER_CONTROL_5 :: u8 where "R61505U_POWER_CONTROL_5 \<equiv> 0x17"
abbreviation (input) R61505U_POWER_CONTROL_5_PSE :: u16 where "R61505U_POWER_CONTROL_5_PSE \<equiv> 0x1"
abbreviation (input) R61505U_GAMMA_33 :: u8 where "R61505U_GAMMA_33 \<equiv> 0x33"
abbreviation (input) R61505U_GAMMA_34 :: u8 where "R61505U_GAMMA_34 \<equiv> 0x34"
abbreviation (input) R61505U_GAMMA_3A :: u8 where "R61505U_GAMMA_3A \<equiv> 0x3A"
abbreviation (input) R61505U_GAMMA_3B :: u8 where "R61505U_GAMMA_3B \<equiv> 0x3B"
abbreviation (input) R61505U_CALIBRATION_CONTROL :: u8 where "R61505U_CALIBRATION_CONTROL \<equiv> 0xA4"
abbreviation (input) R61505U_CALIBRATION_CONTROL_CALB :: u16 where "R61505U_CALIBRATION_CONTROL_CALB \<equiv> 0x1"

section \<open>JBT6K71\<close>

abbreviation (input) JBT6K71_OSCILLATION :: u16 where "JBT6K71_OSCILLATION \<equiv> 0x0"
abbreviation (input) JBT6K71_DRIVER_OUTPUT_CONTROL :: u16 where "JBT6K71_DRIVER_OUTPUT_CONTROL \<equiv> 0x1"
abbreviation (input) JBT6K71_LCD_DRIVING_SIGNAL :: u16 where "JBT6K71_LCD_DRIVING_SIGNAL \<equiv> 0x2"
abbreviation (input) JBT6K71_ENTRY_MODE :: u16 where "JBT6K71_ENTRY_MODE \<equiv> 0x3"
abbreviation (input) JBT6K71_ENTRY_MODE_AM :: u16 where "JBT6K71_ENTRY_MODE_AM \<equiv> 0x8"
abbreviation (input) JBT6K71_ENTRY_MODE_ID_SHIFT :: nat where "JBT6K71_ENTRY_MODE_ID_SHIFT \<equiv> 4"
abbreviation (input) JBT6K71_ENTRY_MODE_BGR :: u16 where "JBT6K71_ENTRY_MODE_BGR \<equiv> 0x1000"
abbreviation (input) JBT6K71_ENTRY_MODE_DFM :: u16 where "JBT6K71_ENTRY_MODE_DFM \<equiv> 0x6000"
abbreviation (input) JBT6K71_ENTRY_MODE_DFM_SHIFT :: nat where "JBT6K71_ENTRY_MODE_DFM_SHIFT \<equiv> 13"
abbreviation (input) JBT6K71_ENTRY_MODE_TRI :: u16 where "JBT6K71_ENTRY_MODE_TRI \<equiv> 0x8000"
abbreviation (input) JBT6K71_DISPLAY_MODE_1 :: u16 where "JBT6K71_DISPLAY_MODE_1 \<equiv> 0x7"
abbreviation (input) JBT6K71_FR_FREQUENCY_ADJUSTMENT :: u16 where "JBT6K71_FR_FREQUENCY_ADJUSTMENT \<equiv> 0xD"
abbreviation (input) JBT6K71_LTPS_CONTROL_1 :: u16 where "JBT6K71_LTPS_CONTROL_1 \<equiv> 0x12"
abbreviation (input) JBT6K71_LTPS_CONTROL_2 :: u16 where "JBT6K71_LTPS_CONTROL_2 \<equiv> 0x13"
abbreviation (input) JBT6K71_AMPLIFIER_CAPABILITY :: u16 where "JBT6K71_AMPLIFIER_CAPABILITY \<equiv> 0x1C"
abbreviation (input) JBT6K71_MODE :: u16 where "JBT6K71_MODE \<equiv> 0x1D"
abbreviation (input) JBT6K71_DISPLAY_CONTROL :: u16 where "JBT6K71_DISPLAY_CONTROL \<equiv> 0x100"
abbreviation (input) JBT6K71_AUTO_MANAGEMENT_CONTROL :: u16 where "JBT6K71_AUTO_MANAGEMENT_CONTROL \<equiv> 0x101"
abbreviation (input) JBT6K71_POWER_SUPPLY_CONTROL_1 :: u16 where "JBT6K71_POWER_SUPPLY_CONTROL_1 \<equiv> 0x102"
abbreviation (input) JBT6K71_POWER_SUPPLY_CONTROL_2 :: u16 where "JBT6K71_POWER_SUPPLY_CONTROL_2 \<equiv> 0x103"
abbreviation (input) JBT6K71_POWER_SUPPLY_CONTROL_4 :: u16 where "JBT6K71_POWER_SUPPLY_CONTROL_4 \<equiv> 0x105"
abbreviation (input) JBT6K71_RAM_ADDRESS_LOW :: u16 where "JBT6K71_RAM_ADDRESS_LOW \<equiv> 0x200"
abbreviation (input) JBT6K71_RAM_ADDRESS_HIGH :: u16 where "JBT6K71_RAM_ADDRESS_HIGH \<equiv> 0x201"
abbreviation (input) JBT6K71_GRAM_DATA :: u16 where "JBT6K71_GRAM_DATA \<equiv> 0x202"
abbreviation (input) JBT6K71_GRAY_SCALE_1 :: u16 where "JBT6K71_GRAY_SCALE_1 \<equiv> 0x300"
abbreviation (input) JBT6K71_GRAY_SCALE_2 :: u16 where "JBT6K71_GRAY_SCALE_2 \<equiv> 0x301"
abbreviation (input) JBT6K71_GRAY_SCALE_3 :: u16 where "JBT6K71_GRAY_SCALE_3 \<equiv> 0x302"
abbreviation (input) JBT6K71_GRAY_SCALE_4 :: u16 where "JBT6K71_GRAY_SCALE_4 \<equiv> 0x303"
abbreviation (input) JBT6K71_GRAY_SCALE_5 :: u16 where "JBT6K71_GRAY_SCALE_5 \<equiv> 0x304"
abbreviation (input) JBT6K71_BLUE_OFFSET :: u16 where "JBT6K71_BLUE_OFFSET \<equiv> 0x305"
abbreviation (input) JBT6K71_SCREEN1_DRIVE_START :: u16 where "JBT6K71_SCREEN1_DRIVE_START \<equiv> 0x402"
abbreviation (input) JBT6K71_SCREEN1_DRIVE_END :: u16 where "JBT6K71_SCREEN1_DRIVE_END \<equiv> 0x403"
abbreviation (input) JBT6K71_HORIZONTAL_RAM_START :: u16 where "JBT6K71_HORIZONTAL_RAM_START \<equiv> 0x406"
abbreviation (input) JBT6K71_HORIZONTAL_RAM_END :: u16 where "JBT6K71_HORIZONTAL_RAM_END \<equiv> 0x407"
abbreviation (input) JBT6K71_VERTICAL_RAM_START :: u16 where "JBT6K71_VERTICAL_RAM_START \<equiv> 0x408"
abbreviation (input) JBT6K71_VERTICAL_RAM_END :: u16 where "JBT6K71_VERTICAL_RAM_END \<equiv> 0x409"

end
