(* ===== verification/Lcd_Panel.thy ===== *)
theory Lcd_Panel
  imports Test_Framework Lcd_Regs
begin

text \<open>
  The common part of the display drivers (\<^verbatim>\<open>src/unit/lcd/lcd-controller.h\<close>): colours, pixel formats, address modes and the
  table of operations that every controller provides. What a driver sends to a panel goes through the functions of
  \<^verbatim>\<open>src/unit/lcd/lcd-transport.h\<close>; their contract is a locale.
\<close>

section \<open>Data\<close>

datatype lcd_pixel_format =
  LCD_PIXEL_FORMAT_RGB565 | LCD_PIXEL_FORMAT_RGB666_8_8_2 | LCD_PIXEL_FORMAT_RGB666_2_8_8 | LCD_PIXEL_FORMAT_RGB666

text \<open>The numbers that C gives to the enumerators, which select a bit of \<open>pixel_formats\<close>.\<close>

primrec format_number :: "lcd_pixel_format \<Rightarrow> nat" where
  "format_number LCD_PIXEL_FORMAT_RGB565 = 0"
| "format_number LCD_PIXEL_FORMAT_RGB666_8_8_2 = 1"
| "format_number LCD_PIXEL_FORMAT_RGB666_2_8_8 = 2"
| "format_number LCD_PIXEL_FORMAT_RGB666 = 3"

datatype lcd_controller_type =
    LCD_CONTROLLER_UNKNOWN | LCD_CONTROLLER_L5F30539P00 | LCD_CONTROLLER_JBT6K71 | LCD_CONTROLLER_PCF8882
  | LCD_CONTROLLER_SSD1286 | LCD_CONTROLLER_LS020 | LCD_CONTROLLER_R61505

abbreviation (input) LCD_CONTROLLER_ID_UNAVAILABLE :: u32 where "LCD_CONTROLLER_ID_UNAVAILABLE \<equiv> 0xFFFFFFFF"

record lcd_color =
  red :: u8
  green :: u8
  blue :: u8

record lcd_address_mode =
  swap_axes :: bool
  reverse_x :: bool
  reverse_y :: bool
  bgr :: bool

definition DEFAULT_MODE :: lcd_address_mode where
  "DEFAULT_MODE = \<lparr>swap_axes = False, reverse_x = False, reverse_y = False, bgr = False\<rparr>"

text \<open>The static variables of the drivers.\<close>

record lcd_statics =
  r61505_format :: lcd_pixel_format
  r61505_mode :: lcd_address_mode
  jbt_format :: lcd_pixel_format
  jbt_mode :: lcd_address_mode
  l5f_format :: lcd_pixel_format
  ssd_driver_output :: u16
  ssd_entry_mode :: u16

record 'h panelled = "'h tested" +
  statics :: lcd_statics

text \<open>
  The operations of a controller. A null pointer is \<open>None\<close>; a function that fills an array returns what it has stored.
\<close>

record ('h, 'z) lcd_controller =
  lcd_name :: string
  lcd_type :: lcd_controller_type
  lcd_id :: u32
  lcd_width :: u16
  lcd_height :: u16
  pixel_formats :: u32
  reset_settle_ms :: u16
  gram_write_command :: "u8 list"
  gram_read_command :: "u8 list"
  rgb565_read_dummy_bytes :: u8
  swap_axes_changes_gram_order :: bool
  reverse_x_mirrors_coordinates :: bool
  reverse_y_mirrors_coordinates :: bool
  matches_id :: "(u32 \<Rightarrow> bool) option"
  probe :: "(('h, 'z) panelled_scheme, bool \<times> u32 option) cmd"
  initialize :: "(('h, 'z) panelled_scheme, bool) cmd"
  quantize_color :: "lcd_pixel_format \<Rightarrow> lcd_color \<Rightarrow> lcd_color"
  set_pixel_format :: "lcd_pixel_format \<Rightarrow> (('h, 'z) panelled_scheme, bool) cmd"
  set_address_mode :: "lcd_address_mode \<Rightarrow> (('h, 'z) panelled_scheme, bool) cmd"
  set_window :: "u16 \<Rightarrow> u16 \<Rightarrow> u16 \<Rightarrow> u16 \<Rightarrow> (('h, 'z) panelled_scheme, bool) cmd"
  set_cursor :: "(u16 \<Rightarrow> u16 \<Rightarrow> (('h, 'z) panelled_scheme, bool) cmd) option"
  write_pixels :: "lcd_color list \<Rightarrow> (('h, 'z) panelled_scheme, bool) cmd"
  read_pixels :: "(nat \<Rightarrow> (('h, 'z) panelled_scheme, bool \<times> lcd_color list) cmd) option"

text \<open>C's \<^verbatim>\<open>a() && b()\<close> on commands.\<close>

definition andM :: "('s, bool) cmd \<Rightarrow> ('s, bool) cmd \<Rightarrow> ('s, bool) cmd" where
  "andM c d = bindM c (\<lambda>ok. if ok then d else retM False)"

section \<open>Pixels on the wire\<close>

text \<open>
  The three drivers of the parallel panels carry the same conversions between a colour, with six bits for each component, and
  the bytes of a pixel; \<^verbatim>\<open>expand_5bit\<close> is a parameter, because the drivers differ in it.
\<close>

definition pixel565 :: "lcd_color \<Rightarrow> u16" where
  "pixel565 c = push_bit 11 (ucast (drop_bit 1 (red c))) OR push_bit 5 (ucast (green c)) OR ucast (drop_bit 1 (blue c))"

definition word_be :: "u16 \<Rightarrow> u8 list" where
  "word_be v = [ucast (drop_bit 8 v), ucast v]"

definition pixel_bytes :: "lcd_pixel_format \<Rightarrow> lcd_color \<Rightarrow> u8 list" where
  "pixel_bytes fmt c = (case fmt of
       LCD_PIXEL_FORMAT_RGB565 \<Rightarrow> word_be (pixel565 c)
     | LCD_PIXEL_FORMAT_RGB666_8_8_2 \<Rightarrow>
         [push_bit 2 (red c) OR drop_bit 4 (green c), push_bit 4 (green c) OR drop_bit 2 (blue c), push_bit 6 (blue c)]
     | LCD_PIXEL_FORMAT_RGB666_2_8_8 \<Rightarrow>
         [drop_bit 4 (red c), push_bit 4 (red c) OR drop_bit 2 (green c), push_bit 6 (green c) OR blue c]
     | LCD_PIXEL_FORMAT_RGB666 \<Rightarrow> [push_bit 2 (red c), push_bit 2 (green c), push_bit 2 (blue c)])"

definition pixel_size :: "lcd_pixel_format \<Rightarrow> nat" where
  "pixel_size fmt = (if fmt = LCD_PIXEL_FORMAT_RGB565 then 2 else 3)"

definition pixel_color :: "(u8 \<Rightarrow> u8) \<Rightarrow> lcd_pixel_format \<Rightarrow> u8 list \<Rightarrow> lcd_color" where
  "pixel_color expand fmt d = (case fmt of
       LCD_PIXEL_FORMAT_RGB565 \<Rightarrow>
         (let pixel = push_bit 8 (ucast (d ! 0)) OR ucast (d ! 1) :: u16
          in \<lparr>red = expand (ucast (drop_bit 11 pixel)), green = ucast (drop_bit 5 pixel AND 0x3F),
              blue = expand (ucast (pixel AND 0x1F))\<rparr>)
     | LCD_PIXEL_FORMAT_RGB666_8_8_2 \<Rightarrow>
         \<lparr>red = drop_bit 2 (d ! 0), green = push_bit 4 (d ! 0 AND 0x03) OR drop_bit 4 (d ! 1),
          blue = push_bit 2 (d ! 1 AND 0x0F) OR drop_bit 6 (d ! 2)\<rparr>
     | LCD_PIXEL_FORMAT_RGB666_2_8_8 \<Rightarrow>
         \<lparr>red = push_bit 4 (d ! 0 AND 0x03) OR drop_bit 4 (d ! 1), green = push_bit 2 (d ! 1 AND 0x0F) OR drop_bit 6 (d ! 2),
          blue = d ! 2 AND 0x3F\<rparr>
     | LCD_PIXEL_FORMAT_RGB666 \<Rightarrow> \<lparr>red = drop_bit 2 (d ! 0), green = drop_bit 2 (d ! 1), blue = drop_bit 2 (d ! 2)\<rparr>)"

text \<open>The colours a panel can show have components of six bits. In the 16-bit format the lowest bit of red and blue is lost.\<close>

definition six_bit :: "lcd_color \<Rightarrow> bool" where
  "six_bit c \<longleftrightarrow> red c < 64 \<and> green c < 64 \<and> blue c < 64"

definition rounded :: "(u8 \<Rightarrow> u8) \<Rightarrow> lcd_pixel_format \<Rightarrow> lcd_color \<Rightarrow> lcd_color" where
  "rounded expand fmt c =
     (if fmt = LCD_PIXEL_FORMAT_RGB565
      then c\<lparr>red := expand (drop_bit 1 (red c)), blue := expand (drop_bit 1 (blue c))\<rparr> else c)"

lemma length_pixel_bytes: "length (pixel_bytes fmt c) = pixel_size fmt"
  by (cases fmt) (simp_all add: pixel_bytes_def pixel_size_def word_be_def)

lemma bits_below_64:
  assumes "x < 64" "6 \<le> n"
  shows "bit (x :: u8) n \<longleftrightarrow> False"
proof -
  from assms(1) have "take_bit 6 (unat x) = unat x" by (simp add: word_less_nat_alt take_bit_nat_eq_self)
  then have "bit (unat x) n \<Longrightarrow> n < 6" by (metis bit_take_bit_iff)
  with assms(2) show ?thesis by (auto simp: bit_unsigned_iff)
qed

lemma u8_eqI:
  assumes "\<And>n. n \<in> {0, 1, 2, 3, 4, 5, 6, 7} \<Longrightarrow> bit (x :: u8) n = bit y n"
  shows "x = y"
proof (rule bit_word_eqI)
  fix n assume "n < LENGTH(8)"
  then have "n \<in> {0, 1, 2, 3, 4, 5, 6, 7}" by auto
  then show "bit x n = bit y n" by (rule assms)
qed

lemmas pixel_bits = bit_drop_bit_eq bit_push_bit_iff bit_or_iff bit_and_iff bit_unsigned_iff

lemma word_be_back: "push_bit 8 (ucast (ucast (drop_bit 8 p) :: u8)) OR ucast (ucast p :: u8) = (p :: u16)"
  by (rule bit_word_eqI) (auto simp: pixel_bits)

lemma pixel_roundtrip:
  assumes "six_bit c"
  shows "pixel_color expand fmt (pixel_bytes fmt c) = rounded expand fmt c"
proof -
  note six = assms [unfolded six_bit_def]
  note small = bits_below_64 [OF six [THEN conjunct1]] bits_below_64 [OF six [THEN conjunct2, THEN conjunct1]]
    bits_below_64 [OF six [THEN conjunct2, THEN conjunct2]]
  have r: "ucast (drop_bit 11 (pixel565 c)) = drop_bit 1 (red c)" and g: "ucast (drop_bit 5 (pixel565 c) AND 0x3F) = green c"
    and b: "ucast (pixel565 c AND 0x1F) = drop_bit 1 (blue c)"
    unfolding pixel565_def by (rule u8_eqI; simp add: pixel_bits small, elim disjE; simp add: small)+
  show ?thesis
  proof (cases fmt)
    case LCD_PIXEL_FORMAT_RGB565
    then show ?thesis
      unfolding pixel_color_def pixel_bytes_def rounded_def word_be_def Let_def
      by (simp only: lcd_pixel_format.case nth_Cons_0 nth_Cons_Suc One_nat_def word_be_back r g b) simp
  next
    case LCD_PIXEL_FORMAT_RGB666_8_8_2
    have "drop_bit 2 (push_bit 2 (red c) OR drop_bit 4 (green c)) = red c"
      "push_bit 4 ((push_bit 2 (red c) OR drop_bit 4 (green c)) AND 0x03) OR drop_bit 4 (push_bit 4 (green c) OR drop_bit 2 (blue c)) = green c"
      "push_bit 2 ((push_bit 4 (green c) OR drop_bit 2 (blue c)) AND 0x0F) OR drop_bit 6 (push_bit 6 (blue c)) = blue c"
      by (rule u8_eqI; auto simp: pixel_bits small; simp add: numeral_2_eq_2 numeral_3_eq_3)+
    then show ?thesis
      unfolding LCD_PIXEL_FORMAT_RGB666_8_8_2 pixel_color_def pixel_bytes_def rounded_def
      by (simp only: lcd_pixel_format.case nth_Cons_0 nth_Cons_Suc One_nat_def numeral_2_eq_2) simp
  next
    case LCD_PIXEL_FORMAT_RGB666_2_8_8
    have "push_bit 4 (drop_bit 4 (red c) AND 0x03) OR drop_bit 4 (push_bit 4 (red c) OR drop_bit 2 (green c)) = red c"
      "push_bit 2 ((push_bit 4 (red c) OR drop_bit 2 (green c)) AND 0x0F) OR drop_bit 6 (push_bit 6 (green c) OR blue c) = green c"
      "(push_bit 6 (green c) OR blue c) AND 0x3F = blue c"
      by (rule u8_eqI; auto simp: pixel_bits small; simp add: numeral_2_eq_2 numeral_3_eq_3)+
    then show ?thesis
      unfolding LCD_PIXEL_FORMAT_RGB666_2_8_8 pixel_color_def pixel_bytes_def rounded_def
      by (simp only: lcd_pixel_format.case nth_Cons_0 nth_Cons_Suc One_nat_def numeral_2_eq_2) simp
  next
    case LCD_PIXEL_FORMAT_RGB666
    have "drop_bit 2 (push_bit 2 (x :: u8)) = x" if "x < 64" for x
      by (rule u8_eqI) (auto simp: pixel_bits bits_below_64 [OF that])
    then show ?thesis
      unfolding LCD_PIXEL_FORMAT_RGB666 pixel_color_def pixel_bytes_def rounded_def using six
      by (simp only: lcd_pixel_format.case nth_Cons_0 nth_Cons_Suc One_nat_def numeral_2_eq_2) simp
  qed
qed

end
