(* ===== verification/Lcd_Link.thy ===== *)
theory Lcd_Link
  imports Lcd_Panel
begin

text \<open>
  The contract between the display drivers and the transport below them (\<^verbatim>\<open>src/unit/lcd/lcd-transport.h\<close>). What a panel sees
  of a run is a list of events; a transport says which accesses of the processor they come from.
\<close>

section \<open>What a panel sees\<close>

text \<open>A byte received with the command line active, a byte of data, and a byte read from the panel.\<close>

datatype lcd_event = Command u8 | Data u8 | Received u8

definition draws :: "(access list \<Rightarrow> lcd_event list \<Rightarrow> bool) \<Rightarrow> (('h, 'z) panelled_scheme, 'a) cmd \<Rightarrow>
    ('a \<Rightarrow> lcd_event list \<Rightarrow> lcd_statics \<Rightarrow> lcd_statics \<Rightarrow> bool) \<Rightarrow> bool" where
  "draws sees c Q \<longleftrightarrow> does statics c (\<lambda>x tr a b. \<exists>es. sees tr es \<and> Q x es a b)"

interpretation statics: suite_observer "statics :: ('h, 'z) panelled_scheme \<Rightarrow> lcd_statics"
  by unfold_locales simp_all

lemma draws_mono: "draws sees c P \<Longrightarrow> (\<And>x es a b. P x es a b \<Longrightarrow> Q x es a b) \<Longrightarrow> draws sees c Q"
  unfolding draws_def by (erule does_mono) blast

lemma drawsI: "does statics c (\<lambda>x tr a b. sees tr (f x) \<and> Q x (f x) a b) \<Longrightarrow> draws sees c Q"
  unfolding draws_def by (erule does_mono) blast

lemma draws_map: "draws sees c (\<lambda>x. Q (f x)) \<Longrightarrow> draws sees (mapM f c) Q"
  unfolding draws_def by (rule does_map)

text \<open>
  A script says, from the static variables of the drivers, what a successful command has sent, and the variables afterwards.
  \<open>None\<close>: the command cannot succeed. Scripts are run one after the other.
\<close>

type_synonym script = "lcd_statics \<Rightarrow> (lcd_event list \<times> lcd_statics) option"

definition follows :: "script \<Rightarrow> script \<Rightarrow> script" where
  "follows f g a = (case f a of None \<Rightarrow> None | Some (es, b) \<Rightarrow>
     (case g b of None \<Rightarrow> None | Some (fs, d) \<Rightarrow> Some (es @ fs, d)))"

definition emit :: "lcd_event list \<Rightarrow> script" where
  "emit es a = Some (es, a)"

definition sends :: "(access list \<Rightarrow> lcd_event list \<Rightarrow> bool) \<Rightarrow> (('h, 'z) panelled_scheme, bool) cmd \<Rightarrow> script \<Rightarrow> bool" where
  "sends sees c f \<longleftrightarrow> draws sees c (\<lambda>ok es a b. ok \<longrightarrow> f a = Some (es, b))"

lemma sends_cong: "sends sees c f \<Longrightarrow> (\<And>a. f a = g a) \<Longrightarrow> sends sees c g"
  unfolding sends_def by (erule draws_mono) simp

lemma sends_taken:
  "sends sees c f \<Longrightarrow> sends sees (if True then c else d) f" "sends sees d f \<Longrightarrow> sends sees (if False then c else d) f"
  by simp_all

lemma draws_sends:
  "sends sees c f \<Longrightarrow> (\<And>es a b. f a = Some (es, b) \<Longrightarrow> Q es a b) \<Longrightarrow> draws sees c (\<lambda>ok es a b. ok \<longrightarrow> Q es a b)"
  unfolding sends_def by (erule draws_mono) simp

lemma follows_emit [simp]: "follows (emit es) f a = map_option (\<lambda>(fs, b). (es @ fs, b)) (f a)"
  by (simp add: follows_def emit_def split: option.splits)

lemma follows_emit_emit: "follows (emit es) (emit fs) = emit (es @ fs)"
  by (rule ext) (simp add: emit_def)

section \<open>The transport\<close>

locale wire =
  fixes sees :: "access list \<Rightarrow> lcd_event list \<Rightarrow> bool"
  assumes sees_Nil: "sees [] []"
    and sees_append: "sees tr es \<Longrightarrow> sees us fs \<Longrightarrow> sees (tr @ us) (es @ fs)"
begin

lemma draws_bind:
  assumes "draws sees c P"
    and "\<And>x es a b. P x es a b \<Longrightarrow> draws sees (f x) (\<lambda>y fs b' d. b' = b \<longrightarrow> Q y (es @ fs) a d)"
  shows "draws sees (bindM c f) Q"
  unfolding draws_def
proof (rule does_bind [OF assms(1) [unfolded draws_def]], elim exE conjE)
  fix x t1 a b es assume s: "sees t1 es" and p: "P x es a b"
  show "does statics (f x) (\<lambda>y t2 b' d. b' = b \<longrightarrow> (\<exists>fs. sees (t1 @ t2) fs \<and> Q y fs a d))"
    using assms(2) [OF p] unfolding draws_def
    by (rule does_mono) (blast intro: sees_append [OF s])
qed

lemma draws_ret: "(\<And>a. Q x [] a a) \<Longrightarrow> draws sees (retM x) Q"
  unfolding draws_def by (rule does_ret) (blast intro: sees_Nil)

lemma draws_get: "(\<And>s. Q (f s) [] (statics s) (statics s)) \<Longrightarrow> draws sees (getM f) Q"
  unfolding draws_def by (rule does_get) (blast intro: sees_Nil)

lemma draws_statics:
  "(\<And>a. Q () [] a (g a)) \<Longrightarrow> draws sees (modM (\<lambda>s. s\<lparr>statics := g (statics s)\<rparr>)) Q"
  unfolding draws_def by (rule does_mod, simp) (fastforce intro: sees_Nil)

text \<open>A result that is kept while the program goes on: only its being true is followed.\<close>

lemma sends_bind:
  assumes "sends sees c f" "sends sees (d True) g" "sends sees (d False) (\<lambda>_. None)"
  shows "sends sees (bindM c d) (follows f g)"
  unfolding sends_def
proof (rule draws_bind [OF assms(1) [unfolded sends_def]])
  fix ok es a b assume e: "ok \<longrightarrow> f a = Some (es, b)"
  show "draws sees (d ok) (\<lambda>ok2 fs b' d. b' = b \<longrightarrow> ok2 \<longrightarrow> follows f g a = Some (es @ fs, d))"
  proof (cases ok)
    case True
    with e show ?thesis
      by (simp, intro draws_mono [OF assms(2) [unfolded sends_def]]) (auto simp: follows_def)
  next
    case False
    then show ?thesis
      by (simp, intro draws_mono [OF assms(3) [unfolded sends_def]]) simp
  qed
qed

lemma sends_none:
  assumes "sends sees c (\<lambda>_. None)" "sends sees (d False) (\<lambda>_. None)"
  shows "sends sees (bindM c d) (\<lambda>_. None)"
  unfolding sends_def
proof (rule draws_bind [OF assms(1) [unfolded sends_def]])
  fix ok es a b assume "ok \<longrightarrow> None = Some (es :: lcd_event list, b :: lcd_statics)"
  then show "draws sees (d ok) (\<lambda>ok2 fs b' d. b' = b \<longrightarrow> ok2 \<longrightarrow> None = Some (es @ fs, d))"
    using assms(2) by (simp add: sends_def draws_mono)
qed

lemma sends_ret: "sends sees (retM True) (emit [])" "sends sees (retM False) (\<lambda>_. None)"
  unfolding sends_def by (rule draws_ret, simp add: emit_def)+

lemma sends_failed: "sends sees (retM False) f"
  unfolding sends_def by (rule draws_ret) simp

lemma sends_and: "sends sees c f \<Longrightarrow> sends sees d g \<Longrightarrow> sends sees (andM c d) (follows f g)"
  unfolding andM_def by (erule sends_bind) (simp_all add: sends_ret)

lemma sends_after:
  assumes "draws sees c (\<lambda>_ es a b. es = [] \<and> b = g a)" and "\<And>x. sends sees (d x) f"
  shows "sends sees (bindM c d) (\<lambda>a. f (g a))"
  unfolding sends_def
  by (rule draws_bind [OF assms(1)], rule draws_mono [OF assms(2) [unfolded sends_def]]) auto

lemma sends_get:
  assumes "\<And>x. sends sees (d x) (f x)"
  shows "sends sees (bindM (getM (\<lambda>s. g (statics s))) d) (\<lambda>a. f (g a) a)"
  unfolding sends_def
  by (rule draws_bind [OF draws_get [where Q = "\<lambda>x es a b. x = g a \<and> es = [] \<and> b = a"]], simp,
      rule draws_mono [OF assms [unfolded sends_def]]) auto

lemma sends_if: "(b \<Longrightarrow> sends sees c f) \<Longrightarrow> (\<not> b \<Longrightarrow> sends sees d g) \<Longrightarrow> sends sees (if b then c else d) (if b then f else g)"
  by simp

end

text \<open>
  What a driver relies on: a command or data that were accepted have reached the panel in order, bytes that were read came from
  it, waiting is not seen, and none of it touches the variables of the drivers.
\<close>

locale lcd_transport = wire sees
  for sees :: "access list \<Rightarrow> lcd_event list \<Rightarrow> bool" +
  fixes write_command :: "u8 \<Rightarrow> (('h, 'z) panelled_scheme, bool) cmd"
    and write_data :: "u8 list \<Rightarrow> (('h, 'z) panelled_scheme, bool) cmd"
    and read_data :: "nat \<Rightarrow> (('h, 'z) panelled_scheme, bool \<times> u8 list) cmd"
    and delay :: "u32 \<Rightarrow> (('h, 'z) panelled_scheme, unit) cmd"
  assumes command_seen: "draws sees (write_command c) (\<lambda>ok es a b. b = a \<and> (ok \<longrightarrow> es = [Command c]))"
    and data_seen: "draws sees (write_data bs) (\<lambda>ok es a b. b = a \<and> (ok \<longrightarrow> es = map Data bs))"
    and read_seen: "draws sees (read_data n) (\<lambda>r es a b. b = a \<and> (fst r \<longrightarrow> es = map Received (snd r) \<and> length (snd r) = n))"
    and delay_unseen: "draws sees (delay us) (\<lambda>_ es a b. es = [] \<and> b = a)"
begin

lemma sends_command: "sends sees (write_command c) (emit [Command c])"
  unfolding sends_def by (rule draws_mono [OF command_seen]) (simp add: emit_def)

lemma sends_data: "sends sees (write_data bs) (emit (map Data bs))"
  unfolding sends_def by (rule draws_mono [OF data_seen]) (simp add: emit_def)

lemma sends_delay: "sends sees d f \<Longrightarrow> sends sees (bindM (delay us) (\<lambda>_. d)) f"
  by (rule sends_after [OF delay_unseen])

text \<open>A command byte with its parameters, and a register whose number is sent as two command bytes.\<close>

lemma sends_command_data: "sends sees (andM (write_command c) (write_data bs)) (emit (Command c # map Data bs))"
  by (rule sends_cong [OF sends_and [OF sends_command sends_data]]) (simp add: emit_def)

lemma sends_index_data:
  "sends sees (andM (andM (write_command h) (write_command l)) (write_data bs)) (emit (Command h # Command l # map Data bs))"
  by (rule sends_cong [OF sends_and [OF sends_and [OF sends_command sends_command] sends_data]])
     (simp add: emit_def follows_def)

end

end
