(* ===== verification/Lcd_Dif.thy ===== *)
theory Lcd_Dif
  imports Lcd_Link "HOL-Library.Sublist"
begin

text \<open>
  The transport over the display interface of the PMB8876 (\<^verbatim>\<open>src/unit/dif-v2/lcd-transport.c\<close>): every byte is a transfer of its
  own, with the command line set in the control register before it.
\<close>

section \<open>Definitions\<close>

abbreviation (input) DIF_TIMEOUT_MS :: u32 where "DIF_TIMEOUT_MS \<equiv> 100"
abbreviation (input) LCD_WRITE_TIM1 :: u32 where "LCD_WRITE_TIM1 \<equiv> 0x00000400"
abbreviation (input) LCD_WRITE_TIM2 :: u32 where "LCD_WRITE_TIM2 \<equiv> 0x02000400"
abbreviation (input) LCD_READ_TIM1 :: u32 where "LCD_READ_TIM1 \<equiv> 0x00030F00"
abbreviation (input) LCD_READ_TIM2 :: u32 where "LCD_READ_TIM2 \<equiv> 0x05020601"

definition dif_wait_idle :: "'h env \<Rightarrow> (('h, 'z) watched_scheme, bool) cmd" where
  "dif_wait_idle E =
     bindM (stopwatch_get E) (\<lambda>started.
     bindM (whileM (fuel E)
       (bindM (rd E DIF_STAT) (\<lambda>v.
        if v AND DIF_STAT_BSY \<noteq> 0 then mapM (\<lambda>t. t < DIF_TIMEOUT_MS) (stopwatch_elapsed_ms E started) else retM False))
       (test_watchdog_serve E)) (\<lambda>_.
     mapM (\<lambda>v. v AND DIF_STAT_BSY = 0) (rd E DIF_STAT)))"

definition lcd_transport_set_timings :: "'h env \<Rightarrow> u32 \<Rightarrow> u32 \<Rightarrow> (('h, 'z) watched_scheme, bool) cmd" where
  "lcd_transport_set_timings E lcdtim1 lcdtim2 =
     bindM (dif_wait_idle E) (\<lambda>idle.
     if \<not> idle then retM False else
     bindM (seqM [wr E DIF_RUNCTRL 0, wr E DIF_LCDTIM1 lcdtim1, wr E DIF_LCDTIM2 lcdtim2, wr E DIF_RUNCTRL DIF_RUNCTRL_RUN]) (\<lambda>_.
     retM True))"

definition lcd_transport_write_byte :: "'h env \<Rightarrow> bool \<Rightarrow> u8 \<Rightarrow> (('h, 'z) watched_scheme, bool) cmd" where
  "lcd_transport_write_byte E command v =
     bindM (dif_wait_idle E) (\<lambda>idle.
     if \<not> idle then retM False else
     bindM (seqM [wr E DIF_RUNCTRL 0,
                  wr E DIF_CSREG (DIF_CSREG_CS1 OR DIF_CSREG_BSCONF_1x8BIT OR (if command then DIF_CSREG_CD else 0)),
                  wr E DIF_RUNCTRL DIF_RUNCTRL_RUN,
                  wr E DIF_TXD (ucast v)]) (\<lambda>_.
     dif_wait_idle E))"

definition lcd_transport_init :: "'h env \<Rightarrow> (('h, 'z) machine_scheme, unit) cmd" where
  "lcd_transport_init E =
     (let control = GPIO_IS_ALT0 OR GPIO_OS_ALT0 OR GPIO_PS_ALT OR GPIO_DATA_HIGH;
          data = GPIO_IS_ALT0 OR GPIO_OS_ALT0 OR GPIO_PS_ALT OR GPIO_PDPU_PULLDOWN in
      seqM [wr E GPIO_CLC (push_bit MOD_CLC_RMC_SHIFT 1),
            wr E (GPIO_PIN GPIO_DIF_CD) control,
            wr E (GPIO_PIN GPIO_DIF_CS1) control,
            wr E (GPIO_PIN GPIO_DIF_WR) control,
            wr E (GPIO_PIN GPIO_DIF_RD) control,
            wr E (GPIO_PIN GPIO_DIF_D0) (GPIO_IS_ALT0 OR GPIO_OS_ALT0 OR GPIO_PS_ALT),
            wr E (GPIO_PIN GPIO_DIF_D1) data,
            wr E (GPIO_PIN GPIO_DIF_D2) data,
            wr E (GPIO_PIN GPIO_DIF_D3) data,
            wr E (GPIO_PIN GPIO_DIF_D4) data,
            wr E (GPIO_PIN GPIO_DIF_D5) data,
            wr E (GPIO_PIN GPIO_DIF_D6) data,
            wr E (GPIO_PIN GPIO_DIF_D7) data,
            wr E (GPIO_PIN GPIO_DIF_VD) (GPIO_PS_MANUAL OR GPIO_DIR_IN),
            gpio_init_output E GPIO_DIF_RESET1 GPIO_OS_NONE GPIO_PS_MANUAL False GPIO_PPEN_PUSHPULL GPIO_PDPU_NONE GPIO_ENAQ_OFF,
            wr E DIF_RUNCTRL 0,
            wr E DIF_CON 0,
            wr E DIF_PERREG DIF_PERREG_DIFPERMODE_PARALLEL,
            wr E DIF_TXFIFO_CFG (DIF_TXFIFO_CFG_TXBS_8_WORD OR DIF_TXFIFO_CFG_TXFA_4 OR DIF_TXFIFO_CFG_TXFC),
            wr E DIF_RXFIFO_CFG (DIF_RXFIFO_CFG_RXBS_4_WORD OR DIF_RXFIFO_CFG_RXFA_4 OR DIF_RXFIFO_CFG_RXFC),
            wr E DIF_LCDTIM1 LCD_WRITE_TIM1,
            wr E DIF_LCDTIM2 LCD_WRITE_TIM2,
            wr E DIF_CSREG (DIF_CSREG_CS1 OR DIF_CSREG_CD OR DIF_CSREG_BSCONF_1x8BIT),
            wr E DIF_RUNCTRL DIF_RUNCTRL_RUN])"

definition lcd_transport_reset_controller :: "'h env \<Rightarrow> (('h, 'z) watched_scheme, unit) cmd" where
  "lcd_transport_reset_controller E =
     seqM [gpio_set E GPIO_DIF_RESET1 False, stopwatch_usleep_wd E 10000, gpio_set E GPIO_DIF_RESET1 True, stopwatch_usleep_wd E 10000]"

definition lcd_transport_write_command :: "'h env \<Rightarrow> u8 \<Rightarrow> (('h, 'z) watched_scheme, bool) cmd" where
  "lcd_transport_write_command E command = lcd_transport_write_byte E True command"

text \<open>All the bytes are tried, also after one that failed.\<close>

primrec lcd_transport_write_data :: "'h env \<Rightarrow> u8 list \<Rightarrow> (('h, 'z) watched_scheme, bool) cmd" where
  "lcd_transport_write_data E [] = retM True"
| "lcd_transport_write_data E (b # bs) =
     bindM (lcd_transport_write_byte E False b) (\<lambda>ok.
     mapM (\<lambda>rest. ok \<and> rest) (lcd_transport_write_data E bs))"

definition lcd_transport_sync_parallel_interface :: "'h env \<Rightarrow> (('h, 'z) watched_scheme, bool) cmd" where
  "lcd_transport_sync_parallel_interface E =
     bindM (gpio_init_output E GPIO_DIF_CD GPIO_OS_NONE GPIO_PS_MANUAL False GPIO_PPEN_PUSHPULL GPIO_PDPU_NONE GPIO_ENAQ_OFF) (\<lambda>_.
     bindM (gpio_init_output E GPIO_DIF_RD GPIO_OS_NONE GPIO_PS_MANUAL True GPIO_PPEN_PUSHPULL GPIO_PDPU_NONE GPIO_ENAQ_OFF) (\<lambda>_.
     bindM (lcd_transport_write_data E [0, 0, 0, 0]) (\<lambda>success.
     bindM (seqM [gpio_set E GPIO_DIF_CD True,
                  gpio_set E GPIO_DIF_RD False,
                  wr E (GPIO_PIN GPIO_DIF_CD) (GPIO_IS_ALT0 OR GPIO_OS_ALT0 OR GPIO_PS_ALT OR GPIO_DATA_HIGH),
                  wr E (GPIO_PIN GPIO_DIF_RD) (GPIO_IS_ALT0 OR GPIO_OS_ALT0 OR GPIO_PS_ALT)]) (\<lambda>_.
     retM success))))"

text \<open>The bytes of a read; when none arrives in time the timings are put back. The second component is what was stored.\<close>

primrec dif_read_loop :: "nat \<Rightarrow> 'h env \<Rightarrow> u32 \<Rightarrow> u32 \<Rightarrow> u8 list \<Rightarrow> (('h, 'z) watched_scheme, bool \<times> u8 list) cmd" where
  "dif_read_loop 0 E previous_lcdtim1 previous_lcdtim2 data = retM (True, data)"
| "dif_read_loop (Suc n) E previous_lcdtim1 previous_lcdtim2 data =
     bindM (stopwatch_get E) (\<lambda>started.
     bindM (whileM (fuel E)
       (bindM (rd E DIF_RXFFS_STAT) (\<lambda>v.
        if v = 0 then mapM (\<lambda>t. t < DIF_TIMEOUT_MS) (stopwatch_elapsed_ms E started) else retM False))
       (test_watchdog_serve E)) (\<lambda>_.
     bindM (rd E DIF_RXFFS_STAT) (\<lambda>level.
     if level = 0 then
       bindM (seqM [wr E DIF_RUNCTRL 0, wr E DIF_STARTLCDRD 0, wr E DIF_LCDTIM1 previous_lcdtim1,
                    wr E DIF_LCDTIM2 previous_lcdtim2, wr E DIF_RUNCTRL DIF_RUNCTRL_RUN]) (\<lambda>_. retM (False, data))
     else
       bindM (rd E DIF_RXD) (\<lambda>v. dif_read_loop n E previous_lcdtim1 previous_lcdtim2 (data @ [ucast v])))))"

definition lcd_transport_read_data :: "'h env \<Rightarrow> nat \<Rightarrow> (('h, 'z) watched_scheme, bool \<times> u8 list) cmd" where
  "lcd_transport_read_data E sz =
     (if sz = 0 then retM (True, []) else
      bindM (rd E DIF_LCDTIM1) (\<lambda>previous_lcdtim1.
      bindM (rd E DIF_LCDTIM2) (\<lambda>previous_lcdtim2.
      bindM (lcd_transport_set_timings E LCD_READ_TIM1 LCD_READ_TIM2) (\<lambda>ok.
      if \<not> ok then retM (False, []) else
      bindM (seqM [wr E DIF_RUNCTRL 0,
                   wr E DIF_RXFIFO_CFG (DIF_RXFIFO_CFG_RXBS_4_WORD OR DIF_RXFIFO_CFG_RXFA_4 OR DIF_RXFIFO_CFG_RXFC),
                   wr E DIF_CSREG (DIF_CSREG_CS1 OR DIF_CSREG_BSCONF_1x8BIT),
                   wr E DIF_STARTLCDRD 0,
                   wr E DIF_RUNCTRL DIF_RUNCTRL_RUN,
                   wr E DIF_STARTLCDRD (DIF_STARTLCDRD_STARTREAD OR push_bit DIF_STARTLCDRD_READBYTES_SHIFT (of_nat sz - 1))]) (\<lambda>_.
      bindM (dif_read_loop sz E previous_lcdtim1 previous_lcdtim2 []) (\<lambda>(ok, data).
      if \<not> ok then retM (False, data) else
      bindM (dif_wait_idle E) (\<lambda>idle.
      bindM (wr E DIF_STARTLCDRD 0) (\<lambda>_.
      if \<not> idle then retM (False, data) else
      mapM (\<lambda>ok. (ok, data)) (lcd_transport_set_timings E previous_lcdtim1 previous_lcdtim2)))))))))"

section \<open>What the panel sees of a run\<close>

text \<open>
  The command line is the flag of the control register at the time of the transfer: \<open>cs\<close> is the value that was written
  to it last. Reads are the bytes taken out of the receive FIFO.
\<close>

fun dif_events :: "u32 \<Rightarrow> access list \<Rightarrow> lcd_event list" where
  "dif_events cs [] = []"
| "dif_events cs (Wr w a v # tr) =
     (if a = DIF_CSREG then dif_events v tr
      else if a = DIF_TXD then (if bit cs 0 then Command (ucast v) else Data (ucast v)) # dif_events cs tr
      else dif_events cs tr)"
| "dif_events cs (Rd w a v # tr) = (if a = DIF_RXD then Received (ucast v) # dif_events cs tr else dif_events cs tr)"
| "dif_events cs (_ # tr) = dif_events cs tr"

fun dif_select :: "u32 \<Rightarrow> access list \<Rightarrow> u32" where
  "dif_select cs [] = cs"
| "dif_select cs (Wr w a v # tr) = dif_select (if a = DIF_CSREG then v else cs) tr"
| "dif_select cs (_ # tr) = dif_select cs tr"

definition dif_sees :: "access list \<Rightarrow> lcd_event list \<Rightarrow> bool" where
  "dif_sees tr es \<longleftrightarrow> (\<forall>cs. dif_events cs tr = es)"

lemma dif_events_append: "dif_events cs (tr @ us) = dif_events cs tr @ dif_events (dif_select cs tr) us"
  by (induction cs tr rule: dif_events.induct) auto

lemma dif_select_append: "dif_select cs (tr @ us) = dif_select (dif_select cs tr) us"
  by (induction cs tr rule: dif_select.induct) auto

interpretation dif: wire dif_sees
  by unfold_locales (auto simp: dif_sees_def dif_events_append)

text \<open>Accesses that neither select nor transfer anything.\<close>

definition dif_still :: "access list \<Rightarrow> bool" where
  "dif_still tr \<longleftrightarrow> (\<forall>cs. dif_events cs tr = [] \<and> dif_select cs tr = cs)"

lemma dif_still_simps [simp]:
  "dif_still []" "dif_still tr \<Longrightarrow> dif_still us \<Longrightarrow> dif_still (tr @ us)"
  "dif_still (Rd w a v # tr) \<longleftrightarrow> a \<noteq> DIF_RXD \<and> dif_still tr"
  by (auto simp: dif_still_def dif_events_append dif_select_append)

lemma dif_still_write: "a \<noteq> DIF_CSREG \<Longrightarrow> a \<noteq> DIF_TXD \<Longrightarrow> dif_still tr \<Longrightarrow> dif_still (Wr w a v # tr)"
  by (simp add: dif_still_def)

lemma outside_still: "outside 0xF7100000 tr \<Longrightarrow> dif_still tr"
proof (induction tr)
  case (Cons x tr)
  then show ?case by (cases x) (auto simp: dif_still_def in_block_def)
qed simp

abbreviation idles :: "(('h, 'z) machine_scheme, 'a) cmd \<Rightarrow> bool" where
  "idles c \<equiv> talks c (\<lambda>_. dif_still)"

lemma idles_bind: "idles c \<Longrightarrow> (\<And>x. idles (f x)) \<Longrightarrow> idles (bindM c f)"
  by (erule any.in_bind) (blast intro: logs_in_mono dif_still_simps(2))

lemma idles_map: "idles c \<Longrightarrow> idles (mapM f c)"
  by (rule any.in_map)

lemma idles_if: "idles c \<Longrightarrow> idles d \<Longrightarrow> idles (if b then c else d)"
  by simp

lemma idles_simple: "idles (retM x)" "idles (getM f)" "idles (liftE m)" "idles (failM e)"
  by (auto intro: any.in_ret any.in_get any.in_liftE any.in_fail)

lemma idles_while: "idles c \<Longrightarrow> idles d \<Longrightarrow> idles (whileM n c d)"
  by (induction n) (auto intro!: idles_simple idles_bind idles_if)

lemma idles_read: "a \<noteq> DIF_RXD \<Longrightarrow> idles (mmio_read w E a)"
  by (rule any.in_read) simp

lemma idles_write: "a \<noteq> DIF_CSREG \<Longrightarrow> a \<noteq> DIF_TXD \<Longrightarrow> idles (mmio_write w E a v)"
  by (rule any.in_write) (simp add: dif_still_write)

lemma idles_seq: "idles (seqM [])" "idles c \<Longrightarrow> idles (seqM cs) \<Longrightarrow> idles (seqM (c # cs))"
  by (auto intro: idles_bind idles_simple)

lemma idles_serve: "idles (wdt_serve E)"
  by (rule logs_in_mono [OF talks_wdt_serve [where base = "0xF7100000"]]) (simp_all add: wdt_outside_def in_block_def outside_still)

lemma idles_stopwatch: "idles (stopwatch_get E)" "idles (stopwatch_elapsed_ms E start)"
  unfolding stopwatch_elapsed_ms_def stopwatch_scaled_def stopwatch_elapsed_def stopwatch_get_def
  by (intro idles_bind idles_map idles_read idles_simple; simp)+

lemmas idles_intros = idles_bind idles_map idles_if idles_while idles_seq idles_serve idles_stopwatch idles_simple

lemma idles_wait: "idles (dif_wait_idle E)"
  unfolding dif_wait_idle_def test_watchdog_serve_def by (intro idles_intros idles_read) simp_all

lemma idles_timings: "idles (lcd_transport_set_timings E t1 t2)"
  unfolding lcd_transport_set_timings_def by (intro idles_intros idles_wait idles_write) simp_all

lemma idles_delay: "idles (stopwatch_usleep_wd E us)"
  unfolding stopwatch_usleep_wd_def stopwatch_deadline_def by (intro idles_intros)

text \<open>A byte that was accepted has reached the panel, one that was not may have.\<close>

definition sent :: "bool \<Rightarrow> u8 \<Rightarrow> lcd_event" where
  "sent command v = (if command then Command v else Data v)"

lemma talks_write_byte:
  "talks (lcd_transport_write_byte E command v) (\<lambda>ok tr. \<exists>es. dif_sees tr es \<and> (if ok then es = [sent command v] else subseq es [sent command v]))"
proof -
  let ?cs = "DIF_CSREG_CS1 OR DIF_CSREG_BSCONF_1x8BIT OR (if command then DIF_CSREG_CD else 0) :: u32"
  let ?mid = "[Wr W32 DIF_RUNCTRL 0, Wr W32 DIF_CSREG ?cs, Wr W32 DIF_RUNCTRL DIF_RUNCTRL_RUN, Wr W32 DIF_TXD (ucast v)]"
  have mid: "dif_sees (t1 @ ?mid @ t2) [sent command v]" if "dif_still t1" "dif_still t2" for t1 t2
    using that by (auto simp: dif_sees_def dif_still_def dif_events_append sent_def ucast_widen_back)
  have silent: "\<exists>es. dif_sees tr es \<and> subseq es [sent command v]" if "dif_still tr" for tr
    using that by (intro exI [of _ "[]"]) (simp add: dif_sees_def dif_still_def)
  have send: "talks (bindM (seqM [wr E DIF_RUNCTRL 0, wr E DIF_CSREG ?cs, wr E DIF_RUNCTRL DIF_RUNCTRL_RUN, wr E DIF_TXD (ucast v)])
      (\<lambda>_. dif_wait_idle E)) (\<lambda>ok tr. dif_sees (t1 @ tr) [sent command v])" if "dif_still t1" for t1
  proof (rule any.in_bind [where P = "\<lambda>_ tr. tr = ?mid"])
    show "talks (seqM [wr E DIF_RUNCTRL 0, wr E DIF_CSREG ?cs, wr E DIF_RUNCTRL DIF_RUNCTRL_RUN, wr E DIF_TXD (ucast v)])
      (\<lambda>_ tr. tr = ?mid)" by (intro any.in_seq_write any.in_seq_Nil) simp
  next
    fix x tr assume "tr = ?mid"
    then show "talks (dif_wait_idle E) (\<lambda>ok t2. dif_sees (t1 @ tr @ t2) [sent command v])"
      by (simp only:) (rule logs_in_mono [OF idles_wait], rule mid [OF that])
  qed
  show ?thesis
    unfolding lcd_transport_write_byte_def
    by (rule any.in_bind [OF idles_wait], rule any.in_if, rule any.in_ret, simp add: silent, rule logs_in_mono [OF send]) auto
qed

definition shown :: "(('h, 'z) machine_scheme, 'a) cmd \<Rightarrow> ('a \<Rightarrow> lcd_event list \<Rightarrow> bool) \<Rightarrow> bool" where
  "shown c Q \<longleftrightarrow> talks c (\<lambda>x tr. \<exists>es. dif_sees tr es \<and> Q x es)"

lemma shown_mono: "shown c P \<Longrightarrow> (\<And>x es. P x es \<Longrightarrow> Q x es) \<Longrightarrow> shown c Q"
  unfolding shown_def by (erule logs_in_mono) blast

lemma shown_bind:
  assumes "shown c P" "\<And>x es. P x es \<Longrightarrow> shown (f x) (\<lambda>y fs. Q y (es @ fs))"
  shows "shown (bindM c f) Q"
  unfolding shown_def
proof (rule any.in_bind [OF assms(1) [unfolded shown_def]], elim exE conjE)
  fix x t1 es assume "dif_sees t1 es" "P x es"
  then show "talks (f x) (\<lambda>y t2. \<exists>fs. dif_sees (t1 @ t2) fs \<and> Q y fs)"
    using assms(2) [OF \<open>P x es\<close>] unfolding shown_def
    by (elim logs_in_mono) (blast intro: dif.sees_append)
qed

lemma shown_idle: "idles c \<Longrightarrow> shown c (\<lambda>_ es. es = [])"
  unfolding shown_def by (erule logs_in_mono) (simp add: dif_sees_def dif_still_def)

lemma shown_after: "shown c (\<lambda>_ es. es = []) \<Longrightarrow> (\<And>x. shown (f x) Q) \<Longrightarrow> shown (bindM c f) Q"
  by (erule shown_bind) simp

lemma shown_register: "a \<noteq> DIF_TXD \<Longrightarrow> shown (mmio_write w E a v) (\<lambda>_ es. es = [])"
  unfolding shown_def by (rule any.in_write) (simp add: dif_sees_def)

lemma shown_ret: "Q x [] \<Longrightarrow> shown (retM x) Q"
  unfolding shown_def by (rule any.in_ret) (auto intro: dif.sees_Nil)

lemma shown_seq:
  "shown (seqM []) (\<lambda>_ es. es = [])"
  "shown c (\<lambda>_ es. es = []) \<Longrightarrow> shown (seqM cs) (\<lambda>_ es. es = []) \<Longrightarrow> shown (seqM (c # cs)) (\<lambda>_ es. es = [])"
  by (auto intro: shown_ret shown_after)

lemma shown_map: "shown c (\<lambda>x. Q (f x)) \<Longrightarrow> shown (mapM f c) Q"
  unfolding mapM_def by (erule shown_bind) (simp add: shown_ret)

lemma shown_if: "(b \<Longrightarrow> shown c Q) \<Longrightarrow> (\<not> b \<Longrightarrow> shown d Q) \<Longrightarrow> shown (if b then c else d) Q"
  by simp

lemmas shown_byte = talks_write_byte [folded shown_def]

lemma shown_write_data:
  "shown (lcd_transport_write_data E bs) (\<lambda>ok es. if ok then es = map Data bs else subseq es (map Data bs))"
proof (induction bs)
  case (Cons b bs)
  show ?case
    unfolding lcd_transport_write_data.simps
    by (rule shown_bind [OF shown_byte], rule shown_map, rule shown_mono [OF Cons])
       (auto simp: sent_def split: if_splits intro: list_emb_append_mono [where xs' = "[Data b]", simplified])
qed (simp add: shown_ret)

lemma shown_read_loop:
  "shown (dif_read_loop n E t1 t2 data)
     (\<lambda>r es. \<exists>new. snd r = data @ new \<and> es = map Received new \<and> length new \<le> n \<and> (fst r \<longrightarrow> length new = n))"
proof (induction n arbitrary: data)
  case (Suc n)
  have wait: "idles (whileM (fuel E) (bindM (rd E DIF_RXFFS_STAT) (\<lambda>v.
      if v = 0 then mapM (\<lambda>t. t < DIF_TIMEOUT_MS) (stopwatch_elapsed_ms E started) else retM False)) (test_watchdog_serve E))"
    for E :: "'a env" and started
    unfolding test_watchdog_serve_def by (intro idles_intros idles_read) simp_all
  have rx: "shown (rd E DIF_RXD) (\<lambda>v es. es = [Received (ucast v)])" for E :: "'a env"
    unfolding shown_def by (rule any.in_read) (simp add: dif_sees_def)
  have stop: "idles (seqM [wr E DIF_RUNCTRL 0, wr E DIF_STARTLCDRD 0, wr E DIF_LCDTIM1 t1, wr E DIF_LCDTIM2 t2, wr E DIF_RUNCTRL DIF_RUNCTRL_RUN])"
    for E :: "'a env"
    by (intro idles_seq idles_write) simp_all
  show ?case
    unfolding dif_read_loop.simps
    by (rule shown_after [OF shown_idle [OF idles_stopwatch(1)]], rule shown_after [OF shown_idle [OF wait]],
        rule shown_after [OF shown_idle [OF idles_read]], simp, rule shown_if,
        rule shown_after [OF shown_idle [OF stop]], rule shown_ret, simp,
        rule shown_bind [OF rx], rule shown_mono [OF Suc]) auto
qed (simp add: shown_ret)

lemma shown_read_data:
  "shown (lcd_transport_read_data E sz)
     (\<lambda>r es. es = map Received (snd r) \<and> length (snd r) \<le> sz \<and> (fst r \<longrightarrow> length (snd r) = sz))"
proof -
  have start: "shown (seqM [wr E DIF_RUNCTRL 0, wr E DIF_RXFIFO_CFG x, wr E DIF_CSREG y, wr E DIF_STARTLCDRD 0,
      wr E DIF_RUNCTRL DIF_RUNCTRL_RUN, wr E DIF_STARTLCDRD z]) (\<lambda>_ es. es = [])" for E :: "'a env" and x y z
    by (intro shown_seq shown_register) simp_all
  have last: "shown (bindM (dif_wait_idle E) (\<lambda>idle. bindM (wr E DIF_STARTLCDRD 0) (\<lambda>_.
      if \<not> idle then retM (False, data) else mapM (\<lambda>ok. (ok, data)) (lcd_transport_set_timings E t1 t2))))
      (\<lambda>r es. es = [] \<and> snd r = data)" for E :: "'a env" and data t1 t2
    by (rule shown_after [OF shown_idle [OF idles_wait]], rule shown_after [OF shown_register], simp,
        rule shown_if, rule shown_ret, simp, rule shown_map, rule shown_mono [OF shown_idle [OF idles_timings]]) simp
  show ?thesis
    unfolding lcd_transport_read_data_def
    by (rule shown_if, rule shown_ret, simp, rule shown_after [OF shown_idle [OF idles_read]], simp,
        rule shown_after [OF shown_idle [OF idles_read]], simp, rule shown_after [OF shown_idle [OF idles_timings]],
        rule shown_if, rule shown_ret, simp, rule shown_after [OF start], rule shown_bind [OF shown_read_loop],
        unfold case_prod_beta, rule shown_if, rule shown_ret, clarsimp, rule shown_mono [OF last]) auto
qed

section \<open>The contract of the transport\<close>

context watched_observer
begin

lemma same_dif_wait: "same (dif_wait_idle E)"
  unfolding dif_wait_idle_def test_watchdog_serve_def stopwatch_elapsed_ms_def stopwatch_scaled_def stopwatch_elapsed_def stopwatch_get_def
  by (intro same_intros same_wdt_serve)

lemma same_write_byte: "same (lcd_transport_write_byte E command v)"
  unfolding lcd_transport_write_byte_def by (intro same_intros same_dif_wait)

lemma same_write_data: "same (lcd_transport_write_data E bs)"
  by (induction bs) (auto intro!: same_intros same_write_byte)

lemma same_read_data: "same (lcd_transport_read_data E n)"
proof -
  have "same (dif_read_loop n E t1 t2 d)" for t1 t2 n d
    unfolding test_watchdog_serve_def
    by (induction n arbitrary: d) (auto simp: test_watchdog_serve_def stopwatch_elapsed_ms_def stopwatch_scaled_def
        stopwatch_elapsed_def stopwatch_get_def intro!: same_intros same_wdt_serve)
  then show ?thesis
    unfolding lcd_transport_read_data_def lcd_transport_set_timings_def case_prod_beta by (intro same_intros same_dif_wait)
qed

lemma same_usleep_wd: "same (stopwatch_usleep_wd E us)"
  unfolding stopwatch_usleep_wd_def stopwatch_deadline_def stopwatch_get_def by (intro same_intros same_wdt_serve)

end

lemma draws_shown:
  "shown c P \<Longrightarrow> statics.same c \<Longrightarrow> (\<And>x es a. P x es \<Longrightarrow> Q x es a a) \<Longrightarrow> draws dif_sees c Q"
  unfolding draws_def shown_def by (drule does_talks, drule (1) does_conj, erule does_mono) blast

interpretation dif: lcd_transport dif_sees "lcd_transport_write_command E" "lcd_transport_write_data E" "lcd_transport_read_data E"
  "stopwatch_usleep_wd E" for E
proof unfold_locales
  show "draws dif_sees (lcd_transport_write_command E c) (\<lambda>ok es a b. b = a \<and> (ok \<longrightarrow> es = [Command c]))" for c
    unfolding lcd_transport_write_command_def by (rule draws_shown [OF shown_byte statics.same_write_byte]) (simp add: sent_def)
  show "draws dif_sees (lcd_transport_write_data E bs) (\<lambda>ok es a b. b = a \<and> (ok \<longrightarrow> es = map Data bs))" for bs
    by (rule draws_shown [OF shown_write_data statics.same_write_data]) simp
  show "draws dif_sees (lcd_transport_read_data E n)
      (\<lambda>r es a b. b = a \<and> (fst r \<longrightarrow> es = map Received (snd r) \<and> length (snd r) = n))" for n
    by (rule draws_shown [OF shown_read_data statics.same_read_data]) simp
  show "draws dif_sees (stopwatch_usleep_wd E us) (\<lambda>_ es a b. es = [] \<and> b = a)" for us
    by (rule draws_shown [OF shown_idle [OF idles_delay] statics.same_usleep_wd]) simp
qed

text \<open>On an interface that is never busy every byte is accepted.\<close>

definition ready_dif :: "'h env \<Rightarrow> bool" where
  "ready_dif E \<longleftrightarrow> fuel E \<noteq> 0 \<and> (\<forall>h. fst (dev_read E W32 DIF_STAT h) AND DIF_STAT_BSY = 0)"

lemma wp_wait_ready:
  assumes "ready_dif E" "\<And>t. Q True t"
  shows "wpM (dif_wait_idle E) Q s"
proof -
  have r: "v AND DIF_STAT_BSY = 0" if "dev_read E W32 DIF_STAT h = (v, h')" for h v h'
    using assms(1) that unfolding ready_dif_def by (metis fst_conv)
  obtain n where n: "fuel E = Suc n" using assms(1) unfolding ready_dif_def by (cases "fuel E") auto
  show ?thesis
    unfolding dif_wait_idle_def n by (auto simp: stopwatch_get_def wp assms(2) dest: r split: prod.splits)
qed

lemma wp_byte_ready: "ready_dif E \<Longrightarrow> (\<And>t. Q True t) \<Longrightarrow> wpM (lcd_transport_write_byte E command v) Q s"
  unfolding lcd_transport_write_byte_def wp by (rule wp_wait_ready) (auto simp: wp intro: wp_wait_ready)

lemma wp_data_ready: "ready_dif E \<Longrightarrow> (\<And>t. Q True t) \<Longrightarrow> wpM (lcd_transport_write_data E bs) Q s"
  by (induction bs arbitrary: Q s) (auto simp: wp intro!: wp_byte_ready)



end
