(* ===== verification/Lcd_Panel_Model.thy ===== *)
theory Lcd_Panel_Model
  imports Lcd_Dif
begin

text \<open>
  The loops over pixels that the drivers share, and a model of a panel with indexed registers: it is what the drivers of the
  R61505U and the JBT6K71 talk to.
\<close>

section \<open>Loops over pixels\<close>

text \<open>Sending pixels stops at the first that fails; reading returns the colours that were stored.\<close>

primrec lcd_write_loop :: "'h env \<Rightarrow> (lcd_color \<Rightarrow> u8 list) \<Rightarrow> lcd_color list \<Rightarrow> (('h, 'z) panelled_scheme, bool) cmd" where
  "lcd_write_loop E encode [] = retM True"
| "lcd_write_loop E encode (c # cs) = andM (lcd_transport_write_data E (encode c)) (lcd_write_loop E encode cs)"

primrec lcd_read_loop :: "nat \<Rightarrow> 'h env \<Rightarrow> nat \<Rightarrow> (u8 list \<Rightarrow> lcd_color) \<Rightarrow> lcd_color list \<Rightarrow>
    (('h, 'z) panelled_scheme, bool \<times> lcd_color list) cmd" where
  "lcd_read_loop 0 E k decode colors = retM (True, colors)"
| "lcd_read_loop (Suc n) E k decode colors =
     bindM (lcd_transport_read_data E k) (\<lambda>(ok, d).
     if \<not> ok then retM (False, colors) else lcd_read_loop n E k decode (colors @ [decode d]))"

lemma sends_write_loop: "sends dif_sees (lcd_write_loop E encode cs) (emit (map Data (concat (map encode cs))))"
proof (induction cs)
  case (Cons c cs)
  show ?case
    unfolding lcd_write_loop.simps by (rule sends_cong [OF dif.sends_and [OF dif.sends_data Cons]]) (simp add: emit_def)
qed (simp add: dif.sends_ret)

lemma wp_and_ready: "(\<And>t. wpM d Q t) \<Longrightarrow> (\<And>s R. (\<And>t. R True t) \<Longrightarrow> wpM c R s) \<Longrightarrow> wpM (andM c d) Q s"
  by (simp add: andM_def wp)

lemma wp_command_ready: "ready_dif E \<Longrightarrow> (\<And>t. Q True t) \<Longrightarrow> wpM (lcd_transport_write_command E c) Q s"
  unfolding lcd_transport_write_command_def by (rule wp_byte_ready)

lemma wp_loop_ready: "ready_dif E \<Longrightarrow> (\<And>t. Q True t) \<Longrightarrow> wpM (lcd_write_loop E encode cs) Q s"
  by (induction cs arbitrary: Q s) (auto simp: andM_def wp intro!: wp_data_ready)

lemma draws_read_loop:
  "draws dif_sees (lcd_read_loop n E k decode colors :: (('h, 'z) panelled_scheme, _) cmd)
     (\<lambda>r es a b. b = a \<and> (fst r \<longrightarrow> (\<exists>ds. length ds = n \<and> (\<forall>d \<in> set ds. length d = k) \<and>
        es = map Received (concat ds) \<and> snd r = colors @ map decode ds)))"
proof (induction n arbitrary: colors)
  case (Suc n)
  show ?case
    unfolding lcd_read_loop.simps case_prod_beta
  proof (rule dif.draws_bind [OF dif.read_seen])
    fix r :: "bool \<times> u8 list" and es and a b :: lcd_statics assume r: "b = a \<and> (fst r \<longrightarrow> es = map Received (snd r) \<and> length (snd r) = k)"
    have cons: "draws dif_sees (lcd_read_loop n E k decode (colors @ [decode d]) :: (('h, 'z) panelled_scheme, _) cmd) (\<lambda>q fs b' e. b' = a \<longrightarrow> e = a \<and>
        (fst q \<longrightarrow> (\<exists>ds. length ds = Suc n \<and> (\<forall>d \<in> set ds. length d = k) \<and>
          map Received d @ fs = map Received (concat ds) \<and> snd q = colors @ map decode ds)))" if "length d = k" for d
    proof (rule draws_mono [OF Suc])
      fix q fs and b' e :: lcd_statics
      assume q: "e = b' \<and> (fst q \<longrightarrow> (\<exists>ds. length ds = n \<and> (\<forall>d \<in> set ds. length d = k) \<and> fs = map Received (concat ds) \<and>
        snd q = (colors @ [decode d]) @ map decode ds))"
      have "\<exists>ds. length ds = Suc n \<and> (\<forall>d \<in> set ds. length d = k) \<and> map Received d @ fs = map Received (concat ds) \<and>
          snd q = colors @ map decode ds" if "fst q"
      proof -
        from q that obtain ds where "length ds = n" "\<forall>d \<in> set ds. length d = k" "fs = map Received (concat ds)"
          "snd q = (colors @ [decode d]) @ map decode ds" by blast
        then show ?thesis using \<open>length d = k\<close> by (intro exI [of _ "d # ds"]) simp
      qed
      with q show "b' = a \<longrightarrow> e = a \<and> (fst q \<longrightarrow> (\<exists>ds. length ds = Suc n \<and> (\<forall>d \<in> set ds. length d = k) \<and>
          map Received d @ fs = map Received (concat ds) \<and> snd q = colors @ map decode ds))" by blast
    qed
    show "draws dif_sees (if \<not> fst r then retM (False, colors) else lcd_read_loop n E k decode (colors @ [decode (snd r)]) :: (('h, 'z) panelled_scheme, _) cmd)
      (\<lambda>q fs b' e. b' = b \<longrightarrow> e = a \<and> (fst q \<longrightarrow> (\<exists>ds. length ds = Suc n \<and> (\<forall>d \<in> set ds. length d = k) \<and>
        es @ fs = map Received (concat ds) \<and> snd q = colors @ map decode ds)))"
    proof (cases "fst r")
      case True
      with r have k: "length (snd r) = k" by simp
      show ?thesis using True r cons [OF k] by simp
    qed (use r in \<open>simp add: dif.draws_ret\<close>)
  qed
qed (simp add: dif.draws_ret)

lemma received_inject: "map Received xs = map Received ys \<longleftrightarrow> xs = ys"
  by (rule inj_map_eq_map) (simp add: inj_def)

text \<open>Chunks of the same length are found again in their concatenation.\<close>

lemma concat_inject:
  assumes "concat xs = concat ys" "length xs = length ys" "\<forall>x \<in> set xs. length x = k" "\<forall>y \<in> set ys. length y = k"
  shows "xs = ys"
  using assms(2,1,3,4) by (induction xs ys rule: list_induct2) auto

text \<open>
  Reading pixels: a command that selects the frame memory, dummy bytes, and the pixels. The bytes of the pixels are returned
  by \<open>pixels_read\<close> when the events are those of such a transfer.
\<close>

definition lcd_read_shape :: "(('h, 'z) panelled_scheme, bool) cmd \<Rightarrow> nat \<Rightarrow> nat \<Rightarrow> 'h env \<Rightarrow> nat \<Rightarrow> (u8 list \<Rightarrow> lcd_color) \<Rightarrow>
    (('h, 'z) panelled_scheme, bool \<times> lcd_color list) cmd" where
  "lcd_read_shape c dummy n E k decode =
     bindM c (\<lambda>ok. if \<not> ok then retM (False, []) else
     bindM (lcd_transport_read_data E dummy) (\<lambda>(ok, _). if \<not> ok then retM (False, []) else
     lcd_read_loop n E k decode []))"

definition pixels_read :: "lcd_event list \<Rightarrow> nat \<Rightarrow> nat \<Rightarrow> lcd_event list \<Rightarrow> u8 list list \<Rightarrow> bool" where
  "pixels_read sel dummy k es ds \<longleftrightarrow> (\<forall>d \<in> set ds. length d = k) \<and>
     (\<exists>bs. length bs = dummy \<and> es = sel @ map Received (bs @ concat ds))"

lemma draws_read_shape:
  fixes c :: "(('h, 'z) panelled_scheme, bool) cmd"
  assumes "sends dif_sees c (emit sel)"
  shows "draws dif_sees (lcd_read_shape c dummy n E k decode) (\<lambda>r es a b. fst r \<longrightarrow> b = a \<and>
     (\<exists>ds. length ds = n \<and> pixels_read sel dummy k es ds \<and> snd r = map decode ds))"
proof -
  let ?Q = "\<lambda>es a (r :: bool \<times> lcd_color list) fs b. fst r \<longrightarrow> b = (a :: lcd_statics) \<and>
     (\<exists>ds. length ds = n \<and> pixels_read sel dummy k (es @ fs) ds \<and> snd r = map decode ds)"
  have pixels: "draws dif_sees (lcd_read_loop n E k decode [] :: (('h, 'z) panelled_scheme, _) cmd) (\<lambda>r fs b e. b = a \<longrightarrow> ?Q (sel @ map Received bs) a r fs e)"
    if "length bs = dummy" for bs a
  proof (rule draws_mono [OF draws_read_loop], intro impI, elim conjE impE exE)
    fix r fs and b e :: lcd_statics and ds assume "b = a" "e = b" "fst r" "length ds = n" "\<forall>d\<in>set ds. length d = k"
      "fs = map Received (concat ds)" "snd r = [] @ map decode ds"
    then show "e = a \<and> (\<exists>ds. length ds = n \<and> pixels_read sel dummy k ((sel @ map Received bs) @ fs) ds \<and> snd r = map decode ds)"
      using that by (intro conjI exI [of _ ds]) (auto simp: pixels_read_def)
  qed
  have rest: "draws dif_sees (bindM (lcd_transport_read_data E dummy) (\<lambda>(ok, _). if \<not> ok then retM (False, []) else
      lcd_read_loop n E k decode [] :: (('h, 'z) panelled_scheme, _) cmd)) (\<lambda>r fs b e. b = a \<longrightarrow> ?Q sel a r fs e)" for a
    unfolding case_prod_beta
  proof (rule dif.draws_bind [OF dif.read_seen])
    fix r :: "bool \<times> u8 list" and es and b e :: lcd_statics
    assume r: "e = b \<and> (fst r \<longrightarrow> es = map Received (snd r) \<and> length (snd r) = dummy)"
    show "draws dif_sees (if \<not> fst r then retM (False, []) else lcd_read_loop n E k decode [] :: (('h, 'z) panelled_scheme, _) cmd)
      (\<lambda>q fs b' e'. b' = e \<longrightarrow> b = a \<longrightarrow> ?Q sel a q (es @ fs) e')"
    proof (cases "fst r")
      case True
      with r have k: "length (snd r) = dummy" by simp
      show ?thesis using True r by (simp, intro draws_mono [OF pixels [OF k, of a]]) simp
    qed (simp add: dif.draws_ret)
  qed
  show ?thesis
    unfolding lcd_read_shape_def
  proof (rule dif.draws_bind [OF assms [unfolded sends_def]])
    fix ok es and a b :: lcd_statics assume ok: "ok \<longrightarrow> emit sel a = Some (es, b)"
    show "draws dif_sees (if \<not> ok then retM (False, []) else bindM (lcd_transport_read_data E dummy) (\<lambda>(ok, _).
        if \<not> ok then retM (False, []) else lcd_read_loop n E k decode []) :: (('h, 'z) panelled_scheme, _) cmd)
      (\<lambda>r fs b' e. b' = b \<longrightarrow> ?Q es a r fs e)"
    proof (cases ok)
      case True
      with ok have "es = sel" "b = a" by (simp_all add: emit_def)
      then show ?thesis using True by simp (rule rest)
    qed (simp add: dif.draws_ret)
  qed
qed

text \<open>
  Pixels that are written and read again. \<open>echoes\<close>: after the dummy bytes the panel returns the bytes it was given; then the
  colours that are read are the written ones, through the conversion to bytes and back.
\<close>

definition write_then_read :: "('h, 'z) lcd_controller \<Rightarrow> lcd_color list \<Rightarrow> (('h, 'z) panelled_scheme, bool \<times> lcd_color list) cmd" where
  "write_then_read lcd cs =
     bindM (write_pixels lcd cs) (\<lambda>ok. case read_pixels lcd of
       None \<Rightarrow> retM (False, [])
     | Some f \<Rightarrow> if ok then f (length cs) else retM (False, []))"

definition data_bytes :: "lcd_event list \<Rightarrow> u8 list" where
  "data_bytes es = concat (map (\<lambda>e. case e of Data b \<Rightarrow> [b] | _ \<Rightarrow> []) es)"

definition received_bytes :: "lcd_event list \<Rightarrow> u8 list" where
  "received_bytes es = concat (map (\<lambda>e. case e of Received b \<Rightarrow> [b] | _ \<Rightarrow> []) es)"

definition echoes :: "nat \<Rightarrow> lcd_event list \<Rightarrow> bool" where
  "echoes dummy es \<longleftrightarrow> drop dummy (received_bytes es) = data_bytes es"

lemma bytes_append: "data_bytes (es @ fs) = data_bytes es @ data_bytes fs" "received_bytes (es @ fs) = received_bytes es @ received_bytes fs"
  by (simp_all add: data_bytes_def received_bytes_def)

lemma bytes_map:
  "data_bytes (map Data bs) = bs" "received_bytes (map Data bs) = []"
  "data_bytes (map Received bs) = []" "received_bytes (map Received bs) = bs"
  by (induction bs) (simp_all add: data_bytes_def received_bytes_def)

lemma echo_decodes:
  assumes w: "sends dif_sees (write_pixels lcd cs) (\<lambda>a. Some (sel @ map Data (concat (map (encode a) cs)), a))"
    and f: "read_pixels lcd = Some f"
    and r: "draws dif_sees (f (length cs)) (\<lambda>r es a b. fst r \<longrightarrow> b = a \<and>
      (\<exists>ds. length ds = length cs \<and> pixels_read sel' (dummy a) (k a) es ds \<and> snd r = map (decode a) ds))"
    and sel: "data_bytes sel = []" "received_bytes sel = []" "data_bytes sel' = []" "received_bytes sel' = []"
    and k: "\<And>a c. good a \<Longrightarrow> length (encode a c) = k a"
  shows "draws dif_sees (write_then_read lcd cs) (\<lambda>r es a b. fst r \<longrightarrow> good a \<and> echoes (dummy a) es \<longrightarrow> snd r = map (\<lambda>c. decode a (encode a c)) cs)"
  unfolding write_then_read_def f option.case
proof (rule dif.draws_bind [OF w [unfolded sends_def]])
  fix ok es and a b :: lcd_statics
  assume ok: "ok \<longrightarrow> Some (sel @ map Data (concat (map (encode a) cs)), a) = Some (es, b)"
  have decoded: "snd q = map (\<lambda>c. decode a (encode a c)) cs"
    if "good a" "echoes (dummy a) ((sel @ map Data (concat (map (encode a) cs))) @ fs)" "length ds = length cs" "pixels_read sel' (dummy a) (k a) fs ds"
      "snd q = map (decode a) ds" for q :: "bool \<times> lcd_color list" and fs ds
  proof -
    from that(4) obtain bs where "length bs = dummy a" "fs = sel' @ map Received (bs @ concat ds)" "\<forall>d \<in> set ds. length d = k a"
      by (auto simp: pixels_read_def)
    with that(1-3) have "ds = map (encode a) cs"
      by (intro concat_inject [of _ _ "k a"]) (auto simp: echoes_def bytes_append bytes_map sel k)
    with that(5) show ?thesis by simp
  qed
  show "draws dif_sees (if ok then f (length cs) else retM (False, [])) (\<lambda>q fs b' e. b' = b \<longrightarrow> fst q \<longrightarrow> good a \<and> echoes (dummy a) (es @ fs) \<longrightarrow>
      snd q = map (\<lambda>c. decode a (encode a c)) cs)"
  proof (cases ok)
    case True
    with ok have e: "es = sel @ map Data (concat (map (encode a) cs))" "b = a" by auto
    show ?thesis using True e by (simp, intro draws_mono [OF r]) (use decoded in auto)
  qed (simp add: dif.draws_ret)
qed

text \<open>Messages on the serial port do not reach the panel.\<close>

lemma idles_for: "(\<And>x. idles (f x)) \<Longrightarrow> idles (forM xs f)"
  by (induction xs) (auto intro: idles_simple idles_bind)

lemma idles_usart_write: "idles (usart_write E USART0 bs :: (('h, 'z) machine_scheme, unit) cmd)"
proof (induction "length bs" arbitrary: bs rule: less_induct)
  case less
  have "idles (usart_write E USART0 (drop USART_FIFO_SIZE bs) :: (('h, 'z) machine_scheme, unit) cmd)" if "bs \<noteq> []"
    using that by (intro less) simp
  then show ?case
    by (subst usart_write.simps)
       (auto simp: usart_wait_tx_def usart_get_tx_fifo_level_def field_def intro!: idles_intros idles_for idles_read idles_write)
qed

lemma draws_printf: "draws dif_sees (printf E F f args) (\<lambda>_ es a b. es = [] \<and> b = a)"
proof (rule draws_shown)
  show "shown (printf E F f args) (\<lambda>_ es. es = [])"
    unfolding printf_def putchar_def usart_putc_def by (intro shown_idle idles_for idles_usart_write)
  show "statics.same (printf E F f args)" by (rule does_mono [OF statics.does_printf]) simp
qed simp

lemma draws_unseen:
  "draws dif_sees c (\<lambda>_ es a b. es = [] \<and> b = a) \<Longrightarrow> (\<And>x. draws dif_sees (f x) Q) \<Longrightarrow> draws dif_sees (bindM c f) Q"
proof (erule dif.draws_bind)
  fix x and es :: "lcd_event list" and a b :: lcd_statics assume f: "\<And>x. draws dif_sees (f x) Q" and e: "es = [] \<and> b = a"
  show "draws dif_sees (f x) (\<lambda>y fs b' d. b' = b \<longrightarrow> Q y (es @ fs) a d)" by (rule draws_mono [OF f]) (use e in auto)
qed

lemma draws_for_unseen:
  "(\<And>x. draws dif_sees (f x) (\<lambda>_ es a b. es = [] \<and> b = a)) \<Longrightarrow> draws dif_sees (forM xs f) (\<lambda>_ es a b. es = [] \<and> b = a)"
  by (induction xs) (auto intro: dif.draws_ret draws_unseen)

text \<open>A sequence of \<^verbatim>\<open>success &= ...\<close>: all the commands run, also after one that failed.\<close>

primrec allM :: "('s, bool) cmd list \<Rightarrow> ('s, bool) cmd" where
  "allM [] = retM True"
| "allM (c # cs) = bindM c (\<lambda>ok. mapM (\<lambda>rest. ok \<and> rest) (allM cs))"

definition pausing :: "('s, bool) cmd \<Rightarrow> ('s, unit) cmd \<Rightarrow> ('s, bool) cmd" where
  "pausing c d = bindM c (\<lambda>ok. mapM (\<lambda>_. ok) d)"

lemma sends_all_Nil: "sends dif_sees (allM []) (emit [])"
  by (simp add: dif.sends_ret)

lemma sends_all_Cons:
  assumes "sends dif_sees c (emit es)" "sends dif_sees (allM cs) (emit fs)"
  shows "sends dif_sees (allM (c # cs)) (emit (es @ fs))"
  unfolding sends_def allM.simps
  by (rule dif.draws_bind [OF assms(1) [unfolded sends_def]], rule draws_map, rule draws_mono [OF assms(2) [unfolded sends_def]])
     (auto simp: emit_def)

lemma sends_pausing: "sends dif_sees c (emit es) \<Longrightarrow> sends dif_sees (pausing c (stopwatch_usleep_wd E us)) (emit es)"
  unfolding sends_def pausing_def
  by (erule dif.draws_bind, rule draws_map, rule draws_mono [OF dif.delay_unseen]) (auto simp: emit_def)

lemmas sends_all = sends_all_Nil sends_all_Cons sends_pausing

lemma sends_all_map:
  assumes "\<And>x. x \<in> set xs \<Longrightarrow> sends dif_sees (c x) (emit (f x))" "sends dif_sees (allM cs) (emit es)"
  shows "sends dif_sees (allM (map c xs @ cs)) (emit (concat (map f xs) @ es))"
  using assms(1)
proof (induction xs)
  case (Cons x xs)
  then have "sends dif_sees (c x) (emit (f x))" "sends dif_sees (allM (map c xs @ cs)) (emit (concat (map f xs) @ es))" by simp_all
  from sends_all_Cons [OF this] show ?case by simp
qed (simp add: assms(2))

lemma idles_output:
  "GPIO_PIN gpio \<noteq> DIF_CSREG \<Longrightarrow> GPIO_PIN gpio \<noteq> DIF_TXD \<Longrightarrow> idles (gpio_init_output E gpio os ps data ppen pdpu enaq)"
  unfolding gpio_init_output_def by (rule idles_write)

lemma idles_set:
  "GPIO_PIN gpio \<noteq> DIF_RXD \<Longrightarrow> GPIO_PIN gpio \<noteq> DIF_CSREG \<Longrightarrow> GPIO_PIN gpio \<noteq> DIF_TXD \<Longrightarrow> idles (gpio_set E gpio v)"
  unfolding gpio_set_def rmw_def by (intro idles_if idles_bind idles_read idles_write)

lemma sends_sync: "sends dif_sees (lcd_transport_sync_parallel_interface E) (emit (map Data [0, 0, 0, 0]))"
proof -
  have s: "shown (lcd_transport_sync_parallel_interface E) (\<lambda>ok es. ok \<longrightarrow> es = map Data [0, 0, 0, 0])"
    unfolding lcd_transport_sync_parallel_interface_def
    by (rule shown_after [OF shown_idle], rule idles_output, simp, simp, rule shown_after [OF shown_idle], rule idles_output, simp, simp,
        rule shown_bind [OF shown_write_data], rule shown_bind [OF shown_idle], intro idles_seq idles_set idles_write)
       (auto intro: shown_ret)
  have "statics.same (lcd_transport_sync_parallel_interface E)"
    unfolding lcd_transport_sync_parallel_interface_def gpio_init_output_def gpio_set_def rmw_def
    by (intro statics.same_intros statics.same_write_data)
  with s show ?thesis unfolding sends_def by (rule draws_shown) (simp add: emit_def)
qed

text \<open>Probing: something is sent, an answer of the panel is read and judged.\<close>

lemma draws_query:
  fixes c :: "(('h, 'z) panelled_scheme, bool) cmd" and g :: "u8 list \<Rightarrow> (('h, 'z) panelled_scheme, bool \<times> 'a) cmd"
  assumes c: "sends dif_sees c f"
    and g: "\<And>raw. length raw = k \<Longrightarrow> draws dif_sees (g raw) (\<lambda>r es a b. es = [] \<and> b = a \<and> (fst r \<longrightarrow> P raw r))"
  shows "draws dif_sees (bindM c (\<lambda>ok. if \<not> ok then retM (False, x) else
      bindM (lcd_transport_read_data E k) (\<lambda>(ok, raw). if \<not> ok then retM (False, y) else g raw)))
    (\<lambda>r es a b. fst r \<longrightarrow> (\<exists>raw pre. length raw = k \<and> f a = Some (pre, b) \<and> es = pre @ map Received raw \<and> P raw r))"
proof -
  have rest: "draws dif_sees (bindM (lcd_transport_read_data E k) (\<lambda>(ok, raw). if \<not> ok then retM (False, y) else g raw))
      (\<lambda>r es a b. fst r \<longrightarrow> b = a \<and> (\<exists>raw. length raw = k \<and> es = map Received raw \<and> P raw r))"
    unfolding case_prod_beta
  proof (rule dif.draws_bind [OF dif.read_seen])
    fix q :: "bool \<times> u8 list" and es and a b :: lcd_statics
    assume q: "b = a \<and> (fst q \<longrightarrow> es = map Received (snd q) \<and> length (snd q) = k)"
    show "draws dif_sees (if \<not> fst q then retM (False, y) else g (snd q)) (\<lambda>r fs b' d. b' = b \<longrightarrow> fst r \<longrightarrow>
        d = a \<and> (\<exists>raw. length raw = k \<and> es @ fs = map Received raw \<and> P raw r))"
    proof (cases "fst q")
      case True
      with q have k: "length (snd q) = k" by simp
      show ?thesis using True q by (simp, intro draws_mono [OF g [OF k]]) auto
    qed (simp add: dif.draws_ret)
  qed
  show ?thesis
  proof (rule dif.draws_bind [OF c [unfolded sends_def]])
    fix ok es and a b :: lcd_statics assume ok: "ok \<longrightarrow> f a = Some (es, b)"
    show "draws dif_sees (if \<not> ok then retM (False, x) else
        bindM (lcd_transport_read_data E k) (\<lambda>(ok, raw). if \<not> ok then retM (False, y) else g raw))
      (\<lambda>r fs b' d. b' = b \<longrightarrow> fst r \<longrightarrow> (\<exists>raw pre. length raw = k \<and> f a = Some (pre, d) \<and> es @ fs = pre @ map Received raw \<and> P raw r))"
    proof (cases ok)
      case True
      show ?thesis using True ok by (simp, intro draws_mono [OF rest]) auto
    qed (simp add: dif.draws_ret)
  qed
qed

section \<open>A panel with indexed registers\<close>

text \<open>
  The index of a register is sent as two command bytes and its value as two data bytes; the register \<open>gd\<close> is the window on the
  frame memory and takes data bytes without end.
\<close>

record panel =
  selected :: u16
  pending :: "u8 option"
  regs :: "u16 \<Rightarrow> u16"
  gram :: "u8 list"

fun panel_step :: "u16 \<Rightarrow> panel \<Rightarrow> lcd_event \<Rightarrow> panel" where
  "panel_step gd p (Command c) = p\<lparr>selected := push_bit 8 (selected p) OR ucast c, pending := None\<rparr>"
| "panel_step gd p (Data b) =
     (if selected p = gd then p\<lparr>gram := gram p @ [b]\<rparr> else
      case pending p of
        None \<Rightarrow> p\<lparr>pending := Some b\<rparr>
      | Some h \<Rightarrow> p\<lparr>regs := (regs p)(selected p := push_bit 8 (ucast h) OR ucast b), pending := None\<rparr>)"
| "panel_step gd p (Received b) = p"

definition panel_run :: "u16 \<Rightarrow> panel \<Rightarrow> lcd_event list \<Rightarrow> panel" where
  "panel_run gd = foldl (panel_step gd)"

lemma panel_run_append: "panel_run gd p (es @ fs) = panel_run gd (panel_run gd p es) fs"
  by (simp add: panel_run_def)

text \<open>What the drivers send, and its effect.\<close>

definition select_events :: "u16 \<Rightarrow> lcd_event list" where
  "select_events i = [Command (ucast (drop_bit 8 i)), Command (ucast i)]"

definition register_events :: "u16 \<Rightarrow> u16 \<Rightarrow> lcd_event list" where
  "register_events i v = select_events i @ map Data (word_be v)"

definition select_register :: "u16 \<Rightarrow> panel \<Rightarrow> panel" where
  "select_register i p = p\<lparr>selected := i, pending := None\<rparr>"

definition store_register :: "u16 \<Rightarrow> u16 \<Rightarrow> panel \<Rightarrow> panel" where
  "store_register i v p = (select_register i p)\<lparr>regs := (regs p)(i := v)\<rparr>"

lemma ucast16_back: "ucast (ucast (c :: u8) :: u16) = c"
  by (rule bit_word_eqI) (simp add: bit_ucast_iff)

lemma ucast_high_byte: "ucast (drop_bit 8 (ucast (c :: u8) :: u16)) = (0 :: u8)"
  by (rule bit_word_eqI) (auto simp: pixel_bits dest: bit_imp_le_length)

lemma shift_in: "push_bit 8 (push_bit 8 x OR ucast (ucast (drop_bit 8 i) :: u8)) OR ucast (ucast i :: u8) = (i :: u16)"
  by (rule bit_word_eqI) (auto simp: pixel_bits)

lemma panel_run_select: "panel_run gd p (select_events i) = select_register i p"
  using shift_in [of 0 i] by (simp add: panel_run_def select_events_def select_register_def)

lemma panel_run_register: "i \<noteq> gd \<Longrightarrow> panel_run gd p (register_events i v) = store_register i v p"
  by (simp add: register_events_def panel_run_append panel_run_select)
     (simp add: panel_run_def word_be_def store_register_def select_register_def word_be_back)

lemma panel_run_gram: "selected p = gd \<Longrightarrow> panel_run gd p (map Data bs) = p\<lparr>gram := gram p @ bs\<rparr>"
  by (induction bs arbitrary: p) (simp_all add: panel_run_def)

lemma panel_run_reads: "panel_run gd p (map Received bs) = p"
  by (induction bs) (simp_all add: panel_run_def)

lemma select_register_simps [simp]:
  "pending (select_register i p) = None" "pending (store_register i v p) = None"
  "selected (select_register i p) = i" "regs (select_register i p) = regs p" "gram (select_register i p) = gram p"
  "selected (store_register i v p) = i" "regs (store_register i v p) = (regs p)(i := v)" "gram (store_register i v p) = gram p"
  by (simp_all add: select_register_def store_register_def)

text \<open>Four zeros for a register.\<close>

lemma panel_run_zeros:
  "selected p \<noteq> gd \<Longrightarrow> pending p = None \<Longrightarrow> 
    panel_run gd p (Data 0 # Data 0 # Data 0 # Data 0 # es) = panel_run gd (p\<lparr>regs := (regs p)(selected p := 0), pending := None\<rparr>) es"
  by (simp add: panel_run_def)

text \<open>Tables of registers.\<close>

definition store_all :: "(u16 \<times> u16) list \<Rightarrow> panel \<Rightarrow> panel" where
  "store_all rs = fold (\<lambda>(i, v). store_register i v) rs"

definition table_events :: "(u16 \<times> u16) list \<Rightarrow> lcd_event list" where
  "table_events rs = concat (map (\<lambda>(i, v). register_events i v) rs)"

lemma panel_run_table: "list_all (\<lambda>(i, v). i \<noteq> gd) rs \<Longrightarrow> panel_run gd p (table_events rs) = store_all rs p"
proof (induction rs arbitrary: p)
  case (Cons r rs)
  then show ?case by (cases r) (simp add: table_events_def store_all_def panel_run_append panel_run_register)
qed (simp add: table_events_def store_all_def panel_run_def)

lemma gram_store_all [simp]: "gram (store_all rs p) = gram p"
  by (induction rs arbitrary: p) (auto simp: store_all_def)


end
