(* ===== verification/Lcd_Session.thy ===== *)
theory Lcd_Session
  imports Lcd_Panel_Model
begin

text \<open>
  What the callers of a display driver rely on: the requests of \<^verbatim>\<open>struct lcd_controller\<close>, made one after the other, and an abstract
  display that says what the panel is to be set to. A driver fits the abstract display when its panel, fed with what the driver
  has sent, holds the encoded settings; this is shown once for all drivers, from what a driver has to show for one request.
\<close>

section \<open>Requests and their meaning\<close>

datatype lcd_request =
    Set_Format lcd_pixel_format | Set_Mode lcd_address_mode | Set_Window u16 u16 u16 u16 | Set_Cursor u16 u16
  | Write_Pixels "lcd_color list" | Read_Pixels nat

record display =
  display_format :: lcd_pixel_format
  display_mode :: lcd_address_mode
  display_window :: "(u16 \<times> u16 \<times> u16 \<times> u16) option"
  display_cursor :: "(u16 \<times> u16) option"
  memory :: "u8 list"

text \<open>
  A window puts the cursor on the corner where the counters start. Some panels mirror the coordinates instead of counting
  backwards; \<^verbatim>\<open>reverse_x_mirrors_coordinates\<close> and its counterpart say so, and the corner is then always the first one.
\<close>

definition corner :: "bool \<Rightarrow> bool \<Rightarrow> lcd_address_mode \<Rightarrow> u16 \<Rightarrow> u16 \<Rightarrow> u16 \<Rightarrow> u16 \<Rightarrow> u16 \<times> u16" where
  "corner mx my mode x_start x_end y_start y_end =
     (if reverse_x mode \<and> \<not> mx then x_end else x_start, if reverse_y mode \<and> \<not> my then y_end else y_start)"

fun display_step :: "bool \<Rightarrow> bool \<Rightarrow> display \<Rightarrow> lcd_request \<Rightarrow> display" where
  "display_step mx my d (Set_Format fmt) = d\<lparr>display_format := fmt\<rparr>"
| "display_step mx my d (Set_Mode mode) = d\<lparr>display_mode := mode\<rparr>"
| "display_step mx my d (Set_Window x_start x_end y_start y_end) =
     d\<lparr>display_window := Some (x_start, x_end, y_start, y_end),
       display_cursor := Some (corner mx my (display_mode d) x_start x_end y_start y_end)\<rparr>"
| "display_step mx my d (Set_Cursor x y) = d\<lparr>display_cursor := Some (x, y)\<rparr>"
| "display_step mx my d (Write_Pixels colors) = d\<lparr>memory := memory d @ concat (map (pixel_bytes (display_format d)) colors)\<rparr>"
| "display_step mx my d (Read_Pixels n) = d"

definition lcd_perform :: "('h, 'z) lcd_controller \<Rightarrow> lcd_request \<Rightarrow> (('h, 'z) panelled_scheme, bool) cmd" where
  "lcd_perform lcd r = (case r of
       Set_Format fmt \<Rightarrow> set_pixel_format lcd fmt
     | Set_Mode mode \<Rightarrow> set_address_mode lcd mode
     | Set_Window x_start x_end y_start y_end \<Rightarrow> set_window lcd x_start x_end y_start y_end
     | Set_Cursor x y \<Rightarrow> (case set_cursor lcd of None \<Rightarrow> retM False | Some f \<Rightarrow> f x y)
     | Write_Pixels colors \<Rightarrow> write_pixels lcd colors
     | Read_Pixels n \<Rightarrow> (case read_pixels lcd of None \<Rightarrow> retM False | Some f \<Rightarrow> mapM fst (f n)))"

primrec lcd_requests :: "('h, 'z) lcd_controller \<Rightarrow> lcd_request list \<Rightarrow> (('h, 'z) panelled_scheme, bool) cmd" where
  "lcd_requests lcd [] = retM True"
| "lcd_requests lcd (r # rs) = andM (lcd_perform lcd r) (lcd_requests lcd rs)"

definition lcd_session :: "('h, 'z) lcd_controller \<Rightarrow> lcd_request list \<Rightarrow> (('h, 'z) panelled_scheme, bool) cmd" where
  "lcd_session lcd rs = andM (initialize lcd) (lcd_requests lcd rs)"

definition lcd_step :: "('h, 'z) lcd_controller \<Rightarrow> display \<Rightarrow> lcd_request \<Rightarrow> display" where
  "lcd_step lcd = display_step (reverse_x_mirrors_coordinates lcd) (reverse_y_mirrors_coordinates lcd)"

text \<open>Requests that send only.\<close>

fun sending :: "lcd_request \<Rightarrow> bool" where
  "sending (Read_Pixels n) \<longleftrightarrow> False"
| "sending _ \<longleftrightarrow> True"

section \<open>Drivers\<close>

locale panel_automaton =
  fixes run :: "'p \<Rightarrow> lcd_event list \<Rightarrow> 'p"
  assumes run_Nil: "run p [] = p"
    and run_append: "run p (es @ fs) = run (run p es) fs"

locale lcd_driver = panel_automaton run + wire sees
  for run :: "'p \<Rightarrow> lcd_event list \<Rightarrow> 'p"
    and sees :: "access list \<Rightarrow> lcd_event list \<Rightarrow> bool" +
  fixes lcd :: "('h, 'z) lcd_controller"
    and accepts :: "lcd_request \<Rightarrow> bool"
    and encodes :: "lcd_statics \<Rightarrow> display \<Rightarrow> 'p \<Rightarrow> bool"
    and first :: display
    and ready :: bool
  assumes initialize_encodes:
      "draws sees (initialize lcd) (\<lambda>ok es a b. ok \<longrightarrow> (\<forall>p. encodes b first (run p es)))"
    and perform_encodes:
      "draws sees (lcd_perform lcd r) (\<lambda>ok es a b. ok \<longrightarrow> accepts r \<and>
         (\<forall>p d. encodes a d p \<longrightarrow> encodes b (lcd_step lcd d r) (run p es)))"
    and perform_succeeds:
      "ready \<Longrightarrow> accepts r \<Longrightarrow> sending r \<Longrightarrow> (\<And>t. Q True t) \<Longrightarrow> wpM (lcd_perform lcd r) Q s"
begin

lemma requests_encode:
  "draws sees (lcd_requests lcd rs) (\<lambda>ok es a b. ok \<longrightarrow> list_all accepts rs \<and>
     (\<forall>p d. encodes a d p \<longrightarrow> encodes b (foldl (lcd_step lcd) d rs) (run p es)))"
proof (induction rs)
  case (Cons r rs)
  show ?case
    unfolding lcd_requests.simps andM_def
  proof (rule draws_bind [OF perform_encodes])
    fix ok es and a b :: lcd_statics
    assume r: "ok \<longrightarrow> accepts r \<and> (\<forall>p d. encodes a d p \<longrightarrow> encodes b (lcd_step lcd d r) (run p es))"
    show "draws sees (if ok then lcd_requests lcd rs else retM False)
      (\<lambda>ok2 fs b' e. b' = b \<longrightarrow> ok2 \<longrightarrow> list_all accepts (r # rs) \<and>
        (\<forall>p d. encodes a d p \<longrightarrow> encodes e (foldl (lcd_step lcd) d (r # rs)) (run p (es @ fs))))"
    proof (cases ok)
      case True
      show ?thesis using True r by (simp, intro draws_mono [OF Cons]) (simp add: run_append)
    qed (simp add: draws_ret)
  qed
qed (simp add: draws_ret run_Nil)

lemma session_encodes:
  "draws sees (lcd_session lcd rs) (\<lambda>ok es a b. ok \<longrightarrow> list_all accepts rs \<and>
     (\<forall>p. encodes b (foldl (lcd_step lcd) first rs) (run p es)))"
  unfolding lcd_session_def andM_def
proof (rule draws_bind [OF initialize_encodes])
  fix ok es and a b :: lcd_statics assume i: "ok \<longrightarrow> (\<forall>p. encodes b first (run p es))"
  show "draws sees (if ok then lcd_requests lcd rs else retM False)
      (\<lambda>ok2 fs b' e. b' = b \<longrightarrow> ok2 \<longrightarrow> list_all accepts rs \<and>
        (\<forall>p. encodes e (foldl (lcd_step lcd) first rs) (run p (es @ fs))))"
  proof (cases ok)
    case True
    show ?thesis using True i by (simp, intro draws_mono [OF requests_encode]) (simp add: run_append)
  qed (simp add: draws_ret)
qed

lemma requests_succeed:
  "ready \<Longrightarrow> list_all accepts rs \<Longrightarrow> list_all sending rs \<Longrightarrow> (\<And>t. Q True t) \<Longrightarrow> wpM (lcd_requests lcd rs) Q s"
proof (induction rs arbitrary: s)
  case (Cons r rs)
  then show ?case
    unfolding lcd_requests.simps andM_def wp by (intro perform_succeeds) auto
qed (simp add: wp)

end

interpretation panel_run: panel_automaton "panel_run gd" for gd
  by unfold_locales (simp_all add: panel_run_append, simp add: panel_run_def)

end
