(* ===== verification/Lcd_R61505.thy ===== *)
theory Lcd_R61505
  imports Lcd_Session
begin

text \<open>
  The driver of the R61505U and ILI9320 panels (\<^verbatim>\<open>src/unit/lcd/r61505.c\<close>). A register of the panel has an index that is sent as
  two command bytes and a value of two data bytes.
\<close>

section \<open>Definitions\<close>

abbreviation (input) R61505U_WIDTH :: u16 where "R61505U_WIDTH \<equiv> 240"
abbreviation (input) R61505U_HEIGHT :: u16 where "R61505U_HEIGHT \<equiv> 320"

definition IL220_PANEL_REGISTERS :: "(u8 \<times> u16) list" where
  "IL220_PANEL_REGISTERS =
     [(R61505U_CALIBRATION_CONTROL, R61505U_CALIBRATION_CONTROL_CALB),
      (ILI9320_GATE_SCAN, 0x2700),
      (ILI9320_DISPLAY_CONTROL_2, 0x020E),
      (ILI9320_GAMMA_30, 0x0700),
      (ILI9320_GAMMA_31, 0x0200),
      (ILI9320_GAMMA_32, 0x0202),
      (R61505U_GAMMA_33, 0x0003),
      (R61505U_GAMMA_34, 0x0303),
      (ILI9320_GAMMA_35, 0x0707),
      (ILI9320_GAMMA_36, 0x1F1F),
      (ILI9320_GAMMA_37, 0x0506),
      (ILI9320_GAMMA_38, 0x0202),
      (ILI9320_GAMMA_39, 0x0202),
      (R61505U_GAMMA_3A, 0x0103),
      (R61505U_GAMMA_3B, 0x0303),
      (ILI9320_GAMMA_3C, 0x0703),
      (ILI9320_GAMMA_3D, 0x1F1F)]"

definition IL220_POWER_AND_INTERFACE_REGISTERS :: "(u8 \<times> u16) list" where
  "IL220_POWER_AND_INTERFACE_REGISTERS =
     [(ILI9320_DISPLAY_CONTROL_1, 0x0001),
      (R61505U_POWER_CONTROL_5, R61505U_POWER_CONTROL_5_PSE),
      (ILI9320_POWER_CONTROL_1, 0x10B0),
      (ILI9320_POWER_CONTROL_2, 0x0117),
      (ILI9320_POWER_CONTROL_3, 0x011A),
      (ILI9320_POWER_CONTROL_4, 0x0A00),
      (ILI9320_POWER_CONTROL_7, 0x000B),
      (R61505U_POWER_CONTROL_3, 0x011A OR R61505U_POWER_CONTROL_3_PSON),
      (ILI9320_DRIVER_OUTPUT_CONTROL, 0x0500),
      (ILI9320_LCD_DRIVING_CONTROL, 0x0700),
      (ILI9320_ENTRY_MODE, 0x5030),
      (ILI9320_RESIZE_CONTROL, 0x0000),
      (ILI9320_DISPLAY_CONTROL_3, 0x0001),
      (ILI9320_DISPLAY_CONTROL_4, 0x0008),
      (ILI9320_FRAME_MARKER, 0x000E),
      (ILI9320_WINDOW_X_START, 0x0000),
      (ILI9320_WINDOW_X_END, R61505U_WIDTH - 1),
      (ILI9320_WINDOW_Y_START, 0x0000),
      (ILI9320_WINDOW_Y_END, R61505U_HEIGHT - 1),
      (ILI9320_BASE_IMAGE, 0x0000),
      (ILI9320_PANEL_INTERFACE_1, 0x001C),
      (ILI9320_PANEL_INTERFACE_2, 0x0100),
      (ILI9320_PANEL_INTERFACE_3, 0x0002),
      (ILI9320_GRAM_X, 0x0000),
      (ILI9320_GRAM_Y, 0x0000),
      (ILI9320_DISPLAY_CONTROL_1, 0x0021)]"

definition r61505_write_command :: "'h env \<Rightarrow> u8 \<Rightarrow> (('h, 'z) panelled_scheme, bool) cmd" where
  "r61505_write_command E command = andM (lcd_transport_write_command E 0) (lcd_transport_write_command E command)"

definition r61505_write_register :: "'h env \<Rightarrow> u8 \<Rightarrow> u16 \<Rightarrow> (('h, 'z) panelled_scheme, bool) cmd" where
  "r61505_write_register E index v = andM (r61505_write_command E index) (lcd_transport_write_data E (word_be v))"

primrec r61505_write_registers :: "'h env \<Rightarrow> (u8 \<times> u16) list \<Rightarrow> (('h, 'z) panelled_scheme, bool) cmd" where
  "r61505_write_registers E [] = retM True"
| "r61505_write_registers E (r # rs) = andM (r61505_write_register E (fst r) (snd r)) (r61505_write_registers E rs)"

text \<open>BGR is the normal order of the colours of this panel.\<close>

definition r61505_entry_mode :: "lcd_statics \<Rightarrow> u16" where
  "r61505_entry_mode s =
     ILI9320_ENTRY_MODE_DFM OR
     (if reverse_x (r61505_mode s) then 0 else push_bit ILI9320_ENTRY_MODE_ID_SHIFT 1) OR
     (if reverse_y (r61505_mode s) then 0 else push_bit ILI9320_ENTRY_MODE_ID_SHIFT 2) OR
     (if swap_axes (r61505_mode s) then ILI9320_ENTRY_MODE_AM else 0) OR
     (if \<not> bgr (r61505_mode s) then ILI9320_ENTRY_MODE_BGR else 0) OR
     (if r61505_format s \<noteq> LCD_PIXEL_FORMAT_RGB565 then ILI9320_ENTRY_MODE_TRI else 0)"

definition r61505_apply_entry_mode :: "'h env \<Rightarrow> (('h, 'z) panelled_scheme, bool) cmd" where
  "r61505_apply_entry_mode E =
     bindM (getM (\<lambda>s. r61505_entry_mode (statics s))) (\<lambda>v. r61505_write_register E ILI9320_ENTRY_MODE v)"

definition r61505_set_pixel_format :: "'h env \<Rightarrow> lcd_pixel_format \<Rightarrow> (('h, 'z) panelled_scheme, bool) cmd" where
  "r61505_set_pixel_format E fmt =
     (if fmt \<noteq> LCD_PIXEL_FORMAT_RGB565 \<and> fmt \<noteq> LCD_PIXEL_FORMAT_RGB666_8_8_2 \<and> fmt \<noteq> LCD_PIXEL_FORMAT_RGB666_2_8_8 \<and>
         fmt \<noteq> LCD_PIXEL_FORMAT_RGB666 then retM False
      else bindM (modM (\<lambda>s. s\<lparr>statics := statics s\<lparr>r61505_format := fmt\<rparr>\<rparr>)) (\<lambda>_. r61505_apply_entry_mode E))"

definition r61505_set_address_mode :: "'h env \<Rightarrow> lcd_address_mode \<Rightarrow> (('h, 'z) panelled_scheme, bool) cmd" where
  "r61505_set_address_mode E mode =
     bindM (modM (\<lambda>s. s\<lparr>statics := statics s\<lparr>r61505_mode := mode\<rparr>\<rparr>)) (\<lambda>_. r61505_apply_entry_mode E)"

definition r61505_set_cursor :: "'h env \<Rightarrow> u16 \<Rightarrow> u16 \<Rightarrow> (('h, 'z) panelled_scheme, bool) cmd" where
  "r61505_set_cursor E x y =
     (if x \<ge> R61505U_WIDTH \<or> y \<ge> R61505U_HEIGHT then retM False
      else andM (r61505_write_register E ILI9320_GRAM_X x) (r61505_write_register E ILI9320_GRAM_Y y))"

definition r61505_set_window :: "'h env \<Rightarrow> u16 \<Rightarrow> u16 \<Rightarrow> u16 \<Rightarrow> u16 \<Rightarrow> (('h, 'z) panelled_scheme, bool) cmd" where
  "r61505_set_window E x_start x_end y_start y_end =
     (if x_start > x_end \<or> y_start > y_end \<or> x_end \<ge> R61505U_WIDTH \<or> y_end \<ge> R61505U_HEIGHT then retM False
      else
        bindM (getM (\<lambda>s. r61505_mode (statics s))) (\<lambda>mode.
        let current_x = (if reverse_x mode then x_end else x_start);
            current_y = (if reverse_y mode then y_end else y_start) in
        andM (r61505_write_registers E [(ILI9320_WINDOW_X_START, x_start), (ILI9320_WINDOW_X_END, x_end),
                                        (ILI9320_WINDOW_Y_START, y_start), (ILI9320_WINDOW_Y_END, y_end)])
          (r61505_set_cursor E current_x current_y)))"

definition r61505_write_pixels :: "'h env \<Rightarrow> lcd_color list \<Rightarrow> (('h, 'z) panelled_scheme, bool) cmd" where
  "r61505_write_pixels E colors =
     andM (r61505_write_command E ILI9320_GRAM_DATA)
       (bindM (getM (\<lambda>s. r61505_format (statics s))) (\<lambda>fmt. lcd_write_loop E (pixel_bytes fmt) colors))"

definition r61505_expand_5bit :: "u8 \<Rightarrow> u8" where
  "r61505_expand_5bit v = push_bit 1 v OR drop_bit 4 v"

definition r61505_quantize_color :: "lcd_pixel_format \<Rightarrow> lcd_color \<Rightarrow> lcd_color" where
  "r61505_quantize_color fmt c =
     c\<lparr>red := r61505_expand_5bit (drop_bit 1 (red c)), blue := r61505_expand_5bit (drop_bit 1 (blue c))\<rparr>"

definition r61505_read_pixels :: "'h env \<Rightarrow> nat \<Rightarrow> (('h, 'z) panelled_scheme, bool \<times> lcd_color list) cmd" where
  "r61505_read_pixels E count =
     bindM (r61505_write_command E ILI9320_GRAM_DATA) (\<lambda>ok.
     if \<not> ok then retM (False, []) else
     bindM (lcd_transport_read_data E 2) (\<lambda>(ok, _).
     if \<not> ok then retM (False, []) else
     lcd_read_loop count E 2 (pixel_color r61505_expand_5bit LCD_PIXEL_FORMAT_RGB565) []))"

text \<open>\<open>ke970\<close> is the preprocessor symbol \<^verbatim>\<open>BOARD_LG_KE970\<close>: on this phone the panel cannot be read.\<close>

definition r61505_matches_id :: "bool \<Rightarrow> u32 \<Rightarrow> bool" where
  "r61505_matches_id ke970 ident =
     (if ke970 \<and> ident = LCD_CONTROLLER_ID_UNAVAILABLE then True else ident = 0x9320 \<or> ident AND 0xfff = 0x505)"

primrec r61505_commands :: "nat \<Rightarrow> 'h env \<Rightarrow> u8 \<Rightarrow> (('h, 'z) panelled_scheme, bool) cmd" where
  "r61505_commands 0 E command = retM True"
| "r61505_commands (Suc n) E command = andM (r61505_write_command E command) (r61505_commands n E command)"

definition r61505_candidate :: "bool \<Rightarrow> u8 list \<Rightarrow> u32 option" where
  "r61505_candidate ke970 raw =
     List.find (r61505_matches_id ke970)
       (map (\<lambda>i. ucast (push_bit 8 (ucast (raw ! i)) OR ucast (raw ! (i + 1)) :: u16)) [0..<length raw - 1])"

definition r61505_probe :: "'h env \<Rightarrow> formatter \<Rightarrow> bool \<Rightarrow> (('h, 'z) panelled_scheme, bool \<times> u32 option) cmd" where
  "r61505_probe E F ke970 =
     (if ke970 then
        bindM (printf E F ''# IL220 device-code read unavailable: KE970 DIF_RD is used for HOOK_DETECT\<newline>'' [])
          (\<lambda>_. retM (True, Some LCD_CONTROLLER_ID_UNAVAILABLE))
      else
        bindM (r61505_commands 4 E ILI9320_OSCILLATION) (\<lambda>ok.
        if \<not> ok then retM (False, None) else
        bindM (lcd_transport_read_data E 8) (\<lambda>(ok, raw).
        if \<not> ok then retM (False, None) else
        bindM (printf E F ''# ILI9320/R61505U R00h device code raw:'' []) (\<lambda>_.
        bindM (forM raw (\<lambda>b. printf E F '' %02X'' [Num (ucast b)])) (\<lambda>_.
        bindM (printf E F ''\<newline>'' []) (\<lambda>_.
        case r61505_candidate ke970 raw of
          Some candidate \<Rightarrow> retM (True, Some candidate)
        | None \<Rightarrow> retM (False, Some (push_bit 8 (ucast (raw ! 0)) OR ucast (raw ! 1)))))))))"

definition r61505_initialize :: "'h env \<Rightarrow> (('h, 'z) panelled_scheme, bool) cmd" where
  "r61505_initialize E =
     bindM (modM (\<lambda>s. s\<lparr>statics := statics s\<lparr>r61505_format := LCD_PIXEL_FORMAT_RGB565, r61505_mode := DEFAULT_MODE\<rparr>\<rparr>)) (\<lambda>_.
     andM (r61505_write_registers E [(ILI9320_DISPLAY_CONTROL_1, 0x0000), (ILI9320_POWER_CONTROL_3, 0x0000)])
       (bindM (stopwatch_usleep_wd E 9000) (\<lambda>_.
     andM (r61505_commands 4 E ILI9320_OSCILLATION)
       (andM (r61505_write_register E ILI9320_OSCILLATION ILI9320_OSCILLATION_OSC)
       (bindM (stopwatch_usleep_wd E 10000) (\<lambda>_.
     andM (r61505_write_registers E IL220_PANEL_REGISTERS)
       (bindM (stopwatch_usleep_wd E 9000) (\<lambda>_.
     andM (r61505_write_registers E IL220_POWER_AND_INTERFACE_REGISTERS)
       (bindM (stopwatch_usleep_wd E 10000) (\<lambda>_.
     andM (r61505_write_register E R61505U_DISPLAY_CONTROL_1 (0x0021 OR R61505U_DISPLAY_CONTROL_1_VON))
       (bindM (stopwatch_usleep_wd E 6000) (\<lambda>_.
     r61505_write_register E R61505U_DISPLAY_CONTROL_1 (0x0133 OR R61505U_DISPLAY_CONTROL_1_VON)))))))))))))"

definition lcd_controller_r61505 :: "'h env \<Rightarrow> formatter \<Rightarrow> bool \<Rightarrow> ('h, 'z) lcd_controller" where
  "lcd_controller_r61505 E F ke970 = \<lparr>
     lcd_name = ''R61505U/ILI9320'',
     lcd_type = LCD_CONTROLLER_R61505,
     lcd_id = 0x1505,
     lcd_width = R61505U_WIDTH,
     lcd_height = R61505U_HEIGHT,
     pixel_formats = BIT (format_number LCD_PIXEL_FORMAT_RGB565) OR BIT (format_number LCD_PIXEL_FORMAT_RGB666),
     reset_settle_ms = 0,
     gram_write_command = [0x00, ILI9320_GRAM_DATA],
     gram_read_command = [0x00, ILI9320_GRAM_DATA],
     rgb565_read_dummy_bytes = 2,
     swap_axes_changes_gram_order = False,
     reverse_x_mirrors_coordinates = False,
     reverse_y_mirrors_coordinates = False,
     matches_id = Some (r61505_matches_id ke970),
     probe = r61505_probe E F ke970,
     initialize = r61505_initialize E,
     quantize_color = r61505_quantize_color,
     set_pixel_format = r61505_set_pixel_format E,
     set_address_mode = r61505_set_address_mode E,
     set_window = r61505_set_window E,
     set_cursor = Some (r61505_set_cursor E),
     write_pixels = r61505_write_pixels E,
     read_pixels = Some (r61505_read_pixels E)\<rparr>"

section \<open>What the driver sends\<close>

lemma sends_r61505_command: "sends dif_sees (r61505_write_command E c) (emit (select_events (ucast c)))"
  unfolding r61505_write_command_def
  by (rule sends_cong [OF dif.sends_and [OF dif.sends_command dif.sends_command]])
     (simp add: emit_def select_events_def ucast_high_byte ucast16_back)

lemma sends_r61505_register: "sends dif_sees (r61505_write_register E i v) (emit (register_events (ucast i) v))"
  unfolding r61505_write_register_def
  by (rule sends_cong [OF dif.sends_and [OF sends_r61505_command dif.sends_data]]) (simp add: emit_def register_events_def)

lemma sends_r61505_registers:
  "sends dif_sees (r61505_write_registers E rs) (emit (table_events (map (\<lambda>r. (ucast (fst r), snd r)) rs)))"
proof (induction rs)
  case (Cons r rs)
  show ?case
    unfolding r61505_write_registers.simps
    by (rule sends_cong [OF dif.sends_and [OF sends_r61505_register Cons]]) (simp add: emit_def table_events_def)
qed (simp add: dif.sends_ret table_events_def)

lemma sends_r61505_commands: "sends dif_sees (r61505_commands n E c) (emit (concat (replicate n (select_events (ucast c)))))"
proof (induction n)
  case (Suc n)
  show ?case
    unfolding r61505_commands.simps
    by (rule sends_cong [OF dif.sends_and [OF sends_r61505_command Suc]]) (simp add: emit_def)
qed (simp add: dif.sends_ret)

lemma sends_r61505_entry_mode:
  "sends dif_sees (r61505_apply_entry_mode E) (\<lambda>a. Some (register_events 3 (r61505_entry_mode a), a))"
  unfolding r61505_apply_entry_mode_def
  by (rule sends_cong [OF dif.sends_get [OF sends_r61505_register]]) (simp add: emit_def)

lemma sends_r61505_format:
  "sends dif_sees (r61505_set_pixel_format E fmt)
     (\<lambda>a. let b = a\<lparr>r61505_format := fmt\<rparr> in Some (register_events 3 (r61505_entry_mode b), b))"
proof -
  have "\<not> (fmt \<noteq> LCD_PIXEL_FORMAT_RGB565 \<and> fmt \<noteq> LCD_PIXEL_FORMAT_RGB666_8_8_2 \<and> fmt \<noteq> LCD_PIXEL_FORMAT_RGB666_2_8_8 \<and>
    fmt \<noteq> LCD_PIXEL_FORMAT_RGB666)" by (cases fmt) simp_all
  then show ?thesis
    unfolding r61505_set_pixel_format_def Let_def
    by (simp only: if_False) (rule dif.sends_after [OF dif.draws_statics sends_r61505_entry_mode], simp)
qed

lemma sends_r61505_mode:
  "sends dif_sees (r61505_set_address_mode E mode)
     (\<lambda>a. let b = a\<lparr>r61505_mode := mode\<rparr> in Some (register_events 3 (r61505_entry_mode b), b))"
  unfolding r61505_set_address_mode_def Let_def
  by (rule dif.sends_after [OF dif.draws_statics sends_r61505_entry_mode]) simp

text \<open>Positions on the panel.\<close>

definition on_panel :: "u16 \<Rightarrow> u16 \<Rightarrow> bool" where
  "on_panel x y \<longleftrightarrow> x < R61505U_WIDTH \<and> y < R61505U_HEIGHT"

definition window_fits :: "u16 \<Rightarrow> u16 \<Rightarrow> u16 \<Rightarrow> u16 \<Rightarrow> bool" where
  "window_fits x_start x_end y_start y_end \<longleftrightarrow> x_start \<le> x_end \<and> y_start \<le> y_end \<and> on_panel x_end y_end"

lemma sends_r61505_cursor:
  "sends dif_sees (r61505_set_cursor E x y) (\<lambda>a. if on_panel x y then Some (table_events [(0x20, x), (0x21, y)], a) else None)"
proof (cases "on_panel x y")
  case True
  then have "\<not> (x \<ge> R61505U_WIDTH \<or> y \<ge> R61505U_HEIGHT)" by (simp add: on_panel_def not_le)
  with True show ?thesis
    unfolding r61505_set_cursor_def
    by (simp only: if_False if_True)
       (rule sends_cong [OF dif.sends_and [OF sends_r61505_register sends_r61505_register]], simp add: emit_def table_events_def)
next
  case False
  then have "x \<ge> R61505U_WIDTH \<or> y \<ge> R61505U_HEIGHT" by (auto simp: on_panel_def not_less)
  with False show ?thesis
    unfolding r61505_set_cursor_def by (simp only: if_True if_False) (rule dif.sends_ret)
qed

lemma corner_fits:
  "window_fits x_start x_end y_start y_end \<Longrightarrow> corner False False mode x_start x_end y_start y_end = (x, y) \<Longrightarrow> on_panel x y"
  by (auto simp: window_fits_def corner_def on_panel_def split: if_splits)

lemma sends_r61505_window:
  "sends dif_sees (r61505_set_window E x_start x_end y_start y_end)
     (\<lambda>a. if window_fits x_start x_end y_start y_end
          then case corner False False (r61505_mode a) x_start x_end y_start y_end of (x, y) \<Rightarrow>
            Some (table_events [(0x50, x_start), (0x51, x_end), (0x52, y_start), (0x53, y_end), (0x20, x), (0x21, y)], a)
          else None)"
proof (cases "window_fits x_start x_end y_start y_end")
  case True
  then have n: "\<not> (x_start > x_end \<or> y_start > y_end \<or> x_end \<ge> R61505U_WIDTH \<or> y_end \<ge> R61505U_HEIGHT)"
    by (simp add: window_fits_def on_panel_def not_le not_less)
  show ?thesis
    unfolding r61505_set_window_def Let_def
    by (simp only: n if_False True if_True)
       (rule sends_cong [OF dif.sends_get [OF dif.sends_and [OF sends_r61505_registers sends_r61505_cursor]]],
        use corner_fits [OF True] in \<open>auto simp: table_events_def corner_def\<close>)
next
  case False
  then have "x_start > x_end \<or> y_start > y_end \<or> x_end \<ge> R61505U_WIDTH \<or> y_end \<ge> R61505U_HEIGHT"
    by (auto simp: window_fits_def on_panel_def not_le)
  with False show ?thesis
    unfolding r61505_set_window_def by (simp only: if_True if_False) (rule dif.sends_ret)
qed

lemma sends_r61505_pixels:
  "sends dif_sees (r61505_write_pixels E colors)
     (\<lambda>a. Some (select_events 0x22 @ map Data (concat (map (pixel_bytes (r61505_format a)) colors)), a))"
  unfolding r61505_write_pixels_def
  by (rule sends_cong [OF dif.sends_and [OF sends_r61505_command dif.sends_get [OF sends_write_loop]]])
     (simp add: emit_def)

lemma r61505_read_shape:
  "r61505_read_pixels E n = lcd_read_shape (r61505_write_command E ILI9320_GRAM_DATA) 2 n E 2
     (pixel_color r61505_expand_5bit LCD_PIXEL_FORMAT_RGB565)"
  unfolding r61505_read_pixels_def lcd_read_shape_def ..

lemma draws_r61505_read:
  "draws dif_sees (r61505_read_pixels E n) (\<lambda>r es a b. fst r \<longrightarrow> b = a \<and> (\<exists>ds. length ds = n \<and>
     pixels_read (select_events 0x22) 2 2 es ds \<and> snd r = map (pixel_color r61505_expand_5bit LCD_PIXEL_FORMAT_RGB565) ds))"
  unfolding r61505_read_shape using draws_read_shape [OF sends_r61505_command [where c = ILI9320_GRAM_DATA]] by simp

definition r61505_script :: "lcd_event list" where
  "r61505_script =
     table_events [(7, 0), (0x12, 0)] @ concat [select_events 0, select_events 0, select_events 0, select_events 0] @
     register_events 0 1 @
     table_events (map (\<lambda>r. (ucast (fst r), snd r)) IL220_PANEL_REGISTERS) @
     table_events (map (\<lambda>r. (ucast (fst r), snd r)) IL220_POWER_AND_INTERFACE_REGISTERS) @
     table_events [(7, 0x0021 OR R61505U_DISPLAY_CONTROL_1_VON), (7, 0x0133 OR R61505U_DISPLAY_CONTROL_1_VON)]"

lemma four_times: "replicate 4 x = [x, x, x, x]"
  by (simp add: numeral_eq_Suc)

lemma sends_r61505_initialize:
  "sends dif_sees (r61505_initialize E)
     (\<lambda>a. Some (r61505_script, a\<lparr>r61505_format := LCD_PIXEL_FORMAT_RGB565, r61505_mode := DEFAULT_MODE\<rparr>))"
  unfolding r61505_initialize_def
  by (rule sends_cong, rule dif.sends_after [OF dif.draws_statics], simp,
      (rule dif.sends_and dif.sends_delay sends_r61505_registers sends_r61505_register sends_r61505_commands)+,
      simp add: emit_def r61505_script_def table_events_def four_times)

section \<open>The panel follows the requests\<close>

definition r61505_accepts :: "lcd_request \<Rightarrow> bool" where
  "r61505_accepts r \<longleftrightarrow> (case r of
       Set_Window x_start x_end y_start y_end \<Rightarrow> window_fits x_start x_end y_start y_end
     | Set_Cursor x y \<Rightarrow> on_panel x y
     | _ \<Rightarrow> True)"

definition r61505_encodes :: "lcd_statics \<Rightarrow> display \<Rightarrow> panel \<Rightarrow> bool" where
  "r61505_encodes a d p \<longleftrightarrow> r61505_format a = display_format d \<and> r61505_mode a = display_mode d \<and>
     regs p 0x03 = r61505_entry_mode a \<and>
     display_window d = Some (regs p 0x50, regs p 0x51, regs p 0x52, regs p 0x53) \<and>
     display_cursor d = Some (regs p 0x20, regs p 0x21) \<and> suffix (memory d) (gram p)"

definition r61505_display :: display where
  "r61505_display = \<lparr>display_format = LCD_PIXEL_FORMAT_RGB565, display_mode = DEFAULT_MODE,
     display_window = Some (0, R61505U_WIDTH - 1, 0, R61505U_HEIGHT - 1), display_cursor = Some (0, 0), memory = []\<rparr>"

lemmas r61505_panel = panel_run_append panel_run_select panel_run_register panel_run_table panel_run_gram panel_run_reads

lemma r61505_initial: "a = b\<lparr>r61505_format := LCD_PIXEL_FORMAT_RGB565, r61505_mode := DEFAULT_MODE\<rparr> \<Longrightarrow>
    r61505_encodes a r61505_display (panel_run 0x22 p r61505_script)"
  unfolding r61505_script_def
  by (simp add: r61505_panel r61505_encodes_def r61505_display_def store_all_def IL220_PANEL_REGISTERS_def IL220_POWER_AND_INTERFACE_REGISTERS_def
        r61505_entry_mode_def DEFAULT_MODE_def)

lemma wp_r61505_command: "ready_dif E \<Longrightarrow> (\<And>t. Q True t) \<Longrightarrow> wpM (r61505_write_command E c) Q s"
  unfolding r61505_write_command_def by (auto intro!: wp_and_ready wp_command_ready)

lemma wp_r61505_register: "ready_dif E \<Longrightarrow> (\<And>t. Q True t) \<Longrightarrow> wpM (r61505_write_register E i v) Q s"
  unfolding r61505_write_register_def by (auto intro!: wp_and_ready wp_r61505_command wp_data_ready)

lemma wp_r61505_registers: "ready_dif E \<Longrightarrow> (\<And>t. Q True t) \<Longrightarrow> wpM (r61505_write_registers E rs) Q s"
  by (induction rs arbitrary: Q s) (auto simp: andM_def wp intro!: wp_r61505_register)

lemma r61505_performs:
  assumes "ready_dif E" "r61505_accepts r" "sending r" "\<And>t. Q True t"
  shows "wpM (lcd_perform (lcd_controller_r61505 E F ke970) r) Q s"
proof (cases r)
  case (Set_Format fmt)
  then show ?thesis
    using assms(1,4) by (cases fmt) (auto simp: lcd_perform_def lcd_controller_r61505_def r61505_set_pixel_format_def
        r61505_apply_entry_mode_def wp intro!: wp_r61505_register)
next
  case (Set_Mode mode)
  then show ?thesis
    using assms(1,4) by (auto simp: lcd_perform_def lcd_controller_r61505_def r61505_set_address_mode_def
        r61505_apply_entry_mode_def wp intro!: wp_r61505_register)
next
  case (Set_Window x_start x_end y_start y_end)
  then show ?thesis
    using assms(1,2,4) by (auto simp: lcd_perform_def lcd_controller_r61505_def r61505_set_window_def r61505_set_cursor_def
        r61505_accepts_def window_fits_def on_panel_def Let_def not_le not_less wp
        intro!: wp_r61505_register wp_r61505_registers wp_and_ready split: if_splits)
next
  case (Set_Cursor x y)
  then show ?thesis
    using assms(1,2,4) by (auto simp: lcd_perform_def lcd_controller_r61505_def r61505_set_cursor_def
        r61505_accepts_def on_panel_def not_le wp intro!: wp_r61505_register wp_and_ready)
next
  case (Write_Pixels colors)
  then show ?thesis
    using assms(1,4) by (auto simp: lcd_perform_def lcd_controller_r61505_def r61505_write_pixels_def wp
        intro!: wp_r61505_command wp_loop_ready wp_and_ready)
qed (use assms in simp)

text \<open>What one request does to the panel.\<close>

lemma r61505_perform_encodes:
  "draws dif_sees (lcd_perform (lcd_controller_r61505 E F ke970) r) (\<lambda>ok es a b. ok \<longrightarrow> r61505_accepts r \<and>
     (\<forall>p d. r61505_encodes a d p \<longrightarrow> r61505_encodes b (lcd_step (lcd_controller_r61505 E F ke970) d r) (panel_run 0x22 p es)))"
proof (cases r)
  case (Set_Format fmt)
  show ?thesis
    unfolding Set_Format lcd_perform_def lcd_step_def lcd_controller_r61505_def
    by simp (rule draws_sends [OF sends_r61505_format], auto simp: r61505_encodes_def r61505_accepts_def Let_def r61505_panel)
next
  case (Set_Mode mode)
  show ?thesis
    unfolding Set_Mode lcd_perform_def lcd_step_def lcd_controller_r61505_def
    by simp (rule draws_sends [OF sends_r61505_mode], auto simp: r61505_encodes_def r61505_accepts_def Let_def r61505_panel)
next
  case (Set_Window x_start x_end y_start y_end)
  show ?thesis
    unfolding Set_Window lcd_perform_def lcd_step_def lcd_controller_r61505_def
    by simp (rule draws_sends [OF sends_r61505_window],
        auto simp: r61505_encodes_def r61505_accepts_def r61505_panel store_all_def split: if_splits prod.splits)
next
  case (Set_Cursor x y)
  show ?thesis
    unfolding Set_Cursor lcd_perform_def lcd_step_def lcd_controller_r61505_def
    by simp (rule draws_sends [OF sends_r61505_cursor],
        auto simp: r61505_encodes_def r61505_accepts_def r61505_panel store_all_def split: if_splits)
next
  case (Write_Pixels colors)
  show ?thesis
    unfolding Write_Pixels lcd_perform_def lcd_step_def lcd_controller_r61505_def
    by simp (rule draws_sends [OF sends_r61505_pixels], auto simp: r61505_encodes_def r61505_accepts_def r61505_panel)
next
  case (Read_Pixels n)
  show ?thesis
    unfolding Read_Pixels lcd_perform_def lcd_step_def lcd_controller_r61505_def
    by simp (rule draws_map [where f = fst], rule draws_mono [OF draws_r61505_read],
        auto simp: r61505_encodes_def r61505_accepts_def r61505_panel pixels_read_def)
qed

interpretation r61505: lcd_driver "panel_run 0x22" dif_sees "lcd_controller_r61505 E F ke970" r61505_accepts r61505_encodes r61505_display
  "ready_dif E" for E F ke970
proof unfold_locales
  show "draws dif_sees (initialize (lcd_controller_r61505 E F ke970)) (\<lambda>ok es a b. ok \<longrightarrow>
      (\<forall>p. r61505_encodes b r61505_display (panel_run 0x22 p es)))"
    by (simp add: lcd_controller_r61505_def) (rule draws_sends [OF sends_r61505_initialize], auto intro: r61505_initial)
qed (rule r61505_perform_encodes, rule r61505_performs)

text \<open>A probe that succeeds has read the code of the device.\<close>

lemma draws_r61505_probe:
  "draws dif_sees (r61505_probe E F False) (\<lambda>r es a b. fst r \<longrightarrow> (\<exists>raw pre. length raw = 8 \<and>
     emit (concat (replicate 4 (select_events 0))) a = Some (pre, b) \<and> es = pre @ map Received raw \<and>
     (r61505_candidate False raw = snd r \<and> snd r \<noteq> None)))"
proof -
  have g: "draws dif_sees (bindM (printf E F f []) (\<lambda>_. bindM (forM raw (\<lambda>b. printf E F g [Num (ucast b)])) (\<lambda>_.
      bindM (printf E F h []) (\<lambda>_. case r61505_candidate False raw of
          Some candidate \<Rightarrow> retM (True, Some candidate)
        | None \<Rightarrow> retM (False, Some (push_bit 8 (ucast (raw ! 0)) OR ucast (raw ! 1)))))))
      (\<lambda>r es a b. es = [] \<and> b = a \<and> (fst r \<longrightarrow> r61505_candidate False raw = snd r \<and> snd r \<noteq> None))"
    for f g h raw and E :: "'a env"
    by (intro draws_unseen draws_printf draws_for_unseen) (auto split: option.splits intro!: dif.draws_ret)
  show ?thesis
    unfolding r61505_probe_def if_False
    using draws_query [OF sends_r61505_commands [where c = ILI9320_OSCILLATION] g] by simp
qed

end
