(* ===== verification/Lcd_Jbt.thy ===== *)
theory Lcd_Jbt
  imports Lcd_Session
begin

text \<open>
  The driver of the JBT6K71 panel (\<^verbatim>\<open>src/unit/lcd/jbt6k71.c\<close>), a panel with indexed registers as well. It can be read in all
  pixel formats, and is initialised before it is asked for its code.
\<close>

section \<open>Definitions\<close>

definition JBT_INITIAL_STATE :: "(u16 \<times> u16) list" where
  "JBT_INITIAL_STATE =
     [(JBT6K71_OSCILLATION, 0x0001),
      (JBT6K71_DRIVER_OUTPUT_CONTROL, 0x0027),
      (JBT6K71_LCD_DRIVING_SIGNAL, 0x0200),
      (JBT6K71_ENTRY_MODE, 0x0120),
      (JBT6K71_DISPLAY_MODE_1, 0x4004),
      (JBT6K71_FR_FREQUENCY_ADJUSTMENT, 0x0011),
      (JBT6K71_LTPS_CONTROL_1, 0x0303),
      (JBT6K71_LTPS_CONTROL_2, 0x0102),
      (JBT6K71_AMPLIFIER_CAPABILITY, 0x0000),
      (JBT6K71_POWER_SUPPLY_CONTROL_1, 0x00F6),
      (JBT6K71_POWER_SUPPLY_CONTROL_2, 0x0007),
      (JBT6K71_POWER_SUPPLY_CONTROL_4, 0x0111),
      (JBT6K71_GRAY_SCALE_1, 0x0200),
      (JBT6K71_GRAY_SCALE_2, 0x0002),
      (JBT6K71_GRAY_SCALE_3, 0x0000),
      (JBT6K71_GRAY_SCALE_4, 0x0300),
      (JBT6K71_GRAY_SCALE_5, 0x0700),
      (JBT6K71_BLUE_OFFSET, 0x0070),
      (JBT6K71_SCREEN1_DRIVE_START, 0x0000),
      (JBT6K71_SCREEN1_DRIVE_END, 0x013F),
      (JBT6K71_HORIZONTAL_RAM_START, 0x0000),
      (JBT6K71_HORIZONTAL_RAM_END, 0x00EF),
      (JBT6K71_VERTICAL_RAM_START, 0x0000),
      (JBT6K71_VERTICAL_RAM_END, 0x013F),
      (JBT6K71_RAM_ADDRESS_LOW, 0x00EF),
      (JBT6K71_RAM_ADDRESS_HIGH, 0x0000)]"

definition jbt_write_command :: "'h env \<Rightarrow> u16 \<Rightarrow> (('h, 'z) panelled_scheme, bool) cmd" where
  "jbt_write_command E command =
     andM (lcd_transport_write_command E (ucast (drop_bit 8 command))) (lcd_transport_write_command E (ucast command))"

definition jbt_write_register :: "'h env \<Rightarrow> u16 \<Rightarrow> u16 \<Rightarrow> (('h, 'z) panelled_scheme, bool) cmd" where
  "jbt_write_register E idx v = andM (jbt_write_command E idx) (lcd_transport_write_data E (word_be v))"

definition jbt_entry_mode :: "lcd_statics \<Rightarrow> u16" where
  "jbt_entry_mode s =
     (if reverse_x (jbt_mode s) then 0 else push_bit JBT6K71_ENTRY_MODE_ID_SHIFT 1) OR
     (if reverse_y (jbt_mode s) then 0 else push_bit JBT6K71_ENTRY_MODE_ID_SHIFT 2) OR
     (if swap_axes (jbt_mode s) then JBT6K71_ENTRY_MODE_AM else 0) OR
     (if bgr (jbt_mode s) then JBT6K71_ENTRY_MODE_BGR else 0) OR
     (case jbt_format s of
        LCD_PIXEL_FORMAT_RGB565 \<Rightarrow> 0
      | LCD_PIXEL_FORMAT_RGB666_8_8_2 \<Rightarrow> JBT6K71_ENTRY_MODE_TRI OR push_bit JBT6K71_ENTRY_MODE_DFM_SHIFT 1
      | LCD_PIXEL_FORMAT_RGB666_2_8_8 \<Rightarrow> JBT6K71_ENTRY_MODE_TRI OR push_bit JBT6K71_ENTRY_MODE_DFM_SHIFT 2
      | LCD_PIXEL_FORMAT_RGB666 \<Rightarrow> JBT6K71_ENTRY_MODE_TRI OR JBT6K71_ENTRY_MODE_DFM)"

definition jbt_apply_entry_mode :: "'h env \<Rightarrow> (('h, 'z) panelled_scheme, bool) cmd" where
  "jbt_apply_entry_mode E =
     bindM (getM (\<lambda>s. jbt_entry_mode (statics s))) (\<lambda>v. jbt_write_register E JBT6K71_ENTRY_MODE v)"

definition jbt_set_pixel_format :: "'h env \<Rightarrow> lcd_pixel_format \<Rightarrow> (('h, 'z) panelled_scheme, bool) cmd" where
  "jbt_set_pixel_format E fmt =
     (if fmt \<noteq> LCD_PIXEL_FORMAT_RGB565 \<and> fmt \<noteq> LCD_PIXEL_FORMAT_RGB666_8_8_2 \<and> fmt \<noteq> LCD_PIXEL_FORMAT_RGB666_2_8_8 \<and>
         fmt \<noteq> LCD_PIXEL_FORMAT_RGB666 then retM False
      else bindM (modM (\<lambda>s. s\<lparr>statics := statics s\<lparr>jbt_format := fmt\<rparr>\<rparr>)) (\<lambda>_. jbt_apply_entry_mode E))"

definition jbt_set_address_mode :: "'h env \<Rightarrow> lcd_address_mode \<Rightarrow> (('h, 'z) panelled_scheme, bool) cmd" where
  "jbt_set_address_mode E mode =
     bindM (modM (\<lambda>s. s\<lparr>statics := statics s\<lparr>jbt_mode := mode\<rparr>\<rparr>)) (\<lambda>_. jbt_apply_entry_mode E)"

definition jbt_set_window :: "'h env \<Rightarrow> u16 \<Rightarrow> u16 \<Rightarrow> u16 \<Rightarrow> u16 \<Rightarrow> (('h, 'z) panelled_scheme, bool) cmd" where
  "jbt_set_window E x_start x_end y_start y_end =
     bindM (getM (\<lambda>s. jbt_mode (statics s))) (\<lambda>mode.
     let current_x = (if reverse_x mode then x_end else x_start);
         current_y = (if reverse_y mode then y_end else y_start) in
     andM (jbt_write_register E JBT6K71_HORIZONTAL_RAM_START x_start)
       (andM (jbt_write_register E JBT6K71_HORIZONTAL_RAM_END x_end)
       (andM (jbt_write_register E JBT6K71_VERTICAL_RAM_START y_start)
       (andM (jbt_write_register E JBT6K71_VERTICAL_RAM_END y_end)
       (andM (jbt_write_register E JBT6K71_RAM_ADDRESS_LOW current_x)
         (jbt_write_register E JBT6K71_RAM_ADDRESS_HIGH current_y))))))"

definition jbt_set_cursor :: "'h env \<Rightarrow> u16 \<Rightarrow> u16 \<Rightarrow> (('h, 'z) panelled_scheme, bool) cmd" where
  "jbt_set_cursor E x y =
     andM (jbt_write_register E JBT6K71_RAM_ADDRESS_LOW x) (jbt_write_register E JBT6K71_RAM_ADDRESS_HIGH y)"

definition jbt_write_pixels :: "'h env \<Rightarrow> lcd_color list \<Rightarrow> (('h, 'z) panelled_scheme, bool) cmd" where
  "jbt_write_pixels E colors =
     andM (jbt_write_command E JBT6K71_GRAM_DATA)
       (bindM (getM (\<lambda>s. jbt_format (statics s))) (\<lambda>fmt. lcd_write_loop E (pixel_bytes fmt) colors))"

definition jbt_expand_5bit :: "u8 \<Rightarrow> u8" where
  "jbt_expand_5bit v = push_bit 1 v OR drop_bit 4 v"

definition jbt_read_pixels :: "'h env \<Rightarrow> nat \<Rightarrow> (('h, 'z) panelled_scheme, bool \<times> lcd_color list) cmd" where
  "jbt_read_pixels E count =
     bindM (getM (\<lambda>s. jbt_format (statics s))) (\<lambda>current_format.
     let bytes_per_pixel = (if current_format = LCD_PIXEL_FORMAT_RGB565 then 2 else 3) in
     bindM (jbt_write_command E JBT6K71_GRAM_DATA) (\<lambda>ok.
     if \<not> ok then retM (False, []) else
     bindM (lcd_transport_read_data E bytes_per_pixel) (\<lambda>(ok, _).
     if \<not> ok then retM (False, []) else
     lcd_read_loop count E bytes_per_pixel (pixel_color jbt_expand_5bit current_format) [])))"

definition jbt_quantize_color :: "lcd_pixel_format \<Rightarrow> lcd_color \<Rightarrow> lcd_color" where
  "jbt_quantize_color fmt c =
     (if fmt = LCD_PIXEL_FORMAT_RGB565
      then c\<lparr>red := jbt_expand_5bit (drop_bit 1 (red c)), blue := jbt_expand_5bit (drop_bit 1 (blue c))\<rparr> else c)"

definition jbt_initialize :: "'h env \<Rightarrow> (('h, 'z) panelled_scheme, bool) cmd" where
  "jbt_initialize E =
     bindM (modM (\<lambda>s. s\<lparr>statics := statics s\<lparr>jbt_format := LCD_PIXEL_FORMAT_RGB565, jbt_mode := DEFAULT_MODE\<rparr>\<rparr>)) (\<lambda>_.
     andM (allM
       ([pausing (jbt_write_command E JBT6K71_OSCILLATION) (stopwatch_usleep_wd E 1000),
         pausing (jbt_write_command E JBT6K71_OSCILLATION) (stopwatch_usleep_wd E 1000),
         pausing (jbt_write_command E JBT6K71_OSCILLATION) (stopwatch_usleep_wd E 1000),
         jbt_write_register E 0x05FF 0x0000,
         lcd_transport_sync_parallel_interface E,
         pausing (jbt_write_register E JBT6K71_MODE 0x0005) (stopwatch_usleep_wd E 1000)] @
        map (\<lambda>r. jbt_write_register E (fst r) (snd r)) JBT_INITIAL_STATE @
        [pausing (jbt_write_register E JBT6K71_DISPLAY_CONTROL 0xC010) (stopwatch_usleep_wd E 30000),
         jbt_write_register E JBT6K71_AUTO_MANAGEMENT_CONTROL 0x0001,
         jbt_write_register E JBT6K71_DISPLAY_CONTROL 0xF7FE]))
       (jbt_apply_entry_mode E))"

definition jbt_probe :: "'h env \<Rightarrow> (('h, 'z) panelled_scheme, bool \<times> u32 option) cmd" where
  "jbt_probe E =
     bindM (andM (jbt_initialize E) (jbt_write_command E JBT6K71_OSCILLATION)) (\<lambda>ok.
     if \<not> ok then retM (False, None) else
     bindM (lcd_transport_read_data E 8) (\<lambda>(ok, code).
     if \<not> ok then retM (False, None) else
     if list_ex (\<lambda>i. code ! i \<noteq> code ! 0 \<or> code ! (i + 1) \<noteq> code ! 1) [2, 4, 6] then retM (False, None) else
     if code ! 0 \<noteq> 0x71 \<or> code ! 1 \<noteq> 0x14 then retM (False, None) else
     retM (True, Some 2)))"

definition lcd_controller_jbt6k71 :: "'h env \<Rightarrow> ('h, 'z) lcd_controller" where
  "lcd_controller_jbt6k71 E = \<lparr>
     lcd_name = ''JBT6K71'',
     lcd_type = LCD_CONTROLLER_JBT6K71,
     lcd_id = 2,
     lcd_width = 240,
     lcd_height = 320,
     pixel_formats = BIT (format_number LCD_PIXEL_FORMAT_RGB565) OR BIT (format_number LCD_PIXEL_FORMAT_RGB666_8_8_2) OR
       BIT (format_number LCD_PIXEL_FORMAT_RGB666_2_8_8) OR BIT (format_number LCD_PIXEL_FORMAT_RGB666),
     reset_settle_ms = 110,
     gram_write_command = [ucast (drop_bit 8 JBT6K71_GRAM_DATA), ucast (JBT6K71_GRAM_DATA AND 0xFF)],
     gram_read_command = [ucast (drop_bit 8 JBT6K71_GRAM_DATA), ucast (JBT6K71_GRAM_DATA AND 0xFF)],
     rgb565_read_dummy_bytes = 2,
     swap_axes_changes_gram_order = True,
     reverse_x_mirrors_coordinates = False,
     reverse_y_mirrors_coordinates = False,
     matches_id = None,
     probe = jbt_probe E,
     initialize = jbt_initialize E,
     quantize_color = jbt_quantize_color,
     set_pixel_format = jbt_set_pixel_format E,
     set_address_mode = jbt_set_address_mode E,
     set_window = jbt_set_window E,
     set_cursor = Some (jbt_set_cursor E),
     write_pixels = jbt_write_pixels E,
     read_pixels = Some (jbt_read_pixels E)\<rparr>"

section \<open>What the driver sends\<close>

lemma sends_jbt_command: "sends dif_sees (jbt_write_command E c) (emit (select_events c))"
  unfolding jbt_write_command_def
  by (rule sends_cong [OF dif.sends_and [OF dif.sends_command dif.sends_command]]) (simp add: emit_def select_events_def)

lemma sends_jbt_register: "sends dif_sees (jbt_write_register E i v) (emit (register_events i v))"
  unfolding jbt_write_register_def
  by (rule sends_cong [OF dif.sends_and [OF sends_jbt_command dif.sends_data]]) (simp add: emit_def register_events_def)

lemma sends_jbt_entry_mode:
  "sends dif_sees (jbt_apply_entry_mode E) (\<lambda>a. Some (register_events 3 (jbt_entry_mode a), a))"
  unfolding jbt_apply_entry_mode_def
  by (rule sends_cong [OF dif.sends_get [OF sends_jbt_register]]) (simp add: emit_def)

lemma sends_jbt_format:
  "sends dif_sees (jbt_set_pixel_format E fmt)
     (\<lambda>a. let b = a\<lparr>jbt_format := fmt\<rparr> in Some (register_events 3 (jbt_entry_mode b), b))"
proof -
  have "\<not> (fmt \<noteq> LCD_PIXEL_FORMAT_RGB565 \<and> fmt \<noteq> LCD_PIXEL_FORMAT_RGB666_8_8_2 \<and> fmt \<noteq> LCD_PIXEL_FORMAT_RGB666_2_8_8 \<and>
    fmt \<noteq> LCD_PIXEL_FORMAT_RGB666)" by (cases fmt) simp_all
  then show ?thesis
    unfolding jbt_set_pixel_format_def Let_def
    by (simp only: if_False) (rule dif.sends_after [OF dif.draws_statics sends_jbt_entry_mode], simp)
qed

lemma sends_jbt_mode:
  "sends dif_sees (jbt_set_address_mode E mode)
     (\<lambda>a. let b = a\<lparr>jbt_mode := mode\<rparr> in Some (register_events 3 (jbt_entry_mode b), b))"
  unfolding jbt_set_address_mode_def Let_def
  by (rule dif.sends_after [OF dif.draws_statics sends_jbt_entry_mode]) simp

lemma sends_jbt_cursor: "sends dif_sees (jbt_set_cursor E x y) (emit (table_events [(0x200, x), (0x201, y)]))"
  unfolding jbt_set_cursor_def
  by (rule sends_cong [OF dif.sends_and [OF sends_jbt_register sends_jbt_register]]) (simp add: emit_def table_events_def)

lemma sends_jbt_window:
  "sends dif_sees (jbt_set_window E x_start x_end y_start y_end)
     (\<lambda>a. case corner False False (jbt_mode a) x_start x_end y_start y_end of (x, y) \<Rightarrow>
       Some (table_events [(0x406, x_start), (0x407, x_end), (0x408, y_start), (0x409, y_end), (0x200, x), (0x201, y)], a))"
  unfolding jbt_set_window_def Let_def
  by (rule sends_cong, rule dif.sends_get, (rule dif.sends_and sends_jbt_register)+)
     (simp add: emit_def table_events_def corner_def)

lemma sends_jbt_pixels:
  "sends dif_sees (jbt_write_pixels E colors)
     (\<lambda>a. Some (select_events 0x202 @ map Data (concat (map (pixel_bytes (jbt_format a)) colors)), a))"
  unfolding jbt_write_pixels_def
  by (rule sends_cong [OF dif.sends_and [OF sends_jbt_command dif.sends_get [OF sends_write_loop]]])
     (simp add: emit_def)

lemma draws_jbt_read:
  "draws dif_sees (jbt_read_pixels E n) (\<lambda>r es a b. fst r \<longrightarrow> b = a \<and> (\<exists>ds. length ds = n \<and>
     pixels_read (select_events 0x202) (pixel_size (jbt_format a)) (pixel_size (jbt_format a)) es ds \<and>
     snd r = map (pixel_color jbt_expand_5bit (jbt_format a)) ds))"
proof -
  have shape: "jbt_read_pixels E n = bindM (getM (\<lambda>s. jbt_format (statics s))) (\<lambda>fmt.
      lcd_read_shape (jbt_write_command E JBT6K71_GRAM_DATA) (pixel_size fmt) n E (pixel_size fmt) (pixel_color jbt_expand_5bit fmt))"
    unfolding jbt_read_pixels_def lcd_read_shape_def pixel_size_def Let_def ..
  show ?thesis
    unfolding shape
    by (rule dif.draws_bind [OF dif.draws_get [where Q = "\<lambda>x es a b. x = jbt_format a \<and> es = [] \<and> b = a"]], simp,
        rule draws_mono [OF draws_read_shape [OF sends_jbt_command]]) auto
qed

definition jbt_script :: "lcd_event list" where
  "jbt_script =
     concat [select_events 0, select_events 0, select_events 0] @ register_events 0x05FF 0 @ map Data [0, 0, 0, 0] @
     register_events 0x1D 5 @ table_events JBT_INITIAL_STATE @ table_events [(0x100, 0xC010), (0x101, 0x0001), (0x100, 0xF7FE)]"

definition jbt_initial_statics :: "lcd_statics \<Rightarrow> lcd_statics" where
  "jbt_initial_statics a = a\<lparr>jbt_format := LCD_PIXEL_FORMAT_RGB565, jbt_mode := DEFAULT_MODE\<rparr>"

lemma sends_jbt_initialize:
  "sends dif_sees (jbt_initialize E) (\<lambda>a. let b = jbt_initial_statics a in Some (jbt_script @ register_events 3 (jbt_entry_mode b), b))"
  unfolding jbt_initialize_def append.simps
  by (rule sends_cong, rule dif.sends_after [OF dif.draws_statics], simp, rule dif.sends_and [OF _ sends_jbt_entry_mode],
      (rule sends_all sends_all_map sends_jbt_command sends_jbt_register sends_sync)+,
      simp add: jbt_script_def table_events_def jbt_initial_statics_def case_prod_unfold Let_def)

section \<open>The panel follows the requests\<close>

definition jbt_encodes :: "lcd_statics \<Rightarrow> display \<Rightarrow> panel \<Rightarrow> bool" where
  "jbt_encodes a d p \<longleftrightarrow> jbt_format a = display_format d \<and> jbt_mode a = display_mode d \<and>
     regs p 0x03 = jbt_entry_mode a \<and>
     display_window d = Some (regs p 0x406, regs p 0x407, regs p 0x408, regs p 0x409) \<and>
     display_cursor d = Some (regs p 0x200, regs p 0x201) \<and> suffix (memory d) (gram p)"

definition jbt_display :: display where
  "jbt_display = \<lparr>display_format = LCD_PIXEL_FORMAT_RGB565, display_mode = DEFAULT_MODE,
     display_window = Some (0, 239, 0, 319), display_cursor = Some (239, 0), memory = []\<rparr>"

lemmas jbt_panel = panel_run_append panel_run_select panel_run_register panel_run_table panel_run_gram panel_run_reads panel_run_zeros

lemma jbt_initial:
  "jbt_encodes (jbt_initial_statics b) jbt_display (panel_run 0x202 p (jbt_script @ register_events 3 (jbt_entry_mode (jbt_initial_statics b))))"
  unfolding jbt_script_def
  by (simp add: jbt_panel jbt_encodes_def jbt_display_def store_all_def JBT_INITIAL_STATE_def
        jbt_entry_mode_def DEFAULT_MODE_def jbt_initial_statics_def)

lemma jbt_perform_encodes:
  "draws dif_sees (lcd_perform (lcd_controller_jbt6k71 E) r) (\<lambda>ok es a b. ok \<longrightarrow> True \<and>
     (\<forall>p d. jbt_encodes a d p \<longrightarrow> jbt_encodes b (lcd_step (lcd_controller_jbt6k71 E) d r) (panel_run 0x202 p es)))"
proof (cases r)
  case (Set_Format fmt)
  show ?thesis
    unfolding Set_Format lcd_perform_def lcd_step_def lcd_controller_jbt6k71_def
    by simp (rule draws_sends [OF sends_jbt_format], auto simp: jbt_encodes_def Let_def jbt_panel)
next
  case (Set_Mode mode)
  show ?thesis
    unfolding Set_Mode lcd_perform_def lcd_step_def lcd_controller_jbt6k71_def
    by simp (rule draws_sends [OF sends_jbt_mode], auto simp: jbt_encodes_def Let_def jbt_panel)
next
  case (Set_Window x_start x_end y_start y_end)
  show ?thesis
    unfolding Set_Window lcd_perform_def lcd_step_def lcd_controller_jbt6k71_def
    by simp (rule draws_sends [OF sends_jbt_window],
        auto simp: jbt_encodes_def jbt_panel store_all_def split: prod.splits)
next
  case (Set_Cursor x y)
  show ?thesis
    unfolding Set_Cursor lcd_perform_def lcd_step_def lcd_controller_jbt6k71_def
    by simp (rule draws_sends [OF sends_jbt_cursor], auto simp: emit_def jbt_encodes_def jbt_panel store_all_def)
next
  case (Write_Pixels colors)
  show ?thesis
    unfolding Write_Pixels lcd_perform_def lcd_step_def lcd_controller_jbt6k71_def
    by simp (rule draws_sends [OF sends_jbt_pixels], auto simp: jbt_encodes_def jbt_panel)
next
  case (Read_Pixels n)
  show ?thesis
    unfolding Read_Pixels lcd_perform_def lcd_step_def lcd_controller_jbt6k71_def
    by simp (rule draws_map [where f = fst], rule draws_mono [OF draws_jbt_read],
        auto simp: jbt_encodes_def jbt_panel pixels_read_def)
qed

lemma wp_jbt_register: "ready_dif E \<Longrightarrow> (\<And>t. Q True t) \<Longrightarrow> wpM (jbt_write_register E i v) Q s"
  unfolding jbt_write_register_def jbt_write_command_def by (auto intro!: wp_and_ready wp_command_ready wp_data_ready)

lemma jbt_performs:
  assumes "ready_dif E" "sending r" "\<And>t. Q True t"
  shows "wpM (lcd_perform (lcd_controller_jbt6k71 E) r) Q s"
proof (cases r)
  case (Set_Format fmt)
  then show ?thesis
    using assms(1,3) by (cases fmt) (auto simp: lcd_perform_def lcd_controller_jbt6k71_def jbt_set_pixel_format_def
        jbt_apply_entry_mode_def wp intro!: wp_jbt_register)
next
  case (Write_Pixels colors)
  then show ?thesis
    using assms(1,3) by (auto simp: lcd_perform_def lcd_controller_jbt6k71_def jbt_write_pixels_def jbt_write_command_def wp
        intro!: wp_command_ready wp_loop_ready wp_and_ready)
qed (use assms in \<open>auto simp: lcd_perform_def lcd_controller_jbt6k71_def jbt_set_window_def jbt_set_cursor_def jbt_set_address_mode_def
        jbt_apply_entry_mode_def Let_def wp intro!: wp_jbt_register wp_and_ready\<close>)

interpretation jbt: lcd_driver "panel_run 0x202" dif_sees "lcd_controller_jbt6k71 E" "\<lambda>_. True" jbt_encodes jbt_display
  "ready_dif E" for E
proof unfold_locales
  show "draws dif_sees (initialize (lcd_controller_jbt6k71 E)) (\<lambda>ok es a b. ok \<longrightarrow>
      (\<forall>p. jbt_encodes b jbt_display (panel_run 0x202 p es)))"
    by (simp add: lcd_controller_jbt6k71_def) (rule draws_sends [OF sends_jbt_initialize], auto simp: Let_def intro: jbt_initial)
qed (rule jbt_perform_encodes, rule jbt_performs)

text \<open>A probe that succeeds has read the code of the device four times.\<close>

definition jbt_probe_script :: script where
  "jbt_probe_script a = (let b = jbt_initial_statics a in Some (jbt_script @ register_events 3 (jbt_entry_mode b) @ select_events 0, b))"

lemma code_repeated:
  assumes "length code = 8" "\<not> list_ex (\<lambda>i. code ! i \<noteq> code ! 0 \<or> code ! (i + 1) \<noteq> code ! 1) [2, 4, 6]"
    "code ! 0 = (x :: u8)" "code ! 1 = y"
  shows "code = [x, y, x, y, x, y, x, y]"
proof (rule nth_equalityI)
  fix i assume "i < length code"
  with assms(1) have "i \<in> {0, 1, 2, 3, 4, 5, 6, 7}" by auto
  with assms(2-) show "code ! i = [x, y, x, y, x, y, x, y] ! i" by (auto simp: numeral_eq_Suc)
qed (simp add: assms(1))

lemma draws_jbt_probe:
  "draws dif_sees (jbt_probe E) (\<lambda>r es a b. fst r \<longrightarrow> (\<exists>raw pre. length raw = 8 \<and> jbt_probe_script a = Some (pre, b) \<and>
     es = pre @ map Received raw \<and> (raw = [0x71, 0x14, 0x71, 0x14, 0x71, 0x14, 0x71, 0x14] \<and> snd r = Some 2)))"
  unfolding jbt_probe_def
  by (rule draws_query, rule sends_cong [OF dif.sends_and [OF sends_jbt_initialize sends_jbt_command]],
      simp add: jbt_probe_script_def follows_def emit_def Let_def)
     (auto intro!: dif.draws_ret code_repeated)

end
