(* ===== verification/Lcd_Command_Panel.thy ===== *)
theory Lcd_Command_Panel
  imports Lcd_Session
begin

text \<open>
  A model of a panel whose commands take parameters: the drivers of the L5F30539P00, the PCF8882 and the SSD1286 talk to such a
  panel. The registers of the SSD1286 are commands with two bytes.
\<close>

section \<open>A panel with commands\<close>

text \<open>
  The parameters of a command replace those of the command before; the pixels that follow the command for writing go to the frame
  memory.
\<close>

record command_panel =
  current :: u8
  params :: "u8 \<Rightarrow> u8 list"
  frame :: "u8 list"

fun command_step :: "u8 \<Rightarrow> command_panel \<Rightarrow> lcd_event \<Rightarrow> command_panel" where
  "command_step gm p (Command c) = p\<lparr>current := c, params := (params p)(c := [])\<rparr>"
| "command_step gm p (Data b) =
     (if current p = gm then p\<lparr>frame := frame p @ [b]\<rparr>
      else p\<lparr>params := (params p)(current p := params p (current p) @ [b])\<rparr>)"
| "command_step gm p (Received b) = p"

definition command_run :: "u8 \<Rightarrow> command_panel \<Rightarrow> lcd_event list \<Rightarrow> command_panel" where
  "command_run gm = foldl (command_step gm)"

interpretation command_run: panel_automaton "command_run gm" for gm
  by unfold_locales (simp_all add: command_run_def)

definition set_params :: "u8 \<Rightarrow> u8 list \<Rightarrow> command_panel \<Rightarrow> command_panel" where
  "set_params c bs p = p\<lparr>current := c, params := (params p)(c := bs)\<rparr>"

lemma set_params_simps [simp]:
  "current (set_params c bs p) = c" "params (set_params c bs p) = (params p)(c := bs)" "frame (set_params c bs p) = frame p"
  by (simp_all add: set_params_def)

lemma command_run_data:
  "current p \<noteq> gm \<Longrightarrow> command_run gm p (map Data bs) = p\<lparr>params := (params p)(current p := params p (current p) @ bs)\<rparr>"
  by (induction bs arbitrary: p) (simp_all add: command_run_def)

lemma command_run_frame:
  "current p = gm \<Longrightarrow> command_run gm p (map Data bs) = p\<lparr>frame := frame p @ bs\<rparr>"
  by (induction bs arbitrary: p) (simp_all add: command_run_def)

lemma command_run_reads: "command_run gm p (map Received bs) = p"
  by (induction bs) (simp_all add: command_run_def)

lemma command_run_command: "command_run gm p [Command c] = set_params c [] p"
  by (simp add: command_run_def set_params_def)

definition command_events :: "u8 \<Rightarrow> u8 list \<Rightarrow> lcd_event list" where
  "command_events c bs = Command c # map Data bs"

lemma command_run_params: "c \<noteq> gm \<Longrightarrow> command_run gm p (command_events c bs) = set_params c bs p"
  using command_run.run_append [of gm p "[Command c]" "map Data bs"]
  by (simp add: command_events_def command_run_command command_run_data set_params_def)

lemma command_run_pixels:
  "command_run gm p (command_events gm bs) = (set_params gm [] p)\<lparr>frame := frame p @ bs\<rparr>"
  using command_run.run_append [of gm p "[Command gm]" "map Data bs"]
  by (simp add: command_events_def command_run_command command_run_frame)

lemmas command_panel = command_run.run_append command_run_params command_run_pixels command_run_reads command_run_command

end
