(* ===== verification/Lcd_L5f.thy ===== *)
theory Lcd_L5f
  imports Lcd_Command_Panel
begin

text \<open>
  The driver of the L5F30539P00 panel (\<^verbatim>\<open>src/unit/lcd/l5f30539p00.c\<close>). Its panel takes a command byte with parameters; in the
  16-bit format it expands the colours with a table that the driver sends to it.
\<close>

section \<open>Definitions\<close>

abbreviation (input) L5F_CMD_SLPOUT :: u8 where "L5F_CMD_SLPOUT \<equiv> 0x11"
abbreviation (input) L5F_CMD_DISPON :: u8 where "L5F_CMD_DISPON \<equiv> 0x29"
abbreviation (input) L5F_CMD_CASET :: u8 where "L5F_CMD_CASET \<equiv> 0x2A"
abbreviation (input) L5F_CMD_PASET :: u8 where "L5F_CMD_PASET \<equiv> 0x2B"
abbreviation (input) L5F_CMD_RAMWR :: u8 where "L5F_CMD_RAMWR \<equiv> 0x2C"
abbreviation (input) L5F_CMD_RGBSET :: u8 where "L5F_CMD_RGBSET \<equiv> 0x2D"
abbreviation (input) L5F_CMD_RAMRD :: u8 where "L5F_CMD_RAMRD \<equiv> 0x2E"
abbreviation (input) L5F_CMD_MADCTL :: u8 where "L5F_CMD_MADCTL \<equiv> 0x36"
abbreviation (input) L5F_CMD_COLMOD :: u8 where "L5F_CMD_COLMOD \<equiv> 0x3A"

abbreviation (input) L5F_MADCTL_REVERSE_Y :: u8 where "L5F_MADCTL_REVERSE_Y \<equiv> 0x80"
abbreviation (input) L5F_MADCTL_REVERSE_X :: u8 where "L5F_MADCTL_REVERSE_X \<equiv> 0x40"
abbreviation (input) L5F_MADCTL_SWAP_AXES :: u8 where "L5F_MADCTL_SWAP_AXES \<equiv> 0x20"
abbreviation (input) L5F_MADCTL_BGR :: u8 where "L5F_MADCTL_BGR \<equiv> 0x08"

abbreviation (input) L5F_COLMOD_RGB565 :: u8 where "L5F_COLMOD_RGB565 \<equiv> 0x05"
abbreviation (input) L5F_COLMOD_RGB666 :: u8 where "L5F_COLMOD_RGB666 \<equiv> 0x06"

definition l5f_write_command_data :: "'h env \<Rightarrow> u8 \<Rightarrow> u8 list \<Rightarrow> (('h, 'z) panelled_scheme, bool) cmd" where
  "l5f_write_command_data E command data = andM (lcd_transport_write_command E command) (lcd_transport_write_data E data)"

definition l5f_lookup_table :: "u8 list" where
  "l5f_lookup_table =
     (let five = map (\<lambda>i. if i = 31 then 0x3F else of_nat (i * 2)) [0..<32] in five @ map of_nat [0..<64] @ five)"

definition l5f_set_pixel_format :: "'h env \<Rightarrow> lcd_pixel_format \<Rightarrow> (('h, 'z) panelled_scheme, bool) cmd" where
  "l5f_set_pixel_format E fmt =
     bindM
       (if fmt = LCD_PIXEL_FORMAT_RGB565 then
          andM (l5f_write_command_data E L5F_CMD_RGBSET l5f_lookup_table)
            (l5f_write_command_data E L5F_CMD_COLMOD [L5F_COLMOD_RGB565])
        else if fmt = LCD_PIXEL_FORMAT_RGB666 then l5f_write_command_data E L5F_CMD_COLMOD [L5F_COLMOD_RGB666]
        else retM False) (\<lambda>ok.
     if \<not> ok then retM False
     else bindM (modM (\<lambda>s. s\<lparr>statics := statics s\<lparr>l5f_format := fmt\<rparr>\<rparr>)) (\<lambda>_. retM True))"

definition l5f_madctl :: "lcd_address_mode \<Rightarrow> u8" where
  "l5f_madctl mode =
     (if reverse_y mode then L5F_MADCTL_REVERSE_Y else 0) OR
     (if reverse_x mode then L5F_MADCTL_REVERSE_X else 0) OR
     (if swap_axes mode then L5F_MADCTL_SWAP_AXES else 0) OR
     (if bgr mode then L5F_MADCTL_BGR else 0)"

definition l5f_set_address_mode :: "'h env \<Rightarrow> lcd_address_mode \<Rightarrow> (('h, 'z) panelled_scheme, bool) cmd" where
  "l5f_set_address_mode E mode = l5f_write_command_data E L5F_CMD_MADCTL [l5f_madctl mode]"

definition l5f_set_window :: "'h env \<Rightarrow> u16 \<Rightarrow> u16 \<Rightarrow> u16 \<Rightarrow> u16 \<Rightarrow> (('h, 'z) panelled_scheme, bool) cmd" where
  "l5f_set_window E x_start x_end y_start y_end =
     (let columns = word_be x_start @ word_be x_end; pages = word_be y_start @ word_be y_end in
      andM (l5f_write_command_data E L5F_CMD_CASET columns) (l5f_write_command_data E L5F_CMD_PASET pages))"

text \<open>Every format but RGB565 is written with three bytes.\<close>

definition l5f_wire_format :: "lcd_pixel_format \<Rightarrow> lcd_pixel_format" where
  "l5f_wire_format fmt = (if fmt = LCD_PIXEL_FORMAT_RGB565 then LCD_PIXEL_FORMAT_RGB565 else LCD_PIXEL_FORMAT_RGB666)"

definition l5f_write_pixels :: "'h env \<Rightarrow> lcd_color list \<Rightarrow> (('h, 'z) panelled_scheme, bool) cmd" where
  "l5f_write_pixels E colors =
     andM (lcd_transport_write_command E L5F_CMD_RAMWR)
       (bindM (getM (\<lambda>s. l5f_format (statics s))) (\<lambda>fmt. lcd_write_loop E (pixel_bytes (l5f_wire_format fmt)) colors))"

definition l5f_expand_5bit :: "u8 \<Rightarrow> u8" where
  "l5f_expand_5bit v = (if v = 31 then 63 else push_bit 1 v)"

definition l5f_quantize_color :: "lcd_pixel_format \<Rightarrow> lcd_color \<Rightarrow> lcd_color" where
  "l5f_quantize_color fmt c =
     (if fmt = LCD_PIXEL_FORMAT_RGB565
      then c\<lparr>red := l5f_expand_5bit (drop_bit 1 (red c)), blue := l5f_expand_5bit (drop_bit 1 (blue c))\<rparr> else c)"

definition l5f_read_pixels :: "'h env \<Rightarrow> nat \<Rightarrow> (('h, 'z) panelled_scheme, bool \<times> lcd_color list) cmd" where
  "l5f_read_pixels E count =
     bindM (getM (\<lambda>s. l5f_wire_format (l5f_format (statics s)))) (\<lambda>fmt.
     bindM (lcd_transport_write_command E L5F_CMD_RAMRD) (\<lambda>ok.
     if \<not> ok then retM (False, []) else
     bindM (lcd_transport_read_data E 1) (\<lambda>(ok, dummy).
     if \<not> ok then retM (False, []) else
     lcd_read_loop count E (pixel_size fmt) (pixel_color l5f_expand_5bit fmt) [])))"

definition l5f_initialize :: "'h env \<Rightarrow> (('h, 'z) panelled_scheme, bool) cmd" where
  "l5f_initialize E =
     andM (lcd_transport_write_command E L5F_CMD_SLPOUT)
       (bindM (stopwatch_usleep_wd E 25000) (\<lambda>_.
     andM (l5f_set_pixel_format E LCD_PIXEL_FORMAT_RGB565)
       (andM (l5f_set_address_mode E DEFAULT_MODE) (lcd_transport_write_command E L5F_CMD_DISPON))))"

definition L5F_EXPECTED :: lcd_color where
  "L5F_EXPECTED = \<lparr>red = 0x2A, green = 0x15, blue = 0x3F\<rparr>"

definition l5f_probe :: "'h env \<Rightarrow> (('h, 'z) panelled_scheme, bool \<times> u32 option) cmd" where
  "l5f_probe E =
     bindM
       (andM (lcd_transport_write_command E L5F_CMD_SLPOUT)
         (bindM (stopwatch_usleep_wd E 25000) (\<lambda>_.
       andM (l5f_set_pixel_format E LCD_PIXEL_FORMAT_RGB666)
         (andM (l5f_set_address_mode E DEFAULT_MODE)
         (andM (l5f_set_window E 0 0 0 0)
         (andM (l5f_write_pixels E [L5F_EXPECTED])
           (l5f_set_window E 0 0 0 0))))))) (\<lambda>ok.
     if \<not> ok then retM (False, None) else
     bindM (l5f_read_pixels E 1) (\<lambda>(ok, actual).
     if \<not> ok then retM (False, None) else
     if red (actual ! 0) \<noteq> red L5F_EXPECTED \<or> green (actual ! 0) \<noteq> green L5F_EXPECTED \<or> blue (actual ! 0) \<noteq> blue L5F_EXPECTED
     then retM (False, None) else
     retM (True, Some 3)))"

definition lcd_controller_l5f30539p00 :: "'h env \<Rightarrow> ('h, 'z) lcd_controller" where
  "lcd_controller_l5f30539p00 E = \<lparr>
     lcd_name = ''L5F30539P00'',
     lcd_type = LCD_CONTROLLER_L5F30539P00,
     lcd_id = 3,
     lcd_width = 240,
     lcd_height = 320,
     pixel_formats = BIT (format_number LCD_PIXEL_FORMAT_RGB565) OR BIT (format_number LCD_PIXEL_FORMAT_RGB666),
     reset_settle_ms = 0,
     gram_write_command = [L5F_CMD_RAMWR],
     gram_read_command = [L5F_CMD_RAMRD],
     rgb565_read_dummy_bytes = 1,
     swap_axes_changes_gram_order = False,
     reverse_x_mirrors_coordinates = True,
     reverse_y_mirrors_coordinates = True,
     matches_id = None,
     probe = l5f_probe E,
     initialize = l5f_initialize E,
     quantize_color = l5f_quantize_color,
     set_pixel_format = l5f_set_pixel_format E,
     set_address_mode = l5f_set_address_mode E,
     set_window = l5f_set_window E,
     set_cursor = None,
     write_pixels = l5f_write_pixels E,
     read_pixels = Some (l5f_read_pixels E)\<rparr>"

section \<open>What the driver sends\<close>

lemma sends_l5f_params: "sends dif_sees (l5f_write_command_data E c bs) (emit (command_events c bs))"
  unfolding l5f_write_command_data_def command_events_def by (rule dif.sends_command_data)

definition l5f_format_events :: "lcd_pixel_format \<Rightarrow> lcd_event list" where
  "l5f_format_events fmt =
     (if fmt = LCD_PIXEL_FORMAT_RGB565
      then command_events L5F_CMD_RGBSET l5f_lookup_table @ command_events L5F_CMD_COLMOD [L5F_COLMOD_RGB565]
      else command_events L5F_CMD_COLMOD [L5F_COLMOD_RGB666])"

definition l5f_supports :: "lcd_pixel_format \<Rightarrow> bool" where
  "l5f_supports fmt \<longleftrightarrow> fmt = LCD_PIXEL_FORMAT_RGB565 \<or> fmt = LCD_PIXEL_FORMAT_RGB666"

lemma l5f_format_shape:
  "l5f_set_pixel_format E fmt = andM (if fmt = LCD_PIXEL_FORMAT_RGB565 then
          andM (l5f_write_command_data E L5F_CMD_RGBSET l5f_lookup_table)
            (l5f_write_command_data E L5F_CMD_COLMOD [L5F_COLMOD_RGB565])
        else if fmt = LCD_PIXEL_FORMAT_RGB666 then l5f_write_command_data E L5F_CMD_COLMOD [L5F_COLMOD_RGB666]
        else retM False) (bindM (modM (\<lambda>s. s\<lparr>statics := statics s\<lparr>l5f_format := fmt\<rparr>\<rparr>)) (\<lambda>_. retM True))"
    unfolding l5f_set_pixel_format_def andM_def by (rule arg_cong [where f = "bindM _"]) (auto simp: fun_eq_iff)

lemma sends_l5f_format:
  "sends dif_sees (l5f_set_pixel_format E fmt)
     (\<lambda>a. if l5f_supports fmt then Some (l5f_format_events fmt, a\<lparr>l5f_format := fmt\<rparr>) else None)"
proof -
  have one: "sends dif_sees (if fmt = LCD_PIXEL_FORMAT_RGB565 then
          andM (l5f_write_command_data E L5F_CMD_RGBSET l5f_lookup_table)
            (l5f_write_command_data E L5F_CMD_COLMOD [L5F_COLMOD_RGB565])
        else if fmt = LCD_PIXEL_FORMAT_RGB666 then l5f_write_command_data E L5F_CMD_COLMOD [L5F_COLMOD_RGB666]
        else retM False) (\<lambda>a. if l5f_supports fmt then Some (l5f_format_events fmt, a) else None)"
    by (rule sends_cong, (rule dif.sends_if dif.sends_and sends_l5f_params dif.sends_ret)+)
       (auto simp: l5f_supports_def l5f_format_events_def emit_def)
  have two: "sends dif_sees (bindM (modM (\<lambda>s. s\<lparr>statics := statics s\<lparr>l5f_format := fmt\<rparr>\<rparr>)) (\<lambda>_. retM True))
      (\<lambda>a. emit [] (a\<lparr>l5f_format := fmt\<rparr>))"
    by (rule dif.sends_after [OF dif.draws_statics dif.sends_ret(1)]) simp
  show ?thesis
    unfolding l5f_format_shape by (rule sends_cong [OF dif.sends_and [OF one two]]) (simp add: follows_def emit_def)
qed

lemma sends_l5f_mode: "sends dif_sees (l5f_set_address_mode E mode) (emit (command_events L5F_CMD_MADCTL [l5f_madctl mode]))"
  unfolding l5f_set_address_mode_def by (rule sends_l5f_params)

lemma sends_l5f_window:
  "sends dif_sees (l5f_set_window E x_start x_end y_start y_end)
     (emit (command_events L5F_CMD_CASET (word_be x_start @ word_be x_end) @ command_events L5F_CMD_PASET (word_be y_start @ word_be y_end)))"
  unfolding l5f_set_window_def Let_def
  by (rule sends_cong [OF dif.sends_and [OF sends_l5f_params sends_l5f_params]]) (simp add: emit_def)

lemma sends_l5f_pixels:
  "sends dif_sees (l5f_write_pixels E colors)
     (\<lambda>a. Some ([Command L5F_CMD_RAMWR] @ map Data (concat (map (pixel_bytes (l5f_wire_format (l5f_format a))) colors)), a))"
  unfolding l5f_write_pixels_def
  by (rule sends_cong [OF dif.sends_and [OF dif.sends_command dif.sends_get [OF sends_write_loop]]])
     (simp add: emit_def)

lemma draws_l5f_read:
  "draws dif_sees (l5f_read_pixels E n) (\<lambda>r es a b. fst r \<longrightarrow> b = a \<and> (\<exists>ds. length ds = n \<and>
     pixels_read [Command L5F_CMD_RAMRD] 1 (pixel_size (l5f_wire_format (l5f_format a))) es ds \<and>
     snd r = map (pixel_color l5f_expand_5bit (l5f_wire_format (l5f_format a))) ds))"
proof -
  have shape: "l5f_read_pixels E n = bindM (getM (\<lambda>s. l5f_wire_format (l5f_format (statics s)))) (\<lambda>fmt.
      lcd_read_shape (lcd_transport_write_command E L5F_CMD_RAMRD) 1 n E (pixel_size fmt) (pixel_color l5f_expand_5bit fmt))"
    unfolding l5f_read_pixels_def lcd_read_shape_def ..
  show ?thesis
    unfolding shape
    by (rule dif.draws_bind [OF dif.draws_get [where Q = "\<lambda>x es a b. x = l5f_wire_format (l5f_format a) \<and> es = [] \<and> b = a"]], simp,
        rule draws_mono [OF draws_read_shape [OF dif.sends_command]]) auto
qed

definition l5f_script :: "lcd_event list" where
  "l5f_script = [Command L5F_CMD_SLPOUT] @ l5f_format_events LCD_PIXEL_FORMAT_RGB565 @
     command_events L5F_CMD_MADCTL [l5f_madctl DEFAULT_MODE] @ [Command L5F_CMD_DISPON]"

lemma sends_l5f_initialize:
  "sends dif_sees (l5f_initialize E) (\<lambda>a. Some (l5f_script, a\<lparr>l5f_format := LCD_PIXEL_FORMAT_RGB565\<rparr>))"
  unfolding l5f_initialize_def
  by (rule sends_cong, (rule dif.sends_and dif.sends_delay dif.sends_command sends_l5f_format sends_l5f_mode)+)
     (simp add: follows_def emit_def l5f_script_def l5f_supports_def)

section \<open>The panel follows the requests\<close>

definition l5f_accepts :: "lcd_request \<Rightarrow> bool" where
  "l5f_accepts r \<longleftrightarrow> (case r of Set_Format fmt \<Rightarrow> l5f_supports fmt | Set_Cursor x y \<Rightarrow> False | _ \<Rightarrow> True)"

definition l5f_encodes :: "lcd_statics \<Rightarrow> display \<Rightarrow> command_panel \<Rightarrow> bool" where
  "l5f_encodes a d p \<longleftrightarrow> l5f_format a = display_format d \<and> l5f_supports (display_format d) \<and>
     params p L5F_CMD_COLMOD = [if display_format d = LCD_PIXEL_FORMAT_RGB565 then L5F_COLMOD_RGB565 else L5F_COLMOD_RGB666] \<and>
     (display_format d = LCD_PIXEL_FORMAT_RGB565 \<longrightarrow> params p L5F_CMD_RGBSET = l5f_lookup_table) \<and>
     params p L5F_CMD_MADCTL = [l5f_madctl (display_mode d)] \<and>
     (\<forall>x_start x_end y_start y_end. display_window d = Some (x_start, x_end, y_start, y_end) \<longrightarrow>
        params p L5F_CMD_CASET = word_be x_start @ word_be x_end \<and> params p L5F_CMD_PASET = word_be y_start @ word_be y_end) \<and>
     suffix (memory d) (frame p)"

definition l5f_display :: display where
  "l5f_display = \<lparr>display_format = LCD_PIXEL_FORMAT_RGB565, display_mode = DEFAULT_MODE,
     display_window = None, display_cursor = None, memory = []\<rparr>"

lemma l5f_initial: "l5f_encodes (a\<lparr>l5f_format := LCD_PIXEL_FORMAT_RGB565\<rparr>) l5f_display (command_run L5F_CMD_RAMWR p l5f_script)"
  unfolding l5f_script_def l5f_format_events_def
  by (simp add: command_panel l5f_encodes_def l5f_display_def l5f_supports_def del: append.simps)

lemma l5f_perform_encodes:
  "draws dif_sees (lcd_perform (lcd_controller_l5f30539p00 E) r) (\<lambda>ok es a b. ok \<longrightarrow> l5f_accepts r \<and>
     (\<forall>p d. l5f_encodes a d p \<longrightarrow> l5f_encodes b (lcd_step (lcd_controller_l5f30539p00 E) d r) (command_run L5F_CMD_RAMWR p es)))"
proof (cases r)
  case (Set_Format fmt)
  show ?thesis
    unfolding Set_Format lcd_perform_def lcd_step_def lcd_controller_l5f30539p00_def
    by simp (rule draws_sends [OF sends_l5f_format],
        auto simp: l5f_encodes_def l5f_accepts_def l5f_format_events_def l5f_supports_def command_panel split: if_splits)
next
  case (Set_Mode mode)
  show ?thesis
    unfolding Set_Mode lcd_perform_def lcd_step_def lcd_controller_l5f30539p00_def
    by simp (rule draws_sends [OF sends_l5f_mode], auto simp: emit_def l5f_encodes_def l5f_accepts_def command_panel)
next
  case (Set_Window x_start x_end y_start y_end)
  show ?thesis
    unfolding Set_Window lcd_perform_def lcd_step_def lcd_controller_l5f30539p00_def
    by simp (rule draws_sends [OF sends_l5f_window], auto simp: emit_def l5f_encodes_def l5f_accepts_def command_panel)
next
  case (Set_Cursor x y)
  show ?thesis
    unfolding Set_Cursor lcd_perform_def lcd_step_def lcd_controller_l5f30539p00_def by (simp add: dif.draws_ret)
next
  case (Write_Pixels colors)
  show ?thesis
    unfolding Write_Pixels lcd_perform_def lcd_step_def lcd_controller_l5f30539p00_def
    by simp (rule draws_sends [OF sends_l5f_pixels [unfolded append.simps, folded command_events_def]],
        auto simp: l5f_encodes_def l5f_accepts_def command_panel l5f_wire_format_def l5f_supports_def)
next
  case (Read_Pixels n)
  show ?thesis
    unfolding Read_Pixels lcd_perform_def lcd_step_def lcd_controller_l5f30539p00_def
    by simp (rule draws_map [where f = fst], rule draws_mono [OF draws_l5f_read],
        auto simp: l5f_encodes_def l5f_accepts_def command_panel pixels_read_def simp del: append.simps)
qed

lemma wp_l5f_params: "ready_dif E \<Longrightarrow> (\<And>t. Q True t) \<Longrightarrow> wpM (l5f_write_command_data E c bs) Q s"
  unfolding l5f_write_command_data_def by (auto intro!: wp_and_ready wp_command_ready wp_data_ready)

lemma l5f_performs:
  assumes "ready_dif E" "l5f_accepts r" "sending r" "\<And>t. Q True t"
  shows "wpM (lcd_perform (lcd_controller_l5f30539p00 E) r) Q s"
proof (cases r)
  case (Set_Format fmt)
  then show ?thesis
    using assms(1,2,4) by (cases fmt) (auto simp: lcd_perform_def lcd_controller_l5f30539p00_def l5f_set_pixel_format_def
        l5f_accepts_def l5f_supports_def wp intro!: wp_l5f_params wp_and_ready)
next
  case (Write_Pixels colors)
  then show ?thesis
    using assms(1,4) by (auto simp: lcd_perform_def lcd_controller_l5f30539p00_def l5f_write_pixels_def wp
        intro!: wp_command_ready wp_loop_ready wp_and_ready)
qed (use assms in \<open>auto simp: lcd_perform_def lcd_controller_l5f30539p00_def l5f_set_window_def l5f_set_address_mode_def
        l5f_accepts_def Let_def wp intro!: wp_l5f_params wp_and_ready\<close>)

interpretation l5f: lcd_driver "command_run 0x2C" dif_sees "lcd_controller_l5f30539p00 E" l5f_accepts l5f_encodes l5f_display
  "ready_dif E" for E
proof unfold_locales
  show "draws dif_sees (initialize (lcd_controller_l5f30539p00 E)) (\<lambda>ok es a b. ok \<longrightarrow>
      (\<forall>p. l5f_encodes b l5f_display (command_run L5F_CMD_RAMWR p es)))"
    by (simp add: lcd_controller_l5f30539p00_def) (rule draws_sends [OF sends_l5f_initialize], auto intro: l5f_initial)
qed (rule l5f_perform_encodes, rule l5f_performs)

text \<open>A probe that succeeds has read back the pixel it had written.\<close>

definition l5f_probe_script :: "lcd_event list" where
  "l5f_probe_script =
     (let window = command_events L5F_CMD_CASET (word_be 0 @ word_be 0) @ command_events L5F_CMD_PASET (word_be 0 @ word_be 0) in
      [Command L5F_CMD_SLPOUT] @ l5f_format_events LCD_PIXEL_FORMAT_RGB666 @ command_events L5F_CMD_MADCTL [l5f_madctl DEFAULT_MODE] @
      window @ command_events L5F_CMD_RAMWR (pixel_bytes LCD_PIXEL_FORMAT_RGB666 L5F_EXPECTED) @ window)"

lemma sends_l5f_probe:
  "sends dif_sees (andM (lcd_transport_write_command E L5F_CMD_SLPOUT) (bindM (stopwatch_usleep_wd E 25000) (\<lambda>_.
       andM (l5f_set_pixel_format E LCD_PIXEL_FORMAT_RGB666)
         (andM (l5f_set_address_mode E DEFAULT_MODE)
         (andM (l5f_set_window E 0 0 0 0)
         (andM (l5f_write_pixels E [L5F_EXPECTED])
           (l5f_set_window E 0 0 0 0)))))))
     (\<lambda>a. Some (l5f_probe_script, a\<lparr>l5f_format := LCD_PIXEL_FORMAT_RGB666\<rparr>))"
  by (rule sends_cong, (rule dif.sends_and dif.sends_delay dif.sends_command sends_l5f_format sends_l5f_mode sends_l5f_window sends_l5f_pixels)+)
     (simp add: follows_def emit_def l5f_probe_script_def l5f_supports_def l5f_wire_format_def Let_def command_events_def)

lemma draws_l5f_probe:
  "draws dif_sees (l5f_probe E :: (('h, 'z) panelled_scheme, _) cmd) (\<lambda>r es a b. fst r \<longrightarrow> (\<exists>pre dummy d. length d = 3 \<and>
     es = pre @ map Received (dummy # d) \<and> pixel_color l5f_expand_5bit LCD_PIXEL_FORMAT_RGB666 d = L5F_EXPECTED \<and> snd r = Some 3))"
  (is "draws dif_sees _ ?Q")
proof -
  have read: "draws dif_sees (bindM (l5f_read_pixels E 1) (\<lambda>(ok, actual). if \<not> ok then retM (False, None) else
       if red (actual ! 0) \<noteq> red L5F_EXPECTED \<or> green (actual ! 0) \<noteq> green L5F_EXPECTED \<or> blue (actual ! 0) \<noteq> blue L5F_EXPECTED
       then retM (False, None) else retM (True, Some (3 :: u32))) :: (('h, 'z) panelled_scheme, _) cmd)
     (\<lambda>r es a b. fst r \<longrightarrow> l5f_format a = LCD_PIXEL_FORMAT_RGB666 \<longrightarrow> ?Q r es a b)"
    unfolding case_prod_beta
  proof (rule dif.draws_bind [OF draws_l5f_read])
    fix r :: "bool \<times> lcd_color list" and es and a b :: lcd_statics
    assume r: "fst r \<longrightarrow> b = a \<and> (\<exists>ds. length ds = 1 \<and> pixels_read [Command L5F_CMD_RAMRD] 1 (pixel_size (l5f_wire_format (l5f_format a))) es ds \<and>
      snd r = map (pixel_color l5f_expand_5bit (l5f_wire_format (l5f_format a))) ds)"
    have found: "?Q (True, Some 3) es a b" if "fst r" "l5f_format a = LCD_PIXEL_FORMAT_RGB666" "snd r ! 0 = L5F_EXPECTED"
    proof -
      from r that obtain d where d: "pixels_read [Command L5F_CMD_RAMRD] 1 3 es [d]"
        "snd r = [pixel_color l5f_expand_5bit LCD_PIXEL_FORMAT_RGB666 d]"
        by (auto simp: l5f_wire_format_def pixel_size_def length_Suc_conv)
      then obtain x where "es = [Command L5F_CMD_RAMRD] @ map Received (x # d)" "length d = 3"
        by (auto simp: pixels_read_def length_Suc_conv)
      with d(2) that(3) show ?thesis by fastforce
    qed
    show "draws dif_sees (if \<not> fst r then retM (False, None) else
       if red (snd r ! 0) \<noteq> red L5F_EXPECTED \<or> green (snd r ! 0) \<noteq> green L5F_EXPECTED \<or> blue (snd r ! 0) \<noteq> blue L5F_EXPECTED
       then retM (False, None) else retM (True, Some (3 :: u32)) :: (('h, 'z) panelled_scheme, _) cmd)
      (\<lambda>q fs b' d. b' = b \<longrightarrow> fst q \<longrightarrow> l5f_format a = LCD_PIXEL_FORMAT_RGB666 \<longrightarrow> ?Q q (es @ fs) a d)"
      using found by (auto intro!: dif.draws_ret)
  qed
  show ?thesis
    unfolding l5f_probe_def
  proof (rule dif.draws_bind [OF sends_l5f_probe [unfolded sends_def]])
    fix ok es and a b :: lcd_statics
    assume ok: "ok \<longrightarrow> Some (l5f_probe_script, a\<lparr>l5f_format := LCD_PIXEL_FORMAT_RGB666\<rparr>) = Some (es, b)"
    then have fmt: "ok \<longrightarrow> l5f_format b = LCD_PIXEL_FORMAT_RGB666" by auto
    have later: "?Q r fs b d \<Longrightarrow> ?Q r (es @ fs) a d" for r fs d by (metis append.assoc)
    show "draws dif_sees (if \<not> ok then retM (False, None) else bindM (l5f_read_pixels E 1) (\<lambda>(ok, actual). if \<not> ok then retM (False, None) else
       if red (actual ! 0) \<noteq> red L5F_EXPECTED \<or> green (actual ! 0) \<noteq> green L5F_EXPECTED \<or> blue (actual ! 0) \<noteq> blue L5F_EXPECTED
       then retM (False, None) else retM (True, Some 3)) :: (('h, 'z) panelled_scheme, _) cmd) (\<lambda>r fs b' d. b' = b \<longrightarrow> ?Q r (es @ fs) a d)"
    proof (cases ok)
      case True
      show ?thesis
        by (simp only: True not_True_eq_False if_False) (rule draws_mono [OF read], use True fmt later in blast)
    qed (simp add: dif.draws_ret)
  qed
qed

text \<open>The table that is sent to the panel holds the expansion that the driver computes when it reads.\<close>

lemma l5f_lookup_table_eq:
  "l5f_lookup_table = map (\<lambda>i. l5f_expand_5bit (of_nat i)) [0..<32] @ map of_nat [0..<64] @ map (\<lambda>i. l5f_expand_5bit (of_nat i)) [0..<32]"
  by code_simp

end
