(* ===== verification/Lcd_Controller.thy ===== *)
theory Lcd_Controller
  imports Lcd_R61505 Lcd_Jbt Lcd_L5f
begin

text \<open>
  Finding the display controller (\<^verbatim>\<open>src/unit/lcd/lcd-controller.c\<close>), and what holds for all of its drivers.
\<close>

section \<open>Definitions\<close>

definition LCD_CONTROLLERS :: "'h env \<Rightarrow> formatter \<Rightarrow> bool \<Rightarrow> ('h, 'z) lcd_controller list" where
  "LCD_CONTROLLERS E F ke970 = [lcd_controller_r61505 E F ke970, lcd_controller_l5f30539p00 E, lcd_controller_jbt6k71 E]"

definition lcd_controller_reset :: "'h env \<Rightarrow> ('h, 'z) lcd_controller \<Rightarrow> (('h, 'z) panelled_scheme, unit) cmd" where
  "lcd_controller_reset E lcd =
     bindM (lcd_transport_reset_controller E) (\<lambda>_. stopwatch_usleep_wd E (ucast (reset_settle_ms lcd) * 1000))"

definition lcd_controller_matches_id :: "('h, 'z) lcd_controller \<Rightarrow> u32 \<Rightarrow> bool" where
  "lcd_controller_matches_id lcd ident = (case matches_id lcd of Some f \<Rightarrow> f ident | None \<Rightarrow> ident = lcd_id lcd)"

text \<open>\<open>detected_id\<close> is the variable of the caller; a probe that stores nothing leaves it as it was.\<close>

primrec lcd_detect_loop :: "('h, 'z) lcd_controller list \<Rightarrow> 'h env \<Rightarrow> u32 \<Rightarrow>
    (('h, 'z) panelled_scheme, ('h, 'z) lcd_controller option \<times> u32) cmd" where
  "lcd_detect_loop [] E detected_id = retM (None, detected_id)"
| "lcd_detect_loop (lcd # lcds) E detected_id =
     bindM (lcd_controller_reset E lcd) (\<lambda>_.
     bindM (probe lcd) (\<lambda>(ok, stored).
     let detected_id = (case stored of None \<Rightarrow> detected_id | Some v \<Rightarrow> v) in
     if ok \<and> lcd_controller_matches_id lcd detected_id then retM (Some lcd, detected_id)
     else lcd_detect_loop lcds E detected_id))"

definition lcd_controller_detect :: "'h env \<Rightarrow> formatter \<Rightarrow> bool \<Rightarrow> u32 \<Rightarrow>
    (('h, 'z) panelled_scheme, ('h, 'z) lcd_controller option \<times> u32) cmd" where
  "lcd_controller_detect E F ke970 detected_id = lcd_detect_loop (LCD_CONTROLLERS E F ke970) E detected_id"

section \<open>What was found has answered\<close>

text \<open>The last bytes that were read before a controller was reported.\<close>

definition lcd_evidence :: "lcd_controller_type \<Rightarrow> u32 \<Rightarrow> lcd_event list \<Rightarrow> bool" where
  "lcd_evidence typ ident es \<longleftrightarrow> (\<exists>pre raw. es = pre @ map Received raw \<and>
     ((typ = LCD_CONTROLLER_R61505 \<and> length raw = 8 \<and> r61505_candidate False raw = Some ident) \<or>
      (typ = LCD_CONTROLLER_L5F30539P00 \<and> length raw = 4 \<and>
         pixel_color l5f_expand_5bit LCD_PIXEL_FORMAT_RGB666 (tl raw) = L5F_EXPECTED \<and> ident = 3) \<or>
      (typ = LCD_CONTROLLER_JBT6K71 \<and> raw = [0x71, 0x14, 0x71, 0x14, 0x71, 0x14, 0x71, 0x14] \<and> ident = 2)))"

lemma lcd_evidence_later: "lcd_evidence typ ident es \<Longrightarrow> lcd_evidence typ ident (fs @ es)"
  unfolding lcd_evidence_def by (metis append.assoc)

definition probes_soundly :: "('h, 'z) lcd_controller \<Rightarrow> bool" where
  "probes_soundly lcd \<longleftrightarrow> draws dif_sees (probe lcd)
     (\<lambda>r es a b. fst r \<longrightarrow> (\<exists>ident. snd r = Some ident \<and> lcd_evidence (lcd_type lcd) ident es))"

lemma r61505_probes: "probes_soundly (lcd_controller_r61505 E F False)"
  unfolding probes_soundly_def lcd_controller_r61505_def lcd_controller.simps
  by (rule draws_mono [OF draws_r61505_probe]) (auto simp: lcd_evidence_def, blast)

lemma jbt_probes: "probes_soundly (lcd_controller_jbt6k71 E)"
  unfolding probes_soundly_def lcd_controller_jbt6k71_def lcd_controller.simps
  by (rule draws_mono [OF draws_jbt_probe]) (auto simp: lcd_evidence_def intro: exI [of _ "[x, y, z]" for x y z])

lemma l5f_probes: "probes_soundly (lcd_controller_l5f30539p00 E)"
  unfolding probes_soundly_def lcd_controller_l5f30539p00_def lcd_controller.simps
proof (rule draws_mono [OF draws_l5f_probe], intro impI, elim impE exE conjE)
  fix r :: "bool \<times> u32 option" and es pre dummy d
  assume "length d = 3" "es = pre @ map Received (dummy # d)"
    "pixel_color l5f_expand_5bit LCD_PIXEL_FORMAT_RGB666 d = L5F_EXPECTED" "snd r = Some 3"
  then show "\<exists>ident. snd r = Some ident \<and> lcd_evidence LCD_CONTROLLER_L5F30539P00 ident es"
    unfolding lcd_evidence_def by (intro exI [of _ 3] exI [of _ pre] exI [of _ "dummy # d"] conjI) simp_all
qed assumption

lemma draws_reset: "draws dif_sees (lcd_controller_reset E lcd) (\<lambda>_ es a b. es = [] \<and> b = a)"
proof (rule draws_shown)
  show "shown (lcd_controller_reset E lcd) (\<lambda>_ es. es = [])"
    unfolding lcd_controller_reset_def lcd_transport_reset_controller_def
    by (intro shown_idle idles_bind idles_seq idles_set idles_delay) simp_all
  show "statics.same (lcd_controller_reset E lcd)"
    unfolding lcd_controller_reset_def lcd_transport_reset_controller_def gpio_set_def rmw_def
    by (intro statics.same_intros statics.same_usleep_wd)
qed simp

lemma draws_detect_loop:
  fixes lcds :: "('h, 'z) lcd_controller list"
  assumes "list_all probes_soundly lcds"
  shows "draws dif_sees (lcd_detect_loop lcds E detected_id) (\<lambda>r es a b. \<forall>lcd. fst r = Some lcd \<longrightarrow>
     lcd \<in> set lcds \<and> lcd_controller_matches_id lcd (snd r) \<and> lcd_evidence (lcd_type lcd) (snd r) es)"
  using assms
proof (induction lcds arbitrary: detected_id)
  case (Cons lcd lcds)
  then have sound: "probes_soundly lcd" by simp
  note rest = Cons.IH [OF Cons.prems [simplified, THEN conjunct2]]
  show ?case
    unfolding lcd_detect_loop.simps case_prod_beta Let_def
  proof (rule draws_unseen [OF draws_reset], rule dif.draws_bind [OF sound [unfolded probes_soundly_def]])
    fix r es and a b :: lcd_statics
    assume r: "fst r \<longrightarrow> (\<exists>ident. snd r = Some ident \<and> lcd_evidence (lcd_type lcd) ident es)"
    let ?id = "case snd r of None \<Rightarrow> detected_id | Some v \<Rightarrow> v"
    show "draws dif_sees (if fst r \<and> lcd_controller_matches_id lcd ?id then retM (Some lcd, ?id) else lcd_detect_loop lcds E ?id)
      (\<lambda>q fs b' d. b' = b \<longrightarrow> (\<forall>found. fst q = Some found \<longrightarrow> found \<in> set (lcd # lcds) \<and>
        lcd_controller_matches_id found (snd q) \<and> lcd_evidence (lcd_type found) (snd q) (es @ fs)))"
    proof (cases "fst r \<and> lcd_controller_matches_id lcd ?id")
      case True
      then show ?thesis using r by (auto intro!: dif.draws_ret)
    next
      case False
      show ?thesis
        by (simp only: False if_False) (rule draws_mono [OF rest], auto intro: lcd_evidence_later)
    qed
  qed
qed (simp add: dif.draws_ret)

text \<open>
  C7. A display controller is only reported on its own answer. When \<^verbatim>\<open>lcd_controller_detect\<close> returns a controller, it is one of the
  table, the identification it stored is one that the controller matches, and the last bytes read from the panel were: for the
  R61505U eight bytes among which the stored code of the device stands, for the L5F30539P00 the pixel that the probe had written,
  for the JBT6K71 four times the code 0x7114. Built for the KE970, where the panel cannot be read, the R61505U is reported
  without a single byte having been exchanged with the panel.
\<close>

theorem lcd_controller_detect_sound:
  "draws dif_sees (lcd_controller_detect E F False detected_id) (\<lambda>(found, ident) es a b. case found of
       None \<Rightarrow> True
     | Some lcd \<Rightarrow> lcd \<in> set (LCD_CONTROLLERS E F False) \<and> lcd_controller_matches_id lcd ident \<and>
         lcd_evidence (lcd_type lcd) ident es) \<and>
   draws dif_sees (lcd_controller_detect E F True detected_id) (\<lambda>(found, ident) es a b.
     found = Some (lcd_controller_r61505 E F True) \<and> ident = LCD_CONTROLLER_ID_UNAVAILABLE \<and> es = [] \<and> b = a)"
proof
  show "draws dif_sees (lcd_controller_detect E F False detected_id) (\<lambda>(found, ident) es a b. case found of
       None \<Rightarrow> True
     | Some lcd \<Rightarrow> lcd \<in> set (LCD_CONTROLLERS E F False) \<and> lcd_controller_matches_id lcd ident \<and>
         lcd_evidence (lcd_type lcd) ident es)"
    unfolding lcd_controller_detect_def
    by (rule draws_mono [OF draws_detect_loop])
       (auto simp: LCD_CONTROLLERS_def r61505_probes jbt_probes l5f_probes split: option.splits)
  have probe: "draws dif_sees (r61505_probe E F True) (\<lambda>r es a b. r = (True, Some LCD_CONTROLLER_ID_UNAVAILABLE) \<and> es = [] \<and> b = a)"
    for E :: "'a env"
    unfolding r61505_probe_def if_True by (rule draws_unseen [OF draws_printf]) (simp add: dif.draws_ret)
  have matches: "lcd_controller_matches_id (lcd_controller_r61505 E F True) LCD_CONTROLLER_ID_UNAVAILABLE" for E :: "'a env"
    by (simp add: lcd_controller_matches_id_def lcd_controller_r61505_def r61505_matches_id_def)
  show "draws dif_sees (lcd_controller_detect E F True detected_id) (\<lambda>(found, ident) es a b.
     found = Some (lcd_controller_r61505 E F True) \<and> ident = LCD_CONTROLLER_ID_UNAVAILABLE \<and> es = [] \<and> b = a)"
    unfolding lcd_controller_detect_def LCD_CONTROLLERS_def lcd_detect_loop.simps case_prod_beta Let_def
    by (rule draws_unseen [OF draws_reset], subst (1) lcd_controller_r61505_def, unfold lcd_controller.simps,
        rule dif.draws_bind [OF probe]) (auto simp: matches intro!: dif.draws_ret)
qed

section \<open>The panels follow the requests\<close>

lemma lcd_steps:
  "lcd_step (lcd_controller_r61505 E F ke970) = display_step False False"
  "lcd_step (lcd_controller_jbt6k71 E) = display_step False False"
  "lcd_step (lcd_controller_l5f30539p00 E) = display_step True True"
  by (simp_all add: lcd_step_def lcd_controller_r61505_def lcd_controller_jbt6k71_def lcd_controller_l5f30539p00_def)


definition lcd_bench_state :: "'h \<Rightarrow> lcd_pixel_format \<Rightarrow> 'h panelled" where
  "lcd_bench_state h fmt = \<lparr>hw = h, trace = [], cpsr = 0, ram = (\<lambda>_. 0), ticks_per_s = 0, start_execution = 0, wdt_timeout = 0,
     last_wdt_serve = 0, wdt_interval = 0, wdt_off = True, assertions = 0, failures = 0, fault_recovery_armed = False,
     fault_nesting = 0, last_heartbeat = 0, statics = \<lparr>r61505_format = fmt, r61505_mode = DEFAULT_MODE, jbt_format = fmt,
     jbt_mode = DEFAULT_MODE, l5f_format = fmt, ssd_driver_output = 0x31AF, ssd_entry_mode = 0x6830\<rparr>\<rparr>"


section \<open>Pixels come back\<close>

lemma r61505_rounded: "rounded r61505_expand_5bit LCD_PIXEL_FORMAT_RGB565 = r61505_quantize_color fmt"
  by (simp add: rounded_def r61505_quantize_color_def fun_eq_iff)

lemma jbt_rounded: "rounded jbt_expand_5bit = jbt_quantize_color"
  by (simp add: rounded_def jbt_quantize_color_def fun_eq_iff)

lemma l5f_rounded: "rounded l5f_expand_5bit = l5f_quantize_color"
  by (simp add: rounded_def l5f_quantize_color_def fun_eq_iff)

lemma select_bytes: "data_bytes (select_events i) = []" "received_bytes (select_events i) = []"
  by (simp_all add: select_events_def data_bytes_def received_bytes_def)

lemma l5f_reads_back:
  "draws dif_sees (write_then_read (lcd_controller_l5f30539p00 E) cs) (\<lambda>r es a b. fst r \<longrightarrow>
     l5f_supports (l5f_format a) \<and> echoes 1 es \<longrightarrow>
     snd r = map (\<lambda>c. pixel_color l5f_expand_5bit (l5f_wire_format (l5f_format a)) (pixel_bytes (l5f_wire_format (l5f_format a)) c)) cs)"
proof (rule echo_decodes [where sel = "[Command L5F_CMD_RAMWR]" and sel' = "[Command L5F_CMD_RAMRD]" and dummy = "\<lambda>_. 1"])
  show "sends dif_sees (write_pixels (lcd_controller_l5f30539p00 E) cs)
      (\<lambda>a. Some ([Command L5F_CMD_RAMWR] @ map Data (concat (map (pixel_bytes (l5f_wire_format (l5f_format a))) cs)), a))"
    unfolding lcd_controller_l5f30539p00_def lcd_controller.simps by (rule sends_l5f_pixels)
  show "read_pixels (lcd_controller_l5f30539p00 E) = Some (l5f_read_pixels E)" by (simp add: lcd_controller_l5f30539p00_def)
qed (rule draws_l5f_read, simp_all add: data_bytes_def received_bytes_def length_pixel_bytes)

text \<open>
  C26. Pixels survive the way to the panel and back. A colour has six bits for each component. When writing colours and reading
  as many pixels both return true, and after the dummy bytes the panel has returned the bytes it was given, then the colours
  that were read are the written ones as the driver's \<^verbatim>\<open>quantize_color\<close> predicts them for its current format: for the R61505U
  in the 16-bit format, which is the one it can be read in, for the JBT6K71 in all four formats, and for the L5F30539P00 in its two.
\<close>

theorem lcd_pixels_read_back:
  assumes "list_all six_bit cs"
  shows "draws dif_sees (write_then_read (lcd_controller_r61505 E F ke970) cs) (\<lambda>r es a b. fst r \<longrightarrow>
       r61505_format a = LCD_PIXEL_FORMAT_RGB565 \<and> echoes 2 es \<longrightarrow>
       snd r = map (quantize_color (lcd_controller_r61505 E F ke970) LCD_PIXEL_FORMAT_RGB565) cs) \<and>
     draws dif_sees (write_then_read (lcd_controller_jbt6k71 E) cs) (\<lambda>r es a b. fst r \<longrightarrow>
       echoes (pixel_size (jbt_format a)) es \<longrightarrow> snd r = map (quantize_color (lcd_controller_jbt6k71 E) (jbt_format a)) cs) \<and>
     draws dif_sees (write_then_read (lcd_controller_l5f30539p00 E) cs) (\<lambda>r es a b. fst r \<longrightarrow>
       l5f_supports (l5f_format a) \<and> echoes 1 es \<longrightarrow> snd r = map (quantize_color (lcd_controller_l5f30539p00 E) (l5f_format a)) cs)"
proof (intro conjI)
  note six = assms [unfolded list_all_iff, rule_format]
  show "draws dif_sees (write_then_read (lcd_controller_r61505 E F ke970) cs) (\<lambda>r es a b. fst r \<longrightarrow>
       r61505_format a = LCD_PIXEL_FORMAT_RGB565 \<and> echoes 2 es \<longrightarrow>
       snd r = map (quantize_color (lcd_controller_r61505 E F ke970) LCD_PIXEL_FORMAT_RGB565) cs)"
    by (rule draws_mono [OF echo_decodes [where encode = "\<lambda>a. pixel_bytes (r61505_format a)" and dummy = "\<lambda>_. 2" and k = "\<lambda>_. 2" and
          decode = "\<lambda>_. pixel_color r61505_expand_5bit LCD_PIXEL_FORMAT_RGB565" and good = "\<lambda>a. r61505_format a = LCD_PIXEL_FORMAT_RGB565"]])
       (auto simp: lcd_controller_r61505_def select_bytes length_pixel_bytes pixel_size_def pixel_roundtrip six r61505_rounded [where fmt = LCD_PIXEL_FORMAT_RGB565]
          intro: sends_r61505_pixels draws_r61505_read)
  show "draws dif_sees (write_then_read (lcd_controller_jbt6k71 E) cs) (\<lambda>r es a b. fst r \<longrightarrow>
       echoes (pixel_size (jbt_format a)) es \<longrightarrow> snd r = map (quantize_color (lcd_controller_jbt6k71 E) (jbt_format a)) cs)"
    by (rule draws_mono [OF echo_decodes [where encode = "\<lambda>a. pixel_bytes (jbt_format a)" and dummy = "\<lambda>a. pixel_size (jbt_format a)" and
          k = "\<lambda>a. pixel_size (jbt_format a)" and decode = "\<lambda>a. pixel_color jbt_expand_5bit (jbt_format a)" and good = "\<lambda>_. True"]])
       (auto simp: lcd_controller_jbt6k71_def select_bytes length_pixel_bytes pixel_roundtrip six jbt_rounded
          intro: sends_jbt_pixels draws_jbt_read)
  show "draws dif_sees (write_then_read (lcd_controller_l5f30539p00 E) cs) (\<lambda>r es a b. fst r \<longrightarrow>
       l5f_supports (l5f_format a) \<and> echoes 1 es \<longrightarrow> snd r = map (quantize_color (lcd_controller_l5f30539p00 E) (l5f_format a)) cs)"
    by (rule draws_mono [OF l5f_reads_back])
       (auto simp: pixel_roundtrip six l5f_rounded lcd_controller_l5f30539p00_def l5f_wire_format_def l5f_supports_def)
qed

text \<open>
  An interface with a panel that returns what it was given: the hardware state is the command line and the bytes to be read, of
  which the first three are a dummy pixel.
\<close>

definition loopback :: "(bool \<times> u8 list) env" where
  "loopback = \<lparr>dev_read = (\<lambda>w a (cd, bs). if a = DIF_RXD then (ucast (hd bs), (cd, tl bs)) else if a = DIF_RXFFS_STAT then (1, (cd, bs))
       else (0, (cd, bs))),
     dev_write = (\<lambda>w a v (cd, bs). if a = DIF_CSREG then (bit v 0, bs) else if a = DIF_TXD \<and> \<not> cd then (cd, bs @ [ucast v]) else (cd, bs)),
     fuel = 1, cpu = PMB8876, pm_wadog = False, pmic = PMIC_none\<rparr>"

lemma loopback_run:
  "case write_then_read (lcd_controller_jbt6k71 loopback) [\<lparr>red = 0x2A, green = 0x15, blue = 0x3F\<rparr>]
       (lcd_bench_state (False, [0, 0, 0]) LCD_PIXEL_FORMAT_RGB666_2_8_8) of
     Inr ((ok, out), t) \<Rightarrow> ok \<and> echoes 3 (dif_events 0 (trace t))
   | Inl e \<Rightarrow> False"
proof -
  have shape: "write_then_read (lcd_controller_jbt6k71 loopback) cs = bindM (jbt_write_pixels loopback cs)
      (\<lambda>ok. if ok then jbt_read_pixels loopback (length cs) else retM (False, []))" for cs
    by (simp add: write_then_read_def lcd_controller_jbt6k71_def)
  show ?thesis unfolding shape by code_simp
qed

theorem lcd_pixels_read_back_witness:
  "\<exists>t. write_then_read (lcd_controller_jbt6k71 loopback) [\<lparr>red = 0x2A, green = 0x15, blue = 0x3F\<rparr>]
       (lcd_bench_state (False, [0, 0, 0]) LCD_PIXEL_FORMAT_RGB666_2_8_8) =
     Inr ((True, [\<lparr>red = 0x2A, green = 0x15, blue = 0x3F\<rparr>]), t)"
proof -
  let ?cs = "[\<lparr>red = 0x2A, green = 0x15, blue = 0x3F\<rparr>] :: lcd_color list" and ?s = "lcd_bench_state (False, [0, 0, 0]) LCD_PIXEL_FORMAT_RGB666_2_8_8"
  obtain out t where r: "write_then_read (lcd_controller_jbt6k71 loopback) ?cs ?s = Inr ((True, out), t)"
    and e: "echoes 3 (dif_events 0 (trace t))" using loopback_run by (auto split: sum.splits)
  have six: "list_all six_bit ?cs" by (simp add: six_bit_def)
  from doesD [OF lcd_pixels_read_back [OF six, of loopback undefined False, THEN conjunct2, THEN conjunct1, unfolded draws_def] r]
  obtain tr es where "trace t = trace ?s @ tr" "dif_sees tr es"
    "echoes 3 es \<longrightarrow> out = map (quantize_color (lcd_controller_jbt6k71 loopback) LCD_PIXEL_FORMAT_RGB666_2_8_8) ?cs"
    by (auto simp: lcd_bench_state_def pixel_size_def)
  with e have "out = ?cs"
    by (simp add: lcd_bench_state_def dif_sees_def lcd_controller_jbt6k71_def jbt_quantize_color_def)
  with r show ?thesis by blast
qed

end
