(* ===== verification/Lcd_Regs_V1.thy ===== *)
theory Lcd_Regs_V1
  imports Lcd_Regs
begin

text \<open>
  The registers, fields and pins that the display programs of the CX75 use, from \<^verbatim>\<open>src/lib/gen/pmb8875_regs.h\<close>,
  \<^verbatim>\<open>board_siemens_cx75.h\<close> and the headers of the panel and the power-management chip. The display interface of the PMB8875 has
  other registers than that of the PMB8876, so its names start with \<open>DIFV1\<close>.
\<close>

section \<open>The display interface of the PMB8875 and the pins of the CX75\<close>

abbreviation (input) GPIO_CIF_CLK :: u32 where "GPIO_CIF_CLK \<equiv> 23"
abbreviation (input) GPIO_CIF_MTSR :: u32 where "GPIO_CIF_MTSR \<equiv> 24"
abbreviation (input) GPIO_CIF_RS :: u32 where "GPIO_CIF_RS \<equiv> 25"
abbreviation (input) GPIO_DISP_CS1 :: u32 where "GPIO_DISP_CS1 \<equiv> 26"
abbreviation (input) GPIO_CIF_RESET :: u32 where "GPIO_CIF_RESET \<equiv> 27"
abbreviation (input) GPIO_DISPLAY_RESET :: u32 where "GPIO_DISPLAY_RESET \<equiv> 52"
abbreviation (input) GPIO_CIF_CS :: u32 where "GPIO_CIF_CS \<equiv> 54"
abbreviation (input) GPIO_CIF_CS_DISPLAY :: u32 where "GPIO_CIF_CS_DISPLAY \<equiv> 55"
abbreviation (input) GPIO_CLK32 :: u32 where "GPIO_CLK32 \<equiv> 61"
abbreviation (input) GPIO_CIF_MRST :: u32 where "GPIO_CIF_MRST \<equiv> 63"
abbreviation (input) GPIO_CLKOUT0 :: u32 where "GPIO_CLKOUT0 \<equiv> 58"
abbreviation (input) DIFV1_CLC :: u32 where "DIFV1_CLC \<equiv> 0xF1B00000"
abbreviation (input) DIFV1_CON :: u32 where "DIFV1_CON \<equiv> 0xF1B00010"
abbreviation (input) DIFV1_CON_HB_MSB :: u32 where "DIFV1_CON_HB_MSB \<equiv> 0x10"
abbreviation (input) DIFV1_CON_PH_1 :: u32 where "DIFV1_CON_PH_1 \<equiv> 0x20"
abbreviation (input) DIFV1_CON_BSY :: u32 where "DIFV1_CON_BSY \<equiv> 0x1000"
abbreviation (input) DIFV1_CON_MS :: u32 where "DIFV1_CON_MS \<equiv> 0x4000"
abbreviation (input) DIFV1_CON_MS_MASTER :: u32 where "DIFV1_CON_MS_MASTER \<equiv> 0x4000"
abbreviation (input) DIFV1_CON_EN :: u32 where "DIFV1_CON_EN \<equiv> 0x8000"
abbreviation (input) DIFV1_CON_BM_16 :: u32 where "DIFV1_CON_BM_16 \<equiv> 0xF0000"
abbreviation (input) DIFV1_BR :: u32 where "DIFV1_BR \<equiv> 0xF1B00014"
abbreviation (input) DIFV1_TB :: u32 where "DIFV1_TB \<equiv> 0xF1B00020"
abbreviation (input) DIFV1_RB :: u32 where "DIFV1_RB \<equiv> 0xF1B00024"
abbreviation (input) GPIO_IS_ALT3 :: u32 where "GPIO_IS_ALT3 \<equiv> 4"
abbreviation (input) GPIO_OS_ALT1 :: u32 where "GPIO_OS_ALT1 \<equiv> 32"
abbreviation (input) GPIO_ENAQ_TRISTATE :: u32 where "GPIO_ENAQ_TRISTATE \<equiv> 0x8000"

section \<open>PCF8882\<close>

abbreviation (input) PCF8882_RDDIDIF :: u8 where "PCF8882_RDDIDIF \<equiv> 0x4"
abbreviation (input) PCF8882_SLPOUT :: u8 where "PCF8882_SLPOUT \<equiv> 0x11"
abbreviation (input) PCF8882_GAMSET :: u8 where "PCF8882_GAMSET \<equiv> 0x26"
abbreviation (input) PCF8882_DISPON :: u8 where "PCF8882_DISPON \<equiv> 0x29"
abbreviation (input) PCF8882_CASET :: u8 where "PCF8882_CASET \<equiv> 0x2A"
abbreviation (input) PCF8882_PASET :: u8 where "PCF8882_PASET \<equiv> 0x2B"
abbreviation (input) PCF8882_RAMWR :: u8 where "PCF8882_RAMWR \<equiv> 0x2C"
abbreviation (input) PCF8882_MADCTL :: u8 where "PCF8882_MADCTL \<equiv> 0x36"
abbreviation (input) PCF8882_MADCTL_RGB_BGR_ORDER :: u8 where "PCF8882_MADCTL_RGB_BGR_ORDER \<equiv> 0x8"
abbreviation (input) PCF8882_MADCTL_V_WRITE_Y :: u8 where "PCF8882_MADCTL_V_WRITE_Y \<equiv> 0x20"
abbreviation (input) PCF8882_MADCTL_MX_MIRRORED :: u8 where "PCF8882_MADCTL_MX_MIRRORED \<equiv> 0x40"
abbreviation (input) PCF8882_MADCTL_MY_MIRRORED :: u8 where "PCF8882_MADCTL_MY_MIRRORED \<equiv> 0x80"
abbreviation (input) PCF8882_COLMOD :: u8 where "PCF8882_COLMOD \<equiv> 0x3A"
abbreviation (input) PCF8882_COLMOD_P_PIXEL_16_BIT :: u8 where "PCF8882_COLMOD_P_PIXEL_16_BIT \<equiv> 0x5"
abbreviation (input) PCF8882_RDID1 :: u8 where "PCF8882_RDID1 \<equiv> 0xDA"
abbreviation (input) PCF8882_RDID2 :: u8 where "PCF8882_RDID2 \<equiv> 0xDB"
abbreviation (input) PCF8882_RDID3 :: u8 where "PCF8882_RDID3 \<equiv> 0xDC"


end
