(* ===== verification/Lcd_Machine.thy ===== *)
theory Lcd_Machine
  imports Lcd_Regs_V1 Test_Framework Blocks
begin

text \<open>
  Devices that follow the accesses of a program: an automaton takes every access and emits events. A command is described by what its
  accesses do to the automaton, for every state it may start in; two such descriptions are used, of the panel behind the display
  bridge of the CX75 and of the registers of the bridge itself.
\<close>

section \<open>Automata\<close>

primrec machine_run :: "('m \<Rightarrow> access \<Rightarrow> 'e list \<times> 'm) \<Rightarrow> access list \<Rightarrow> 'm \<Rightarrow> 'e list \<times> 'm" where
  "machine_run step [] m = ([], m)"
| "machine_run step (x # tr) m = (case step m x of (es, m) \<Rightarrow> (case machine_run step tr m of (fs, m) \<Rightarrow> (es @ fs, m)))"

definition chained :: "('m \<Rightarrow> 'e list \<times> 'm) \<Rightarrow> ('m \<Rightarrow> 'e list \<times> 'm) \<Rightarrow> 'm \<Rightarrow> 'e list \<times> 'm" where
  "chained F G m = (case F m of (es, m) \<Rightarrow> (case G m of (fs, m) \<Rightarrow> (es @ fs, m)))"

abbreviation unmoved :: "'m \<Rightarrow> 'e list \<times> 'm" where
  "unmoved \<equiv> Pair []"

lemma chained_unmoved [simp]: "chained unmoved F = F" "chained F unmoved = F"
  by (simp_all add: chained_def fun_eq_iff split: prod.splits)

lemma machine_run_append: "machine_run step (tr @ us) = chained (machine_run step tr) (machine_run step us)"
proof
  show "machine_run step (tr @ us) m = chained (machine_run step tr) (machine_run step us) m" for m
    by (induction tr arbitrary: m) (simp_all add: chained_def split: prod.splits)
qed

lemma machine_run_single: "machine_run step [x] = (\<lambda>m. step m x)"
  by (simp add: fun_eq_iff split: prod.splits)

lemma machine_run_Nil: "machine_run step [] = unmoved"
  by (simp add: fun_eq_iff)

section \<open>Commands that move an automaton\<close>

text \<open>A command whose accesses do to the automaton what \<open>F\<close> says, and which returns \<open>x\<close>; and one that moves nothing.\<close>

definition drives :: "('m \<Rightarrow> access \<Rightarrow> 'e list \<times> 'm) \<Rightarrow> (('h, 'z) machine_scheme, 'a) cmd \<Rightarrow> 'a \<Rightarrow> ('m \<Rightarrow> 'e list \<times> 'm) \<Rightarrow> bool" where
  "drives step c x F \<longleftrightarrow> talks c (\<lambda>y tr. y = x \<and> machine_run step tr = F)"

abbreviation stays :: "('m \<Rightarrow> access \<Rightarrow> 'e list \<times> 'm) \<Rightarrow> (('h, 'z) machine_scheme, 'a) cmd \<Rightarrow> bool" where
  "stays step c \<equiv> talks c (\<lambda>_ tr. machine_run step tr = unmoved)"

lemma drives_bind:
  assumes "drives step c x F" "drives step (f x) y G"
  shows "drives step (bindM c f) y (chained F G)"
  unfolding drives_def
  by (rule any.in_bind [OF assms(1) [unfolded drives_def]], elim conjE, simp only:)
     (rule logs_in_mono [OF assms(2) [unfolded drives_def]], simp add: machine_run_append)

lemma drives_ret: "drives step (retM x) x unmoved"
  unfolding drives_def by (rule any.in_ret) (simp add: machine_run_Nil)

lemma drives_seq:
  "drives step (seqM []) () unmoved"
  "drives step c () F \<Longrightarrow> drives step (seqM cs) () G \<Longrightarrow> drives step (seqM (c # cs)) () (chained F G)"
  by (auto intro: drives_ret drives_bind)

lemma drives_cong: "drives step c x F \<Longrightarrow> F = G \<Longrightarrow> drives step c x G"
  by simp

lemma drives_for:
  "(\<And>x. x \<in> set xs \<Longrightarrow> drives step (f x) () (F x)) \<Longrightarrow> drives step (forM xs f) () (foldr (\<lambda>x. chained (F x)) xs unmoved)"
  by (induction xs) (auto intro: drives_ret drives_bind)

lemma stays_bind: "stays step c \<Longrightarrow> (\<And>x. stays step (f x)) \<Longrightarrow> stays step (bindM c f)"
  by (erule any.in_bind) (rule logs_in_mono, assumption, simp add: machine_run_append)

lemma stays_simple: "stays step (retM x)" "stays step (getM f)" "stays step (liftE m)" "stays step (failM e)"
  by (auto intro: any.in_ret any.in_get any.in_liftE any.in_fail simp: machine_run_Nil)

lemma stays_map: "stays step c \<Longrightarrow> stays step (mapM f c)"
  by (rule any.in_map)

lemma stays_if: "stays step c \<Longrightarrow> stays step d \<Longrightarrow> stays step (if b then c else d)"
  by simp

lemma stays_when: "stays step c \<Longrightarrow> stays step (whenM b c)"
  by (simp add: whenM_def stays_simple)

lemma stays_while: "stays step c \<Longrightarrow> stays step d \<Longrightarrow> stays step (whileM n c d)"
  by (induction n) (auto intro!: stays_simple stays_bind)

lemma stays_seq: "stays step (seqM [])" "stays step c \<Longrightarrow> stays step (seqM cs) \<Longrightarrow> stays step (seqM (c # cs))"
  by (auto intro: stays_bind stays_simple)

lemma stays_mod: "(\<And>s. trace (f s) = trace s) \<Longrightarrow> stays step (modM f)"
  by (rule talks_mod) (simp_all add: machine_run_Nil)

lemma stays_drives: "stays step c \<Longrightarrow> drives step c () unmoved"
  unfolding drives_def by (erule logs_in_mono) simp

text \<open>
  The registers that an automaton follows; all other accesses leave it where it is. Neither the watchdog nor the stopwatch is among
  them, so waiting moves nothing.
\<close>

locale bus_machine =
  fixes step :: "'m \<Rightarrow> access \<Rightarrow> 'e list \<times> 'm"
    and moving :: "u32 set"
  assumes still_read: "a \<notin> moving \<Longrightarrow> step m (Rd w a v) = ([], m)"
    and still_write: "a \<notin> moving \<Longrightarrow> step m (Wr w a v) = ([], m)"
    and still_msr: "step m (Msr v) = ([], m)"
    and moving_few: "moving \<subseteq> {GPIO_PIN GPIO_CIF_RS, GPIO_PIN GPIO_DISP_CS1, DIFV1_TB, DIFV1_RB}"
begin

lemma stays_read: "a \<notin> moving \<Longrightarrow> stays step (mmio_read w E a)"
  by (rule any.in_read) (simp add: machine_run_single still_read)

lemma stays_write: "a \<notin> moving \<Longrightarrow> stays step (mmio_write w E a v)"
  by (rule any.in_write) (simp add: machine_run_single still_write)

lemma stays_irq: "stays step (cpu_enable_irq b)"
  by (auto simp: logs_in_def any_change_def cpu_enable_irq_def cpu_enable_irq_or_fiq_def msr_cpsr_c_def wp fun_eq_iff still_msr)

lemma outside_moving:
  "a \<notin> {GPIO_PIN GPIO_CIF_RS, GPIO_PIN GPIO_DISP_CS1, DIFV1_TB, DIFV1_RB} \<Longrightarrow> a \<notin> moving"
  using moving_few by blast

lemmas stays_intros = stays_bind stays_map stays_if stays_when stays_while stays_seq stays_simple stays_mod stays_irq
  stays_read stays_write

lemma stays_rmw: "a \<notin> moving \<Longrightarrow> stays step (rmw E a f)"
  unfolding rmw_def by (intro stays_intros)

lemma stays_serve: "stays step (wdt_serve E)"
  unfolding wdt_serve_def wdt_feed_def mark_served_def stopwatch_elapsed_ms_def stopwatch_scaled_def stopwatch_elapsed_def
    stopwatch_get_def cpu_wdt_reload_def cpu_wdt_get_reload_def cpu_wdt_password_access_def cpu_wdt_modify_access_def
    field_def gpio_toggle_def gpio_get_def gpio_set_def rmw_def
  by (intro stays_intros outside_moving) simp_all

lemma stays_delay: "stays step (stopwatch_usleep_wd E us)"
  unfolding stopwatch_usleep_wd_def stopwatch_deadline_def stopwatch_get_def
  by (intro stays_bind stays_simple stays_while stays_map stays_serve stays_read outside_moving) simp_all

lemma stays_set: "GPIO_PIN gpio \<notin> moving \<Longrightarrow> stays step (gpio_set E gpio v)"
  unfolding gpio_set_def rmw_def by (intro stays_intros)

end

end
