(* ===== verification/Lcd_Spi.thy ===== *)
theory Lcd_Spi
  imports Lcd_Session Lcd_Machine
begin

text \<open>
  The display bridge S1D13732 of the CX75 (\<^verbatim>\<open>src/unit/dif-v1/s1d13732.c\<close>) and the transport to the panel through it
  (\<^verbatim>\<open>src/unit/dif-v1/lcd-transport.c\<close>). Words of 16 bits go to the bridge over a serial interface, with a pin that tells commands
  from data; commands wrap the bytes for the panel, or switch to a stream of words that reach the panel as they are.
\<close>

section \<open>The bridge\<close>

abbreviation (input) S1D13732_WRITE_REGISTER :: u16 where "S1D13732_WRITE_REGISTER \<equiv> 0x0000"
abbreviation (input) S1D13732_READ_REGISTER :: u16 where "S1D13732_READ_REGISTER \<equiv> 0x4000"
abbreviation (input) S1D13732_READ_REGISTER_DATA :: u16 where "S1D13732_READ_REGISTER_DATA \<equiv> 0x8000"
abbreviation (input) S1D13732_DISPLAY_DATA_BYPASS :: u16 where "S1D13732_DISPLAY_DATA_BYPASS \<equiv> 0xD000"
abbreviation (input) S1D13732_DISPLAY_COMMAND :: u16 where "S1D13732_DISPLAY_COMMAND \<equiv> 0x3000"
abbreviation (input) S1D13732_DISPLAY_DATA :: u16 where "S1D13732_DISPLAY_DATA \<equiv> 0x1000"

abbreviation (input) S1D13732_DETECT_PATTERN_C0 :: u8 where "S1D13732_DETECT_PATTERN_C0 \<equiv> 1"
abbreviation (input) S1D13732_DETECT_PATTERN_E0 :: u8 where "S1D13732_DETECT_PATTERN_E0 \<equiv> 2"
abbreviation (input) S1D13732_DETECT_PATTERN_C1 :: u8 where "S1D13732_DETECT_PATTERN_C1 \<equiv> 4"

definition dif_write_only :: "'h env \<Rightarrow> u16 \<Rightarrow> (('h, 'z) machine_scheme, unit) cmd" where
  "dif_write_only E v =
     bindM (wr E DIFV1_TB (ucast v)) (\<lambda>_.
     whileM (fuel E) (mapM (\<lambda>con. con AND DIFV1_CON_BSY \<noteq> 0) (rd E DIFV1_CON)) (retM ()))"

definition dif_exchange :: "'h env \<Rightarrow> u16 \<Rightarrow> (('h, 'z) machine_scheme, u16) cmd" where
  "dif_exchange E v = bindM (dif_write_only E v) (\<lambda>_. mapM ucast (rd E DIFV1_RB))"

definition select_bridge :: "'h env \<Rightarrow> bool \<Rightarrow> (('h, 'z) machine_scheme, unit) cmd" where
  "select_bridge E active = gpio_set E GPIO_CIF_CS (\<not> active)"

definition select_display :: "'h env \<Rightarrow> bool \<Rightarrow> (('h, 'z) machine_scheme, unit) cmd" where
  "select_display E active = gpio_set E GPIO_DISP_CS1 (\<not> active)"

definition set_bridge_command :: "'h env \<Rightarrow> bool \<Rightarrow> (('h, 'z) machine_scheme, unit) cmd" where
  "set_bridge_command E command = gpio_set E GPIO_CIF_RS (\<not> command)"

definition s1d13732_write_command :: "'h env \<Rightarrow> u16 \<Rightarrow> (('h, 'z) machine_scheme, unit) cmd" where
  "s1d13732_write_command E command = seqM [set_bridge_command E True, dif_write_only E command]"

definition s1d13732_read_command :: "'h env \<Rightarrow> u16 \<Rightarrow> (('h, 'z) machine_scheme, u16) cmd" where
  "s1d13732_read_command E command = bindM (set_bridge_command E True) (\<lambda>_. dif_exchange E command)"

definition s1d13732_write_data :: "'h env \<Rightarrow> u16 \<Rightarrow> (('h, 'z) machine_scheme, unit) cmd" where
  "s1d13732_write_data E data = seqM [set_bridge_command E False, dif_write_only E data]"

definition s1d13732_write_display_frame :: "'h env \<Rightarrow> u16 \<Rightarrow> (('h, 'z) machine_scheme, unit) cmd" where
  "s1d13732_write_display_frame E word =
     seqM [select_bridge E False, select_bridge E True, set_bridge_command E True, dif_write_only E word,
           set_bridge_command E False, select_bridge E False]"

definition s1d13732_write_register :: "'h env \<Rightarrow> u16 \<Rightarrow> u16 \<Rightarrow> (('h, 'z) machine_scheme, unit) cmd" where
  "s1d13732_write_register E reg v =
     seqM [select_bridge E True, s1d13732_write_command E S1D13732_WRITE_REGISTER, select_bridge E False,
           select_bridge E True, s1d13732_write_data E reg, select_bridge E False,
           select_bridge E True, s1d13732_write_data E v, select_bridge E False]"

definition s1d13732_read_register :: "'h env \<Rightarrow> u16 \<Rightarrow> (('h, 'z) machine_scheme, u16) cmd" where
  "s1d13732_read_register E reg =
     bindM (seqM [select_bridge E True, s1d13732_write_command E S1D13732_READ_REGISTER, select_bridge E False,
                  select_bridge E True, s1d13732_write_data E reg, select_bridge E False,
                  select_bridge E True, s1d13732_write_data E 0, select_bridge E False,
                  select_bridge E True]) (\<lambda>_.
     bindM (s1d13732_read_command E S1D13732_READ_REGISTER_DATA) (\<lambda>v.
     bindM (select_bridge E False) (\<lambda>_. retM v)))"

definition s1d13732_begin_memory_write16 :: "'h env \<Rightarrow> u32 \<Rightarrow> (('h, 'z) machine_scheme, unit) cmd" where
  "s1d13732_begin_memory_write16 E address =
     seqM [s1d13732_write_register E 0x0024 (ucast (drop_bit 16 address AND 0x0007)),
           s1d13732_write_register E 0x0022 (ucast address AND 0xFFFE),
           select_bridge E True, s1d13732_write_command E S1D13732_WRITE_REGISTER, select_bridge E False,
           select_bridge E True, s1d13732_write_data E 0x0028, select_bridge E False,
           select_bridge E True, set_bridge_command E False]"

definition s1d13732_write_memory_word16 :: "'h env \<Rightarrow> u16 \<Rightarrow> (('h, 'z) machine_scheme, unit) cmd" where
  "s1d13732_write_memory_word16 E data = dif_write_only E data"

definition s1d13732_end_memory_write16 :: "'h env \<Rightarrow> (('h, 'z) machine_scheme, unit) cmd" where
  "s1d13732_end_memory_write16 E = select_bridge E False"

definition s1d13732_write_memory16 :: "'h env \<Rightarrow> u32 \<Rightarrow> u16 list \<Rightarrow> (('h, 'z) machine_scheme, unit) cmd" where
  "s1d13732_write_memory16 E address data =
     (if data = [] then retM () else
      seqM [s1d13732_begin_memory_write16 E address, forM data (s1d13732_write_memory_word16 E), s1d13732_end_memory_write16 E])"

text \<open>The words of a read but the last, which is fetched with the command for the data of a register.\<close>

primrec memory_exchange_loop :: "nat \<Rightarrow> 'h env \<Rightarrow> (('h, 'z) machine_scheme, u16 list) cmd" where
  "memory_exchange_loop 0 E = retM []"
| "memory_exchange_loop (Suc n) E = bindM (dif_exchange E 0x0000) (\<lambda>v. mapM ((#) v) (memory_exchange_loop n E))"

definition s1d13732_read_memory16 :: "'h env \<Rightarrow> u32 \<Rightarrow> nat \<Rightarrow> (('h, 'z) machine_scheme, u16 list) cmd" where
  "s1d13732_read_memory16 E address count =
     (if count = 0 then retM [] else
      bindM (seqM [s1d13732_write_register E 0x0024 (ucast (drop_bit 16 address AND 0x0007)),
                   s1d13732_write_register E 0x0022 (ucast address OR 1),
                   select_bridge E True, s1d13732_write_command E S1D13732_READ_REGISTER, select_bridge E False,
                   select_bridge E True, s1d13732_write_data E 0x0028, select_bridge E False,
                   select_bridge E True, s1d13732_write_data E 0x0000, select_bridge E False]) (\<lambda>_.
      bindM (if count > 1 then
               bindM (seqM [select_bridge E True, set_bridge_command E False]) (\<lambda>_.
               bindM (memory_exchange_loop (count - 1) E) (\<lambda>data.
               bindM (select_bridge E False) (\<lambda>_. retM data)))
             else retM []) (\<lambda>data.
      bindM (select_bridge E True) (\<lambda>_.
      bindM (s1d13732_read_command E S1D13732_READ_REGISTER_DATA) (\<lambda>v.
      bindM (select_bridge E False) (\<lambda>_. retM (data @ [v])))))))"

definition s1d13732_select_display :: "'h env \<Rightarrow> bool \<Rightarrow> (('h, 'z) machine_scheme, unit) cmd" where
  "s1d13732_select_display E active = seqM [select_display E active, gpio_set E GPIO_CLKOUT0 (\<not> active)]"

definition manual_output :: "'h env \<Rightarrow> u32 \<Rightarrow> bool \<Rightarrow> (('h, 'z) machine_scheme, unit) cmd" where
  "manual_output E gpio data = gpio_init_output E gpio GPIO_OS_NONE GPIO_PS_MANUAL data GPIO_PPEN_PUSHPULL GPIO_PDPU_NONE GPIO_ENAQ_OFF"

definition s1d13732_init :: "'h env \<Rightarrow> (('h, 'z) watched_scheme, unit) cmd" where
  "s1d13732_init E = seqM [
     wr E SCU_RTCIF 0xAA,
     wr E RTC_CLC (push_bit MOD_CLC_RMC_SHIFT 1),
     rmw E RTC_CTRL (\<lambda>v. v OR (RTC_CTRL_PU32K OR RTC_CTRL_CLK32KEN)),
     stopwatch_usleep_wd E 1000,
     wr E GPIO_CLC (push_bit MOD_CLC_RMC_SHIFT 1),
     wr E DIFV1_CLC (push_bit MOD_CLC_RMC_SHIFT 1),
     manual_output E GPIO_CIF_RESET False,
     manual_output E GPIO_CIF_RS True,
     manual_output E GPIO_CIF_CS False,
     manual_output E GPIO_DISP_CS1 True,
     manual_output E GPIO_CIF_CS_DISPLAY False,
     manual_output E GPIO_CLKOUT0 True,
     manual_output E GPIO_DISPLAY_RESET False,
     wr E (GPIO_PIN GPIO_CIF_MRST) (GPIO_PS_ALT OR GPIO_IS_ALT3),
     wr E (GPIO_PIN GPIO_CIF_CLK) (GPIO_PS_ALT OR GPIO_OS_ALT0),
     wr E (GPIO_PIN GPIO_CIF_MTSR) (GPIO_PS_ALT OR GPIO_OS_ALT0),
     wr E (GPIO_PIN GPIO_CLK32) (GPIO_PS_ALT OR GPIO_OS_ALT1),
     wr E DIFV1_BR 0,
     wr E DIFV1_CON 0,
     wr E DIFV1_CON (DIFV1_CON_MS_MASTER OR DIFV1_CON_HB_MSB OR DIFV1_CON_PH_1 OR DIFV1_CON_BM_16),
     rmw E DIFV1_CON (\<lambda>v. v OR DIFV1_CON_EN),
     rmw E CGU_CON2 (\<lambda>v. v OR CGU_CON2_CLK32K_EN),
     stopwatch_usleep_wd E 255,
     gpio_set E GPIO_CIF_RESET True,
     stopwatch_usleep_wd E 15,
     gpio_set E GPIO_CIF_RESET False,
     stopwatch_usleep_wd E 255,
     gpio_set E GPIO_CIF_RESET True,
     rmw E CGU_CON2 (\<lambda>v. v AND NOT CGU_CON2_CLK32K_EN),
     s1d13732_write_register E 0x0004 0x00C0]"

definition s1d13732_enable_memory_interface :: "'h env \<Rightarrow> (('h, 'z) watched_scheme, unit) cmd" where
  "s1d13732_enable_memory_interface E =
     (let update = \<lambda>reg f. bindM (s1d13732_read_register E reg) (\<lambda>v. s1d13732_write_register E reg (f v)) in
      seqM [rmw E CGU_CON2 (\<lambda>v. v OR CGU_CON2_CLK32K_EN),
            s1d13732_write_register E 0x0004 0x00C0,
            s1d13732_write_register E 0x0014 0x1211,
            update 0x0014 (\<lambda>v. v AND NOT 0x1000),
            update 0x0180 (\<lambda>v. v OR 0x0800),
            s1d13732_write_register E 0x000C 0x1027,
            s1d13732_write_register E 0x000E 0x1E48,
            s1d13732_write_register E 0x0010 0x0103,
            s1d13732_write_register E 0x0018 0x0000,
            update 0x0014 (\<lambda>v. v OR 0x0001),
            s1d13732_write_register E 0x0012 0x0000,
            stopwatch_usleep_wd E 150000,
            update 0x0014 (\<lambda>v. v AND NOT 0x0001),
            stopwatch_usleep_wd E 25000,
            s1d13732_write_register E 0x0300 0x0003,
            update 0x0110 (\<lambda>v. v AND NOT 0x0001),
            s1d13732_write_register E 0x0114 0x0001,
            s1d13732_write_register E 0x0100 0x0009,
            s1d13732_write_register E 0x0110 0x0409])"

definition s1d13732_reset_display :: "'h env \<Rightarrow> (('h, 'z) watched_scheme, unit) cmd" where
  "s1d13732_reset_display E =
     seqM [gpio_set E GPIO_DISPLAY_RESET True, stopwatch_usleep_wd E 150,
           gpio_set E GPIO_DISPLAY_RESET False, stopwatch_usleep_wd E 150,
           gpio_set E GPIO_DISPLAY_RESET True, stopwatch_usleep_wd E 5000]"

definition s1d13732_write_display_command :: "'h env \<Rightarrow> u8 \<Rightarrow> (('h, 'z) machine_scheme, unit) cmd" where
  "s1d13732_write_display_command E command =
     s1d13732_write_display_frame E (S1D13732_DISPLAY_COMMAND OR push_bit 4 (ucast command))"

definition s1d13732_write_display_data :: "'h env \<Rightarrow> u8 \<Rightarrow> (('h, 'z) machine_scheme, unit) cmd" where
  "s1d13732_write_display_data E data = s1d13732_write_display_frame E (S1D13732_DISPLAY_DATA OR push_bit 4 (ucast data))"

definition s1d13732_begin_display_data_stream :: "'h env \<Rightarrow> (('h, 'z) machine_scheme, unit) cmd" where
  "s1d13732_begin_display_data_stream E = s1d13732_write_display_frame E S1D13732_DISPLAY_DATA_BYPASS"

definition s1d13732_write_display_word :: "'h env \<Rightarrow> u16 \<Rightarrow> (('h, 'z) machine_scheme, unit) cmd" where
  "s1d13732_write_display_word E data = dif_write_only E data"

definition s1d13732_end_display_data_stream :: "'h env \<Rightarrow> (('h, 'z) machine_scheme, unit) cmd" where
  "s1d13732_end_display_data_stream E =
     seqM [set_bridge_command E True, dif_write_only E S1D13732_DISPLAY_DATA_BYPASS, set_bridge_command E False,
           s1d13732_select_display E False, select_bridge E False]"

section \<open>Detection of the panel\<close>

record s1d13732_display_detect_result =
  controller_type :: lcd_controller_type
  sampled_patterns :: u8
  high_patterns :: u8

definition sample_display_detect_pattern :: "'h env \<Rightarrow> s1d13732_display_detect_result \<Rightarrow> u16 \<Rightarrow> u8 \<Rightarrow>
    (('h, 'z) watched_scheme, bool \<times> s1d13732_display_detect_result) cmd" where
  "sample_display_detect_pattern E result data_bus_pattern pattern_bit =
     bindM (seqM [s1d13732_write_register E 0x0060 data_bus_pattern, stopwatch_usleep_wd E 2000]) (\<lambda>_.
     let result = result\<lparr>sampled_patterns := sampled_patterns result OR pattern_bit\<rparr> in
     bindM (gpio_get E GPIO_DISP_CS1) (\<lambda>v.
     if \<not> v then retM (False, result)
     else retM (True, result\<lparr>high_patterns := high_patterns result OR pattern_bit\<rparr>)))"

definition detect_patterns :: "'h env \<Rightarrow> (('h, 'z) watched_scheme, s1d13732_display_detect_result) cmd" where
  "detect_patterns E =
     bindM (sample_display_detect_pattern E
       \<lparr>controller_type = LCD_CONTROLLER_UNKNOWN, sampled_patterns = 0, high_patterns = 0\<rparr> 0x00C0 S1D13732_DETECT_PATTERN_C0)
       (\<lambda>(found, result). if found then retM (result\<lparr>controller_type := LCD_CONTROLLER_SSD1286\<rparr>) else
     bindM (sample_display_detect_pattern E result 0x00E0 S1D13732_DETECT_PATTERN_E0)
       (\<lambda>(found, result). if found then retM (result\<lparr>controller_type := LCD_CONTROLLER_LS020\<rparr>) else
     bindM (sample_display_detect_pattern E result 0x00C1 S1D13732_DETECT_PATTERN_C1)
       (\<lambda>(found, result). if found then retM (result\<lparr>controller_type := LCD_CONTROLLER_PCF8882\<rparr>) else retM result)))"

definition s1d13732_detect_display :: "'h env \<Rightarrow> (('h, 'z) watched_scheme, s1d13732_display_detect_result) cmd" where
  "s1d13732_detect_display E =
     bindM (seqM [gpio_set E GPIO_CIF_CS_DISPLAY True,
                  s1d13732_write_register E 0x0014 0x1211,
                  rmw E (GPIO_PIN GPIO_DISP_CS1) (\<lambda>v. v OR GPIO_ENAQ_TRISTATE),
                  wr E (GPIO_PIN GPIO_DISP_CS1)
                    (GPIO_IS_NONE OR GPIO_PS_MANUAL OR GPIO_DATA_HIGH OR GPIO_DIR_IN OR GPIO_PDPU_NONE OR GPIO_ENAQ_OFF),
                  rmw E CGU_CON2 (\<lambda>v. v OR CGU_CON2_CLK32K_EN),
                  s1d13732_write_register E 0x000C 0x1027,
                  s1d13732_write_register E 0x000E 0x2840,
                  s1d13732_write_register E 0x0010 0x0103,
                  s1d13732_write_register E 0x0018 0x0000,
                  s1d13732_write_register E 0x0012 0x0000,
                  stopwatch_usleep_wd E 25000]) (\<lambda>_.
     bindM (s1d13732_read_register E 0x0014) (\<lambda>saved_interface_config.
     bindM (s1d13732_write_register E 0x0014 0x0000) (\<lambda>_.
     bindM (s1d13732_read_register E 0x0202) (\<lambda>saved_display_detect_config.
     bindM (seqM [s1d13732_write_register E 0x0202 0x0000, s1d13732_write_register E 0x0060 0x00C0]) (\<lambda>_.
     bindM (detect_patterns E) (\<lambda>result.
     bindM (seqM [manual_output E GPIO_DISP_CS1 True,
                  bindM (s1d13732_read_register E 0x003C) (\<lambda>v. s1d13732_write_register E 0x003C v),
                  s1d13732_write_register E 0x0060 0x0000,
                  s1d13732_write_register E 0x0202 saved_display_detect_config,
                  s1d13732_write_register E 0x0014 saved_interface_config,
                  s1d13732_write_register E 0x0012 0x0101,
                  rmw E CGU_CON2 (\<lambda>v. v AND NOT CGU_CON2_CLK32K_EN)]) (\<lambda>_.
     retM result)))))))"

section \<open>The transport\<close>

definition lcd_transport_init_v1 :: "'h env \<Rightarrow> (('h, 'z) watched_scheme, unit) cmd" where
  "lcd_transport_init_v1 E = s1d13732_init E"

definition lcd_transport_reset_controller_v1 :: "'h env \<Rightarrow> (('h, 'z) watched_scheme, unit) cmd" where
  "lcd_transport_reset_controller_v1 E = s1d13732_reset_display E"

definition lcd_transport_sync_parallel_interface_v1 :: "('s, bool) cmd" where
  "lcd_transport_sync_parallel_interface_v1 = retM True"

definition lcd_transport_write_command_v1 :: "'h env \<Rightarrow> u8 \<Rightarrow> (('h, 'z) machine_scheme, bool) cmd" where
  "lcd_transport_write_command_v1 E command =
     bindM (seqM [s1d13732_select_display E True, s1d13732_write_display_command E command]) (\<lambda>_. retM True)"

definition lcd_transport_write_data_v1 :: "'h env \<Rightarrow> u8 list \<Rightarrow> (('h, 'z) machine_scheme, bool) cmd" where
  "lcd_transport_write_data_v1 E data =
     bindM (seqM [s1d13732_select_display E True, forM data (s1d13732_write_display_data E)]) (\<lambda>_. retM True)"

definition lcd_transport_read_data_v1 :: "nat \<Rightarrow> ('s, bool \<times> u8 list) cmd" where
  "lcd_transport_read_data_v1 sz = retM (sz = 0, [])"

definition lcd_transport_begin_data_stream :: "'h env \<Rightarrow> (('h, 'z) machine_scheme, bool) cmd" where
  "lcd_transport_begin_data_stream E =
     bindM (seqM [s1d13732_select_display E True, s1d13732_begin_display_data_stream E]) (\<lambda>_. retM True)"

definition lcd_transport_write_data_word :: "'h env \<Rightarrow> u16 \<Rightarrow> (('h, 'z) machine_scheme, bool) cmd" where
  "lcd_transport_write_data_word E data = bindM (s1d13732_write_display_word E data) (\<lambda>_. retM True)"

definition lcd_transport_end_data_stream :: "'h env \<Rightarrow> (('h, 'z) machine_scheme, bool) cmd" where
  "lcd_transport_end_data_stream E = bindM (s1d13732_end_display_data_stream E) (\<lambda>_. retM True)"

section \<open>What the panel sees\<close>

text \<open>
  The state of the bridge: whether its command pin is active (the pin is low), and whether words bypass it. A word that follows
  a command code of the display reaches the panel as one byte; in the bypass every word of data is two bytes.
\<close>

fun spi_word :: "bool \<times> bool \<Rightarrow> u32 \<Rightarrow> lcd_event list \<times> bool \<times> bool" where
  "spi_word (command, bypass) v =
     (if command then
        (if v AND 0xF000 = 0x3000 then ([Command (ucast (drop_bit 4 v))], command, bypass)
         else if v AND 0xF000 = 0x1000 then ([Data (ucast (drop_bit 4 v))], command, bypass)
         else if v = 0xD000 then ([], command, \<not> bypass)
         else ([], command, bypass))
      else if bypass then ([Data (ucast (drop_bit 8 v)), Data (ucast v)], command, bypass)
      else ([], command, bypass))"

fun spi_step :: "bool \<times> bool \<Rightarrow> access \<Rightarrow> lcd_event list \<times> bool \<times> bool" where
  "spi_step m (Wr w a v) =
     (if a = GPIO_PIN GPIO_CIF_RS then ([], \<not> bit v 9, snd m)
      else if a = DIFV1_TB then spi_word m v
      else ([], m))"
| "spi_step m _ = ([], m)"

text \<open>A run as a whole starts and ends outside of the bypass.\<close>

definition spi_sees :: "access list \<Rightarrow> lcd_event list \<Rightarrow> bool" where
  "spi_sees tr es \<longleftrightarrow> (\<forall>c. \<exists>c'. machine_run spi_step tr (c, False) = (es, c', False))"

interpretation spi: wire spi_sees
proof
  show "spi_sees [] []" by (simp add: spi_sees_def)
  show "spi_sees (tr @ us) (es @ fs)" if t: "spi_sees tr es" and u: "spi_sees us fs" for tr es us fs
    unfolding spi_sees_def
  proof
    fix c
    obtain c' where "machine_run spi_step tr (c, False) = (es, c', False)" using t unfolding spi_sees_def by blast
    moreover obtain c'' where "machine_run spi_step us (c', False) = (fs, c'', False)" using u unfolding spi_sees_def by blast
    ultimately show "\<exists>c'. machine_run spi_step (tr @ us) (c, False) = (es @ fs, c', False)" by (simp add: machine_run_append chained_def)
  qed
qed

interpretation spi_machine: bus_machine spi_step "{GPIO_PIN GPIO_CIF_RS, DIFV1_TB}"
  by unfold_locales simp_all

abbreviation steers :: "(('h, 'z) machine_scheme, 'a) cmd \<Rightarrow> 'a \<Rightarrow> (bool \<times> bool \<Rightarrow> lcd_event list \<times> bool \<times> bool) \<Rightarrow> bool" where
  "steers \<equiv> drives spi_step"

abbreviation rests :: "(('h, 'z) machine_scheme, 'a) cmd \<Rightarrow> bool" where
  "rests \<equiv> stays spi_step"

lemma rests_read: "rests (mmio_read w E a)"
  by (rule any.in_read) (simp add: machine_run_single)

section \<open>What the functions of the bridge do\<close>

lemma steers_rs_write:
  assumes "\<And>x. bit (f x) 9 = (\<not> c)"
  shows "talks (rmw E (GPIO_PIN GPIO_CIF_RS) f) (\<lambda>_ tr. machine_run spi_step tr = (\<lambda>m. ([], c, snd m)))"
  unfolding rmw_def
  by (rule any.in_bind [OF rests_read], rule any.in_write) (simp add: machine_run_append machine_run_single assms)

lemma data_high_bit: "bit (x OR GPIO_DATA_HIGH) 9" "\<not> bit (x AND NOT GPIO_DATA_HIGH) 9"
  by (simp_all only: bit_or_iff bit_and_iff bit_not_iff) simp_all

lemma steers_rs: "steers (set_bridge_command E b) () (\<lambda>m. ([], b, snd m))"
  unfolding drives_def set_bridge_command_def gpio_set_def
  by (rule any.in_if; rule logs_in_mono [OF steers_rs_write [where c = b]])
     (simp_all only: data_high_bit simp_thms unit_eq)

lemma steers_word: "steers (dif_write_only E v) () (\<lambda>m. spi_word m (ucast v))"
  unfolding dif_write_only_def
proof (rule drives_cong [OF drives_bind [OF _ stays_drives]])
  show "steers (wr E DIFV1_TB (ucast v)) () (\<lambda>m. spi_word m (ucast v))"
    unfolding drives_def by (rule any.in_write) (simp add: machine_run_single fun_eq_iff)
  show "rests (whileM (fuel E) (mapM (\<lambda>con. con AND DIFV1_CON_BSY \<noteq> 0) (rd E DIFV1_CON)) (retM ()))"
    by (intro stays_bind stays_while stays_map stays_simple rests_read)
qed simp

lemma steers_select: "steers (select_bridge E b) () unmoved" "steers (s1d13732_select_display E b) () unmoved"
  unfolding select_bridge_def s1d13732_select_display_def select_display_def
  by (intro stays_drives stays_seq spi_machine.stays_set; simp)+

lemma steers_frame:
  "steers (s1d13732_write_display_frame E w) () (\<lambda>m. case spi_word (True, snd m) (ucast w) of (es, m') \<Rightarrow> (es, False, snd m'))"
  unfolding s1d13732_write_display_frame_def
  by (rule drives_cong, (rule drives_seq steers_select steers_rs steers_word)+)
     (auto simp: fun_eq_iff chained_def split: prod.splits)

lemma frame_above: "(ucast (push_bit 4 (ucast (c :: u8)) :: u16) :: u32) AND push_bit 12 y = 0"
  by (rule bit_word_eqI) (auto simp: pixel_bits dest: bit_imp_le_length)

lemma frame_low: "(ucast (push_bit 4 (ucast (c :: u8)) :: u16) :: u32) AND 0xF000 = 0"
  using frame_above [where c = c and y = "0xF"] by simp

lemma frame_high: "(0x300 :: u8) = 0" "(0x100 :: u8) = 0"
  by simp_all

lemma frame_byte: "ucast (drop_bit 4 (ucast (k OR push_bit 4 (ucast (c :: u8)) :: u16) :: u32)) = (ucast (drop_bit 4 k) :: u8) OR c"
  by (rule bit_word_eqI) (auto simp: pixel_bits)

lemma frame_code: "(ucast (k OR push_bit 4 (ucast (c :: u8)) :: u16) :: u32) AND 0xF000 = ucast k AND 0xF000"
proof -
  have "(ucast (k OR push_bit 4 (ucast c) :: u16) :: u32) = ucast k OR ucast (push_bit 4 (ucast c) :: u16)"
    by (rule bit_word_eqI) (auto simp: pixel_bits)
  then show ?thesis by (simp add: bit.conj_disj_distrib2 frame_low)
qed

lemma steers_display_byte:
  "steers (s1d13732_write_display_command E c) () (\<lambda>m. ([Command c], False, snd m))"
  "steers (s1d13732_write_display_data E c) () (\<lambda>m. ([Data c], False, snd m))"
  unfolding s1d13732_write_display_command_def s1d13732_write_display_data_def
  by (rule drives_cong [OF steers_frame], simp add: fun_eq_iff frame_code frame_byte frame_high split: prod.splits)+

section \<open>The contract of the transport\<close>

lemma steers_then: "steers c () F \<Longrightarrow> steers (bindM c (\<lambda>_. retM True)) True F"
  by (rule drives_cong [OF drives_bind [OF _ drives_ret]]) simp_all

lemma steers_and: "steers c True F \<Longrightarrow> steers d y G \<Longrightarrow> steers (andM c d) y (chained F G)"
  unfolding andM_def by (erule drives_bind) simp

lemma foldr_bytes:
  "foldr (\<lambda>x. chained (\<lambda>m. ([Data x], False, snd m))) bs unmoved = (\<lambda>m. (map Data bs, if bs = [] then m else (False, snd m)))"
  by (induction bs) (auto simp: fun_eq_iff chained_def)

lemma steers_write_command: "steers (lcd_transport_write_command_v1 E c) True (\<lambda>m. ([Command c], False, snd m))"
  unfolding lcd_transport_write_command_v1_def
  by (rule steers_then, rule drives_cong, (rule drives_seq steers_select steers_display_byte)+) (simp add: fun_eq_iff)

lemma steers_write_data: "steers (lcd_transport_write_data_v1 E bs) True (\<lambda>m. (map Data bs, if bs = [] then m else (False, snd m)))"
  unfolding lcd_transport_write_data_v1_def
  by (rule steers_then, rule drives_cong, (rule drives_seq steers_select drives_for steers_display_byte)+)
     (simp add: foldr_bytes)

lemma steers_begin: "steers (lcd_transport_begin_data_stream E) True (\<lambda>m. ([], False, \<not> snd m))"
  unfolding lcd_transport_begin_data_stream_def s1d13732_begin_display_data_stream_def
  by (rule steers_then, rule drives_cong, (rule drives_seq steers_select steers_frame)+) (simp add: fun_eq_iff)

lemma steers_end: "steers (lcd_transport_end_data_stream E) True (\<lambda>m. ([], False, \<not> snd m))"
  unfolding lcd_transport_end_data_stream_def s1d13732_end_display_data_stream_def
  by (rule steers_then, rule drives_cong, (rule drives_seq steers_select steers_rs steers_word)+)
     (simp add: fun_eq_iff chained_def)

lemma steers_data_word: "steers (lcd_transport_write_data_word E w) True (\<lambda>m. spi_word m (ucast w))"
  unfolding lcd_transport_write_data_word_def s1d13732_write_display_word_def by (rule steers_then [OF steers_word])

text \<open>The loop over the words of a stream that the drivers share; it ends at the first word that fails.\<close>

primrec lcd_stream_loop :: "'h env \<Rightarrow> u16 list \<Rightarrow> (('h, 'z) machine_scheme, bool) cmd" where
  "lcd_stream_loop E [] = retM True"
| "lcd_stream_loop E (w # ws) = andM (lcd_transport_write_data_word E w) (lcd_stream_loop E ws)"

definition lcd_stream :: "'h env \<Rightarrow> u8 \<Rightarrow> u16 list \<Rightarrow> (('h, 'z) machine_scheme, bool) cmd" where
  "lcd_stream E command ws =
     andM (andM (lcd_transport_write_command_v1 E command) (lcd_transport_begin_data_stream E))
       (bindM (lcd_stream_loop E ws) (\<lambda>success. mapM (\<lambda>ok. ok \<and> success) (lcd_transport_end_data_stream E)))"

lemma word_halves: "ucast (drop_bit 8 (ucast (w :: u16) :: u32)) = (ucast (drop_bit 8 w) :: u8)" "ucast (ucast w :: u32) = (ucast w :: u8)"
  by (rule bit_word_eqI, simp add: pixel_bits)+

lemma steers_stream_loop: "steers (lcd_stream_loop E ws) True (foldr (\<lambda>w. chained (\<lambda>m. spi_word m (ucast w))) ws unmoved)"
  by (induction ws) (auto intro: drives_ret steers_and steers_data_word)

lemma stream_words:
  "foldr (\<lambda>w. chained (\<lambda>m. spi_word m (ucast w))) ws unmoved (False, True) = (map Data (concat (map word_be ws)), False, True)"
  by (induction ws) (simp_all add: chained_def word_be_def word_halves)

context watched_observer
begin

lemma same_for: "(\<And>x. same (f x)) \<Longrightarrow> same (forM xs f)"
  by (induction xs) (auto intro: same_simple same_bind)

lemma same_word: "same (dif_write_only E v)"
  unfolding dif_write_only_def by (intro same_intros)

lemma same_frame: "same (s1d13732_write_display_frame E w)"
  unfolding s1d13732_write_display_frame_def select_bridge_def set_bridge_command_def gpio_set_def rmw_def
  by (intro same_intros same_word)

lemma same_display: "same (s1d13732_select_display E b)"
  unfolding s1d13732_select_display_def select_display_def gpio_set_def rmw_def by (intro same_intros)

lemma same_spi:
  "same (lcd_transport_write_command_v1 E c)" "same (lcd_transport_write_data_v1 E bs)"
  "same (lcd_transport_begin_data_stream E)" "same (lcd_transport_write_data_word E w)"
  unfolding lcd_transport_write_command_v1_def lcd_transport_write_data_v1_def lcd_transport_begin_data_stream_def
    lcd_transport_write_data_word_def s1d13732_write_display_command_def s1d13732_write_display_data_def
    s1d13732_begin_display_data_stream_def s1d13732_write_display_word_def
  by (intro same_intros same_for same_frame same_display same_word)+

lemma same_stream: "same (lcd_stream E c ws)"
proof -
  have "same (lcd_stream_loop E ws)" by (induction ws) (auto simp: andM_def intro!: same_intros same_spi)
  then show ?thesis
    unfolding lcd_stream_def andM_def lcd_transport_end_data_stream_def s1d13732_end_display_data_stream_def
      set_bridge_command_def select_bridge_def gpio_set_def rmw_def
    by (intro same_intros same_spi same_word same_display)
qed

end

lemma draws_steers:
  assumes "steers c x F" "statics.same c" "\<And>k. \<exists>k'. F (k, False) = (es, k', False)" "\<And>a. Q x es a a"
  shows "draws spi_sees c Q"
  unfolding draws_def
  by (rule does_mono [OF does_conj [OF does_talks [OF assms(1) [unfolded drives_def]] assms(2)]])
     (use assms(3,4) in \<open>auto simp: spi_sees_def\<close>)

lemma draws_rests:
  "rests c \<Longrightarrow> statics.same c \<Longrightarrow> draws spi_sees c (\<lambda>_ es a b. es = [] \<and> b = a)"
  unfolding draws_def by (drule does_talks, drule (1) does_conj, erule does_mono) (auto simp: spi_sees_def)

interpretation spi: lcd_transport spi_sees "lcd_transport_write_command_v1 E" "lcd_transport_write_data_v1 E" lcd_transport_read_data_v1
  "stopwatch_usleep_wd E" for E
proof unfold_locales
  show "draws spi_sees (lcd_transport_write_command_v1 E c) (\<lambda>ok es a b. b = a \<and> (ok \<longrightarrow> es = [Command c]))" for c
    by (rule draws_steers [OF steers_write_command statics.same_spi(1)]) auto
  show "draws spi_sees (lcd_transport_write_data_v1 E bs) (\<lambda>ok es a b. b = a \<and> (ok \<longrightarrow> es = map Data bs))" for bs
    by (rule draws_steers [OF steers_write_data statics.same_spi(2)]) auto
  show "draws spi_sees (lcd_transport_read_data_v1 n)
      (\<lambda>r es a b. b = a \<and> (fst r \<longrightarrow> es = map Received (snd r) \<and> length (snd r) = n))" for n
    unfolding lcd_transport_read_data_v1_def by (rule spi.draws_ret) simp
  show "draws spi_sees (stopwatch_usleep_wd E us) (\<lambda>_ es a b. es = [] \<and> b = a)" for us
    by (rule draws_rests [OF spi_machine.stays_delay statics.same_usleep_wd])
qed

lemma sends_stream: "sends spi_sees (lcd_stream E c ws) (emit ([Command c] @ map Data (concat (map word_be ws))))"
proof -
  have loop: "steers (bindM (lcd_stream_loop E ws) (\<lambda>success. mapM (\<lambda>ok. ok \<and> success) (lcd_transport_end_data_stream E))) True
      (chained (foldr (\<lambda>w. chained (\<lambda>m. spi_word m (ucast w))) ws unmoved) (\<lambda>m. ([], False, \<not> snd m)))" for E :: "'a env"
    by (rule drives_bind [OF steers_stream_loop])
       (use steers_end in \<open>auto simp: drives_def intro!: any.in_map elim!: logs_in_mono\<close>)
  show ?thesis
    unfolding sends_def lcd_stream_def
    by (rule draws_steers [OF steers_and [OF steers_and [OF steers_write_command steers_begin] loop] statics.same_stream [unfolded lcd_stream_def]])
       (auto simp: chained_def stream_words emit_def)
qed

lemma pixel_words: "concat (map (word_be \<circ> pixel565) cs) = concat (map (pixel_bytes LCD_PIXEL_FORMAT_RGB565) cs)"
  by (induction cs) (simp_all add: pixel_bytes_def)

text \<open>On a serial interface that is never busy everything is accepted.\<close>

definition ready_spi :: "'h env \<Rightarrow> bool" where
  "ready_spi E \<longleftrightarrow> fuel E \<noteq> 0 \<and> (\<forall>h. fst (dev_read E W32 DIFV1_CON h) AND DIFV1_CON_BSY = 0)"

lemma wp_word_ready:
  assumes "ready_spi E" "\<And>t. Q () t"
  shows "wpM (dif_write_only E v) Q s"
proof -
  have r: "x AND DIFV1_CON_BSY = 0" if "dev_read E W32 DIFV1_CON h = (x, h')" for h x h'
    using assms(1) that unfolding ready_spi_def by (metis fst_conv)
  obtain n where n: "fuel E = Suc n" using assms(1) unfolding ready_spi_def by (cases "fuel E") auto
  show ?thesis
    unfolding dif_write_only_def n by (auto simp: wp assms(2) dest: r split: prod.splits)
qed

lemma wp_gpio_any: "(\<And>t. Q () t) \<Longrightarrow> wpM (gpio_set E gpio b) Q s"
  by (auto simp: gpio_set_def rmw_def wp split: prod.splits)

lemma wp_frame_ready: "ready_spi E \<Longrightarrow> (\<And>t. Q () t) \<Longrightarrow> wpM (s1d13732_write_display_frame E w) Q s"
  unfolding s1d13732_write_display_frame_def select_bridge_def set_bridge_command_def
  by (auto simp: wp intro!: wp_gpio_any wp_word_ready)

lemma wp_select_any: "(\<And>t. Q () t) \<Longrightarrow> wpM (s1d13732_select_display E b) Q s"
  unfolding s1d13732_select_display_def select_display_def by (auto simp: wp intro!: wp_gpio_any)

lemma wp_spi_data_ready: "ready_spi E \<Longrightarrow> (\<And>t. Q True t) \<Longrightarrow> wpM (lcd_transport_write_data_v1 E bs) Q s"
proof -
  assume r: "ready_spi E" and q: "\<And>t. Q True t"
  have "wpM (forM bs (s1d13732_write_display_data E)) (\<lambda>_. Q True) t" for t
    by (induction bs arbitrary: t) (auto simp: wp s1d13732_write_display_data_def q intro!: wp_frame_ready r)
  then show ?thesis
    unfolding lcd_transport_write_data_v1_def by (auto simp: wp intro!: wp_select_any)
qed

lemma wp_spi_command_ready: "ready_spi E \<Longrightarrow> (\<And>t. Q True t) \<Longrightarrow> wpM (lcd_transport_write_command_v1 E c) Q s"
  unfolding lcd_transport_write_command_v1_def s1d13732_write_display_command_def
  by (auto simp: wp intro!: wp_select_any wp_frame_ready)

lemma wp_stream_ready: "ready_spi E \<Longrightarrow> (\<And>t. Q True t) \<Longrightarrow> wpM (lcd_stream E c ws) Q s"
proof -
  assume r: "ready_spi E" and q: "\<And>t. Q True t"
  have loop: "wpM (lcd_stream_loop E ws) R t" if "\<And>u. R True u" for R t
    using that by (induction ws arbitrary: t)
      (auto simp: wp andM_def lcd_transport_write_data_word_def s1d13732_write_display_word_def intro!: wp_word_ready r)
  show ?thesis
    unfolding lcd_stream_def lcd_transport_begin_data_stream_def lcd_transport_end_data_stream_def
      s1d13732_begin_display_data_stream_def s1d13732_end_display_data_stream_def select_bridge_def set_bridge_command_def
    by (intro wp_and_ready)
       (auto simp: wp q r intro!: wp_spi_command_ready wp_select_any wp_frame_ready wp_gpio_any wp_word_ready loop)
qed

end
