(* ===== verification/Lcd_Pcf.thy ===== *)
theory Lcd_Pcf
  imports Lcd_Spi Lcd_Command_Panel
begin

text \<open>
  The driver of the PCF8882 panel (\<^verbatim>\<open>src/unit/lcd/pcf8882.c\<close>), which is connected through the bridge of the CX75 and cannot be
  read. Pixels are sent as a stream of words.
\<close>

section \<open>Definitions\<close>

abbreviation (input) PCF8882_CMD_VENDOR_C9 :: u8 where "PCF8882_CMD_VENDOR_C9 \<equiv> 0xC9"
abbreviation (input) PCF8882_CMD_VENDOR_D2 :: u8 where "PCF8882_CMD_VENDOR_D2 \<equiv> 0xD2"
abbreviation (input) PCF8882_CMD_VENDOR_D6 :: u8 where "PCF8882_CMD_VENDOR_D6 \<equiv> 0xD6"
abbreviation (input) PCF8882_WIDTH :: u16 where "PCF8882_WIDTH \<equiv> 132"
abbreviation (input) PCF8882_HEIGHT :: u16 where "PCF8882_HEIGHT \<equiv> 176"

definition pcf8882_write_command_data :: "'h env \<Rightarrow> u8 \<Rightarrow> u8 list \<Rightarrow> (('h, 'z) machine_scheme, bool) cmd" where
  "pcf8882_write_command_data E command data =
     andM (lcd_transport_write_command_v1 E command) (lcd_transport_write_data_v1 E data)"

definition pcf8882_set_pixel_format :: "'h env \<Rightarrow> lcd_pixel_format \<Rightarrow> (('h, 'z) machine_scheme, bool) cmd" where
  "pcf8882_set_pixel_format E fmt =
     (if fmt \<noteq> LCD_PIXEL_FORMAT_RGB565 then retM False
      else pcf8882_write_command_data E PCF8882_COLMOD [PCF8882_COLMOD_P_PIXEL_16_BIT])"

definition pcf8882_madctl :: "lcd_address_mode \<Rightarrow> u8" where
  "pcf8882_madctl mode =
     (if reverse_y mode then PCF8882_MADCTL_MY_MIRRORED else 0) OR
     (if reverse_x mode then PCF8882_MADCTL_MX_MIRRORED else 0) OR
     (if swap_axes mode then PCF8882_MADCTL_V_WRITE_Y else 0) OR
     (if bgr mode then PCF8882_MADCTL_RGB_BGR_ORDER else 0)"

definition pcf8882_set_address_mode :: "'h env \<Rightarrow> lcd_address_mode \<Rightarrow> (('h, 'z) machine_scheme, bool) cmd" where
  "pcf8882_set_address_mode E mode = pcf8882_write_command_data E PCF8882_MADCTL [pcf8882_madctl mode]"

definition pcf8882_set_window :: "'h env \<Rightarrow> u16 \<Rightarrow> u16 \<Rightarrow> u16 \<Rightarrow> u16 \<Rightarrow> (('h, 'z) machine_scheme, bool) cmd" where
  "pcf8882_set_window E x_start x_end y_start y_end =
     (if x_end \<ge> PCF8882_WIDTH \<or> y_end \<ge> PCF8882_HEIGHT then retM False else
      let columns = [ucast x_start, ucast x_end]; pages = [ucast y_start, ucast y_end] in
      andM (pcf8882_write_command_data E PCF8882_CASET columns) (pcf8882_write_command_data E PCF8882_PASET pages))"

definition pcf8882_write_pixels :: "'h env \<Rightarrow> lcd_color list \<Rightarrow> (('h, 'z) machine_scheme, bool) cmd" where
  "pcf8882_write_pixels E colors = lcd_stream E PCF8882_RAMWR (map pixel565 colors)"

definition pcf8882_quantize_color :: "lcd_pixel_format \<Rightarrow> lcd_color \<Rightarrow> lcd_color" where
  "pcf8882_quantize_color fmt c =
     c\<lparr>red := (red c AND 0x3E) OR drop_bit 5 (red c), blue := (blue c AND 0x3E) OR drop_bit 5 (blue c)\<rparr>"

text \<open>One row of white pixels, and all the rows; after every row the watchdog is served.\<close>

primrec pcf8882_clear_row :: "nat \<Rightarrow> 'h env \<Rightarrow> (('h, 'z) machine_scheme, bool) cmd" where
  "pcf8882_clear_row 0 E = retM True"
| "pcf8882_clear_row (Suc n) E = andM (lcd_transport_write_data_v1 E [0xFF, 0xFF, 0xFF]) (pcf8882_clear_row n E)"

primrec pcf8882_clear_rows :: "nat \<Rightarrow> 'h env \<Rightarrow> (('h, 'z) watched_scheme, bool) cmd" where
  "pcf8882_clear_rows 0 E = retM True"
| "pcf8882_clear_rows (Suc n) E =
     bindM (pcf8882_clear_row (unat PCF8882_WIDTH) E) (\<lambda>success.
     bindM (test_watchdog_serve E) (\<lambda>_. if success then pcf8882_clear_rows n E else retM False))"

definition pcf8882_initialize :: "'h env \<Rightarrow> (('h, 'z) watched_scheme, bool) cmd" where
  "pcf8882_initialize E =
     bindM (andM (pcf8882_write_command_data E PCF8882_CMD_VENDOR_D2 [0])
       (andM (pcf8882_write_command_data E PCF8882_CMD_VENDOR_C9 [0])
       (andM (pcf8882_write_command_data E PCF8882_CMD_VENDOR_D6 [0])
         (lcd_transport_write_command_v1 E PCF8882_RAMWR)))) (\<lambda>success.
     bindM (if success then pcf8882_clear_rows (unat PCF8882_HEIGHT) E else retM False) (\<lambda>success.
     bindM (if success then andM (pcf8882_write_command_data E PCF8882_GAMSET [4]) (lcd_transport_write_command_v1 E PCF8882_SLPOUT)
            else retM False) (\<lambda>success.
     bindM (stopwatch_usleep_wd E 270000) (\<lambda>_.
     bindM (if success then pcf8882_write_command_data E PCF8882_CMD_VENDOR_D2 [1] else retM False) (\<lambda>success.
     bindM (stopwatch_usleep_wd E 30000) (\<lambda>_.
     bindM (if success then lcd_transport_write_command_v1 E PCF8882_DISPON else retM False) (\<lambda>success.
     if success then
       andM (pcf8882_set_pixel_format E LCD_PIXEL_FORMAT_RGB565)
         (andM (pcf8882_set_address_mode E DEFAULT_MODE)
           (pcf8882_set_window E 0 (PCF8882_WIDTH - 1) 0 (PCF8882_HEIGHT - 1)))
     else retM False)))))))"

text \<open>The answers to the three commands that are asked one after the other.\<close>

primrec pcf8882_read_ids :: "'h env \<Rightarrow> u8 list \<Rightarrow> u8 list list \<Rightarrow> (('h, 'z) machine_scheme, bool \<times> u8 list list) cmd" where
  "pcf8882_read_ids E [] separate = retM (True, separate)"
| "pcf8882_read_ids E (c # cs) separate =
     bindM (lcd_transport_write_command_v1 E c) (\<lambda>ok. if \<not> ok then retM (False, separate) else
     bindM (lcd_transport_read_data_v1 2) (\<lambda>(ok, d). if \<not> ok then retM (False, separate) else
     pcf8882_read_ids E cs (separate @ [d])))"

definition pcf8882_probe :: "'h env \<Rightarrow> formatter \<Rightarrow> (('h, 'z) machine_scheme, bool \<times> u32 option) cmd" where
  "pcf8882_probe E F =
     bindM (lcd_transport_write_command_v1 E PCF8882_RDDIDIF) (\<lambda>ok. if \<not> ok then retM (False, None) else
     bindM (lcd_transport_read_data_v1 4) (\<lambda>(ok, combined). if \<not> ok then retM (False, None) else
     bindM (pcf8882_read_ids E [PCF8882_RDID1, PCF8882_RDID2, PCF8882_RDID3] []) (\<lambda>(ok, separate). if \<not> ok then retM (False, None) else
     bindM (printf E F ''# PCF8882 ID raw: 04=%02X %02X %02X %02X DA=%02X %02X DB=%02X %02X DC=%02X %02X\<newline>''
       (map (\<lambda>b. Num (ucast b)) (combined @ concat separate))) (\<lambda>_.
     if combined ! 1 = 0x45 \<or> separate ! 0 ! 1 = 0x45 then retM (True, Some 0x8882)
     else retM (False, Some (push_bit 16 (ucast (combined ! 1)) OR push_bit 8 (ucast (combined ! 2)) OR ucast (combined ! 3)))))))"

definition lcd_controller_pcf8882 :: "'h env \<Rightarrow> formatter \<Rightarrow> ('h, 'z) lcd_controller" where
  "lcd_controller_pcf8882 E F = \<lparr>
     lcd_name = ''PCF8882'',
     lcd_type = LCD_CONTROLLER_PCF8882,
     lcd_id = 0x8882,
     lcd_width = PCF8882_WIDTH,
     lcd_height = PCF8882_HEIGHT,
     pixel_formats = BIT (format_number LCD_PIXEL_FORMAT_RGB565),
     reset_settle_ms = 0,
     gram_write_command = [PCF8882_RAMWR],
     gram_read_command = [],
     rgb565_read_dummy_bytes = 0,
     swap_axes_changes_gram_order = True,
     reverse_x_mirrors_coordinates = True,
     reverse_y_mirrors_coordinates = True,
     matches_id = None,
     probe = pcf8882_probe E F,
     initialize = pcf8882_initialize E,
     quantize_color = pcf8882_quantize_color,
     set_pixel_format = pcf8882_set_pixel_format E,
     set_address_mode = pcf8882_set_address_mode E,
     set_window = pcf8882_set_window E,
     set_cursor = None,
     write_pixels = pcf8882_write_pixels E,
     read_pixels = None\<rparr>"

section \<open>What the driver sends\<close>

lemma sends_pcf_params: "sends spi_sees (pcf8882_write_command_data E c bs) (emit (command_events c bs))"
  unfolding pcf8882_write_command_data_def command_events_def by (rule spi.sends_command_data)

lemma sends_pcf_format:
  "sends spi_sees (pcf8882_set_pixel_format E fmt) (\<lambda>a. if fmt = LCD_PIXEL_FORMAT_RGB565
     then Some (command_events PCF8882_COLMOD [PCF8882_COLMOD_P_PIXEL_16_BIT], a) else None)"
  unfolding pcf8882_set_pixel_format_def
  by (rule sends_cong, (rule spi.sends_if spi.sends_ret sends_pcf_params)+) (simp add: emit_def)

lemma sends_pcf_mode: "sends spi_sees (pcf8882_set_address_mode E mode) (emit (command_events PCF8882_MADCTL [pcf8882_madctl mode]))"
  unfolding pcf8882_set_address_mode_def by (rule sends_pcf_params)

lemma sends_pcf_window:
  "sends spi_sees (pcf8882_set_window E x_start x_end y_start y_end) (\<lambda>a. if x_end < PCF8882_WIDTH \<and> y_end < PCF8882_HEIGHT
     then Some (command_events PCF8882_CASET [ucast x_start, ucast x_end] @ command_events PCF8882_PASET [ucast y_start, ucast y_end], a)
     else None)"
  unfolding pcf8882_set_window_def Let_def
  by (rule sends_cong, (rule spi.sends_if spi.sends_and spi.sends_ret sends_pcf_params)+) (auto simp: emit_def)

definition pcf8882_white :: "nat \<Rightarrow> u8 list" where
  "pcf8882_white n = concat (replicate n [0xFF, 0xFF, 0xFF])"

lemma sends_clear_row: "sends spi_sees (pcf8882_clear_row n E) (emit (map Data (pcf8882_white n)))"
proof (induction n)
  case (Suc n)
  show ?case
    unfolding pcf8882_clear_row.simps
    by (rule sends_cong [OF spi.sends_and [OF spi.sends_data Suc]]) (simp add: emit_def pcf8882_white_def)
qed (simp add: pcf8882_white_def spi.sends_ret)

lemma draws_serve: "draws spi_sees (test_watchdog_serve E) (\<lambda>_ es a b. es = [] \<and> b = a)"
  unfolding test_watchdog_serve_def by (rule draws_rests [OF spi_machine.stays_serve statics.same_wdt_serve])

lemma sends_clear_rows: "sends spi_sees (pcf8882_clear_rows n E) (emit (map Data (concat (replicate n (pcf8882_white 132)))))"
proof (induction n)
  case (Suc n)
  show ?case
    unfolding pcf8882_clear_rows.simps
    by (rule sends_cong, ((simp only: if_True if_False)?, rule spi.sends_bind [OF sends_clear_row] spi.sends_after [OF draws_serve]
          Suc spi.sends_failed)+) (simp add: emit_def)
qed (simp add: spi.sends_ret)

text \<open>The commands of the initialisation, in order.\<close>

definition pcf8882_script :: "lcd_event list" where
  "pcf8882_script =
     command_events PCF8882_CMD_VENDOR_D2 [0] @ command_events PCF8882_CMD_VENDOR_C9 [0] @ command_events PCF8882_CMD_VENDOR_D6 [0] @
     command_events PCF8882_RAMWR (concat (replicate 176 (pcf8882_white 132))) @
     command_events PCF8882_GAMSET [4] @ [Command PCF8882_SLPOUT] @ command_events PCF8882_CMD_VENDOR_D2 [1] @
     [Command PCF8882_DISPON] @ command_events PCF8882_COLMOD [PCF8882_COLMOD_P_PIXEL_16_BIT] @
     command_events PCF8882_MADCTL [pcf8882_madctl DEFAULT_MODE] @
     command_events PCF8882_CASET [0, 131] @ command_events PCF8882_PASET [0, 175]"

lemma sends_pcf_initialize: "sends spi_sees (pcf8882_initialize E) (emit pcf8882_script)"
  unfolding pcf8882_initialize_def pcf8882_script_def
  by (rule sends_cong, ((simp only: if_True if_False bindM_ret)?, rule spi.sends_failed spi.sends_delay spi.sends_bind spi.sends_and
        sends_pcf_params sends_clear_rows spi.sends_command sends_pcf_format sends_pcf_mode sends_pcf_window)+)
     (simp add: follows_def emit_def command_events_def)

lemma sends_pcf_pixels:
  "sends spi_sees (pcf8882_write_pixels E colors)
     (emit (command_events PCF8882_RAMWR (concat (map (pixel_bytes LCD_PIXEL_FORMAT_RGB565) colors))))"
  unfolding pcf8882_write_pixels_def
  by (rule sends_cong [OF sends_stream]) (simp add: command_events_def pixel_words emit_def)

section \<open>The panel follows the requests\<close>

definition pcf8882_accepts :: "lcd_request \<Rightarrow> bool" where
  "pcf8882_accepts r \<longleftrightarrow> (case r of
       Set_Format fmt \<Rightarrow> fmt = LCD_PIXEL_FORMAT_RGB565
     | Set_Window x_start x_end y_start y_end \<Rightarrow> x_end < PCF8882_WIDTH \<and> y_end < PCF8882_HEIGHT
     | Set_Cursor x y \<Rightarrow> False | Read_Pixels n \<Rightarrow> False | _ \<Rightarrow> True)"

definition pcf8882_encodes :: "lcd_statics \<Rightarrow> display \<Rightarrow> command_panel \<Rightarrow> bool" where
  "pcf8882_encodes a d p \<longleftrightarrow> display_format d = LCD_PIXEL_FORMAT_RGB565 \<and>
     params p PCF8882_COLMOD = [PCF8882_COLMOD_P_PIXEL_16_BIT] \<and>
     params p PCF8882_MADCTL = [pcf8882_madctl (display_mode d)] \<and>
     (\<exists>x_start x_end y_start y_end. display_window d = Some (x_start, x_end, y_start, y_end) \<and>
        x_end < PCF8882_WIDTH \<and> y_end < PCF8882_HEIGHT \<and>
        params p PCF8882_CASET = [ucast x_start, ucast x_end] \<and> params p PCF8882_PASET = [ucast y_start, ucast y_end]) \<and>
     suffix (memory d) (frame p)"

definition pcf8882_display :: display where
  "pcf8882_display = \<lparr>display_format = LCD_PIXEL_FORMAT_RGB565, display_mode = DEFAULT_MODE,
     display_window = Some (0, 131, 0, 175), display_cursor = Some (0, 0), memory = []\<rparr>"

lemma pcf8882_initial: "pcf8882_encodes a pcf8882_display (command_run PCF8882_RAMWR p pcf8882_script)"
  unfolding pcf8882_script_def
  by (simp add: command_panel pcf8882_encodes_def pcf8882_display_def del: append.simps)

lemma pcf8882_perform_encodes:
  "draws spi_sees (lcd_perform (lcd_controller_pcf8882 E F) r) (\<lambda>ok es a b. ok \<longrightarrow> pcf8882_accepts r \<and>
     (\<forall>p d. pcf8882_encodes a d p \<longrightarrow>
        pcf8882_encodes b (lcd_step (lcd_controller_pcf8882 E F) d r) (command_run PCF8882_RAMWR p es)))"
proof (cases r)
  case (Set_Format fmt)
  show ?thesis
    unfolding Set_Format lcd_perform_def lcd_step_def lcd_controller_pcf8882_def
    by simp (rule draws_sends [OF sends_pcf_format], auto simp: pcf8882_encodes_def pcf8882_accepts_def command_panel split: if_splits)
next
  case (Set_Mode mode)
  show ?thesis
    unfolding Set_Mode lcd_perform_def lcd_step_def lcd_controller_pcf8882_def
    by simp (rule draws_sends [OF sends_pcf_mode], auto simp: emit_def pcf8882_encodes_def pcf8882_accepts_def command_panel)
next
  case (Set_Window x_start x_end y_start y_end)
  show ?thesis
    unfolding Set_Window lcd_perform_def lcd_step_def lcd_controller_pcf8882_def
    by simp (rule draws_sends [OF sends_pcf_window], auto simp: pcf8882_encodes_def pcf8882_accepts_def command_panel split: if_splits)
next
  case (Write_Pixels colors)
  show ?thesis
    unfolding Write_Pixels lcd_perform_def lcd_step_def lcd_controller_pcf8882_def
    by simp (rule draws_sends [OF sends_pcf_pixels], auto simp: emit_def pcf8882_encodes_def pcf8882_accepts_def command_panel)
qed (simp_all add: lcd_perform_def lcd_controller_pcf8882_def spi.draws_ret)

lemma wp_pcf_params: "ready_spi E \<Longrightarrow> (\<And>t. Q True t) \<Longrightarrow> wpM (pcf8882_write_command_data E c bs) Q s"
  unfolding pcf8882_write_command_data_def by (auto intro!: wp_and_ready wp_spi_command_ready wp_spi_data_ready)

lemma pcf8882_performs:
  assumes "ready_spi E" "pcf8882_accepts r" "sending r" "\<And>t. Q True t"
  shows "wpM (lcd_perform (lcd_controller_pcf8882 E F) r) Q s"
  using assms
  by (cases r) (auto simp: lcd_perform_def lcd_controller_pcf8882_def pcf8882_set_window_def pcf8882_set_address_mode_def
        pcf8882_set_pixel_format_def pcf8882_write_pixels_def pcf8882_accepts_def Let_def wp
        intro!: wp_pcf_params wp_and_ready wp_stream_ready)

interpretation pcf8882: lcd_driver "command_run 0x2C" spi_sees "lcd_controller_pcf8882 E F" pcf8882_accepts pcf8882_encodes
  pcf8882_display "ready_spi E" for E F
proof unfold_locales
  show "draws spi_sees (initialize (lcd_controller_pcf8882 E F)) (\<lambda>ok es a b. ok \<longrightarrow>
      (\<forall>p. pcf8882_encodes b pcf8882_display (command_run PCF8882_RAMWR p es)))"
    by (simp add: lcd_controller_pcf8882_def) (rule draws_sends [OF sends_pcf_initialize], auto simp: emit_def pcf8882_initial)
qed (rule pcf8882_perform_encodes, rule pcf8882_performs)

end
