(* ===== verification/Lcd_Ssd.thy ===== *)
theory Lcd_Ssd
  imports Lcd_Spi Lcd_Command_Panel
begin

text \<open>
  The driver of the SSD1286 panel (\<^verbatim>\<open>src/unit/lcd/ssd1286.c\<close>), which is connected through the bridge of the CX75. Its registers
  are commands that take a word.
\<close>

section \<open>Definitions\<close>

abbreviation (input) SSD1286_REG_OSCILLATOR :: u8 where "SSD1286_REG_OSCILLATOR \<equiv> 0x00"
abbreviation (input) SSD1286_REG_DRIVER_OUTPUT :: u8 where "SSD1286_REG_DRIVER_OUTPUT \<equiv> 0x01"
abbreviation (input) SSD1286_REG_DRIVE_AC :: u8 where "SSD1286_REG_DRIVE_AC \<equiv> 0x02"
abbreviation (input) SSD1286_REG_ENTRY_MODE :: u8 where "SSD1286_REG_ENTRY_MODE \<equiv> 0x03"
abbreviation (input) SSD1286_REG_DISPLAY_CONTROL :: u8 where "SSD1286_REG_DISPLAY_CONTROL \<equiv> 0x07"
abbreviation (input) SSD1286_REG_POWER_1 :: u8 where "SSD1286_REG_POWER_1 \<equiv> 0x10"
abbreviation (input) SSD1286_REG_POWER_2 :: u8 where "SSD1286_REG_POWER_2 \<equiv> 0x11"
abbreviation (input) SSD1286_REG_POWER_3 :: u8 where "SSD1286_REG_POWER_3 \<equiv> 0x12"
abbreviation (input) SSD1286_REG_RAM_ADDRESS :: u8 where "SSD1286_REG_RAM_ADDRESS \<equiv> 0x21"
abbreviation (input) SSD1286_REG_RAM_DATA :: u8 where "SSD1286_REG_RAM_DATA \<equiv> 0x22"
abbreviation (input) SSD1286_REG_VCOM_OTP_1 :: u8 where "SSD1286_REG_VCOM_OTP_1 \<equiv> 0x28"
abbreviation (input) SSD1286_REG_TEST_2C :: u8 where "SSD1286_REG_TEST_2C \<equiv> 0x2C"
abbreviation (input) SSD1286_REG_TEST_2D :: u8 where "SSD1286_REG_TEST_2D \<equiv> 0x2D"
abbreviation (input) SSD1286_REG_HORIZONTAL_WINDOW :: u8 where "SSD1286_REG_HORIZONTAL_WINDOW \<equiv> 0x44"
abbreviation (input) SSD1286_REG_VERTICAL_WINDOW :: u8 where "SSD1286_REG_VERTICAL_WINDOW \<equiv> 0x45"

abbreviation (input) SSD1286_DRIVER_BGR :: u16 where "SSD1286_DRIVER_BGR \<equiv> 0x0800"
abbreviation (input) SSD1286_DRIVER_TB :: u16 where "SSD1286_DRIVER_TB \<equiv> 0x0100"
abbreviation (input) SSD1286_DRIVER_RL :: u16 where "SSD1286_DRIVER_RL \<equiv> 0x0080"
abbreviation (input) SSD1286_DRIVER_OUTPUT_DEFAULT :: u16 where "SSD1286_DRIVER_OUTPUT_DEFAULT \<equiv> 0x31AF"

abbreviation (input) SSD1286_ENTRY_MODE_BASE :: u16 where "SSD1286_ENTRY_MODE_BASE \<equiv> 0x6800"
abbreviation (input) SSD1286_ENTRY_VERTICAL_INCREMENT :: u16 where "SSD1286_ENTRY_VERTICAL_INCREMENT \<equiv> 0x20"
abbreviation (input) SSD1286_ENTRY_HORIZONTAL_INCREMENT :: u16 where "SSD1286_ENTRY_HORIZONTAL_INCREMENT \<equiv> 0x10"
abbreviation (input) SSD1286_ENTRY_VERTICAL_FIRST :: u16 where "SSD1286_ENTRY_VERTICAL_FIRST \<equiv> 0x08"
abbreviation (input) SSD1286_ENTRY_MODE_DEFAULT :: u16 where "SSD1286_ENTRY_MODE_DEFAULT \<equiv> 0x6830"

abbreviation (input) SSD1286_WIDTH :: u16 where "SSD1286_WIDTH \<equiv> 132"
abbreviation (input) SSD1286_HEIGHT :: u16 where "SSD1286_HEIGHT \<equiv> 176"

definition ssd1286_write_register :: "'h env \<Rightarrow> u8 \<Rightarrow> u16 \<Rightarrow> (('h, 'z) machine_scheme, bool) cmd" where
  "ssd1286_write_register E reg v =
     (let data = [ucast (drop_bit 8 v), ucast v] in
      andM (lcd_transport_write_command_v1 E reg) (lcd_transport_write_data_v1 E data))"

text \<open>A register that is written with the value of a static variable.\<close>

definition ssd1286_write_static :: "'h env \<Rightarrow> u8 \<Rightarrow> (lcd_statics \<Rightarrow> u16) \<Rightarrow> (('h, 'z) panelled_scheme, bool) cmd" where
  "ssd1286_write_static E reg f = bindM (getM (\<lambda>s. f (statics s))) (ssd1286_write_register E reg)"

definition ssd1286_set_pixel_format :: "'h env \<Rightarrow> lcd_pixel_format \<Rightarrow> (('h, 'z) panelled_scheme, bool) cmd" where
  "ssd1286_set_pixel_format E fmt =
     (if fmt \<noteq> LCD_PIXEL_FORMAT_RGB565 then retM False else
      bindM (modM (\<lambda>s. s\<lparr>statics := statics s\<lparr>ssd_entry_mode := ssd_entry_mode (statics s) OR ucast (BIT 14 OR BIT 13)\<rparr>\<rparr>)) (\<lambda>_.
      ssd1286_write_static E SSD1286_REG_ENTRY_MODE ssd_entry_mode))"

definition ssd1286_entry_mode :: "lcd_address_mode \<Rightarrow> u16" where
  "ssd1286_entry_mode mode =
     SSD1286_ENTRY_MODE_BASE OR
     (if reverse_y mode then 0 else SSD1286_ENTRY_VERTICAL_INCREMENT) OR
     (if reverse_x mode then 0 else SSD1286_ENTRY_HORIZONTAL_INCREMENT) OR
     (if swap_axes mode then SSD1286_ENTRY_VERTICAL_FIRST else 0)"

definition ssd1286_driver_output :: "lcd_address_mode \<Rightarrow> u16" where
  "ssd1286_driver_output mode =
     (let driver_output = SSD1286_DRIVER_OUTPUT_DEFAULT;
          driver_output = (if reverse_x mode then driver_output XOR SSD1286_DRIVER_RL else driver_output);
          driver_output = (if reverse_y mode then driver_output XOR SSD1286_DRIVER_TB else driver_output)
      in if bgr mode then driver_output OR SSD1286_DRIVER_BGR else driver_output)"

definition ssd1286_set_address_mode :: "'h env \<Rightarrow> lcd_address_mode \<Rightarrow> (('h, 'z) panelled_scheme, bool) cmd" where
  "ssd1286_set_address_mode E mode =
     bindM (modM (\<lambda>s. s\<lparr>statics := statics s\<lparr>ssd_entry_mode := ssd1286_entry_mode mode,
       ssd_driver_output := ssd1286_driver_output mode\<rparr>\<rparr>)) (\<lambda>_.
     andM (ssd1286_write_static E SSD1286_REG_DRIVER_OUTPUT ssd_driver_output)
       (ssd1286_write_static E SSD1286_REG_ENTRY_MODE ssd_entry_mode))"

definition ssd1286_set_window :: "'h env \<Rightarrow> u16 \<Rightarrow> u16 \<Rightarrow> u16 \<Rightarrow> u16 \<Rightarrow> (('h, 'z) machine_scheme, bool) cmd" where
  "ssd1286_set_window E x_start x_end y_start y_end =
     (if x_start > x_end \<or> y_start > y_end \<or> x_end \<ge> SSD1286_WIDTH \<or> y_end \<ge> SSD1286_HEIGHT then retM False else
      andM (ssd1286_write_register E SSD1286_REG_HORIZONTAL_WINDOW (push_bit 8 x_end OR x_start))
        (andM (ssd1286_write_register E SSD1286_REG_VERTICAL_WINDOW (push_bit 8 y_end OR y_start))
          (ssd1286_write_register E SSD1286_REG_RAM_ADDRESS (push_bit 8 y_start OR x_start))))"

definition ssd1286_set_cursor :: "'h env \<Rightarrow> u16 \<Rightarrow> u16 \<Rightarrow> (('h, 'z) machine_scheme, bool) cmd" where
  "ssd1286_set_cursor E x y =
     (if x \<ge> SSD1286_WIDTH \<or> y \<ge> SSD1286_HEIGHT then retM False
      else ssd1286_write_register E SSD1286_REG_RAM_ADDRESS (push_bit 8 y OR x))"

definition ssd1286_write_pixels :: "'h env \<Rightarrow> lcd_color list \<Rightarrow> (('h, 'z) machine_scheme, bool) cmd" where
  "ssd1286_write_pixels E colors = lcd_stream E SSD1286_REG_RAM_DATA (map pixel565 colors)"

definition ssd1286_quantize_color :: "lcd_pixel_format \<Rightarrow> lcd_color \<Rightarrow> lcd_color" where
  "ssd1286_quantize_color fmt c =
     c\<lparr>red := (red c AND 0x3E) OR drop_bit 5 (red c), blue := (blue c AND 0x3E) OR drop_bit 5 (blue c)\<rparr>"

definition ssd1286_code_at :: "u8 list \<Rightarrow> nat \<Rightarrow> bool" where
  "ssd1286_code_at raw i \<longleftrightarrow> raw ! i = 0x12 \<and> raw ! (i + 1) = 0x86"

definition ssd1286_probe :: "'h env \<Rightarrow> formatter \<Rightarrow> (('h, 'z) machine_scheme, bool \<times> u32 option) cmd" where
  "ssd1286_probe E F =
     bindM (lcd_transport_write_command_v1 E SSD1286_REG_OSCILLATOR) (\<lambda>ok. if \<not> ok then retM (False, None) else
     bindM (lcd_transport_read_data_v1 4) (\<lambda>(ok, raw). if \<not> ok then retM (False, None) else
     bindM (printf E F ''# SSD1286 R00h device code raw: %02X %02X %02X %02X\<newline>'' (map (\<lambda>b. Num (ucast b)) raw)) (\<lambda>_.
     if list_ex (ssd1286_code_at raw) [0..<length raw - 1] then retM (True, Some 0x1286)
     else retM (False, Some (push_bit 8 (ucast (raw ! 0)) OR ucast (raw ! 1))))))"

definition ssd1286_INITIAL_REGISTERS :: "(u8 \<times> u16) list" where
  "ssd1286_INITIAL_REGISTERS =
     [(SSD1286_REG_OSCILLATOR, 0x0001),
      (SSD1286_REG_POWER_1, 0x1F92),
      (SSD1286_REG_POWER_2, 0x0014),
      (SSD1286_REG_OSCILLATOR, 0x0001),
      (SSD1286_REG_POWER_1, 0x1F92),
      (SSD1286_REG_POWER_2, 0x0014),
      (SSD1286_REG_VCOM_OTP_1, 0x0006),
      (SSD1286_REG_DRIVE_AC, 0x0000),
      (SSD1286_REG_POWER_3, 0x040B)]"

primrec ssd1286_write_registers :: "'h env \<Rightarrow> (u8 \<times> u16) list \<Rightarrow> (('h, 'z) machine_scheme, bool) cmd" where
  "ssd1286_write_registers E [] = retM True"
| "ssd1286_write_registers E (r # rs) = andM (ssd1286_write_register E (fst r) (snd r)) (ssd1286_write_registers E rs)"

text \<open>The first pixels are sent after the registers even when these failed; the result is that both succeeded.\<close>

definition ssd1286_initialize :: "'h env \<Rightarrow> (('h, 'z) panelled_scheme, bool) cmd" where
  "ssd1286_initialize E =
     bindM (ssd1286_write_registers E ssd1286_INITIAL_REGISTERS) (\<lambda>success.
     bindM (mapM (\<lambda>ok. ok \<and> success) (andM (lcd_transport_write_command_v1 E SSD1286_REG_RAM_DATA)
       (lcd_transport_write_data_v1 E [0xFF, 0xFF, 0xFF]))) (\<lambda>success.
     bindM (modM (\<lambda>s. s\<lparr>statics := statics s\<lparr>ssd_entry_mode := SSD1286_ENTRY_MODE_DEFAULT,
       ssd_driver_output := SSD1286_DRIVER_OUTPUT_DEFAULT\<rparr>\<rparr>)) (\<lambda>_.
     if success then
       andM (ssd1286_write_static E SSD1286_REG_ENTRY_MODE ssd_entry_mode)
         (andM (ssd1286_write_static E SSD1286_REG_DRIVER_OUTPUT ssd_driver_output)
         (andM (ssd1286_write_register E SSD1286_REG_DISPLAY_CONTROL 0x0033)
         (andM (ssd1286_write_register E SSD1286_REG_HORIZONTAL_WINDOW 0x8300)
         (andM (ssd1286_write_register E SSD1286_REG_VERTICAL_WINDOW 0xAF00)
         (andM (ssd1286_write_register E SSD1286_REG_TEST_2C 0x3000)
         (andM (ssd1286_write_register E SSD1286_REG_TEST_2D 0x310F)
         (andM (ssd1286_set_pixel_format E LCD_PIXEL_FORMAT_RGB565)
         (andM (ssd1286_set_address_mode E DEFAULT_MODE)
           (ssd1286_set_window E 0 (SSD1286_WIDTH - 1) 0 (SSD1286_HEIGHT - 1))))))))))
     else retM False)))"

definition lcd_controller_ssd1286 :: "'h env \<Rightarrow> formatter \<Rightarrow> ('h, 'z) lcd_controller" where
  "lcd_controller_ssd1286 E F = \<lparr>
     lcd_name = ''SSD1286'',
     lcd_type = LCD_CONTROLLER_SSD1286,
     lcd_id = 0x1286,
     lcd_width = SSD1286_WIDTH,
     lcd_height = SSD1286_HEIGHT,
     pixel_formats = BIT (format_number LCD_PIXEL_FORMAT_RGB565),
     reset_settle_ms = 0,
     gram_write_command = [SSD1286_REG_RAM_DATA],
     gram_read_command = [],
     rgb565_read_dummy_bytes = 0,
     swap_axes_changes_gram_order = True,
     reverse_x_mirrors_coordinates = True,
     reverse_y_mirrors_coordinates = True,
     matches_id = None,
     probe = ssd1286_probe E F,
     initialize = ssd1286_initialize E,
     quantize_color = ssd1286_quantize_color,
     set_pixel_format = ssd1286_set_pixel_format E,
     set_address_mode = ssd1286_set_address_mode E,
     set_window = ssd1286_set_window E,
     set_cursor = Some (ssd1286_set_cursor E),
     write_pixels = ssd1286_write_pixels E,
     read_pixels = None\<rparr>"

section \<open>What the driver sends\<close>

definition ssd1286_register_events :: "u8 \<Rightarrow> u16 \<Rightarrow> lcd_event list" where
  "ssd1286_register_events reg v = command_events reg (word_be v)"

lemma sends_ssd_register: "sends spi_sees (ssd1286_write_register E reg v) (emit (ssd1286_register_events reg v))"
  unfolding ssd1286_write_register_def Let_def ssd1286_register_events_def command_events_def word_be_def
  by (rule spi.sends_command_data)

lemma sends_ssd_static:
  "sends spi_sees (ssd1286_write_static E reg f) (\<lambda>a. Some (ssd1286_register_events reg (f a), a))"
  unfolding ssd1286_write_static_def
  by (rule sends_cong [OF spi.sends_get [OF sends_ssd_register]]) (simp add: emit_def)

lemma ssd1286_format_bits: "ucast (BIT 14 OR BIT 13) = (0x6000 :: u16)"
  by (simp add: BIT_def)

lemma sends_ssd_format:
  "sends spi_sees (ssd1286_set_pixel_format E fmt) (\<lambda>a. if fmt = LCD_PIXEL_FORMAT_RGB565
     then Some (ssd1286_register_events SSD1286_REG_ENTRY_MODE (ssd_entry_mode a OR 0x6000), a\<lparr>ssd_entry_mode := ssd_entry_mode a OR 0x6000\<rparr>)
     else None)"
  unfolding ssd1286_set_pixel_format_def ssd1286_format_bits
  by (rule sends_cong, (rule spi.sends_if spi.sends_ret spi.sends_after [OF spi.draws_statics] sends_ssd_static conjI refl)+) simp

lemma sends_ssd_mode:
  "sends spi_sees (ssd1286_set_address_mode E mode) (\<lambda>a. Some
     (ssd1286_register_events SSD1286_REG_DRIVER_OUTPUT (ssd1286_driver_output mode) @
      ssd1286_register_events SSD1286_REG_ENTRY_MODE (ssd1286_entry_mode mode),
      a\<lparr>ssd_entry_mode := ssd1286_entry_mode mode, ssd_driver_output := ssd1286_driver_output mode\<rparr>))"
  unfolding ssd1286_set_address_mode_def
  by (rule sends_cong, (rule spi.sends_after [OF spi.draws_statics] spi.sends_and sends_ssd_static conjI refl)+) (simp add: follows_def)

definition ssd1286_fits :: "u16 \<Rightarrow> u16 \<Rightarrow> u16 \<Rightarrow> u16 \<Rightarrow> bool" where
  "ssd1286_fits x_start x_end y_start y_end \<longleftrightarrow>
     x_start \<le> x_end \<and> y_start \<le> y_end \<and> x_end < SSD1286_WIDTH \<and> y_end < SSD1286_HEIGHT"

definition ssd1286_window_events :: "u16 \<Rightarrow> u16 \<Rightarrow> u16 \<Rightarrow> u16 \<Rightarrow> lcd_event list" where
  "ssd1286_window_events x_start x_end y_start y_end =
     ssd1286_register_events SSD1286_REG_HORIZONTAL_WINDOW (push_bit 8 x_end OR x_start) @
     ssd1286_register_events SSD1286_REG_VERTICAL_WINDOW (push_bit 8 y_end OR y_start) @
     ssd1286_register_events SSD1286_REG_RAM_ADDRESS (push_bit 8 y_start OR x_start)"

lemma sends_ssd_window:
  "sends spi_sees (ssd1286_set_window E x_start x_end y_start y_end)
     (\<lambda>a. if ssd1286_fits x_start x_end y_start y_end then Some (ssd1286_window_events x_start x_end y_start y_end, a) else None)"
  unfolding ssd1286_set_window_def
  by (rule sends_cong, (rule spi.sends_if spi.sends_and spi.sends_ret sends_ssd_register)+)
     (auto simp: emit_def ssd1286_fits_def ssd1286_window_events_def)

lemma sends_ssd_cursor:
  "sends spi_sees (ssd1286_set_cursor E x y) (\<lambda>a. if x < SSD1286_WIDTH \<and> y < SSD1286_HEIGHT
     then Some (ssd1286_register_events SSD1286_REG_RAM_ADDRESS (push_bit 8 y OR x), a) else None)"
  unfolding ssd1286_set_cursor_def
  by (rule sends_cong, (rule spi.sends_if spi.sends_ret sends_ssd_register)+) (auto simp: emit_def)

lemma sends_ssd_pixels:
  "sends spi_sees (ssd1286_write_pixels E colors)
     (emit (command_events SSD1286_REG_RAM_DATA (concat (map (pixel_bytes LCD_PIXEL_FORMAT_RGB565) colors))))"
  unfolding ssd1286_write_pixels_def
  by (rule sends_cong [OF sends_stream]) (simp add: command_events_def pixel_words emit_def)

definition ssd1286_registers_events :: "(u8 \<times> u16) list \<Rightarrow> lcd_event list" where
  "ssd1286_registers_events rs = concat (map (\<lambda>r. ssd1286_register_events (fst r) (snd r)) rs)"

lemma sends_ssd_registers: "sends spi_sees (ssd1286_write_registers E rs) (emit (ssd1286_registers_events rs))"
proof (induction rs)
  case (Cons r rs)
  show ?case
    unfolding ssd1286_write_registers.simps
    by (rule sends_cong [OF spi.sends_and [OF sends_ssd_register Cons]]) (simp add: ssd1286_registers_events_def emit_def)
qed (simp add: ssd1286_registers_events_def spi.sends_ret)

text \<open>The commands of the initialisation, in order.\<close>

definition ssd1286_script :: "lcd_event list" where
  "ssd1286_script =
     ssd1286_registers_events ssd1286_INITIAL_REGISTERS @ command_events SSD1286_REG_RAM_DATA [0xFF, 0xFF, 0xFF] @
     ssd1286_registers_events
       [(SSD1286_REG_ENTRY_MODE, SSD1286_ENTRY_MODE_DEFAULT), (SSD1286_REG_DRIVER_OUTPUT, SSD1286_DRIVER_OUTPUT_DEFAULT),
        (SSD1286_REG_DISPLAY_CONTROL, 0x0033), (SSD1286_REG_HORIZONTAL_WINDOW, 0x8300), (SSD1286_REG_VERTICAL_WINDOW, 0xAF00),
        (SSD1286_REG_TEST_2C, 0x3000), (SSD1286_REG_TEST_2D, 0x310F), (SSD1286_REG_ENTRY_MODE, SSD1286_ENTRY_MODE_DEFAULT),
        (SSD1286_REG_DRIVER_OUTPUT, ssd1286_driver_output DEFAULT_MODE), (SSD1286_REG_ENTRY_MODE, ssd1286_entry_mode DEFAULT_MODE)] @
     ssd1286_window_events 0 131 0 175"

lemma sends_ssd_first:
  "sends spi_sees (mapM (\<lambda>ok. ok \<and> success) (andM (lcd_transport_write_command_v1 E SSD1286_REG_RAM_DATA)
     (lcd_transport_write_data_v1 E [0xFF, 0xFF, 0xFF])))
     (\<lambda>a. if success then Some (command_events SSD1286_REG_RAM_DATA [0xFF, 0xFF, 0xFF], a) else None)"
  unfolding sends_def command_events_def
  by (rule draws_map, rule draws_mono [OF spi.sends_command_data [unfolded sends_def]]) (simp add: emit_def)

lemma sends_ssd_rejected:
  "sends spi_sees (mapM (\<lambda>ok. ok \<and> False) (andM (lcd_transport_write_command_v1 E SSD1286_REG_RAM_DATA)
     (lcd_transport_write_data_v1 E [0xFF, 0xFF, 0xFF]))) (\<lambda>_. None)"
  using sends_ssd_first [of False E] by simp

lemma sends_ssd_initialize:
  "sends spi_sees (ssd1286_initialize E) (\<lambda>a. Some (ssd1286_script,
     a\<lparr>ssd_entry_mode := ssd1286_entry_mode DEFAULT_MODE, ssd_driver_output := ssd1286_driver_output DEFAULT_MODE\<rparr>))"
  unfolding ssd1286_initialize_def
  by (rule sends_cong, (rule sends_taken spi.sends_failed spi.sends_bind spi.sends_none spi.sends_and
        spi.sends_after [OF spi.draws_statics] conjI refl sends_ssd_rejected
        sends_ssd_registers sends_ssd_first sends_ssd_static sends_ssd_register sends_ssd_format sends_ssd_mode sends_ssd_window)+)
     (simp add: follows_def emit_def ssd1286_script_def ssd1286_registers_events_def ssd1286_fits_def)

section \<open>The panel follows the requests\<close>

definition ssd1286_accepts :: "lcd_request \<Rightarrow> bool" where
  "ssd1286_accepts r \<longleftrightarrow> (case r of
       Set_Format fmt \<Rightarrow> fmt = LCD_PIXEL_FORMAT_RGB565
     | Set_Window x_start x_end y_start y_end \<Rightarrow> ssd1286_fits x_start x_end y_start y_end
     | Set_Cursor x y \<Rightarrow> x < SSD1286_WIDTH \<and> y < SSD1286_HEIGHT
     | Read_Pixels n \<Rightarrow> False | _ \<Rightarrow> True)"

definition ssd1286_encodes :: "lcd_statics \<Rightarrow> display \<Rightarrow> command_panel \<Rightarrow> bool" where
  "ssd1286_encodes a d p \<longleftrightarrow> display_format d = LCD_PIXEL_FORMAT_RGB565 \<and>
     ssd_entry_mode a = ssd1286_entry_mode (display_mode d) \<and> ssd_driver_output a = ssd1286_driver_output (display_mode d) \<and>
     params p SSD1286_REG_ENTRY_MODE = word_be (ssd1286_entry_mode (display_mode d)) \<and>
     params p SSD1286_REG_DRIVER_OUTPUT = word_be (ssd1286_driver_output (display_mode d)) \<and>
     (\<exists>x_start x_end y_start y_end. display_window d = Some (x_start, x_end, y_start, y_end) \<and> ssd1286_fits x_start x_end y_start y_end \<and>
        params p SSD1286_REG_HORIZONTAL_WINDOW = [ucast x_end, ucast x_start] \<and>
        params p SSD1286_REG_VERTICAL_WINDOW = [ucast y_end, ucast y_start]) \<and>
     (\<exists>x y. display_cursor d = Some (x, y) \<and> x < SSD1286_WIDTH \<and> y < SSD1286_HEIGHT \<and>
        params p SSD1286_REG_RAM_ADDRESS = [ucast y, ucast x]) \<and>
     suffix (memory d) (frame p)"

definition ssd1286_display :: display where
  "ssd1286_display = \<lparr>display_format = LCD_PIXEL_FORMAT_RGB565, display_mode = DEFAULT_MODE,
     display_window = Some (0, 131, 0, 175), display_cursor = Some (0, 0), memory = []\<rparr>"

lemma ssd1286_entry_format: "ssd1286_entry_mode mode OR 0x6000 = ssd1286_entry_mode mode"
  by (cases "reverse_x mode"; cases "reverse_y mode"; cases "swap_axes mode") (simp_all add: ssd1286_entry_mode_def)

lemma bytes_of_pair:
  assumes "x < 256"
  shows "word_be (push_bit 8 y OR x) = [ucast y, ucast (x :: u16)]"
proof -
  have low: "n < 8" if "bit x n" for n
  proof -
    have "take_bit 8 (unat x) = unat x" using assms by (simp add: word_less_nat_alt take_bit_nat_eq_self)
    moreover have "bit (unat x) n" using that by (simp add: bit_unsigned_iff bit_imp_le_length)
    ultimately show ?thesis by (metis bit_take_bit_iff)
  qed
  show ?thesis
    unfolding word_be_def by (intro arg_cong2 [where f = Cons] refl bit_word_eqI) (auto simp: pixel_bits dest: low)
qed

lemma ssd1286_window_run:
  assumes "ssd1286_fits x_start x_end y_start y_end"
  shows "command_run SSD1286_REG_RAM_DATA p (ssd1286_window_events x_start x_end y_start y_end) =
    set_params SSD1286_REG_RAM_ADDRESS [ucast y_start, ucast x_start]
      (set_params SSD1286_REG_VERTICAL_WINDOW [ucast y_end, ucast y_start]
      (set_params SSD1286_REG_HORIZONTAL_WINDOW [ucast x_end, ucast x_start] p))"
proof -
  have small: "x_start < 256" "y_start < 256" using assms by (auto simp: ssd1286_fits_def intro: order.strict_trans2 le_less_trans)
  show ?thesis
    unfolding ssd1286_window_events_def ssd1286_register_events_def
    by (simp add: command_panel bytes_of_pair small del: append.simps)
qed

lemma ssd1286_initial:
  "ssd1286_encodes (a\<lparr>ssd_entry_mode := ssd1286_entry_mode DEFAULT_MODE, ssd_driver_output := ssd1286_driver_output DEFAULT_MODE\<rparr>)
     ssd1286_display (command_run SSD1286_REG_RAM_DATA p ssd1286_script)"
  unfolding ssd1286_script_def ssd1286_registers_events_def ssd1286_register_events_def ssd1286_INITIAL_REGISTERS_def
  by (simp add: command_run.run_append ssd1286_window_run ssd1286_fits_def)
     (simp add: command_panel ssd1286_encodes_def ssd1286_display_def ssd1286_fits_def del: append.simps)

lemma ssd1286_perform_encodes:
  "draws spi_sees (lcd_perform (lcd_controller_ssd1286 E F) r) (\<lambda>ok es a b. ok \<longrightarrow> ssd1286_accepts r \<and>
     (\<forall>p d. ssd1286_encodes a d p \<longrightarrow>
        ssd1286_encodes b (lcd_step (lcd_controller_ssd1286 E F) d r) (command_run SSD1286_REG_RAM_DATA p es)))"
proof (cases r)
  case (Set_Format fmt)
  show ?thesis
    unfolding Set_Format lcd_perform_def lcd_step_def lcd_controller_ssd1286_def
    by simp (rule draws_sends [OF sends_ssd_format],
        auto simp: ssd1286_encodes_def ssd1286_accepts_def command_panel ssd1286_register_events_def ssd1286_entry_format split: if_splits)
next
  case (Set_Mode mode)
  show ?thesis
    unfolding Set_Mode lcd_perform_def lcd_step_def lcd_controller_ssd1286_def
    by simp (rule draws_sends [OF sends_ssd_mode],
        auto simp: ssd1286_encodes_def ssd1286_accepts_def command_panel ssd1286_register_events_def)
next
  case (Set_Window x_start x_end y_start y_end)
  show ?thesis
    unfolding Set_Window lcd_perform_def lcd_step_def lcd_controller_ssd1286_def
    by simp (rule draws_sends [OF sends_ssd_window],
        auto simp: ssd1286_encodes_def ssd1286_accepts_def ssd1286_window_run corner_def split: if_splits,
        auto simp: ssd1286_fits_def)
next
  case (Set_Cursor x y)
  have small: "x < SSD1286_WIDTH \<Longrightarrow> x < 256" by (erule order.strict_trans) simp
  show ?thesis
    unfolding Set_Cursor lcd_perform_def lcd_step_def lcd_controller_ssd1286_def
    by simp (rule draws_sends [OF sends_ssd_cursor],
        auto simp: ssd1286_encodes_def ssd1286_accepts_def command_panel ssd1286_register_events_def bytes_of_pair small split: if_splits)
next
  case (Write_Pixels colors)
  show ?thesis
    unfolding Write_Pixels lcd_perform_def lcd_step_def lcd_controller_ssd1286_def
    by simp (rule draws_sends [OF sends_ssd_pixels], auto simp: emit_def ssd1286_encodes_def ssd1286_accepts_def command_panel)
qed (simp_all add: lcd_perform_def lcd_controller_ssd1286_def spi.draws_ret)

lemma wp_ssd_register: "ready_spi E \<Longrightarrow> (\<And>t. Q True t) \<Longrightarrow> wpM (ssd1286_write_register E reg v) Q s"
  unfolding ssd1286_write_register_def by (auto simp: Let_def intro!: wp_and_ready wp_spi_command_ready wp_spi_data_ready)

lemma ssd1286_performs:
  assumes "ready_spi E" "ssd1286_accepts r" "sending r" "\<And>t. Q True t"
  shows "wpM (lcd_perform (lcd_controller_ssd1286 E F) r) Q s"
  using assms
  by (cases r) (auto simp: lcd_perform_def lcd_controller_ssd1286_def ssd1286_set_window_def ssd1286_set_address_mode_def
        ssd1286_set_cursor_def ssd1286_set_pixel_format_def ssd1286_write_pixels_def ssd1286_write_static_def
        ssd1286_accepts_def ssd1286_fits_def Let_def wp
        intro!: wp_ssd_register wp_and_ready wp_stream_ready)

interpretation ssd1286: lcd_driver "command_run 0x22" spi_sees "lcd_controller_ssd1286 E F" ssd1286_accepts ssd1286_encodes
  ssd1286_display "ready_spi E" for E F
proof unfold_locales
  show "draws spi_sees (initialize (lcd_controller_ssd1286 E F)) (\<lambda>ok es a b. ok \<longrightarrow>
      (\<forall>p. ssd1286_encodes b ssd1286_display (command_run SSD1286_REG_RAM_DATA p es)))"
    by (simp add: lcd_controller_ssd1286_def) (rule draws_sends [OF sends_ssd_initialize], auto simp: ssd1286_initial)
qed (rule ssd1286_perform_encodes, rule ssd1286_performs)

end
