(* ===== verification/Lcd_Bridge.thy ===== *)
theory Lcd_Bridge
  imports Lcd_Spi
begin

text \<open>
  What the registers of the display bridge S1D13732 receive (\<^verbatim>\<open>src/unit/dif-v1/s1d13732.c\<close>): register accesses, transfers to its
  memory, and the detection of the panel, which samples a pin while it drives the data bus with patterns.
\<close>

section \<open>The registers of the bridge\<close>

datatype bridge_event = Bridge_Write u16 u16 | Bridge_Read u16 u16 | Sense bool

text \<open>
  The bridge follows the words on the serial interface: a command for writing or reading is followed by the number of a register; then
  come the words to be written, or a word that is ignored and the words that are exchanged for those read. The pin that the panel
  drives during its detection is seen as well.
\<close>

datatype bridge_state = Closed | Writing_Index | Writing u16 | Reading_Index | Dummy u16 | Latched u16 | Fetched u16

fun bridge_word :: "bool \<Rightarrow> bridge_state \<Rightarrow> u16 \<Rightarrow> bridge_event list \<times> bridge_state" where
  "bridge_word True b w =
     ([], if w = S1D13732_WRITE_REGISTER then Writing_Index
          else if w = S1D13732_READ_REGISTER then Reading_Index
          else if w = S1D13732_READ_REGISTER_DATA then (case b of Latched r \<Rightarrow> Fetched r | _ \<Rightarrow> Closed)
          else Closed)"
| "bridge_word False Writing_Index w = ([], Writing w)"
| "bridge_word False (Writing r) w = ([Bridge_Write r w], Writing r)"
| "bridge_word False Reading_Index w = ([], Dummy w)"
| "bridge_word False (Dummy r) w = ([], Latched r)"
| "bridge_word False (Latched r) w = ([], Fetched r)"
| "bridge_word False b w = ([], b)"

fun bridge_step :: "bool \<times> bridge_state \<Rightarrow> access \<Rightarrow> bridge_event list \<times> bool \<times> bridge_state" where
  "bridge_step m (Wr w a v) =
     (if a = GPIO_PIN GPIO_CIF_RS then ([], \<not> bit v 9, snd m)
      else if a = DIFV1_TB then (case bridge_word (fst m) (snd m) (ucast v) of (es, b) \<Rightarrow> (es, fst m, b))
      else ([], m))"
| "bridge_step m (Rd w a v) =
     (if a = DIFV1_RB then (case snd m of Fetched r \<Rightarrow> ([Bridge_Read r (ucast v)], fst m, Latched r) | _ \<Rightarrow> ([], m))
      else if a = GPIO_PIN GPIO_DISP_CS1 then ([Sense (v AND GPIO_DATA_HIGH \<noteq> 0)], m)
      else ([], m))"
| "bridge_step m _ = ([], m)"

interpretation bridge: bus_machine bridge_step "{GPIO_PIN GPIO_CIF_RS, GPIO_PIN GPIO_DISP_CS1, DIFV1_TB, DIFV1_RB}"
  by unfold_locales simp_all

text \<open>What is seen does not depend on the state the bridge was left in: every access starts with a command.\<close>

definition bridge_sees :: "access list \<Rightarrow> bridge_event list \<Rightarrow> bool" where
  "bridge_sees tr es \<longleftrightarrow> (\<forall>m. fst (machine_run bridge_step tr m) = es)"

lemma bridge_sees_Nil: "bridge_sees [] []"
  by (simp add: bridge_sees_def)

lemma bridge_sees_append: "bridge_sees tr es \<Longrightarrow> bridge_sees us fs \<Longrightarrow> bridge_sees (tr @ us) (es @ fs)"
  by (auto simp: bridge_sees_def machine_run_append chained_def split: prod.splits) (metis fst_conv prod.collapse)+

abbreviation tells :: "(('h, 'z) machine_scheme, 'a) cmd \<Rightarrow> ('a \<Rightarrow> bridge_event list \<Rightarrow> bool) \<Rightarrow> bool" where
  "tells c Q \<equiv> talks c (\<lambda>x tr. \<exists>es. bridge_sees tr es \<and> Q x es)"

lemma tells_bind:
  assumes "tells c P" "\<And>x es. P x es \<Longrightarrow> tells (f x) (\<lambda>y fs. Q y (es @ fs))"
  shows "tells (bindM c f) Q"
proof (rule any.in_bind [OF assms(1)], elim exE conjE)
  fix x t1 es assume "bridge_sees t1 es" "P x es"
  then show "talks (f x) (\<lambda>y t2. \<exists>fs. bridge_sees (t1 @ t2) fs \<and> Q y fs)"
    by (intro logs_in_mono [OF assms(2) [OF \<open>P x es\<close>]]) (blast intro: bridge_sees_append)
qed

lemma tells_mono: "tells c P \<Longrightarrow> (\<And>x es. P x es \<Longrightarrow> Q x es) \<Longrightarrow> tells c Q"
  by (erule logs_in_mono) blast

lemma tells_ret: "Q x [] \<Longrightarrow> tells (retM x) Q"
  by (rule any.in_ret) (blast intro: bridge_sees_Nil)

lemma tells_map: "tells c (\<lambda>x. Q (f x)) \<Longrightarrow> tells (mapM f c) Q"
  by (rule any.in_map)

text \<open>Commands that always tell the same, and their sequences.\<close>

abbreviation tells_just :: "(('h, 'z) machine_scheme, unit) cmd \<Rightarrow> bridge_event list \<Rightarrow> bool" where
  "tells_just c es \<equiv> tells c (\<lambda>_ fs. fs = es)"

lemma just_stays: "stays bridge_step c \<Longrightarrow> tells_just c []"
  by (erule logs_in_mono) (simp add: bridge_sees_def)

lemma just_drives: "drives bridge_step c () (\<lambda>m. (es, f m)) \<Longrightarrow> tells_just c es"
  unfolding drives_def by (erule logs_in_mono) (simp add: bridge_sees_def)

lemma just_Nil: "tells_just (seqM []) []"
  unfolding seqM.simps by (rule tells_ret) simp

lemma just_Cons: "tells_just c es \<Longrightarrow> tells_just (seqM cs) fs \<Longrightarrow> tells_just (seqM (c # cs)) (es @ fs)"
  unfolding seqM.simps by (erule tells_bind) (erule tells_mono, simp)

lemmas just_seq = just_Nil just_Cons

lemma just_cong: "tells_just c es \<Longrightarrow> es = fs \<Longrightarrow> tells_just c fs"
  by simp

lemma just_bind: "tells_just c es \<Longrightarrow> tells (f ()) (\<lambda>y fs. Q y (es @ fs)) \<Longrightarrow> tells (bindM c f) Q"
  by (rule tells_bind, assumption) simp

section \<open>Register accesses\<close>

lemma rs_written:
  "(\<And>x. bit (f x) 9 = (\<not> b)) \<Longrightarrow>
     talks (rmw E (GPIO_PIN GPIO_CIF_RS) f) (\<lambda>_ tr. machine_run bridge_step tr = (\<lambda>m. ([], b, snd m)))"
  unfolding rmw_def
  by (rule any.in_bind, rule any.in_read [where P = "\<lambda>_ tr. machine_run bridge_step tr = unmoved"], simp add: machine_run_single,
      rule any.in_write, simp add: machine_run_append machine_run_single)

lemma drives_rs: "drives bridge_step (set_bridge_command E b) () (\<lambda>m. ([], b, snd m))"
  unfolding drives_def set_bridge_command_def gpio_set_def
  by (rule any.in_if; rule logs_in_mono [OF rs_written [where b = b]]) (simp_all only: data_high_bit simp_thms unit_eq)

lemma stays_select: "stays bridge_step (select_bridge E b)"
  unfolding select_bridge_def by (rule bridge.stays_set) simp

lemma word16_back: "ucast (ucast (v :: u16) :: u32) = v"
  by (rule bit_word_eqI) (simp add: bit_unsigned_iff)

lemma drives_word:
  "drives bridge_step (dif_write_only E v) () (\<lambda>m. case bridge_word (fst m) (snd m) v of (es, b) \<Rightarrow> (es, fst m, b))"
  unfolding dif_write_only_def
proof (rule drives_cong [OF drives_bind [OF _ stays_drives]])
  show "drives bridge_step (wr E DIFV1_TB (ucast v)) () (\<lambda>m. case bridge_word (fst m) (snd m) v of (es, b) \<Rightarrow> (es, fst m, b))"
    unfolding drives_def by (rule any.in_write) (simp add: machine_run_single word16_back)
  show "stays bridge_step (whileM (fuel E) (mapM (\<lambda>con. con AND DIFV1_CON_BSY \<noteq> 0) (rd E DIFV1_CON)) (retM ()))"
    by (intro bridge.stays_intros) simp
qed simp

lemma drives_bridge_command:
  "drives bridge_step (s1d13732_write_command E w) () (\<lambda>m. ([], True, snd (bridge_word True (snd m) w)))"
  "drives bridge_step (s1d13732_write_data E v) () (\<lambda>m. case bridge_word False (snd m) v of (es, b) \<Rightarrow> (es, False, b))"
  unfolding s1d13732_write_command_def s1d13732_write_data_def
  by (rule drives_cong, (rule drives_seq drives_rs drives_word)+, simp add: chained_def fun_eq_iff split: prod.splits)+

lemmas bridge_drives = drives_seq drives_bridge_command drives_rs drives_word stays_drives [OF stays_select]

lemma drives_bridge_write: "drives bridge_step (s1d13732_write_register E r v) () (\<lambda>m. ([Bridge_Write r v], False, Writing r))"
  unfolding s1d13732_write_register_def by (rule drives_cong, (rule bridge_drives)+) (simp add: chained_def fun_eq_iff)

lemmas says_write = just_drives [OF drives_bridge_write]

text \<open>The head of a read: the bridge has the word ready. Then a word is exchanged.\<close>

lemma drives_read_head:
  "drives bridge_step (seqM [select_bridge E True, s1d13732_write_command E S1D13732_READ_REGISTER, select_bridge E False,
     select_bridge E True, s1d13732_write_data E r, select_bridge E False,
     select_bridge E True, s1d13732_write_data E 0, select_bridge E False]) () (\<lambda>m. ([], False, Latched r))"
  by (rule drives_cong, (rule bridge_drives)+) (simp add: chained_def fun_eq_iff)

text \<open>A word that is exchanged when the bridge has one ready.\<close>

lemma bridge_word_latched: "(b \<longrightarrow> w = S1D13732_READ_REGISTER_DATA) \<Longrightarrow> bridge_word b (Latched r) w = ([], Fetched r)"
  by (cases b) simp_all

lemma exchanged:
  "talks (dif_exchange E w) (\<lambda>v tr. \<forall>b. (b \<longrightarrow> w = S1D13732_READ_REGISTER_DATA) \<longrightarrow>
     machine_run bridge_step tr (b, Latched r) = ([Bridge_Read r v], b, Latched r))"
  unfolding dif_exchange_def
proof (rule any.in_bind [OF drives_word [unfolded drives_def]])
  fix u tr assume "u = () \<and> machine_run bridge_step tr = (\<lambda>m. case bridge_word (fst m) (snd m) w of (es, b) \<Rightarrow> (es, fst m, b))"
  then have t: "machine_run bridge_step tr = (\<lambda>m. case bridge_word (fst m) (snd m) w of (es, b) \<Rightarrow> (es, fst m, b))" by simp
  show "talks (mapM ucast (rd E DIFV1_RB)) (\<lambda>v us. \<forall>b. (b \<longrightarrow> w = S1D13732_READ_REGISTER_DATA) \<longrightarrow>
     machine_run bridge_step (tr @ us) (b, Latched r) = ([Bridge_Read r v], b, Latched r))"
    by (rule any.in_map, rule any.in_read) (simp add: machine_run_append machine_run_single t chained_def bridge_word_latched)
qed

lemma loop_exchanged:
  "talks (memory_exchange_loop n E) (\<lambda>vs tr. length vs = n \<and>
     machine_run bridge_step tr (False, Latched r) = (map (Bridge_Read r) vs, False, Latched r))"
proof (induction n)
  case (Suc n)
  show ?case
    unfolding memory_exchange_loop.simps
    by (rule any.in_bind [OF exchanged [where r = r]], rule any.in_map, rule logs_in_mono [OF Suc])
       (simp add: machine_run_append chained_def ex_bool_eq)
next
  case 0
  show ?case unfolding memory_exchange_loop.simps by (rule any.in_ret) simp
qed

lemma after_drives:
  assumes "drives step c () F" "talks (f ()) (\<lambda>x us. P x (chained F (machine_run step us)))"
  shows "talks (bindM c f) (\<lambda>x tr. P x (machine_run step tr))"
  by (rule any.in_bind [OF assms(1) [unfolded drives_def]], rule logs_in_mono, simp, rule assms(2)) (simp add: machine_run_append)

lemma fetched:
  "talks (bindM (select_bridge E True) (\<lambda>_. bindM (s1d13732_read_command E S1D13732_READ_REGISTER_DATA) (\<lambda>v.
      bindM (select_bridge E False) (\<lambda>_. retM (g v)))))
    (\<lambda>x tr. \<exists>v. x = g v \<and> machine_run bridge_step tr (False, Latched r) = ([Bridge_Read r v], True, Latched r))"
  unfolding s1d13732_read_command_def bindM_assoc
proof (rule after_drives [OF stays_drives [OF stays_select]], rule after_drives [OF drives_rs], rule any.in_bind [OF exchanged [where r = r]])
  fix v tr assume "\<forall>b. (b \<longrightarrow> S1D13732_READ_REGISTER_DATA = S1D13732_READ_REGISTER_DATA) \<longrightarrow>
     machine_run bridge_step tr (b, Latched r) = ([Bridge_Read r v], b, Latched r)"
  then show "talks (bindM (select_bridge E False) (\<lambda>_. retM (g v))) (\<lambda>x us. \<exists>v. x = g v \<and>
     chained unmoved (chained (\<lambda>m. ([], True, snd m)) (machine_run bridge_step (tr @ us))) (False, Latched r) = ([Bridge_Read r v], True, Latched r))"
    by (intro any.in_bind [OF stays_select] any.in_ret) (auto simp: chained_def machine_run_append)
qed

lemma tells_after:
  assumes "drives bridge_step c () (\<lambda>_. (es, m))" "talks (f ()) (\<lambda>x us. Q x (es @ fst (machine_run bridge_step us m)))"
  shows "tells (bindM c f) Q"
  by (rule logs_in_mono [OF after_drives [where P = "\<lambda>x F. \<exists>fs. (\<forall>m. fst (F m) = fs) \<and> Q x fs", OF assms(1)]],
      rule logs_in_mono [OF assms(2)]) (auto simp: chained_def bridge_sees_def split: prod.splits)

text \<open>
  A register is written or read with the number and the value that were asked for; the words for the memory of the bridge arrive in
  order, and the words that are read are those that came from it.
\<close>

lemma tells_write: "tells_just (s1d13732_write_register E r v) [Bridge_Write r v]"
  by (rule just_drives [OF drives_bridge_write])

lemma tells_read: "tells (s1d13732_read_register E r) (\<lambda>v es. es = [Bridge_Read r v])"
proof -
  have shape: "s1d13732_read_register E r = bindM
      (seqM [select_bridge E True, s1d13732_write_command E S1D13732_READ_REGISTER, select_bridge E False,
        select_bridge E True, s1d13732_write_data E r, select_bridge E False,
        select_bridge E True, s1d13732_write_data E 0, select_bridge E False])
      (\<lambda>_. bindM (select_bridge E True) (\<lambda>_. bindM (s1d13732_read_command E S1D13732_READ_REGISTER_DATA) (\<lambda>v.
        bindM (select_bridge E False) (\<lambda>_. retM v))))"
    unfolding s1d13732_read_register_def seqM.simps by (simp add: bindM_assoc bindM_ret)
  show ?thesis
    unfolding shape by (rule tells_after [OF drives_read_head], rule logs_in_mono [OF fetched [where r = r]]) auto
qed

lemma drives_memory_head:
  "drives bridge_step (seqM [s1d13732_write_register E 0x0024 hi, s1d13732_write_register E 0x0022 lo,
     select_bridge E True, s1d13732_write_command E S1D13732_READ_REGISTER, select_bridge E False,
     select_bridge E True, s1d13732_write_data E r, select_bridge E False,
     select_bridge E True, s1d13732_write_data E 0, select_bridge E False]) ()
     (\<lambda>m. ([Bridge_Write 0x0024 hi, Bridge_Write 0x0022 lo], False, Latched r))"
  by (rule drives_cong, (rule bridge_drives drives_bridge_write)+) (simp add: chained_def fun_eq_iff)

lemma foldr_memory:
  "foldr (\<lambda>w. chained (\<lambda>m. case bridge_word (fst m) (snd m) w of (es, b) \<Rightarrow> (es, fst m, b))) ws unmoved (False, Writing r) =
     (map (Bridge_Write r) ws, False, Writing r)"
  by (induction ws) (simp_all add: chained_def)

lemma tells_memory_write:
  "tells_just (s1d13732_write_memory16 E address ws) (if ws = [] then [] else
     Bridge_Write 0x0024 (ucast (drop_bit 16 address AND 0x0007)) # Bridge_Write 0x0022 (ucast address AND 0xFFFE) #
     map (Bridge_Write 0x0028) ws)"
proof (cases "ws = []")
  case True
  then show ?thesis by (simp add: s1d13732_write_memory16_def any.in_ret bridge_sees_Nil)
next
  case False
  show ?thesis
    unfolding s1d13732_write_memory16_def s1d13732_begin_memory_write16_def s1d13732_write_memory_word16_def s1d13732_end_memory_write16_def
    by (simp only: False if_False) (rule just_drives, rule drives_cong, (rule bridge_drives drives_bridge_write drives_for)+, auto simp: fun_eq_iff chained_def foldr_memory)
qed

text \<open>All words of a read but the last.\<close>

lemma middle_exchanged:
  "talks (if n > 1 then bindM (seqM [select_bridge E True, set_bridge_command E False]) (\<lambda>_.
        bindM (memory_exchange_loop (n - 1) E) (\<lambda>data. bindM (select_bridge E False) (\<lambda>_. retM data))) else retM [])
     (\<lambda>vs tr. length vs = n - 1 \<and> machine_run bridge_step tr (False, Latched r) = (map (Bridge_Read r) vs, False, Latched r))"
proof (rule any.in_if)
  assume "n > 1"
  have loop: "talks (bindM (memory_exchange_loop (n - 1) E) (\<lambda>data. bindM (select_bridge E False) (\<lambda>_. retM data)))
      (\<lambda>vs tr. length vs = n - 1 \<and> machine_run bridge_step tr (False, Latched r) = (map (Bridge_Read r) vs, False, Latched r))" for E :: "'a env"
    by (rule any.in_bind [OF loop_exchanged [where r = r]], rule any.in_bind [OF stays_select], rule any.in_ret)
       (auto simp: machine_run_append chained_def)
  have head: "drives bridge_step (seqM [select_bridge E True, set_bridge_command E False]) () (\<lambda>m. ([], False, snd m))" for E :: "'a env"
    by (rule drives_cong, (rule bridge_drives)+) (simp add: chained_def fun_eq_iff)
  show "talks (bindM (seqM [select_bridge E True, set_bridge_command E False]) (\<lambda>_.
        bindM (memory_exchange_loop (n - 1) E) (\<lambda>data. bindM (select_bridge E False) (\<lambda>_. retM data))))
     (\<lambda>vs tr. length vs = n - 1 \<and> machine_run bridge_step tr (False, Latched r) = (map (Bridge_Read r) vs, False, Latched r))"
    by (rule after_drives [OF head]) (simp add: chained_def loop [simplified])
next
  assume "\<not> n > 1"
  then show "talks (retM []) (\<lambda>vs tr. length vs = n - 1 \<and>
      machine_run bridge_step tr (False, Latched r) = (map (Bridge_Read r) vs, False, Latched r))"
    by (intro any.in_ret) simp
qed

lemma tells_memory_read:
  "tells (s1d13732_read_memory16 E address n) (\<lambda>vs es. length vs = n \<and> es = (if n = 0 then [] else
     Bridge_Write 0x0024 (ucast (drop_bit 16 address AND 0x0007)) # Bridge_Write 0x0022 (ucast address OR 1) #
     map (Bridge_Read 0x0028) vs))"
proof (cases "n = 0")
  case True
  then show ?thesis by (simp add: s1d13732_read_memory16_def any.in_ret bridge_sees_Nil)
next
  case False
  show ?thesis
    unfolding s1d13732_read_memory16_def 
    by (simp only: False if_False) (rule tells_after [OF drives_memory_head], rule any.in_bind [OF middle_exchanged [where r = "0x0028"]], rule logs_in_mono [OF fetched [where r = "0x0028"]],
        use False in \<open>auto simp: machine_run_append chained_def\<close>)
qed

section \<open>The memory of the bridge\<close>

text \<open>
  The bridge latches an address and counts it up with every word. A list of accesses is possible when every word that was read is the one
  that is stored; \<open>None\<close> stands for a list that is not.
\<close>

fun memory_step :: "nat \<times> (nat \<Rightarrow> u16) \<Rightarrow> bridge_event \<Rightarrow> (nat \<times> (nat \<Rightarrow> u16)) option" where
  "memory_step (a, m) (Bridge_Write r v) = Some
     (if r = 0x0024 then (65536 * unat v + a mod 65536, m)
      else if r = 0x0022 then (65536 * (a div 65536) + unat (v AND 0xFFFE), m)
      else if r = 0x0028 then (a + 2, m(a := v))
      else (a, m))"
| "memory_step (a, m) (Bridge_Read r v) =
     (if r = 0x0028 then (if m a = v then Some (a + 2, m) else None) else Some (a, m))"
| "memory_step (a, m) (Sense l) = Some (a, m)"

primrec memory_run :: "bridge_event list \<Rightarrow> nat \<times> (nat \<Rightarrow> u16) \<Rightarrow> (nat \<times> (nat \<Rightarrow> u16)) option" where
  "memory_run [] s = Some s"
| "memory_run (e # es) s = Option.bind (memory_step s e) (memory_run es)"

lemma memory_run_append: "memory_run (es @ fs) s = Option.bind (memory_run es s) (memory_run fs)"
  by (induction es arbitrary: s) (simp_all split: bind_split)

definition address_of :: "u32 \<Rightarrow> nat" where
  "address_of address = 65536 * unat (ucast (drop_bit 16 address AND 0x0007) :: u16) + unat (ucast address AND 0xFFFE :: u16)"

lemma even_address: "(ucast (a :: u32) OR 1) AND 0xFFFE = (ucast a AND 0xFFFE :: u16)"
proof -
  have "(1 :: u16) AND 0xFFFE = 0" by simp
  then show ?thesis by (simp only: bit.conj_disj_distrib2 or.right_neutral)
qed

lemma low_half: "unat ((v :: u16) AND w) mod 65536 = unat (v AND w)" "unat (v AND w) div 65536 = 0"
proof -
  have "unat (v AND w) < 2 ^ LENGTH(16)" by (rule unsigned_less)
  then show "unat (v AND w) mod 65536 = unat (v AND w)" "unat (v AND w) div 65536 = 0" by simp_all
qed

lemma memory_addressed:
  "memory_run (Bridge_Write 0x0024 (ucast (drop_bit 16 address AND 0x0007)) # Bridge_Write 0x0022 (ucast address AND 0xFFFE) # es) (a, m) =
     memory_run es (address_of address, m)"
  "memory_run (Bridge_Write 0x0024 (ucast (drop_bit 16 address AND 0x0007)) # Bridge_Write 0x0022 (ucast address OR 1) # es) (a, m) =
     memory_run es (address_of address, m)"
  by (simp_all add: address_of_def even_address and.assoc)

primrec words_at :: "nat \<Rightarrow> u16 list \<Rightarrow> (nat \<Rightarrow> u16) \<Rightarrow> nat \<Rightarrow> u16" where
  "words_at a [] m = m"
| "words_at a (w # ws) m = words_at (a + 2) ws (m(a := w))"

lemma words_before: "b < a \<Longrightarrow> words_at a ws m b = m b"
  by (induction ws arbitrary: a m) simp_all

lemma memory_written: "memory_run (map (Bridge_Write 0x0028) ws) (a, m) = Some (a + 2 * length ws, words_at a ws m)"
  by (induction ws arbitrary: a m) simp_all

lemma memory_read_back:
  "length vs = length ws \<Longrightarrow> memory_run (map (Bridge_Read 0x0028) vs) (a, words_at a ws m) = Some s \<Longrightarrow> vs = ws"
proof (induction vs ws arbitrary: a m rule: list_induct2)
  case (Cons v vs w ws)
  then show ?case by (auto simp: words_before split: if_splits)
qed simp

text \<open>
  C27. Words written to the memory of the bridge with \<^verbatim>\<open>s1d13732_write_memory16\<close> are returned by \<^verbatim>\<open>s1d13732_read_memory16\<close> from the
  same address, in order and none missing, for every address and every number of words, by a bridge that stores what it is given: the
  high part of the address is written before the low part that latches it, the bit for reading in the low part is no address bit, and
  the last word is fetched with the command for the data of a register.
\<close>

theorem s1d13732_memory_roundtrip:
  "tells (bindM (s1d13732_write_memory16 E address ws) (\<lambda>_. s1d13732_read_memory16 E address (length ws)))
     (\<lambda>vs es. case memory_run es s of None \<Rightarrow> True | Some s' \<Rightarrow> vs = ws)"
proof (rule just_bind [OF tells_memory_write], rule tells_mono [OF tells_memory_read])
  fix vs es
  assume vs: "length vs = length ws \<and> es = (if length ws = 0 then [] else
     Bridge_Write 0x0024 (ucast (drop_bit 16 address AND 0x0007)) # Bridge_Write 0x0022 (ucast address OR 1) # map (Bridge_Read 0x0028) vs)"
  show "case memory_run ((if ws = [] then [] else
      Bridge_Write 0x0024 (ucast (drop_bit 16 address AND 0x0007)) # Bridge_Write 0x0022 (ucast address AND 0xFFFE) #
      map (Bridge_Write 0x0028) ws) @ es) s of None \<Rightarrow> True | Some s' \<Rightarrow> vs = ws"
  proof (cases "ws = []")
    case False
    obtain a m where s: "s = (a, m)" by fastforce
    show ?thesis
      unfolding s using vs False
      by (auto simp: memory_run_append memory_addressed memory_written simp del: memory_run.simps
          split: option.splits dest: memory_read_back)
  qed (use vs in simp)
qed

section \<open>Detection of the panel\<close>

text \<open>The levels that were sampled, one for each pattern that was driven, and what is concluded from them.\<close>

definition sampled :: "bool list \<Rightarrow> bridge_event list" where
  "sampled levels = concat (map2 (\<lambda>p l. [Bridge_Write 0x0060 p, Sense l]) [0x00C0, 0x00E0, 0x00C1] levels)"

definition concluded :: "bool list \<Rightarrow> s1d13732_display_detect_result \<Rightarrow> bool" where
  "concluded levels result \<longleftrightarrow> (levels, controller_type result, sampled_patterns result, high_patterns result) \<in> {
     ([True], LCD_CONTROLLER_SSD1286, 1, 1),
     ([False, True], LCD_CONTROLLER_LS020, 3, 2),
     ([False, False, True], LCD_CONTROLLER_PCF8882, 7, 4),
     ([False, False, False], LCD_CONTROLLER_UNKNOWN, 7, 0)}"

lemma tells_sense: "tells (gpio_get E GPIO_DISP_CS1) (\<lambda>l es. es = [Sense l])"
  unfolding gpio_get_def by (rule any.in_map, rule any.in_read) (simp add: bridge_sees_def)

lemma just_delay: "tells_just (stopwatch_usleep_wd E us) []"
  by (rule just_stays [OF bridge.stays_delay])

lemma tells_sample:
  "tells (sample_display_detect_pattern E result p b) (\<lambda>r es. \<exists>l. es = [Bridge_Write 0x0060 p, Sense l] \<and>
     r = (l, result\<lparr>sampled_patterns := sampled_patterns result OR b,
       high_patterns := if l then high_patterns result OR b else high_patterns result\<rparr>))"
  unfolding sample_display_detect_pattern_def Let_def
  by (rule just_bind [OF just_cong [OF just_Cons [OF tells_write just_Cons [OF just_delay just_Nil]]]], simp,
      rule tells_bind [OF tells_sense]) (auto simp: bridge_sees_Nil intro!: any.in_ret)

lemma tells_patterns: "tells (detect_patterns E) (\<lambda>result es. \<exists>levels. es = sampled levels \<and> concluded levels result)"
  unfolding detect_patterns_def
  by ((rule tells_bind [OF tells_sample], elim exE conjE, simp only: prod.case, rule any.in_if, rule tells_ret,
        rule exI [of _ "[True]"] exI [of _ "[False, True]"] exI [of _ "[False, False, True]"],
        (simp add: sampled_def concluded_def; fail))+)
     (rule tells_ret, rule exI [of _ "[False, False, False]"], simp add: sampled_def concluded_def)

text \<open>
  What the bridge sees of a detection: the display interface is switched on, the two registers that are changed are read, the patterns
  are driven and the pin is sampled, and the registers get their values back.
\<close>

definition detection :: "bool \<Rightarrow> u16 \<Rightarrow> u16 \<Rightarrow> u16 \<Rightarrow> bool list \<Rightarrow> bridge_event list" where
  "detection pin interface config panel levels =
     [Bridge_Write 0x0014 0x1211, Sense pin, Bridge_Write 0x000C 0x1027, Bridge_Write 0x000E 0x2840, Bridge_Write 0x0010 0x0103,
      Bridge_Write 0x0018 0x0000, Bridge_Write 0x0012 0x0000, Bridge_Read 0x0014 interface, Bridge_Write 0x0014 0x0000,
      Bridge_Read 0x0202 config, Bridge_Write 0x0202 0x0000, Bridge_Write 0x0060 0x00C0] @
     sampled levels @
     [Bridge_Read 0x003C panel, Bridge_Write 0x003C panel, Bridge_Write 0x0060 0x0000, Bridge_Write 0x0202 config,
      Bridge_Write 0x0014 interface, Bridge_Write 0x0012 0x0101]"

lemma just_set: "GPIO_PIN gpio \<notin> {GPIO_PIN GPIO_CIF_RS, GPIO_PIN GPIO_DISP_CS1, DIFV1_TB, DIFV1_RB} \<Longrightarrow> tells_just (gpio_set E gpio v) []"
  by (rule just_stays [OF bridge.stays_set])

lemma just_rmw: "a \<notin> {GPIO_PIN GPIO_CIF_RS, GPIO_PIN GPIO_DISP_CS1, DIFV1_TB, DIFV1_RB} \<Longrightarrow> tells_just (rmw E a f) []"
  by (rule just_stays [OF bridge.stays_rmw])

lemma just_pin: "tells_just (wr E (GPIO_PIN GPIO_DISP_CS1) v) []"
  by (rule any.in_write) (simp add: bridge_sees_def)

lemma just_output: "tells_just (manual_output E GPIO_DISP_CS1 v) []"
  unfolding manual_output_def gpio_init_output_def by (rule just_pin)

lemma tells_pin_rmw: "tells (rmw E (GPIO_PIN GPIO_DISP_CS1) f) (\<lambda>_ es. \<exists>l. es = [Sense l])"
  unfolding rmw_def
  by (rule any.in_bind, rule any.in_read [where P = "\<lambda>_ tr. \<exists>l. bridge_sees tr [Sense l]"], simp add: bridge_sees_def,
      rule any.in_write) (auto simp: bridge_sees_def machine_run_append chained_def split: prod.splits)

lemmas just_intros = just_Nil just_Cons tells_write just_delay just_set just_rmw just_pin just_output

lemma tells_Cons: "tells c (\<lambda>_. P) \<Longrightarrow> (\<And>es. P es \<Longrightarrow> tells (seqM cs) (\<lambda>y fs. Q y (es @ fs))) \<Longrightarrow> tells (seqM (c # cs)) Q"
  unfolding seqM.simps by (rule tells_bind)

lemma tells_detect_open:
  "tells (seqM [gpio_set E GPIO_CIF_CS_DISPLAY True,
       s1d13732_write_register E 0x0014 0x1211,
       rmw E (GPIO_PIN GPIO_DISP_CS1) f,
       wr E (GPIO_PIN GPIO_DISP_CS1) v,
       rmw E CGU_CON2 g,
       s1d13732_write_register E 0x000C 0x1027,
       s1d13732_write_register E 0x000E 0x2840,
       s1d13732_write_register E 0x0010 0x0103,
       s1d13732_write_register E 0x0018 0x0000,
       s1d13732_write_register E 0x0012 0x0000,
       stopwatch_usleep_wd E 25000])
     (\<lambda>_ es. \<exists>pin. es = [Bridge_Write 0x0014 0x1211, Sense pin, Bridge_Write 0x000C 0x1027, Bridge_Write 0x000E 0x2840,
       Bridge_Write 0x0010 0x0103, Bridge_Write 0x0018 0x0000, Bridge_Write 0x0012 0x0000])"
  by (rule tells_Cons [OF just_set], simp, rule tells_Cons [OF tells_write], rule tells_Cons [OF tells_pin_rmw], elim exE,
      rule tells_mono, rule just_intros, rule just_pin, (rule just_intros | simp)+)

text \<open>
  Restoring.
\<close>

lemma tells_detect_close:
  "tells (seqM [manual_output E GPIO_DISP_CS1 True,
       bindM (s1d13732_read_register E 0x003C) (\<lambda>v. s1d13732_write_register E 0x003C v),
       s1d13732_write_register E 0x0060 0x0000,
       s1d13732_write_register E 0x0202 config,
       s1d13732_write_register E 0x0014 interface,
       s1d13732_write_register E 0x0012 0x0101,
       rmw E CGU_CON2 g])
     (\<lambda>_ es. \<exists>panel. es = [Bridge_Read 0x003C panel, Bridge_Write 0x003C panel, Bridge_Write 0x0060 0x0000,
       Bridge_Write 0x0202 config, Bridge_Write 0x0014 interface, Bridge_Write 0x0012 0x0101])"
proof -
  have copy: "tells (bindM (s1d13732_read_register E 0x003C) (\<lambda>v. s1d13732_write_register E 0x003C v))
      (\<lambda>_ es. \<exists>panel. es = [Bridge_Read 0x003C panel, Bridge_Write 0x003C panel])" for E :: "'a env"
    by (rule tells_bind [OF tells_read], rule tells_mono [OF tells_write]) simp
  show ?thesis
    by (rule tells_Cons [OF just_output], rule tells_Cons [OF copy], elim exE,
        rule tells_mono, (rule just_intros | simp)+)
qed

lemma tells_detect:
  "tells (s1d13732_detect_display E) (\<lambda>result es. \<exists>pin interface config panel levels.
     es = detection pin interface config panel levels \<and> concluded levels result)"
  unfolding s1d13732_detect_display_def
proof (rule tells_bind [OF tells_detect_open], rule tells_bind [OF tells_read], rule just_bind [OF tells_write],
    rule tells_bind [OF tells_read], rule just_bind [OF just_cong], (rule just_intros)+, rule refl,
    rule tells_bind [OF tells_patterns], rule tells_bind [OF tells_detect_close], rule tells_ret, elim exE conjE)
qed (auto simp: detection_def)

end
