(* ===== verification/Lcd_Cx75.thy ===== *)
theory Lcd_Cx75
  imports Lcd_Controller Lcd_Pcf Lcd_Ssd Lcd_Bridge
begin

text \<open>
  The displays of the CX75: the choice of the driver (\<^verbatim>\<open>src/unit/dif-v1/lcd.c\<close>), and what holds for both drivers behind the bridge.
\<close>

section \<open>Definitions\<close>

definition select_display_controller :: "'h env \<Rightarrow> formatter \<Rightarrow> lcd_controller_type \<Rightarrow> ('h, 'z) lcd_controller option" where
  "select_display_controller E F typ = (case typ of
       LCD_CONTROLLER_SSD1286 \<Rightarrow> Some (lcd_controller_ssd1286 E F)
     | LCD_CONTROLLER_UNKNOWN \<Rightarrow> Some (lcd_controller_ssd1286 E F)
     | LCD_CONTROLLER_PCF8882 \<Rightarrow> Some (lcd_controller_pcf8882 E F)
     | LCD_CONTROLLER_LS020 \<Rightarrow> None
     | LCD_CONTROLLER_L5F30539P00 \<Rightarrow> None
     | LCD_CONTROLLER_JBT6K71 \<Rightarrow> None
     | LCD_CONTROLLER_R61505 \<Rightarrow> None)"

section \<open>The panels follow the requests\<close>

lemma lcd_steps_v1:
  "lcd_step (lcd_controller_pcf8882 E F) = display_step True True"
  "lcd_step (lcd_controller_ssd1286 E F) = display_step True True"
  by (simp_all add: lcd_step_def lcd_controller_pcf8882_def lcd_controller_ssd1286_def)



section \<open>Finding the panel\<close>

text \<open>
  C10. The detection of the panel drives the patterns in their order and stops at the first that the pin answers with a high level; what it
  returns is the panel of that pattern, or none, with the patterns that were driven and answered, and these levels are those
  that were read from the pin. Whatever the bridge answers, it gets the two configuration registers that are changed for the
  detection back with the values that were read before, and the data bus is released. Of the panels that can be concluded, the
  LS020 has no driver, and an unknown one gets that of the SSD1286.
\<close>

theorem s1d13732_detection:
  "tells (s1d13732_detect_display E) (\<lambda>result es. \<exists>pin interface config panel levels.
     es = detection pin interface config panel levels \<and> concluded levels result \<and>
     map_option lcd_type (select_display_controller E F (controller_type result)) =
       (if levels = [False, True] then None
        else if levels = [False, False, True] then Some LCD_CONTROLLER_PCF8882 else Some LCD_CONTROLLER_SSD1286))"
  by (rule tells_mono [OF tells_detect], elim exE conjE, intro exI conjI, assumption, assumption)
     (auto simp: concluded_def select_display_controller_def lcd_controller_pcf8882_def lcd_controller_ssd1286_def)

end
