(* ===== verification/Lcd_Test.thy ===== *)
theory Lcd_Test
  imports Lcd_Controller Lcd_Cx75
begin

text \<open>
  The test of a display controller (\<^verbatim>\<open>src/unit/lcd/lcd-controller-test.c\<close>): it is written against the operations of
  \<^verbatim>\<open>struct lcd_controller\<close> and is run on all panels, also on those that cannot be read.
\<close>

section \<open>Definitions\<close>

abbreviation (input) LCD_TEST_MAX_WIDTH :: u16 where "LCD_TEST_MAX_WIDTH \<equiv> 240"

definition TEST_COLORS :: "lcd_color list" where
  "TEST_COLORS =
     [\<lparr>red = 0x3F, green = 0x00, blue = 0x00\<rparr>,
      \<lparr>red = 0x00, green = 0x3F, blue = 0x00\<rparr>,
      \<lparr>red = 0x00, green = 0x00, blue = 0x3F\<rparr>,
      \<lparr>red = 0x2A, green = 0x15, blue = 0x0A\<rparr>]"

definition PATTERN_COLORS :: "lcd_color list" where
  "PATTERN_COLORS =
     [\<lparr>red = 0x3F, green = 0x00, blue = 0x00\<rparr>,
      \<lparr>red = 0x00, green = 0x3F, blue = 0x00\<rparr>,
      \<lparr>red = 0x00, green = 0x00, blue = 0x3F\<rparr>,
      \<lparr>red = 0x3F, green = 0x3F, blue = 0x3F\<rparr>,
      \<lparr>red = 0x3F, green = 0x3F, blue = 0x00\<rparr>,
      \<lparr>red = 0x00, green = 0x3F, blue = 0x3F\<rparr>,
      \<lparr>red = 0x3F, green = 0x00, blue = 0x3F\<rparr>,
      \<lparr>red = 0x00, green = 0x00, blue = 0x00\<rparr>]"

definition PIXEL_FORMATS :: "(lcd_pixel_format \<times> string) list" where
  "PIXEL_FORMATS =
     [(LCD_PIXEL_FORMAT_RGB565, ''RGB565 / 2 transfers''),
      (LCD_PIXEL_FORMAT_RGB666_8_8_2, ''RGB666 / 8+8+2''),
      (LCD_PIXEL_FORMAT_RGB666_2_8_8, ''RGB666 / 2+8+8''),
      (LCD_PIXEL_FORMAT_RGB666, ''RGB666 / 6+6+6'')]"

definition BLACK :: lcd_color where
  "BLACK = \<lparr>red = 0, green = 0, blue = 0\<rparr>"

definition colors_equal :: "lcd_color list \<Rightarrow> lcd_color list \<Rightarrow> nat \<Rightarrow> bool" where
  "colors_equal expected actual count \<longleftrightarrow>
     list_all (\<lambda>i. red (expected ! i) = red (actual ! i) \<and> green (expected ! i) = green (actual ! i) \<and>
       blue (expected ! i) = blue (actual ! i)) [0..<count]"

definition has_format :: "('h, 'z) lcd_controller \<Rightarrow> lcd_pixel_format \<Rightarrow> bool" where
  "has_format lcd fmt \<longleftrightarrow> pixel_formats lcd AND BIT (format_number fmt) \<noteq> 0"

definition select_address_test_format :: "('h, 'z) lcd_controller \<Rightarrow> lcd_pixel_format" where
  "select_address_test_format lcd =
     (if has_format lcd LCD_PIXEL_FORMAT_RGB666 then LCD_PIXEL_FORMAT_RGB666 else LCD_PIXEL_FORMAT_RGB565)"

text \<open>
  Reading stores colours in an array: those that were read replace what was there. A call through a null pointer is undefined.
\<close>

definition into :: "nat \<Rightarrow> lcd_color list \<Rightarrow> lcd_color list \<Rightarrow> lcd_color list" where
  "into i colors a = take i a @ colors @ drop (i + length colors) a"

definition call_read :: "('h, 'z) lcd_controller \<Rightarrow> nat \<Rightarrow> nat \<Rightarrow> lcd_color list \<Rightarrow> (('h, 'z) panelled_scheme, bool \<times> lcd_color list) cmd" where
  "call_read lcd count i a = (case read_pixels lcd of
       None \<Rightarrow> failM Out_Of_Bounds
     | Some f \<Rightarrow> mapM (\<lambda>(ok, colors). (ok, into i colors a)) (f count))"

definition read_pixel :: "('h, 'z) lcd_controller \<Rightarrow> u16 \<Rightarrow> u16 \<Rightarrow> nat \<Rightarrow> lcd_color list \<Rightarrow>
    (('h, 'z) panelled_scheme, bool \<times> lcd_color list) cmd" where
  "read_pixel lcd x y i a =
     bindM (set_window lcd x x y y) (\<lambda>ok. if ok then call_read lcd 1 i a else retM (False, a))"

text \<open>Pixels that are read one by one; the success of all of them is kept, and none is left out.\<close>

primrec read_pixels_at :: "('h, 'z) lcd_controller \<Rightarrow> (u16 \<times> u16) list \<Rightarrow> nat \<Rightarrow> bool \<Rightarrow> lcd_color list \<Rightarrow>
    (('h, 'z) panelled_scheme, bool \<times> lcd_color list) cmd" where
  "read_pixels_at lcd [] i success a = retM (success, a)"
| "read_pixels_at lcd (p # ps) i success a =
     bindM (read_pixel lcd (fst p) (snd p) i a) (\<lambda>(ok, a). read_pixels_at lcd ps (i + 1) (success \<and> ok) a)"

definition test_pixel_format :: "'h env \<Rightarrow> printer \<Rightarrow> ('h, 'z) lcd_controller \<Rightarrow> lcd_pixel_format \<Rightarrow> string \<Rightarrow>
    (('h, 'z) panelled_scheme, unit) cmd" where
  "test_pixel_format E T lcd fmt name =
     (if \<not> has_format lcd fmt then retM () else
      let expected = map (quantize_color lcd fmt) TEST_COLORS in
      bindM (printf E (format T) ''# pixel format: %s\<newline>'' [Str (str name)]) (\<lambda>_.
      bindM (andM (set_pixel_format lcd fmt) (andM (set_window lcd 20 23 20 20) (write_pixels lcd TEST_COLORS))) (\<lambda>success.
      if Option.is_none (read_pixels lcd) then mapM (\<lambda>_. ()) (test_check E T ''pixel format GRAM write completes'' success) else
      bindM (bindM (set_window lcd 20 23 20 20) (\<lambda>ok. if ok then call_read lcd 4 0 (replicate 4 BLACK)
        else retM (False, replicate 4 BLACK))) (\<lambda>(ok, actual). let success = success \<and> ok in
      bindM (test_check E T ''pixel format GRAM round-trip completes'' success) (\<lambda>_.
      mapM (\<lambda>_. ()) (test_check E T ''pixel format GRAM values match'' (success \<and> colors_equal expected actual 4)))))))"

definition test_pixel_formats :: "'h env \<Rightarrow> printer \<Rightarrow> ('h, 'z) lcd_controller \<Rightarrow> (('h, 'z) panelled_scheme, unit) cmd" where
  "test_pixel_formats E T lcd =
     seqM [test_category E T ''GRAM pixel formats'', forM PIXEL_FORMATS (\<lambda>(fmt, name). test_pixel_format E T lcd fmt name)]"

definition bits_mode :: "u32 \<Rightarrow> lcd_address_mode" where
  "bits_mode bits = \<lparr>swap_axes = (bits AND BIT 0 \<noteq> 0), reverse_x = (bits AND BIT 1 \<noteq> 0), reverse_y = (bits AND BIT 2 \<noteq> 0), bgr = False\<rparr>"

abbreviation (input) NORMAL_MODE :: lcd_address_mode where "NORMAL_MODE \<equiv> DEFAULT_MODE"

definition number :: "bool \<Rightarrow> arg" where
  "number b = Num (if b then 1 else 0)"

definition test_address_modes_write_only :: "'h env \<Rightarrow> printer \<Rightarrow> ('h, 'z) lcd_controller \<Rightarrow> lcd_pixel_format \<Rightarrow>
    (('h, 'z) panelled_scheme, unit) cmd" where
  "test_address_modes_write_only E T lcd fmt =
     bindM (forM [0, 1, 2, 3, 4, 5, 6, 7] (\<lambda>bits. let mode = bits_mode bits in
       bindM (andM (set_address_mode lcd mode) (andM (set_window lcd 40 41 50 51) (write_pixels lcd TEST_COLORS))) (\<lambda>success.
       bindM (printf E (format T) ''# address mode: swap=%u reverse_x=%u reverse_y=%u\<newline>''
         [number (swap_axes mode), number (reverse_x mode), number (reverse_y mode)]) (\<lambda>_.
       mapM (\<lambda>_. ()) (test_check E T ''address mode GRAM write completes'' success))))) (\<lambda>_.
     bindM (andM (set_address_mode lcd NORMAL_MODE) (set_pixel_format lcd fmt)) (\<lambda>ok.
     mapM (\<lambda>_. ()) (test_check E T ''normal address mode restored'' ok)))"

text \<open>Where the pixels of a window of two by two are expected, for one of the address modes.\<close>

definition expected_offset :: "('h, 'z) lcd_controller \<Rightarrow> lcd_address_mode \<Rightarrow> nat \<Rightarrow> nat" where
  "expected_offset lcd mode i =
     (let effective_swap = swap_axes mode \<and> swap_axes_changes_gram_order lcd;
          address_x = (if effective_swap then i div 2 else i mod 2);
          address_y = (if effective_swap then i mod 2 else i div 2);
          physical_offset_x = (if reverse_x mode then 1 - address_x else address_x);
          physical_offset_y = (if reverse_y mode then 1 - address_y else address_y)
      in physical_offset_y * 2 + physical_offset_x)"

definition expected_colors :: "('h, 'z) lcd_controller \<Rightarrow> lcd_pixel_format \<Rightarrow> lcd_address_mode \<Rightarrow> lcd_color list" where
  "expected_colors lcd fmt mode =
     fold (\<lambda>i a. a[expected_offset lcd mode i := quantize_color lcd fmt (TEST_COLORS ! i)]) [0, 1, 2, 3] (replicate 4 BLACK)"

definition test_address_modes :: "'h env \<Rightarrow> printer \<Rightarrow> ('h, 'z) lcd_controller \<Rightarrow> (('h, 'z) panelled_scheme, unit) cmd" where
  "test_address_modes E T lcd =
     bindM (test_category E T ''GRAM address mode matrix'') (\<lambda>_.
     let fmt = select_address_test_format lcd in
     bindM (set_pixel_format lcd fmt) (\<lambda>ok.
     bindM (test_check E T ''address-test pixel format selected'' ok) (\<lambda>_.
     if Option.is_none (read_pixels lcd) then test_address_modes_write_only E T lcd fmt else
     forM [0, 1, 2, 3, 4, 5, 6, 7] (\<lambda>bits. let mode = bits_mode bits;
         mirror_x = reverse_x mode \<and> reverse_x_mirrors_coordinates lcd;
         mirror_y = reverse_y mode \<and> reverse_y_mirrors_coordinates lcd;
         physical_x = (if mirror_x then lcd_width lcd - 42 else 40);
         physical_y = (if mirror_y then lcd_height lcd - 52 else 50) in
       bindM (andM (set_address_mode lcd mode) (andM (set_window lcd 40 41 50 51)
         (andM (write_pixels lcd TEST_COLORS) (set_address_mode lcd NORMAL_MODE)))) (\<lambda>success.
       let expected = expected_colors lcd fmt mode in
       bindM (read_pixels_at lcd [(physical_x, physical_y), (physical_x + 1, physical_y),
         (physical_x, physical_y + 1), (physical_x + 1, physical_y + 1)] 0 success (replicate 4 BLACK)) (\<lambda>(success, actual).
       bindM (test_check E T ''address mode write/read completes'' success) (\<lambda>_.
       mapM (\<lambda>_. ()) (test_check E T ''address mode maps pixels correctly'' (success \<and> colors_equal expected actual 4)))))))))"

definition window_COLORS :: "lcd_color list" where
  "window_COLORS =
     [\<lparr>red = 0x3F, green = 0x00, blue = 0x00\<rparr>,
      \<lparr>red = 0x00, green = 0x3F, blue = 0x00\<rparr>,
      \<lparr>red = 0x00, green = 0x00, blue = 0x3F\<rparr>,
      \<lparr>red = 0x3F, green = 0x3F, blue = 0x00\<rparr>,
      \<lparr>red = 0x00, green = 0x3F, blue = 0x3F\<rparr>]"

definition WRAPPED :: "lcd_color list" where
  "WRAPPED =
     [\<lparr>red = 0x3F, green = 0x3F, blue = 0x00\<rparr>,
      \<lparr>red = 0x00, green = 0x3F, blue = 0x3F\<rparr>,
      \<lparr>red = 0x00, green = 0x00, blue = 0x3F\<rparr>]"

text \<open>Five pixels in a window of three, as a row or a column; the last two wrap around to the start.\<close>

definition test_window_wrap :: "'h env \<Rightarrow> printer \<Rightarrow> ('h, 'z) lcd_controller \<Rightarrow> string \<Rightarrow> string \<Rightarrow> string \<Rightarrow> (u16 \<times> u16) list \<Rightarrow> bool \<Rightarrow>
    (('h, 'z) panelled_scheme, lcd_color list) cmd" where
  "test_window_wrap E T lcd writes_done completes wraps places success =
     (if Option.is_none (read_pixels lcd) then bindM (test_check E T writes_done success) (\<lambda>_. retM (replicate 3 BLACK)) else
      bindM (read_pixels_at lcd places 0 success (replicate 3 BLACK)) (\<lambda>(success, actual).
      bindM (test_check E T completes success) (\<lambda>_.
      bindM (test_check E T wraps (success \<and> colors_equal WRAPPED actual 3)) (\<lambda>_. retM actual))))"

text \<open>One pixel written at the cursor into a field of another colour; the pixel and its neighbour are read.\<close>

definition test_current :: "'h env \<Rightarrow> printer \<Rightarrow> ('h, 'z) lcd_controller \<Rightarrow> string \<Rightarrow> string \<Rightarrow> u16 \<times> u16 \<times> u16 \<times> u16 \<Rightarrow> nat \<Rightarrow>
    (u16 \<Rightarrow> u16 \<Rightarrow> (('h, 'z) panelled_scheme, bool) cmd) \<Rightarrow> u16 \<times> u16 \<Rightarrow> u16 \<times> u16 \<Rightarrow> lcd_color \<Rightarrow> lcd_color list \<Rightarrow>
    (('h, 'z) panelled_scheme, lcd_color list) cmd" where
  "test_current E T lcd completes selects window n cursor place neighbour c actual =
     (case window of (x_start, x_end, y_start, y_end) \<Rightarrow>
      bindM (andM (set_window lcd x_start x_end y_start y_end)
        (andM (write_pixels lcd (replicate n (TEST_COLORS ! 3)))
        (andM (cursor (fst place) (snd place)) (write_pixels lcd [c])))) (\<lambda>ok.
      bindM (if ok then read_pixel lcd (fst place) (snd place) 0 actual else retM (False, actual)) (\<lambda>(ok, actual).
      bindM (if ok then read_pixel lcd (fst neighbour) (snd neighbour) 1 actual else retM (False, actual)) (\<lambda>(success, actual).
      bindM (test_check E T completes success) (\<lambda>_.
      bindM (test_check E T selects (success \<and> colors_equal [c] [actual ! 0] 1 \<and> colors_equal [TEST_COLORS ! 3] [actual ! 1] 1)) (\<lambda>_.
      retM actual))))))"

definition test_window_and_cursor :: "'h env \<Rightarrow> printer \<Rightarrow> ('h, 'z) lcd_controller \<Rightarrow> (('h, 'z) panelled_scheme, unit) cmd" where
  "test_window_and_cursor E T lcd =
     bindM (test_category E T ''GRAM window and cursor'') (\<lambda>_.
     let w = lcd_width lcd; h = lcd_height lcd; x_start = w - 3; y_start = h - 3; test_x = w div 3; test_y = h div 3;
         fmt = select_address_test_format lcd in
     bindM (andM (set_pixel_format lcd fmt) (andM (set_address_mode lcd NORMAL_MODE)
       (andM (set_window lcd x_start (w - 1) test_y test_y) (write_pixels lcd window_COLORS)))) (\<lambda>success.
     bindM (test_window_wrap E T lcd ''horizontal window wrap write completes'' ''horizontal window wrap completes''
       ''X1/X2 wrap to the first column'' [(x_start, test_y), (x_start + 1, test_y), (x_start + 2, test_y)] success) (\<lambda>_.
     bindM (andM (set_window lcd test_x test_x y_start (h - 1)) (write_pixels lcd window_COLORS)) (\<lambda>success.
     bindM (test_window_wrap E T lcd ''vertical window wrap write completes'' ''vertical window wrap completes''
       ''Y1/Y2 wrap to the first row'' [(test_x, y_start), (test_x, y_start + 1), (test_x, y_start + 2)] success) (\<lambda>actual.
     case set_cursor lcd of None \<Rightarrow> retM ()
     | Some cursor \<Rightarrow>
         if Option.is_none (read_pixels lcd) then retM () else
         bindM (test_current E T lcd ''current X write/read completes'' ''current X selects only the requested column''
           (w - 7, w - 3, test_y, test_y + 4) 25 cursor (w - 5, test_y) (w - 6, test_y) (TEST_COLORS ! 0) actual) (\<lambda>actual.
         mapM (\<lambda>_. ()) (test_current E T lcd ''current Y write/read completes'' ''current Y selects only the requested row''
           (test_x, test_x, h - 7, h - 3) 5 cursor (test_x, h - 5) (test_x, h - 6) (TEST_COLORS ! 1) actual)))))))"

definition BGR_MODE :: lcd_address_mode where
  "BGR_MODE = DEFAULT_MODE\<lparr>bgr := True\<rparr>"

definition test_bgr_mode :: "'h env \<Rightarrow> printer \<Rightarrow> ('h, 'z) lcd_controller \<Rightarrow> (('h, 'z) panelled_scheme, unit) cmd" where
  "test_bgr_mode E T lcd =
     bindM (test_category E T ''RGB/BGR mode'') (\<lambda>_.
     let fmt = select_address_test_format lcd; x = lcd_width lcd div 2; y = lcd_height lcd div 2;
         expected = quantize_color lcd fmt (TEST_COLORS ! 3) in
     bindM (andM (set_pixel_format lcd fmt) (andM (set_address_mode lcd BGR_MODE)
       (andM (set_window lcd x x y y) (andM (write_pixels lcd [TEST_COLORS ! 3]) (set_address_mode lcd NORMAL_MODE))))) (\<lambda>success.
     if Option.is_none (read_pixels lcd) then mapM (\<lambda>_. ()) (test_check E T ''BGR GRAM write completes'' success) else
     bindM (read_pixel lcd x y 0 [BLACK]) (\<lambda>(ok, actual). let success = success \<and> ok in
     bindM (test_check E T ''BGR GRAM round-trip completes'' success) (\<lambda>_.
     mapM (\<lambda>_. ()) (test_check E T ''BGR affects the display latch, not stored GRAM data''
       (success \<and> colors_equal [expected] actual 1))))))"

text \<open>
  One band of the pattern: the row is filled, also when it is longer than the array, and then the rows are written until one fails.
\<close>

primrec write_rows :: "('h, 'z) lcd_controller \<Rightarrow> lcd_color list \<Rightarrow> nat list \<Rightarrow> (('h, 'z) panelled_scheme, bool) cmd" where
  "write_rows lcd row [] = retM True"
| "write_rows lcd row (y # ys) =
     andM (andM (set_window lcd 0 (lcd_width lcd - 1) (of_nat y) (of_nat y)) (write_pixels lcd row)) (write_rows lcd row ys)"

definition band_edge :: "('h, 'z) lcd_controller \<Rightarrow> nat \<Rightarrow> u16" where
  "band_edge lcd band = ucast (of_nat band * (ucast (lcd_height lcd) :: u32) div of_nat (length PATTERN_COLORS))"

definition draw_band :: "'h env \<Rightarrow> printer \<Rightarrow> ('h, 'z) lcd_controller \<Rightarrow> nat \<Rightarrow> (('h, 'z) panelled_scheme, unit) cmd" where
  "draw_band E T lcd band =
     (let y_start = band_edge lcd band; y_end = band_edge lcd (band + 1) in
      if lcd_width lcd > LCD_TEST_MAX_WIDTH then failM Out_Of_Bounds else
      bindM (write_rows lcd (replicate (unat (lcd_width lcd)) (PATTERN_COLORS ! band)) [unat y_start..<unat y_end]) (\<lambda>success.
      mapM (\<lambda>_. ()) (test_check E T ''visible color band written'' success)))"

definition draw_visible_pattern :: "'h env \<Rightarrow> printer \<Rightarrow> ('h, 'z) lcd_controller \<Rightarrow> (('h, 'z) panelled_scheme, unit) cmd" where
  "draw_visible_pattern E T lcd =
     bindM (test_category E T ''Visible test pattern'') (\<lambda>_.
     bindM (if lcd_width lcd \<le> LCD_TEST_MAX_WIDTH
            then andM (set_pixel_format lcd LCD_PIXEL_FORMAT_RGB565) (set_address_mode lcd NORMAL_MODE) else retM False) (\<lambda>ok.
     bindM (test_check E T ''RGB565 and normal addressing selected'' ok) (\<lambda>_.
     forM [0..<length PATTERN_COLORS] (draw_band E T lcd))))"

definition lcd_test_controller :: "'h env \<Rightarrow> printer \<Rightarrow> ('h, 'z) lcd_controller \<Rightarrow> (('h, 'z) panelled_scheme, unit) cmd" where
  "lcd_test_controller E T lcd =
     bindM (whenM (Option.is_none (read_pixels lcd)) (printf E (format T)
       ''# GRAM readback is unavailable on this LCD transport; running write-path checks\<newline>'' [])) (\<lambda>_.
     seqM [test_pixel_formats E T lcd, test_address_modes E T lcd, test_window_and_cursor E T lcd, test_bgr_mode E T lcd,
           draw_visible_pattern E T lcd])"

section \<open>What the test asks for\<close>

text \<open>
  A controller that writes down the requests instead of performing them. What it answers, and the colours it returns, is an arbitrary
  function of the requests so far.
\<close>

record 'h recorded = "'h panelled" +
  asked :: "lcd_request list"

definition ask :: "(lcd_request list \<Rightarrow> bool \<times> lcd_color list) \<Rightarrow> lcd_request \<Rightarrow> (('h, 'z) recorded_scheme, bool \<times> lcd_color list) cmd" where
  "ask answer r = bindM (modM (\<lambda>s. s\<lparr>asked := asked s @ [r]\<rparr>)) (\<lambda>_. getM (\<lambda>s. answer (asked s)))"

definition recorder :: "(lcd_request list \<Rightarrow> bool \<times> lcd_color list) \<Rightarrow> ('h, 'z recorded_ext) lcd_controller \<Rightarrow> ('h, 'z recorded_ext) lcd_controller" where
  "recorder answer lcd = lcd\<lparr>
     set_pixel_format := \<lambda>fmt. mapM fst (ask answer (Set_Format fmt)),
     set_address_mode := \<lambda>mode. mapM fst (ask answer (Set_Mode mode)),
     set_window := \<lambda>x_start x_end y_start y_end. mapM fst (ask answer (Set_Window x_start x_end y_start y_end)),
     set_cursor := map_option (\<lambda>_ x y. mapM fst (ask answer (Set_Cursor x y))) (set_cursor lcd),
     write_pixels := \<lambda>colors. mapM fst (ask answer (Write_Pixels colors)),
     read_pixels := map_option (\<lambda>_ n. ask answer (Read_Pixels n)) (read_pixels lcd)\<rparr>"

interpretation asked: suite_observer "asked :: ('h, 'z) recorded_scheme \<Rightarrow> lcd_request list"
  by unfold_locales simp_all

definition asks :: "(lcd_request \<Rightarrow> bool) \<Rightarrow> (('h, 'z) recorded_scheme, 'a) cmd \<Rightarrow> bool" where
  "asks ok c \<longleftrightarrow> does asked c (\<lambda>_ _ a b. \<exists>rs. b = a @ rs \<and> list_all ok rs)"

lemma asks_bind: "asks ok c \<Longrightarrow> (\<And>x. asks ok (f x)) \<Longrightarrow> asks ok (bindM c f)"
  unfolding asks_def
  by (erule does_bind, rule does_mono, assumption) (metis append.assoc list_all_append)

lemma asks_same: "asked.same c \<Longrightarrow> asks ok c"
  unfolding asks_def by (erule does_mono) (auto intro: exI [of _ "[]"])

lemma asks_simple: "asks ok (retM x)" "asks ok (getM f)" "asks ok (failM e)"
  by (auto intro: asks_same asked.same_simple)

lemma asks_map: "asks ok c \<Longrightarrow> asks ok (mapM f c)"
  unfolding asks_def by (rule does_map)

lemma asks_if: "(b \<Longrightarrow> asks ok c) \<Longrightarrow> (\<not> b \<Longrightarrow> asks ok d) \<Longrightarrow> asks ok (if b then c else d)"
  by simp

lemma asks_and: "asks ok c \<Longrightarrow> asks ok d \<Longrightarrow> asks ok (andM c d)"
  unfolding andM_def by (intro asks_bind asks_if asks_simple)

lemma asks_seq: "asks ok (seqM [])" "asks ok c \<Longrightarrow> asks ok (seqM cs) \<Longrightarrow> asks ok (seqM (c # cs))"
  by (auto intro: asks_bind asks_simple)

lemma asks_for: "(\<And>x. x \<in> set xs \<Longrightarrow> asks ok (f x)) \<Longrightarrow> asks ok (forM xs f)"
  by (induction xs) (auto intro: asks_simple asks_bind)

lemma asks_ask: "ok r \<Longrightarrow> asks ok (ask answer r)"
  unfolding ask_def asks_def
  by (rule does_bind [OF does_mod [where P = "\<lambda>_ _ a b. b = a @ [r]"]]) (auto intro!: does_get)

lemma asks_printf: "asks ok (printf E F f args)"
  by (rule asks_same) (rule does_mono [OF asked.does_printf], simp)

lemma asks_timeout: "asks ok (reset_timeout E)"
  by (rule asks_same) (rule does_mono [OF asked.silent_reset_timeout], simp)

lemma asks_category: "asks ok (test_category E T name)"
  unfolding test_category_def by (intro asks_seq asks_printf asks_timeout)

lemma asks_count: "asks ok (modM (\<lambda>s. s\<lparr>assertions := assertions s + 1\<rparr>))" "asks ok (modM (\<lambda>s. s\<lparr>failures := failures s + 1\<rparr>))"
  unfolding asks_def by (rule does_mod; force)+

lemma asks_check: "asks ok (test_check E T name b)"
  unfolding test_check_def report_def whenM_def by (intro asks_bind asks_printf asks_timeout asks_simple asks_count asks_if)

lemmas asks_rules = asks_bind asks_simple asks_map asks_if asks_and asks_seq asks_for asks_printf asks_category asks_check

text \<open>Requests that lie on the panel, with formats and operations that the controller has.\<close>

definition fits :: "('h, 'z) lcd_controller \<Rightarrow> lcd_request \<Rightarrow> bool" where
  "fits lcd r \<longleftrightarrow> (case r of
       Set_Format fmt \<Rightarrow> has_format lcd fmt
     | Set_Mode mode \<Rightarrow> True
     | Set_Window x_start x_end y_start y_end \<Rightarrow> x_start \<le> x_end \<and> y_start \<le> y_end \<and> x_end < lcd_width lcd \<and> y_end < lcd_height lcd
     | Set_Cursor x y \<Rightarrow> \<not> Option.is_none (set_cursor lcd) \<and> x < lcd_width lcd \<and> y < lcd_height lcd
     | Write_Pixels colors \<Rightarrow> list_all six_bit colors
     | Read_Pixels n \<Rightarrow> \<not> Option.is_none (read_pixels lcd))"

definition known_size :: "('h, 'z) lcd_controller \<Rightarrow> bool" where
  "known_size lcd \<longleftrightarrow> has_format lcd LCD_PIXEL_FORMAT_RGB565 \<and> (lcd_width lcd, lcd_height lcd) \<in> {(240, 320), (132, 176)}"

lemma recorder_simps [simp]:
  "lcd_width (recorder answer lcd) = lcd_width lcd" "lcd_height (recorder answer lcd) = lcd_height lcd"
  "has_format (recorder answer lcd) = has_format lcd"
  "Option.is_none (read_pixels (recorder answer lcd)) = Option.is_none (read_pixels lcd)"
  "quantize_color (recorder answer lcd) = quantize_color lcd"
  by (simp_all add: recorder_def has_format_def fun_eq_iff Option.is_none_def)

lemma asks_requests:
  "ok (Set_Format fmt) \<Longrightarrow> asks ok (set_pixel_format (recorder answer lcd) fmt)"
  "ok (Set_Mode mode) \<Longrightarrow> asks ok (set_address_mode (recorder answer lcd) mode)"
  "ok (Set_Window x_start x_end y_start y_end) \<Longrightarrow> asks ok (set_window (recorder answer lcd) x_start x_end y_start y_end)"
  "ok (Write_Pixels colors) \<Longrightarrow> asks ok (write_pixels (recorder answer lcd) colors)"
  by (simp_all add: recorder_def asks_map asks_ask)

lemma asks_read:
  "(\<not> Option.is_none (read_pixels lcd) \<Longrightarrow> ok (Read_Pixels n)) \<Longrightarrow> asks ok (call_read (recorder answer lcd) n i a)"
  by (auto simp: call_read_def recorder_def asks_simple split: option.splits intro!: asks_map asks_ask)

lemma asks_read_pixel:
  "fits lcd (Set_Window x x y y) \<Longrightarrow> asks (fits lcd) (read_pixel (recorder answer lcd) x y i a)"
  unfolding read_pixel_def by (intro asks_bind asks_requests asks_if asks_read asks_simple) (simp_all add: fits_def)

lemma asks_read_pixels_at:
  "list_all (\<lambda>p. fits lcd (Set_Window (fst p) (fst p) (snd p) (snd p))) ps \<Longrightarrow>
     asks (fits lcd) (read_pixels_at (recorder answer lcd) ps i success a)"
  by (induction ps arbitrary: i success a)
     (auto simp: case_prod_beta intro!: asks_bind asks_simple asks_read_pixel)

lemma test_colors_fit: "list_all six_bit TEST_COLORS" "list_all six_bit PATTERN_COLORS" "list_all six_bit window_COLORS"
  by (simp_all add: TEST_COLORS_def PATTERN_COLORS_def window_COLORS_def six_bit_def)

lemma test_color_fits: "i < 4 \<Longrightarrow> six_bit (TEST_COLORS ! i)" "i < 8 \<Longrightarrow> six_bit (PATTERN_COLORS ! i)"
  using test_colors_fit by (simp_all add: list_all_length TEST_COLORS_def PATTERN_COLORS_def)

lemmas asks_test_rules = asks_rules asks_requests asks_read asks_read_pixel asks_read_pixels_at

lemma known_sizes:
  assumes "known_size lcd" "P 240 320" "P 132 176"
  shows "P (lcd_width lcd) (lcd_height lcd)"
  using assms by (auto simp: known_size_def)

definition window_on :: "u16 \<Rightarrow> u16 \<Rightarrow> u16 \<Rightarrow> u16 \<Rightarrow> u16 \<Rightarrow> u16 \<Rightarrow> bool" where
  "window_on x_start x_end y_start y_end w h \<longleftrightarrow> x_start \<le> x_end \<and> y_start \<le> y_end \<and> x_end < w \<and> y_end < h"

lemma fits_simps [simp]:
  "fits lcd (Set_Format fmt) \<longleftrightarrow> has_format lcd fmt"
  "fits lcd (Set_Mode mode)"
  "fits lcd (Set_Window x_start x_end y_start y_end) \<longleftrightarrow> window_on x_start x_end y_start y_end (lcd_width lcd) (lcd_height lcd)"
  "fits lcd (Write_Pixels colors) \<longleftrightarrow> list_all six_bit colors"
  "fits lcd (Read_Pixels n) \<longleftrightarrow> \<not> Option.is_none (read_pixels lcd)"
  "fits lcd (Set_Cursor x y) \<longleftrightarrow> \<not> Option.is_none (set_cursor lcd) \<and> window_on x x y y (lcd_width lcd) (lcd_height lcd)"
  by (simp_all add: fits_def window_on_def)

lemma window_fixed:
  "known_size lcd \<Longrightarrow> window_on 20 23 20 20 (lcd_width lcd) (lcd_height lcd)"
  "known_size lcd \<Longrightarrow> window_on 40 41 50 51 (lcd_width lcd) (lcd_height lcd)"
  by (erule known_sizes; simp add: window_on_def)+

lemma asks_formats: "known_size lcd \<Longrightarrow> asks (fits lcd) (test_pixel_formats E T (recorder answer lcd))"
  unfolding test_pixel_formats_def test_pixel_format_def Let_def case_prod_beta
  by (intro asks_test_rules) (simp_all add: window_fixed test_colors_fit)

lemma address_format: "known_size lcd \<Longrightarrow> has_format lcd (select_address_test_format lcd)"
  by (simp add: known_size_def select_address_test_format_def)

lemma recorder_format [simp]: "select_address_test_format (recorder answer lcd) = select_address_test_format lcd"
  by (simp add: select_address_test_format_def)

lemma recorder_mirrors [simp]:
  "reverse_x_mirrors_coordinates (recorder answer lcd) = reverse_x_mirrors_coordinates lcd"
  "reverse_y_mirrors_coordinates (recorder answer lcd) = reverse_y_mirrors_coordinates lcd"
  by (simp_all add: recorder_def)

lemma asks_modes_write_only:
  "known_size lcd \<Longrightarrow> has_format lcd fmt \<Longrightarrow> asks (fits lcd) (test_address_modes_write_only E T (recorder answer lcd) fmt)"
  unfolding test_address_modes_write_only_def Let_def
  by (intro asks_test_rules) (simp_all only: fits_simps window_fixed test_colors_fit)

lemma window_single:
  "known_size lcd \<Longrightarrow> window_on (if b then lcd_width lcd - 42 else 40) (if b then lcd_width lcd - 42 else 40)
     (if c then lcd_height lcd - 52 else 50) (if c then lcd_height lcd - 52 else 50) (lcd_width lcd) (lcd_height lcd)"
  "known_size lcd \<Longrightarrow> window_on ((if b then lcd_width lcd - 42 else 40) + 1) ((if b then lcd_width lcd - 42 else 40) + 1)
     (if c then lcd_height lcd - 52 else 50) (if c then lcd_height lcd - 52 else 50) (lcd_width lcd) (lcd_height lcd)"
  "known_size lcd \<Longrightarrow> window_on (if b then lcd_width lcd - 42 else 40) (if b then lcd_width lcd - 42 else 40)
     ((if c then lcd_height lcd - 52 else 50) + 1) ((if c then lcd_height lcd - 52 else 50) + 1) (lcd_width lcd) (lcd_height lcd)"
  "known_size lcd \<Longrightarrow> window_on ((if b then lcd_width lcd - 42 else 40) + 1) ((if b then lcd_width lcd - 42 else 40) + 1)
     ((if c then lcd_height lcd - 52 else 50) + 1) ((if c then lcd_height lcd - 52 else 50) + 1) (lcd_width lcd) (lcd_height lcd)"
  by (cases b; cases c; erule known_sizes; simp add: window_on_def)+

lemma asks_modes: "known_size lcd \<Longrightarrow> asks (fits lcd) (test_address_modes E T (recorder answer lcd))"
  unfolding test_address_modes_def Let_def case_prod_beta recorder_simps recorder_format recorder_mirrors
  by (intro asks_bind asks_category asks_check asks_map asks_for asks_if asks_and asks_requests asks_modes_write_only asks_read_pixels_at)
     (simp_all only: fits_simps window_fixed test_colors_fit address_format window_single list.pred_inject fst_conv snd_conv simp_thms)

text \<open>The windows of the other tests, for a panel of width \<open>w\<close> and height \<open>h\<close>.\<close>

definition wrap_windows :: "u16 \<Rightarrow> u16 \<Rightarrow> (u16 \<times> u16 \<times> u16 \<times> u16) list" where
  "wrap_windows w h =
     [(w - 3, w - 1, h div 3, h div 3), (w div 3, w div 3, h - 3, h - 1), (w div 2, w div 2, h div 2, h div 2),
      (w - 3, w - 3, h div 3, h div 3), (w - 3 + 1, w - 3 + 1, h div 3, h div 3), (w - 3 + 2, w - 3 + 2, h div 3, h div 3),
      (w div 3, w div 3, h - 3, h - 3), (w div 3, w div 3, h - 3 + 1, h - 3 + 1), (w div 3, w div 3, h - 3 + 2, h - 3 + 2),
      (w - 7, w - 3, h div 3, h div 3 + 4), (w - 5, w - 5, h div 3, h div 3), (w - 6, w - 6, h div 3, h div 3),
      (w div 3, w div 3, h - 7, h - 3), (w div 3, w div 3, h - 5, h - 5), (w div 3, w div 3, h - 6, h - 6)]"

lemma wrap_windows_on:
  assumes "known_size lcd"
  shows "list_all (\<lambda>(x_start, x_end, y_start, y_end). window_on x_start x_end y_start y_end (lcd_width lcd) (lcd_height lcd))
    (wrap_windows (lcd_width lcd) (lcd_height lcd))"
  using assms by (rule known_sizes) (simp_all add: wrap_windows_def window_on_def)

lemmas wrap_window = wrap_windows_on [unfolded wrap_windows_def, simplified]

lemma asks_wrap:
  "list_all (\<lambda>p. fits lcd (Set_Window (fst p) (fst p) (snd p) (snd p))) ps \<Longrightarrow>
     asks (fits lcd) (test_window_wrap E T (recorder answer lcd) n1 n2 n3 ps success)"
  unfolding test_window_wrap_def case_prod_beta by (intro asks_rules asks_read_pixels_at)

lemma asks_current:
  assumes "fits lcd (Set_Window (fst win) (fst (snd win)) (fst (snd (snd win))) (snd (snd (snd win))))"
    "\<And>x y. fits lcd (Set_Cursor x y) \<Longrightarrow> asks (fits lcd) (cursor x y)" "fits lcd (Set_Cursor (fst place) (snd place))"
    "fits lcd (Set_Window (fst place) (fst place) (snd place) (snd place))"
    "fits lcd (Set_Window (fst other) (fst other) (snd other) (snd other))" "six_bit c"
  shows "asks (fits lcd) (test_current E T (recorder answer lcd) n1 n2 win n cursor place other c actual)"
  unfolding test_current_def case_prod_beta
  using assms by (intro asks_rules asks_requests asks_read_pixel assms)
    (simp_all add: test_color_fits list_all_iff)

lemma asks_cursor: "set_cursor (recorder answer lcd) = Some cursor \<Longrightarrow> fits lcd (Set_Cursor x y) \<Longrightarrow> asks (fits lcd) (cursor x y)"
  by (auto simp: recorder_def simp del: fits_simps intro!: asks_map asks_ask)

lemma has_cursor: "set_cursor (recorder answer lcd) = Some cursor \<Longrightarrow> \<not> Option.is_none (set_cursor lcd)"
  by (auto simp: recorder_def Option.is_none_def)

lemma asks_case: "(x = None \<Longrightarrow> asks ok c) \<Longrightarrow> (\<And>y. x = Some y \<Longrightarrow> asks ok (f y)) \<Longrightarrow> asks ok (case x of None \<Rightarrow> c | Some y \<Rightarrow> f y)"
  by (cases x) simp_all

lemma asks_window_and_cursor: "known_size lcd \<Longrightarrow> asks (fits lcd) (test_window_and_cursor E T (recorder answer lcd))"
  unfolding test_window_and_cursor_def Let_def recorder_simps recorder_format
  by (intro asks_bind asks_category asks_case asks_if asks_and asks_requests asks_wrap asks_simple asks_map asks_current asks_cursor)
     (simp_all add: address_format wrap_window test_colors_fit test_color_fits has_cursor)

lemma asks_bgr: "known_size lcd \<Longrightarrow> asks (fits lcd) (test_bgr_mode E T (recorder answer lcd))"
  unfolding test_bgr_mode_def Let_def case_prod_beta recorder_simps recorder_format
  by (intro asks_rules asks_requests asks_read_pixel)
     (simp_all add: address_format wrap_window test_color_fits)

lemma asks_rows:
  "list_all (\<lambda>y. window_on 0 (lcd_width lcd - 1) (of_nat y) (of_nat y) (lcd_width lcd) (lcd_height lcd)) ys \<Longrightarrow> list_all six_bit row \<Longrightarrow>
     asks (fits lcd) (write_rows (recorder answer lcd) row ys)"
  by (induction ys) (auto intro!: asks_simple asks_and asks_requests)

lemma colors_length: "length PATTERN_COLORS = 8"
  by (simp add: PATTERN_COLORS_def)

lemma band_edge_on:
  assumes "known_size lcd" "k \<le> 8"
  shows "band_edge lcd k \<le> lcd_height lcd"
proof -
  have k: "k = 0 \<or> k = 1 \<or> k = 2 \<or> k = 3 \<or> k = 4 \<or> k = 5 \<or> k = 6 \<or> k = 7 \<or> k = 8" using assms(2) by presburger
  from assms(1) show ?thesis
    unfolding band_edge_def colors_length
    by (rule known_sizes [where P = "\<lambda>w h. ucast (of_nat k * (ucast h :: u32) div of_nat 8) \<le> h"]) (use k in auto)
qed

lemma row_on:
  assumes "known_size lcd" "y < unat (band_edge lcd k)" "k \<le> 8"
  shows "window_on 0 (lcd_width lcd - 1) (of_nat y) (of_nat y) (lcd_width lcd) (lcd_height lcd)"
proof -
  have "unat (band_edge lcd k) \<le> unat (lcd_height lcd)"
    using band_edge_on [OF assms(1,3)] by (simp add: word_le_nat_alt)
  with assms(2) have y: "y < unat (lcd_height lcd)" by simp
  moreover have "unat (lcd_height lcd) < 2 ^ LENGTH(16)" by (rule unsigned_less)
  ultimately have "unat (of_nat y :: u16) = y" by (simp add: unat_of_nat take_bit_nat_eq_self)
  with y have "of_nat y < lcd_height lcd" by (simp add: word_less_nat_alt)
  moreover have "lcd_width lcd - 1 < lcd_width lcd" using assms(1) by (rule known_sizes) simp_all
  ultimately show ?thesis by (simp add: window_on_def)
qed

lemma recorder_edge [simp]: "band_edge (recorder answer lcd) = band_edge lcd"
  by (simp add: band_edge_def fun_eq_iff)

lemma asks_pattern: "known_size lcd \<Longrightarrow> asks (fits lcd) (draw_visible_pattern E T (recorder answer lcd))"
  unfolding draw_visible_pattern_def draw_band_def Let_def recorder_simps recorder_edge colors_length
  by (intro asks_rules asks_requests asks_rows)
     (auto simp: known_size_def test_color_fits list_all_iff intro!: row_on [unfolded known_size_def])

text \<open>What a controller is asked for is what its driver accepts.\<close>

lemma lcd_sizes:
  "known_size (lcd_controller_r61505 E F ke970)" "known_size (lcd_controller_jbt6k71 E)" "known_size (lcd_controller_l5f30539p00 E)"
  "known_size (lcd_controller_pcf8882 E F)" "known_size (lcd_controller_ssd1286 E F)"
  by (simp_all add: known_size_def has_format_def lcd_controller_r61505_def lcd_controller_jbt6k71_def lcd_controller_l5f30539p00_def
      lcd_controller_pcf8882_def lcd_controller_ssd1286_def BIT_def)

lemma asks_mono: "asks ok c \<Longrightarrow> (\<And>r. ok r \<Longrightarrow> good r) \<Longrightarrow> asks good c"
  unfolding asks_def by (erule does_mono) (auto simp: list_all_iff)

lemma asks_lcd_test: "known_size lcd \<Longrightarrow> asks (fits lcd) (lcd_test_controller E T (recorder answer lcd))"
  unfolding lcd_test_controller_def whenM_def
  by (intro asks_bind asks_if asks_printf asks_simple asks_seq asks_formats asks_modes asks_window_and_cursor asks_bgr asks_pattern)

lemma lcd_formats:
  "has_format (lcd_controller_l5f30539p00 E) fmt \<longleftrightarrow> l5f_supports fmt"
  "has_format (lcd_controller_pcf8882 E F) fmt \<longleftrightarrow> fmt = LCD_PIXEL_FORMAT_RGB565"
  "has_format (lcd_controller_ssd1286 E F) fmt \<longleftrightarrow> fmt = LCD_PIXEL_FORMAT_RGB565"
  unfolding has_format_def lcd_controller_l5f30539p00_def lcd_controller_pcf8882_def lcd_controller_ssd1286_def lcd_controller.simps
  by (cases fmt; simp add: l5f_supports_def BIT_def)+

lemma lcd_fields:
  "lcd_width (lcd_controller_r61505 E F ke970) = 240" "lcd_height (lcd_controller_r61505 E F ke970) = 320"
  "lcd_width (lcd_controller_pcf8882 E F) = 132" "lcd_height (lcd_controller_pcf8882 E F) = 176"
  "lcd_width (lcd_controller_ssd1286 E F) = 132" "lcd_height (lcd_controller_ssd1286 E F) = 176"
  "set_cursor (lcd_controller_l5f30539p00 E) = None" "set_cursor (lcd_controller_pcf8882 E F) = None"
  "read_pixels (lcd_controller_pcf8882 E F) = None" "read_pixels (lcd_controller_ssd1286 E F) = None"
  by (simp_all add: lcd_controller_r61505_def lcd_controller_l5f30539p00_def lcd_controller_pcf8882_def lcd_controller_ssd1286_def)

lemma fits_accepts:
  "fits (lcd_controller_r61505 E F ke970) r \<Longrightarrow> r61505_accepts r"
  "fits (lcd_controller_l5f30539p00 E) r \<Longrightarrow> l5f_accepts r"
  "fits (lcd_controller_pcf8882 E F) r \<Longrightarrow> pcf8882_accepts r"
  "fits (lcd_controller_ssd1286 E F) r \<Longrightarrow> ssd1286_accepts r"
  by (cases r; simp add: lcd_fields lcd_formats window_on_def r61505_accepts_def window_fits_def on_panel_def l5f_accepts_def
      pcf8882_accepts_def ssd1286_accepts_def ssd1286_fits_def)+

text \<open>All requests that the test makes of a controller fit it and are accepted by its driver.\<close>

definition test_asks :: "'h env \<Rightarrow> printer \<Rightarrow> (lcd_request list \<Rightarrow> bool \<times> lcd_color list) \<Rightarrow> ('h, 'z recorded_ext) lcd_controller \<Rightarrow>
    (lcd_request \<Rightarrow> bool) \<Rightarrow> bool" where
  "test_asks E T answer lcd accepts \<longleftrightarrow>
     asks (\<lambda>r. fits lcd r \<and> accepts r) (lcd_test_controller E T (recorder answer lcd))"

lemma test_asksI: "known_size lcd \<Longrightarrow> (\<And>r. fits lcd r \<Longrightarrow> accepts r) \<Longrightarrow> test_asks E T answer lcd accepts"
  unfolding test_asks_def by (rule asks_mono [OF asks_lcd_test]) simp_all

text \<open>
  C11. The test of a display controller stays on the panel. On each of the five panels, and whatever the controller answers and returns, every
  window is ordered and lies on the panel with its last row and column, every cursor lies on it, every format is one that the
  controller has, every colour has six bits, and a panel that cannot be read or has no cursor is asked for neither. All these are requests that the
  driver accepts, so that a failed check of the test is never caused by a request the driver had to refuse.
\<close>

theorem lcd_test_stays_on_panel:
  "test_asks E T answer (lcd_controller_r61505 E F ke970) r61505_accepts \<and>
   test_asks E T answer (lcd_controller_jbt6k71 E) (\<lambda>_. True) \<and>
   test_asks E T answer (lcd_controller_l5f30539p00 E) l5f_accepts \<and>
   test_asks E T answer (lcd_controller_pcf8882 E F) pcf8882_accepts \<and>
   test_asks E T answer (lcd_controller_ssd1286 E F) ssd1286_accepts"
  by (intro conjI test_asksI lcd_sizes TrueI) (erule fits_accepts)+

end
